(* ===== verification/Go_Prelude.thy ===== *)
theory Go_Prelude
  imports Complex_Main "HOL-Library.Char_ord" "HOL-Library.List_Lexorder"
    "HOL-Library.Product_Lexorder" "HOL-Library.Multiset"
begin

text \<open>
  Shared vocabulary of the development: the part of Go's standard library that the modelled
  packages use on strings, slices and numbers, and the generic lemmas about it.

  A Go \<open>string\<close> is a \<^typ>\<open>string\<close> (a list of bytes). Case mapping and white space are those of
  ASCII: \<open>strings.ToLower\<close> and \<open>strings.TrimSpace\<close> act on the bytes below 128 as Go does and
  leave the other bytes alone. Go orders strings bytewise, which is the lexicographic order that
  the imported order instances put on \<^typ>\<open>string\<close>, so \<open>sort.Strings\<close> is \<^const>\<open>sort\<close> and a
  stable sort by a comparison of keys is \<^const>\<open>sort_key\<close>. A finite \<open>float64\<close> is the rational
  number it denotes.
\<close>

named_theorems go_string "equations of the string helpers"
named_theorems go_unique "laws of the seen-map loops"

type_synonym float64 = rat
type_synonym time = int \<comment> \<open>nanoseconds since the Unix epoch\<close>
type_synonym duration = int \<comment> \<open>nanoseconds\<close>

section \<open>Strings\<close>

definition byte :: "char \<Rightarrow> nat" where
  "byte c = of_char c"

definition lower_char :: "char \<Rightarrow> char" where
  "lower_char c = (if 65 \<le> byte c \<and> byte c \<le> 90 then char_of (byte c + 32) else c)"

definition to_lower :: "string \<Rightarrow> string" where
  "to_lower s = map lower_char s"

definition is_space :: "char \<Rightarrow> bool" where
  "is_space c \<longleftrightarrow> byte c = 32 \<or> (9 \<le> byte c \<and> byte c \<le> 13)"

definition trim_by :: "(char \<Rightarrow> bool) \<Rightarrow> string \<Rightarrow> string" where
  "trim_by p s = rev (dropWhile p (rev (dropWhile p s)))"

definition trim_space :: "string \<Rightarrow> string" where
  "trim_space s = trim_by is_space s"

definition has_prefix :: "string \<Rightarrow> string \<Rightarrow> bool" where
  "has_prefix p s \<longleftrightarrow> take (length p) s = p"

definition trim_prefix :: "string \<Rightarrow> string \<Rightarrow> string" where
  "trim_prefix p s = (if has_prefix p s then drop (length p) s else s)"

text \<open>\<open>strings.SplitN(s, c, 2)\<close> for a one-byte separator: the whole string, or what is before and
  after the first separator.\<close>

definition split_two :: "char \<Rightarrow> string \<Rightarrow> string list" where
  "split_two c s =
     (case dropWhile (\<lambda>x. x \<noteq> c) s of
        [] \<Rightarrow> [s]
      | _ # rest \<Rightarrow> [takeWhile (\<lambda>x. x \<noteq> c) s, rest])"

text \<open>\<open>strings.HasSuffix\<close>, \<open>strings.TrimSuffix\<close> and \<open>strings.TrimRight\<close> with a cut set of one byte.\<close>

definition has_suffix :: "string \<Rightarrow> string \<Rightarrow> bool" where
  "has_suffix x s \<longleftrightarrow> has_prefix (rev x) (rev s)"

definition trim_suffix :: "string \<Rightarrow> string \<Rightarrow> string" where
  "trim_suffix x s = (if has_suffix x s then take (length s - length x) s else s)"

definition trim_right :: "char \<Rightarrow> string \<Rightarrow> string" where
  "trim_right c s = rev (dropWhile (\<lambda>x. x = c) (rev s))"

text \<open>\<open>strings.Cut\<close> around the first occurrence of a separator, the text around the last one
  (\<open>strings.LastIndex\<close>), and \<open>strings.Contains\<close>.\<close>

fun cut_str :: "string \<Rightarrow> string \<Rightarrow> (string \<times> string) option" where
  "cut_str sep [] = (if sep = [] then Some ([], []) else None)"
| "cut_str sep (c # cs) =
     (if has_prefix sep (c # cs) then Some ([], drop (length sep) (c # cs))
      else map_option (\<lambda>(a, b). (c # a, b)) (cut_str sep cs))"

fun last_cut :: "string \<Rightarrow> string \<Rightarrow> (string \<times> string) option" where
  "last_cut sep [] = (if sep = [] then Some ([], []) else None)"
| "last_cut sep (c # cs) =
     (case last_cut sep cs of
        Some (a, b) \<Rightarrow> Some (c # a, b)
      | None \<Rightarrow> if has_prefix sep (c # cs) then Some ([], drop (length sep) (c # cs)) else None)"

definition contains :: "string \<Rightarrow> string \<Rightarrow> bool" where
  "contains sep s \<longleftrightarrow> cut_str sep s \<noteq> None"

text \<open>Splitting at every byte that satisfies a predicate; \<open>strings.Fields\<close> keeps the non-empty
  pieces between runs of white space.\<close>

fun split_by :: "(char \<Rightarrow> bool) \<Rightarrow> string \<Rightarrow> string list" where
  "split_by p [] = [[]]"
| "split_by p (c # cs) =
     (if p c then [] # split_by p cs
      else (case split_by p cs of [] \<Rightarrow> [[c]] | w # ws \<Rightarrow> (c # w) # ws))"

definition space_fields :: "string \<Rightarrow> string list" where
  "space_fields s = filter (\<lambda>w. w \<noteq> []) (split_by is_space s)"

fun join :: "string \<Rightarrow> string list \<Rightarrow> string" where
  "join sep [] = []"
| "join sep [x] = x"
| "join sep (x # y # xs) = x @ sep @ join sep (y # xs)"

section \<open>Numbers as text\<close>

definition digit :: "nat \<Rightarrow> char" where
  "digit n = char_of (48 + n)"

fun show_nat :: "nat \<Rightarrow> string" where
  "show_nat n = (if n < 10 then [digit n] else show_nat (n div 10) @ [digit (n mod 10)])"

declare show_nat.simps [simp del]

definition show_int :: "int \<Rightarrow> string" where
  "show_int i = (if i < 0 then ''-'' @ show_nat (nat (- i)) else show_nat (nat i))"

text \<open>\<open>%.1f\<close>: the nearest multiple of one tenth, ties to the even digit.\<close>

definition round_half_even :: "rat \<Rightarrow> int" where
  "round_half_even x =
     (let f = \<lfloor>x\<rfloor>; d = x - of_int f
      in if d < 1 / 2 then f else if 1 / 2 < d then f + 1 else if even f then f else f + 1)"

definition show_f1 :: "float64 \<Rightarrow> string" where
  "show_f1 x =
     (let n = nat (round_half_even (\<bar>x\<bar> * 10))
      in (if x < 0 then ''-'' else []) @ show_nat (n div 10) @ ''.'' @ show_nat (n mod 10))"

definition hex_digit :: "nat \<Rightarrow> char" where
  "hex_digit n = (if n < 10 then char_of (48 + n) else char_of (87 + n))"

text \<open>\<open>%q\<close> (\<open>strconv.Quote\<close>) on ASCII text.\<close>

definition quote_char :: "char \<Rightarrow> string" where
  "quote_char c =
     (let n = byte c
      in if n = 34 \<or> n = 92 then [CHR 0x5C, c]
         else if n = 7 then [CHR 0x5C, CHR ''a'']
         else if n = 8 then [CHR 0x5C, CHR ''b'']
         else if n = 12 then [CHR 0x5C, CHR ''f'']
         else if n = 10 then [CHR 0x5C, CHR ''n'']
         else if n = 13 then [CHR 0x5C, CHR ''r'']
         else if n = 9 then [CHR 0x5C, CHR ''t'']
         else if n = 11 then [CHR 0x5C, CHR ''v'']
         else if n < 32 \<or> 127 \<le> n then [CHR 0x5C, CHR ''x'', hex_digit (n div 16), hex_digit (n mod 16)]
         else [c])"

definition quote :: "string \<Rightarrow> string" where
  "quote s = [CHR 0x22] @ concat (map quote_char s) @ [CHR 0x22]"

section \<open>Loops over a slice with a seen-map\<close>

text \<open>
  The shape of \<open>uniqueDependencyTypes\<close>, \<open>uniqueDependencyScopes\<close>, \<open>uniqueStrings\<close> and
  \<open>dedupeSnapshotPackages\<close>: skip some values, skip a value whose key was seen, keep the rest.
\<close>

fun unique_loop :: "('a \<Rightarrow> bool) \<Rightarrow> ('a \<Rightarrow> 'k) \<Rightarrow> 'k set \<Rightarrow> 'a list \<Rightarrow> 'a list" where
  "unique_loop skip key seen [] = []"
| "unique_loop skip key seen (v # vs) =
     (if skip v then unique_loop skip key seen vs
      else if key v \<in> seen then unique_loop skip key seen vs
      else v # unique_loop skip key (insert (key v) seen) vs)"

section \<open>Lemmas on strings\<close>

lemma byte_less: "byte c < 256"
  unfolding byte_def using nat_of_char_less_256 [of c] by simp

lemma byte_char_of: "n < 256 \<Longrightarrow> byte (char_of n) = n"
  by (simp add: byte_def)

lemma byte_lower_char:
  "byte (lower_char c) = (if 65 \<le> byte c \<and> byte c \<le> 90 then byte c + 32 else byte c)"
  by (simp add: lower_char_def byte_char_of)

lemma lower_char_idem [simp]: "lower_char (lower_char c) = lower_char c"
proof (cases "65 \<le> byte c \<and> byte c \<le> 90")
  case True
  then have "byte (lower_char c) = byte c + 32" by (simp add: byte_lower_char)
  with True show ?thesis by (simp add: lower_char_def [of "lower_char c"])
next
  case False
  then have "lower_char c = c" unfolding lower_char_def by (rule if_not_P)
  then show ?thesis by simp
qed

lemma to_lower_idem [simp]: "to_lower (to_lower s) = to_lower s"
  by (simp add: to_lower_def comp_def)

lemma to_lower_Nil [simp]: "to_lower [] = []" "to_lower s = [] \<longleftrightarrow> s = []"
  by (simp_all add: to_lower_def)

lemma to_lower_append [simp]: "to_lower (s @ t) = to_lower s @ to_lower t"
  by (simp add: to_lower_def)

lemma is_space_lower_char [simp]: "is_space (lower_char c) \<longleftrightarrow> is_space c"
  by (auto simp: is_space_def byte_lower_char)

lemma dropWhile_map_inv:
  "(\<And>x. p (f x) = p x) \<Longrightarrow> dropWhile p (map f xs) = map f (dropWhile p xs)"
  by (induction xs) auto

lemma trim_space_to_lower: "trim_space (to_lower s) = to_lower (trim_space s)"
  by (simp add: trim_space_def trim_by_def to_lower_def dropWhile_map_inv rev_map)

lemma dropWhile_eq_self: "xs = [] \<or> \<not> p (hd xs) \<Longrightarrow> dropWhile p xs = xs"
  by (cases xs) auto

lemma dropWhile_idem_hd: "dropWhile p xs = [] \<or> \<not> p (hd (dropWhile p xs))"
  using hd_dropWhile [of p xs] by blast

lemma trim_by_ends:
  "trim_by p s = [] \<or> (\<not> p (hd (trim_by p s)) \<and> \<not> p (last (trim_by p s)))"
proof (cases "trim_by p s = []")
  case False
  define t where "t = dropWhile p s"
  have tr: "trim_by p s = rev (dropWhile p (rev t))"
    by (simp add: trim_by_def t_def)
  with False have ne: "dropWhile p (rev t) \<noteq> []" by auto
  then have "\<not> p (hd (dropWhile p (rev t)))" by (rule hd_dropWhile)
  then have l: "\<not> p (last (trim_by p s))" by (simp add: tr ne last_rev)
  have "rev t = takeWhile p (rev t) @ dropWhile p (rev t)" by simp
  then have split: "t = trim_by p s @ rev (takeWhile p (rev t))"
    unfolding tr by (metis rev_append rev_rev_ident)
  from False have "t \<noteq> []" by (subst split) simp
  moreover from False have "hd t = hd (trim_by p s)" by (subst split) simp
  moreover from \<open>t \<noteq> []\<close> have "\<not> p (hd t)" unfolding t_def by (rule hd_dropWhile)
  ultimately show ?thesis using l by simp
qed simp

lemma trim_by_idem [simp]: "trim_by p (trim_by p s) = trim_by p s"
proof -
  define t where "t = trim_by p s"
  have "t = [] \<or> (\<not> p (hd t) \<and> \<not> p (last t))"
    unfolding t_def by (rule trim_by_ends)
  then have "trim_by p t = t"
    by (auto simp: trim_by_def dropWhile_eq_self hd_rev)
  then show ?thesis by (simp add: t_def)
qed

lemma trim_space_idem [simp]: "trim_space (trim_space s) = trim_space s"
  by (simp add: trim_space_def)

lemma trim_space_Nil [simp]: "trim_space [] = []"
  by (simp add: trim_space_def trim_by_def)

lemma has_prefix_append [simp]: "has_prefix p (p @ s)"
  by (simp add: has_prefix_def)

lemma has_prefixE: "has_prefix p s \<Longrightarrow> \<exists>t. s = p @ t"
  by (metis append_take_drop_id has_prefix_def)

lemma has_prefix_single: "has_prefix [c] s \<longleftrightarrow> (\<exists>t. s = c # t)"
  by (cases s) (auto simp: has_prefix_def)

lemma has_suffix_append [simp]: "has_suffix x (y @ x)"
  by (simp add: has_suffix_def)

lemma has_suffixE: "has_suffix x s \<Longrightarrow> \<exists>y. s = y @ x"
  unfolding has_suffix_def using has_prefixE [of "rev x" "rev s"] by (metis rev_append rev_rev_ident)

lemma trim_suffix_append [simp]: "trim_suffix x (y @ x) = y"
  by (simp add: trim_suffix_def)

lemma trim_prefix_append [simp]: "trim_prefix p (p @ s) = s"
  by (simp add: trim_prefix_def)

subsection \<open>Cutting at a separator\<close>

lemma cut_str_Some: "cut_str sep s = Some (a, b) \<Longrightarrow> s = a @ sep @ b"
proof (induction s arbitrary: a)
  case (Cons c cs)
  then show ?case by (auto split: if_splits dest!: has_prefixE)
qed (simp split: if_splits)

lemma last_cut_Some: "last_cut sep s = Some (a, b) \<Longrightarrow> s = a @ sep @ b"
proof (induction s arbitrary: a b)
  case (Cons c cs)
  then show ?case by (fastforce split: if_splits option.splits dest!: has_prefixE)
qed (simp split: if_splits)

text \<open>A cut exists for every occurrence.\<close>

lemma contains_iff: "contains sep s \<longleftrightarrow> (\<exists>a b. s = a @ sep @ b)"
proof
  show "\<exists>a b. s = a @ sep @ b" if "contains sep s"
    using that cut_str_Some [of sep s] by (auto simp: contains_def)
  have "cut_str sep (a @ sep @ b) \<noteq> None" for a b
    by (induction a) (auto, cases "sep @ b", auto simp: has_prefix_def append_eq_Cons_conv)
  then show "contains sep s" if "\<exists>a b. s = a @ sep @ b" using that by (auto simp: contains_def)
qed

lemma contains_append [simp]: "contains sep s \<Longrightarrow> contains sep (a @ s)" "contains sep s \<Longrightarrow> contains sep (s @ b)"
  unfolding contains_iff by (metis append.assoc)+

lemma cut_str_leftmost: "sep \<noteq> [] \<Longrightarrow> cut_str sep (a' @ sep @ b') = Some (a, b) \<Longrightarrow> length a \<le> length a'"
proof (induction a' arbitrary: a)
  case Nil
  then show ?case by (cases sep) (auto simp: has_prefix_def)
qed (auto split: if_splits)

text \<open>The first cut leaves no occurrence that starts before it.\<close>

lemma cut_str_iff:
  assumes "sep \<noteq> []"
  shows "cut_str sep s = Some (a, b) \<longleftrightarrow> s = a @ sep @ b \<and> \<not> contains sep (a @ butlast sep)"
proof
  assume cut: "cut_str sep s = Some (a, b)"
  then have s: "s = a @ sep @ b" by (rule cut_str_Some)
  moreover have "\<not> contains sep (a @ butlast sep)"
  proof
    assume "contains sep (a @ butlast sep)"
    then obtain a' b' where e: "a @ butlast sep = a' @ sep @ b'" by (auto simp: contains_iff)
    have "s = a' @ sep @ b' @ [last sep] @ b" using assms s e by (metis append.assoc append_butlast_last_id)
    with cut assms have "length a \<le> length a'" using cut_str_leftmost by metis
    moreover from e have "length a + (length sep - 1) = length a' + length sep + length b'" by (metis length_append length_butlast add.assoc)
    ultimately show False using assms by (cases sep) auto
  qed
  ultimately show "s = a @ sep @ b \<and> \<not> contains sep (a @ butlast sep)" ..
next
  have "\<not> contains sep (a @ butlast sep) \<Longrightarrow> cut_str sep (a @ sep @ b) = Some (a, b)"
  proof (induction a)
    case Nil
    from assms show ?case by (cases sep) (auto simp: has_prefix_def)
  next
    case (Cons c a)
    have "\<not> has_prefix sep (c # a @ sep @ b)"
    proof
      assume p: "has_prefix sep (c # a @ sep @ b)"
      have "c # a @ sep @ b = (c # a @ butlast sep) @ [last sep] @ b" using assms by simp
      moreover have "length sep \<le> length (c # a @ butlast sep)" using assms by (cases sep) auto
      ultimately have "has_prefix sep (c # a @ butlast sep)"
        using p by (simp only: has_prefix_def take_append) simp
      then have "contains sep (c # a @ butlast sep)" unfolding contains_iff by (metis append_Nil has_prefixE)
      with Cons.prems show False by simp
    qed
    moreover have "\<not> contains sep (a @ butlast sep)" using Cons.prems contains_append(1) [of sep "a @ butlast sep" "[c]"] by auto
    ultimately show ?case using Cons.IH by simp
  qed
  then show "s = a @ sep @ b \<and> \<not> contains sep (a @ butlast sep) \<Longrightarrow> cut_str sep s = Some (a, b)" by blast
qed

lemma last_cut_None: "last_cut sep s = None \<longleftrightarrow> \<not> contains sep s"
proof (induction s)
  case (Cons c cs)
  then show ?case by (auto simp: contains_def split: option.splits)
qed (auto simp: contains_def)

lemma last_cut_iff:
  assumes "sep \<noteq> []"
  shows "last_cut sep s = Some (a, b) \<longleftrightarrow> s = a @ sep @ b \<and> \<not> contains sep (tl sep @ b)"
proof
  show "s = a @ sep @ b \<and> \<not> contains sep (tl sep @ b)" if "last_cut sep s = Some (a, b)"
    using that
  proof (induction s arbitrary: a)
    case (Cons c cs)
    show ?case
    proof (cases "last_cut sep cs")
      case None
      with Cons.prems have a: "a = []" and p: "has_prefix sep (c # cs)" and b: "b = drop (length sep) (c # cs)"
        by (auto split: if_splits)
      then have s: "c # cs = sep @ b" by (metis append_take_drop_id has_prefix_def)
      with assms have "cs = tl sep @ b" by (cases sep) auto
      with None a s show ?thesis by (simp add: last_cut_None)
    next
      case (Some x)
      with Cons show ?thesis by (cases x) auto
    qed
  qed (use assms in simp)
  have "\<not> contains sep (tl sep @ b) \<Longrightarrow> last_cut sep (a @ sep @ b) = Some (a, b)"
  proof (induction a)
    case Nil
    from assms obtain d ds where "sep = d # ds" by (cases sep) auto
    moreover from this Nil have "last_cut sep (ds @ b) = None" by (simp add: last_cut_None)
    ultimately show ?case by (simp add: has_prefix_def)
  qed simp
  then show "s = a @ sep @ b \<and> \<not> contains sep (tl sep @ b) \<Longrightarrow> last_cut sep s = Some (a, b)" by blast
qed

lemma contains_single: "contains [c] s \<longleftrightarrow> c \<in> set s"
  by (auto simp: contains_iff in_set_conv_decomp)

lemma split_two_cases:
  "split_two c s = [s] \<and> c \<notin> set s \<or>
   (\<exists>a b. split_two c s = [a, b] \<and> s = a @ c # b \<and> c \<notin> set a)"
proof (cases "dropWhile (\<lambda>x. x \<noteq> c) s")
  case Nil
  then have "c \<notin> set s" by (auto simp: dropWhile_eq_Nil_conv)
  moreover from Nil have "split_two c s = [s]" unfolding split_two_def by (simp only: list.case)
  ultimately show ?thesis by blast
next
  case (Cons x rest)
  then have "x = c" using hd_dropWhile [of "\<lambda>x. x \<noteq> c" s] by simp
  moreover have "s = takeWhile (\<lambda>x. x \<noteq> c) s @ dropWhile (\<lambda>x. x \<noteq> c) s" by simp
  moreover have "c \<notin> set (takeWhile (\<lambda>x. x \<noteq> c) s)" by (auto dest: set_takeWhileD)
  ultimately show ?thesis using Cons by (auto simp: split_two_def)
qed

section \<open>Lemmas on decimal text\<close>

lemma byte_digit: "n < 10 \<Longrightarrow> byte (digit n) = 48 + n"
  by (simp add: digit_def byte_char_of)

lemma show_nat_digits: "\<forall>c \<in> set (show_nat n). 48 \<le> byte c \<and> byte c \<le> 57"
proof (induction n rule: show_nat.induct)
  case (1 n)
  then show ?case
    by (subst show_nat.simps) (auto simp: byte_digit)
qed

definition read_nat :: "string \<Rightarrow> nat" where
  "read_nat s = foldl (\<lambda>n c. 10 * n + (byte c - 48)) 0 s"

lemma read_show_nat [simp]: "read_nat (show_nat n) = n"
proof (induction n rule: show_nat.induct)
  case (1 n)
  show ?case
  proof (cases "n < 10")
    case True
    then show ?thesis by (subst show_nat.simps) (simp add: read_nat_def byte_digit)
  next
    case False
    with "1.IH" show ?thesis
      by (subst show_nat.simps) (simp add: read_nat_def byte_digit)
  qed
qed

lemma show_nat_inject [simp]: "show_nat m = show_nat n \<longleftrightarrow> m = n"
  by (metis read_show_nat)

lemma show_nat_not_Nil [simp]: "show_nat n \<noteq> []"
  by (subst show_nat.simps) simp

lemma show_int_inject [simp]: "show_int i = show_int j \<longleftrightarrow> i = j"
proof
  have m1: "show_nat n \<noteq> CHR ''-'' # t" for n t
    using show_nat_digits [of n] by (auto simp: byte_def)
  then have m2: "CHR ''-'' # t \<noteq> show_nat n" for n t by metis
  assume "show_int i = show_int j"
  then show "i = j"
    by (auto simp: show_int_def m1 m2 split: if_splits)
qed simp

lemma colon_not_in_show_int: "CHR '':'' \<notin> set (show_int i)"
  using show_nat_digits [of "nat i"] show_nat_digits [of "nat (- i)"]
  by (auto simp: show_int_def byte_def)

section \<open>Lemmas on the seen-map loops\<close>

lemma unique_loop_subset [go_unique]:
  "v \<in> set (unique_loop skip key seen vs) \<Longrightarrow> v \<in> set vs \<and> \<not> skip v \<and> key v \<notin> seen"
  by (induction vs arbitrary: seen) (auto split: if_splits)

lemma unique_loop_keys [go_unique]:
  "key ` set (unique_loop skip key seen vs) = key ` {v \<in> set vs. \<not> skip v} - seen"
  by (induction vs arbitrary: seen) auto

lemma unique_loop_distinct_keys [go_unique]:
  "distinct (map key (unique_loop skip key seen vs))"
proof (induction vs arbitrary: seen)
  case (Cons v vs)
  have "key v \<notin> key ` set (unique_loop skip key (insert (key v) seen) vs)"
    by (simp add: unique_loop_keys)
  with Cons.IH show ?case by simp
qed simp

lemma unique_loop_id_keep:
  "(\<forall>v \<in> set vs. \<not> skip v \<and> key v \<notin> seen) \<Longrightarrow> distinct (map key vs) \<Longrightarrow>
   unique_loop skip key seen vs = vs"
proof (induction vs arbitrary: seen)
  case (Cons v vs)
  then have "key v \<notin> key ` set vs" and d: "distinct (map key vs)" by simp_all
  then have "\<forall>w \<in> set vs. \<not> skip w \<and> key w \<notin> insert (key v) seen"
    using Cons.prems(1) by (metis image_eqI insert_iff list.set_intros(2))
  then have "unique_loop skip key (insert (key v) seen) vs = vs"
    using d by (rule Cons.IH)
  with Cons.prems show ?case by simp
qed simp

lemma set_unique_loop_id:
  "set (unique_loop skip (\<lambda>v. v) {} vs) = {v \<in> set vs. \<not> skip v}"
  using unique_loop_keys [where key = "\<lambda>v. v" and seen = "{}" and skip = skip and vs = vs]
  by simp

lemma distinct_unique_loop_id: "distinct (unique_loop skip (\<lambda>v. v) seen vs)"
  using unique_loop_distinct_keys [where key = "\<lambda>v. v" and seen = seen and skip = skip and vs = vs]
  by simp

lemma sort_unique_loop:
  fixes vs :: "'a :: linorder list"
  shows "sort (unique_loop skip (\<lambda>v. v) {} vs) = sorted_list_of_set {v \<in> set vs. \<not> skip v}"
  using distinct_unique_loop_id [of skip "{}" vs] set_unique_loop_id [of skip vs]
  by (metis sorted_list_of_set_sort_remdups distinct_remdups_id)

lemma sort_unique_loop_cong:
  fixes vs :: "'a :: linorder list"
  shows "set vs = set ws \<Longrightarrow>
    sort (unique_loop skip (\<lambda>v. v) {} vs) = sort (unique_loop skip (\<lambda>v. v) {} ws)"
  by (simp add: sort_unique_loop)

section \<open>Lemmas on sorting\<close>

lemma sort_key_mset_unique:
  assumes "mset xs = mset ys" and "inj_on f (set xs)"
  shows "sort_key f xs = sort_key f ys"
proof (rule properties_for_sort_key)
  show "mset (sort_key f ys) = mset xs" using assms(1) by simp
  show "sorted (map f (sort_key f ys))" by simp
  fix k
  have eqset: "set xs = set ys" using assms(1) by (rule mset_eq_setD)
  show "filter (\<lambda>x. f k = f x) (sort_key f ys) = filter (\<lambda>x. f k = f x) xs" if "k \<in> set (sort_key f ys)" for k
  proof -
    from that have k: "k \<in> set xs" "k \<in> set ys" using eqset by auto
    have "filter (\<lambda>x. f k = f x) zs = filter (\<lambda>x. k = x) zs" if "set zs = set xs" for zs
      using that k assms(2) by (intro filter_cong) (auto simp: inj_on_def)
    moreover have "filter (\<lambda>x. k = x) zs = replicate (count (mset zs) k) k" for zs
      by (induction zs) auto
    ultimately show ?thesis
      using eqset assms(1) by simp
  qed
qed

end
