(* ===== verification/Domain_Errors.thy ===== *)
theory Domain_Errors
  imports Go_Prelude
begin

text \<open>
  Errors as values (\<open>internal/core/domain/errors.go\<close>, \<open>internal/errutil/cancel.go\<close>). A Go error is
  its text together with the sentinels found in its chain by \<open>errors.Is\<close>. A fallible function
  returns \<^typ>\<open>'e + 'a\<close> with the error on the left.
\<close>

datatype sentinel =
    ErrTenantNotFound
  | ErrTenantNameConflict
  | ErrPolicyNotFound
  | ErrPolicyNameConflict
  | ErrPolicyVersionNotFound
  | ErrPolicyDeleteEnabled
  | ErrPolicyInUse
  | ErrDeprecatedPolicyConfig
  | ErrUnsupportedPolicySchemaVersion
  | ErrInvalidPolicy
  | ErrPolicyViolation
  | ErrPolicyUpstreamIncompatible
  | ErrUpstreamNotFound
  | ErrUpstreamNameConflict
  | ErrUpstreamRegistryConflict
  | ErrUpstreamInUse
  | ErrUnsupportedUpstreamCapability
  | ErrUpstreamPolicyConflict
  | ErrUpstreamAuthInvalid
  | ErrUpstreamAuthKeyUnavailable
  | ErrUpstreamAuthTransportInsecure
  | ErrUpstreamUnavailable
  | ErrEnrichmentFailed
  | ErrAuditUnavailable
  | ErrBundleUnavailable
  | ErrArtifactNotFound
  | ErrInvalidArtifactRef
  | ErrCacheMiss
  | ErrUnauthorized
  | ContextCanceled
  | ContextDeadlineExceeded

fun sentinel_text :: "sentinel \<Rightarrow> string" where
  "sentinel_text ErrTenantNotFound = ''tenant not found''"
| "sentinel_text ErrTenantNameConflict = ''tenant name already exists''"
| "sentinel_text ErrPolicyNotFound = ''policy not found''"
| "sentinel_text ErrPolicyNameConflict = ''policy name already exists''"
| "sentinel_text ErrPolicyVersionNotFound = ''policy version not found''"
| "sentinel_text ErrPolicyDeleteEnabled = ''enabled policy cannot be deleted''"
| "sentinel_text ErrPolicyInUse = ''policy is in use''"
| "sentinel_text ErrDeprecatedPolicyConfig = ''deprecated stored policy config''"
| "sentinel_text ErrUnsupportedPolicySchemaVersion = ''unsupported policy schema version''"
| "sentinel_text ErrInvalidPolicy = ''invalid policy''"
| "sentinel_text ErrPolicyViolation = ''policy violation''"
| "sentinel_text ErrPolicyUpstreamIncompatible = ''policy is not supported by upstream''"
| "sentinel_text ErrUpstreamNotFound = ''upstream not found''"
| "sentinel_text ErrUpstreamNameConflict = ''upstream name already exists''"
| "sentinel_text ErrUpstreamRegistryConflict = ''upstream registry already exists''"
| "sentinel_text ErrUpstreamInUse = ''upstream is in use''"
| "sentinel_text ErrUnsupportedUpstreamCapability = ''unsupported upstream capability''"
| "sentinel_text ErrUpstreamPolicyConflict = ''upstream update conflicts with scoped policies''"
| "sentinel_text ErrUpstreamAuthInvalid = ''invalid upstream auth''"
| "sentinel_text ErrUpstreamAuthKeyUnavailable = ''upstream auth encryption key unavailable''"
| "sentinel_text ErrUpstreamAuthTransportInsecure = ''upstream auth requires secure bundle transport''"
| "sentinel_text ErrUpstreamUnavailable = ''upstream unavailable''"
| "sentinel_text ErrEnrichmentFailed = ''enrichment failed''"
| "sentinel_text ErrAuditUnavailable = ''audit logging unavailable''"
| "sentinel_text ErrBundleUnavailable = ''bundle unavailable''"
| "sentinel_text ErrArtifactNotFound = ''artifact not found''"
| "sentinel_text ErrInvalidArtifactRef = ''invalid artifact reference''"
| "sentinel_text ErrCacheMiss = ''cache miss''"
| "sentinel_text ErrUnauthorized = ''unauthorized''"
| "sentinel_text ContextCanceled = ''context canceled''"
| "sentinel_text ContextDeadlineExceeded = ''context deadline exceeded''"

record go_error =
  err_is :: "sentinel list"
  err_text :: string

type_synonym 'a result = "go_error + 'a"

definition errors_is :: "go_error \<Rightarrow> sentinel \<Rightarrow> bool" where
  "errors_is e s \<longleftrightarrow> s \<in> set (err_is e)"

text \<open>\<open>IsCanceled\<close> and \<open>IsDeadlineExceeded\<close> of \<open>errutil\<close>.\<close>

definition IsCanceled :: "go_error \<Rightarrow> bool" where
  "IsCanceled e = errors_is e ContextCanceled"

definition IsDeadlineExceeded :: "go_error \<Rightarrow> bool" where
  "IsDeadlineExceeded e = errors_is e ContextDeadlineExceeded"

text \<open>The sentinel itself; \<open>fmt.Errorf\<close> with no wrapped error; \<open>fmt.Errorf("%w: ...", s)\<close>; and
  \<open>fmt.Errorf("prefix: %w", e)\<close>, which keeps the sentinels of \<open>e\<close>.\<close>

definition sentinel_error :: "sentinel \<Rightarrow> go_error" where
  "sentinel_error s = \<lparr>err_is = [s], err_text = sentinel_text s\<rparr>"

definition plain_error :: "string \<Rightarrow> go_error" where
  "plain_error t = \<lparr>err_is = [], err_text = t\<rparr>"

definition wrap_sentinel :: "sentinel \<Rightarrow> string \<Rightarrow> go_error" where
  "wrap_sentinel s t = \<lparr>err_is = [s], err_text = sentinel_text s @ '': '' @ t\<rparr>"

definition wrap_error :: "string \<Rightarrow> go_error \<Rightarrow> go_error" where
  "wrap_error t e = \<lparr>err_is = err_is e, err_text = t @ '': '' @ err_text e\<rparr>"

definition bind_result :: "'a result \<Rightarrow> ('a \<Rightarrow> 'b result) \<Rightarrow> 'b result" where
  "bind_result r f = (case r of Inl e \<Rightarrow> Inl e | Inr a \<Rightarrow> f a)"

definition map_error :: "(go_error \<Rightarrow> go_error) \<Rightarrow> 'a result \<Rightarrow> 'a result" where
  "map_error f r = (case r of Inl e \<Rightarrow> Inl (f e) | Inr a \<Rightarrow> Inr a)"

section \<open>Lemmas\<close>

lemma errors_is_simps [simp]:
  "errors_is (sentinel_error s) t \<longleftrightarrow> t = s"
  "errors_is (plain_error x) t \<longleftrightarrow> False"
  "errors_is (wrap_sentinel s x) t \<longleftrightarrow> t = s"
  "errors_is (wrap_error x e) t \<longleftrightarrow> errors_is e t"
  by (auto simp: errors_is_def sentinel_error_def plain_error_def wrap_sentinel_def wrap_error_def)

lemma map_error_simps [simp]:
  "map_error f (Inr a) = Inr a"
  "map_error f (Inl e) = Inl (f e)"
  "map_error f r = Inr b \<longleftrightarrow> r = Inr b"
  by (auto simp: map_error_def split: sum.splits)

lemma bind_result_Inr [simp]: "bind_result (Inr a) f = f a"
  by (simp add: bind_result_def)

lemma bind_result_eq_Inr: "bind_result r f = Inr b \<longleftrightarrow> (\<exists>a. r = Inr a \<and> f a = Inr b)"
  by (auto simp: bind_result_def split: sum.split)

end
