(* ===== verification/Domain_Artifact.thy ===== *)
theory Domain_Artifact
  imports Domain_Errors
begin

text \<open>
  Artifact identities and their canonical form (\<open>internal/core/domain/artifact.go\<close>,
  \<open>ecosystem.go\<close>, \<open>normalize.go\<close>): the identity record, the enrichment metadata, normalization for
  the two ecosystems, and the derived keys. The lemmas show what normalization guarantees (case,
  no leading dash, a reference for every OCI image), when it is idempotent, and what a cache key
  determines.
\<close>

section \<open>Data\<close>

type_synonym ecosystem_type = string

abbreviation EcosystemNPM :: ecosystem_type where "EcosystemNPM \<equiv> ''npm''"
abbreviation EcosystemOCI :: ecosystem_type where "EcosystemOCI \<equiv> ''oci''"

record artifact_identity =
  art_ecosystem :: ecosystem_type
  art_namespace :: string
  art_name :: string
  art_version :: string
  art_digest :: string

type_synonym access_request_kind = string

abbreviation AccessRequestKindNPMMetadata :: access_request_kind where
  "AccessRequestKindNPMMetadata \<equiv> ''npm_metadata''"
abbreviation AccessRequestKindNPMTarball :: access_request_kind where
  "AccessRequestKindNPMTarball \<equiv> ''npm_tarball''"

record source_repository =
  repo_host :: string
  repo_owner :: string
  repo_repo :: string

record scorecard_result =
  sc_score :: "float64 option"
  sc_checks :: "(string \<times> float64) list"
  sc_unavailable_reason :: string

record vulnerability =
  vuln_id :: string
  vuln_severity :: string
  vuln_cvss :: float64
  vuln_summary :: string

record artifact_metadata =
  meta_published_at :: "time option"
  meta_max_cvss :: "float64 option"
  meta_licenses :: "string list"
  meta_vulnerabilities :: "vulnerability list"
  meta_is_mutable_tag :: bool
  meta_source_repository :: "source_repository option"
  meta_scorecard :: "scorecard_result option"

text \<open>The zero value \<open>ArtifactMetadata{}\<close>.\<close>

definition empty_metadata :: artifact_metadata where
  "empty_metadata =
     \<lparr>meta_published_at = None, meta_max_cvss = None, meta_licenses = [],
      meta_vulnerabilities = [], meta_is_mutable_tag = False,
      meta_source_repository = None, meta_scorecard = None\<rparr>"

section \<open>Operations\<close>

definition ProjectURI :: "source_repository \<Rightarrow> string" where
  "ProjectURI r =
     (let host = trim_space (to_lower (repo_host r));
          owner = trim_space (repo_owner r);
          repo = trim_space (repo_repo r)
      in if host = [] \<or> owner = [] \<or> repo = [] then []
         else host @ ''/'' @ owner @ ''/'' @ repo)"

definition DisplayName :: "source_repository \<Rightarrow> string" where
  "DisplayName r =
     (let owner = trim_space (repo_owner r); repo = trim_space (repo_repo r)
      in if owner = [] \<or> repo = [] then [] else owner @ ''/'' @ repo)"

definition normalizeOCI :: "artifact_identity \<Rightarrow> artifact_identity result" where
  "normalizeOCI a0 =
     (let a = a0\<lparr>art_namespace := to_lower (trim_by (\<lambda>c. c = CHR ''/'') (art_namespace a0)),
                 art_name := to_lower (art_name a0)\<rparr>
      in if art_name a = []
         then Inl (wrap_sentinel ErrInvalidArtifactRef ''OCI artifact name is required'')
         else
           (let b = (if has_prefix ''sha256:'' (art_version a) \<or> has_prefix ''sha512:'' (art_version a)
                     then a\<lparr>art_digest := art_version a, art_version := []\<rparr> else a);
                c = (if art_version b = [] \<and> art_digest b = []
                     then b\<lparr>art_version := ''latest''\<rparr> else b)
            in Inr c))"

definition normalizeNPM :: "artifact_identity \<Rightarrow> artifact_identity result" where
  "normalizeNPM a0 =
     (let scoped =
            (if has_prefix ''@'' (art_name a0) then
               (case split_two (CHR ''/'') (art_name a0) of
                  [scope, rest] \<Rightarrow>
                    (if rest = [] then None
                     else Some (a0\<lparr>art_namespace := to_lower scope, art_name := to_lower rest\<rparr>))
                | _ \<Rightarrow> None)
             else Some (a0\<lparr>art_name := to_lower (art_name a0)\<rparr>))
      in case scoped of
           None \<Rightarrow> Inl (wrap_sentinel ErrInvalidArtifactRef
                      (''invalid scoped npm package '' @ quote (art_name a0)))
         | Some a \<Rightarrow>
             (if art_name a = [] then
                Inl (wrap_sentinel ErrInvalidArtifactRef ''npm package name is required'')
              else if has_prefix ''-'' (art_name a) then
                Inl (wrap_sentinel ErrInvalidArtifactRef
                  (''npm package name '' @ quote (art_name a) @ '' must not start with '' @ quote ''-''))
              else if has_prefix ''-'' (art_version a) then
                Inl (wrap_sentinel ErrInvalidArtifactRef
                  (''npm package version '' @ quote (art_version a) @ '' must not start with '' @ quote ''-''))
              else Inr a))"

definition NormalizeArtifactIdentity :: "artifact_identity \<Rightarrow> artifact_identity result" where
  "NormalizeArtifactIdentity a =
     (if art_ecosystem a = EcosystemOCI then normalizeOCI a
      else if art_ecosystem a = EcosystemNPM then normalizeNPM a
      else Inl (wrap_sentinel ErrInvalidArtifactRef
             (''unsupported ecosystem '' @ quote (art_ecosystem a))))"

definition FullName :: "artifact_identity \<Rightarrow> string" where
  "FullName a = (if art_namespace a \<noteq> [] then art_namespace a @ ''/'' @ art_name a else art_name a)"

definition CacheKey :: "artifact_identity \<Rightarrow> string" where
  "CacheKey a =
     art_ecosystem a @ '':'' @
     (if art_namespace a \<noteq> [] then art_namespace a @ ''/'' else []) @
     art_name a @
     (if art_digest a \<noteq> [] then ''@'' @ art_digest a
      else if art_version a \<noteq> [] then '':'' @ art_version a
      else [])"

definition IsMutableReference :: "artifact_identity \<Rightarrow> bool" where
  "IsMutableReference a \<longleftrightarrow> art_digest a = [] \<and> art_version a \<noteq> []"

definition IsNPMDistTag :: "artifact_identity \<Rightarrow> bool" where
  "IsNPMDistTag a =
     (if art_ecosystem a \<noteq> EcosystemNPM then False
      else (case art_version a of
              [] \<Rightarrow> False
            | first # _ \<Rightarrow> byte first < byte (CHR ''0'') \<or> byte (CHR ''9'') < byte first))"

section \<open>Normalization\<close>

lemma normalizeNPM_cases:
  assumes "normalizeNPM a = Inr b"
  obtains (scoped) scope rest where
      "art_name a = scope @ CHR ''/'' # rest" "has_prefix ''@'' (art_name a)" "CHR ''/'' \<notin> set scope"
      "b = a\<lparr>art_namespace := to_lower scope, art_name := to_lower rest\<rparr>"
      "rest \<noteq> []" "\<not> has_prefix ''-'' (art_name b)" "\<not> has_prefix ''-'' (art_version a)"
    | (plain) "\<not> has_prefix ''@'' (art_name a)" "art_name a \<noteq> []"
      "b = a\<lparr>art_name := to_lower (art_name a)\<rparr>"
      "\<not> has_prefix ''-'' (art_name b)" "\<not> has_prefix ''-'' (art_version a)"
proof (cases "has_prefix ''@'' (art_name a)")
  case True
  from split_two_cases [of "CHR ''/''" "art_name a"] show ?thesis
  proof
    assume "split_two (CHR ''/'') (art_name a) = [art_name a] \<and> CHR ''/'' \<notin> set (art_name a)"
    with True assms show ?thesis by (simp add: normalizeNPM_def)
  next
    assume "\<exists>s r. split_two (CHR ''/'') (art_name a) = [s, r] \<and> art_name a = s @ CHR ''/'' # r \<and>
      CHR ''/'' \<notin> set s"
    then obtain s r where sr: "split_two (CHR ''/'') (art_name a) = [s, r]"
      "art_name a = s @ CHR ''/'' # r" "CHR ''/'' \<notin> set s" by blast
    with True assms have "r \<noteq> []" "b = a\<lparr>art_namespace := to_lower s, art_name := to_lower r\<rparr>"
      "\<not> has_prefix ''-'' (art_name b)" "\<not> has_prefix ''-'' (art_version a)"
      by (auto simp: normalizeNPM_def split: if_splits)
    with sr True show ?thesis by (intro scoped) auto
  qed
next
  case False
  with assms show ?thesis
    by (intro plain) (auto simp: normalizeNPM_def split: if_splits)
qed

lemma normalizeOCI_fields:
  assumes "normalizeOCI a = Inr b"
  shows "art_name b = to_lower (art_name a)" "art_name b \<noteq> []"
    "art_namespace b = to_lower (trim_by (\<lambda>c. c = CHR ''/'') (art_namespace a))"
    "art_ecosystem b = art_ecosystem a"
    "art_version b \<noteq> [] \<or> art_digest b \<noteq> []"
    "\<not> has_prefix ''sha256:'' (art_version b)" "\<not> has_prefix ''sha512:'' (art_version b)"
  using assms
  by (auto simp: normalizeOCI_def Let_def has_prefix_def split: if_splits)

lemma normalize_ecosystem:
  assumes "NormalizeArtifactIdentity a = Inr b"
  shows "art_ecosystem b = art_ecosystem a"
    and "art_ecosystem a = EcosystemNPM \<or> art_ecosystem a = EcosystemOCI"
proof -
  from assms have "art_ecosystem a = EcosystemOCI \<and> normalizeOCI a = Inr b \<or>
      art_ecosystem a = EcosystemNPM \<and> normalizeNPM a = Inr b"
    by (auto simp: NormalizeArtifactIdentity_def split: if_splits)
  then show "art_ecosystem b = art_ecosystem a"
    and "art_ecosystem a = EcosystemNPM \<or> art_ecosystem a = EcosystemOCI"
    by (auto dest: normalizeOCI_fields(4) elim: normalizeNPM_cases)
qed

lemma trim_slash_to_lower:
  "trim_by (\<lambda>c. c = CHR ''/'') (to_lower s) = to_lower (trim_by (\<lambda>c. c = CHR ''/'') s)"
proof -
  have slash: "lower_char x = CHR ''/'' \<longleftrightarrow> x = CHR ''/''" for x
  proof
    assume "lower_char x = CHR ''/''"
    then have "byte (lower_char x) = 47" by (simp add: byte_def)
    then have "byte x = 47" by (simp add: byte_lower_char split: if_splits)
    then have "byte x = byte (CHR ''/'')" by (simp add: byte_def)
    then show "x = CHR ''/''" unfolding byte_def by (rule of_char_eq_iff [THEN iffD1])
  next
    assume "x = CHR ''/''"
    then show "lower_char x = CHR ''/''" by (simp add: lower_char_def byte_def)
  qed
  then show ?thesis by (simp add: trim_by_def to_lower_def dropWhile_map_inv rev_map)
qed

lemma normalizeOCI_idem:
  assumes "normalizeOCI a = Inr b" shows "normalizeOCI b = Inr b"
  using normalizeOCI_fields [OF assms]
  by (auto simp: normalizeOCI_def Let_def trim_slash_to_lower)

lemma normalizeNPM_idem:
  assumes "normalizeNPM a = Inr b" and "\<not> has_prefix ''@'' (art_name b)"
  shows "normalizeNPM b = Inr b"
  using assms(1)
proof (cases rule: normalizeNPM_cases)
  case (scoped scope rest)
  with assms(2) show ?thesis by (simp add: normalizeNPM_def)
next
  case plain
  with assms(2) show ?thesis by (simp add: normalizeNPM_def)
qed

lemma normalize_idem:
  assumes "NormalizeArtifactIdentity a = Inr b"
    and "art_ecosystem a = EcosystemOCI \<or> \<not> has_prefix ''@'' (art_name b)"
  shows "NormalizeArtifactIdentity b = Inr b"
  using assms normalize_ecosystem [OF assms(1)] normalizeOCI_idem [of a b] normalizeNPM_idem [of a b]
  by (auto simp: NormalizeArtifactIdentity_def split: if_splits)

text \<open>The token \<open>FullName@Version\<close> that the graph worker hands to the npm command line.\<close>

lemma npm_token_no_dash:
  assumes "art_ecosystem a = EcosystemNPM" "art_namespace a = []"
    and "NormalizeArtifactIdentity a = Inr b"
  shows "\<not> has_prefix ''-'' (FullName b @ ''@'' @ art_version b)"
proof -
  from assms have "normalizeNPM a = Inr b" by (simp add: NormalizeArtifactIdentity_def)
  then show ?thesis
  proof (cases rule: normalizeNPM_cases)
    case (scoped scope rest)
    from scoped(1,2,3) have "\<exists>t. scope = CHR ''@'' # t"
      by (cases scope) (auto simp: has_prefix_single)
    then obtain t where "scope = CHR ''@'' # t" ..
    with scoped(4) show ?thesis
      by (simp add: FullName_def to_lower_def has_prefix_def lower_char_def byte_def)
  next
    case plain
    with assms(2) have "FullName b = art_name b" "art_name b \<noteq> []" by (simp_all add: FullName_def)
    with plain(4) show ?thesis by (cases "art_name b") (auto simp: has_prefix_def)
  qed
qed

section \<open>Cache keys\<close>

definition key_reference :: "artifact_identity \<Rightarrow> string" where
  "key_reference a =
     (if art_digest a \<noteq> [] then ''@'' @ art_digest a
      else if art_version a \<noteq> [] then '':'' @ art_version a else [])"

lemma CacheKey_alt: "CacheKey a = art_ecosystem a @ CHR '':'' # FullName a @ key_reference a"
  by (simp add: CacheKey_def FullName_def key_reference_def)

text \<open>Identities whose key can be read back: no colon in the ecosystem or the full name, and no at
  sign in the full name but as its first character.\<close>

definition key_plain :: "artifact_identity \<Rightarrow> bool" where
  "key_plain a \<longleftrightarrow>
     CHR '':'' \<notin> set (art_ecosystem a) \<and> FullName a \<noteq> [] \<and> CHR '':'' \<notin> set (FullName a) \<and>
     CHR ''@'' \<notin> set (tl (FullName a))"

lemma append_eq_split_char:
  assumes "xs @ c # ys = xs' @ c # ys'" "c \<notin> set xs" "c \<notin> set xs'"
  shows "xs = xs' \<and> ys = ys'"
  using assms by (induction xs arbitrary: xs') (auto simp: append_eq_Cons_conv Cons_eq_append_conv)

lemma append_eq_split_stop:
  assumes "xs @ ys = xs' @ ys'" "\<forall>x \<in> set xs. \<not> p x" "\<forall>x \<in> set xs'. \<not> p x"
    and "ys = [] \<or> p (hd ys)" "ys' = [] \<or> p (hd ys')"
  shows "xs = xs' \<and> ys = ys'"
proof -
  have tw: "takeWhile (\<lambda>x. \<not> p x) (us @ vs) = us" if "\<forall>x \<in> set us. \<not> p x" "vs = [] \<or> p (hd vs)" for us vs
    using that by (induction us) (cases vs; auto)+
  from tw [of xs ys] tw [of xs' ys'] assms have "xs = xs'" by simp
  with assms(1) show ?thesis by simp
qed

lemma CacheKey_determines:
  assumes "key_plain a" "key_plain b" "CacheKey a = CacheKey b"
  shows "art_ecosystem a = art_ecosystem b \<and> FullName a = FullName b \<and>
    key_reference a = key_reference b"
proof -
  let ?p = "\<lambda>x. x = CHR '':'' \<or> x = CHR ''@''"
  have "art_ecosystem a @ CHR '':'' # (FullName a @ key_reference a) =
      art_ecosystem b @ CHR '':'' # (FullName b @ key_reference b)"
    using assms(3) by (simp add: CacheKey_alt)
  then have "art_ecosystem a = art_ecosystem b \<and>
      FullName a @ key_reference a = FullName b @ key_reference b"
    using assms(1,2) by (intro append_eq_split_char) (auto simp: key_plain_def)
  then have e: "art_ecosystem a = art_ecosystem b"
    and f: "FullName a @ key_reference a = FullName b @ key_reference b" by auto
  obtain x xs where a: "FullName a = x # xs" using assms(1) by (cases "FullName a") (auto simp: key_plain_def)
  obtain y ys where b: "FullName b = y # ys" using assms(2) by (cases "FullName b") (auto simp: key_plain_def)
  have "xs = ys \<and> key_reference a = key_reference b"
  proof (rule append_eq_split_stop [where p = ?p])
    show "xs @ key_reference a = ys @ key_reference b" using f a b by simp
    show "\<forall>x \<in> set xs. \<not> ?p x" "\<forall>x \<in> set ys. \<not> ?p x"
      using assms(1,2) a b by (auto simp: key_plain_def)
    show "key_reference a = [] \<or> ?p (hd (key_reference a))"
      "key_reference b = [] \<or> ?p (hd (key_reference b))"
      by (auto simp: key_reference_def)
  qed
  with e f a b show ?thesis by simp
qed

section \<open>Properties\<close>

definition sample_npm :: artifact_identity where
  "sample_npm = \<lparr>art_ecosystem = EcosystemNPM, art_namespace = [], art_name = ''@Acme/Tool'',
     art_version = ''1.2.0'', art_digest = []\<rparr>"

definition sample_npm_normal :: artifact_identity where
  "sample_npm_normal = \<lparr>art_ecosystem = EcosystemNPM, art_namespace = ''@acme'', art_name = ''tool'',
     art_version = ''1.2.0'', art_digest = []\<rparr>"

lemma sample_npm_normalizes: "NormalizeArtifactIdentity sample_npm = Inr sample_npm_normal"
  by code_simp

text \<open>Normalizing an artifact identity is idempotent: the canonical form of an OCI artifact, and of
  an npm artifact whose name part does not itself start with an at sign, is accepted again unchanged.\<close>

lemma normalization_idempotent:
  assumes "NormalizeArtifactIdentity a = Inr b"
    and "art_ecosystem a = EcosystemOCI \<or> \<not> has_prefix ''@'' (art_name b)"
  shows "NormalizeArtifactIdentity b = Inr b"
  using assms by (rule normalize_idem)

lemma normalization_idempotent_witness:
  "NormalizeArtifactIdentity sample_npm = Inr sample_npm_normal \<and>
   NormalizeArtifactIdentity sample_npm_normal = Inr sample_npm_normal"
  using normalization_idempotent [OF sample_npm_normalizes] sample_npm_normalizes
  by (simp add: sample_npm_normal_def has_prefix_def)

text \<open>The token that the graph resolver passes to the npm command line never starts with a dash:
  for an npm identity as the proxy builds it (the scope inside the name), normalization accepts only
  names and versions for which \<open>FullName@Version\<close> cannot be read as an option.\<close>

lemma npm_token_is_no_option:
  assumes "art_ecosystem a = EcosystemNPM" "art_namespace a = []"
    and "NormalizeArtifactIdentity a = Inr b"
  shows "\<not> has_prefix ''-'' (FullName b @ ''@'' @ art_version b)"
  using assms by (rule npm_token_no_dash)

lemma npm_token_is_no_option_witness:
  "art_ecosystem sample_npm = EcosystemNPM \<and>
   \<not> has_prefix ''-'' (FullName sample_npm_normal @ ''@'' @ art_version sample_npm_normal)"
  using npm_token_is_no_option [OF _ _ sample_npm_normalizes] by (simp add: sample_npm_def)

text \<open>A cache key determines what it was built from: two identities without a colon in the
  ecosystem or the full name, and without an inner at sign, share a key only when they agree on the
  ecosystem, the full name and the reference (the digest if there is one, else the version).\<close>

lemma cache_key_determines_artifact:
  assumes "key_plain a" "key_plain b" "CacheKey a = CacheKey b"
  shows "art_ecosystem a = art_ecosystem b \<and> FullName a = FullName b \<and>
    key_reference a = key_reference b"
  using assms by (rule CacheKey_determines)

lemma cache_key_determines_artifact_witness:
  "key_plain sample_npm_normal \<and>
   FullName sample_npm_normal = FullName (sample_npm_normal\<lparr>art_namespace := [], art_name := ''@acme/tool''\<rparr>)"
proof -
  have plain: "key_plain sample_npm_normal"
    "key_plain (sample_npm_normal\<lparr>art_namespace := [], art_name := ''@acme/tool''\<rparr>)"
    by (simp_all add: key_plain_def sample_npm_normal_def FullName_def)
  have "CacheKey sample_npm_normal =
      CacheKey (sample_npm_normal\<lparr>art_namespace := [], art_name := ''@acme/tool''\<rparr>)"
    by (simp add: CacheKey_def sample_npm_normal_def)
  from cache_key_determines_artifact [OF plain this] plain(1) show ?thesis by simp
qed

text \<open>Once a digest is known the key does not contain the tag: a pull by tag that resolved to a
  digest and a pull by that digest share their cache entries, whatever the tag was.\<close>

lemma cache_key_ignores_tag:
  assumes "art_digest a \<noteq> []"
  shows "CacheKey (a\<lparr>art_version := v\<rparr>) = CacheKey (a\<lparr>art_version := w\<rparr>)"
  using assms by (simp add: CacheKey_def)

end
