(* ===== verification/Domain_Upstream.thy ===== *)
theory Domain_Upstream
  imports Domain_Artifact
begin

text \<open>
  Upstream registries, their authentication and their capability sets
  (\<open>internal/core/domain/upstream.go\<close>, \<open>upstream_auth.go\<close>, \<open>upstream_capability.go\<close>).
  A slice whose \<open>nil\<close> value means something else than the empty slice is an \<open>option\<close>: \<^const>\<open>None\<close>
  is \<open>nil\<close>. The lemmas characterise capability normalization: it accepts exactly the subsets of the
  ecosystem's vocabulary, depends on the set only, returns the canonical order and is idempotent.
\<close>

section \<open>Data\<close>

type_synonym upstream_capability = string

abbreviation UpstreamCapabilityPublishTime :: upstream_capability where
  "UpstreamCapabilityPublishTime \<equiv> ''publish_time''"
abbreviation UpstreamCapabilityLicenses :: upstream_capability where
  "UpstreamCapabilityLicenses \<equiv> ''licenses''"
abbreviation UpstreamCapabilityVulnerabilityLookup :: upstream_capability where
  "UpstreamCapabilityVulnerabilityLookup \<equiv> ''vulnerability_lookup''"
abbreviation UpstreamCapabilityScorecardLookup :: upstream_capability where
  "UpstreamCapabilityScorecardLookup \<equiv> ''scorecard_lookup''"
abbreviation UpstreamCapabilityManifestDigestLookup :: upstream_capability where
  "UpstreamCapabilityManifestDigestLookup \<equiv> ''manifest_digest_lookup''"

type_synonym upstream_auth_type = string

abbreviation UpstreamAuthNone :: upstream_auth_type where "UpstreamAuthNone \<equiv> ''none''"
abbreviation UpstreamAuthBasic :: upstream_auth_type where "UpstreamAuthBasic \<equiv> ''basic''"
abbreviation UpstreamAuthBearerToken :: upstream_auth_type where
  "UpstreamAuthBearerToken \<equiv> ''bearer_token''"

record upstream_auth =
  auth_type :: upstream_auth_type
  auth_username :: string
  auth_secret :: string
  auth_updated_at :: time

record upstream =
  up_id :: string
  up_tenant_id :: string
  up_name :: string
  up_ecosystem :: ecosystem_type
  up_base_url :: string
  up_capabilities :: "upstream_capability list option"
  up_auth :: "upstream_auth option"
  up_created_at :: time
  up_updated_at :: time

section \<open>Operations\<close>

definition Configured :: "upstream_auth option \<Rightarrow> bool" where
  "Configured a =
     (case a of None \<Rightarrow> False
      | Some auth \<Rightarrow> auth_type auth \<noteq> [] \<and> auth_type auth \<noteq> UpstreamAuthNone)"

definition UpstreamAuthConfigured :: "upstream \<Rightarrow> bool" where
  "UpstreamAuthConfigured u = Configured (up_auth u)"

text \<open>The lookup of an absent key of \<open>allowedUpstreamCapabilities\<close> gives the empty slice.\<close>

definition allowedUpstreamCapabilities :: "ecosystem_type \<Rightarrow> upstream_capability list" where
  "allowedUpstreamCapabilities ecosystem =
     (if ecosystem = EcosystemNPM then
        [UpstreamCapabilityPublishTime, UpstreamCapabilityLicenses,
         UpstreamCapabilityVulnerabilityLookup, UpstreamCapabilityScorecardLookup]
      else if ecosystem = EcosystemOCI then [UpstreamCapabilityManifestDigestLookup]
      else [])"

definition legacyDefaultUpstreamCapabilities :: "ecosystem_type \<Rightarrow> upstream_capability list list" where
  "legacyDefaultUpstreamCapabilities ecosystem =
     (if ecosystem = EcosystemNPM then
        [[UpstreamCapabilityPublishTime, UpstreamCapabilityLicenses,
          UpstreamCapabilityVulnerabilityLookup]]
      else [])"

text \<open>\<open>append([]T(nil), xs...)\<close> is \<open>nil\<close> when \<open>xs\<close> is empty.\<close>

definition copy_slice :: "'a list \<Rightarrow> 'a list option" where
  "copy_slice xs = (if xs = [] then None else Some xs)"

definition AllowedUpstreamCapabilities :: "ecosystem_type \<Rightarrow> upstream_capability list option" where
  "AllowedUpstreamCapabilities ecosystem = copy_slice (allowedUpstreamCapabilities ecosystem)"

definition DefaultUpstreamCapabilities :: "ecosystem_type \<Rightarrow> upstream_capability list option" where
  "DefaultUpstreamCapabilities ecosystem = AllowedUpstreamCapabilities ecosystem"

text \<open>The validation loop of \<open>NormalizeUpstreamCapabilities\<close>: the first unsupported capability ends
  it, and the keys of \<open>set\<close> are collected otherwise.\<close>

fun capability_set_loop ::
  "ecosystem_type \<Rightarrow> upstream_capability list \<Rightarrow> upstream_capability set \<Rightarrow> upstream_capability list \<Rightarrow>
   upstream_capability set result" where
  "capability_set_loop ecosystem allowed cset [] = Inr cset"
| "capability_set_loop ecosystem allowed cset (capability # rest) =
     (if capability \<notin> set allowed then
        Inl (wrap_sentinel ErrUnsupportedUpstreamCapability
          (''capability '' @ quote capability @ '' is not supported for '' @ ecosystem @ '' upstreams''))
      else capability_set_loop ecosystem allowed (insert capability cset) rest)"

definition NormalizeUpstreamCapabilities ::
  "ecosystem_type \<Rightarrow> upstream_capability list option \<Rightarrow> upstream_capability list option result" where
  "NormalizeUpstreamCapabilities ecosystem capabilities =
     (let allowed = allowedUpstreamCapabilities ecosystem
      in if allowed = [] then
           Inl (wrap_sentinel ErrUnsupportedUpstreamCapability (''unknown ecosystem '' @ quote ecosystem))
         else (case capabilities of
             None \<Rightarrow> Inr (DefaultUpstreamCapabilities ecosystem)
           | Some caps \<Rightarrow>
               (case capability_set_loop ecosystem allowed {} caps of
                  Inl e \<Rightarrow> Inl e
                | Inr cset \<Rightarrow> Inr (Some (filter (\<lambda>capability. capability \<in> cset) allowed)))))"

definition EffectiveUpstreamCapabilities ::
  "ecosystem_type \<Rightarrow> upstream_capability list option \<Rightarrow> upstream_capability list option" where
  "EffectiveUpstreamCapabilities ecosystem capabilities =
     (case capabilities of
        None \<Rightarrow> DefaultUpstreamCapabilities ecosystem
      | Some caps \<Rightarrow>
          (if caps \<in> set (legacyDefaultUpstreamCapabilities ecosystem)
           then DefaultUpstreamCapabilities ecosystem
           else copy_slice caps))"

definition UpstreamCapabilityStrings :: "upstream_capability list option \<Rightarrow> string list" where
  "UpstreamCapabilityStrings capabilities =
     (case capabilities of None \<Rightarrow> [] | Some caps \<Rightarrow> map (\<lambda>c. c) caps)"

definition ParseUpstreamCapabilities :: "string list \<Rightarrow> upstream_capability list option" where
  "ParseUpstreamCapabilities vs = Some (map (\<lambda>v. v) vs)"

definition EffectiveCapabilities :: "upstream \<Rightarrow> upstream_capability list option" where
  "EffectiveCapabilities u = EffectiveUpstreamCapabilities (up_ecosystem u) (up_capabilities u)"

definition slice_elems :: "'a list option \<Rightarrow> 'a list" where
  "slice_elems xs = (case xs of None \<Rightarrow> [] | Some ys \<Rightarrow> ys)"

definition UpstreamSupports :: "upstream \<Rightarrow> upstream_capability \<Rightarrow> bool" where
  "UpstreamSupports u capability \<longleftrightarrow> capability \<in> set (slice_elems (EffectiveCapabilities u))"

section \<open>Capability normalization\<close>

lemma slice_elems_simps [simp]:
  "slice_elems None = []" "slice_elems (Some xs) = xs" "slice_elems (copy_slice xs) = xs"
  by (simp_all add: slice_elems_def copy_slice_def)

lemma slice_elems_default [simp]:
  "slice_elems (DefaultUpstreamCapabilities e) = allowedUpstreamCapabilities e"
  by (simp add: DefaultUpstreamCapabilities_def AllowedUpstreamCapabilities_def)

lemma capability_set_loop_Inr:
  "capability_set_loop e allowed s caps = Inr t \<longleftrightarrow> set caps \<subseteq> set allowed \<and> t = s \<union> set caps"
  by (induction caps arbitrary: s) auto

lemma capability_set_loop_Inl:
  "capability_set_loop e allowed s caps = Inl err \<Longrightarrow>
   errors_is err ErrUnsupportedUpstreamCapability \<and> \<not> set caps \<subseteq> set allowed"
  by (induction caps arbitrary: s) (auto split: if_splits)

lemma distinct_allowed: "distinct (allowedUpstreamCapabilities e)"
  by (simp add: allowedUpstreamCapabilities_def)

lemma allowed_Nil_iff: "allowedUpstreamCapabilities e = [] \<longleftrightarrow> e \<noteq> EcosystemNPM \<and> e \<noteq> EcosystemOCI"
  by (simp add: allowedUpstreamCapabilities_def)

lemma normalize_caps_Inr_iff:
  "NormalizeUpstreamCapabilities e (Some caps) = Inr r \<longleftrightarrow>
   allowedUpstreamCapabilities e \<noteq> [] \<and> set caps \<subseteq> set (allowedUpstreamCapabilities e) \<and>
   r = Some (filter (\<lambda>c. c \<in> set caps) (allowedUpstreamCapabilities e))"
  by (auto simp: NormalizeUpstreamCapabilities_def Let_def capability_set_loop_Inr
      dest: capability_set_loop_Inl split: sum.splits)

lemma normalize_caps_Inl:
  "NormalizeUpstreamCapabilities e caps = Inl err \<Longrightarrow> errors_is err ErrUnsupportedUpstreamCapability"
  by (auto simp: NormalizeUpstreamCapabilities_def Let_def dest: capability_set_loop_Inl
      split: if_splits option.splits sum.splits)

lemma normalize_caps_elems:
  "NormalizeUpstreamCapabilities e (Some caps) = Inr r \<Longrightarrow> set (slice_elems r) = set caps"
  by (auto simp: normalize_caps_Inr_iff)

lemma normalize_caps_result_shape:
  assumes "NormalizeUpstreamCapabilities e caps = Inr r"
  obtains rs where "r = Some rs" "distinct rs" "set rs \<subseteq> set (allowedUpstreamCapabilities e)"
    "rs = filter (\<lambda>c. c \<in> set rs) (allowedUpstreamCapabilities e)"
proof (cases caps)
  case None
  with assms have "r = Some (allowedUpstreamCapabilities e)"
    by (auto simp: NormalizeUpstreamCapabilities_def Let_def DefaultUpstreamCapabilities_def
        AllowedUpstreamCapabilities_def copy_slice_def split: if_splits)
  then show ?thesis by (rule that) (simp_all add: distinct_allowed)
next
  case (Some cs)
  with assms have r: "r = Some (filter (\<lambda>c. c \<in> set cs) (allowedUpstreamCapabilities e))"
    by (simp add: normalize_caps_Inr_iff)
  show ?thesis by (rule that [OF r]) (auto simp: distinct_allowed intro: filter_cong)
qed

lemma normalize_caps_idem:
  assumes "NormalizeUpstreamCapabilities e caps = Inr r"
  shows "NormalizeUpstreamCapabilities e r = Inr r"
proof -
  from assms have "allowedUpstreamCapabilities e \<noteq> []"
    by (auto simp: NormalizeUpstreamCapabilities_def)
  moreover from assms obtain rs where "r = Some rs" "set rs \<subseteq> set (allowedUpstreamCapabilities e)"
    "rs = filter (\<lambda>c. c \<in> set rs) (allowedUpstreamCapabilities e)"
    by (rule normalize_caps_result_shape)
  ultimately show ?thesis by (simp add: normalize_caps_Inr_iff)
qed

lemma normalize_caps_set_only:
  "set cs = set ds \<Longrightarrow>
   NormalizeUpstreamCapabilities e (Some cs) = Inr r \<longleftrightarrow> NormalizeUpstreamCapabilities e (Some ds) = Inr r"
  by (simp add: normalize_caps_Inr_iff)

text \<open>Upgrading a stored profile never loses a capability, and adds none that the vocabulary of the
  ecosystem lacks.\<close>

lemma effective_caps_superset:
  "set (slice_elems caps) \<subseteq> set (allowedUpstreamCapabilities e) \<Longrightarrow>
   set (slice_elems caps) \<subseteq> set (slice_elems (EffectiveUpstreamCapabilities e caps)) \<and>
   set (slice_elems (EffectiveUpstreamCapabilities e caps)) \<subseteq> set (allowedUpstreamCapabilities e)"
  by (auto simp: EffectiveUpstreamCapabilities_def split: option.splits)

text \<open>A profile that is explicitly empty comes back as \<open>nil\<close>, and \<open>nil\<close> stands for the defaults: the
  upgrade applied twice turns "no capability" into every capability of the ecosystem.\<close>

lemma effective_caps_empty_profile:
  "EffectiveUpstreamCapabilities e (Some []) = None \<and>
   EffectiveUpstreamCapabilities e (EffectiveUpstreamCapabilities e (Some [])) =
     DefaultUpstreamCapabilities e"
  by (auto simp: EffectiveUpstreamCapabilities_def copy_slice_def legacyDefaultUpstreamCapabilities_def)

section \<open>Properties\<close>

text \<open>Capability normalization accepts exactly the subsets of the ecosystem's vocabulary and
  returns the given set in the canonical order of the vocabulary, so its result depends on the set
  alone; what it returns is accepted again unchanged.\<close>

lemma capability_normalization_canonical:
  "NormalizeUpstreamCapabilities e (Some caps) = Inr r \<longleftrightarrow>
   (e = EcosystemNPM \<or> e = EcosystemOCI) \<and> set caps \<subseteq> set (allowedUpstreamCapabilities e) \<and>
   r = Some (filter (\<lambda>c. c \<in> set caps) (allowedUpstreamCapabilities e)) \<and>
   NormalizeUpstreamCapabilities e r = Inr r"
  using normalize_caps_Inr_iff [of e caps r] normalize_caps_idem [of e "Some caps" r]
  by (auto simp: allowed_Nil_iff)

text \<open>A stored profile that is explicitly empty reads back as the nil profile, and the nil profile
  stands for the defaults of the ecosystem: upgrading an effective profile once more turns "no
  capability" into every capability.\<close>

lemma empty_profile_becomes_default:
  "EffectiveUpstreamCapabilities e (Some []) = None \<and>
   EffectiveUpstreamCapabilities e (EffectiveUpstreamCapabilities e (Some [])) =
     DefaultUpstreamCapabilities e"
  by (rule effective_caps_empty_profile)

end
