(* ===== verification/Domain_Dependency.thy ===== *)
theory Domain_Dependency
  imports Domain_Upstream
begin

text \<open>
  Dependency graphs and the context derived from them (\<open>internal/core/domain/dependency_graph.go\<close>).
  The SHA-256 hex digest is a parameter of the hash functions, since its code belongs to the crypto
  library. The lemmas show that a normalized context is canonical: sorted and duplicate-free lists,
  the same for every order of the evidence, and stable under a second normalization.
\<close>

section \<open>Data\<close>

type_synonym dependency_graph_status = string

abbreviation DependencyGraphPending :: dependency_graph_status where
  "DependencyGraphPending \<equiv> ''pending''"
abbreviation DependencyGraphResolving :: dependency_graph_status where
  "DependencyGraphResolving \<equiv> ''resolving''"
abbreviation DependencyGraphComplete :: dependency_graph_status where
  "DependencyGraphComplete \<equiv> ''complete''"
abbreviation DependencyGraphFailed :: dependency_graph_status where
  "DependencyGraphFailed \<equiv> ''failed''"

type_synonym dependency_scope = string

abbreviation DependencyScopeDirect :: dependency_scope where "DependencyScopeDirect \<equiv> ''direct''"
abbreviation DependencyScopeTransitive :: dependency_scope where
  "DependencyScopeTransitive \<equiv> ''transitive''"
abbreviation DependencyScopeUnknown :: dependency_scope where "DependencyScopeUnknown \<equiv> ''unknown''"

type_synonym dependency_type = string

abbreviation DependencyTypeProd :: dependency_type where "DependencyTypeProd \<equiv> ''prod''"
abbreviation DependencyTypeDev :: dependency_type where "DependencyTypeDev \<equiv> ''dev''"
abbreviation DependencyTypePeer :: dependency_type where "DependencyTypePeer \<equiv> ''peer''"
abbreviation DependencyTypeOptional :: dependency_type where "DependencyTypeOptional \<equiv> ''optional''"

record dependency_graph_root =
  root_id :: string
  root_tenant_id :: string
  root_upstream_id :: string
  root_package_name :: string
  root_version :: string
  root_status :: dependency_graph_status
  root_graph_hash :: string
  root_error :: string
  root_created_at :: time
  root_updated_at :: time
  root_resolved_at :: "time option"

record dependency_graph_node =
  node_id :: string
  node_root_id :: string
  node_artifact :: artifact_identity
  node_min_depth :: int
  node_dependency_types :: "dependency_type list"

record dependency_graph_edge =
  edge_id :: string
  edge_root_id :: string
  edge_parent_node_id :: string
  edge_child_node_id :: string
  edge_dependency_type :: dependency_type

record dependency_graph_snapshot =
  graph_root :: dependency_graph_root
  graph_nodes :: "dependency_graph_node list"
  graph_edges :: "dependency_graph_edge list"

record dependency_context =
  dep_scope :: dependency_scope
  dep_types :: "dependency_type list"
  dep_graph_ids :: "string list"
  dep_context_hash :: string

record dependency_graph_resolve_request =
  resolve_tenant_id :: string
  resolve_upstream :: upstream
  resolve_root :: artifact_identity
  resolve_requested_at :: time

record dependency_context_summary_key =
  summary_tenant_id :: string
  summary_upstream_id :: string
  summary_artifact :: artifact_identity

section \<open>Operations\<close>

definition StableHash :: "(string \<Rightarrow> string) \<Rightarrow> dependency_context \<Rightarrow> string" where
  "StableHash sha256_hex c =
     sha256_hex (join ''|'' [dep_scope c, join '','' (sort (dep_types c)), join '','' (sort (dep_graph_ids c))])"

definition NewUnknownDependencyContext :: "(string \<Rightarrow> string) \<Rightarrow> dependency_context" where
  "NewUnknownDependencyContext sha256_hex =
     (let ctx = \<lparr>dep_scope = DependencyScopeUnknown, dep_types = [], dep_graph_ids = [],
                 dep_context_hash = []\<rparr>
      in ctx\<lparr>dep_context_hash := StableHash sha256_hex ctx\<rparr>)"

definition uniqueDependencyTypes :: "dependency_type list \<Rightarrow> dependency_type list" where
  "uniqueDependencyTypes vs = sort (unique_loop (\<lambda>v. v = []) (\<lambda>v. v) {} vs)"

definition uniqueStrings :: "string list \<Rightarrow> string list" where
  "uniqueStrings vs = sort (unique_loop (\<lambda>v. v = []) (\<lambda>v. v) {} (map trim_space vs))"

definition NormalizeContext :: "(string \<Rightarrow> string) \<Rightarrow> dependency_context \<Rightarrow> dependency_context" where
  "NormalizeContext sha256_hex c0 =
     (let c1 = (if dep_scope c0 = [] then c0\<lparr>dep_scope := DependencyScopeUnknown\<rparr> else c0);
          c2 = c1\<lparr>dep_types := uniqueDependencyTypes (dep_types c1)\<rparr>;
          c3 = c2\<lparr>dep_graph_ids := uniqueStrings (dep_graph_ids c2)\<rparr>
      in if dep_context_hash c3 = [] then c3\<lparr>dep_context_hash := StableHash sha256_hex c3\<rparr> else c3)"

section \<open>Canonical contexts\<close>

lemma uniqueDependencyTypes_alt:
  "uniqueDependencyTypes vs = sorted_list_of_set {v \<in> set vs. v \<noteq> []}"
  by (simp add: uniqueDependencyTypes_def sort_unique_loop)

lemma uniqueStrings_alt:
  "uniqueStrings vs = sorted_list_of_set {v \<in> trim_space ` set vs. v \<noteq> []}"
  by (simp add: uniqueStrings_def sort_unique_loop)

lemma uniqueDependencyTypes_idem [simp]:
  "uniqueDependencyTypes (uniqueDependencyTypes vs) = uniqueDependencyTypes vs"
  unfolding uniqueDependencyTypes_alt by (rule arg_cong [where f = sorted_list_of_set]) auto

lemma uniqueStrings_idem [simp]: "uniqueStrings (uniqueStrings vs) = uniqueStrings vs"
proof -
  let ?S = "{v \<in> trim_space ` set vs. v \<noteq> []}"
  have fin: "finite ?S" by simp
  have "trim_space ` ?S = (\<lambda>v. v) ` ?S" by (rule image_cong) auto
  then have "{v \<in> trim_space ` ?S. v \<noteq> []} = ?S" by auto
  then show ?thesis unfolding uniqueStrings_alt by (simp only: set_sorted_list_of_set [OF fin])
qed

lemma normalize_context_idem:
  assumes "\<And>s. sha256_hex s \<noteq> []"
  shows "NormalizeContext sha256_hex (NormalizeContext sha256_hex c) = NormalizeContext sha256_hex c"
  using assms
  by (cases "dep_scope c = []"; cases "dep_context_hash c = []")
    (simp_all add: NormalizeContext_def StableHash_def)

lemma normalize_context_shape:
  "sorted (dep_types (NormalizeContext h c)) \<and> distinct (dep_types (NormalizeContext h c)) \<and>
   sorted (dep_graph_ids (NormalizeContext h c)) \<and> distinct (dep_graph_ids (NormalizeContext h c)) \<and>
   [] \<notin> set (dep_types (NormalizeContext h c)) \<and> [] \<notin> set (dep_graph_ids (NormalizeContext h c)) \<and>
   dep_scope (NormalizeContext h c) \<noteq> []"
  by (simp add: NormalizeContext_def Let_def uniqueDependencyTypes_alt uniqueStrings_alt)

lemma normalize_context_order:
  assumes "dep_scope c = dep_scope d" "dep_context_hash c = dep_context_hash d"
    and "set (dep_types c) = set (dep_types d)"
    and "trim_space ` set (dep_graph_ids c) = trim_space ` set (dep_graph_ids d)"
  shows "NormalizeContext h c = NormalizeContext h d"
proof -
  have "uniqueDependencyTypes (dep_types c) = uniqueDependencyTypes (dep_types d)"
    "uniqueStrings (dep_graph_ids c) = uniqueStrings (dep_graph_ids d)"
    by (simp_all add: uniqueDependencyTypes_alt uniqueStrings_alt assms(3,4))
  with assms(1,2) show ?thesis
    by (cases c; cases d) (auto simp: NormalizeContext_def Let_def StableHash_def)
qed

lemma stable_hash_mset:
  "dep_scope c = dep_scope d \<Longrightarrow> mset (dep_types c) = mset (dep_types d) \<Longrightarrow>
   mset (dep_graph_ids c) = mset (dep_graph_ids d) \<Longrightarrow> StableHash h c = StableHash h d"
  by (simp add: StableHash_def) (metis sorted_list_of_multiset_mset)

lemma normalize_unknown:
  "NormalizeContext h (NewUnknownDependencyContext h) = NewUnknownDependencyContext h"
  by (auto simp: NormalizeContext_def NewUnknownDependencyContext_def Let_def StableHash_def
      uniqueDependencyTypes_alt uniqueStrings_alt)

section \<open>Properties\<close>

text \<open>Normalization puts a dependency context into canonical form: the scope is set, both lists are
  sorted, free of duplicates and of empty entries, and two contexts with the same scope, the same
  carried hash and the same sets of evidence (graph ids up to surrounding white space) have the same
  normal form, hash included.\<close>

lemma context_normal_form:
  assumes "dep_scope c = dep_scope d" "dep_context_hash c = dep_context_hash d"
    and "set (dep_types c) = set (dep_types d)"
    and "trim_space ` set (dep_graph_ids c) = trim_space ` set (dep_graph_ids d)"
  shows "NormalizeContext h c = NormalizeContext h d \<and>
    sorted (dep_types (NormalizeContext h c)) \<and> distinct (dep_types (NormalizeContext h c)) \<and>
    sorted (dep_graph_ids (NormalizeContext h c)) \<and> distinct (dep_graph_ids (NormalizeContext h c)) \<and>
    dep_scope (NormalizeContext h c) \<noteq> []"
  using normalize_context_order [OF assms] normalize_context_shape [of h c] by simp

definition sample_context :: "string list \<Rightarrow> dependency_context" where
  "sample_context ids = \<lparr>dep_scope = DependencyScopeDirect, dep_types = [DependencyTypeProd],
     dep_graph_ids = ids, dep_context_hash = []\<rparr>"

lemma context_normal_form_witness:
  "NormalizeContext (\<lambda>s. s) (sample_context [''g2'', ''g1'', ''g2'']) =
   NormalizeContext (\<lambda>s. s) (sample_context [''g1'', ''g2''])"
proof -
  have "set [''g2'', ''g1'', ''g2''] = set [''g1'', ''g2'']" by auto
  then show ?thesis
    using context_normal_form [of "sample_context [''g2'', ''g1'', ''g2'']" "sample_context [''g1'', ''g2'']"]
    by (simp add: sample_context_def)
qed

end
