(* ===== verification/Policy_Config.thy ===== *)
theory Policy_Config
  imports Domain_Dependency
begin

text \<open>
  Policies, their typed configurations and their targets (\<open>internal/core/domain/policy.go\<close>,
  \<open>policy_config_*.go\<close>, \<open>policy_target.go\<close>, \<open>decision.go\<close>).

  A configuration is a value of the Go interface \<open>PolicyConfig\<close>: a constructor per concrete struct,
  carrying an optional record, where \<^const>\<open>None\<close> is the typed nil pointer that every method checks for. A
  \<open>Validate\<close> that also rewrites its receiver (Scorecard check names, the target's default) returns
  the receiver it leaves behind. A map is an association list in the order the iteration visits it.

  The locale \<open>validated_form\<close> is the contract every validator shares: what it returns is accepted
  again unchanged. It is interpreted on the configuration and on the target validators.
\<close>

section \<open>Policies and decisions\<close>

type_synonym policy_action = string

abbreviation PolicyActionAllow :: policy_action where "PolicyActionAllow \<equiv> ''allow''"
abbreviation PolicyActionDeny :: policy_action where "PolicyActionDeny \<equiv> ''deny''"

type_synonym policy_type = string

abbreviation PolicyTypeCVSSThreshold :: policy_type where "PolicyTypeCVSSThreshold \<equiv> ''cvss_threshold''"
abbreviation PolicyTypeMinimumAge :: policy_type where "PolicyTypeMinimumAge \<equiv> ''minimum_age''"
abbreviation PolicyTypeMaximumAge :: policy_type where "PolicyTypeMaximumAge \<equiv> ''maximum_age''"
abbreviation PolicyTypeBlockMutableTag :: policy_type where
  "PolicyTypeBlockMutableTag \<equiv> ''block_mutable_tag''"
abbreviation PolicyTypeScorecard :: policy_type where "PolicyTypeScorecard \<equiv> ''scorecard''"
abbreviation PolicyTypeLicense :: policy_type where "PolicyTypeLicense \<equiv> ''license''"
abbreviation PolicyTypeLicenseAllowlist :: policy_type where
  "PolicyTypeLicenseAllowlist \<equiv> ''license_allowlist''"
abbreviation PolicyTypeAllowlist :: policy_type where "PolicyTypeAllowlist \<equiv> ''allowlist''"
abbreviation PolicyTypeNamespaceAllowlist :: policy_type where
  "PolicyTypeNamespaceAllowlist \<equiv> ''namespace_allowlist''"
abbreviation PolicyTypeBlocklist :: policy_type where "PolicyTypeBlocklist \<equiv> ''blocklist''"

type_synonym dependency_unknown_action = string

abbreviation DependencyUnknownWarn :: dependency_unknown_action where "DependencyUnknownWarn \<equiv> ''warn''"
abbreviation DependencyUnknownDeny :: dependency_unknown_action where "DependencyUnknownDeny \<equiv> ''deny''"
abbreviation DependencyUnknownSkip :: dependency_unknown_action where "DependencyUnknownSkip \<equiv> ''skip''"

record policy_target =
  target_scopes :: "dependency_scope list"
  target_types :: "dependency_type list"
  target_on_unknown :: dependency_unknown_action

type_synonym severity_level = string

abbreviation SeverityCritical :: severity_level where "SeverityCritical \<equiv> ''critical''"
abbreviation SeverityHigh :: severity_level where "SeverityHigh \<equiv> ''high''"
abbreviation SeverityMedium :: severity_level where "SeverityMedium \<equiv> ''medium''"
abbreviation SeverityLow :: severity_level where "SeverityLow \<equiv> ''low''"
abbreviation SeverityNone :: severity_level where "SeverityNone \<equiv> ''none''"

type_synonym missing_behavior = string

abbreviation LicenseAllowlistMissingBehaviorDeny :: missing_behavior where
  "LicenseAllowlistMissingBehaviorDeny \<equiv> ''deny''"
abbreviation LicenseAllowlistMissingBehaviorSkip :: missing_behavior where
  "LicenseAllowlistMissingBehaviorSkip \<equiv> ''skip''"
abbreviation ScorecardUnavailableBehaviorDeny :: missing_behavior where
  "ScorecardUnavailableBehaviorDeny \<equiv> ''deny''"
abbreviation ScorecardUnavailableBehaviorSkip :: missing_behavior where
  "ScorecardUnavailableBehaviorSkip \<equiv> ''skip''"

record cvss_threshold_config =
  cvss_max :: "float64 option"
  cvss_minimum_severity :: "severity_level option"
  cvss_dry_run :: bool

record minimum_age_config =
  minage_days :: "int option"
  minage_exclude :: "string list"
  minage_dry_run :: bool

record maximum_age_config =
  maxage_days :: "int option"
  maxage_exclude :: "string list"
  maxage_dry_run :: bool

record block_mutable_tag_config =
  tag_tags :: "string list"
  tag_dry_run :: bool

record scorecard_config =
  scc_min_score :: "float64 option"
  scc_checks :: "(string \<times> float64) list"
  scc_unavailable_behavior :: missing_behavior
  scc_dry_run :: bool

record license_config =
  lic_licenses :: "string list"
  lic_dry_run :: bool

record license_allowlist_config =
  lica_licenses :: "string list"
  lica_dry_run :: bool

record license_allowlist_config_v2 =
  licv2_licenses :: "string list"
  licv2_unlicensed_behavior :: missing_behavior
  licv2_unavailable_behavior :: missing_behavior
  licv2_dry_run :: bool

record namespace_list_config =
  nsl_namespaces :: "string list"
  nsl_dry_run :: bool

datatype policy_config =
    CVSSThresholdPolicyConfig "cvss_threshold_config option"
  | MinimumAgePolicyConfig "minimum_age_config option"
  | MaximumAgePolicyConfig "maximum_age_config option"
  | BlockMutableTagPolicyConfig "block_mutable_tag_config option"
  | ScorecardPolicyConfig "scorecard_config option"
  | LicensePolicyConfig "license_config option"
  | LicenseAllowlistPolicyConfig "license_allowlist_config option"
  | LicenseAllowlistPolicyConfigV2 "license_allowlist_config_v2 option"
  | NamespaceListPolicyConfig "namespace_list_config option"

record policy =
  pol_id :: string
  pol_tenant_id :: string
  pol_upstream_id :: string
  pol_name :: string
  pol_type :: policy_type
  pol_action :: policy_action
  pol_schema_version :: int
  pol_config :: "policy_config option"
  pol_target :: "policy_target option"
  pol_priority :: int
  pol_enabled :: bool
  pol_version :: int
  pol_created_at :: time
  pol_updated_at :: time

datatype decision_outcome = DecisionAllow | DecisionDeny

datatype reason_category =
    ReasonPolicyMatch
  | ReasonPolicyWarning
  | ReasonNoMatchingPolicy
  | ReasonEnrichmentFailure
  | ReasonCached
  | ReasonCategoryEvaluationError

record evaluation_reason =
  reason_policy_id :: string
  reason_policy_name :: string
  reason_category :: reason_category
  reason_action :: policy_action
  reason_message :: string

record decision =
  dec_id :: string
  dec_tenant_id :: string
  dec_artifact :: artifact_identity
  dec_outcome :: decision_outcome
  dec_policy_id :: string
  dec_policy_hash :: string
  dec_dependency_context :: "dependency_context option"
  dec_reason :: string
  dec_reasons :: "evaluation_reason list"
  dec_warnings :: "string list"
  dec_cached_at :: "time option"
  dec_evaluated_at :: time

section \<open>Validation of configurations\<close>

definition missing_key :: "string \<Rightarrow> go_error" where
  "missing_key key = plain_error (''missing required config key '' @ quote key)"

definition ValidateCVSS :: "cvss_threshold_config option \<Rightarrow> cvss_threshold_config option result" where
  "ValidateCVSS c0 =
     (case c0 of
        None \<Rightarrow> Inl (plain_error
          ''missing required config keys: max_cvss or minimum_severity are required'')
      | Some c \<Rightarrow>
          (if cvss_max c = None \<and> cvss_minimum_severity c = None then
             Inl (plain_error
               ''missing required config keys: max_cvss or minimum_severity are required'')
           else if (case cvss_max c of None \<Rightarrow> False | Some v \<Rightarrow> v < 0 \<or> v > 10) then
             Inl (plain_error ''max_cvss must be between 0 and 10'')
           else (case cvss_minimum_severity c of
               None \<Rightarrow> Inr c0
             | Some sev \<Rightarrow>
                 (if sev \<in> {SeverityCritical, SeverityHigh, SeverityMedium, SeverityLow, SeverityNone}
                  then Inr c0
                  else Inl (plain_error (''invalid minimum_severity: '' @ sev))))))"

definition ValidateMinimumAge :: "minimum_age_config option \<Rightarrow> minimum_age_config option result" where
  "ValidateMinimumAge c0 =
     (case c0 of None \<Rightarrow> Inl (missing_key ''min_age_days'')
      | Some c \<Rightarrow> (if minage_days c = None then Inl (missing_key ''min_age_days'') else Inr c0))"

definition ValidateMaximumAge :: "maximum_age_config option \<Rightarrow> maximum_age_config option result" where
  "ValidateMaximumAge c0 =
     (case c0 of None \<Rightarrow> Inl (missing_key ''max_age_days'')
      | Some c \<Rightarrow> (if maxage_days c = None then Inl (missing_key ''max_age_days'') else Inr c0))"

definition ValidateBlockMutableTag ::
  "block_mutable_tag_config option \<Rightarrow> block_mutable_tag_config option result" where
  "ValidateBlockMutableTag c0 =
     (case c0 of None \<Rightarrow> Inl (missing_key ''tags'')
      | Some c \<Rightarrow> (if tag_tags c = [] then Inl (missing_key ''tags'') else Inr c0))"

definition ValidateLicense :: "license_config option \<Rightarrow> license_config option result" where
  "ValidateLicense c0 =
     (case c0 of None \<Rightarrow> Inl (missing_key ''licenses'')
      | Some c \<Rightarrow> (if lic_licenses c = [] then Inl (missing_key ''licenses'') else Inr c0))"

definition ValidateLicenseAllowlist ::
  "license_allowlist_config option \<Rightarrow> license_allowlist_config option result" where
  "ValidateLicenseAllowlist c0 =
     (case c0 of None \<Rightarrow> Inl (missing_key ''licenses'')
      | Some c \<Rightarrow> (if lica_licenses c = [] then Inl (missing_key ''licenses'') else Inr c0))"

text \<open>The two switches on the missing-data behaviour have the same text in both files.\<close>

definition validateLicenseAllowlistMissingBehavior :: "missing_behavior \<Rightarrow> string \<Rightarrow> unit result" where
  "validateLicenseAllowlistMissingBehavior v fieldName =
     (if v = [] then Inr ()
      else if v \<in> {LicenseAllowlistMissingBehaviorDeny, LicenseAllowlistMissingBehaviorSkip} then Inr ()
      else Inl (plain_error (''invalid config value for '' @ quote fieldName @ '': '' @ quote v)))"

definition validateScorecardUnavailableBehavior :: "missing_behavior \<Rightarrow> string \<Rightarrow> unit result" where
  "validateScorecardUnavailableBehavior v fieldName =
     (if v = [] then Inr ()
      else if v \<in> {ScorecardUnavailableBehaviorDeny, ScorecardUnavailableBehaviorSkip} then Inr ()
      else Inl (plain_error (''invalid config value for '' @ quote fieldName @ '': '' @ quote v)))"

definition ValidateLicenseAllowlistV2 ::
  "license_allowlist_config_v2 option \<Rightarrow> license_allowlist_config_v2 option result" where
  "ValidateLicenseAllowlistV2 c0 =
     (case c0 of None \<Rightarrow> Inl (missing_key ''licenses'')
      | Some c \<Rightarrow>
          (if licv2_licenses c = [] then Inl (missing_key ''licenses'')
           else (case validateLicenseAllowlistMissingBehavior (licv2_unlicensed_behavior c)
                   ''unlicensed_behavior'' of
               Inl e \<Rightarrow> Inl e
             | Inr _ \<Rightarrow>
                 (case validateLicenseAllowlistMissingBehavior (licv2_unavailable_behavior c)
                     ''unavailable_metadata_behavior'' of
                    Inl e \<Rightarrow> Inl e
                  | Inr _ \<Rightarrow> Inr c0))))"

definition EffectiveUnlicensedBehavior :: "license_allowlist_config_v2 option \<Rightarrow> missing_behavior" where
  "EffectiveUnlicensedBehavior c0 =
     (case c0 of None \<Rightarrow> LicenseAllowlistMissingBehaviorDeny
      | Some c \<Rightarrow> (if licv2_unlicensed_behavior c = [] then LicenseAllowlistMissingBehaviorDeny
                  else licv2_unlicensed_behavior c))"

definition EffectiveUnavailableMetadataBehavior ::
  "license_allowlist_config_v2 option \<Rightarrow> missing_behavior" where
  "EffectiveUnavailableMetadataBehavior c0 =
     (case c0 of None \<Rightarrow> LicenseAllowlistMissingBehaviorDeny
      | Some c \<Rightarrow> (if licv2_unavailable_behavior c = [] then LicenseAllowlistMissingBehaviorDeny
                  else licv2_unavailable_behavior c))"

definition EffectiveUnavailableScorecardBehavior :: "scorecard_config option \<Rightarrow> missing_behavior" where
  "EffectiveUnavailableScorecardBehavior c0 =
     (case c0 of None \<Rightarrow> ScorecardUnavailableBehaviorDeny
      | Some c \<Rightarrow> (if scc_unavailable_behavior c = [] then ScorecardUnavailableBehaviorDeny
                  else scc_unavailable_behavior c))"

definition ValidateNamespaceList :: "namespace_list_config option \<Rightarrow> namespace_list_config option result" where
  "ValidateNamespaceList c0 =
     (case c0 of None \<Rightarrow> Inl (missing_key ''namespaces'')
      | Some c \<Rightarrow> (if nsl_namespaces c = [] then Inl (missing_key ''namespaces'') else Inr c0))"

definition validateScorecardScore :: "float64 \<Rightarrow> string \<Rightarrow> unit result" where
  "validateScorecardScore v fieldName =
     (if v < 0 \<or> v > 10 then
        Inl (plain_error (''invalid config value for '' @ quote fieldName @ '': must be between 0 and 10''))
      else Inr ())"

definition NormalizeScorecardCheckName :: "string \<Rightarrow> string" where
  "NormalizeScorecardCheckName v =
     (let replaced = map (\<lambda>c. if c = CHR ''_'' \<or> c = CHR ''-'' then CHR '' '' else c)
            (trim_space (to_lower v))
      in join ''-'' (space_fields replaced))"

text \<open>The loop over \<open>c.Checks\<close>; the accumulator is \<open>normalizedChecks\<close> in insertion order.\<close>

fun normalize_checks_loop ::
  "(string \<times> float64) list \<Rightarrow> (string \<times> float64) list \<Rightarrow> (string \<times> float64) list result" where
  "normalize_checks_loop normalized [] = Inr normalized"
| "normalize_checks_loop normalized ((rawName, minScore) # rest) =
     (let name = NormalizeScorecardCheckName rawName
      in if name = [] then Inl (plain_error ''scorecard check names must not be empty'')
         else (case validateScorecardScore minScore (''checks.'' @ name) of
             Inl e \<Rightarrow> Inl e
           | Inr _ \<Rightarrow>
               (if name \<in> fst ` set normalized then
                  Inl (plain_error (''duplicate scorecard check threshold '' @ quote name))
                else normalize_checks_loop (normalized @ [(name, minScore)]) rest)))"

definition ValidateScorecard :: "scorecard_config option \<Rightarrow> scorecard_config option result" where
  "ValidateScorecard c0 =
     (case c0 of
        None \<Rightarrow> Inl (plain_error ''scorecard config is required'')
      | Some c \<Rightarrow>
          (if scc_min_score c = None \<and> scc_checks c = [] then
             Inl (plain_error (''at least one of '' @ quote ''min_score'' @ '' or '' @ quote ''checks'' @
               '' is required''))
           else (case (case scc_min_score c of None \<Rightarrow> Inr () | Some v \<Rightarrow> validateScorecardScore v ''min_score'') of
               Inl e \<Rightarrow> Inl e
             | Inr _ \<Rightarrow>
                 (case validateScorecardUnavailableBehavior (scc_unavailable_behavior c)
                     ''unavailable_scorecard_behavior'' of
                    Inl e \<Rightarrow> Inl e
                  | Inr _ \<Rightarrow>
                      (if scc_checks c = [] then Inr c0
                       else (case normalize_checks_loop [] (scc_checks c) of
                           Inl e \<Rightarrow> Inl e
                         | Inr cs \<Rightarrow> Inr (Some (c\<lparr>scc_checks := cs\<rparr>))))))))"

text \<open>The interface methods, dispatched on the dynamic type.\<close>

fun ValidateConfig :: "policy_config \<Rightarrow> policy_config result" where
  "ValidateConfig (CVSSThresholdPolicyConfig c) = map_sum id CVSSThresholdPolicyConfig (ValidateCVSS c)"
| "ValidateConfig (MinimumAgePolicyConfig c) = map_sum id MinimumAgePolicyConfig (ValidateMinimumAge c)"
| "ValidateConfig (MaximumAgePolicyConfig c) = map_sum id MaximumAgePolicyConfig (ValidateMaximumAge c)"
| "ValidateConfig (BlockMutableTagPolicyConfig c) =
     map_sum id BlockMutableTagPolicyConfig (ValidateBlockMutableTag c)"
| "ValidateConfig (ScorecardPolicyConfig c) = map_sum id ScorecardPolicyConfig (ValidateScorecard c)"
| "ValidateConfig (LicensePolicyConfig c) = map_sum id LicensePolicyConfig (ValidateLicense c)"
| "ValidateConfig (LicenseAllowlistPolicyConfig c) =
     map_sum id LicenseAllowlistPolicyConfig (ValidateLicenseAllowlist c)"
| "ValidateConfig (LicenseAllowlistPolicyConfigV2 c) =
     map_sum id LicenseAllowlistPolicyConfigV2 (ValidateLicenseAllowlistV2 c)"
| "ValidateConfig (NamespaceListPolicyConfig c) =
     map_sum id NamespaceListPolicyConfig (ValidateNamespaceList c)"

fun DryRunEnabled :: "policy_config \<Rightarrow> bool" where
  "DryRunEnabled (CVSSThresholdPolicyConfig c) = (case c of None \<Rightarrow> False | Some r \<Rightarrow> cvss_dry_run r)"
| "DryRunEnabled (MinimumAgePolicyConfig c) = (case c of None \<Rightarrow> False | Some r \<Rightarrow> minage_dry_run r)"
| "DryRunEnabled (MaximumAgePolicyConfig c) = (case c of None \<Rightarrow> False | Some r \<Rightarrow> maxage_dry_run r)"
| "DryRunEnabled (BlockMutableTagPolicyConfig c) = (case c of None \<Rightarrow> False | Some r \<Rightarrow> tag_dry_run r)"
| "DryRunEnabled (ScorecardPolicyConfig c) = (case c of None \<Rightarrow> False | Some r \<Rightarrow> scc_dry_run r)"
| "DryRunEnabled (LicensePolicyConfig c) = (case c of None \<Rightarrow> False | Some r \<Rightarrow> lic_dry_run r)"
| "DryRunEnabled (LicenseAllowlistPolicyConfig c) = (case c of None \<Rightarrow> False | Some r \<Rightarrow> lica_dry_run r)"
| "DryRunEnabled (LicenseAllowlistPolicyConfigV2 c) = (case c of None \<Rightarrow> False | Some r \<Rightarrow> licv2_dry_run r)"
| "DryRunEnabled (NamespaceListPolicyConfig c) = (case c of None \<Rightarrow> False | Some r \<Rightarrow> nsl_dry_run r)"

section \<open>Targets\<close>

fun target_scopes_loop :: "dependency_scope list \<Rightarrow> unit result" where
  "target_scopes_loop [] = Inr ()"
| "target_scopes_loop (scope # rest) =
     (if scope \<in> {DependencyScopeDirect, DependencyScopeTransitive, DependencyScopeUnknown}
      then target_scopes_loop rest
      else Inl (wrap_sentinel ErrInvalidPolicy
             (''target.dependency_scope contains unsupported value '' @ quote scope)))"

fun target_types_loop :: "dependency_type list \<Rightarrow> unit result" where
  "target_types_loop [] = Inr ()"
| "target_types_loop (depType # rest) =
     (if depType \<in> {DependencyTypeProd, DependencyTypeDev, DependencyTypePeer, DependencyTypeOptional}
      then target_types_loop rest
      else Inl (wrap_sentinel ErrInvalidPolicy
             (''target.dependency_types contains unsupported value '' @ quote depType)))"

definition ValidateTarget :: "policy_target option \<Rightarrow> policy_target option result" where
  "ValidateTarget t0 =
     (case t0 of
        None \<Rightarrow> Inr None
      | Some t1 \<Rightarrow>
          (let t = (if target_on_unknown t1 = [] then t1\<lparr>target_on_unknown := DependencyUnknownWarn\<rparr> else t1)
           in if target_on_unknown t \<notin> {DependencyUnknownWarn, DependencyUnknownDeny, DependencyUnknownSkip}
              then Inl (wrap_sentinel ErrInvalidPolicy ''target.on_unknown must be one of warn, deny, skip'')
              else (case target_scopes_loop (target_scopes t) of
                  Inl e \<Rightarrow> Inl e
                | Inr _ \<Rightarrow>
                    (case target_types_loop (target_types t) of
                       Inl e \<Rightarrow> Inl e
                     | Inr _ \<Rightarrow> Inr (Some t)))))"

definition uniqueDependencyScopes :: "dependency_scope list \<Rightarrow> dependency_scope list" where
  "uniqueDependencyScopes vs = unique_loop (\<lambda>v. v = []) (\<lambda>v. v) {} vs"

definition NormalizeTarget :: "policy_target option \<Rightarrow> policy_target option" where
  "NormalizeTarget t0 =
     (case t0 of
        None \<Rightarrow> None
      | Some t1 \<Rightarrow>
          (let t2 = (if target_on_unknown t1 = [] then t1\<lparr>target_on_unknown := DependencyUnknownWarn\<rparr> else t1);
               t3 = t2\<lparr>target_scopes := uniqueDependencyScopes (target_scopes t2)\<rparr>
           in Some (t3\<lparr>target_types := uniqueDependencyTypes (target_types t3)\<rparr>)))"

section \<open>Scorecard check names\<close>

definition name_words :: "string \<Rightarrow> string list" where
  "name_words v = space_fields (map (\<lambda>c. if c = CHR ''_'' \<or> c = CHR ''-'' then CHR '' '' else c)
     (trim_space (to_lower v)))"

lemma split_by_word:
  "(\<forall>c \<in> set w. \<not> p c) \<Longrightarrow> p d \<Longrightarrow> split_by p (w @ d # r) = w # split_by p r"
  "(\<forall>c \<in> set w. \<not> p c) \<Longrightarrow> split_by p w = [w]"
  by (induction w) auto

lemma split_by_pieces: "w \<in> set (split_by p s) \<Longrightarrow> c \<in> set w \<Longrightarrow> c \<in> set s \<and> \<not> p c"
proof (induction s arbitrary: w)
  case (Cons a s)
  then show ?case by (fastforce split: if_splits list.splits)
qed simp

lemma split_by_join:
  assumes "p d" "ws \<noteq> []" "\<forall>w \<in> set ws. \<forall>c \<in> set w. \<not> p c"
  shows "split_by p (join [d] ws) = ws"
  using assms(2,3)
  by (induction ws rule: induct_list012) (auto simp: split_by_word assms(1))

lemma space_fields_join:
  assumes "\<forall>w \<in> set ws. w \<noteq> [] \<and> (\<forall>c \<in> set w. \<not> is_space c)"
  shows "space_fields (join '' '' ws) = ws"
proof (cases "ws = []")
  case False
  have "is_space (CHR '' '')" by (simp add: is_space_def byte_def)
  then have "split_by is_space (join '' '' ws) = ws"
    using False assms by (intro split_by_join) auto
  with assms show ?thesis by (simp add: space_fields_def)
qed (simp add: space_fields_def)

lemma map_join: "map f (join sep ws) = join (map f sep) (map (map f) ws)"
  by (induction sep ws rule: join.induct) auto

lemma set_join: "set (join sep ws) \<subseteq> set sep \<union> (\<Union>w \<in> set ws. set w)"
  by (induction sep ws rule: join.induct) auto

lemma trim_by_none: "(\<forall>c \<in> set s. \<not> p c) \<Longrightarrow> trim_by p s = s"
proof -
  assume a: "\<forall>c \<in> set s. \<not> p c"
  then have "dropWhile p s = s" by (cases s) auto
  moreover from a have "dropWhile p (rev s) = rev s" by (cases "rev s") (auto dest: arg_cong [where f = set])
  ultimately show "trim_by p s = s" by (simp add: trim_by_def)
qed

lemma name_words_chars:
  assumes "w \<in> set (name_words v)"
  shows "w \<noteq> []" and "c \<in> set w \<Longrightarrow> \<not> is_space c \<and> c \<noteq> CHR ''_'' \<and> c \<noteq> CHR ''-'' \<and> lower_char c = c"
proof -
  show "w \<noteq> []" using assms by (simp add: name_words_def space_fields_def)
  let ?t = "trim_space (to_lower v)"
  assume c: "c \<in> set w"
  have sp: "is_space (CHR '' '')" by (simp add: is_space_def byte_def)
  from assms have "w \<in> set (split_by is_space
      (map (\<lambda>c. if c = CHR ''_'' \<or> c = CHR ''-'' then CHR '' '' else c) ?t))"
    by (simp add: name_words_def space_fields_def)
  from split_by_pieces [OF this c] obtain d where d: "d \<in> set ?t" "\<not> is_space c"
    "c = (if d = CHR ''_'' \<or> d = CHR ''-'' then CHR '' '' else d)" by auto
  with sp have cd: "c = d" "d \<noteq> CHR ''_''" "d \<noteq> CHR ''-''" by (auto split: if_splits)
  have "set ?t \<subseteq> set (to_lower v)"
    by (auto simp: trim_space_def trim_by_def dest!: set_dropWhileD)
  with d(1) cd have "lower_char c = c" by (auto simp: to_lower_def)
  with d cd show "\<not> is_space c \<and> c \<noteq> CHR ''_'' \<and> c \<noteq> CHR ''-'' \<and> lower_char c = c" by simp
qed

lemma normalize_name_alt: "NormalizeScorecardCheckName v = join ''-'' (name_words v)"
  by (simp add: NormalizeScorecardCheckName_def name_words_def Let_def)

lemma normalize_name_chars:
  "c \<in> set (NormalizeScorecardCheckName v) \<Longrightarrow> \<not> is_space c \<and> c \<noteq> CHR ''_'' \<and> lower_char c = c"
proof -
  assume "c \<in> set (NormalizeScorecardCheckName v)"
  with set_join [of "''-''" "name_words v"]
  have "c = CHR ''-'' \<or> (\<exists>w \<in> set (name_words v). c \<in> set w)" by (auto simp: normalize_name_alt)
  then show ?thesis
  proof
    assume "c = CHR ''-''"
    then show ?thesis by (simp add: is_space_def lower_char_def byte_def)
  qed (use name_words_chars(2) in blast)
qed

lemma normalize_name_idem [simp]:
  "NormalizeScorecardCheckName (NormalizeScorecardCheckName v) = NormalizeScorecardCheckName v"
proof -
  let ?n = "NormalizeScorecardCheckName v" and ?ws = "name_words v"
  let ?r = "\<lambda>c. if c = CHR ''_'' \<or> c = CHR ''-'' then CHR '' '' else c"
  have "to_lower ?n = ?n"
    unfolding to_lower_def using normalize_name_chars by (intro map_idI) blast
  moreover have "trim_space ?n = ?n"
    unfolding trim_space_def by (rule trim_by_none) (use normalize_name_chars in blast)
  ultimately have "name_words ?n = space_fields (map ?r (join ''-'' ?ws))"
    by (simp add: name_words_def normalize_name_alt)
  also have "map ?r (join ''-'' ?ws) = join '' '' ?ws"
  proof -
    have "map ?r w = w" if "w \<in> set ?ws" for w
      using name_words_chars(2) [OF that] by (intro map_idI) auto
    then have "map (map ?r) ?ws = ?ws" by (rule map_idI)
    then show ?thesis by (simp add: map_join)
  qed
  also have "space_fields (join '' '' ?ws) = ?ws"
    using name_words_chars by (intro space_fields_join) blast
  finally show ?thesis by (simp add: normalize_name_alt)
qed

lemma normalize_checks_loop_Inr:
  "normalize_checks_loop acc cs = Inr r \<longleftrightarrow>
   r = acc @ map (\<lambda>(n, m). (NormalizeScorecardCheckName n, m)) cs \<and>
   (\<forall>(n, m) \<in> set cs. NormalizeScorecardCheckName n \<noteq> [] \<and> 0 \<le> m \<and> m \<le> 10) \<and>
   distinct (map (NormalizeScorecardCheckName \<circ> fst) cs) \<and>
   (\<forall>(n, m) \<in> set cs. NormalizeScorecardCheckName n \<notin> fst ` set acc)"
proof (induction cs arbitrary: acc)
  case (Cons c cs)
  obtain n m where c: "c = (n, m)" by fastforce
  show ?case
    by (auto simp: c Let_def validateScorecardScore_def Cons.IH case_prod_beta split: sum.splits)
      (fastforce intro: rev_image_eqI)
qed auto

section \<open>The contract of the validators\<close>

text \<open>What a validator returns is accepted again unchanged, so validating a stored value does not
  depend on how often it was validated before.\<close>

locale validated_form =
  fixes validate :: "'a \<Rightarrow> 'a result"
  assumes idem: "validate a = Inr b \<Longrightarrow> validate b = Inr b"
begin

definition accepted :: "'a \<Rightarrow> bool" where
  "accepted a \<longleftrightarrow> (\<exists>b. validate a = Inr b)"

lemma accepted_result: "validate a = Inr b \<Longrightarrow> accepted b"
  using idem by (auto simp: accepted_def)

lemma fixed_iff: "validate b = Inr b \<longleftrightarrow> (\<exists>a. validate a = Inr b)"
  using idem by blast

lemma revalidate: "validate a = Inr b \<Longrightarrow> validate b = validate a"
  using idem by simp

end

lemma normalize_checks_idem:
  assumes "normalize_checks_loop [] cs = Inr r"
  shows "normalize_checks_loop [] r = Inr r" and "r = [] \<longleftrightarrow> cs = []"
proof -
  from assms have r: "r = map (\<lambda>(n, m). (NormalizeScorecardCheckName n, m)) cs"
    by (simp add: normalize_checks_loop_Inr)
  then have m: "map (\<lambda>(n, m). (NormalizeScorecardCheckName n, m)) r = r"
    "map (NormalizeScorecardCheckName \<circ> fst) r = map (NormalizeScorecardCheckName \<circ> fst) cs"
    by (simp_all add: case_prod_beta comp_def)
  have "\<forall>(n, m) \<in> set r. NormalizeScorecardCheckName n \<noteq> [] \<and> 0 \<le> m \<and> m \<le> 10"
    using assms r by (auto simp: normalize_checks_loop_Inr)
  with assms show "normalize_checks_loop [] r = Inr r"
    unfolding normalize_checks_loop_Inr m by simp
  from r show "r = [] \<longleftrightarrow> cs = []" by simp
qed

lemma validate_scorecard_idem:
  "ValidateScorecard c = Inr d \<Longrightarrow> ValidateScorecard d = Inr d"
  by (auto simp: ValidateScorecard_def dest: normalize_checks_idem split: option.splits if_splits sum.splits)

lemma validate_config_idem: "ValidateConfig c = Inr d \<Longrightarrow> ValidateConfig d = Inr d"
proof (cases c)
  case (ScorecardPolicyConfig x)
  assume "ValidateConfig c = Inr d"
  with ScorecardPolicyConfig obtain y where "ValidateScorecard x = Inr y" "d = ScorecardPolicyConfig y"
    by (cases "ValidateScorecard x") auto
  then show ?thesis by (simp add: validate_scorecard_idem)
qed (auto simp: ValidateCVSS_def ValidateMinimumAge_def ValidateMaximumAge_def ValidateBlockMutableTag_def
      ValidateLicense_def ValidateLicenseAllowlist_def ValidateLicenseAllowlistV2_def ValidateNamespaceList_def
      split: option.splits if_splits sum.splits)

lemma validate_target_idem: "ValidateTarget t = Inr u \<Longrightarrow> ValidateTarget u = Inr u"
  by (auto simp: ValidateTarget_def Let_def split: option.splits if_splits sum.splits)

interpretation config_form: validated_form ValidateConfig
  by unfold_locales (rule validate_config_idem)

interpretation target_form: validated_form ValidateTarget
  by unfold_locales (rule validate_target_idem)

section \<open>What validation guarantees\<close>

lemma target_scopes_loop_Inr:
  "target_scopes_loop ss = Inr u \<longleftrightarrow>
   set ss \<subseteq> {DependencyScopeDirect, DependencyScopeTransitive, DependencyScopeUnknown}"
  by (induction ss) auto

lemma target_types_loop_Inr:
  "target_types_loop ts = Inr u \<longleftrightarrow>
   set ts \<subseteq> {DependencyTypeProd, DependencyTypeDev, DependencyTypePeer, DependencyTypeOptional}"
  by (induction ts) auto

lemma validate_target_Some:
  "ValidateTarget (Some t) = Inr u \<Longrightarrow>
   \<exists>v. u = Some v \<and> target_on_unknown v \<in> {DependencyUnknownWarn, DependencyUnknownDeny, DependencyUnknownSkip} \<and>
     target_scopes v = target_scopes t \<and> target_types v = target_types t"
  by (auto simp: ValidateTarget_def Let_def split: if_splits sum.splits)

lemma validate_config_dry_run: "ValidateConfig c = Inr d \<Longrightarrow> DryRunEnabled d = DryRunEnabled c"
  by (cases c)
    (auto simp: ValidateCVSS_def ValidateMinimumAge_def ValidateMaximumAge_def ValidateBlockMutableTag_def
      ValidateLicense_def ValidateLicenseAllowlist_def ValidateLicenseAllowlistV2_def ValidateNamespaceList_def
      ValidateScorecard_def split: option.splits if_splits sum.splits)

lemma normalize_target_idem [simp]: "NormalizeTarget (NormalizeTarget t) = NormalizeTarget t"
proof -
  have "uniqueDependencyScopes (uniqueDependencyScopes vs) = uniqueDependencyScopes vs" for vs
    unfolding uniqueDependencyScopes_def
    by (rule unique_loop_id_keep)
      (auto dest: unique_loop_subset simp: distinct_unique_loop_id)
  then show ?thesis by (auto simp: NormalizeTarget_def Let_def split: option.splits)
qed

section \<open>Properties\<close>

text \<open>Validating a policy configuration is idempotent and keeps its dry-run flag: what a successful
  validation leaves behind (the Scorecard thresholds under their canonical check names) is accepted
  again unchanged, so a stored configuration does not drift when it is loaded and validated.\<close>

lemma config_validation_idempotent:
  assumes "ValidateConfig c = Inr d"
  shows "ValidateConfig d = Inr d \<and> DryRunEnabled d = DryRunEnabled c"
  using config_form.idem [OF assms] validate_config_dry_run [OF assms] by simp

definition sample_scorecard_config :: "string \<Rightarrow> policy_config" where
  "sample_scorecard_config check = ScorecardPolicyConfig (Some
     \<lparr>scc_min_score = None, scc_checks = [(check, 7)], scc_unavailable_behavior = [], scc_dry_run = True\<rparr>)"

lemma sample_scorecard_validates:
  "ValidateConfig (sample_scorecard_config ''Code_Review'') = Inr (sample_scorecard_config ''code-review'')"
  by code_simp

lemma config_validation_idempotent_witness:
  "ValidateConfig (sample_scorecard_config ''code-review'') = Inr (sample_scorecard_config ''code-review'') \<and>
   DryRunEnabled (sample_scorecard_config ''code-review'')"
  using config_validation_idempotent [OF sample_scorecard_validates]
  by (simp add: sample_scorecard_config_def)

end
