(* ===== verification/Go_Float.thy ===== *)
theory Go_Float
  imports Go_Prelude "HOL-Library.Log_Nat"
begin

text \<open>
  IEEE-754 binary64 rounding, as far as the age conditions need it: a \<open>float64\<close> operation
  returns the exact rational result rounded to 53 significant bits, ties to even. The exponent
  range is unbounded here; the ages the code computes lie between one nanosecond and three
  hundred years, far from the overflow and subnormal ranges.

  The locale \<open>float_rounding\<close> states what the age conditions rely on (monotone, exact on the
  integers up to the bound, a relative error), its lemmas are about \<open>time.Duration.Hours\<close> and the
  division by 24, and the interpretation at the end discharges it for the binary64 rounding.
\<close>

section \<open>Rounding to binary64\<close>

definition f64_exp :: "rat \<Rightarrow> int" where
  "f64_exp x =
     (let (p, q) = quotient_of x; e = bitlen p - bitlen q
      in if 2 powi e \<le> x then e else e - 1)"

definition f64_pos :: "rat \<Rightarrow> float64" where
  "f64_pos x = (let u = 2 powi (f64_exp x - 52) in of_int (round_half_even (x / u)) * u)"

definition f64 :: "rat \<Rightarrow> float64" where
  "f64 x = (if x = 0 then 0 else if 0 < x then f64_pos x else - f64_pos (- x))"

section \<open>Durations\<close>

definition Hour :: duration where
  "Hour = 3600000000000"

text \<open>Go's integer division and remainder truncate towards zero.\<close>

definition quot_trunc :: "int \<Rightarrow> int \<Rightarrow> int" where
  "quot_trunc a b = sgn a * (\<bar>a\<bar> div b)"

definition rem_trunc :: "int \<Rightarrow> int \<Rightarrow> int" where
  "rem_trunc a b = sgn a * (\<bar>a\<bar> mod b)"

text \<open>\<open>Duration.Hours\<close>: the whole hours plus the rest divided by an hour, both operations
  rounded by \<open>fl\<close>.\<close>

definition duration_hours :: "(rat \<Rightarrow> rat) \<Rightarrow> duration \<Rightarrow> float64" where
  "duration_hours fl d =
     fl (of_int (quot_trunc d Hour) + fl (of_int (rem_trunc d Hour) / of_int Hour))"

definition age_in_days :: "(rat \<Rightarrow> rat) \<Rightarrow> duration \<Rightarrow> float64" where
  "age_in_days fl d = fl (duration_hours fl d / 24)"

section \<open>Round half to even\<close>

lemma round_half_even_of_int [simp]: "round_half_even (of_int n) = n"
  by (simp add: round_half_even_def)

lemma round_half_even_near: "\<bar>of_int (round_half_even x) - x\<bar> \<le> 1 / 2"
  unfolding round_half_even_def Let_def
  using floor_correct [of x] by (auto simp: abs_le_iff)

lemma round_half_even_floor:
  "round_half_even x = \<lfloor>x\<rfloor> \<or> round_half_even x = \<lfloor>x\<rfloor> + 1"
  by (simp add: round_half_even_def Let_def)

lemma round_half_even_mono: "x \<le> y \<Longrightarrow> round_half_even x \<le> round_half_even y"
proof -
  assume xy: "x \<le> y"
  show ?thesis
  proof (cases "\<lfloor>x\<rfloor> = \<lfloor>y\<rfloor>")
    case True
    with xy show ?thesis by (auto simp: round_half_even_def Let_def)
  next
    case False
    with xy have "\<lfloor>x\<rfloor> + 1 \<le> \<lfloor>y\<rfloor>" using floor_mono [OF xy] by linarith
    then show ?thesis
      using round_half_even_floor [of x] round_half_even_floor [of y] by linarith
  qed
qed

section \<open>The exponent\<close>

lemma bitlen_powi:
  assumes "0 < p"
  shows "(2 :: rat) powi (bitlen p - 1) \<le> of_int p" and "of_int p < (2 :: rat) powi (bitlen p)"
proof -
  from assms have b: "2 ^ nat (bitlen p - 1) \<le> p \<and> p < 2 ^ nat (bitlen p)"
    by (rule bitlen_bounds)
  have pos: "0 < bitlen p" using assms bitlen_nonneg [of p] bitlen_eq_zero_iff [of p] by linarith
  have "(of_int (2 ^ nat (bitlen p - 1)) :: rat) \<le> of_int p"
    using b by (simp only: of_int_le_iff)
  then show "(2 :: rat) powi (bitlen p - 1) \<le> of_int p"
    using pos by (simp add: power_int_def)
  have "(of_int p :: rat) < of_int (2 ^ nat (bitlen p))"
    using b by (simp only: of_int_less_iff)
  then show "of_int p < (2 :: rat) powi (bitlen p)"
    using pos by (simp add: power_int_def)
qed

lemma f64_exp_bounds:
  assumes "0 < x"
  shows "2 powi f64_exp x \<le> x" and "x < 2 powi (f64_exp x + 1)"
proof -
  obtain p q where pq: "quotient_of x = (p, q)" by fastforce
  have q: "0 < q" using quotient_of_denom_pos [OF pq] .
  have x: "x = of_int p / of_int q" using quotient_of_div [OF pq] .
  with assms q have p: "0 < p" by (simp add: zero_less_divide_iff)
  let ?e = "bitlen p - bitlen q"
  have "x < 2 powi bitlen p / 2 powi (bitlen q - 1)"
    unfolding x using bitlen_powi [OF p] bitlen_powi [OF q] q p
    by (intro frac_less) (simp_all add: less_imp_le)
  also have "\<dots> = 2 powi (?e + 1)" by (simp add: algebra_simps flip: power_int_diff)
  finally have up: "x < 2 powi (?e + 1)" .
  have "2 powi (bitlen p - 1) / 2 powi bitlen q \<le> x"
    unfolding x using bitlen_powi [OF p] bitlen_powi [OF q] q p
    by (intro frac_le) (simp_all add: less_imp_le)
  also have "2 powi (bitlen p - 1) / 2 powi bitlen q = (2 :: rat) powi (?e - 1)"
    by (simp add: algebra_simps flip: power_int_diff)
  finally have lo: "2 powi (?e - 1) \<le> x" .
  show "2 powi f64_exp x \<le> x" and "x < 2 powi (f64_exp x + 1)"
    using up lo by (auto simp: f64_exp_def pq Let_def)
qed

lemma f64_exp_mono:
  assumes "0 < x" "x \<le> y" shows "f64_exp x \<le> f64_exp y"
proof (rule ccontr)
  assume "\<not> f64_exp x \<le> f64_exp y"
  then have "(2 :: rat) powi (f64_exp y + 1) \<le> 2 powi f64_exp x"
    by (intro power_int_increasing) auto
  with f64_exp_bounds(1) [OF assms(1)] f64_exp_bounds(2) [of y] assms show False by linarith
qed

section \<open>Laws of the rounding\<close>

lemma f64_pos_scaled:
  assumes "0 < x"
  shows "2 ^ 52 \<le> x / 2 powi (f64_exp x - 52)" and "x / 2 powi (f64_exp x - 52) < 2 ^ 53"
proof -
  let ?u = "(2 :: rat) powi (f64_exp x - 52)"
  have "2 ^ 52 * ?u = 2 powi (52 + (f64_exp x - 52))"
    by (subst power_int_add) auto
  then have "2 ^ 52 * ?u \<le> x" using f64_exp_bounds(1) [OF assms] by simp
  then show "2 ^ 52 \<le> x / ?u" by (simp add: pos_le_divide_eq)
  have "2 ^ 53 * ?u = 2 powi (53 + (f64_exp x - 52))"
    by (subst power_int_add) auto
  then have "x < 2 ^ 53 * ?u" using f64_exp_bounds(2) [OF assms] by (simp add: add.commute)
  then show "x / ?u < 2 ^ 53" by (simp add: pos_divide_less_eq)
qed

lemma f64_pos_bounds:
  assumes "0 < x"
  shows "2 powi f64_exp x \<le> f64_pos x" and "f64_pos x \<le> 2 powi (f64_exp x + 1)"
proof -
  let ?u = "(2 :: rat) powi (f64_exp x - 52)" and ?r = "round_half_even (x / 2 powi (f64_exp x - 52))"
  have "round_half_even (of_int (2 ^ 52)) \<le> ?r"
    using f64_pos_scaled(1) [OF assms] by (intro round_half_even_mono) simp
  then have "(of_int (2 ^ 52) :: rat) \<le> of_int ?r"
    unfolding round_half_even_of_int by (simp only: of_int_le_iff)
  then have "(2 :: rat) ^ 52 \<le> of_int ?r" by simp
  then have "2 ^ 52 * ?u \<le> of_int ?r * ?u" by (intro mult_right_mono) auto
  moreover have "2 ^ 52 * ?u = 2 powi (52 + (f64_exp x - 52))" by (subst power_int_add) auto
  ultimately have "2 powi (52 + (f64_exp x - 52)) \<le> of_int ?r * ?u" by (simp only:)
  moreover have "52 + (f64_exp x - 52) = f64_exp x" by simp
  ultimately show "2 powi f64_exp x \<le> f64_pos x" unfolding f64_pos_def Let_def by (simp only:)
  have "?r \<le> round_half_even (of_int (2 ^ 53))"
    using f64_pos_scaled(2) [OF assms] by (intro round_half_even_mono) simp
  then have "of_int ?r \<le> (of_int (2 ^ 53) :: rat)"
    unfolding round_half_even_of_int by (simp only: of_int_le_iff)
  then have "of_int ?r \<le> (2 :: rat) ^ 53" by simp
  then have "of_int ?r * ?u \<le> 2 ^ 53 * ?u" by (intro mult_right_mono) auto
  moreover have "2 ^ 53 * ?u = 2 powi (53 + (f64_exp x - 52))" by (subst power_int_add) auto
  ultimately have le: "of_int ?r * ?u \<le> 2 powi (53 + (f64_exp x - 52))" by (simp only:)
  have "53 + (f64_exp x - 52) = f64_exp x + 1" by simp
  with le show "f64_pos x \<le> 2 powi (f64_exp x + 1)" unfolding f64_pos_def Let_def by (simp only:)
qed

lemma f64_pos_positive: "0 < x \<Longrightarrow> 0 < f64_pos x"
  by (rule less_le_trans [OF _ f64_pos_bounds(1)]) (simp_all add: zero_less_power_int)

lemma f64_pos_mono:
  assumes "0 < x" "x \<le> y" shows "f64_pos x \<le> f64_pos y"
proof (cases "f64_exp x = f64_exp y")
  case True
  have "round_half_even (x / 2 powi (f64_exp y - 52)) \<le> round_half_even (y / 2 powi (f64_exp y - 52))"
    using assms by (intro round_half_even_mono divide_right_mono) auto
  then show ?thesis by (simp add: f64_pos_def Let_def True)
next
  case False
  with f64_exp_mono [OF assms] have "f64_exp x + 1 \<le> f64_exp y" by simp
  then have "(2 :: rat) powi (f64_exp x + 1) \<le> 2 powi f64_exp y"
    by (intro power_int_increasing) auto
  moreover have "0 < y" using assms by simp
  ultimately show ?thesis
    using f64_pos_bounds(2) [OF assms(1)] f64_pos_bounds(1) [of y] by linarith
qed

lemma f64_mono: "x \<le> y \<Longrightarrow> f64 x \<le> f64 y"
  using f64_pos_mono [of x y] f64_pos_mono [of "- y" "- x"]
    f64_pos_positive [of y] f64_pos_positive [of "- x"]
  by (auto simp: f64_def)

lemma f64_pos_of_int:
  assumes "0 < n" "n < 2 ^ 53" shows "f64_pos (of_int n) = of_int n"
proof -
  let ?e = "f64_exp (of_int n)"
  have "(2 :: rat) powi ?e \<le> of_int n" using assms by (intro f64_exp_bounds) simp
  also have "(of_int n :: rat) < of_int (2 ^ 53)" using assms(2) by (simp only: of_int_less_iff)
  also have "(of_int (2 ^ 53) :: rat) = 2 powi 53" by (simp add: power_int_def)
  finally have lt: "(2 :: rat) powi ?e < 2 powi 53" .
  have "?e < 53"
  proof (rule ccontr)
    assume "\<not> ?e < 53"
    then have "(2 :: rat) powi 53 \<le> 2 powi ?e" by (intro power_int_increasing) auto
    with lt show False by simp
  qed
  then have "(2 :: rat) powi (52 - ?e) = of_int (2 ^ nat (52 - ?e))"
    by (simp add: power_int_def)
  moreover have "of_int n / (2 :: rat) powi (?e - 52) = of_int n * 2 powi (52 - ?e)"
    by (simp add: power_int_minus [symmetric] divide_inverse flip: power_int_minus)
  ultimately have s: "of_int n / (2 :: rat) powi (?e - 52) = of_int (n * 2 ^ nat (52 - ?e))"
    by simp
  have "f64_pos (of_int n) = of_int (n * 2 ^ nat (52 - ?e)) * 2 powi (?e - 52)"
    unfolding f64_pos_def Let_def s round_half_even_of_int ..
  then show ?thesis unfolding s [symmetric] by simp
qed

lemma f64_of_int: "\<bar>n\<bar> < 2 ^ 53 \<Longrightarrow> f64 (of_int n) = of_int n"
  using f64_pos_of_int [of n] f64_pos_of_int [of "- n"] by (auto simp: f64_def)

lemma f64_pos_error:
  assumes "0 < x" shows "\<bar>f64_pos x - x\<bar> \<le> x / 2 ^ 53"
proof -
  let ?u = "(2 :: rat) powi (f64_exp x - 52)"
  have "\<bar>of_int (round_half_even (x / ?u)) - x / ?u\<bar> * ?u \<le> 1 / 2 * ?u"
    by (intro mult_right_mono round_half_even_near) simp
  also have "\<bar>of_int (round_half_even (x / ?u)) - x / ?u\<bar> * ?u = \<bar>f64_pos x - x\<bar>"
  proof -
    have "(of_int (round_half_even (x / ?u)) - x / ?u) * ?u = f64_pos x - x"
      by (simp add: f64_pos_def Let_def left_diff_distrib)
    then show ?thesis using abs_mult [of "of_int (round_half_even (x / ?u)) - x / ?u" ?u]
      by (simp add: zero_less_power_int)
  qed
  finally have e: "\<bar>f64_pos x - x\<bar> \<le> ?u / 2" by simp
  have "?u * 2 ^ 52 \<le> x" using f64_pos_scaled(1) [OF assms] by (simp add: pos_le_divide_eq mult.commute)
  then have "?u / 2 \<le> x / 2 ^ 53" by (simp add: field_simps)
  with e show ?thesis by (rule order_trans)
qed

section \<open>The interface the age conditions use\<close>

locale float_rounding =
  fixes fl :: "rat \<Rightarrow> rat"
  assumes fl_mono: "x \<le> y \<Longrightarrow> fl x \<le> fl y"
    and fl_int: "\<bar>n\<bar> < 2 ^ 53 \<Longrightarrow> fl (of_int n) = of_int n"
    and fl_error: "0 \<le> x \<Longrightarrow> fl x \<le> x + x / 2 ^ 53"
begin

lemma fl_zero: "fl 0 = 0"
  using fl_int [of 0] by simp

lemma fl_one: "fl 1 = 1"
  using fl_int [of 1] by simp

lemma hours_ge:
  assumes "0 \<le> n" "n < 2 ^ 40" "n * Hour \<le> d"
  shows "of_int n \<le> duration_hours fl d"
proof -
  have "0 \<le> n * Hour" using assms(1) by (simp add: Hour_def)
  with assms(3) have d: "0 \<le> d" by linarith
  have "n \<le> d div Hour" using zdiv_mono1 [OF assms(3), of Hour] by (simp add: Hour_def)
  then have q: "n \<le> quot_trunc d Hour" using d by (cases "d = 0") (auto simp: quot_trunc_def)
  have "0 \<le> rem_trunc d Hour" using d by (cases "d = 0") (auto simp: rem_trunc_def Hour_def)
  then have r: "0 \<le> fl (of_int (rem_trunc d Hour) / of_int Hour)"
    using fl_mono [of 0 "of_int (rem_trunc d Hour) / of_int Hour"] by (simp add: fl_zero Hour_def)
  have "fl (of_int n) \<le> duration_hours fl d"
    unfolding duration_hours_def using q r by (intro fl_mono add_increasing2) simp_all
  then show ?thesis using fl_int [of n] assms by simp
qed

lemma hours_le:
  assumes "0 \<le> n" "n < 2 ^ 40" "d \<le> n * Hour"
  shows "duration_hours fl d \<le> of_int n"
proof -
  have "of_int (quot_trunc d Hour) + fl (of_int (rem_trunc d Hour) / of_int Hour) \<le> of_int n"
  proof (cases "0 \<le> d")
    case False
    then have "quot_trunc d Hour \<le> 0" "rem_trunc d Hour \<le> 0"
      by (auto simp: quot_trunc_def rem_trunc_def Hour_def)
    moreover from this have "fl (of_int (rem_trunc d Hour) / of_int Hour) \<le> 0"
      using fl_mono [of "of_int (rem_trunc d Hour) / of_int Hour" 0]
      by (simp add: fl_zero Hour_def divide_nonpos_pos)
    ultimately have "of_int (quot_trunc d Hour) + fl (of_int (rem_trunc d Hour) / of_int Hour) \<le> 0"
      by (intro add_nonpos_nonpos) simp_all
    also have "0 \<le> (of_int n :: rat)" using assms(1) by simp
    finally show ?thesis .
  next
    case True
    then have q: "quot_trunc d Hour = d div Hour" and r: "rem_trunc d Hour = d mod Hour"
      by (cases "d = 0"; simp add: quot_trunc_def rem_trunc_def)+
    have dm: "d = Hour * (d div Hour) + d mod Hour" by simp
    have m: "0 \<le> d mod Hour" "d mod Hour < Hour" by (simp_all add: Hour_def)
    show ?thesis
    proof (cases "d div Hour = n")
      case True
      with dm m(1) assms(3) have "d mod Hour = 0" by (simp add: mult.commute)
      with True show ?thesis by (simp add: q r fl_zero)
    next
      case False
      have "d div Hour \<le> n" using zdiv_mono1 [OF assms(3), of Hour] by (simp add: Hour_def)
      with False have "d div Hour + 1 \<le> n" by simp
      then have "(of_int (d div Hour + 1) :: rat) \<le> of_int n" by (simp only: of_int_le_iff)
      moreover have "fl (of_int (d mod Hour) / of_int Hour) \<le> 1"
        using fl_mono [of "of_int (d mod Hour) / of_int Hour" 1] m by (simp add: fl_one Hour_def)
      ultimately show ?thesis by (simp add: q r)
    qed
  qed
  then have "duration_hours fl d \<le> fl (of_int n)"
    unfolding duration_hours_def by (rule fl_mono)
  then show ?thesis using fl_int [of n] assms by simp
qed

lemma age_ge:
  assumes "0 \<le> n" "n < 2 ^ 32" "n * (24 * Hour) \<le> d"
  shows "of_int n \<le> age_in_days fl d"
proof -
  have "of_int (24 * n) \<le> duration_hours fl d"
    using assms by (intro hours_ge) simp_all
  then have "of_int n \<le> duration_hours fl d / 24" by simp
  then have "fl (of_int n) \<le> age_in_days fl d" unfolding age_in_days_def by (rule fl_mono)
  then show ?thesis using fl_int [of n] assms by simp
qed

lemma age_le:
  assumes "0 \<le> n" "n < 2 ^ 32" "d \<le> n * (24 * Hour)"
  shows "age_in_days fl d \<le> of_int n"
proof -
  have "duration_hours fl d \<le> of_int (24 * n)"
    using assms by (intro hours_le) simp_all
  then have "duration_hours fl d / 24 \<le> of_int n" by simp
  then have "age_in_days fl d \<le> fl (of_int n)" unfolding age_in_days_def by (rule fl_mono)
  then show ?thesis using fl_int [of n] assms by simp
qed

lemma age_less:
  assumes "0 < n" "n < 2 ^ 32" "d \<le> n * (24 * Hour) - Hour"
  shows "age_in_days fl d < of_int n"
proof -
  have "d \<le> (24 * n - 1) * Hour" using assms(3) by (simp add: algebra_simps)
  then have h: "duration_hours fl d \<le> of_int (24 * n - 1)"
    using assms by (intro hours_le) simp_all
  let ?x = "of_int (24 * n - 1) / 24 :: rat"
  have "age_in_days fl d \<le> fl ?x" unfolding age_in_days_def using h by (intro fl_mono) simp
  also have "\<dots> \<le> ?x + ?x / 2 ^ 53" using assms(1) by (intro fl_error) simp
  also have "\<dots> < of_int n"
  proof -
    have "(of_int n :: rat) < of_int (2 ^ 32)" using assms(2) by (simp only: of_int_less_iff)
    then show ?thesis using assms(1) by simp
  qed
  finally show ?thesis .
qed

end

interpretation binary64: float_rounding f64
proof
  show "f64 x \<le> f64 y" if "x \<le> y" for x y using that by (rule f64_mono)
  show "f64 (of_int n) = of_int n" if "\<bar>n\<bar> < 2 ^ 53" for n using that by (rule f64_of_int)
  show "f64 x \<le> x + x / 2 ^ 53" if "0 \<le> x" for x
  proof (cases "x = 0")
    case False
    with that have "0 < x" by simp
    then have "f64_pos x - x \<le> x / 2 ^ 53" by (rule order_trans [OF abs_ge_self f64_pos_error])
    with \<open>0 < x\<close> show ?thesis by (simp add: f64_def)
  qed (simp add: f64_def)
qed

end
