(* ===== verification/Policy_Conditions.thy ===== *)
theory Policy_Conditions
  imports Policy_Config Go_Float
begin

text \<open>
  The condition evaluators (\<open>internal/core/policy/condition/*.go\<close>). Each evaluator is a function of
  the clock reading, the request and the configuration, which is an interface value: \<^const>\<open>None\<close> is
  the nil interface, and a value of another dynamic type is an error. The result is an error or
  the pair \<open>(matched, reason)\<close>.

  The locale \<open>condition_contract\<close> states what the policy evaluator relies on: no error on a
  configuration of the right type that validates, a result that does not depend on whether the
  configuration was validated before, and no reason without a match. It is interpreted on each of
  the ten evaluators. The lemmas after it say exactly when each condition matches.
\<close>

section \<open>Requests\<close>

record access_request =
  req_tenant_id :: string
  req_request_id :: string
  req_kind :: access_request_kind
  req_artifact :: artifact_identity
  req_upstream :: upstream
  req_metadata :: "artifact_metadata option"
  req_dependency_context :: "dependency_context option"
  req_timestamp :: time

text \<open>The dynamic types behind the interface, the type assertion \<open>config.(T)\<close> of
  \<open>configTypeMatcher\<close>, and the \<open>%T\<close> text. A nil interface has no dynamic type.\<close>

datatype config_type =
    CVSSThresholdPolicyConfig_T
  | MinimumAgePolicyConfig_T
  | MaximumAgePolicyConfig_T
  | BlockMutableTagPolicyConfig_T
  | ScorecardPolicyConfig_T
  | LicensePolicyConfig_T
  | LicenseAllowlistPolicyConfig_T
  | LicenseAllowlistPolicyConfigV2_T
  | NamespaceListPolicyConfig_T

fun config_type_of :: "policy_config \<Rightarrow> config_type" where
  "config_type_of (CVSSThresholdPolicyConfig c) = CVSSThresholdPolicyConfig_T"
| "config_type_of (MinimumAgePolicyConfig c) = MinimumAgePolicyConfig_T"
| "config_type_of (MaximumAgePolicyConfig c) = MaximumAgePolicyConfig_T"
| "config_type_of (BlockMutableTagPolicyConfig c) = BlockMutableTagPolicyConfig_T"
| "config_type_of (ScorecardPolicyConfig c) = ScorecardPolicyConfig_T"
| "config_type_of (LicensePolicyConfig c) = LicensePolicyConfig_T"
| "config_type_of (LicenseAllowlistPolicyConfig c) = LicenseAllowlistPolicyConfig_T"
| "config_type_of (LicenseAllowlistPolicyConfigV2 c) = LicenseAllowlistPolicyConfigV2_T"
| "config_type_of (NamespaceListPolicyConfig c) = NamespaceListPolicyConfig_T"

definition configTypeMatcher :: "config_type \<Rightarrow> policy_config \<Rightarrow> bool" where
  "configTypeMatcher T config \<longleftrightarrow> config_type_of config = T"

fun config_type_name :: "config_type \<Rightarrow> string" where
  "config_type_name CVSSThresholdPolicyConfig_T = ''*domain.CVSSThresholdPolicyConfig''"
| "config_type_name MinimumAgePolicyConfig_T = ''*domain.MinimumAgePolicyConfig''"
| "config_type_name MaximumAgePolicyConfig_T = ''*domain.MaximumAgePolicyConfig''"
| "config_type_name BlockMutableTagPolicyConfig_T = ''*domain.BlockMutableTagPolicyConfig''"
| "config_type_name ScorecardPolicyConfig_T = ''*domain.ScorecardPolicyConfig''"
| "config_type_name LicensePolicyConfig_T = ''*domain.LicensePolicyConfig''"
| "config_type_name LicenseAllowlistPolicyConfig_T = ''*domain.LicenseAllowlistPolicyConfig''"
| "config_type_name LicenseAllowlistPolicyConfigV2_T = ''*domain.LicenseAllowlistPolicyConfigV2''"
| "config_type_name NamespaceListPolicyConfig_T = ''*domain.NamespaceListPolicyConfig''"

definition type_name :: "policy_config option \<Rightarrow> string" where
  "type_name config = (case config of None \<Rightarrow> ''<nil>'' | Some c \<Rightarrow> config_type_name (config_type_of c))"

definition type_error :: "string \<Rightarrow> string \<Rightarrow> policy_config option \<Rightarrow> go_error" where
  "type_error kind expected config =
     plain_error (kind @ '' requires '' @ expected @ '', got '' @ type_name config)"

type_synonym match_result = "(bool \<times> string) result"

section \<open>Age\<close>

text \<open>\<open>time.Since\<close> saturates at the range of a \<open>Duration\<close> (64-bit nanoseconds).\<close>

definition time_since :: "time \<Rightarrow> time \<Rightarrow> duration" where
  "time_since now t = max (- (2 ^ 63)) (min (2 ^ 63 - 1) (now - t))"

definition isExcludedPackage :: "string \<Rightarrow> string list \<Rightarrow> bool" where
  "isExcludedPackage fullName excluded \<longleftrightarrow> fullName \<in> set excluded"

definition isYoungerThan :: "float64 \<Rightarrow> int \<Rightarrow> bool" where
  "isYoungerThan ageDays thresholdDays \<longleftrightarrow> ageDays < f64 (of_int thresholdDays)"

definition isOlderThan :: "float64 \<Rightarrow> int \<Rightarrow> bool" where
  "isOlderThan ageDays thresholdDays \<longleftrightarrow> ageDays > f64 (of_int thresholdDays)"

text \<open>The reason format has two verbs; \<open>reason_text\<close> is the text before, between and after them.\<close>

definition evaluateAge ::
  "time \<Rightarrow> access_request \<Rightarrow> string list \<Rightarrow> int \<Rightarrow> (float64 \<Rightarrow> int \<Rightarrow> bool) \<Rightarrow> string \<times> string \<times> string \<Rightarrow>
   bool \<times> string" where
  "evaluateAge now req excludedPackages thresholdDays age_matches reason_text =
     (if isExcludedPackage (FullName (req_artifact req)) excludedPackages then (False, [])
      else (case req_metadata req of
          None \<Rightarrow> (False, [])
        | Some m \<Rightarrow>
            (case meta_published_at m of
               None \<Rightarrow> (False, [])
             | Some publishedAt \<Rightarrow>
                 (let ageDays = age_in_days f64 (time_since now publishedAt)
                  in if \<not> age_matches ageDays thresholdDays then (False, [])
                     else (case reason_text of (before, between, after) \<Rightarrow>
                       (True, before @ show_int \<lfloor>ageDays\<rfloor> @ between @ show_int thresholdDays @ after))))))"

definition EvaluateMinimumAge :: "time \<Rightarrow> access_request \<Rightarrow> policy_config option \<Rightarrow> match_result" where
  "EvaluateMinimumAge now req config =
     (case config of
        Some (MinimumAgePolicyConfig typed0) \<Rightarrow>
          (case ValidateMinimumAge typed0 of
             Inl e \<Rightarrow> Inl e
           | Inr typed \<Rightarrow>
               Inr (evaluateAge now req (minage_exclude (the typed)) (the (minage_days (the typed)))
                 isYoungerThan (''artifact published '', '' days ago, minimum required is '', '' days'')))
      | _ \<Rightarrow> Inl (type_error ''minimum_age'' ''*domain.MinimumAgePolicyConfig'' config))"

definition EvaluateMaximumAge :: "time \<Rightarrow> access_request \<Rightarrow> policy_config option \<Rightarrow> match_result" where
  "EvaluateMaximumAge now req config =
     (case config of
        Some (MaximumAgePolicyConfig typed0) \<Rightarrow>
          (case ValidateMaximumAge typed0 of
             Inl e \<Rightarrow> Inl e
           | Inr typed \<Rightarrow>
               Inr (evaluateAge now req (maxage_exclude (the typed)) (the (maxage_days (the typed)))
                 isOlderThan (''artifact published '', '' days ago, maximum allowed is '', '' days'')))
      | _ \<Rightarrow> Inl (type_error ''maximum_age'' ''*domain.MaximumAgePolicyConfig'' config))"

section \<open>Vulnerabilities\<close>

definition severityRankWithoutNormalization :: "severity_level \<Rightarrow> int option" where
  "severityRankWithoutNormalization severity =
     (if severity = SeverityNone then Some 0
      else if severity = SeverityLow then Some 1
      else if severity = SeverityMedium then Some 2
      else if severity = SeverityHigh then Some 3
      else if severity = SeverityCritical then Some 4
      else None)"

definition normalizeSeverity :: "severity_level \<Rightarrow> severity_level" where
  "normalizeSeverity severity =
     (let normalized = to_lower (trim_space severity)
      in if severityRankWithoutNormalization normalized \<noteq> None then normalized else [])"

definition severityRank :: "severity_level \<Rightarrow> int option" where
  "severityRank severity =
     (let s = normalizeSeverity severity
      in if s = SeverityNone then Some 0
         else if s = SeverityLow then Some 1
         else if s = SeverityMedium then Some 2
         else if s = SeverityHigh then Some 3
         else if s = SeverityCritical then Some 4
         else None)"

definition severityAtOrAbove :: "severity_level \<Rightarrow> severity_level \<Rightarrow> bool" where
  "severityAtOrAbove actual threshold =
     (case severityRank actual of
        None \<Rightarrow> False
      | Some actualRank \<Rightarrow>
          (case severityRank threshold of None \<Rightarrow> False | Some thresholdRank \<Rightarrow> actualRank \<ge> thresholdRank))"

definition severityFromCVSS :: "float64 \<Rightarrow> severity_level" where
  "severityFromCVSS score =
     (if score \<ge> 9 then SeverityCritical
      else if score \<ge> 7 then SeverityHigh
      else if score \<ge> 4 then SeverityMedium
      else if score > 0 then SeverityLow
      else [])"

fun cvss_vulnerability_loop :: "severity_level \<Rightarrow> vulnerability list \<Rightarrow> bool \<times> string" where
  "cvss_vulnerability_loop threshold [] = (False, [])"
| "cvss_vulnerability_loop threshold (v # vs) =
     (let actual0 = normalizeSeverity (vuln_severity v);
          actual = (if actual0 = [] then severityFromCVSS (vuln_cvss v) else actual0);
          inferredFromScore = (actual0 = [] \<and> actual \<noteq> [])
      in if severityAtOrAbove actual threshold then
           (if inferredFromScore then
              (True, ''artifact has vulnerability with inferred severity '' @ actual @ '' (CVSS '' @
                 show_f1 (vuln_cvss v) @ '') at or above threshold '' @ threshold)
            else (True, ''artifact has vulnerability with severity '' @ actual @
                 '' at or above threshold '' @ threshold))
         else cvss_vulnerability_loop threshold vs)"

definition EvaluateCVSSThreshold :: "access_request \<Rightarrow> policy_config option \<Rightarrow> match_result" where
  "EvaluateCVSSThreshold req config =
     (case config of
        Some (CVSSThresholdPolicyConfig typed0) \<Rightarrow>
          (case ValidateCVSS typed0 of
             Inl e \<Rightarrow> Inl e
           | Inr typed1 \<Rightarrow>
               (let typed = the typed1
                in case req_metadata req of
                     None \<Rightarrow> Inr (False, [])
                   | Some m \<Rightarrow>
                       (case (case (cvss_max typed, meta_max_cvss m) of
                                (Some limit, Some score) \<Rightarrow>
                                  (if score \<ge> limit then
                                     Some (''artifact has CVSS score '' @ show_f1 score @
                                       '' at or above threshold '' @ show_f1 limit)
                                   else None)
                              | _ \<Rightarrow> None) of
                          Some reason \<Rightarrow> Inr (True, reason)
                        | None \<Rightarrow>
                            (case cvss_minimum_severity typed of
                               None \<Rightarrow> Inr (False, [])
                             | Some sev \<Rightarrow>
                                 Inr (cvss_vulnerability_loop (normalizeSeverity sev)
                                   (meta_vulnerabilities m))))))
      | _ \<Rightarrow> Inl (type_error ''cvss_threshold'' ''*domain.CVSSThresholdPolicyConfig'' config))"

section \<open>Licenses\<close>

definition licenseKey :: "string \<Rightarrow> string" where
  "licenseKey v = to_lower (trim_space v)"

definition approvedLicenses :: "string list \<Rightarrow> string set" where
  "approvedLicenses licenses = licenseKey ` set licenses"

fun license_match_loop :: "string set \<Rightarrow> string list \<Rightarrow> bool \<times> string" where
  "license_match_loop allowed [] = (False, [])"
| "license_match_loop allowed (license # rest) =
     (if licenseKey license \<in> allowed then (True, ''license '' @ quote license @ '' matched policy'')
      else license_match_loop allowed rest)"

definition EvaluateLicense :: "access_request \<Rightarrow> policy_config option \<Rightarrow> match_result" where
  "EvaluateLicense req config =
     (case config of
        Some (LicensePolicyConfig typed0) \<Rightarrow>
          (case ValidateLicense typed0 of
             Inl e \<Rightarrow> Inl e
           | Inr typed \<Rightarrow>
               (case req_metadata req of
                  None \<Rightarrow> Inr (False, [])
                | Some m \<Rightarrow>
                    (if meta_licenses m = [] then Inr (False, [])
                     else Inr (license_match_loop (approvedLicenses (lic_licenses (the typed)))
                            (meta_licenses m)))))
      | _ \<Rightarrow> Inl (type_error ''license'' ''*domain.LicensePolicyConfig'' config))"

definition isUnversionedNPMMetadataRequest :: "access_request \<Rightarrow> bool" where
  "isUnversionedNPMMetadataRequest req \<longleftrightarrow>
     art_ecosystem (req_artifact req) = EcosystemNPM \<and> trim_space (art_version (req_artifact req)) = []"

definition licenseAllowlistSettings ::
  "policy_config option \<Rightarrow> (string list \<times> missing_behavior \<times> missing_behavior) result" where
  "licenseAllowlistSettings config =
     (case config of
        Some (LicenseAllowlistPolicyConfig typed0) \<Rightarrow>
          (case ValidateLicenseAllowlist typed0 of
             Inl e \<Rightarrow> Inl e
           | Inr typed \<Rightarrow> Inr (lica_licenses (the typed), LicenseAllowlistMissingBehaviorDeny,
               LicenseAllowlistMissingBehaviorDeny))
      | Some (LicenseAllowlistPolicyConfigV2 typed0) \<Rightarrow>
          (case ValidateLicenseAllowlistV2 typed0 of
             Inl e \<Rightarrow> Inl e
           | Inr typed \<Rightarrow> Inr (licv2_licenses (the typed), EffectiveUnlicensedBehavior typed,
               EffectiveUnavailableMetadataBehavior typed))
      | _ \<Rightarrow> Inl (type_error ''license_allowlist''
             ''*domain.LicenseAllowlistPolicyConfig or *domain.LicenseAllowlistPolicyConfigV2'' config))"

definition applyMissingLicenseBehavior :: "missing_behavior \<Rightarrow> string \<Rightarrow> bool \<times> string" where
  "applyMissingLicenseBehavior behavior reason =
     (if behavior = LicenseAllowlistMissingBehaviorSkip then (False, []) else (True, reason))"

definition artifactLicenseReference :: "artifact_identity \<Rightarrow> string" where
  "artifactLicenseReference artifact =
     (let ref = FullName artifact
      in if trim_space (art_digest artifact) \<noteq> [] then ref @ ''@'' @ trim_space (art_digest artifact)
         else if trim_space (art_version artifact) \<noteq> [] then ref @ ''@'' @ trim_space (art_version artifact)
         else ref)"

definition licenseMetadataUnavailableReason :: "artifact_identity \<Rightarrow> string" where
  "licenseMetadataUnavailableReason artifact =
     (let ref = artifactLicenseReference artifact
      in if ref = [] then ''license metadata is unavailable and approved-license policy denies the artifact''
         else ''license metadata is unavailable for '' @ ref @
           '' and approved-license policy denies the artifact'')"

definition unlicensedArtifactReason :: "artifact_identity \<Rightarrow> string" where
  "unlicensedArtifactReason artifact =
     (let ref = artifactLicenseReference artifact
      in if ref = [] then
           ''artifact does not declare a license and approved-license policy denies the artifact''
         else ''artifact '' @ ref @
           '' does not declare a license and approved-license policy denies the artifact'')"

fun license_allowlist_loop :: "string set \<Rightarrow> string list \<Rightarrow> bool \<times> string" where
  "license_allowlist_loop allowed [] = (False, [])"
| "license_allowlist_loop allowed (license # rest) =
     (if licenseKey license \<notin> allowed then
        (True, ''license '' @ quote license @ '' is not in the approved license list'')
      else license_allowlist_loop allowed rest)"

definition EvaluateLicenseAllowlist :: "access_request \<Rightarrow> policy_config option \<Rightarrow> match_result" where
  "EvaluateLicenseAllowlist req config =
     (if isUnversionedNPMMetadataRequest req then Inr (False, [])
      else (case licenseAllowlistSettings config of
          Inl e \<Rightarrow> Inl e
        | Inr (licenses, unlicensedBehavior, unavailableBehavior) \<Rightarrow>
            (case req_metadata req of
               None \<Rightarrow> Inr (applyMissingLicenseBehavior unavailableBehavior
                        (licenseMetadataUnavailableReason (req_artifact req)))
             | Some m \<Rightarrow>
                 (if meta_licenses m = [] then
                    Inr (applyMissingLicenseBehavior unlicensedBehavior
                      (unlicensedArtifactReason (req_artifact req)))
                  else Inr (license_allowlist_loop (approvedLicenses licenses) (meta_licenses m))))))"

section \<open>Namespaces and tags\<close>

text \<open>The shared head of the three namespace conditions: the type assertion and the validation.\<close>

definition namespace_list_settings :: "string \<Rightarrow> policy_config option \<Rightarrow> string list result" where
  "namespace_list_settings kind config =
     (case config of
        Some (NamespaceListPolicyConfig typed0) \<Rightarrow>
          (case ValidateNamespaceList typed0 of
             Inl e \<Rightarrow> Inl e
           | Inr typed \<Rightarrow> Inr (nsl_namespaces (the typed)))
      | _ \<Rightarrow> Inl (type_error kind ''*domain.NamespaceListPolicyConfig'' config))"

definition EvaluateAllowlist :: "access_request \<Rightarrow> policy_config option \<Rightarrow> match_result" where
  "EvaluateAllowlist req config =
     (case namespace_list_settings ''allowlist'' config of
        Inl e \<Rightarrow> Inl e
      | Inr namespaces \<Rightarrow>
          (let ns = art_namespace (req_artifact req)
           in if ns \<in> set namespaces then Inr (True, ''namespace '' @ quote ns @ '' is allowed'')
              else Inr (False, [])))"

definition EvaluateNamespaceAllowlist :: "access_request \<Rightarrow> policy_config option \<Rightarrow> match_result" where
  "EvaluateNamespaceAllowlist req config =
     (case namespace_list_settings ''namespace_allowlist'' config of
        Inl e \<Rightarrow> Inl e
      | Inr namespaces \<Rightarrow>
          (let ns = art_namespace (req_artifact req)
           in if ns \<notin> set namespaces then
                Inr (True, ''namespace '' @ quote ns @ '' is not in the approved namespace list'')
              else Inr (False, [])))"

definition EvaluateBlocklist :: "access_request \<Rightarrow> policy_config option \<Rightarrow> match_result" where
  "EvaluateBlocklist req config =
     (case namespace_list_settings ''blocklist'' config of
        Inl e \<Rightarrow> Inl e
      | Inr namespaces \<Rightarrow>
          (let ns = art_namespace (req_artifact req)
           in if ns \<in> set namespaces then Inr (True, ''namespace '' @ quote ns @ '' is blocked'')
              else Inr (False, [])))"

fun mutable_tag_loop :: "string \<Rightarrow> string list \<Rightarrow> bool \<times> string" where
  "mutable_tag_loop version [] = (False, [])"
| "mutable_tag_loop version (tag # rest) =
     (if version = tag then (True, ''mutable tag '' @ quote tag @ '' is blocked by policy'')
      else mutable_tag_loop version rest)"

definition EvaluateBlockMutableTag :: "access_request \<Rightarrow> policy_config option \<Rightarrow> match_result" where
  "EvaluateBlockMutableTag req config =
     (case config of
        Some (BlockMutableTagPolicyConfig typed0) \<Rightarrow>
          (case ValidateBlockMutableTag typed0 of
             Inl e \<Rightarrow> Inl e
           | Inr typed \<Rightarrow>
               (case req_metadata req of
                  None \<Rightarrow> Inr (False, [])
                | Some m \<Rightarrow>
                    (if \<not> meta_is_mutable_tag m then Inr (False, [])
                     else Inr (mutable_tag_loop (art_version (req_artifact req)) (tag_tags (the typed))))))
      | _ \<Rightarrow> Inl (type_error ''block_mutable_tag'' ''*domain.BlockMutableTagPolicyConfig'' config))"

section \<open>Scorecards\<close>

definition applyUnavailableScorecardBehavior :: "missing_behavior \<Rightarrow> string \<Rightarrow> bool \<times> string" where
  "applyUnavailableScorecardBehavior behavior reason =
     (if behavior = ScorecardUnavailableBehaviorSkip then (False, []) else (True, reason))"

definition scorecardResult :: "artifact_metadata option \<Rightarrow> scorecard_result option" where
  "scorecardResult metadata = (case metadata of None \<Rightarrow> None | Some m \<Rightarrow> meta_scorecard m)"

definition scorecardReference :: "artifact_metadata option \<Rightarrow> artifact_identity \<Rightarrow> string" where
  "scorecardReference metadata artifact =
     (let fromArtifact =
            (let ref = FullName artifact
             in if trim_space (art_digest artifact) \<noteq> [] then ref @ ''@'' @ trim_space (art_digest artifact)
                else if trim_space (art_version artifact) \<noteq> [] then
                  ref @ ''@'' @ trim_space (art_version artifact)
                else ref)
      in case metadata of
           None \<Rightarrow> fromArtifact
         | Some m \<Rightarrow>
             (case meta_source_repository m of
                None \<Rightarrow> fromArtifact
              | Some r \<Rightarrow>
                  (if ProjectURI r \<noteq> [] then ProjectURI r
                   else if DisplayName r \<noteq> [] then DisplayName r
                   else fromArtifact)))"

definition scorecardUnavailableReason :: "access_request \<Rightarrow> string \<Rightarrow> string" where
  "scorecardUnavailableReason req detail =
     (let ref = scorecardReference (req_metadata req) (req_artifact req);
          given = (case scorecardResult (req_metadata req) of
                     None \<Rightarrow> [] | Some s \<Rightarrow> trim_space (sc_unavailable_reason s))
      in if given \<noteq> [] then given @ '' and Scorecard policy denies the artifact''
         else if detail \<noteq> [] \<and> ref \<noteq> [] then
           detail @ '' for '' @ ref @ '' and Scorecard policy denies the artifact''
         else if detail \<noteq> [] then detail @ '' and Scorecard policy denies the artifact''
         else if ref \<noteq> [] then
           ''Scorecard data is unavailable for '' @ ref @ '' and Scorecard policy denies the artifact''
         else ''Scorecard data is unavailable and Scorecard policy denies the artifact'')"

text \<open>Reading an absent key of \<open>typed.Checks\<close> would give zero.\<close>

definition check_threshold :: "(string \<times> float64) list \<Rightarrow> string \<Rightarrow> float64" where
  "check_threshold checks checkName = (case map_of checks checkName of None \<Rightarrow> 0 | Some v \<Rightarrow> v)"

fun scorecard_checks_loop ::
  "access_request \<Rightarrow> missing_behavior \<Rightarrow> (string \<times> float64) list \<Rightarrow> (string \<times> float64) list \<Rightarrow> string list \<Rightarrow>
   bool \<times> string" where
  "scorecard_checks_loop req behavior checks actual [] = (False, [])"
| "scorecard_checks_loop req behavior checks actual (checkName # rest) =
     (let minScore = check_threshold checks checkName;
          unavailable = applyUnavailableScorecardBehavior behavior
            (scorecardUnavailableReason req (''Scorecard check '' @ quote checkName @ '' is unavailable''))
      in case map_of actual checkName of
           None \<Rightarrow> unavailable
         | Some actualScore \<Rightarrow>
             (if actualScore < 0 then unavailable
              else if actualScore < minScore then
                (True, ''source repository Scorecard check '' @ quote checkName @ '' scored '' @
                   show_f1 actualScore @ '' below minimum '' @ show_f1 minScore)
              else scorecard_checks_loop req behavior checks actual rest))"

definition EvaluateScorecard :: "access_request \<Rightarrow> policy_config option \<Rightarrow> match_result" where
  "EvaluateScorecard req config =
     (case config of
        Some (ScorecardPolicyConfig typed0) \<Rightarrow>
          (case ValidateScorecard typed0 of
             Inl e \<Rightarrow> Inl e
           | Inr typed1 \<Rightarrow>
               (let typed = the typed1;
                    behavior = EffectiveUnavailableScorecardBehavior typed1;
                    checks = (\<lambda>s. if scc_checks typed = [] then (False, [])
                      else scorecard_checks_loop req behavior (scc_checks typed) (sc_checks s)
                        (sort (map fst (scc_checks typed))))
                in case scorecardResult (req_metadata req) of
                     None \<Rightarrow> Inr (applyUnavailableScorecardBehavior behavior (scorecardUnavailableReason req []))
                   | Some s \<Rightarrow>
                       (case scc_min_score typed of
                          None \<Rightarrow> Inr (checks s)
                        | Some minScore \<Rightarrow>
                            (case sc_score s of
                               None \<Rightarrow> Inr (applyUnavailableScorecardBehavior behavior
                                 (scorecardUnavailableReason req ''overall Scorecard is unavailable''))
                             | Some score \<Rightarrow>
                                 (if score < minScore then
                                    Inr (True, ''source repository Scorecard '' @ show_f1 score @
                                      '' is below minimum '' @ show_f1 minScore)
                                  else Inr (checks s))))))
      | _ \<Rightarrow> Inl (type_error ''scorecard'' ''*domain.ScorecardPolicyConfig'' config))"

section \<open>The condition interface\<close>

datatype condition =
    CVSSThreshold
  | MinimumAge
  | MaximumAge
  | BlockMutableTag
  | Scorecard
  | License
  | LicenseAllowlist
  | Allowlist
  | NamespaceAllowlist
  | Blocklist

fun EvaluateCondition ::
  "condition \<Rightarrow> time \<Rightarrow> access_request \<Rightarrow> policy_config option \<Rightarrow> match_result" where
  "EvaluateCondition CVSSThreshold now req config = EvaluateCVSSThreshold req config"
| "EvaluateCondition MinimumAge now req config = EvaluateMinimumAge now req config"
| "EvaluateCondition MaximumAge now req config = EvaluateMaximumAge now req config"
| "EvaluateCondition BlockMutableTag now req config = EvaluateBlockMutableTag req config"
| "EvaluateCondition Scorecard now req config = EvaluateScorecard req config"
| "EvaluateCondition License now req config = EvaluateLicense req config"
| "EvaluateCondition LicenseAllowlist now req config = EvaluateLicenseAllowlist req config"
| "EvaluateCondition Allowlist now req config = EvaluateAllowlist req config"
| "EvaluateCondition NamespaceAllowlist now req config = EvaluateNamespaceAllowlist req config"
| "EvaluateCondition Blocklist now req config = EvaluateBlocklist req config"

locale condition_contract =
  fixes evaluate :: "access_request \<Rightarrow> policy_config option \<Rightarrow> match_result"
    and config_matches :: "policy_config \<Rightarrow> bool"
  assumes total: "config_matches c \<Longrightarrow> ValidateConfig c = Inr d \<Longrightarrow> \<exists>r. evaluate req (Some c) = Inr r"
    and stable: "config_matches c \<Longrightarrow> ValidateConfig c = Inr d \<Longrightarrow>
      evaluate req (Some d) = evaluate req (Some c)"
    and matches_stable: "ValidateConfig c = Inr d \<Longrightarrow> config_matches d = config_matches c"
    and silent: "evaluate req config = Inr (False, reason) \<Longrightarrow> reason = []"
begin

lemma no_error:
  "config_matches c \<Longrightarrow> ValidateConfig c = Inr d \<Longrightarrow> evaluate req (Some c) \<noteq> Inl e"
  using total [of c d req] by auto

lemma validated_total:
  assumes "config_matches c" "ValidateConfig c = Inr d"
  obtains m r where "evaluate req (Some d) = Inr (m, r)" "evaluate req (Some c) = Inr (m, r)"
    "m \<or> r = []"
proof -
  from total [OF assms] obtain m r where mr: "evaluate req (Some c) = Inr (m, r)" by fastforce
  moreover from mr stable [OF assms] have "evaluate req (Some d) = Inr (m, r)" by simp
  moreover from mr silent have "m \<or> r = []" by (cases m) auto
  ultimately show ?thesis using that by blast
qed

end

lemma map_sum_id_Inr: "map_sum id f s = Inr d \<longleftrightarrow> (\<exists>x. s = Inr x \<and> d = f x)"
  by (cases s) auto

text \<open>The configuration types that each condition accepts.\<close>

fun condition_config :: "condition \<Rightarrow> policy_config \<Rightarrow> bool" where
  "condition_config CVSSThreshold c = configTypeMatcher CVSSThresholdPolicyConfig_T c"
| "condition_config MinimumAge c = configTypeMatcher MinimumAgePolicyConfig_T c"
| "condition_config MaximumAge c = configTypeMatcher MaximumAgePolicyConfig_T c"
| "condition_config BlockMutableTag c = configTypeMatcher BlockMutableTagPolicyConfig_T c"
| "condition_config Scorecard c = configTypeMatcher ScorecardPolicyConfig_T c"
| "condition_config License c = configTypeMatcher LicensePolicyConfig_T c"
| "condition_config LicenseAllowlist c =
     (configTypeMatcher LicenseAllowlistPolicyConfig_T c \<or> configTypeMatcher LicenseAllowlistPolicyConfigV2_T c)"
| "condition_config Allowlist c = configTypeMatcher NamespaceListPolicyConfig_T c"
| "condition_config NamespaceAllowlist c = configTypeMatcher NamespaceListPolicyConfig_T c"
| "condition_config Blocklist c = configTypeMatcher NamespaceListPolicyConfig_T c"

lemma validate_config_type: "ValidateConfig c = Inr d \<Longrightarrow> config_type_of d = config_type_of c"
  by (cases c) (auto simp: map_sum_id_Inr)

lemma validate_config_condition: "ValidateConfig c = Inr d \<Longrightarrow> condition_config k d = condition_config k c"
  by (cases k) (simp_all add: configTypeMatcher_def validate_config_type)

text \<open>Only the Scorecard validator rewrites its configuration.\<close>

lemma validate_config_same:
  assumes "ValidateConfig c = Inr d" "config_type_of c \<noteq> ScorecardPolicyConfig_T"
  shows "d = c"
  using assms
  by (cases c)
    (auto simp: map_sum_id_Inr ValidateCVSS_def ValidateMinimumAge_def ValidateMaximumAge_def
      ValidateBlockMutableTag_def ValidateLicense_def ValidateLicenseAllowlist_def
      ValidateLicenseAllowlistV2_def ValidateNamespaceList_def split: option.splits if_splits sum.splits)

lemma evaluate_stable:
  assumes "condition_config k c" "ValidateConfig c = Inr d"
  shows "EvaluateCondition k now req (Some d) = EvaluateCondition k now req (Some c)"
proof (cases "config_type_of c = ScorecardPolicyConfig_T")
  case True
  with assms obtain x y where xy: "c = ScorecardPolicyConfig x" "d = ScorecardPolicyConfig y"
    "ValidateScorecard x = Inr y" and k: "k = Scorecard"
    by (cases c; cases k) (auto simp: map_sum_id_Inr configTypeMatcher_def)
  from validate_scorecard_idem [OF xy(3)] xy k show ?thesis by (simp add: EvaluateScorecard_def)
next
  case False
  with validate_config_same [OF assms(2)] show ?thesis by simp
qed

lemma namespace_settings_total:
  assumes "configTypeMatcher NamespaceListPolicyConfig_T c" "ValidateConfig c = Inr d"
  shows "\<exists>ns. \<forall>kind. namespace_list_settings kind (Some c) = Inr ns"
proof -
  from assms obtain x y where "c = NamespaceListPolicyConfig x" "ValidateNamespaceList x = Inr y"
    by (cases c) (auto simp: map_sum_id_Inr configTypeMatcher_def)
  then show ?thesis by (simp add: namespace_list_settings_def)
qed

lemma evaluate_total:
  assumes "condition_config k c" "ValidateConfig c = Inr d"
  shows "\<not> isl (EvaluateCondition k now req (Some c))"
  using assms
proof (cases k)
  case CVSSThreshold
  with assms obtain x y where "c = CVSSThresholdPolicyConfig x" "ValidateCVSS x = Inr y"
    by (cases c) (auto simp: map_sum_id_Inr configTypeMatcher_def)
  with CVSSThreshold show ?thesis
    by (simp add: EvaluateCVSSThreshold_def Let_def split: option.split)
next
  case MinimumAge
  with assms obtain x y where "c = MinimumAgePolicyConfig x" "ValidateMinimumAge x = Inr y"
    by (cases c) (auto simp: map_sum_id_Inr configTypeMatcher_def)
  with MinimumAge show ?thesis by (simp add: EvaluateMinimumAge_def)
next
  case MaximumAge
  with assms obtain x y where "c = MaximumAgePolicyConfig x" "ValidateMaximumAge x = Inr y"
    by (cases c) (auto simp: map_sum_id_Inr configTypeMatcher_def)
  with MaximumAge show ?thesis by (simp add: EvaluateMaximumAge_def)
next
  case BlockMutableTag
  with assms obtain x y where "c = BlockMutableTagPolicyConfig x" "ValidateBlockMutableTag x = Inr y"
    by (cases c) (auto simp: map_sum_id_Inr configTypeMatcher_def)
  with BlockMutableTag show ?thesis by (simp add: EvaluateBlockMutableTag_def split: option.split)
next
  case Scorecard
  with assms obtain x y where "c = ScorecardPolicyConfig x" "ValidateScorecard x = Inr y"
    by (cases c) (auto simp: map_sum_id_Inr configTypeMatcher_def)
  with Scorecard show ?thesis by (simp add: EvaluateScorecard_def Let_def split: option.split)
next
  case License
  with assms obtain x y where "c = LicensePolicyConfig x" "ValidateLicense x = Inr y"
    by (cases c) (auto simp: map_sum_id_Inr configTypeMatcher_def)
  with License show ?thesis by (simp add: EvaluateLicense_def split: option.split)
next
  case LicenseAllowlist
  with assms have "\<exists>l u v. licenseAllowlistSettings (Some c) = Inr (l, u, v)"
    by (cases c) (auto simp: map_sum_id_Inr configTypeMatcher_def licenseAllowlistSettings_def)
  with LicenseAllowlist show ?thesis
    by (auto simp: EvaluateLicenseAllowlist_def split: option.splits if_splits)
next
  case Allowlist
  with assms(1) have "configTypeMatcher NamespaceListPolicyConfig_T c" by simp
  from namespace_settings_total [OF this assms(2)] obtain ns where
    "\<forall>kind. namespace_list_settings kind (Some c) = Inr ns" ..
  with Allowlist show ?thesis by (simp add: EvaluateAllowlist_def Let_def)
next
  case NamespaceAllowlist
  with assms(1) have "configTypeMatcher NamespaceListPolicyConfig_T c" by simp
  from namespace_settings_total [OF this assms(2)] obtain ns where
    "\<forall>kind. namespace_list_settings kind (Some c) = Inr ns" ..
  with NamespaceAllowlist show ?thesis by (simp add: EvaluateNamespaceAllowlist_def Let_def)
next
  case Blocklist
  with assms(1) have "configTypeMatcher NamespaceListPolicyConfig_T c" by simp
  from namespace_settings_total [OF this assms(2)] obtain ns where
    "\<forall>kind. namespace_list_settings kind (Some c) = Inr ns" ..
  with Blocklist show ?thesis by (simp add: EvaluateBlocklist_def Let_def)
qed

lemma match_loops_silent:
  "cvss_vulnerability_loop threshold vs = (False, r) \<Longrightarrow> r = []"
  "license_match_loop allowed ls = (False, r) \<Longrightarrow> r = []"
  "license_allowlist_loop allowed ls = (False, r) \<Longrightarrow> r = []"
  "mutable_tag_loop version ls = (False, r) \<Longrightarrow> r = []"
  "scorecard_checks_loop req b checks actual ls = (False, r) \<Longrightarrow> r = []"
  "applyMissingLicenseBehavior b t = (False, r) \<Longrightarrow> r = []"
  "applyUnavailableScorecardBehavior b t = (False, r) \<Longrightarrow> r = []"
  "evaluateAge now req ex d p (t1, t2, t3) = (False, r) \<Longrightarrow> r = []"
proof -
  show "cvss_vulnerability_loop threshold vs = (False, r) \<Longrightarrow> r = []"
    by (induction vs) (auto simp: Let_def split: if_splits)
  show "license_match_loop allowed ls = (False, r) \<Longrightarrow> r = []"
    "license_allowlist_loop allowed ls = (False, r) \<Longrightarrow> r = []"
    "mutable_tag_loop version ls = (False, r) \<Longrightarrow> r = []"
    by (induction ls) (auto split: if_splits)
  show "scorecard_checks_loop req b checks actual ls = (False, r) \<Longrightarrow> r = []"
    by (induction ls)
      (auto simp: Let_def applyUnavailableScorecardBehavior_def split: if_splits option.splits)
qed (auto simp: applyMissingLicenseBehavior_def applyUnavailableScorecardBehavior_def evaluateAge_def Let_def
      split: if_splits option.splits)

lemma evaluate_silent:
  "EvaluateCondition k now req config = Inr (False, r) \<Longrightarrow> r = []"
  by (cases k)
    (auto simp: EvaluateCVSSThreshold_def EvaluateMinimumAge_def EvaluateMaximumAge_def
      EvaluateBlockMutableTag_def EvaluateScorecard_def EvaluateLicense_def EvaluateLicenseAllowlist_def
      EvaluateAllowlist_def EvaluateNamespaceAllowlist_def EvaluateBlocklist_def Let_def
      dest: match_loops_silent
      split: option.splits if_splits sum.splits prod.splits policy_config.splits)

interpretation cond: condition_contract "EvaluateCondition k now" "condition_config k" for k now
proof
  show "\<exists>r. EvaluateCondition k now req (Some c) = Inr r"
    if "condition_config k c" "ValidateConfig c = Inr d" for c d req
    using evaluate_total [OF that, of now req]
    by (cases "EvaluateCondition k now req (Some c)") auto
qed (auto dest: evaluate_stable evaluate_silent validate_config_condition)

section \<open>When each condition matches\<close>

lemma minimum_age_matches:
  "EvaluateMinimumAge now req (Some (MinimumAgePolicyConfig (Some c))) = Inr (m, r) \<Longrightarrow>
   m \<longleftrightarrow> FullName (req_artifact req) \<notin> set (minage_exclude c) \<and>
     (\<exists>meta published days. req_metadata req = Some meta \<and> meta_published_at meta = Some published \<and>
        minage_days c = Some days \<and> age_in_days f64 (time_since now published) < f64 (of_int days))"
  by (auto simp: EvaluateMinimumAge_def ValidateMinimumAge_def evaluateAge_def isExcludedPackage_def
      isYoungerThan_def Let_def split: option.splits if_splits)

lemma maximum_age_matches:
  "EvaluateMaximumAge now req (Some (MaximumAgePolicyConfig (Some c))) = Inr (m, r) \<Longrightarrow>
   m \<longleftrightarrow> FullName (req_artifact req) \<notin> set (maxage_exclude c) \<and>
     (\<exists>meta published days. req_metadata req = Some meta \<and> meta_published_at meta = Some published \<and>
        maxage_days c = Some days \<and> f64 (of_int days) < age_in_days f64 (time_since now published))"
  by (auto simp: EvaluateMaximumAge_def ValidateMaximumAge_def evaluateAge_def isExcludedPackage_def
      isOlderThan_def Let_def split: option.splits if_splits)

lemma severity_rank_normalized:
  "severityRank s = severityRankWithoutNormalization (to_lower (trim_space s))"
  by (simp add: severityRank_def normalizeSeverity_def severityRankWithoutNormalization_def Let_def)

lemma vulnerability_loop_matches:
  "fst (cvss_vulnerability_loop threshold vs) \<longleftrightarrow>
   (\<exists>v \<in> set vs. severityAtOrAbove
      (if normalizeSeverity (vuln_severity v) = [] then severityFromCVSS (vuln_cvss v)
       else normalizeSeverity (vuln_severity v)) threshold)"
  by (induction vs) (auto simp: Let_def)

lemma cvss_matches:
  assumes "EvaluateCVSSThreshold req (Some (CVSSThresholdPolicyConfig (Some c))) = Inr (m, r)"
    and "req_metadata req = Some meta"
  shows "m \<longleftrightarrow>
    (\<exists>limit score. cvss_max c = Some limit \<and> meta_max_cvss meta = Some score \<and> limit \<le> score) \<or>
    (\<exists>sev. cvss_minimum_severity c = Some sev \<and>
       fst (cvss_vulnerability_loop (normalizeSeverity sev) (meta_vulnerabilities meta)))"
  using assms
  by (auto simp: EvaluateCVSSThreshold_def ValidateCVSS_def Let_def split: option.splits if_splits)

lemma license_loops_match:
  "fst (license_match_loop allowed ls) \<longleftrightarrow> (\<exists>l \<in> set ls. licenseKey l \<in> allowed)"
  "fst (license_allowlist_loop allowed ls) \<longleftrightarrow> (\<exists>l \<in> set ls. licenseKey l \<notin> allowed)"
  "fst (mutable_tag_loop version ls) \<longleftrightarrow> version \<in> set ls"
  by (induction ls) auto

text \<open>With the deny behaviour the Scorecard checks pass only when every configured check has a
  score, and that score reaches its threshold.\<close>

lemma scorecard_checks_pass:
  "b \<noteq> ScorecardUnavailableBehaviorSkip \<Longrightarrow>
   \<not> fst (scorecard_checks_loop req b checks actual names) \<longleftrightarrow>
   (\<forall>n \<in> set names. \<exists>score. map_of actual n = Some score \<and> 0 \<le> score \<and> check_threshold checks n \<le> score)"
  by (induction names)
    (auto simp: Let_def applyUnavailableScorecardBehavior_def split: option.splits)

text \<open>The check that makes the Scorecard condition match: unavailable under the deny behaviour, or
  below its threshold.\<close>

definition check_fails ::
  "missing_behavior \<Rightarrow> (string \<times> float64) list \<Rightarrow> (string \<times> float64) list \<Rightarrow> string \<Rightarrow> bool" where
  "check_fails b checks actual n =
     (case map_of actual n of
        None \<Rightarrow> b \<noteq> ScorecardUnavailableBehaviorSkip
      | Some score \<Rightarrow> (if score < 0 then b \<noteq> ScorecardUnavailableBehaviorSkip
                      else score < check_threshold checks n))"

lemma scorecard_checks_step:
  "fst (scorecard_checks_loop req b checks actual (n # names)) \<longleftrightarrow>
   check_fails b checks actual n \<or>
   (\<exists>score. map_of actual n = Some score \<and> 0 \<le> score \<and> check_threshold checks n \<le> score \<and>
      fst (scorecard_checks_loop req b checks actual names))"
  by (auto simp: check_fails_def Let_def applyUnavailableScorecardBehavior_def split: option.splits)

lemma scorecard_checks_deny_sound:
  "fst (scorecard_checks_loop req b checks actual names) \<Longrightarrow> \<exists>n \<in> set names. check_fails b checks actual n"
proof (induction names)
  case (Cons n names)
  then show ?case unfolding scorecard_checks_step by auto
qed simp

section \<open>Ages in exact time\<close>

abbreviation Day :: duration where "Day \<equiv> 24 * Hour"

lemma time_since_ge: "n \<le> now - t \<Longrightarrow> n \<le> 2 ^ 63 - 1 \<Longrightarrow> n \<le> time_since now t"
  by (simp add: time_since_def)

lemma time_since_le: "now - t \<le> n \<Longrightarrow> - (2 ^ 63) \<le> n \<Longrightarrow> time_since now t \<le> n"
  by (simp add: time_since_def)

text \<open>The range of a \<open>Duration\<close> holds 106751 whole days.\<close>

lemma day_bounds:
  assumes "0 \<le> n" "n \<le> 106751"
  shows "n * Day \<le> 2 ^ 63 - 1" and "0 \<le> n * Day"
  using assms by (simp_all add: Hour_def)

lemma old_enough_not_younger:
  assumes "0 \<le> n" "n \<le> 106751" "n * Day \<le> now - t"
  shows "\<not> isYoungerThan (age_in_days f64 (time_since now t)) n"
proof -
  have "of_int n \<le> age_in_days f64 (time_since now t)"
    using assms day_bounds [OF assms(1,2)]
    by (intro binary64.age_ge time_since_ge) (simp_all add: mult.assoc)
  moreover have "f64 (of_int n) = of_int n" using assms by (intro binary64.fl_int) simp
  ultimately show ?thesis by (simp add: isYoungerThan_def)
qed

lemma young_is_younger:
  assumes "0 < n" "n \<le> 106751" "now - t \<le> n * Day - Hour"
  shows "isYoungerThan (age_in_days f64 (time_since now t)) n"
proof -
  have "0 \<le> n * Day - Hour" using assms(1) by (simp add: Hour_def)
  then have "age_in_days f64 (time_since now t) < of_int n"
    using assms by (intro binary64.age_less time_since_le) (simp_all add: mult.assoc)
  moreover have "f64 (of_int n) = of_int n" using assms by (intro binary64.fl_int) simp
  ultimately show ?thesis by (simp add: isYoungerThan_def)
qed

lemma not_past_not_older:
  assumes "0 \<le> n" "n \<le> 106751" "now - t \<le> n * Day"
  shows "\<not> isOlderThan (age_in_days f64 (time_since now t)) n"
proof -
  have "age_in_days f64 (time_since now t) \<le> of_int n"
    using assms day_bounds [OF assms(1,2)]
    by (intro binary64.age_le time_since_le) (simp_all add: mult.assoc)
  moreover have "f64 (of_int n) = of_int n" using assms by (intro binary64.fl_int) simp
  ultimately show ?thesis by (simp add: isOlderThan_def)
qed

lemma past_next_day_older:
  assumes "0 \<le> n" "n < 106751" "(n + 1) * Day \<le> now - t"
  shows "isOlderThan (age_in_days f64 (time_since now t)) n"
proof -
  have "of_int (n + 1) \<le> age_in_days f64 (time_since now t)"
    using assms day_bounds [of "n + 1"]
    by (intro binary64.age_ge time_since_ge) (simp_all add: mult.assoc)
  moreover have "f64 (of_int n) = of_int n" using assms by (intro binary64.fl_int) simp
  ultimately show ?thesis by (simp add: isOlderThan_def)
qed

section \<open>Properties\<close>

definition sample_upstream :: "string \<Rightarrow> ecosystem_type \<Rightarrow> upstream" where
  "sample_upstream uid e = \<lparr>up_id = uid, up_tenant_id = ''t1'', up_name = ''main'', up_ecosystem = e,
     up_base_url = ''https://registry'', up_capabilities = None, up_auth = None,
     up_created_at = 0, up_updated_at = 0\<rparr>"

definition sample_request :: "artifact_metadata option \<Rightarrow> access_request" where
  "sample_request m = \<lparr>req_tenant_id = ''t1'', req_request_id = ''r1'', req_kind = AccessRequestKindNPMMetadata,
     req_artifact = sample_npm_normal, req_upstream = sample_upstream ''u1'' EcosystemNPM,
     req_metadata = m, req_dependency_context = None, req_timestamp = 0\<rparr>"

definition min_age_config :: "int \<Rightarrow> policy_config" where
  "min_age_config n =
     MinimumAgePolicyConfig (Some \<lparr>minage_days = Some n, minage_exclude = [], minage_dry_run = False\<rparr>)"

text \<open>C37. The minimum-age condition decides by real elapsed time although it computes in floating
  point: for a threshold of \<open>n\<close> days (up to the 106751 days a 64-bit duration holds) an artifact that is
  not excluded matches whenever it was published at least one hour less than \<open>n\<close> days ago, and never
  when \<open>n\<close> full days have passed.\<close>

theorem minimum_age_exact:
  assumes "0 < n" "n \<le> 106751" "minage_days c = Some n"
    and "req_metadata req = Some m" "meta_published_at m = Some t"
    and "FullName (req_artifact req) \<notin> set (minage_exclude c)"
  shows "(now - t \<le> n * Day - Hour \<longrightarrow>
      (\<exists>r. EvaluateMinimumAge now req (Some (MinimumAgePolicyConfig (Some c))) = Inr (True, r))) \<and>
    (n * Day \<le> now - t \<longrightarrow>
      EvaluateMinimumAge now req (Some (MinimumAgePolicyConfig (Some c))) = Inr (False, []))"
  using assms old_enough_not_younger [of n now t] young_is_younger [of n now t]
  by (auto simp: EvaluateMinimumAge_def ValidateMinimumAge_def evaluateAge_def isExcludedPackage_def Let_def)

definition sample_published :: artifact_metadata where
  "sample_published = empty_metadata\<lparr>meta_published_at := Some 0\<rparr>"

theorem minimum_age_exact_witness:
  "EvaluateMinimumAge (7 * Day) (sample_request (Some sample_published)) (Some (min_age_config 7)) =
     Inr (False, []) \<and>
   (\<exists>r. EvaluateMinimumAge (7 * Day - Hour) (sample_request (Some sample_published)) (Some (min_age_config 7)) =
     Inr (True, r))"
  using minimum_age_exact [of 7 _ "sample_request (Some sample_published)" sample_published 0 "7 * Day"]
    minimum_age_exact [of 7 _ "sample_request (Some sample_published)" sample_published 0 "7 * Day - Hour"]
  by (simp add: min_age_config_def sample_request_def sample_published_def)

text \<open>The vulnerability condition matches exactly when the reported maximum score reaches the
  configured one, or some vulnerability is at or above the configured severity, where a severity the
  report leaves out or misspells is inferred from its score.\<close>

lemma cvss_condition_matches:
  assumes "EvaluateCVSSThreshold req (Some (CVSSThresholdPolicyConfig (Some c))) = Inr (matched, r)"
    and "req_metadata req = Some meta"
  shows "matched \<longleftrightarrow>
    (\<exists>limit score. cvss_max c = Some limit \<and> meta_max_cvss meta = Some score \<and> limit \<le> score) \<or>
    (\<exists>sev v. cvss_minimum_severity c = Some sev \<and> v \<in> set (meta_vulnerabilities meta) \<and>
       severityAtOrAbove
         (if normalizeSeverity (vuln_severity v) = [] then severityFromCVSS (vuln_cvss v)
          else normalizeSeverity (vuln_severity v)) (normalizeSeverity sev))"
  using cvss_matches [OF assms] by (auto simp: vulnerability_loop_matches)

definition sample_cvss :: cvss_threshold_config where
  "sample_cvss = \<lparr>cvss_max = Some 9, cvss_minimum_severity = Some ''high'', cvss_dry_run = False\<rparr>"

definition sample_vulnerable :: artifact_metadata where
  "sample_vulnerable = empty_metadata\<lparr>meta_vulnerabilities :=
     [\<lparr>vuln_id = ''OSV-1'', vuln_severity = [], vuln_cvss = 75 / 10, vuln_summary = []\<rparr>]\<rparr>"

lemma cvss_condition_matches_witness:
  "\<exists>r. EvaluateCVSSThreshold (sample_request (Some sample_vulnerable))
     (Some (CVSSThresholdPolicyConfig (Some sample_cvss))) = Inr (True, r)"
proof -
  let ?e = "EvaluateCVSSThreshold (sample_request (Some sample_vulnerable))
    (Some (CVSSThresholdPolicyConfig (Some sample_cvss)))"
  obtain m r where mr: "?e = Inr (m, r)"
    by (cases ?e) (auto simp: EvaluateCVSSThreshold_def ValidateCVSS_def sample_cvss_def sample_request_def
        sample_vulnerable_def empty_metadata_def)
  moreover have "severityAtOrAbove (severityFromCVSS (75 / 10)) (normalizeSeverity ''high'')"
    by code_simp
  moreover have "normalizeSeverity [] = []" by code_simp
  ultimately show ?thesis
    using cvss_condition_matches [OF mr, of sample_vulnerable]
    by (simp add: sample_request_def sample_vulnerable_def sample_cvss_def)
qed

text \<open>With the deny behaviour for missing data the Scorecard condition lets an artifact pass only
  when there is a Scorecard, its overall score reaches the configured minimum, and every configured
  check has a non-negative score that reaches its threshold.\<close>

lemma scorecard_pass_sound:
  assumes "EvaluateScorecard req (Some (ScorecardPolicyConfig (Some c))) = Inr (False, r)"
    and "ValidateScorecard (Some c) = Inr (Some v)"
    and "EffectiveUnavailableScorecardBehavior (Some v) = ScorecardUnavailableBehaviorDeny"
  shows "\<exists>s. scorecardResult (req_metadata req) = Some s \<and>
    (\<forall>m. scc_min_score v = Some m \<longrightarrow> (\<exists>score. sc_score s = Some score \<and> m \<le> score)) \<and>
    (\<forall>n \<in> set (map fst (scc_checks v)). \<exists>score. map_of (sc_checks s) n = Some score \<and> 0 \<le> score \<and>
       check_threshold (scc_checks v) n \<le> score)"
proof -
  obtain s where s: "scorecardResult (req_metadata req) = Some s"
    using assms by (cases "scorecardResult (req_metadata req)")
      (auto simp: EvaluateScorecard_def Let_def applyUnavailableScorecardBehavior_def)
  have "\<not> fst (scorecard_checks_loop req ScorecardUnavailableBehaviorDeny (scc_checks v) (sc_checks s)
      (sort (map fst (scc_checks v))))"
    using assms s
    by (auto simp: EvaluateScorecard_def Let_def applyUnavailableScorecardBehavior_def
        split: option.splits if_splits)
  moreover have "\<forall>m. scc_min_score v = Some m \<longrightarrow> (\<exists>score. sc_score s = Some score \<and> m \<le> score)"
    using assms s
    by (auto simp: EvaluateScorecard_def Let_def applyUnavailableScorecardBehavior_def
        split: option.splits if_splits)
  ultimately show ?thesis using s by (simp add: scorecard_checks_pass)
qed

definition sample_scorecard :: scorecard_config where
  "sample_scorecard = \<lparr>scc_min_score = Some 5, scc_checks = [(''code-review'', 7)],
     scc_unavailable_behavior = [], scc_dry_run = False\<rparr>"

definition sample_scored :: artifact_metadata where
  "sample_scored = empty_metadata\<lparr>meta_scorecard :=
     Some \<lparr>sc_score = Some 6, sc_checks = [(''code-review'', 8)], sc_unavailable_reason = []\<rparr>\<rparr>"

lemma scorecard_pass_sound_witness:
  "\<exists>s. scorecardResult (req_metadata (sample_request (Some sample_scored))) = Some s \<and>
    (\<exists>score. map_of (sc_checks s) ''code-review'' = Some score \<and> 7 \<le> score)"
proof -
  have "EvaluateScorecard (sample_request (Some sample_scored))
      (Some (ScorecardPolicyConfig (Some sample_scorecard))) = Inr (False, [])"
    "ValidateScorecard (Some sample_scorecard) = Inr (Some sample_scorecard)"
    by code_simp+
  from scorecard_pass_sound [OF this] show ?thesis
    by (auto simp: EffectiveUnavailableScorecardBehavior_def sample_scorecard_def check_threshold_def)
qed

text \<open>The approved-license condition fails closed: for a versioned artifact whose configuration
  does not ask to skip, it lets only artifacts pass whose metadata declares at least one license and
  whose every license is approved (up to case and surrounding white space).\<close>

lemma license_allowlist_pass_sound:
  assumes "EvaluateLicenseAllowlist req config = Inr (False, r)"
    and "\<not> isUnversionedNPMMetadataRequest req"
    and "licenseAllowlistSettings config = Inr (licenses, unlicensed, unavailable)"
    and "unlicensed = LicenseAllowlistMissingBehaviorDeny" "unavailable = LicenseAllowlistMissingBehaviorDeny"
  shows "\<exists>m. req_metadata req = Some m \<and> meta_licenses m \<noteq> [] \<and>
    (\<forall>l \<in> set (meta_licenses m). licenseKey l \<in> licenseKey ` set licenses)"
  using assms license_loops_match(2) [of "approvedLicenses licenses"]
  by (auto simp: EvaluateLicenseAllowlist_def applyMissingLicenseBehavior_def approvedLicenses_def
      split: option.splits if_splits) (metis fst_conv)

lemma license_allowlist_pass_sound_witness:
  "\<exists>m. req_metadata (sample_request (Some (empty_metadata\<lparr>meta_licenses := ['' mit'']\<rparr>))) = Some m \<and>
     meta_licenses m \<noteq> []"
proof -
  let ?c = "Some (LicenseAllowlistPolicyConfig (Some \<lparr>lica_licenses = [''MIT''], lica_dry_run = False\<rparr>))"
  have "EvaluateLicenseAllowlist (sample_request (Some (empty_metadata\<lparr>meta_licenses := ['' mit'']\<rparr>))) ?c =
      Inr (False, [])"
    "\<not> isUnversionedNPMMetadataRequest (sample_request (Some (empty_metadata\<lparr>meta_licenses := ['' mit'']\<rparr>)))"
    "licenseAllowlistSettings ?c = Inr ([''MIT''], ''deny'', ''deny'')"
    by code_simp+
  from license_allowlist_pass_sound [OF this] show ?thesis by auto
qed

end
