(* ===== verification/Policy_Catalog.thy ===== *)
theory Policy_Catalog
  imports Policy_Conditions
begin

text \<open>
  The catalog of policy types and everything derived from it (\<open>internal/core/policy/catalog*.go\<close>,
  \<open>schema.go\<close>, \<open>upstream_support.go\<close>, \<open>validate.go\<close>, \<open>hash.go\<close>). The documentation strings of a
  descriptor (summary, description, help, example) are left out; no code path reads them.

  The lemmas show that building the index does not panic, that every entry is consistent (current
  schema supported, a factory per supported schema that its own type assertion accepts, a condition
  that satisfies \<open>condition_contract\<close>), and what a validated policy set guarantees to the evaluator.
\<close>

section \<open>Definitions of policy types\<close>

record policy_type_descriptor =
  desc_type :: policy_type
  desc_current_schema_version :: int
  desc_supported_schema_versions :: "int list"
  desc_supported_actions :: "policy_action list"
  desc_supported_ecosystems :: "ecosystem_type list"
  desc_required_capabilities :: "upstream_capability list"

type_synonym config_factory = policy_config

record schema_config =
  schema_version :: int
  schema_factory :: config_factory

record policy_definition =
  def_descriptor :: policy_type_descriptor
  def_requires_external_metadata :: bool
  def_new_config_by_schema :: "int \<rightharpoonup> config_factory"
  def_config_matches :: "policy_config \<Rightarrow> bool"
  def_condition_evaluator :: condition

text \<open>The zero values \<open>&T{}\<close> that the factories return.\<close>

fun zero_config :: "config_type \<Rightarrow> policy_config" where
  "zero_config CVSSThresholdPolicyConfig_T = CVSSThresholdPolicyConfig
     (Some \<lparr>cvss_max = None, cvss_minimum_severity = None, cvss_dry_run = False\<rparr>)"
| "zero_config MinimumAgePolicyConfig_T = MinimumAgePolicyConfig
     (Some \<lparr>minage_days = None, minage_exclude = [], minage_dry_run = False\<rparr>)"
| "zero_config MaximumAgePolicyConfig_T = MaximumAgePolicyConfig
     (Some \<lparr>maxage_days = None, maxage_exclude = [], maxage_dry_run = False\<rparr>)"
| "zero_config BlockMutableTagPolicyConfig_T = BlockMutableTagPolicyConfig
     (Some \<lparr>tag_tags = [], tag_dry_run = False\<rparr>)"
| "zero_config ScorecardPolicyConfig_T = ScorecardPolicyConfig
     (Some \<lparr>scc_min_score = None, scc_checks = [], scc_unavailable_behavior = [], scc_dry_run = False\<rparr>)"
| "zero_config LicensePolicyConfig_T = LicensePolicyConfig (Some \<lparr>lic_licenses = [], lic_dry_run = False\<rparr>)"
| "zero_config LicenseAllowlistPolicyConfig_T = LicenseAllowlistPolicyConfig
     (Some \<lparr>lica_licenses = [], lica_dry_run = False\<rparr>)"
| "zero_config LicenseAllowlistPolicyConfigV2_T = LicenseAllowlistPolicyConfigV2
     (Some \<lparr>licv2_licenses = [], licv2_unlicensed_behavior = [], licv2_unavailable_behavior = [],
            licv2_dry_run = False\<rparr>)"
| "zero_config NamespaceListPolicyConfig_T = NamespaceListPolicyConfig
     (Some \<lparr>nsl_namespaces = [], nsl_dry_run = False\<rparr>)"

definition configSchema :: "int \<Rightarrow> config_factory \<Rightarrow> schema_config" where
  "configSchema version factory = \<lparr>schema_version = version, schema_factory = factory\<rparr>"

definition definePolicy ::
  "policy_type_descriptor \<Rightarrow> condition \<Rightarrow> bool \<Rightarrow> (policy_config \<Rightarrow> bool) \<Rightarrow> schema_config list \<Rightarrow>
   policy_definition" where
  "definePolicy descriptor conditionEvaluator requiresExternalMetadata configMatches schemaConfigs =
     \<lparr>def_descriptor = descriptor,
      def_requires_external_metadata = requiresExternalMetadata,
      def_new_config_by_schema =
        fold (\<lambda>s m. m(schema_version s \<mapsto> schema_factory s)) schemaConfigs Map.empty,
      def_config_matches = configMatches,
      def_condition_evaluator = conditionEvaluator\<rparr>"

definition defineDenyPolicyV1 ::
  "policy_type \<Rightarrow> condition \<Rightarrow> ecosystem_type \<Rightarrow> upstream_capability \<Rightarrow> bool \<Rightarrow> config_type \<Rightarrow>
   policy_definition" where
  "defineDenyPolicyV1 policyType conditionEvaluator ecosystem requiredCapability
       requiresExternalMetadata T =
     definePolicy
       \<lparr>desc_type = policyType, desc_current_schema_version = 1, desc_supported_schema_versions = [1],
        desc_supported_actions = [PolicyActionDeny], desc_supported_ecosystems = [ecosystem],
        desc_required_capabilities = [requiredCapability]\<rparr>
       conditionEvaluator requiresExternalMetadata (configTypeMatcher T)
       [configSchema 1 (zero_config T)]"

definition cvssThresholdPolicyDefinition :: policy_definition where
  "cvssThresholdPolicyDefinition =
     defineDenyPolicyV1 PolicyTypeCVSSThreshold CVSSThreshold EcosystemNPM
       UpstreamCapabilityVulnerabilityLookup True CVSSThresholdPolicyConfig_T"

definition minimumAgePolicyDefinition :: policy_definition where
  "minimumAgePolicyDefinition =
     defineDenyPolicyV1 PolicyTypeMinimumAge MinimumAge EcosystemNPM
       UpstreamCapabilityPublishTime True MinimumAgePolicyConfig_T"

definition maximumAgePolicyDefinition :: policy_definition where
  "maximumAgePolicyDefinition =
     defineDenyPolicyV1 PolicyTypeMaximumAge MaximumAge EcosystemNPM
       UpstreamCapabilityPublishTime True MaximumAgePolicyConfig_T"

definition blockMutableTagPolicyDefinition :: policy_definition where
  "blockMutableTagPolicyDefinition =
     defineDenyPolicyV1 PolicyTypeBlockMutableTag BlockMutableTag EcosystemOCI
       UpstreamCapabilityManifestDigestLookup False BlockMutableTagPolicyConfig_T"

definition scorecardPolicyDefinition :: policy_definition where
  "scorecardPolicyDefinition =
     defineDenyPolicyV1 PolicyTypeScorecard Scorecard EcosystemNPM
       UpstreamCapabilityScorecardLookup True ScorecardPolicyConfig_T"

definition licensePolicyDefinition :: policy_definition where
  "licensePolicyDefinition =
     definePolicy
       \<lparr>desc_type = PolicyTypeLicense, desc_current_schema_version = 1,
        desc_supported_schema_versions = [1],
        desc_supported_actions = [PolicyActionAllow, PolicyActionDeny],
        desc_supported_ecosystems = [EcosystemNPM],
        desc_required_capabilities = [UpstreamCapabilityLicenses]\<rparr>
       License True (configTypeMatcher LicensePolicyConfig_T)
       [configSchema 1 (zero_config LicensePolicyConfig_T)]"

definition licenseAllowlistConfigMatches :: "policy_config \<Rightarrow> bool" where
  "licenseAllowlistConfigMatches config =
     (config_type_of config \<in> {LicenseAllowlistPolicyConfig_T, LicenseAllowlistPolicyConfigV2_T})"

definition licenseAllowlistPolicyDefinition :: policy_definition where
  "licenseAllowlistPolicyDefinition =
     definePolicy
       \<lparr>desc_type = PolicyTypeLicenseAllowlist, desc_current_schema_version = 2,
        desc_supported_schema_versions = [1, 2],
        desc_supported_actions = [PolicyActionDeny],
        desc_supported_ecosystems = [EcosystemNPM],
        desc_required_capabilities = [UpstreamCapabilityLicenses]\<rparr>
       LicenseAllowlist True licenseAllowlistConfigMatches
       [configSchema 1 (zero_config LicenseAllowlistPolicyConfig_T),
        configSchema 2 (zero_config LicenseAllowlistPolicyConfigV2_T)]"

definition allowlistPolicyDefinition :: policy_definition where
  "allowlistPolicyDefinition =
     definePolicy
       \<lparr>desc_type = PolicyTypeAllowlist, desc_current_schema_version = 1,
        desc_supported_schema_versions = [1],
        desc_supported_actions = [PolicyActionAllow],
        desc_supported_ecosystems = [EcosystemNPM, EcosystemOCI],
        desc_required_capabilities = []\<rparr>
       Allowlist False (configTypeMatcher NamespaceListPolicyConfig_T)
       [configSchema 1 (zero_config NamespaceListPolicyConfig_T)]"

definition namespaceAllowlistPolicyDefinition :: policy_definition where
  "namespaceAllowlistPolicyDefinition =
     definePolicy
       \<lparr>desc_type = PolicyTypeNamespaceAllowlist, desc_current_schema_version = 1,
        desc_supported_schema_versions = [1],
        desc_supported_actions = [PolicyActionDeny],
        desc_supported_ecosystems = [EcosystemNPM, EcosystemOCI],
        desc_required_capabilities = []\<rparr>
       NamespaceAllowlist False (configTypeMatcher NamespaceListPolicyConfig_T)
       [configSchema 1 (zero_config NamespaceListPolicyConfig_T)]"

definition blocklistPolicyDefinition :: policy_definition where
  "blocklistPolicyDefinition =
     definePolicy
       \<lparr>desc_type = PolicyTypeBlocklist, desc_current_schema_version = 1,
        desc_supported_schema_versions = [1],
        desc_supported_actions = [PolicyActionDeny],
        desc_supported_ecosystems = [EcosystemNPM, EcosystemOCI],
        desc_required_capabilities = []\<rparr>
       Blocklist False (configTypeMatcher NamespaceListPolicyConfig_T)
       [configSchema 1 (zero_config NamespaceListPolicyConfig_T)]"

section \<open>The index\<close>

definition policyDefinitions :: "policy_definition list" where
  "policyDefinitions =
     [cvssThresholdPolicyDefinition, minimumAgePolicyDefinition, maximumAgePolicyDefinition,
      blockMutableTagPolicyDefinition, scorecardPolicyDefinition, licensePolicyDefinition,
      licenseAllowlistPolicyDefinition, allowlistPolicyDefinition,
      namespaceAllowlistPolicyDefinition, blocklistPolicyDefinition]"

text \<open>\<open>indexPolicyDefinitions\<close> panics on a duplicate; the panic is the left value.\<close>

fun index_definitions_loop ::
  "(policy_type \<rightharpoonup> policy_definition) \<Rightarrow> policy_definition list \<Rightarrow>
   string + (policy_type \<rightharpoonup> policy_definition)" where
  "index_definitions_loop indexed [] = Inr indexed"
| "index_definitions_loop indexed (d # ds) =
     (let policyType = desc_type (def_descriptor d)
      in if indexed policyType \<noteq> None
         then Inl (''duplicate policy definition for type '' @ quote policyType)
         else index_definitions_loop (indexed(policyType \<mapsto> d)) ds)"

definition indexPolicyDefinitions ::
  "policy_definition list \<Rightarrow> string + (policy_type \<rightharpoonup> policy_definition)" where
  "indexPolicyDefinitions definitions = index_definitions_loop Map.empty definitions"

text \<open>The package variable; the program does not start when the index panics.\<close>

definition policyDefinitionsByType :: "policy_type \<rightharpoonup> policy_definition" where
  "policyDefinitionsByType =
     (case indexPolicyDefinitions policyDefinitions of Inl _ \<Rightarrow> Map.empty | Inr m \<Rightarrow> m)"

definition policyDefinitionFor :: "policy_type \<Rightarrow> policy_definition option" where
  "policyDefinitionFor policyType = policyDefinitionsByType policyType"

definition parsePolicyType :: "string \<Rightarrow> policy_type option" where
  "parsePolicyType raw = (case policyDefinitionsByType raw of None \<Rightarrow> None | Some _ \<Rightarrow> Some raw)"

definition invalidPolicyf :: "string \<Rightarrow> go_error" where
  "invalidPolicyf t = wrap_sentinel ErrInvalidPolicy t"

definition conditionForType :: "policy_type \<Rightarrow> condition result" where
  "conditionForType policyType =
     (case policyDefinitionFor policyType of
        None \<Rightarrow> Inl (plain_error (''unknown policy type '' @ quote policyType))
      | Some d \<Rightarrow> Inr (def_condition_evaluator d))"

definition unknown_type :: "policy_type \<Rightarrow> go_error" where
  "unknown_type policyType = invalidPolicyf (''unknown policy type '' @ quote policyType)"

definition newConfigForType :: "policy_type \<Rightarrow> int \<Rightarrow> policy_config result" where
  "newConfigForType policyType schemaVersion =
     (case policyDefinitionFor policyType of
        None \<Rightarrow> Inl (unknown_type policyType)
      | Some d \<Rightarrow>
          (case def_new_config_by_schema d schemaVersion of
             None \<Rightarrow> Inl (wrap_sentinel ErrUnsupportedPolicySchemaVersion
               (''schema_version '' @ show_int schemaVersion @ '' is not supported for policy type '' @
                quote policyType))
           | Some config \<Rightarrow> Inr config))"

definition configTypeMatchesPolicy :: "policy_type \<Rightarrow> policy_config \<Rightarrow> bool" where
  "configTypeMatchesPolicy policyType config =
     (case policyDefinitionFor policyType of None \<Rightarrow> False | Some d \<Rightarrow> def_config_matches d config)"

definition RequiresExternalMetadata :: "policy_type \<Rightarrow> bool" where
  "RequiresExternalMetadata policyType =
     (case policyDefinitionFor policyType of None \<Rightarrow> False | Some d \<Rightarrow> def_requires_external_metadata d)"

definition TypeCatalog :: "policy_type_descriptor list" where
  "TypeCatalog = map def_descriptor policyDefinitions"

section \<open>Schema versions\<close>

definition typeDescriptorFor :: "policy_type \<Rightarrow> policy_type_descriptor option" where
  "typeDescriptorFor policyType = map_option def_descriptor (policyDefinitionFor policyType)"

definition currentSchemaVersionForType :: "policy_type \<Rightarrow> int result" where
  "currentSchemaVersionForType policyType =
     (case typeDescriptorFor policyType of
        None \<Rightarrow> Inl (unknown_type policyType)
      | Some d \<Rightarrow> Inr (desc_current_schema_version d))"

definition normalizeSchemaVersion :: "policy_type \<Rightarrow> int \<Rightarrow> int result" where
  "normalizeSchemaVersion policyType version =
     (if version \<noteq> 0 then Inr version else currentSchemaVersionForType policyType)"

definition validateSchemaVersion :: "policy_type \<Rightarrow> int \<Rightarrow> unit result" where
  "validateSchemaVersion policyType version =
     (case typeDescriptorFor policyType of
        None \<Rightarrow> Inl (unknown_type policyType)
      | Some d \<Rightarrow>
          (if version \<in> set (desc_supported_schema_versions d) then Inr ()
           else Inl (wrap_sentinel ErrUnsupportedPolicySchemaVersion
             (''schema_version '' @ show_int version @ '' is not supported for policy type '' @
              quote policyType @ ''; supported versions: ['' @
              join '' '' (map show_int (desc_supported_schema_versions d)) @ '']''))))"

definition SupportedSchemaVersions :: "policy_type \<Rightarrow> int list result" where
  "SupportedSchemaVersions policyType =
     (case typeDescriptorFor policyType of
        None \<Rightarrow> Inl (unknown_type policyType)
      | Some d \<Rightarrow> Inr (desc_supported_schema_versions d))"

section \<open>Upstream support\<close>

definition formatEcosystems :: "ecosystem_type list \<Rightarrow> string" where
  "formatEcosystems ecosystems = join '', '' ecosystems"

definition ValidateUpstreamCompatibility :: "policy_type \<Rightarrow> upstream \<Rightarrow> unit result" where
  "ValidateUpstreamCompatibility policyType up =
     (case typeDescriptorFor policyType of
        None \<Rightarrow> Inl (unknown_type policyType)
      | Some d \<Rightarrow>
          (if up_ecosystem up \<notin> set (desc_supported_ecosystems d) then
             Inl (wrap_sentinel ErrPolicyUpstreamIncompatible
               (''policy type '' @ quote policyType @ '' only supports '' @
                formatEcosystems (desc_supported_ecosystems d) @ '' upstreams''))
           else
             (let missing = filter (\<lambda>capability. \<not> UpstreamSupports up capability)
                    (desc_required_capabilities d)
              in if missing \<noteq> [] then
                   Inl (wrap_sentinel ErrPolicyUpstreamIncompatible
                     (''policy type '' @ quote policyType @ '' requires upstream capabilities '' @
                      join '', '' missing))
                 else Inr ())))"

definition SupportedPolicyTypesForUpstream :: "upstream \<Rightarrow> policy_type list" where
  "SupportedPolicyTypesForUpstream up =
     filter (\<lambda>policyType. ValidateUpstreamCompatibility policyType up = Inr ())
       (map (\<lambda>d. desc_type (def_descriptor d)) policyDefinitions)"

section \<open>Validation\<close>

definition validActions :: "string list" where
  "validActions = [PolicyActionAllow, PolicyActionDeny]"

text \<open>\<open>ValidatePolicy\<close> gets the policy by value, but its configuration and target are pointers: the
  result is the policy with what the two \<open>Validate\<close> methods leave behind them.\<close>

definition ValidatePolicy :: "policy \<Rightarrow> policy result" where
  "ValidatePolicy p =
     (if trim_space (pol_tenant_id p) = [] then Inl (invalidPolicyf ''tenant_id is required'')
      else if trim_space (pol_name p) = [] then Inl (invalidPolicyf ''name is required'')
      else (case policyDefinitionFor (pol_type p) of
          None \<Rightarrow> Inl (unknown_type (pol_type p))
        | Some d \<Rightarrow>
            (let actions = desc_supported_actions (def_descriptor d)
             in if pol_action p \<notin> set validActions then
                  Inl (invalidPolicyf (''invalid action '' @ quote (pol_action p) @ '', must be '' @
                    quote PolicyActionAllow @ '' or '' @ quote PolicyActionDeny))
                else if pol_action p \<notin> set actions then
                  (case actions of
                     [a] \<Rightarrow> Inl (invalidPolicyf (''policy type '' @ quote (pol_type p) @
                       '' requires action '' @ quote a))
                   | _ \<Rightarrow> Inl (invalidPolicyf (''policy type '' @ quote (pol_type p) @
                       '' does not support action '' @ quote (pol_action p))))
                else (case normalizeSchemaVersion (pol_type p) (pol_schema_version p) of
                    Inl e \<Rightarrow> Inl e
                  | Inr schemaVersion \<Rightarrow>
                      (case validateSchemaVersion (pol_type p) schemaVersion of
                         Inl e \<Rightarrow> Inl e
                       | Inr _ \<Rightarrow>
                           (case pol_config p of
                              None \<Rightarrow> Inl (invalidPolicyf ''config is required'')
                            | Some config \<Rightarrow>
                                (if \<not> configTypeMatchesPolicy (pol_type p) config then
                                   Inl (invalidPolicyf (''config type '' @ type_name (Some config) @
                                     '' does not match policy type '' @ quote (pol_type p)))
                                 else (case ValidateConfig config of
                                     Inl e \<Rightarrow> Inl (invalidPolicyf (err_text e))
                                   | Inr config' \<Rightarrow>
                                       (case ValidateTarget (pol_target p) of
                                          Inl e \<Rightarrow> Inl (invalidPolicyf (err_text e))
                                        | Inr target' \<Rightarrow>
                                            Inr (p\<lparr>pol_config := Some config', pol_target := target'\<rparr>))))))))))"

fun validate_policies_loop ::
  "nat \<Rightarrow> (string \<rightharpoonup> nat) \<Rightarrow> policy list \<Rightarrow> policy list result" where
  "validate_policies_loop i seenNames [] = Inr []"
| "validate_policies_loop i seenNames (p # ps) =
     (case ValidatePolicy p of
        Inl e \<Rightarrow> Inl (wrap_sentinel ErrInvalidPolicy
          (''policy '' @ show_nat i @ '' ('' @ quote (pol_name p) @ ''): '' @ err_text e))
      | Inr p' \<Rightarrow>
          (case seenNames (pol_name p) of
             Some firstIndex \<Rightarrow> Inl (wrap_sentinel ErrInvalidPolicy
               (''policy '' @ show_nat i @ '' ('' @ quote (pol_name p) @ ''): duplicate policy name '' @
                quote (pol_name p) @ '' already used by policy '' @ show_nat firstIndex))
           | None \<Rightarrow>
               (case validate_policies_loop (Suc i) (seenNames(pol_name p \<mapsto> i)) ps of
                  Inl e \<Rightarrow> Inl e
                | Inr ps' \<Rightarrow> Inr (p' # ps'))))"

definition ValidatePolicies :: "policy list \<Rightarrow> policy list result" where
  "ValidatePolicies policies = validate_policies_loop 0 Map.empty policies"

section \<open>The policy-set hash\<close>

record hashable_policy =
  hash_upstream_id :: string
  hash_name :: string
  hash_type :: policy_type
  hash_action :: policy_action
  hash_schema_version :: int
  hash_priority :: int
  hash_enabled :: bool
  hash_config :: "policy_config option"
  hash_target :: "policy_target option"

definition mustNormalizePolicySchemaVersion :: "policy_type \<Rightarrow> int \<Rightarrow> int" where
  "mustNormalizePolicySchemaVersion policyType version =
     (case normalizeSchemaVersion policyType version of Inl _ \<Rightarrow> version | Inr v \<Rightarrow> v)"

definition hashable :: "policy \<Rightarrow> hashable_policy" where
  "hashable p =
     \<lparr>hash_upstream_id = pol_upstream_id p, hash_name = pol_name p, hash_type = pol_type p,
      hash_action = pol_action p,
      hash_schema_version = mustNormalizePolicySchemaVersion (pol_type p) (pol_schema_version p),
      hash_priority = pol_priority p, hash_enabled = pol_enabled p,
      hash_config = pol_config p, hash_target = pol_target p\<rparr>"

definition hash_key :: "hashable_policy \<Rightarrow> int \<times> string \<times> string \<times> string \<times> string" where
  "hash_key h = (hash_priority h, hash_name h, hash_upstream_id h, hash_type h, hash_action h)"

text \<open>The parameters are the JSON encoder, which may fail, and the hex digest.\<close>

definition HashPolicies ::
  "(hashable_policy list \<Rightarrow> string result) \<Rightarrow> (string \<Rightarrow> string) \<Rightarrow> policy list \<Rightarrow> string result" where
  "HashPolicies json_marshal sha256_hex policies =
     (case json_marshal (sort_key hash_key (map hashable policies)) of
        Inl e \<Rightarrow> Inl (wrap_error ''marshalling canonical policy set'' e)
      | Inr payload \<Rightarrow> Inr (sha256_hex payload))"

section \<open>The index is total and consistent\<close>

lemmas definition_defs = cvssThresholdPolicyDefinition_def minimumAgePolicyDefinition_def
  maximumAgePolicyDefinition_def blockMutableTagPolicyDefinition_def scorecardPolicyDefinition_def
  licensePolicyDefinition_def licenseAllowlistPolicyDefinition_def allowlistPolicyDefinition_def
  namespaceAllowlistPolicyDefinition_def blocklistPolicyDefinition_def
  defineDenyPolicyV1_def definePolicy_def configSchema_def

definition definition_type :: "policy_definition \<Rightarrow> policy_type" where
  "definition_type d = desc_type (def_descriptor d)"

lemma index_loop_Inr:
  assumes "distinct (map definition_type ds)" "\<forall>d \<in> set ds. m (definition_type d) = None"
  shows "index_definitions_loop m ds = Inr (m ++ map_of (map (\<lambda>d. (definition_type d, d)) ds))"
  using assms
proof (induction ds arbitrary: m)
  case (Cons d ds)
  have "\<forall>e \<in> set ds. (m(definition_type d \<mapsto> d)) (definition_type e) = None"
    using Cons.prems by (auto simp: image_iff)
  then have "index_definitions_loop (m(definition_type d \<mapsto> d)) ds =
      Inr (m(definition_type d \<mapsto> d) ++ map_of (map (\<lambda>d. (definition_type d, d)) ds))"
    using Cons by simp
  moreover have "definition_type d \<notin> dom (map_of (map (\<lambda>d. (definition_type d, d)) ds))"
    using Cons.prems(1) by (auto simp: dom_map_of_conv_image_fst image_iff)
  ultimately show ?case
    using Cons.prems(2)
    by (simp add: definition_type_def [symmetric] map_add_upd_left Let_def fun_upd_def [symmetric])
qed simp

lemma distinct_definition_types: "distinct (map definition_type policyDefinitions)"
  by (simp add: policyDefinitions_def definition_type_def definition_defs)

lemma index_no_panic:
  "indexPolicyDefinitions policyDefinitions =
   Inr (map_of (map (\<lambda>d. (definition_type d, d)) policyDefinitions))"
  unfolding indexPolicyDefinitions_def
  by (subst index_loop_Inr) (simp_all add: distinct_definition_types)

lemma definition_for_iff:
  "policyDefinitionFor t = Some d \<longleftrightarrow> d \<in> set policyDefinitions \<and> definition_type d = t"
proof -
  have "distinct (map fst (map (\<lambda>d. (definition_type d, d)) policyDefinitions))"
    using distinct_definition_types by (simp add: comp_def)
  then show ?thesis
    by (auto simp: policyDefinitionFor_def policyDefinitionsByType_def index_no_panic
        map_of_eq_Some_iff)
qed

text \<open>Every definition of the catalog is consistent; the proof visits the ten entries.\<close>

definition definition_consistent :: "policy_definition \<Rightarrow> bool" where
  "definition_consistent d \<longleftrightarrow>
     desc_current_schema_version (def_descriptor d) \<in> set (desc_supported_schema_versions (def_descriptor d)) \<and>
     0 \<notin> set (desc_supported_schema_versions (def_descriptor d)) \<and>
     dom (def_new_config_by_schema d) = set (desc_supported_schema_versions (def_descriptor d)) \<and>
     (\<forall>c \<in> ran (def_new_config_by_schema d). def_config_matches d c) \<and>
     desc_supported_actions (def_descriptor d) \<noteq> [] \<and>
     set (desc_supported_actions (def_descriptor d)) \<subseteq> set validActions \<and>
     (\<forall>e \<in> set (desc_supported_ecosystems (def_descriptor d)).
        set (desc_required_capabilities (def_descriptor d)) \<subseteq> set (allowedUpstreamCapabilities e)) \<and>
     def_config_matches d = condition_config (def_condition_evaluator d)"

lemma definitions_consistent: "d \<in> set policyDefinitions \<Longrightarrow> definition_consistent d"
  unfolding policyDefinitions_def
  by (auto simp: definition_consistent_def definition_defs configTypeMatcher_def fun_eq_iff
      licenseAllowlistConfigMatches_def validActions_def allowedUpstreamCapabilities_def
      ran_def split: if_splits)

lemma catalog_condition_contract:
  "policyDefinitionFor t = Some d \<Longrightarrow>
   condition_contract (EvaluateCondition (def_condition_evaluator d) now) (def_config_matches d)"
  using definitions_consistent [of d] cond.condition_contract_axioms
  by (simp add: definition_for_iff definition_consistent_def)

section \<open>What a validated policy guarantees\<close>

lemma validate_policy_Inr:
  assumes "ValidatePolicy p = Inr q"
  obtains d c c' t' where
    "policyDefinitionFor (pol_type p) = Some d" "pol_config p = Some c" "def_config_matches d c"
    "ValidateConfig c = Inr c'" "ValidateTarget (pol_target p) = Inr t'"
    "pol_action p \<in> set (desc_supported_actions (def_descriptor d))"
    "q = p\<lparr>pol_config := Some c', pol_target := t'\<rparr>"
    "mustNormalizePolicySchemaVersion (pol_type p) (pol_schema_version p) \<in>
       set (desc_supported_schema_versions (def_descriptor d))"
    "trim_space (pol_tenant_id p) \<noteq> []" "trim_space (pol_name p) \<noteq> []"
    "pol_action p = PolicyActionAllow \<or> pol_action p = PolicyActionDeny"
  using assms
  by (auto simp: ValidatePolicy_def Let_def configTypeMatchesPolicy_def validActions_def
      validateSchemaVersion_def typeDescriptorFor_def mustNormalizePolicySchemaVersion_def
      split: if_splits option.splits sum.splits list.splits)

lemma validate_policy_idem:
  assumes "ValidatePolicy p = Inr q" shows "ValidatePolicy q = Inr q"
proof -
  from assms obtain d c c' t' where o:
    "policyDefinitionFor (pol_type p) = Some d" "pol_config p = Some c" "def_config_matches d c"
    "ValidateConfig c = Inr c'" "ValidateTarget (pol_target p) = Inr t'"
    "q = p\<lparr>pol_config := Some c', pol_target := t'\<rparr>"
    by (rule validate_policy_Inr)
  from o(1) have "def_config_matches d = condition_config (def_condition_evaluator d)"
    using definitions_consistent by (simp add: definition_for_iff definition_consistent_def)
  with o(3,4) have "def_config_matches d c'" by (simp add: validate_config_condition)
  moreover have "ValidateConfig c' = Inr c'" using o(4) by (rule config_form.idem)
  moreover have "ValidateTarget t' = Inr t'" using o(5) by (rule target_form.idem)
  ultimately show ?thesis
    using assms o
    by (auto simp: ValidatePolicy_def Let_def configTypeMatchesPolicy_def
        split: if_splits option.splits sum.splits list.splits)
qed

interpretation policy_form: validated_form ValidatePolicy
  by unfold_locales (rule validate_policy_idem)

lemma validate_policy_keeps:
  assumes "ValidatePolicy p = Inr q"
  shows "pol_name q = pol_name p" "pol_type q = pol_type p" "pol_action q = pol_action p"
    "pol_priority q = pol_priority p" "pol_enabled q = pol_enabled p" "pol_id q = pol_id p"
    "pol_upstream_id q = pol_upstream_id p" "pol_tenant_id q = pol_tenant_id p"
    "pol_schema_version q = pol_schema_version p"
  using assms by (auto elim!: validate_policy_Inr)

text \<open>The condition of a validated policy never fails, whether it is handed the configuration before
  or after validation.\<close>

lemma validated_condition_total:
  assumes "ValidatePolicy p = Inr q"
  obtains k m r where "conditionForType (pol_type p) = Inr k"
    "EvaluateCondition k now req (pol_config q) = Inr (m, r)"
    "EvaluateCondition k now req (pol_config p) = Inr (m, r)"
proof -
  from assms obtain d c c' t' where o:
    "policyDefinitionFor (pol_type p) = Some d" "pol_config p = Some c" "def_config_matches d c"
    "ValidateConfig c = Inr c'" "q = p\<lparr>pol_config := Some c', pol_target := t'\<rparr>"
    by (rule validate_policy_Inr)
  from o(1) have k: "conditionForType (pol_type p) = Inr (def_condition_evaluator d)"
    by (simp add: conditionForType_def)
  from o(1) have m: "def_config_matches d = condition_config (def_condition_evaluator d)"
    using definitions_consistent by (simp add: definition_for_iff definition_consistent_def)
  obtain m r where "EvaluateCondition (def_condition_evaluator d) now req (Some c') = Inr (m, r)"
    "EvaluateCondition (def_condition_evaluator d) now req (Some c) = Inr (m, r)"
    by (rule cond.validated_total [OF _ o(4)]) (use o(3) m in simp_all)
  with k o show ?thesis by (intro that) auto
qed

lemma validate_loop_Inr:
  "validate_policies_loop i seen ps = Inr qs \<longleftrightarrow>
   list_all2 (\<lambda>p q. ValidatePolicy p = Inr q) ps qs \<and> distinct (map pol_name ps) \<and>
   (\<forall>p \<in> set ps. seen (pol_name p) = None)"
proof (induction ps arbitrary: i seen qs)
  case (Cons p ps)
  let ?step = "validate_policies_loop (Suc i) (seen(pol_name p \<mapsto> i)) ps"
  have "validate_policies_loop i seen (p # ps) = Inr qs \<longleftrightarrow>
      (\<exists>q qs'. ValidatePolicy p = Inr q \<and> seen (pol_name p) = None \<and> ?step = Inr qs' \<and> qs = q # qs')"
    by (auto split: sum.splits option.splits)
  also have "\<dots> \<longleftrightarrow> list_all2 (\<lambda>p q. ValidatePolicy p = Inr q) (p # ps) qs \<and>
      distinct (map pol_name (p # ps)) \<and> (\<forall>r \<in> set (p # ps). seen (pol_name r) = None)"
    by (auto simp: Cons.IH list_all2_Cons1 image_iff) metis
  finally show ?case .
qed auto

lemma validate_policies_Inr:
  "ValidatePolicies ps = Inr qs \<longleftrightarrow>
   list_all2 (\<lambda>p q. ValidatePolicy p = Inr q) ps qs \<and> distinct (map pol_name ps)"
  by (simp add: ValidatePolicies_def validate_loop_Inr)

lemma validate_policies_names:
  assumes "ValidatePolicies ps = Inr qs" shows "map pol_name qs = map pol_name ps"
proof -
  from assms have "list_all2 (\<lambda>p q. ValidatePolicy p = Inr q) ps qs"
    by (simp add: validate_policies_Inr)
  then have "list_all2 (\<lambda>p q. pol_name p = pol_name q) ps qs"
    by (rule list_all2_mono) (simp add: validate_policy_keeps)
  then show ?thesis by (simp add: list.rel_eq [symmetric] list.rel_map list_all2_conv_all_nth)
qed

lemma validate_policies_idem:
  assumes "ValidatePolicies ps = Inr qs" shows "ValidatePolicies qs = Inr qs"
proof -
  from assms have l: "list_all2 (\<lambda>p q. ValidatePolicy p = Inr q) ps qs" and d: "distinct (map pol_name ps)"
    by (simp_all add: validate_policies_Inr)
  from l have "list_all2 (\<lambda>p q. ValidatePolicy p = Inr q) qs qs"
    by (auto simp: list_all2_conv_all_nth intro: validate_policy_idem)
  with d validate_policies_names [OF assms] show ?thesis by (simp add: validate_policies_Inr)
qed

interpretation policy_set_form: validated_form ValidatePolicies
  by unfold_locales (rule validate_policies_idem)

section \<open>Upstream support\<close>

lemma upstream_compatibility_iff:
  "ValidateUpstreamCompatibility t u = Inr () \<longleftrightarrow>
   (\<exists>d. policyDefinitionFor t = Some d \<and> up_ecosystem u \<in> set (desc_supported_ecosystems (def_descriptor d)) \<and>
     set (desc_required_capabilities (def_descriptor d)) \<subseteq> set (slice_elems (EffectiveCapabilities u)))"
  by (auto simp: ValidateUpstreamCompatibility_def typeDescriptorFor_def Let_def UpstreamSupports_def
      filter_empty_conv split: option.splits if_splits)

lemma compatibility_monotone:
  assumes "ValidateUpstreamCompatibility t u = Inr ()" "up_ecosystem v = up_ecosystem u"
    and "set (slice_elems (EffectiveCapabilities u)) \<subseteq> set (slice_elems (EffectiveCapabilities v))"
  shows "ValidateUpstreamCompatibility t v = Inr ()"
  using assms unfolding upstream_compatibility_iff by auto

text \<open>An upstream with the default profile of its ecosystem supports every policy type that supports
  the ecosystem.\<close>

lemma default_profile_supports:
  assumes "policyDefinitionFor t = Some d" "up_capabilities u = None"
    and "up_ecosystem u \<in> set (desc_supported_ecosystems (def_descriptor d))"
  shows "ValidateUpstreamCompatibility t u = Inr ()"
proof -
  have "definition_consistent d" using assms(1) definitions_consistent by (simp add: definition_for_iff)
  with assms show ?thesis
    by (auto simp: upstream_compatibility_iff definition_consistent_def EffectiveCapabilities_def
        EffectiveUpstreamCapabilities_def)
qed

section \<open>The policy-set hash\<close>

lemma hash_order_independent:
  assumes "mset ps = mset qs" "distinct (map pol_name ps)"
  shows "HashPolicies marshal sha ps = HashPolicies marshal sha qs"
proof -
  have "sort_key hash_key (map hashable ps) = sort_key hash_key (map hashable qs)"
  proof (rule sort_key_mset_unique)
    show "mset (map hashable ps) = mset (map hashable qs)" using assms(1) by simp
    have "inj_on hash_name (set (map hashable ps))" "distinct (map hashable ps)"
      using assms(2) by (auto simp: distinct_map inj_on_def hashable_def)
    then show "inj_on hash_key (set (map hashable ps))"
      by (auto simp: inj_on_def hash_key_def)
  qed
  then show ?thesis by (simp add: HashPolicies_def)
qed

section \<open>Properties\<close>

definition sample_policy :: "string \<Rightarrow> int \<Rightarrow> policy_type \<Rightarrow> policy_config \<Rightarrow> policy" where
  "sample_policy name priority t c = \<lparr>pol_id = ''id-'' @ name, pol_tenant_id = ''t1'', pol_upstream_id = [],
     pol_name = name, pol_type = t, pol_action = PolicyActionDeny, pol_schema_version = 1,
     pol_config = Some c, pol_target = None, pol_priority = priority, pol_enabled = True,
     pol_version = 1, pol_created_at = 0, pol_updated_at = 0\<rparr>"

definition blocklist_config :: "string list \<Rightarrow> bool \<Rightarrow> policy_config" where
  "blocklist_config ns dry = NamespaceListPolicyConfig (Some \<lparr>nsl_namespaces = ns, nsl_dry_run = dry\<rparr>)"

text \<open>The catalog of policy types is sound: building its index does not panic, and every entry is
  found under its own type, lists its current schema version among the supported ones, has a factory
  for exactly the supported versions whose fresh configuration passes the entry's own type check,
  supports only known actions, and requires only capabilities its ecosystems can offer.\<close>

lemma catalog_sound:
  "indexPolicyDefinitions policyDefinitions = Inr policyDefinitionsByType \<and>
   list_all (\<lambda>d. definition_consistent d \<and> policyDefinitionFor (definition_type d) = Some d) policyDefinitions"
proof -
  have "indexPolicyDefinitions policyDefinitions = Inr policyDefinitionsByType"
    by (simp add: policyDefinitionsByType_def index_no_panic)
  then show ?thesis by (simp add: list_all_iff definition_for_iff definitions_consistent)
qed

text \<open>The hash of a policy set does not depend on the order in which the repository returns the
  policies: for a set whose names are distinct (which validation enforces) every permutation hashes
  to the same value, for any JSON encoder and any digest.\<close>

lemma policy_hash_order_independent:
  assumes "mset ps = mset qs" "distinct (map pol_name ps)"
  shows "HashPolicies json_marshal sha256_hex ps = HashPolicies json_marshal sha256_hex qs"
  using assms by (rule hash_order_independent)

lemma policy_hash_order_independent_witness:
  "HashPolicies (\<lambda>hs. Inr (concat (map hash_name hs))) (\<lambda>s. s)
     [sample_policy ''a'' 1 PolicyTypeBlocklist (blocklist_config [''x''] False),
      sample_policy ''b'' 0 PolicyTypeBlocklist (blocklist_config [''y''] False)] =
   HashPolicies (\<lambda>hs. Inr (concat (map hash_name hs))) (\<lambda>s. s)
     [sample_policy ''b'' 0 PolicyTypeBlocklist (blocklist_config [''y''] False),
      sample_policy ''a'' 1 PolicyTypeBlocklist (blocklist_config [''x''] False)]"
  by (rule policy_hash_order_independent) (simp_all add: sample_policy_def add_mset_commute)

text \<open>A policy set that validates hands the evaluator only conditions that cannot fail: for every
  policy of the set the condition of its type exists and returns a verdict on its configuration, the
  same before and after validation rewrote it, and the names are distinct.\<close>

lemma validated_set_evaluates:
  assumes "ValidatePolicies ps = Inr qs" "i < length ps"
  shows "length qs = length ps \<and> distinct (map pol_name qs) \<and>
    (\<exists>k m r. conditionForType (pol_type (ps ! i)) = Inr k \<and>
       EvaluateCondition k now req (pol_config (ps ! i)) = Inr (m, r) \<and>
       EvaluateCondition k now req (pol_config (qs ! i)) = Inr (m, r))"
proof -
  from assms(1) have l: "list_all2 (\<lambda>p q. ValidatePolicy p = Inr q) ps qs" and d: "distinct (map pol_name ps)"
    by (simp_all add: validate_policies_Inr)
  with assms(2) have "ValidatePolicy (ps ! i) = Inr (qs ! i)" by (simp add: list_all2_conv_all_nth)
  then obtain k m r where "conditionForType (pol_type (ps ! i)) = Inr k"
    "EvaluateCondition k now req (pol_config (qs ! i)) = Inr (m, r)"
    "EvaluateCondition k now req (pol_config (ps ! i)) = Inr (m, r)"
    by (rule validated_condition_total)
  with l d validate_policies_names [OF assms(1)] show ?thesis by (auto dest: list_all2_lengthD)
qed

lemma sample_policy_validates:
  "ValidatePolicies [sample_policy ''a'' 1 PolicyTypeBlocklist (blocklist_config [''evil''] False)] =
   Inr [sample_policy ''a'' 1 PolicyTypeBlocklist (blocklist_config [''evil''] False)]"
  by code_simp

lemma validated_set_evaluates_witness:
  "\<exists>k m r. conditionForType PolicyTypeBlocklist = Inr k \<and>
     EvaluateCondition k 0 (sample_request None) (Some (blocklist_config [''evil''] False)) = Inr (m, r)"
  using validated_set_evaluates [OF sample_policy_validates, of 0 0 "sample_request None"]
  by (auto simp: sample_policy_def)

end
