(* ===== verification/Policy_Evaluator.thy ===== *)
theory Policy_Evaluator
  imports Policy_Catalog
begin

text \<open>
  The policy evaluator (\<open>internal/core/policy/evaluator.go\<close>). The evaluation state is threaded
  through the policies in the order of the code; the clock is read once per evaluation, and the hex
  digest is the parameter that normalizing a dependency context needs.

  The verdict of a single policy is the abstract specification: the lemmas show that the state the
  loop reaches is the fold of the verdicts, so the decision is deny-wins over them, takes its reason
  from the first enforced verdict in priority order, and does not depend on the order of the input.
\<close>

section \<open>Targets\<close>

datatype target_mode = targetApply | targetWarn | targetSkip

definition scopeMatches :: "dependency_scope list \<Rightarrow> dependency_scope \<Rightarrow> bool" where
  "scopeMatches allowed actual \<longleftrightarrow> (\<exists>v \<in> set allowed. v = actual)"

definition dependencyTypesMatch :: "dependency_type list \<Rightarrow> dependency_type list \<Rightarrow> bool" where
  "dependencyTypesMatch allowed actual \<longleftrightarrow>
     (\<exists>allowedType \<in> set allowed. \<exists>actualType \<in> set actual. allowedType = actualType)"

definition targetEvaluationMode ::
  "(string \<Rightarrow> string) \<Rightarrow> access_request \<Rightarrow> policy_target option \<Rightarrow> target_mode" where
  "targetEvaluationMode sha256_hex req target =
     (case target of
        None \<Rightarrow> targetApply
      | Some t \<Rightarrow>
          (let ctx = (case req_dependency_context req of
                        None \<Rightarrow> NewUnknownDependencyContext sha256_hex
                      | Some c \<Rightarrow> NormalizeContext sha256_hex c)
           in if dep_scope ctx = DependencyScopeUnknown then
                (if target_on_unknown t = DependencyUnknownDeny then targetApply
                 else if target_on_unknown t = DependencyUnknownSkip then targetSkip
                 else targetWarn)
              else if target_scopes t \<noteq> [] \<and> \<not> scopeMatches (target_scopes t) (dep_scope ctx)
              then targetSkip
              else if target_types t \<noteq> [] \<and> \<not> dependencyTypesMatch (target_types t) (dep_types ctx)
              then targetSkip
              else targetApply))"

section \<open>Evaluation\<close>

record evaluation_state =
  st_reasons :: "evaluation_reason list"
  st_warnings :: "string list"
  st_first_deny_reason :: string
  st_has_deny :: bool

definition isWarnMode :: "policy_config option \<Rightarrow> bool" where
  "isWarnMode config = (case config of None \<Rightarrow> False | Some c \<Rightarrow> DryRunEnabled c)"

definition filterEnabled :: "policy list \<Rightarrow> policy list" where
  "filterEnabled policies = filter pol_enabled policies"

definition addDeny :: "evaluation_reason \<Rightarrow> evaluation_state \<Rightarrow> evaluation_state" where
  "addDeny reason s =
     (let s1 = s\<lparr>st_reasons := st_reasons s @ [reason]\<rparr>
      in if st_has_deny s1 then s1
         else s1\<lparr>st_has_deny := True, st_first_deny_reason := reason_message reason\<rparr>)"

definition evaluatePolicy ::
  "(string \<Rightarrow> string) \<Rightarrow> time \<Rightarrow> access_request \<Rightarrow> policy \<Rightarrow> evaluation_state \<Rightarrow> evaluation_state" where
  "evaluatePolicy sha256_hex now req p s =
     (let mode = targetEvaluationMode sha256_hex req (pol_target p)
      in if mode = targetSkip then s
         else (case conditionForType (pol_type p) of
             Inl err \<Rightarrow>
               addDeny
                 \<lparr>reason_policy_id = pol_id p, reason_policy_name = pol_name p,
                  reason_category = ReasonCategoryEvaluationError, reason_action = PolicyActionDeny,
                  reason_message = ''unknown policy type '' @ quote (pol_type p) @ '': '' @ err_text err\<rparr> s
           | Inr cond \<Rightarrow>
               (case EvaluateCondition cond now req (pol_config p) of
                  Inl err \<Rightarrow>
                    addDeny
                      \<lparr>reason_policy_id = pol_id p, reason_policy_name = pol_name p,
                       reason_category = ReasonCategoryEvaluationError, reason_action = PolicyActionDeny,
                       reason_message = ''condition evaluation error for policy '' @ quote (pol_name p) @
                         '': '' @ err_text err\<rparr> s
                | Inr (matched, reason) \<Rightarrow>
                    (if \<not> matched then s
                     else if isWarnMode (pol_config p) \<or> mode = targetWarn then
                       s\<lparr>st_reasons := st_reasons s @
                           [\<lparr>reason_policy_id = pol_id p, reason_policy_name = pol_name p,
                             reason_category = ReasonPolicyWarning, reason_action = pol_action p,
                             reason_message = reason\<rparr>],
                         st_warnings := st_warnings s @ [''['' @ pol_name p @ ''] '' @ reason]\<rparr>
                     else
                       (let s1 = s\<lparr>st_reasons := st_reasons s @
                                   [\<lparr>reason_policy_id = pol_id p, reason_policy_name = pol_name p,
                                     reason_category = ReasonPolicyMatch, reason_action = pol_action p,
                                     reason_message = reason\<rparr>]\<rparr>
                        in if pol_action p = PolicyActionDeny \<and> \<not> st_has_deny s1
                           then s1\<lparr>st_has_deny := True, st_first_deny_reason := reason\<rparr>
                           else s1)))))"

fun firstDenyPolicyID :: "evaluation_reason list \<Rightarrow> string" where
  "firstDenyPolicyID [] = []"
| "firstDenyPolicyID (reason # rest) =
     (if reason_action reason = PolicyActionDeny then reason_policy_id reason
      else firstDenyPolicyID rest)"

definition state_decision :: "time \<Rightarrow> access_request \<Rightarrow> evaluation_state \<Rightarrow> decision" where
  "state_decision now req s =
     (let (outcome, userReason, policyID) =
            (if st_has_deny s then
               (DecisionDeny, st_first_deny_reason s, firstDenyPolicyID (st_reasons s))
             else (case st_reasons s of
                 r # _ \<Rightarrow> (DecisionAllow, reason_message r, reason_policy_id r)
               | [] \<Rightarrow> (DecisionAllow, ''no matching policy'', [])));
          reasons =
            (if st_reasons s = [] then
               [\<lparr>reason_policy_id = [], reason_policy_name = [], reason_category = ReasonNoMatchingPolicy,
                 reason_action = [], reason_message = ''no matching policy''\<rparr>]
             else st_reasons s)
      in \<lparr>dec_id = [], dec_tenant_id = req_tenant_id req, dec_artifact = req_artifact req,
          dec_outcome = outcome, dec_policy_id = policyID, dec_policy_hash = [],
          dec_dependency_context = None, dec_reason = userReason, dec_reasons = reasons,
          dec_warnings = st_warnings s, dec_cached_at = None, dec_evaluated_at = now\<rparr>)"

definition evaluation_order :: "policy \<Rightarrow> int \<times> string" where
  "evaluation_order p = (pol_priority p, pol_name p)"

definition initial_state :: evaluation_state where
  "initial_state = \<lparr>st_reasons = [], st_warnings = [], st_first_deny_reason = [], st_has_deny = False\<rparr>"

definition Evaluate ::
  "(string \<Rightarrow> string) \<Rightarrow> time \<Rightarrow> access_request \<Rightarrow> policy list \<Rightarrow> decision" where
  "Evaluate sha256_hex now req policies =
     (let enabled = sort_key evaluation_order (filterEnabled policies)
      in state_decision now req (fold (evaluatePolicy sha256_hex now req) enabled initial_state))"

section \<open>The verdict of one policy\<close>

datatype verdict =
    NoEffect
  | Warned evaluation_reason
  | Allowed evaluation_reason
  | Denied evaluation_reason

fun verdict_reasons :: "verdict \<Rightarrow> evaluation_reason list" where
  "verdict_reasons NoEffect = []"
| "verdict_reasons (Warned r) = [r]"
| "verdict_reasons (Allowed r) = [r]"
| "verdict_reasons (Denied r) = [r]"

fun verdict_warnings :: "verdict \<Rightarrow> string list" where
  "verdict_warnings (Warned r) = [''['' @ reason_policy_name r @ ''] '' @ reason_message r]"
| "verdict_warnings _ = []"

definition is_denied :: "verdict \<Rightarrow> bool" where
  "is_denied v = (case v of Denied _ \<Rightarrow> True | _ \<Rightarrow> False)"

definition policy_reason :: "policy \<Rightarrow> reason_category \<Rightarrow> policy_action \<Rightarrow> string \<Rightarrow> evaluation_reason" where
  "policy_reason p c a t =
     \<lparr>reason_policy_id = pol_id p, reason_policy_name = pol_name p, reason_category = c,
      reason_action = a, reason_message = t\<rparr>"

definition policy_verdict ::
  "(string \<Rightarrow> string) \<Rightarrow> time \<Rightarrow> access_request \<Rightarrow> policy \<Rightarrow> verdict" where
  "policy_verdict sha256_hex now req p =
     (case targetEvaluationMode sha256_hex req (pol_target p) of
        targetSkip \<Rightarrow> NoEffect
      | mode \<Rightarrow>
          (case conditionForType (pol_type p) of
             Inl err \<Rightarrow> Denied (policy_reason p ReasonCategoryEvaluationError PolicyActionDeny
               (''unknown policy type '' @ quote (pol_type p) @ '': '' @ err_text err))
           | Inr cond \<Rightarrow>
               (case EvaluateCondition cond now req (pol_config p) of
                  Inl err \<Rightarrow> Denied (policy_reason p ReasonCategoryEvaluationError PolicyActionDeny
                    (''condition evaluation error for policy '' @ quote (pol_name p) @ '': '' @ err_text err))
                | Inr (matched, reason) \<Rightarrow>
                    (if \<not> matched then NoEffect
                     else if isWarnMode (pol_config p) \<or> mode = targetWarn
                     then Warned (policy_reason p ReasonPolicyWarning (pol_action p) reason)
                     else if pol_action p = PolicyActionDeny
                     then Denied (policy_reason p ReasonPolicyMatch (pol_action p) reason)
                     else Allowed (policy_reason p ReasonPolicyMatch (pol_action p) reason)))))"

fun apply_verdict :: "verdict \<Rightarrow> evaluation_state \<Rightarrow> evaluation_state" where
  "apply_verdict (Denied r) s = addDeny r s"
| "apply_verdict v s =
     s\<lparr>st_reasons := st_reasons s @ verdict_reasons v, st_warnings := st_warnings s @ verdict_warnings v\<rparr>"

lemma evaluatePolicy_verdict:
  "evaluatePolicy sha now req p s = apply_verdict (policy_verdict sha now req p) s"
  by (cases "targetEvaluationMode sha req (pol_target p)")
    (auto simp: evaluatePolicy_def policy_verdict_def policy_reason_def Let_def addDeny_def
      split: sum.splits prod.splits)

lemma apply_verdict_fields:
  "st_reasons (apply_verdict v s) = st_reasons s @ verdict_reasons v"
  "st_warnings (apply_verdict v s) = st_warnings s @ verdict_warnings v"
  "st_has_deny (apply_verdict v s) \<longleftrightarrow> st_has_deny s \<or> is_denied v"
  "st_first_deny_reason (apply_verdict v s) =
     (if st_has_deny s then st_first_deny_reason s
      else (case v of Denied r \<Rightarrow> reason_message r | _ \<Rightarrow> st_first_deny_reason s))"
  by (cases v; simp add: addDeny_def Let_def is_denied_def)+

definition deny_message :: "verdict list \<Rightarrow> string" where
  "deny_message vs =
     (case filter is_denied vs of Denied r # _ \<Rightarrow> reason_message r | _ \<Rightarrow> [])"

lemma fold_verdicts:
  "st_reasons (fold apply_verdict vs s) = st_reasons s @ concat (map verdict_reasons vs)"
  "st_warnings (fold apply_verdict vs s) = st_warnings s @ concat (map verdict_warnings vs)"
  "st_has_deny (fold apply_verdict vs s) \<longleftrightarrow> st_has_deny s \<or> (\<exists>v \<in> set vs. is_denied v)"
  by (induction vs arbitrary: s) (auto simp: apply_verdict_fields)

lemma fold_verdicts_first:
  "st_has_deny s \<Longrightarrow> st_first_deny_reason (fold apply_verdict vs s) = st_first_deny_reason s"
  "\<not> st_has_deny s \<Longrightarrow> \<exists>v \<in> set vs. is_denied v \<Longrightarrow>
   st_first_deny_reason (fold apply_verdict vs s) = deny_message vs"
proof (induction vs arbitrary: s)
  case (Cons v vs)
  {
    case 1
    then show ?case using Cons.IH(1) [of "apply_verdict v s"] by (simp add: apply_verdict_fields)
  next
    case 2
    then show ?case
      using Cons.IH(1,2) [of "apply_verdict v s"]
      by (cases v) (auto simp: apply_verdict_fields is_denied_def deny_message_def addDeny_def Let_def)
  }
qed simp_all

section \<open>The decision\<close>

definition verdicts ::
  "(string \<Rightarrow> string) \<Rightarrow> time \<Rightarrow> access_request \<Rightarrow> policy list \<Rightarrow> verdict list" where
  "verdicts sha256_hex now req policies =
     map (policy_verdict sha256_hex now req) (sort_key evaluation_order (filterEnabled policies))"

lemma Evaluate_verdicts:
  "Evaluate sha now req ps = state_decision now req (fold apply_verdict (verdicts sha now req ps) initial_state)"
proof -
  have "fold (evaluatePolicy sha now req) qs s = fold apply_verdict (map (policy_verdict sha now req) qs) s"
    for qs s
    by (induction qs arbitrary: s) (simp_all add: evaluatePolicy_verdict)
  then show ?thesis by (simp add: Evaluate_def verdicts_def)
qed

lemma state_decision_fields [simp]:
  "dec_outcome (state_decision now req s) = (if st_has_deny s then DecisionDeny else DecisionAllow)"
  "dec_warnings (state_decision now req s) = st_warnings s"
  "dec_artifact (state_decision now req s) = req_artifact req"
  "dec_tenant_id (state_decision now req s) = req_tenant_id req"
  by (simp_all add: state_decision_def Let_def split: list.splits)

lemma state_decision_reason:
  "st_has_deny s \<Longrightarrow> dec_reason (state_decision now req s) = st_first_deny_reason s"
  "\<not> st_has_deny s \<Longrightarrow> st_reasons s = [] \<Longrightarrow> dec_reason (state_decision now req s) = ''no matching policy''"
  by (simp_all add: state_decision_def Let_def)

lemma initial_state_fields [simp]:
  "st_reasons initial_state = []" "st_warnings initial_state = []" "\<not> st_has_deny initial_state"
  by (simp_all add: initial_state_def)

lemma set_verdicts:
  "set (verdicts sha now req ps) = policy_verdict sha now req ` {p \<in> set ps. pol_enabled p}"
  by (auto simp: verdicts_def filterEnabled_def)

lemma evaluate_deny_iff:
  "dec_outcome (Evaluate sha now req ps) = DecisionDeny \<longleftrightarrow>
   (\<exists>p \<in> set ps. pol_enabled p \<and> is_denied (policy_verdict sha now req p))"
  by (auto simp: Evaluate_verdicts fold_verdicts set_verdicts)

lemma evaluate_warnings:
  "dec_warnings (Evaluate sha now req ps) = concat (map verdict_warnings (verdicts sha now req ps))"
  by (simp add: Evaluate_verdicts fold_verdicts)

lemma evaluate_reasons:
  "dec_reasons (Evaluate sha now req ps) =
   (let rs = concat (map verdict_reasons (verdicts sha now req ps))
    in if rs = [] then
         [\<lparr>reason_policy_id = [], reason_policy_name = [], reason_category = ReasonNoMatchingPolicy,
           reason_action = [], reason_message = ''no matching policy''\<rparr>]
       else rs)"
  by (simp only: Evaluate_verdicts state_decision_def fold_verdicts Let_def split: prod.split) simp

lemma evaluate_permutation:
  assumes "mset ps = mset qs" "distinct (map pol_name ps)"
  shows "Evaluate sha now req ps = Evaluate sha now req qs"
proof -
  have "sort_key evaluation_order (filterEnabled ps) = sort_key evaluation_order (filterEnabled qs)"
  proof (rule sort_key_mset_unique)
    show "mset (filterEnabled ps) = mset (filterEnabled qs)"
      using assms(1) by (simp add: filterEnabled_def)
    show "inj_on evaluation_order (set (filterEnabled ps))"
      using assms(2) by (auto simp: filterEnabled_def inj_on_def distinct_map evaluation_order_def)
  qed
  then show ?thesis by (simp add: Evaluate_def)
qed

lemma evaluate_ignores_disabled:
  "Evaluate sha now req (filter pol_enabled ps) = Evaluate sha now req ps"
  by (simp add: Evaluate_def filterEnabled_def)

text \<open>The target mode does not depend on the digest.\<close>

lemma target_mode_scope:
  "targetEvaluationMode sha req (Some t) = targetEvaluationMode sha' req (Some t)"
  by (cases "req_dependency_context req")
    (simp_all add: targetEvaluationMode_def NewUnknownDependencyContext_def NormalizeContext_def Let_def)

section \<open>Validated policies\<close>

lemma insort_key_map_same:
  "\<forall>x \<in> insert a (set xs). k (f x) = k x \<Longrightarrow> insort_key k (f a) (map f xs) = map f (insort_key k a xs)"
  by (induction xs) auto

lemma sort_key_map_same:
  assumes "set xs \<subseteq> A" "\<forall>x \<in> A. P x \<and> k (f x) = k x \<and> Q x"
  shows "sort_key k (map f xs) = map f (sort_key k xs)"
  using assms(1)
proof (induction xs)
  case (Cons a xs)
  then have "insort_key k (f a) (map f (sort_key k xs)) = map f (insort_key k a (sort_key k xs))"
    using assms(2) by (intro insort_key_map_same) auto
  with Cons show ?case by simp
qed simp

lemma validate_target_value:
  "ValidateTarget (Some t) = Inr u \<Longrightarrow>
   u = Some (if target_on_unknown t = [] then t\<lparr>target_on_unknown := DependencyUnknownWarn\<rparr> else t)"
  by (auto simp: ValidateTarget_def Let_def split: if_splits sum.splits)

text \<open>Writing the default out does not change the mode: the zero value already warns.\<close>

lemma target_mode_validated:
  assumes "ValidateTarget t = Inr u"
  shows "targetEvaluationMode sha req u = targetEvaluationMode sha req t"
proof (cases t)
  case None
  with assms show ?thesis by (simp add: ValidateTarget_def)
next
  case (Some v)
  with assms have "u = Some (if target_on_unknown v = []
      then v\<lparr>target_on_unknown := DependencyUnknownWarn\<rparr> else v)"
    by (simp add: validate_target_value)
  with Some show ?thesis
    by (cases "target_on_unknown v = []") (simp_all add: targetEvaluationMode_def Let_def)
qed

lemma validated_verdict:
  assumes "ValidatePolicy p = Inr q"
  shows "policy_verdict sha now req p \<noteq> Denied (policy_reason p ReasonCategoryEvaluationError a t)"
    and "policy_verdict sha now req q = policy_verdict sha now req p"
proof -
  obtain k m r where k: "conditionForType (pol_type p) = Inr k"
    "EvaluateCondition k now req (pol_config q) = Inr (m, r)"
    "EvaluateCondition k now req (pol_config p) = Inr (m, r)"
    using assms by (rule validated_condition_total)
  then show "policy_verdict sha now req p \<noteq> Denied (policy_reason p ReasonCategoryEvaluationError a t)"
    by (auto simp: policy_verdict_def policy_reason_def split: target_mode.splits)
  obtain c c' where c: "pol_config p = Some c" "ValidateConfig c = Inr c'" "pol_config q = Some c'"
    and t: "ValidateTarget (pol_target p) = Inr (pol_target q)"
    using assms by (rule validate_policy_Inr) simp
  have "isWarnMode (pol_config q) = isWarnMode (pol_config p)"
    using c validate_config_dry_run by (simp add: isWarnMode_def)
  moreover have "targetEvaluationMode sha req (pol_target q) = targetEvaluationMode sha req (pol_target p)"
    using t by (rule target_mode_validated)
  ultimately show "policy_verdict sha now req q = policy_verdict sha now req p"
    using k validate_policy_keeps [OF assms]
    by (cases "targetEvaluationMode sha req (pol_target p)")
      (simp_all add: policy_verdict_def policy_reason_def)
qed

text \<open>A decision on a validated set contains no evaluation error, and validating the stored set once
  more does not change the decision.\<close>

lemma validated_verdict_category:
  assumes "ValidatePolicy p = Inr q" "r \<in> set (verdict_reasons (policy_verdict sha now req p))"
  shows "reason_category r \<noteq> ReasonCategoryEvaluationError"
proof -
  obtain k m t where "conditionForType (pol_type p) = Inr k"
    "EvaluateCondition k now req (pol_config p) = Inr (m, t)"
    using assms(1) by (rule validated_condition_total)
  with assms(2) show ?thesis
    by (auto simp: policy_verdict_def policy_reason_def split: target_mode.splits if_splits)
qed

lemma validated_no_evaluation_error:
  assumes "ValidatePolicies ps = Inr qs" "r \<in> set (dec_reasons (Evaluate sha now req ps))"
  shows "reason_category r \<noteq> ReasonCategoryEvaluationError"
proof -
  from assms(1) have l: "list_all2 (\<lambda>p q. ValidatePolicy p = Inr q) ps qs"
    by (simp add: validate_policies_Inr)
  have "reason_category r \<noteq> ReasonCategoryEvaluationError"
    if r: "r \<in> set (concat (map verdict_reasons (verdicts sha now req ps)))"
  proof -
    from r obtain p where p: "p \<in> set ps" "r \<in> set (verdict_reasons (policy_verdict sha now req p))"
      by (auto simp: set_verdicts)
    from l p(1) obtain q where "ValidatePolicy p = Inr q"
      by (auto simp: list_all2_conv_all_nth in_set_conv_nth)
    then show ?thesis using p(2) by (rule validated_verdict_category)
  qed
  with assms(2) show ?thesis by (auto simp: evaluate_reasons Let_def split: if_splits)
qed

lemma validated_same_decision:
  assumes "ValidatePolicies ps = Inr qs"
  shows "Evaluate sha now req qs = Evaluate sha now req ps"
proof -
  from assms have l: "list_all2 (\<lambda>p q. ValidatePolicy p = Inr q) ps qs"
    by (simp add: validate_policies_Inr)
  define f where "f p = (case ValidatePolicy p of Inr q \<Rightarrow> q | Inl _ \<Rightarrow> p)" for p
  from l have qs: "qs = map f ps" and f: "\<forall>p \<in> set ps. ValidatePolicy p = Inr (f p)"
    by (auto simp: f_def list_all2_conv_all_nth in_set_conv_nth intro!: nth_equalityI)
  then have keep: "\<forall>p \<in> set ps. pol_enabled (f p) = pol_enabled p \<and> evaluation_order (f p) = evaluation_order p \<and>
      policy_verdict sha now req (f p) = policy_verdict sha now req p"
    by (auto simp: evaluation_order_def validate_policy_keeps validated_verdict(2))
  have "filterEnabled (map f ps) = map f (filterEnabled ps)"
    using keep by (induction ps) (auto simp: filterEnabled_def)
  moreover have "sort_key evaluation_order (map f xs) = map f (sort_key evaluation_order xs)"
    if "set xs \<subseteq> set ps" for xs
    using that keep by (rule sort_key_map_same)
  ultimately have "verdicts sha now req qs = verdicts sha now req ps"
    unfolding verdicts_def qs using keep by (auto simp: filterEnabled_def)
  then show ?thesis by (simp add: Evaluate_verdicts)
qed

section \<open>Properties\<close>

definition deny_policy :: "string \<Rightarrow> int \<Rightarrow> bool \<Rightarrow> policy" where
  "deny_policy name priority dry =
     sample_policy name priority PolicyTypeBlocklist (blocklist_config [''@acme''] dry)"

definition digest_stub :: "string \<Rightarrow> string" where
  "digest_stub s = ''h'' @ s"

text \<open>C1. Evaluation is deny-wins with default allow: the outcome is deny exactly when some enabled
  policy has a denying verdict on the request, that is its target applies and its condition either
  matches with action deny outside dry-run, or cannot be evaluated.\<close>

theorem evaluation_deny_wins:
  "dec_outcome (Evaluate sha256_hex now req ps) = DecisionDeny \<longleftrightarrow>
   (\<exists>p. p \<in> set ps \<and> pol_enabled p \<and> is_denied (policy_verdict sha256_hex now req p))"
  using evaluate_deny_iff by blast

text \<open>The reason of a denial comes from the first denying policy in evaluation order: the enabled
  policies sorted by priority and then by name split at a policy whose verdict denies, with no denying
  verdict before it, and the user-facing reason is the message of that verdict.\<close>

lemma denial_reason_is_first:
  assumes "dec_outcome (Evaluate sha256_hex now req ps) = DecisionDeny"
  shows "\<exists>before p after r. sort_key evaluation_order (filter pol_enabled ps) = before @ p # after \<and>
    list_all (\<lambda>q. \<not> is_denied (policy_verdict sha256_hex now req q)) before \<and>
    policy_verdict sha256_hex now req p = Denied r \<and>
    dec_reason (Evaluate sha256_hex now req ps) = reason_message r"
proof -
  let ?v = "policy_verdict sha256_hex now req" and ?s = "sort_key evaluation_order (filter pol_enabled ps)"
  have vs: "verdicts sha256_hex now req ps = map ?v ?s" by (simp add: verdicts_def filterEnabled_def)
  from assms have ex: "\<exists>p \<in> set ?s. is_denied (?v p)" by (auto simp: evaluate_deny_iff)
  then obtain before p after where split: "?s = before @ p # after" "is_denied (?v p)"
    "\<forall>q \<in> set before. \<not> is_denied (?v q)" using split_list_first_prop [OF ex] by auto
  then obtain r where r: "?v p = Denied r" by (auto simp: is_denied_def split: verdict.splits)
  have "dec_reason (Evaluate sha256_hex now req ps) = deny_message (map ?v ?s)"
    using ex by (simp add: Evaluate_verdicts vs state_decision_reason fold_verdicts fold_verdicts_first)
  also have "\<dots> = reason_message r"
    using split r by (simp add: deny_message_def filter_map filter_empty_conv comp_def)
  finally show ?thesis using split r by (auto simp: list_all_iff)
qed

lemma denial_reason_is_first_witness:
  "\<exists>before p after. sort_key evaluation_order
      (filter pol_enabled [deny_policy ''b'' 1 False, deny_policy ''a'' 1 False]) = before @ p # after \<and>
    list_all (\<lambda>q. \<not> is_denied (policy_verdict digest_stub 0 (sample_request None) q)) before"
proof -
  have "dec_outcome (Evaluate digest_stub 0 (sample_request None)
      [deny_policy ''b'' 1 False, deny_policy ''a'' 1 False]) = DecisionDeny" by code_simp
  from denial_reason_is_first [OF this] show ?thesis by blast
qed

text \<open>The decision does not depend on the order in which the policies are stored: for policies with
  distinct names every permutation gives the same decision, with the same reasons and warnings in the
  same order.\<close>

lemma evaluation_order_independent:
  assumes "mset ps = mset qs" "distinct (map pol_name ps)"
  shows "Evaluate sha256_hex now req ps = Evaluate sha256_hex now req qs"
  using assms by (rule evaluate_permutation)

lemma evaluation_order_independent_witness:
  "Evaluate digest_stub 0 (sample_request None) [deny_policy ''b'' 1 False, deny_policy ''a'' 2 True] =
   Evaluate digest_stub 0 (sample_request None) [deny_policy ''a'' 2 True, deny_policy ''b'' 1 False]"
  by (rule evaluation_order_independent) (simp_all add: deny_policy_def sample_policy_def add_mset_commute)

text \<open>C4. On a validated policy set the decision contains no evaluation error, and evaluating the set as
  validation rewrote it gives the same decision as evaluating the stored one.\<close>

theorem validated_set_decision:
  assumes "ValidatePolicies ps = Inr qs"
  shows "list_all (\<lambda>r. reason_category r \<noteq> ReasonCategoryEvaluationError)
      (dec_reasons (Evaluate sha256_hex now req ps)) \<and>
    Evaluate sha256_hex now req qs = Evaluate sha256_hex now req ps"
  using validated_no_evaluation_error [OF assms] validated_same_decision [OF assms]
  by (auto simp: list_all_iff)

theorem validated_set_decision_witness:
  "list_all (\<lambda>r. reason_category r \<noteq> ReasonCategoryEvaluationError)
     (dec_reasons (Evaluate digest_stub 0 (sample_request None)
        [sample_policy ''a'' 1 PolicyTypeBlocklist (blocklist_config [''evil''] False)]))"
  using validated_set_decision [OF sample_policy_validates, of digest_stub 0 "sample_request None"] by simp

text \<open>A dry-run policy never changes the outcome: adding a policy that validates and has dry-run set
  to any policy list leaves allow and deny as they were.\<close>

lemma dry_run_keeps_outcome:
  assumes "ValidatePolicy p = Inr q" "pol_config p = Some c" "DryRunEnabled c"
  shows "dec_outcome (Evaluate sha256_hex now req (p # ps)) = dec_outcome (Evaluate sha256_hex now req ps)"
proof -
  obtain k m r where "conditionForType (pol_type p) = Inr k"
    "EvaluateCondition k now req (pol_config p) = Inr (m, r)"
    using assms(1) by (rule validated_condition_total)
  with assms(2,3) have "\<not> is_denied (policy_verdict sha256_hex now req p)"
    by (auto simp: policy_verdict_def is_denied_def isWarnMode_def split: target_mode.splits)
  then have "dec_outcome (Evaluate sha256_hex now req (p # ps)) = DecisionDeny \<longleftrightarrow>
      dec_outcome (Evaluate sha256_hex now req ps) = DecisionDeny"
    by (simp add: evaluate_deny_iff)
  then show ?thesis by (metis decision_outcome.exhaust)
qed

lemma dry_run_keeps_outcome_witness:
  "DryRunEnabled (blocklist_config [''@acme''] True) \<and>
   dec_outcome (Evaluate digest_stub 0 (sample_request None) [deny_policy ''a'' 1 True]) = DecisionAllow"
proof -
  have "ValidatePolicy (deny_policy ''a'' 1 True) = Inr (deny_policy ''a'' 1 True)"
    "pol_config (deny_policy ''a'' 1 True) = Some (blocklist_config [''@acme''] True)"
    "DryRunEnabled (blocklist_config [''@acme''] True)"
    "dec_outcome (Evaluate digest_stub 0 (sample_request None) []) = DecisionAllow"
    by code_simp+
  with dry_run_keeps_outcome [OF this(1,2,3), of digest_stub 0 "sample_request None" "[]"]
  show ?thesis by simp
qed

text \<open>More policies never turn a denial into an allow: allow policies grant no exemption, and neither
  does any other policy that is added.\<close>

lemma denial_monotone:
  assumes "set ps \<subseteq> set qs" "dec_outcome (Evaluate sha256_hex now req ps) = DecisionDeny"
  shows "dec_outcome (Evaluate sha256_hex now req qs) = DecisionDeny"
  using assms by (auto simp: evaluate_deny_iff)

lemma denial_monotone_witness:
  "dec_outcome (Evaluate digest_stub 0 (sample_request None)
     [(deny_policy ''allow'' 0 False)\<lparr>pol_action := PolicyActionAllow\<rparr>, deny_policy ''a'' 1 False]) = DecisionDeny"
proof (rule denial_monotone)
  show "dec_outcome (Evaluate digest_stub 0 (sample_request None) [deny_policy ''a'' 1 False]) = DecisionDeny"
    by code_simp
qed simp

text \<open>The policy a denial names can be one that did not deny: with a dry-run policy before the
  enforcing one, the decision carries the reason of the enforcing policy but the identifier of the
  dry-run policy.\<close>

lemma denial_names_dry_run_policy:
  "let d = Evaluate digest_stub 0 (sample_request None) [deny_policy ''audit'' 1 True, deny_policy ''block'' 2 False]
   in dec_outcome d = DecisionDeny \<and> dec_policy_id d = ''id-audit'' \<and>
      dec_outcome (Evaluate digest_stub 0 (sample_request None) [deny_policy ''audit'' 1 True]) = DecisionAllow"
  by code_simp

end
