(* ===== verification/Audit_Service.thy ===== *)
theory Audit_Service
  imports Policy_Evaluator "HOL-Library.State_Monad"
begin

text \<open>
  Effects and the audit service (\<open>internal/core/domain/audit.go\<close>, \<open>internal/core/service/audit.go\<close>).

  An operation with effects is a state transformer \<^typ>\<open>('s, 'a) state\<close> over a world \<^typ>\<open>'s\<close> that holds
  everything the ports read and write; a port is a function into such transformers, and the
  theorems hold for every world and every port. The context's cancellation state and the clock are
  readings of the world. Tracing spans and log lines have no effect on the results and are left out.
\<close>

section \<open>Audit events\<close>

datatype audit_event_type =
    AuditEventProxyRequestReceived
  | AuditEventEvaluationStarted
  | AuditEventArtifactNormalized
  | AuditEventReferenceResolved
  | AuditEventDecisionCacheHit
  | AuditEventDecisionCacheMiss
  | AuditEventEnrichmentStarted
  | AuditEventMetadataCacheHit
  | AuditEventMetadataCacheMiss
  | AuditEventEnrichmentFailed
  | AuditEventDependencyGraphContext
  | AuditEventPoliciesLoaded
  | AuditEventPolicyMatched
  | AuditEventDecisionComputed
  | AuditEventDecisionPersisted
  | AuditEventUpstreamFetchStarted
  | AuditEventUpstreamFetchFailed
  | AuditEventRequestAllowed
  | AuditEventRequestDenied
  | AuditEventRequestForwarded
  | AuditEventError

type_synonym audit_failure_mode = string

abbreviation AuditFailureModeFailOpen :: audit_failure_mode where
  "AuditFailureModeFailOpen \<equiv> ''fail_open''"
abbreviation AuditFailureModeFailClosed :: audit_failure_mode where
  "AuditFailureModeFailClosed \<equiv> ''fail_closed''"

type_synonym audit_detail_level = string

abbreviation AuditDetailLevelMinimal :: audit_detail_level where "AuditDetailLevelMinimal \<equiv> ''minimal''"
abbreviation AuditDetailLevelSummary :: audit_detail_level where "AuditDetailLevelSummary \<equiv> ''summary''"
abbreviation AuditDetailLevelFull :: audit_detail_level where "AuditDetailLevelFull \<equiv> ''full''"

text \<open>The values of a payload \<open>map[string]any\<close>; a map is an association list.\<close>

datatype audit_value =
    VString string
  | VInt int
  | VBool bool
  | VFloat float64
  | VTime time
  | VStrings "string list"
  | VCategory reason_category
  | VArtifact artifact_identity
  | VVulnerabilities "vulnerability list"
  | VOutcome decision_outcome
  | VReasons "evaluation_reason list"
  | VMap "(string \<times> audit_value) list"

type_synonym audit_payload = "(string \<times> audit_value) list"

record audit_event =
  ev_id :: string
  ev_tenant_id :: string
  ev_correlation_id :: string
  ev_event_type :: audit_event_type
  ev_source :: string
  ev_entity_type :: string
  ev_entity_id :: string
  ev_upstream_id :: string
  ev_policy_id :: string
  ev_outcome :: "decision_outcome option"
  ev_artifact :: artifact_identity
  ev_message :: string
  ev_payload :: "audit_payload option"
  ev_created_at :: time

text \<open>The zero \<open>time.Time\<close>, January 1 of the year 1, in nanoseconds since the epoch.\<close>

definition zero_time :: time where
  "zero_time = - 62135596800000000000"

text \<open>A composite literal that sets the fields every event of the pipeline has.\<close>

definition new_event ::
  "string \<Rightarrow> string \<Rightarrow> audit_event_type \<Rightarrow> string \<Rightarrow> artifact_identity \<Rightarrow> string \<Rightarrow> audit_event" where
  "new_event tenant correlation event_type source artifact message =
     \<lparr>ev_id = [], ev_tenant_id = tenant, ev_correlation_id = correlation, ev_event_type = event_type,
      ev_source = source, ev_entity_type = [], ev_entity_id = [], ev_upstream_id = [], ev_policy_id = [],
      ev_outcome = None, ev_artifact = artifact, ev_message = message, ev_payload = None,
      ev_created_at = zero_time\<rparr>"

section \<open>The world\<close>

record 's runtime =
  rt_ctx_err :: "'s \<Rightarrow> go_error option"
  rt_now :: "'s \<Rightarrow> time"

definition read_world :: "('s \<Rightarrow> 'a) \<Rightarrow> ('s, 'a) state" where
  "read_world f = State (\<lambda>s. (f s, s))"

definition time_now :: "'s runtime \<Rightarrow> ('s, time) state" where
  "time_now rt = read_world (rt_now rt)"

definition ctx_err :: "'s runtime \<Rightarrow> ('s, go_error option) state" where
  "ctx_err rt = read_world (rt_ctx_err rt)"

section \<open>The audit service\<close>

record audit_filter =
  filter_tenant_id :: string
  filter_limit :: int
  filter_offset :: int
  filter_search :: string
  filter_event_type :: "audit_event_type option"
  filter_outcome :: "decision_outcome option"
  filter_correlation_id :: string
  filter_policy_id :: string
  filter_source :: string
  filter_since :: "time option"
  filter_until :: "time option"

record 's audit_service =
  aud_recorder :: "(audit_event \<Rightarrow> ('s, unit result) state) option"
  aud_repo :: "(audit_filter \<Rightarrow> ('s, audit_event list result) state) option"
  aud_enabled :: bool
  aud_failure_mode :: audit_failure_mode
  aud_detail_level :: audit_detail_level

definition Enabled :: "'s audit_service option \<Rightarrow> bool" where
  "Enabled a = (case a of None \<Rightarrow> False | Some s \<Rightarrow> aud_enabled s)"

definition DetailLevel :: "'s audit_service option \<Rightarrow> audit_detail_level" where
  "DetailLevel a =
     (case a of None \<Rightarrow> AuditDetailLevelSummary
      | Some s \<Rightarrow> (if aud_detail_level s = [] then AuditDetailLevelSummary else aud_detail_level s))"

definition RecordAudit ::
  "'s runtime \<Rightarrow> 's audit_service option \<Rightarrow> audit_event \<Rightarrow> ('s, unit result) state" where
  "RecordAudit rt a event =
     (case a of
        None \<Rightarrow> State_Monad.return (Inr ())
      | Some svc \<Rightarrow>
          (if \<not> aud_enabled svc then State_Monad.return (Inr ())
           else (case aud_recorder svc of
               None \<Rightarrow> State_Monad.return (Inr ())
             | Some recorder \<Rightarrow>
                 do {
                   cancelled \<leftarrow> ctx_err rt;
                   (if (case cancelled of None \<Rightarrow> False | Some e \<Rightarrow> IsCanceled e)
                    then State_Monad.return (Inr ())
                    else do {
                      now \<leftarrow> time_now rt;
                      r \<leftarrow> recorder
                        (let e1 = (if ev_created_at event = zero_time
                                   then event\<lparr>ev_created_at := now\<rparr> else event)
                         in if ev_payload e1 = None then e1\<lparr>ev_payload := Some []\<rparr> else e1);
                      (case r of
                         Inr _ \<Rightarrow> State_Monad.return (Inr ())
                       | Inl e \<Rightarrow>
                           (if IsCanceled e then State_Monad.return (Inr ())
                            else if aud_failure_mode svc = AuditFailureModeFailClosed
                            then State_Monad.return (Inl (sentinel_error ErrAuditUnavailable))
                            else State_Monad.return (Inr ())))
                    })
                 })))"

definition ListAuditByTenant ::
  "'s runtime \<Rightarrow> 's audit_service option \<Rightarrow> audit_filter \<Rightarrow> ('s, audit_event list result) state" where
  "ListAuditByTenant rt a query =
     (case Option.bind a aud_repo of
        None \<Rightarrow> State_Monad.return (Inl (plain_error ''listing audit events: repository unavailable''))
      | Some repo \<Rightarrow>
          do {
            cancelled \<leftarrow> ctx_err rt;
            (case cancelled of
               Some e \<Rightarrow> State_Monad.return (Inl e)
             | None \<Rightarrow>
                 do {
                   r \<leftarrow> repo query;
                   State_Monad.return (map_error (wrap_error ''listing audit events'') r)
                 })
          })"

section \<open>Lemmas\<close>

lemma run_read_world [simp]: "run_state (read_world f) s = (f s, s)"
  by (simp add: read_world_def)

lemma run_time_now [simp]: "run_state (time_now rt) s = (rt_now rt s, s)"
  by (simp add: time_now_def)

lemma run_ctx_err [simp]: "run_state (ctx_err rt) s = (rt_ctx_err rt s, s)"
  by (simp add: ctx_err_def)

text \<open>The only error that recording an event can return is \<open>ErrAuditUnavailable\<close>, and only in
  fail-closed mode.\<close>

lemma record_audit_error:
  assumes "run_state (RecordAudit rt a event) s = (Inl e, s')"
  shows "e = sentinel_error ErrAuditUnavailable \<and> (\<exists>svc. a = Some svc \<and> aud_enabled svc \<and>
    aud_failure_mode svc = AuditFailureModeFailClosed \<and> aud_recorder svc \<noteq> None)"
  using assms
  by (auto simp: RecordAudit_def split: option.splits if_splits prod.splits sum.splits)

lemma record_audit_fail_open:
  assumes "\<And>svc. a = Some svc \<Longrightarrow> aud_failure_mode svc \<noteq> AuditFailureModeFailClosed"
  shows "fst (run_state (RecordAudit rt a event) s) = Inr ()"
proof (cases "fst (run_state (RecordAudit rt a event) s)")
  case (Inl e)
  then have "run_state (RecordAudit rt a event) s = (Inl e, snd (run_state (RecordAudit rt a event) s))"
    by (simp add: prod_eq_iff)
  from record_audit_error [OF this] assms show ?thesis by blast
qed simp

lemma record_audit_fail_closed:
  assumes "aud_enabled svc" "aud_recorder svc = Some recorder"
    and "aud_failure_mode svc = AuditFailureModeFailClosed"
    and "rt_ctx_err rt s = None"
    and "\<And>ev. \<exists>e s'. run_state (recorder ev) s = (Inl e, s') \<and> \<not> IsCanceled e"
  shows "fst (run_state (RecordAudit rt (Some svc) event) s) = Inl (sentinel_error ErrAuditUnavailable)"
proof -
  let ?ev = "let e1 = (if ev_created_at event = zero_time
      then event\<lparr>ev_created_at := rt_now rt s\<rparr> else event)
    in if ev_payload e1 = None then e1\<lparr>ev_payload := Some []\<rparr> else e1"
  obtain e s' where "run_state (recorder ?ev) s = (Inl e, s')" "\<not> IsCanceled e"
    using assms(5) [of ?ev] by blast
  with assms(1-4) show ?thesis by (simp add: RecordAudit_def)
qed

section \<open>Properties\<close>

definition sample_runtime :: "'s runtime" where
  "sample_runtime = \<lparr>rt_ctx_err = (\<lambda>_. None), rt_now = (\<lambda>_. 0)\<rparr>"

definition failing_audit :: "audit_failure_mode \<Rightarrow> 's audit_service" where
  "failing_audit mode = \<lparr>aud_recorder = Some (\<lambda>_. State_Monad.return (Inl (plain_error ''disk full''))),
     aud_repo = None, aud_enabled = True, aud_failure_mode = mode, aud_detail_level = []\<rparr>"

definition sample_event :: audit_event where
  "sample_event = new_event ''t1'' ''r1'' AuditEventEvaluationStarted ''core/access'' sample_npm ''started''"

text \<open>Fail-closed auditing lets nothing through without a record: when auditing is enabled in
  fail-closed mode and the recorder fails for another reason than the request being cancelled,
  recording any event returns \<open>ErrAuditUnavailable\<close>; in every other mode recording never returns an
  error.\<close>

lemma audit_failure_mode_decides:
  assumes "aud_enabled svc" "aud_recorder svc = Some recorder" "rt_ctx_err rt s = None"
    and "\<And>ev. \<exists>e s'. run_state (recorder ev) s = (Inl e, s') \<and> \<not> IsCanceled e"
  shows "fst (run_state (RecordAudit rt (Some svc) event) s) =
    (if aud_failure_mode svc = AuditFailureModeFailClosed then Inl (sentinel_error ErrAuditUnavailable)
     else Inr ())"
proof (cases "aud_failure_mode svc = AuditFailureModeFailClosed")
  case True
  from record_audit_fail_closed [where rt = rt and event = event, OF assms(1,2) True assms(3,4)] True
  show ?thesis by simp
next
  case False
  with record_audit_fail_open [of "Some svc" rt event s] show ?thesis by simp
qed

lemma audit_failure_mode_decides_witness:
  "fst (run_state (RecordAudit sample_runtime (Some (failing_audit AuditFailureModeFailClosed)) sample_event) ()) =
     Inl (sentinel_error ErrAuditUnavailable) \<and>
   fst (run_state (RecordAudit sample_runtime (Some (failing_audit AuditFailureModeFailOpen)) sample_event) ()) = Inr ()"
proof -
  have f: "\<exists>e s'. run_state (State_Monad.return (Inl (plain_error ''disk full'')) :: (unit, unit result) state) () =
      (Inl e, s') \<and> \<not> IsCanceled e"
    by (auto simp: IsCanceled_def)
  show ?thesis
    using audit_failure_mode_decides [where svc = "failing_audit AuditFailureModeFailClosed"
        and rt = sample_runtime and s = "()" and event = sample_event, OF _ _ _ f]
      audit_failure_mode_decides [where svc = "failing_audit AuditFailureModeFailOpen"
        and rt = sample_runtime and s = "()" and event = sample_event, OF _ _ _ f]
    by (simp add: failing_audit_def sample_runtime_def)
qed

end
