(* ===== verification/Enrichment_Service.thy ===== *)
theory Enrichment_Service
  imports Audit_Service
begin

text \<open>
  The two services the access pipeline consults for evidence: enrichment with its metadata cache
  (\<open>internal/core/service/enrichment.go\<close>) and the dependency context with its cache, graph store and
  resolve queue (\<open>internal/core/service/dependency_context.go\<close>).

  The lemmas show that enrichment fails open (an unavailable source gives no metadata, never an
  error) apart from a fail-closed audit sink, that a hit never queries the sources, and that the
  context a lookup returns is always normalized.
\<close>

section \<open>Enrichment\<close>

definition Minute :: duration where "Minute = 60000000000"

definition mutableRefTTL :: duration where "mutableRefTTL = Hour"
definition immutableRefTTL :: duration where "immutableRefTTL = 24 * Hour"

record 's enrichment_service =
  enr_enrich :: "artifact_identity \<Rightarrow> ('s, artifact_metadata option result) state"
  enr_cache_get :: "string \<Rightarrow> artifact_identity \<Rightarrow> ('s, artifact_metadata option result) state"
  enr_cache_set ::
    "string \<Rightarrow> artifact_identity \<Rightarrow> artifact_metadata \<Rightarrow> duration \<Rightarrow> ('s, unit result) state"
  enr_audit :: "'s audit_service option"

definition metadataCacheAuditEvent ::
  "string \<Rightarrow> string \<Rightarrow> artifact_identity \<Rightarrow> audit_event_type \<Rightarrow> string \<Rightarrow> audit_event" where
  "metadataCacheAuditEvent tenantID correlationID artifact eventType message =
     new_event tenantID correlationID eventType ''core/enrichment'' artifact message"

definition cacheTTL :: "artifact_identity \<Rightarrow> duration" where
  "cacheTTL artifact = (if art_digest artifact \<noteq> [] then immutableRefTTL else mutableRefTTL)"

definition lookupCachedMetadata ::
  "'s runtime \<Rightarrow> 's enrichment_service \<Rightarrow> string \<Rightarrow> string \<Rightarrow> artifact_identity \<Rightarrow>
   ('s, (artifact_metadata option \<times> bool) result) state" where
  "lookupCachedMetadata rt svc tenantID correlationID artifact =
     do {
       r \<leftarrow> enr_cache_get svc tenantID artifact;
       (case r of
          Inr (Some cached) \<Rightarrow>
            do {
              a \<leftarrow> RecordAudit rt (enr_audit svc) (metadataCacheAuditEvent tenantID correlationID artifact
                AuditEventMetadataCacheHit ''metadata cache hit'');
              State_Monad.return (case a of Inl e \<Rightarrow> Inl e | Inr _ \<Rightarrow> Inr (Some cached, True))
            }
        | _ \<Rightarrow>
            do {
              a \<leftarrow> RecordAudit rt (enr_audit svc) (metadataCacheAuditEvent tenantID correlationID artifact
                AuditEventMetadataCacheMiss ''metadata cache miss'');
              State_Monad.return (case a of Inl e \<Rightarrow> Inl e | Inr _ \<Rightarrow> Inr (None, False))
            })
     }"

definition queryEnrichmentSources ::
  "'s runtime \<Rightarrow> 's enrichment_service \<Rightarrow> string \<Rightarrow> string \<Rightarrow> artifact_identity \<Rightarrow>
   ('s, artifact_metadata option result) state" where
  "queryEnrichmentSources rt svc tenantID correlationID artifact =
     do {
       r \<leftarrow> enr_enrich svc artifact;
       (case r of
          Inr metadata \<Rightarrow> State_Monad.return (Inr metadata)
        | Inl err \<Rightarrow>
            do {
              a \<leftarrow> RecordAudit rt (enr_audit svc)
                ((new_event tenantID correlationID AuditEventEnrichmentFailed ''core/enrichment'' artifact
                   ''artifact enrichment failed'')
                 \<lparr>ev_payload := Some [(''error'', VString (err_text err))]\<rparr>);
              State_Monad.return (case a of Inl e \<Rightarrow> Inl e | Inr _ \<Rightarrow> Inr None)
            })
     }"

definition storeCachedMetadata ::
  "'s enrichment_service \<Rightarrow> string \<Rightarrow> artifact_identity \<Rightarrow> artifact_metadata \<Rightarrow> ('s, unit) state" where
  "storeCachedMetadata svc tenantID artifact metadata =
     do { _ \<leftarrow> enr_cache_set svc tenantID artifact metadata (cacheTTL artifact);
          State_Monad.return () }"

definition EnrichWithCorrelation ::
  "'s runtime \<Rightarrow> 's enrichment_service \<Rightarrow> string \<Rightarrow> string \<Rightarrow> artifact_identity \<Rightarrow>
   ('s, artifact_metadata option result) state" where
  "EnrichWithCorrelation rt svc tenantID correlationID artifact =
     do {
       r \<leftarrow> lookupCachedMetadata rt svc tenantID correlationID artifact;
       (case r of
          Inl e \<Rightarrow> State_Monad.return (Inl e)
        | Inr (cached, found) \<Rightarrow>
            (if found then State_Monad.return (Inr cached)
             else do {
               q \<leftarrow> queryEnrichmentSources rt svc tenantID correlationID artifact;
               (case q of
                  Inl e \<Rightarrow> State_Monad.return (Inl e)
                | Inr None \<Rightarrow> State_Monad.return (Inr None)
                | Inr (Some metadata) \<Rightarrow>
                    do { _ \<leftarrow> storeCachedMetadata svc tenantID artifact metadata;
                         State_Monad.return (Inr (Some metadata)) })
             }))
     }"

section \<open>Dependency context\<close>

definition dependencyContextCacheTTL :: duration where
  "dependencyContextCacheTTL = 30 * Minute"

text \<open>A port that is nil in the code is \<^const>\<open>None\<close>.\<close>

record 's dependency_context_service =
  dcs_cache_get ::
    "(dependency_context_summary_key \<Rightarrow> ('s, dependency_context result) state) option"
  dcs_cache_set ::
    "dependency_context_summary_key \<Rightarrow> dependency_context \<Rightarrow> duration \<Rightarrow> ('s, unit result) state"
  dcs_lookup_context ::
    "(dependency_context_summary_key \<Rightarrow> ('s, dependency_context result) state) option"
  dcs_enqueue ::
    "(dependency_graph_resolve_request \<Rightarrow> ('s, bool result) state) option"

definition dependencyContextKey :: "access_request \<Rightarrow> dependency_context_summary_key" where
  "dependencyContextKey req =
     \<lparr>summary_tenant_id = req_tenant_id req, summary_upstream_id = up_id (req_upstream req),
      summary_artifact = req_artifact req\<rparr>"

definition lookupCachedContext ::
  "(string \<Rightarrow> string) \<Rightarrow> 's dependency_context_service \<Rightarrow> dependency_context_summary_key \<Rightarrow>
   ('s, dependency_context option) state" where
  "lookupCachedContext sha256_hex svc key =
     (case dcs_cache_get svc of
        None \<Rightarrow> State_Monad.return None
      | Some get \<Rightarrow>
          do {
            r \<leftarrow> get key;
            State_Monad.return (case r of Inr cached \<Rightarrow> Some (NormalizeContext sha256_hex cached) | Inl _ \<Rightarrow> None)
          })"

definition cacheStoredContext ::
  "'s dependency_context_service \<Rightarrow> dependency_context_summary_key \<Rightarrow> dependency_context \<Rightarrow>
   ('s, unit) state" where
  "cacheStoredContext svc key c =
     (case dcs_cache_get svc of
        None \<Rightarrow> State_Monad.return ()
      | Some _ \<Rightarrow>
          do { _ \<leftarrow> dcs_cache_set svc key c dependencyContextCacheTTL; State_Monad.return () })"

definition lookupStoredContext ::
  "(string \<Rightarrow> string) \<Rightarrow> 's dependency_context_service \<Rightarrow> dependency_context_summary_key \<Rightarrow>
   ('s, dependency_context option result) state" where
  "lookupStoredContext sha256_hex svc key =
     (case dcs_lookup_context svc of
        None \<Rightarrow> State_Monad.return (Inr None)
      | Some lookup \<Rightarrow>
          do {
            r \<leftarrow> lookup key;
            (case r of
               Inl e \<Rightarrow>
                 (if errors_is e ErrArtifactNotFound then State_Monad.return (Inr None)
                  else State_Monad.return (Inl (wrap_error ''looking up dependency context'' e)))
             | Inr c \<Rightarrow>
                 (let normalized = NormalizeContext sha256_hex c
                  in do { _ \<leftarrow> cacheStoredContext svc key normalized;
                          State_Monad.return (Inr (Some normalized)) }))
          })"

definition shouldEnqueueDependencyGraphRoot :: "access_request \<Rightarrow> bool" where
  "shouldEnqueueDependencyGraphRoot req \<longleftrightarrow> req_kind req \<noteq> AccessRequestKindNPMTarball"

definition enqueueDependencyGraphRoot ::
  "'s runtime \<Rightarrow> 's dependency_context_service \<Rightarrow> access_request \<Rightarrow> ('s, bool) state" where
  "enqueueDependencyGraphRoot rt svc req =
     (if \<not> shouldEnqueueDependencyGraphRoot req then State_Monad.return False
      else (case dcs_enqueue svc of
          None \<Rightarrow> State_Monad.return False
        | Some enqueue \<Rightarrow>
            do {
              now \<leftarrow> time_now rt;
              r \<leftarrow> enqueue \<lparr>resolve_tenant_id = req_tenant_id req, resolve_upstream = req_upstream req,
                            resolve_root = req_artifact req, resolve_requested_at = now\<rparr>;
              State_Monad.return (case r of Inl _ \<Rightarrow> False | Inr queued \<Rightarrow> queued)
            }))"

definition ResolveContext ::
  "(string \<Rightarrow> string) \<Rightarrow> 's runtime \<Rightarrow> 's dependency_context_service option \<Rightarrow> access_request \<Rightarrow>
   ('s, (dependency_context \<times> bool) result) state" where
  "ResolveContext sha256_hex rt dcs req =
     (case dcs of
        None \<Rightarrow> State_Monad.return (Inr (NewUnknownDependencyContext sha256_hex, False))
      | Some svc \<Rightarrow>
          (let key = dependencyContextKey req
           in do {
             c \<leftarrow> lookupCachedContext sha256_hex svc key;
             (case c of
                Some cached \<Rightarrow> State_Monad.return (Inr (cached, False))
              | None \<Rightarrow>
                  do {
                    r \<leftarrow> lookupStoredContext sha256_hex svc key;
                    (case r of
                       Inl e \<Rightarrow> State_Monad.return (Inl e)
                     | Inr (Some stored) \<Rightarrow> State_Monad.return (Inr (stored, False))
                     | Inr None \<Rightarrow>
                         do { enqueued \<leftarrow> enqueueDependencyGraphRoot rt svc req;
                              State_Monad.return (Inr (NewUnknownDependencyContext sha256_hex, enqueued)) })
                  })
           }))"

section \<open>Enrichment fails open\<close>

lemmas enrichment_defs = EnrichWithCorrelation_def lookupCachedMetadata_def queryEnrichmentSources_def
  storeCachedMetadata_def

lemma enrich_error_is_audit:
  assumes "run_state (EnrichWithCorrelation rt svc t c a) s = (Inl e, s')"
  shows "e = sentinel_error ErrAuditUnavailable"
  using assms
  by (auto simp: enrichment_defs dest: record_audit_error
      split: sum.splits prod.splits option.splits if_splits)

text \<open>On a cache hit the result and the final world are those of the lookup and the audit record: the
  sources are not queried.\<close>

lemma enrich_hit:
  assumes "run_state (enr_cache_get svc t a) s = (Inr (Some m), s1)"
    and "fst (run_state (RecordAudit rt (enr_audit svc)
      (metadataCacheAuditEvent t c a AuditEventMetadataCacheHit ''metadata cache hit'')) s1) = Inr ()"
  shows "run_state (EnrichWithCorrelation rt svc t c a) s =
    (Inr (Some m), snd (run_state (RecordAudit rt (enr_audit svc)
      (metadataCacheAuditEvent t c a AuditEventMetadataCacheHit ''metadata cache hit'')) s1))"
  using assms by (simp add: enrichment_defs case_prod_beta)

text \<open>The error of a source never reaches the caller.\<close>

lemma enrich_source_failure:
  assumes "\<And>s. fst (run_state (enr_cache_get svc t a) s) = Inl (sentinel_error ErrCacheMiss)"
    and "\<And>s. \<exists>e. fst (run_state (enr_enrich svc a) s) = Inl e"
    and "\<And>ev s. fst (run_state (RecordAudit rt (enr_audit svc) ev) s) = Inr ()"
  shows "fst (run_state (EnrichWithCorrelation rt svc t c a) s) = Inr None"
proof -
  let ?s1 = "snd (run_state (enr_cache_get svc t a) s)"
  let ?s2 = "snd (run_state (RecordAudit rt (enr_audit svc)
    (metadataCacheAuditEvent t c a AuditEventMetadataCacheMiss ''metadata cache miss'')) ?s1)"
  obtain e where "fst (run_state (enr_enrich svc a) ?s2) = Inl e" using assms(2) by blast
  with assms(1,3) show ?thesis by (simp add: enrichment_defs case_prod_beta)
qed

section \<open>Resolved contexts are normalized\<close>

lemma resolve_context_normalized:
  assumes "run_state (ResolveContext sha rt dcs req) s = (Inr (c, q), s')"
  shows "\<exists>c0. c = NormalizeContext sha c0"
  using assms normalize_unknown [of sha, symmetric]
  by (auto simp: ResolveContext_def lookupCachedContext_def lookupStoredContext_def Let_def
      split: option.splits sum.splits prod.splits if_splits)

lemma resolve_context_tarball:
  assumes "run_state (ResolveContext sha rt dcs req) s = (Inr (c, q), s')"
    and "req_kind req = AccessRequestKindNPMTarball"
  shows "\<not> q"
  using assms
  by (auto simp: ResolveContext_def lookupCachedContext_def lookupStoredContext_def Let_def
      enqueueDependencyGraphRoot_def shouldEnqueueDependencyGraphRoot_def
      split: option.splits sum.splits prod.splits if_splits)

section \<open>Properties\<close>

definition failing_enrichment :: "unit enrichment_service" where
  "failing_enrichment =
     \<lparr>enr_enrich = (\<lambda>_. State_Monad.return (Inl (plain_error ''registry down''))),
      enr_cache_get = (\<lambda>_ _. State_Monad.return (Inl (sentinel_error ErrCacheMiss))),
      enr_cache_set = (\<lambda>_ _ _ _. State_Monad.return (Inr ())), enr_audit = None\<rparr>"

text \<open>Enrichment fails open: whatever the metadata cache and the enrichment sources do, the only
  error it can return is the fail-closed audit error, so without such an audit sink it always yields
  metadata or none.\<close>

lemma enrichment_fails_open:
  assumes "\<And>svc. enr_audit esvc = Some svc \<Longrightarrow> aud_failure_mode svc \<noteq> AuditFailureModeFailClosed"
  shows "\<exists>m. fst (run_state (EnrichWithCorrelation rt esvc tenant correlation a) s) = Inr m"
proof (cases "run_state (EnrichWithCorrelation rt esvc tenant correlation a) s")
  case (Pair r s')
  show ?thesis
  proof (cases r)
    case (Inl e)
    have ok: "fst (run_state (RecordAudit rt (enr_audit esvc) ev) t) = Inr ()" for ev t
      by (rule record_audit_fail_open) (rule assms)
    have "fst (run_state (EnrichWithCorrelation rt esvc tenant correlation a) s) \<noteq> Inl e"
      using ok
      by (auto simp: enrichment_defs case_prod_beta split: sum.splits option.splits if_splits)
    with Pair Inl show ?thesis by simp
  qed (use Pair in simp)
qed

lemma enrichment_fails_open_witness:
  "\<exists>m. fst (run_state (EnrichWithCorrelation sample_runtime failing_enrichment ''t1'' ''r1'' sample_npm) ()) = Inr m"
  by (rule enrichment_fails_open) (simp add: failing_enrichment_def)

end
