(* ===== verification/Access_Service.thy ===== *)
theory Access_Service
  imports Enrichment_Service
begin

text \<open>
  The access-evaluation pipeline (\<open>internal/core/service/proxy.go\<close> and \<open>proxy_*.go\<close>): normalize,
  resolve mutable references, load and validate the policy set, attach the dependency context, look
  the decision up in the cache, enrich, evaluate, cache and record. Every step is the whole Go
  function with its audit events, early returns and ignored errors; the repositories, caches and
  clients behind it are ports over an arbitrary world.

  The lemmas give the contract of the pipeline: which decision a successful run can return, that an
  invalid policy set denies, that only audit and port failures turn into errors, and that requests
  for an unversioned npm package stay away from the decision cache.
\<close>

section \<open>The service\<close>

text \<open>\<open>x, err := m; if err != nil { return err }\<close>\<close>

definition on_ok :: "('s, 'a result) state \<Rightarrow> ('a \<Rightarrow> ('s, 'b result) state) \<Rightarrow> ('s, 'b result) state" where
  "on_ok m f = do { r \<leftarrow> m; (case r of Inl e \<Rightarrow> State_Monad.return (Inl e) | Inr a \<Rightarrow> f a) }"

text \<open>\<open>Record\<close> of the decision repository writes the identifier of the stored row into the decision;
  the port returns it beside the error.\<close>

record 's access_service =
  acc_list_policies :: "string \<Rightarrow> ('s, policy list result) state"
  acc_record_decision :: "decision \<Rightarrow> ('s, string \<times> unit result) state"
  acc_has_recent_allow :: "string \<Rightarrow> ecosystem_type \<Rightarrow> string \<Rightarrow> string \<Rightarrow> ('s, bool result) state"
  acc_cache_get :: "string \<Rightarrow> artifact_identity \<Rightarrow> string \<Rightarrow> ('s, decision result) state"
  acc_cache_set :: "decision \<Rightarrow> duration \<Rightarrow> ('s, unit result) state"
  acc_dependencies :: "'s dependency_context_service option"
  acc_enrichment :: "'s enrichment_service"
  acc_resolve_reference :: "upstream \<Rightarrow> artifact_identity \<Rightarrow> ('s, string result) state"
  acc_get_by_ecosystem :: "string \<Rightarrow> ecosystem_type \<Rightarrow> ('s, upstream result) state"
  acc_audit :: "'s audit_service option"
  acc_runtime :: "'s runtime"
  acc_sha256_hex :: "string \<Rightarrow> string"
  acc_json_marshal :: "hashable_policy list \<Rightarrow> string result"

definition mutableDecisionTTL :: duration where "mutableDecisionTTL = 5 * Minute"
definition immutableDecisionTTL :: duration where "immutableDecisionTTL = Hour"

definition recordAudit :: "'s access_service \<Rightarrow> audit_event \<Rightarrow> ('s, unit result) state" where
  "recordAudit svc event = RecordAudit (acc_runtime svc) (acc_audit svc) event"

definition access_event :: "access_request \<Rightarrow> audit_event_type \<Rightarrow> string \<Rightarrow> audit_event" where
  "access_event req event_type message =
     (new_event (req_tenant_id req) (req_request_id req) event_type ''core/access'' (req_artifact req) message)
     \<lparr>ev_upstream_id := up_id (req_upstream req)\<rparr>"

definition stage_error :: "string \<Rightarrow> go_error \<Rightarrow> audit_payload" where
  "stage_error stage e = [(''stage'', VString stage), (''error'', VString (err_text e))]"

section \<open>Predicates of the pipeline\<close>

definition filterPoliciesForUpstream :: "policy list \<Rightarrow> string \<Rightarrow> policy list" where
  "filterPoliciesForUpstream policies upstreamID =
     (if upstreamID = [] then policies
      else filter (\<lambda>p. \<not> (pol_upstream_id p \<noteq> [] \<and> pol_upstream_id p \<noteq> upstreamID)) policies)"

definition needsEnrichment :: "policy list \<Rightarrow> bool" where
  "needsEnrichment policies \<longleftrightarrow> (\<exists>p \<in> set policies. pol_enabled p \<and> RequiresExternalMetadata (pol_type p))"

definition needsDependencyContext :: "policy list \<Rightarrow> bool" where
  "needsDependencyContext policies \<longleftrightarrow> (\<exists>p \<in> set policies. pol_enabled p \<and> pol_target p \<noteq> None)"

definition isUnversionedNPMArtifact :: "artifact_identity \<Rightarrow> bool" where
  "isUnversionedNPMArtifact artifact \<longleftrightarrow> art_ecosystem artifact = EcosystemNPM \<and> art_version artifact = []"

definition shouldEnrichArtifact :: "access_request \<Rightarrow> policy list \<Rightarrow> bool" where
  "shouldEnrichArtifact req policies =
     (if isUnversionedNPMArtifact (req_artifact req) then False else needsEnrichment policies)"

definition shouldCacheDecision :: "access_request \<Rightarrow> bool" where
  "shouldCacheDecision req \<longleftrightarrow> \<not> isUnversionedNPMArtifact (req_artifact req)"

definition shouldPersistDecision :: "access_request \<Rightarrow> decision \<Rightarrow> bool" where
  "shouldPersistDecision req d \<longleftrightarrow>
     \<not> (isUnversionedNPMArtifact (req_artifact req) \<and> dec_outcome d = DecisionAllow)"

definition shouldResolveDependencyContext :: "access_request \<Rightarrow> policy list \<Rightarrow> bool" where
  "shouldResolveDependencyContext req policies \<longleftrightarrow>
     art_ecosystem (req_artifact req) = EcosystemNPM \<and> art_version (req_artifact req) \<noteq> [] \<and>
     \<not> IsNPMDistTag (req_artifact req) \<and> needsDependencyContext policies"

definition metadataSummary :: "'s access_service \<Rightarrow> artifact_metadata option \<Rightarrow> audit_payload" where
  "metadataSummary svc metadata =
     (case metadata of
        None \<Rightarrow> [(''available'', VBool False)]
      | Some m \<Rightarrow>
          [(''available'', VBool True),
           (''license_count'', VInt (int (length (meta_licenses m)))),
           (''vulnerability_count'', VInt (int (length (meta_vulnerabilities m)))),
           (''mutable_tag_detected'', VBool (meta_is_mutable_tag m))] @
          (case meta_published_at m of None \<Rightarrow> [] | Some t \<Rightarrow> [(''published_at'', VTime t)]) @
          (case meta_max_cvss m of None \<Rightarrow> [] | Some v \<Rightarrow> [(''max_cvss'', VFloat v)]) @
          (if acc_audit svc \<noteq> None \<and> DetailLevel (acc_audit svc) = AuditDetailLevelFull then
             [(''licenses'', VStrings (meta_licenses m)),
              (''vulnerabilities'', VVulnerabilities (meta_vulnerabilities m))]
           else []))"

definition dependencyContextSummary :: "(string \<Rightarrow> string) \<Rightarrow> dependency_context option \<Rightarrow> audit_payload" where
  "dependencyContextSummary sha256_hex ctx =
     (case ctx of
        None \<Rightarrow> [(''available'', VBool False)]
      | Some c \<Rightarrow>
          (let normalized = NormalizeContext sha256_hex c
           in [(''available'', VBool True), (''scope'', VString (dep_scope normalized)),
               (''dependency_types'', VStrings (dep_types normalized)),
               (''graph_ids'', VStrings (dep_graph_ids normalized)),
               (''context_hash'', VString (dep_context_hash normalized))]))"

definition dependencyContextCacheHash :: "(string \<Rightarrow> string) \<Rightarrow> dependency_context option \<Rightarrow> string" where
  "dependencyContextCacheHash sha256_hex ctx =
     (case ctx of None \<Rightarrow> [] | Some c \<Rightarrow> dep_context_hash (NormalizeContext sha256_hex c))"

section \<open>Normalization and reference resolution\<close>

definition normalizeAccessRequest ::
  "'s access_service \<Rightarrow> access_request \<Rightarrow> ('s, access_request result) state" where
  "normalizeAccessRequest svc req =
     on_ok (recordAudit svc (access_event req AuditEventEvaluationStarted ''evaluation started''))
       (\<lambda>_. case NormalizeArtifactIdentity (req_artifact req) of
          Inl err \<Rightarrow>
            do {
              _ \<leftarrow> recordAudit svc ((access_event req AuditEventError ''artifact normalization failed'')
                \<lparr>ev_payload := Some (stage_error ''normalize_artifact'' err)\<rparr>);
              State_Monad.return (Inl (wrap_error ''normalizing artifact'' err))
            }
        | Inr normalized \<Rightarrow>
            (let req' = req\<lparr>req_artifact := normalized\<rparr>
             in on_ok (recordAudit svc ((access_event req' AuditEventArtifactNormalized ''artifact normalized'')
                  \<lparr>ev_payload := Some [(''original_artifact'', VArtifact (req_artifact req))]\<rparr>))
                  (\<lambda>_. State_Monad.return (Inr req'))))"

definition resolveMutableOCIReference ::
  "'s access_service \<Rightarrow> access_request \<Rightarrow> ('s, (access_request \<times> bool) result) state" where
  "resolveMutableOCIReference svc req =
     (if art_ecosystem (req_artifact req) \<noteq> EcosystemOCI \<or> \<not> IsMutableReference (req_artifact req)
      then State_Monad.return (Inr (req, False))
      else do {
        up \<leftarrow> (if up_id (req_upstream req) = [] then
                do { r \<leftarrow> acc_get_by_ecosystem svc (req_tenant_id req) EcosystemOCI;
                     State_Monad.return (case r of Inl _ \<Rightarrow> req_upstream req | Inr u \<Rightarrow> u) }
              else State_Monad.return (req_upstream req));
        (if up_id up = [] then State_Monad.return (Inr (req, True))
         else do {
           r \<leftarrow> acc_resolve_reference svc up (req_artifact req);
           (case r of
              Inl err \<Rightarrow>
                do {
                  _ \<leftarrow> recordAudit svc ((access_event req AuditEventError ''reference resolution failed'')
                    \<lparr>ev_upstream_id := up_id up, ev_payload := Some (stage_error ''resolve_reference'' err)\<rparr>);
                  State_Monad.return (Inr (req, True))
                }
            | Inr digest \<Rightarrow>
                (let req' = req\<lparr>req_artifact := (req_artifact req)\<lparr>art_digest := digest\<rparr>\<rparr>
                 in on_ok (recordAudit svc ((access_event req' AuditEventReferenceResolved
                        ''mutable OCI reference resolved to digest'')
                      \<lparr>ev_upstream_id := up_id up,
                       ev_payload := Some [(''resolved_digest'', VString digest)]\<rparr>))
                      (\<lambda>_. State_Monad.return (Inr (req', True)))))
         })
      })"

definition resolveMutableNPMReference ::
  "'s access_service \<Rightarrow> access_request \<Rightarrow> ('s, access_request result) state" where
  "resolveMutableNPMReference svc req =
     (if \<not> IsNPMDistTag (req_artifact req) then State_Monad.return (Inr req)
      else do {
        up \<leftarrow> (if up_id (req_upstream req) = [] then
                do { r \<leftarrow> acc_get_by_ecosystem svc (req_tenant_id req) EcosystemNPM;
                     State_Monad.return (case r of Inl _ \<Rightarrow> None | Inr u \<Rightarrow> Some u) }
              else State_Monad.return (Some (req_upstream req)));
        (case up of
           None \<Rightarrow> State_Monad.return (Inr req)
         | Some u \<Rightarrow>
             do {
               r \<leftarrow> acc_resolve_reference svc u (req_artifact req);
               (case r of
                  Inl err \<Rightarrow>
                    do {
                      _ \<leftarrow> recordAudit svc ((access_event req AuditEventError ''reference resolution failed'')
                        \<lparr>ev_upstream_id := up_id u, ev_payload := Some (stage_error ''resolve_reference'' err)\<rparr>);
                      State_Monad.return (Inr req)
                    }
                | Inr version \<Rightarrow>
                    (let distTag = art_version (req_artifact req);
                         req' = req\<lparr>req_artifact := (req_artifact req)\<lparr>art_version := version\<rparr>\<rparr>
                     in on_ok (recordAudit svc ((access_event req' AuditEventReferenceResolved
                            ''npm dist-tag resolved to version'')
                          \<lparr>ev_upstream_id := up_id u,
                           ev_payload := Some [(''dist_tag'', VString distTag),
                             (''resolved_version'', VString version)]\<rparr>))
                          (\<lambda>_. State_Monad.return (Inr req'))))
             })
      })"

section \<open>The policy set\<close>

definition zero_decision :: decision where
  "zero_decision =
     \<lparr>dec_id = [], dec_tenant_id = [],
      dec_artifact = \<lparr>art_ecosystem = [], art_namespace = [], art_name = [], art_version = [], art_digest = []\<rparr>,
      dec_outcome = DecisionAllow, dec_policy_id = [], dec_policy_hash = [], dec_dependency_context = None,
      dec_reason = [], dec_reasons = [], dec_warnings = [], dec_cached_at = None,
      dec_evaluated_at = zero_time\<rparr>"

definition decision_ttl :: "access_request \<Rightarrow> duration" where
  "decision_ttl req =
     (if IsMutableReference (req_artifact req) then mutableDecisionTTL else immutableDecisionTTL)"

definition denyForInvalidPolicySet ::
  "'s access_service \<Rightarrow> access_request \<Rightarrow> go_error \<Rightarrow> ('s, decision) state" where
  "denyForInvalidPolicySet svc req validationErr =
     do {
       _ \<leftarrow> recordAudit svc ((access_event req AuditEventError ''invalid policy set'')
         \<lparr>ev_payload := Some (stage_error ''validate_policies'' validationErr)\<rparr>);
       now \<leftarrow> time_now (acc_runtime svc);
       (let d = zero_decision
              \<lparr>dec_tenant_id := req_tenant_id req, dec_artifact := req_artifact req,
               dec_outcome := DecisionDeny, dec_reason := ''invalid policy configuration'',
               dec_reasons :=
                 [\<lparr>reason_policy_id = [], reason_policy_name = [],
                   reason_category = ReasonCategoryEvaluationError, reason_action = PolicyActionDeny,
                   reason_message = err_text validationErr\<rparr>],
               dec_evaluated_at := now\<rparr>
        in do {
          _ \<leftarrow> (if shouldCacheDecision req then acc_cache_set svc d (decision_ttl req)
                else State_Monad.return (Inr ()));
          (rid, r) \<leftarrow> acc_record_decision svc d;
          (case r of
             Inr _ \<Rightarrow> State_Monad.return (Inr ())
           | Inl e \<Rightarrow>
               recordAudit svc ((access_event req AuditEventError ''invalid-policy decision persistence failed'')
                 \<lparr>ev_outcome := Some (dec_outcome d),
                  ev_payload := Some (stage_error ''persist_invalid_policy_decision'' e)\<rparr>)) \<bind>
          (\<lambda>_. State_Monad.return (d\<lparr>dec_id := rid\<rparr>))
        })
     }"

datatype prepared_policy_set =
    PreparedPolicySet "policy list" string
  | InvalidPolicySet decision

definition deny_prepared ::
  "'s access_service \<Rightarrow> access_request \<Rightarrow> go_error \<Rightarrow> ('s, prepared_policy_set result) state" where
  "deny_prepared svc req e =
     do { d \<leftarrow> denyForInvalidPolicySet svc req e; State_Monad.return (Inr (InvalidPolicySet d)) }"

definition preparePolicySet ::
  "'s access_service \<Rightarrow> access_request \<Rightarrow> ('s, prepared_policy_set result) state" where
  "preparePolicySet svc req =
     do {
       r \<leftarrow> acc_list_policies svc (req_tenant_id req);
       (case r of
          Inl err \<Rightarrow>
            (if errors_is err ErrDeprecatedPolicyConfig then deny_prepared svc req err
             else do {
               _ \<leftarrow> recordAudit svc ((access_event req AuditEventError ''policy load failed'')
                 \<lparr>ev_payload := Some (stage_error ''load_policies'' err)\<rparr>);
               State_Monad.return (Inl (wrap_error ''loading policies'' err))
             })
        | Inr policies0 \<Rightarrow>
            (case ValidatePolicies policies0 of
               Inl err \<Rightarrow> deny_prepared svc req err
             | Inr policies \<Rightarrow>
                 (let effectivePolicies = filterPoliciesForUpstream policies (up_id (req_upstream req))
                  in case HashPolicies (acc_json_marshal svc) (acc_sha256_hex svc) effectivePolicies of
                       Inl err \<Rightarrow> deny_prepared svc req err
                     | Inr policyHash \<Rightarrow>
                         on_ok (recordAudit svc ((access_event req AuditEventPoliciesLoaded
                             ''policies loaded for evaluation'')
                           \<lparr>ev_payload := Some
                              [(''tenant_policy_count'', VInt (int (length policies))),
                               (''effective_policy_count'', VInt (int (length effectivePolicies))),
                               (''policy_hash'', VString policyHash)]\<rparr>))
                           (\<lambda>_. State_Monad.return (Inr (PreparedPolicySet effectivePolicies policyHash))))))
     }"

section \<open>Context, cache and enrichment\<close>

definition attachDependencyContext ::
  "'s access_service \<Rightarrow> access_request \<Rightarrow> policy list \<Rightarrow> ('s, access_request result) state" where
  "attachDependencyContext svc req policies =
     (if \<not> shouldResolveDependencyContext req policies then State_Monad.return (Inr req)
      else
        on_ok (ResolveContext (acc_sha256_hex svc) (acc_runtime svc) (acc_dependencies svc) req)
          (\<lambda>(c0, enqueued).
             let c = NormalizeContext (acc_sha256_hex svc) c0;
                 req' = req\<lparr>req_dependency_context := Some c\<rparr>;
                 message =
                   (if enqueued then ''dependency graph miss; resolver request enqueued''
                    else if dep_scope c = DependencyScopeUnknown then ''dependency graph context unknown''
                    else ''dependency graph context hit'')
             in on_ok (recordAudit svc ((access_event req' AuditEventDependencyGraphContext message)
                  \<lparr>ev_payload := Some
                     [(''stage'', VString ''dependency_context''),
                      (''dependency_context'', VMap (dependencyContextSummary (acc_sha256_hex svc) (Some c))),
                      (''resolver_enqueued'', VBool enqueued)]\<rparr>))
                  (\<lambda>_. State_Monad.return (Inr req'))))"

definition recordDecisionCacheMiss :: "'s access_service \<Rightarrow> access_request \<Rightarrow> ('s, unit result) state" where
  "recordDecisionCacheMiss svc req =
     recordAudit svc ((access_event req AuditEventDecisionCacheMiss ''decision cache miss'')
       \<lparr>ev_payload := Some [(''dependency_context'',
          VMap (dependencyContextSummary (acc_sha256_hex svc) (req_dependency_context req)))]\<rparr>)"

definition recordDecisionCacheLookupFailure ::
  "'s access_service \<Rightarrow> access_request \<Rightarrow> go_error \<Rightarrow> ('s, unit result) state" where
  "recordDecisionCacheLookupFailure svc req err =
     recordAudit svc ((access_event req AuditEventError ''decision cache lookup failed'')
       \<lparr>ev_payload := Some (stage_error ''decision_cache_lookup'' err)\<rparr>)"

definition useCachedDecision ::
  "'s access_service \<Rightarrow> access_request \<Rightarrow> decision \<Rightarrow> ('s, decision option result) state" where
  "useCachedDecision svc req cached0 =
     do {
       now \<leftarrow> time_now (acc_runtime svc);
       (let cached = cached0\<lparr>dec_cached_at := Some now\<rparr>
        in on_ok (recordAudit svc ((access_event req AuditEventDecisionCacheHit ''decision cache hit'')
             \<lparr>ev_outcome := Some (dec_outcome cached), ev_policy_id := dec_policy_id cached,
              ev_payload := Some [(''dependency_context'',
                VMap (dependencyContextSummary (acc_sha256_hex svc) (req_dependency_context req)))]\<rparr>))
             (\<lambda>_. State_Monad.return (Inr (Some cached))))
     }"

definition lookupCachedDecision ::
  "'s access_service \<Rightarrow> access_request \<Rightarrow> ('s, decision option result) state" where
  "lookupCachedDecision svc req =
     (if \<not> shouldCacheDecision req then State_Monad.return (Inr None)
      else do {
        r \<leftarrow> acc_cache_get svc (req_tenant_id req) (req_artifact req)
          (dependencyContextCacheHash (acc_sha256_hex svc) (req_dependency_context req));
        (case r of
           Inr cached \<Rightarrow> useCachedDecision svc req cached
         | Inl err \<Rightarrow>
             (if \<not> errors_is err ErrCacheMiss then
                do { _ \<leftarrow> recordDecisionCacheLookupFailure svc req err; State_Monad.return (Inr None) }
              else on_ok (recordDecisionCacheMiss svc req) (\<lambda>_. State_Monad.return (Inr None))))
      })"

definition enrichArtifact ::
  "'s access_service \<Rightarrow> access_request \<Rightarrow> ('s, artifact_metadata option result) state" where
  "enrichArtifact svc req =
     on_ok (recordAudit svc (access_event req AuditEventEnrichmentStarted ''artifact enrichment started''))
       (\<lambda>_. do {
          r \<leftarrow> EnrichWithCorrelation (acc_runtime svc) (acc_enrichment svc) (req_tenant_id req)
            (req_request_id req) (req_artifact req);
          (case r of
             Inl err \<Rightarrow>
               do {
                 _ \<leftarrow> recordAudit svc ((access_event req AuditEventError ''artifact enrichment failed'')
                   \<lparr>ev_payload := Some (stage_error ''enrichment'' err)\<rparr>);
                 State_Monad.return (Inl (wrap_error ''enriching artifact'' err))
               }
           | Inr metadata \<Rightarrow> State_Monad.return (Inr metadata))
        })"

definition applyMutableTagMetadata :: "access_request \<Rightarrow> bool \<Rightarrow> access_request" where
  "applyMutableTagMetadata req wasMutableTag =
     (if \<not> wasMutableTag then req
      else req\<lparr>req_metadata :=
        Some ((case req_metadata req of None \<Rightarrow> empty_metadata | Some m \<Rightarrow> m)\<lparr>meta_is_mutable_tag := True\<rparr>)\<rparr>)"

section \<open>Evaluation\<close>

fun record_reasons_loop ::
  "'s access_service \<Rightarrow> access_request \<Rightarrow> decision \<Rightarrow> evaluation_reason list \<Rightarrow> ('s, unit result) state" where
  "record_reasons_loop svc req d [] = State_Monad.return (Inr ())"
| "record_reasons_loop svc req d (reason # rest) =
     on_ok (recordAudit svc ((access_event req AuditEventPolicyMatched (reason_message reason))
         \<lparr>ev_policy_id := reason_policy_id reason, ev_outcome := Some (dec_outcome d),
          ev_payload := Some [(''policy_name'', VString (reason_policy_name reason)),
            (''category'', VCategory (reason_category reason)),
            (''action'', VString (reason_action reason))]\<rparr>))
       (\<lambda>_. record_reasons_loop svc req d rest)"

definition evaluatePolicies ::
  "'s access_service \<Rightarrow> access_request \<Rightarrow> policy list \<Rightarrow> string \<Rightarrow> artifact_metadata option \<Rightarrow>
   ('s, decision result) state" where
  "evaluatePolicies svc req policies policyHash metadata =
     do {
       now \<leftarrow> time_now (acc_runtime svc);
       (let d0 = Evaluate (acc_sha256_hex svc) now req policies;
            d = d0\<lparr>dec_policy_hash := policyHash,
                   dec_dependency_context :=
                     (case req_dependency_context req of
                        None \<Rightarrow> dec_dependency_context d0
                      | Some c \<Rightarrow> Some (NormalizeContext (acc_sha256_hex svc) c))\<rparr>
        in on_ok (record_reasons_loop svc req d (dec_reasons d))
             (\<lambda>_. if \<not> shouldPersistDecision req d then State_Monad.return (Inr d)
              else on_ok (recordAudit svc ((access_event req AuditEventDecisionComputed ''decision computed'')
                  \<lparr>ev_policy_id := dec_policy_id d, ev_outcome := Some (dec_outcome d),
                   ev_artifact := dec_artifact d,
                   ev_payload := Some
                     [(''reason'', VString (dec_reason d)), (''warnings'', VStrings (dec_warnings d)),
                      (''reason_count'', VInt (int (length (dec_reasons d)))),
                      (''metadata_available'', VBool (metadata \<noteq> None)),
                      (''metadata_summary'', VMap (metadataSummary svc metadata)),
                      (''dependency_context'',
                        VMap (dependencyContextSummary (acc_sha256_hex svc) (dec_dependency_context d)))]\<rparr>))
                  (\<lambda>_. State_Monad.return (Inr d))))
     }"

text \<open>\<open>finalizeDecision\<close> gets the decision by pointer: the result is the decision as the repository
  leaves it.\<close>

definition finalizeDecision ::
  "'s access_service \<Rightarrow> access_request \<Rightarrow> decision \<Rightarrow> ('s, decision result) state" where
  "finalizeDecision svc req d0 =
     do {
       _ \<leftarrow> (if shouldCacheDecision req then acc_cache_set svc d0 (decision_ttl req)
             else State_Monad.return (Inr ()));
       (if \<not> shouldPersistDecision req d0 then State_Monad.return (Inr d0)
        else do {
          (rid, r) \<leftarrow> acc_record_decision svc d0;
          (let d = d0\<lparr>dec_id := rid\<rparr>
           in case r of
                Inl recordErr \<Rightarrow>
                  do {
                    _ \<leftarrow> recordAudit svc ((access_event req AuditEventError ''decision persistence failed'')
                      \<lparr>ev_policy_id := dec_policy_id d, ev_outcome := Some (dec_outcome d),
                       ev_artifact := dec_artifact d,
                       ev_payload := Some (stage_error ''persist_decision'' recordErr)\<rparr>);
                    State_Monad.return (Inr d)
                  }
              | Inr _ \<Rightarrow>
                  on_ok (recordAudit svc ((access_event req AuditEventDecisionPersisted ''decision persisted'')
                      \<lparr>ev_entity_type := ''decision'', ev_entity_id := dec_id d,
                       ev_policy_id := dec_policy_id d, ev_outcome := Some (dec_outcome d),
                       ev_artifact := dec_artifact d,
                       ev_payload := Some
                         [(''policy_hash'', VString (dec_policy_hash d)),
                          (''dependency_context'',
                            VMap (dependencyContextSummary (acc_sha256_hex svc) (dec_dependency_context d)))]\<rparr>))
                    (\<lambda>_. State_Monad.return (Inr d)))
        })
     }"

text \<open>Steps 5 to 8. The metadata the audit summary reads is the object the mutable-tag flag was
  written into, when there is one.\<close>

definition evaluate_fresh ::
  "'s access_service \<Rightarrow> access_request \<Rightarrow> bool \<Rightarrow> policy list \<Rightarrow> string \<Rightarrow> artifact_metadata option \<Rightarrow>
   ('s, decision result) state" where
  "evaluate_fresh svc req0 wasMutableTag policies policyHash metadata =
     (let req = applyMutableTagMetadata req0 wasMutableTag;
          seen = (case metadata of None \<Rightarrow> None | Some _ \<Rightarrow> req_metadata req)
      in on_ok (evaluatePolicies svc req policies policyHash seen)
           (\<lambda>d. finalizeDecision svc req d))"

text \<open>The pipeline after a cache miss, and steps 3 to 8 with the prepared policy set.\<close>

definition enrich_and_evaluate ::
  "'s access_service \<Rightarrow> access_request \<Rightarrow> bool \<Rightarrow> policy list \<Rightarrow> string \<Rightarrow> ('s, decision result) state" where
  "enrich_and_evaluate svc req wasMutableTag policies policyHash =
     (if shouldEnrichArtifact req policies then
        on_ok (enrichArtifact svc req)
          (\<lambda>metadata. evaluate_fresh svc (req\<lparr>req_metadata := metadata\<rparr>) wasMutableTag
             policies policyHash metadata)
      else evaluate_fresh svc req wasMutableTag policies policyHash None)"

definition evaluate_prepared ::
  "'s access_service \<Rightarrow> access_request \<Rightarrow> bool \<Rightarrow> policy list \<Rightarrow> string \<Rightarrow> ('s, decision result) state" where
  "evaluate_prepared svc req3 wasMutableTag policies policyHash =
     on_ok (attachDependencyContext svc req3 policies)
      (\<lambda>req4. on_ok (lookupCachedDecision svc req4)
      (\<lambda>cached. case cached of
         Some d \<Rightarrow> State_Monad.return (Inr d)
       | None \<Rightarrow> enrich_and_evaluate svc req4 wasMutableTag policies policyHash))"

definition EvaluateAccess :: "'s access_service \<Rightarrow> access_request \<Rightarrow> ('s, decision result) state" where
  "EvaluateAccess svc req0 =
     on_ok (normalizeAccessRequest svc req0)
      (\<lambda>req1. on_ok (resolveMutableOCIReference svc req1)
      (\<lambda>(req2, wasMutableTag). on_ok (resolveMutableNPMReference svc req2)
      (\<lambda>req3. on_ok (preparePolicySet svc req3)
      (\<lambda>prepared. case prepared of
         InvalidPolicySet d \<Rightarrow> State_Monad.return (Inr d)
       | PreparedPolicySet policies policyHash \<Rightarrow>
           evaluate_prepared svc req3 wasMutableTag policies policyHash))))"

definition HasRecentAllow ::
  "'s access_service \<Rightarrow> string \<Rightarrow> artifact_identity \<Rightarrow> ('s, bool result) state" where
  "HasRecentAllow svc tenantID artifact =
     acc_has_recent_allow svc tenantID (art_ecosystem artifact) (art_namespace artifact) (art_name artifact)"

section \<open>Runs of the pipeline\<close>

lemma run_on_ok:
  "run_state (on_ok m f) s =
   (case run_state m s of (Inl e, s1) \<Rightarrow> (Inl e, s1) | (Inr a, s1) \<Rightarrow> run_state (f a) s1)"
  by (simp add: on_ok_def split: prod.split sum.split)

lemma on_ok_InrE:
  assumes "run_state (on_ok m f) s = (Inr b, s')"
  obtains a s1 where "run_state m s = (Inr a, s1)" "run_state (f a) s1 = (Inr b, s')"
  using assms by (auto simp: run_on_ok split: prod.splits sum.splits)

lemma on_ok_InlE:
  assumes "run_state (on_ok m f) s = (Inl e, s')"
  obtains (first) "run_state m s = (Inl e, s')"
    | (later) a s1 where "run_state m s = (Inr a, s1)" "run_state (f a) s1 = (Inl e, s')"
  using assms by (auto simp: run_on_ok split: prod.splits sum.splits)

lemma on_ok_cong_run:
  assumes "\<And>a s1. run_state m s = (Inr a, s1) \<Longrightarrow> run_state (f a) s1 = run_state (g a) s1"
  shows "run_state (on_ok m f) s = run_state (on_ok m g) s"
  using assms by (auto simp: run_on_ok split: prod.splits sum.splits)

subsection \<open>Normalization and resolution\<close>

lemma normalize_request_Inr:
  assumes "run_state (normalizeAccessRequest svc req) s = (Inr req', s')"
  obtains a where "NormalizeArtifactIdentity (req_artifact req) = Inr a" "req' = req\<lparr>req_artifact := a\<rparr>"
  using assms
  by (auto simp: normalizeAccessRequest_def Let_def elim!: on_ok_InrE split: sum.splits prod.splits)

lemma resolve_oci_Inr:
  assumes "run_state (resolveMutableOCIReference svc req) s = (Inr (req', m), s')"
  obtains (same) "req' = req"
    | (digest) g where "req' = req\<lparr>req_artifact := (req_artifact req)\<lparr>art_digest := g\<rparr>\<rparr>"
        "art_ecosystem (req_artifact req) = EcosystemOCI"
  using assms
  by (auto simp: resolveMutableOCIReference_def Let_def elim!: on_ok_InrE
      split: if_splits sum.splits prod.splits)

lemma resolve_npm_Inr:
  assumes "run_state (resolveMutableNPMReference svc req) s = (Inr req', s')"
  obtains (same) "req' = req"
    | (version) v where "req' = req\<lparr>req_artifact := (req_artifact req)\<lparr>art_version := v\<rparr>\<rparr>"
        "IsNPMDistTag (req_artifact req)"
  using assms
  by (auto simp: resolveMutableNPMReference_def Let_def elim!: on_ok_InrE
      split: if_splits option.splits sum.splits prod.splits)

subsection \<open>The policy set\<close>

lemma deny_invalid_outcome:
  assumes "run_state (denyForInvalidPolicySet svc req e) s = (d, s')"
  shows "dec_outcome d = DecisionDeny" "dec_artifact d = req_artifact req"
    "dec_tenant_id d = req_tenant_id req"
  using assms
  by (auto simp: denyForInvalidPolicySet_def Let_def split: prod.splits)

lemma prepare_Invalid:
  assumes "run_state (preparePolicySet svc req) s = (Inr (InvalidPolicySet d), s')"
  shows "dec_outcome d = DecisionDeny" "dec_artifact d = req_artifact req" "dec_tenant_id d = req_tenant_id req"
  using assms
  by (auto simp: preparePolicySet_def deny_prepared_def Let_def deny_invalid_outcome elim!: on_ok_InrE
      split: sum.splits prod.splits if_splits)

lemma prepare_Prepared:
  assumes "run_state (preparePolicySet svc req) s = (Inr (PreparedPolicySet ps h), s')"
  obtains ps0 qs s1 where "run_state (acc_list_policies svc (req_tenant_id req)) s = (Inr ps0, s1)"
    "ValidatePolicies ps0 = Inr qs" "ps = filterPoliciesForUpstream qs (up_id (req_upstream req))"
    "HashPolicies (acc_json_marshal svc) (acc_sha256_hex svc) ps = Inr h"
  using assms
  by (auto simp: preparePolicySet_def deny_prepared_def Let_def elim!: on_ok_InrE
      split: sum.splits prod.splits if_splits)

subsection \<open>Context, cache and evaluation\<close>

lemma self_update [simp]:
  "\<exists>c. req = req\<lparr>req_dependency_context := c\<rparr>" "\<exists>i. d = d\<lparr>dec_id := i\<rparr>"
  by (rule exI [of _ "req_dependency_context req"], simp) (rule exI [of _ "dec_id d"], simp)

lemma attach_context_Inr:
  assumes "run_state (attachDependencyContext svc req ps) s = (Inr req', s')"
  shows "\<exists>c. req' = req\<lparr>req_dependency_context := c\<rparr>"
  using assms
  by (auto simp: attachDependencyContext_def Let_def elim!: on_ok_InrE split: if_splits prod.splits)

lemma lookup_cached_Some:
  assumes "run_state (lookupCachedDecision svc req) s = (Inr (Some d), s')"
  obtains c t s1 where "shouldCacheDecision req"
    "run_state (acc_cache_get svc (req_tenant_id req) (req_artifact req)
       (dependencyContextCacheHash (acc_sha256_hex svc) (req_dependency_context req))) s = (Inr c, s1)"
    "d = c\<lparr>dec_cached_at := Some t\<rparr>"
  using assms
  by (auto simp: lookupCachedDecision_def useCachedDecision_def Let_def elim!: on_ok_InrE
      split: if_splits sum.splits prod.splits)

lemma evaluate_policies_Inr:
  assumes "run_state (evaluatePolicies svc req ps h m) s = (Inr d, s')"
  obtains now c where "d = (Evaluate (acc_sha256_hex svc) now req ps)
    \<lparr>dec_policy_hash := h, dec_dependency_context := c\<rparr>"
  using assms
  by (auto simp: evaluatePolicies_def Let_def elim!: on_ok_InrE split: if_splits)

lemma finalize_Inr:
  assumes "run_state (finalizeDecision svc req d) s = (Inr d', s')"
  shows "\<exists>i. d' = d\<lparr>dec_id := i\<rparr>"
  using assms
  by (auto simp: finalizeDecision_def Let_def elim!: on_ok_InrE split: if_splits prod.splits sum.splits)

section \<open>The contract\<close>

text \<open>Where the decision of a successful run comes from.\<close>

definition denied_invalid :: "access_request \<Rightarrow> decision \<Rightarrow> bool" where
  "denied_invalid req d \<longleftrightarrow> dec_outcome d = DecisionDeny \<and> dec_tenant_id d = req_tenant_id req"

definition served_from_cache :: "'s access_service \<Rightarrow> access_request \<Rightarrow> decision \<Rightarrow> bool" where
  "served_from_cache svc req d \<longleftrightarrow>
     (\<exists>artifact h c t s s'. \<not> isUnversionedNPMArtifact artifact \<and>
        run_state (acc_cache_get svc (req_tenant_id req) artifact h) s = (Inr c, s') \<and>
        d = c\<lparr>dec_cached_at := Some t\<rparr>)"

definition freshly_evaluated :: "'s access_service \<Rightarrow> access_request \<Rightarrow> decision \<Rightarrow> bool" where
  "freshly_evaluated svc req d \<longleftrightarrow>
     (\<exists>ps qs req' now c h i s s'.
        run_state (acc_list_policies svc (req_tenant_id req)) s = (Inr ps, s') \<and>
        ValidatePolicies ps = Inr qs \<and>
        req_tenant_id req' = req_tenant_id req \<and> req_upstream req' = req_upstream req \<and>
        d = (Evaluate (acc_sha256_hex svc) now req' (filterPoliciesForUpstream qs (up_id (req_upstream req))))
          \<lparr>dec_policy_hash := h, dec_dependency_context := c, dec_id := i\<rparr>)"

lemma evaluate_fresh_Inr:
  assumes "run_state (evaluate_fresh svc req m ps h meta) s = (Inr d, s')"
  obtains now c i where "d = (Evaluate (acc_sha256_hex svc) now (applyMutableTagMetadata req m) ps)
    \<lparr>dec_policy_hash := h, dec_dependency_context := c, dec_id := i\<rparr>"
proof -
  from assms obtain d1 s1 seen where
    e: "run_state (evaluatePolicies svc (applyMutableTagMetadata req m) ps h seen) s = (Inr d1, s1)"
    and f: "run_state (finalizeDecision svc (applyMutableTagMetadata req m) d1) s1 = (Inr d, s')"
    by (auto simp: evaluate_fresh_def Let_def elim!: on_ok_InrE)
  from e obtain now c where "d1 = (Evaluate (acc_sha256_hex svc) now (applyMutableTagMetadata req m) ps)
    \<lparr>dec_policy_hash := h, dec_dependency_context := c\<rparr>" by (rule evaluate_policies_Inr)
  moreover from finalize_Inr [OF f] obtain i where "d = d1\<lparr>dec_id := i\<rparr>" ..
  ultimately show ?thesis using that by simp
qed

lemma apply_mutable_tag_keeps [simp]:
  "req_tenant_id (applyMutableTagMetadata req m) = req_tenant_id req"
  "req_upstream (applyMutableTagMetadata req m) = req_upstream req"
  "req_artifact (applyMutableTagMetadata req m) = req_artifact req"
  "req_dependency_context (applyMutableTagMetadata req m) = req_dependency_context req"
  by (simp_all add: applyMutableTagMetadata_def)

lemma evaluate_prepared_Inr:
  assumes "run_state (evaluate_prepared svc req m ps h) s = (Inr d, s')"
  obtains (cached) "served_from_cache svc req d"
    | (fresh) req' now c i where
        "req_tenant_id req' = req_tenant_id req" "req_upstream req' = req_upstream req"
        "req_artifact req' = req_artifact req"
        "d = (Evaluate (acc_sha256_hex svc) now req' ps)
          \<lparr>dec_policy_hash := h, dec_dependency_context := c, dec_id := i\<rparr>"
proof -
  from assms obtain req4 hit s5 s6 where
    a: "run_state (attachDependencyContext svc req ps) s = (Inr req4, s5)"
    and l: "run_state (lookupCachedDecision svc req4) s5 = (Inr hit, s6)"
    and e: "run_state (case hit of
         Some d \<Rightarrow> State_Monad.return (Inr d)
       | None \<Rightarrow> enrich_and_evaluate svc req4 m ps h) s6 = (Inr d, s')"
    by (auto simp: evaluate_prepared_def elim!: on_ok_InrE)
  from attach_context_Inr [OF a] have k4: "req_tenant_id req4 = req_tenant_id req"
    "req_upstream req4 = req_upstream req" "req_artifact req4 = req_artifact req" by auto
  show ?thesis
  proof (cases hit)
    case (Some d')
    from l [unfolded Some] obtain c t s1 where
      "shouldCacheDecision req4"
      "run_state (acc_cache_get svc (req_tenant_id req4) (req_artifact req4)
         (dependencyContextCacheHash (acc_sha256_hex svc) (req_dependency_context req4))) s5 = (Inr c, s1)"
      "d' = c\<lparr>dec_cached_at := Some t\<rparr>" by (rule lookup_cached_Some)
    moreover from e Some have "d = d'" by simp
    ultimately have "served_from_cache svc req d"
      using k4 unfolding served_from_cache_def shouldCacheDecision_def by metis
    then show ?thesis by (rule cached)
  next
    case None
    with e obtain req5 meta s7 where f: "run_state (evaluate_fresh svc req5 m ps h meta) s7 = (Inr d, s')"
      and k5: "req_tenant_id req5 = req_tenant_id req4" "req_upstream req5 = req_upstream req4"
        "req_artifact req5 = req_artifact req4"
      by (auto simp: enrich_and_evaluate_def elim!: on_ok_InrE split: if_splits)
    from f obtain now c i where "d = (Evaluate (acc_sha256_hex svc) now (applyMutableTagMetadata req5 m) ps)
      \<lparr>dec_policy_hash := h, dec_dependency_context := c, dec_id := i\<rparr>" by (rule evaluate_fresh_Inr)
    with k4 k5 show ?thesis by (intro fresh [of "applyMutableTagMetadata req5 m"]) auto
  qed
qed

lemma access_prepared:
  assumes "run_state (EvaluateAccess svc req) s = (Inr d, s')"
  obtains req3 m prepared s1 s2 where
    "req_tenant_id req3 = req_tenant_id req" "req_upstream req3 = req_upstream req"
    "run_state (preparePolicySet svc req3) s1 = (Inr prepared, s2)"
    "run_state (case prepared of
       InvalidPolicySet d \<Rightarrow> State_Monad.return (Inr d)
     | PreparedPolicySet ps h \<Rightarrow> evaluate_prepared svc req3 m ps h) s2 = (Inr d, s')"
proof -
  from assms obtain req1 req2 req3 m prepared s1 s2 s3 s4 where
    r: "run_state (normalizeAccessRequest svc req) s = (Inr req1, s1)"
      "run_state (resolveMutableOCIReference svc req1) s1 = (Inr (req2, m), s2)"
      "run_state (resolveMutableNPMReference svc req2) s2 = (Inr req3, s3)"
    and p: "run_state (preparePolicySet svc req3) s3 = (Inr prepared, s4)"
      "run_state (case prepared of
         InvalidPolicySet d \<Rightarrow> State_Monad.return (Inr d)
       | PreparedPolicySet ps h \<Rightarrow> evaluate_prepared svc req3 m ps h) s4 = (Inr d, s')"
    unfolding EvaluateAccess_def by (auto elim!: on_ok_InrE split: prod.splits)
  have "req_tenant_id req3 = req_tenant_id req" "req_upstream req3 = req_upstream req"
    using r by (auto elim!: normalize_request_Inr resolve_oci_Inr resolve_npm_Inr)
  with p show ?thesis by (intro that [of req3 s3 prepared s4 m])
qed

lemma access_decision_source:
  assumes "run_state (EvaluateAccess svc req) s = (Inr d, s')"
  shows "denied_invalid req d \<or> served_from_cache svc req d \<or> freshly_evaluated svc req d"
  using assms
proof (rule access_prepared)
  fix req3 m prepared s1 s2
  assume k: "req_tenant_id req3 = req_tenant_id req" "req_upstream req3 = req_upstream req"
    and p: "run_state (preparePolicySet svc req3) s1 = (Inr prepared, s2)"
    and rest: "run_state (case prepared of
       InvalidPolicySet d \<Rightarrow> State_Monad.return (Inr d)
     | PreparedPolicySet ps h \<Rightarrow> evaluate_prepared svc req3 m ps h) s2 = (Inr d, s')"
  show ?thesis
  proof (cases prepared)
    case (InvalidPolicySet d')
    with rest have "d = d'" by simp
    with prepare_Invalid [of svc req3 s1 d' s2] p InvalidPolicySet k show ?thesis
      by (simp add: denied_invalid_def)
  next
    case (PreparedPolicySet ps h)
    with p obtain ps0 qs s0 where q: "run_state (acc_list_policies svc (req_tenant_id req3)) s1 = (Inr ps0, s0)"
      "ValidatePolicies ps0 = Inr qs" "ps = filterPoliciesForUpstream qs (up_id (req_upstream req3))"
      by (auto elim: prepare_Prepared)
    from rest PreparedPolicySet have "run_state (evaluate_prepared svc req3 m ps h) s2 = (Inr d, s')" by simp
    then show ?thesis
    proof (cases rule: evaluate_prepared_Inr)
      case cached
      with k show ?thesis by (simp add: served_from_cache_def)
    next
      case (fresh req' now c i)
      with q k have "freshly_evaluated svc req d" unfolding freshly_evaluated_def by metis
      then show ?thesis by blast
    qed
  qed
qed

text \<open>A policy set that does not validate denies every request that reaches it.\<close>

lemma access_invalid_denies:
  assumes "\<And>s. \<exists>ps e. fst (run_state (acc_list_policies svc (req_tenant_id req)) s) = Inr ps \<and>
      ValidatePolicies ps = Inl e"
    and "run_state (EvaluateAccess svc req) s = (Inr d, s')"
  shows "dec_outcome d = DecisionDeny"
  using assms(2)
proof (rule access_prepared)
  fix req3 m prepared s1 s2
  assume k: "req_tenant_id req3 = req_tenant_id req"
    and p: "run_state (preparePolicySet svc req3) s1 = (Inr prepared, s2)"
    and rest: "run_state (case prepared of
       InvalidPolicySet d \<Rightarrow> State_Monad.return (Inr d)
     | PreparedPolicySet ps h \<Rightarrow> evaluate_prepared svc req3 m ps h) s2 = (Inr d, s')"
  show ?thesis
  proof (cases prepared)
    case (InvalidPolicySet d')
    with rest p show ?thesis by (auto dest: prepare_Invalid)
  next
    case (PreparedPolicySet ps h)
    with p k obtain ps0 qs s0 where "run_state (acc_list_policies svc (req_tenant_id req)) s1 = (Inr ps0, s0)"
      "ValidatePolicies ps0 = Inr qs" by (auto elim: prepare_Prepared)
    with assms(1) [of s1] show ?thesis by auto
  qed
qed

section \<open>Errors of the pipeline\<close>

text \<open>The errors a run can return: a fail-closed audit sink, an artifact that does not normalize, a
  failed policy load, a failed graph lookup. Cache, enrichment, reference-resolution and persistence
  failures never do.\<close>

definition audit_down :: "go_error \<Rightarrow> bool" where
  "audit_down e \<longleftrightarrow> errors_is e ErrAuditUnavailable"

lemma record_audit_down: "run_state (recordAudit svc ev) s = (Inl e, s') \<Longrightarrow> audit_down e"
  by (auto simp: recordAudit_def audit_down_def dest: record_audit_error)

lemma normalize_request_Inl:
  assumes "run_state (normalizeAccessRequest svc req) s = (Inl e, s')"
  obtains "audit_down e"
    | err where "NormalizeArtifactIdentity (req_artifact req) = Inl err"
        "e = wrap_error ''normalizing artifact'' err"
  using assms
  by (auto simp: normalizeAccessRequest_def Let_def dest: record_audit_down elim!: on_ok_InlE
      split: sum.splits prod.splits)

lemma resolve_Inl:
  "run_state (resolveMutableOCIReference svc req) s = (Inl e, s') \<Longrightarrow> audit_down e"
  "run_state (resolveMutableNPMReference svc req) s = (Inl e, s') \<Longrightarrow> audit_down e"
  by (auto simp: resolveMutableOCIReference_def resolveMutableNPMReference_def Let_def
      dest: record_audit_down elim!: on_ok_InlE split: if_splits option.splits sum.splits prod.splits)

lemma prepare_Inl:
  assumes "run_state (preparePolicySet svc req) s = (Inl e, s')"
  obtains "audit_down e"
    | err s1 s2 where "run_state (acc_list_policies svc (req_tenant_id req)) s1 = (Inl err, s2)"
        "e = wrap_error ''loading policies'' err"
  using assms
  by (auto simp: preparePolicySet_def deny_prepared_def Let_def dest: record_audit_down elim!: on_ok_InlE
      split: if_splits sum.splits prod.splits)

lemma attach_Inl:
  assumes "run_state (attachDependencyContext svc req ps) s = (Inl e, s')"
  obtains "audit_down e" | err where "e = wrap_error ''looking up dependency context'' err"
  using assms
  by (auto simp: attachDependencyContext_def ResolveContext_def lookupStoredContext_def Let_def
      dest: record_audit_down elim!: on_ok_InlE split: if_splits option.splits sum.splits prod.splits)

lemma lookup_Inl: "run_state (lookupCachedDecision svc req) s = (Inl e, s') \<Longrightarrow> audit_down e"
  by (auto simp: lookupCachedDecision_def useCachedDecision_def recordDecisionCacheMiss_def Let_def
      dest: record_audit_down elim!: on_ok_InlE split: if_splits sum.splits prod.splits)

lemma enrich_down:
  "run_state (EnrichWithCorrelation rt esvc t c a) s = (Inl e, s') \<Longrightarrow> audit_down (wrap_error x e)"
  by (drule enrich_error_is_audit) (simp add: audit_down_def)

lemma enrich_Inl: "run_state (enrichArtifact svc req) s = (Inl e, s') \<Longrightarrow> audit_down e"
  by (auto simp: enrichArtifact_def enrich_down dest: record_audit_down elim!: on_ok_InlE
      split: sum.splits prod.splits)

lemma record_reasons_Inl: "run_state (record_reasons_loop svc req d rs) s = (Inl e, s') \<Longrightarrow> audit_down e"
  by (induction rs arbitrary: s) (auto dest: record_audit_down elim!: on_ok_InlE)

lemma evaluate_fresh_Inl:
  "run_state (evaluate_fresh svc req m ps h meta) s = (Inl e, s') \<Longrightarrow> audit_down e"
  by (auto simp: evaluate_fresh_def evaluatePolicies_def finalizeDecision_def Let_def
      dest: record_audit_down record_reasons_Inl elim!: on_ok_InlE
      split: if_splits sum.splits prod.splits)

lemma evaluate_prepared_Inl:
  assumes "run_state (evaluate_prepared svc req m ps h) s = (Inl e, s')"
  obtains "audit_down e" | err where "e = wrap_error ''looking up dependency context'' err"
  using assms unfolding evaluate_prepared_def
proof (rule on_ok_InlE)
  assume "run_state (attachDependencyContext svc req ps) s = (Inl e, s')"
  then show ?thesis by (rule attach_Inl) (use that in blast)+
next
  fix req4 s1
  assume "run_state (on_ok (lookupCachedDecision svc req4) (\<lambda>cached. case cached of
      Some d \<Rightarrow> State_Monad.return (Inr d) | None \<Rightarrow> enrich_and_evaluate svc req4 m ps h)) s1 = (Inl e, s')"
  then have "audit_down e"
    by (auto simp: enrich_and_evaluate_def dest: lookup_Inl enrich_Inl evaluate_fresh_Inl
        elim!: on_ok_InlE split: option.splits if_splits)
  then show ?thesis by (rule that(1))
qed

lemma access_error_causes:
  assumes "run_state (EvaluateAccess svc req) s = (Inl e, s')"
  obtains (audit) "audit_down e"
    | (artifact) err where "NormalizeArtifactIdentity (req_artifact req) = Inl err"
        "e = wrap_error ''normalizing artifact'' err"
    | (policies) err s1 s2 where "run_state (acc_list_policies svc (req_tenant_id req)) s1 = (Inl err, s2)"
        "e = wrap_error ''loading policies'' err"
    | (graph) err where "e = wrap_error ''looking up dependency context'' err"
  using assms unfolding EvaluateAccess_def
proof (rule on_ok_InlE)
  assume "run_state (normalizeAccessRequest svc req) s = (Inl e, s')"
  then show ?thesis by (rule normalize_request_Inl) (use audit artifact in blast)+
next
  fix req1 s1
  assume r1: "run_state (normalizeAccessRequest svc req) s = (Inr req1, s1)"
    and rest: "run_state (on_ok (resolveMutableOCIReference svc req1)
      (\<lambda>(req2, m). on_ok (resolveMutableNPMReference svc req2)
      (\<lambda>req3. on_ok (preparePolicySet svc req3)
      (\<lambda>prepared. case prepared of
         InvalidPolicySet d \<Rightarrow> State_Monad.return (Inr d)
       | PreparedPolicySet ps hash \<Rightarrow> evaluate_prepared svc req3 m ps hash)))) s1 = (Inl e, s')"
  from rest show ?thesis
  proof (rule on_ok_InlE)
    assume "run_state (resolveMutableOCIReference svc req1) s1 = (Inl e, s')"
    then show ?thesis by (intro audit resolve_Inl)
  next
    fix p s2
    assume r2: "run_state (resolveMutableOCIReference svc req1) s1 = (Inr p, s2)"
      and "run_state (case p of (req2, m) \<Rightarrow> on_ok (resolveMutableNPMReference svc req2)
      (\<lambda>req3. on_ok (preparePolicySet svc req3)
      (\<lambda>prepared. case prepared of
         InvalidPolicySet d \<Rightarrow> State_Monad.return (Inr d)
       | PreparedPolicySet ps hash \<Rightarrow> evaluate_prepared svc req3 m ps hash))) s2 = (Inl e, s')"
    then obtain req2 m where p: "p = (req2, m)" and "run_state (on_ok (resolveMutableNPMReference svc req2)
      (\<lambda>req3. on_ok (preparePolicySet svc req3)
      (\<lambda>prepared. case prepared of
         InvalidPolicySet d \<Rightarrow> State_Monad.return (Inr d)
       | PreparedPolicySet ps hash \<Rightarrow> evaluate_prepared svc req3 m ps hash))) s2 = (Inl e, s')"
      by (cases p) simp
    from this(2) show ?thesis
    proof (rule on_ok_InlE)
      assume "run_state (resolveMutableNPMReference svc req2) s2 = (Inl e, s')"
      then show ?thesis by (intro audit resolve_Inl)
    next
      fix req3 s3
      assume r3: "run_state (resolveMutableNPMReference svc req2) s2 = (Inr req3, s3)"
        and q: "run_state (on_ok (preparePolicySet svc req3)
        (\<lambda>prepared. case prepared of
           InvalidPolicySet d \<Rightarrow> State_Monad.return (Inr d)
         | PreparedPolicySet ps hash \<Rightarrow> evaluate_prepared svc req3 m ps hash)) s3 = (Inl e, s')"
      have k: "req_tenant_id req3 = req_tenant_id req"
        using r1 r2 [unfolded p] r3
        by (auto elim!: normalize_request_Inr resolve_oci_Inr resolve_npm_Inr)
      from q show ?thesis
        by (rule on_ok_InlE)
          (auto simp: k elim!: prepare_Inl evaluate_prepared_Inl intro: audit policies graph
            split: prepared_policy_set.splits)
    qed
  qed
qed

section \<open>Unversioned npm requests\<close>

text \<open>The service with another decision cache.\<close>

definition with_cache ::
  "'s access_service \<Rightarrow> (string \<Rightarrow> artifact_identity \<Rightarrow> string \<Rightarrow> ('s, decision result) state) \<Rightarrow>
   (decision \<Rightarrow> duration \<Rightarrow> ('s, unit result) state) \<Rightarrow> 's access_service" where
  "with_cache svc get put = svc\<lparr>acc_cache_get := get, acc_cache_set := put\<rparr>"

lemma with_cache_fields [simp]:
  "acc_list_policies (with_cache svc g h) = acc_list_policies svc"
  "acc_record_decision (with_cache svc g h) = acc_record_decision svc"
  "acc_dependencies (with_cache svc g h) = acc_dependencies svc"
  "acc_enrichment (with_cache svc g h) = acc_enrichment svc"
  "acc_resolve_reference (with_cache svc g h) = acc_resolve_reference svc"
  "acc_get_by_ecosystem (with_cache svc g h) = acc_get_by_ecosystem svc"
  "acc_audit (with_cache svc g h) = acc_audit svc"
  "acc_runtime (with_cache svc g h) = acc_runtime svc"
  "acc_sha256_hex (with_cache svc g h) = acc_sha256_hex svc"
  "acc_json_marshal (with_cache svc g h) = acc_json_marshal svc"
  by (simp_all add: with_cache_def)

lemma with_cache_audit [simp]: "recordAudit (with_cache svc g h) ev = recordAudit svc ev"
  by (simp add: recordAudit_def)

lemma with_cache_steps [simp]:
  "normalizeAccessRequest (with_cache svc g h) req = normalizeAccessRequest svc req"
  "resolveMutableOCIReference (with_cache svc g h) req = resolveMutableOCIReference svc req"
  "resolveMutableNPMReference (with_cache svc g h) req = resolveMutableNPMReference svc req"
  "attachDependencyContext (with_cache svc g h) req ps = attachDependencyContext svc req ps"
  "enrichArtifact (with_cache svc g h) req = enrichArtifact svc req"
  unfolding normalizeAccessRequest_def resolveMutableOCIReference_def resolveMutableNPMReference_def
    attachDependencyContext_def enrichArtifact_def with_cache_fields with_cache_audit
  by (rule refl)+

lemma with_cache_reasons [simp]:
  "record_reasons_loop (with_cache svc g h) req d rs = record_reasons_loop svc req d rs"
  by (induction rs) simp_all

lemma with_cache_summary [simp]: "metadataSummary (with_cache svc g h) m = metadataSummary svc m"
  by (simp add: metadataSummary_def split: option.split)

lemma with_cache_evaluate [simp]:
  "evaluatePolicies (with_cache svc g h) req ps hash m = evaluatePolicies svc req ps hash m"
  unfolding evaluatePolicies_def with_cache_fields with_cache_audit with_cache_reasons with_cache_summary
  by (rule refl)

lemma with_cache_unversioned [simp]:
  assumes "isUnversionedNPMArtifact (req_artifact req)"
  shows "lookupCachedDecision (with_cache svc g h) req = lookupCachedDecision svc req"
    and "finalizeDecision (with_cache svc g h) req d = finalizeDecision svc req d"
    and "preparePolicySet (with_cache svc g h) req = preparePolicySet svc req"
proof -
  have no: "\<not> shouldCacheDecision req" using assms by (simp add: shouldCacheDecision_def)
  then show "lookupCachedDecision (with_cache svc g h) req = lookupCachedDecision svc req"
    by (simp add: lookupCachedDecision_def)
  show "finalizeDecision (with_cache svc g h) req d = finalizeDecision svc req d"
    unfolding finalizeDecision_def with_cache_fields with_cache_audit if_not_P [OF no] by (rule refl)
  have "deny_prepared (with_cache svc g h) req = deny_prepared svc req"
    unfolding fun_eq_iff deny_prepared_def denyForInvalidPolicySet_def with_cache_fields with_cache_audit
      if_not_P [OF no] by simp
  then show "preparePolicySet (with_cache svc g h) req = preparePolicySet svc req"
    unfolding preparePolicySet_def with_cache_fields with_cache_audit by (simp only:)
qed

lemma on_ok_return [simp]: "on_ok (State_Monad.return (Inr a)) f = f a"
  by (simp add: on_ok_def)

lemma with_cache_fresh:
  assumes "isUnversionedNPMArtifact (req_artifact req)"
  shows "enrich_and_evaluate (with_cache svc g h) req m ps hash = enrich_and_evaluate svc req m ps hash"
proof -
  have "isUnversionedNPMArtifact (req_artifact (applyMutableTagMetadata req m))" using assms by simp
  then have "finalizeDecision (with_cache svc g h) (applyMutableTagMetadata req m) =
      finalizeDecision svc (applyMutableTagMetadata req m)"
    by (intro ext) (simp only: with_cache_unversioned(2))
  then show ?thesis
    by (simp add: enrich_and_evaluate_def shouldEnrichArtifact_def assms evaluate_fresh_def Let_def)
qed

lemma with_cache_prepared:
  assumes "isUnversionedNPMArtifact (req_artifact req)"
  shows "run_state (evaluate_prepared (with_cache svc g h) req m ps hash) s =
    run_state (evaluate_prepared svc req m ps hash) s"
  unfolding evaluate_prepared_def with_cache_steps
proof (rule on_ok_cong_run)
  fix req4 s1
  assume "run_state (attachDependencyContext svc req ps) s = (Inr req4, s1)"
  then have "isUnversionedNPMArtifact (req_artifact req4)"
    using assms by (auto dest: attach_context_Inr)
  then show "run_state (on_ok (lookupCachedDecision (with_cache svc g h) req4)
      (\<lambda>cached. case cached of Some d \<Rightarrow> State_Monad.return (Inr d)
       | None \<Rightarrow> enrich_and_evaluate (with_cache svc g h) req4 m ps hash)) s1 =
    run_state (on_ok (lookupCachedDecision svc req4)
      (\<lambda>cached. case cached of Some d \<Rightarrow> State_Monad.return (Inr d)
       | None \<Rightarrow> enrich_and_evaluate svc req4 m ps hash)) s1"
    by (simp only: with_cache_unversioned(1) with_cache_fresh)
qed

lemma normalize_npm_version:
  assumes "NormalizeArtifactIdentity a = Inr b" "art_ecosystem a = EcosystemNPM"
  shows "art_version b = art_version a" "art_ecosystem b = EcosystemNPM"
proof -
  from assms have "normalizeNPM a = Inr b" by (simp add: NormalizeArtifactIdentity_def)
  then show "art_version b = art_version a" "art_ecosystem b = EcosystemNPM"
    using assms(2) by (auto elim: normalizeNPM_cases)
qed

lemma unversioned_ignores_cache:
  assumes "isUnversionedNPMArtifact (req_artifact req)"
  shows "run_state (EvaluateAccess (with_cache svc g h) req) s = run_state (EvaluateAccess svc req) s"
  unfolding EvaluateAccess_def with_cache_steps
proof (rule on_ok_cong_run)
  fix req1 s1
  assume "run_state (normalizeAccessRequest svc req) s = (Inr req1, s1)"
  then have u: "isUnversionedNPMArtifact (req_artifact req1)"
    using assms normalize_npm_version
    by (auto simp: isUnversionedNPMArtifact_def elim!: normalize_request_Inr)
  then have same: "resolveMutableOCIReference svc req1 = State_Monad.return (Inr (req1, False))"
    "resolveMutableNPMReference svc req1 = State_Monad.return (Inr req1)"
    by (simp_all add: resolveMutableOCIReference_def resolveMutableNPMReference_def
        isUnversionedNPMArtifact_def IsNPMDistTag_def)
  show "run_state (on_ok (resolveMutableOCIReference svc req1)
      (\<lambda>(req2, m). on_ok (resolveMutableNPMReference svc req2)
      (\<lambda>req3. on_ok (preparePolicySet (with_cache svc g h) req3)
      (\<lambda>prepared. case prepared of
         InvalidPolicySet d \<Rightarrow> State_Monad.return (Inr d)
       | PreparedPolicySet ps hash \<Rightarrow> evaluate_prepared (with_cache svc g h) req3 m ps hash)))) s1 =
    run_state (on_ok (resolveMutableOCIReference svc req1)
      (\<lambda>(req2, m). on_ok (resolveMutableNPMReference svc req2)
      (\<lambda>req3. on_ok (preparePolicySet svc req3)
      (\<lambda>prepared. case prepared of
         InvalidPolicySet d \<Rightarrow> State_Monad.return (Inr d)
       | PreparedPolicySet ps hash \<Rightarrow> evaluate_prepared svc req3 m ps hash)))) s1"
    by (simp only: same on_ok_return prod.case with_cache_unversioned [OF u])
      (rule on_ok_cong_run, simp add: with_cache_prepared [OF u] split: prepared_policy_set.split)
qed

section \<open>Properties\<close>

text \<open>A service over a trivial world: a fixed policy list, an empty cache, working repositories.\<close>

definition stub_service :: "policy list \<Rightarrow> unit access_service" where
  "stub_service ps =
     \<lparr>acc_list_policies = (\<lambda>_. State_Monad.return (Inr ps)),
      acc_record_decision = (\<lambda>_. State_Monad.return (''row-1'', Inr ())),
      acc_has_recent_allow = (\<lambda>_ _ _ _. State_Monad.return (Inr False)),
      acc_cache_get = (\<lambda>_ _ _. State_Monad.return (Inl (sentinel_error ErrCacheMiss))),
      acc_cache_set = (\<lambda>_ _. State_Monad.return (Inr ())),
      acc_dependencies = None, acc_enrichment = failing_enrichment,
      acc_resolve_reference = (\<lambda>_ _. State_Monad.return (Inl (plain_error ''no resolver''))),
      acc_get_by_ecosystem = (\<lambda>_ _. State_Monad.return (Inl (sentinel_error ErrUpstreamNotFound))),
      acc_audit = None, acc_runtime = sample_runtime, acc_sha256_hex = digest_stub,
      acc_json_marshal = (\<lambda>hs. Inr (concat (map hash_name hs)))\<rparr>"

definition stub_request :: "string \<Rightarrow> access_request" where
  "stub_request version = (sample_request None)\<lparr>req_artifact := sample_npm\<lparr>art_version := version\<rparr>\<rparr>"


lemma stub_run:
  "run_state (EvaluateAccess (stub_service [deny_policy ''block'' 1 False]) (stub_request ''1.2.0'')) () =
   (Inr ((Evaluate digest_stub 0 ((sample_request None)\<lparr>req_artifact := sample_npm_normal\<rparr>)
      [deny_policy ''block'' 1 False])\<lparr>dec_policy_hash := ''hblock'', dec_id := ''row-1''\<rparr>), ())"
  by code_simp


text \<open>A policy set that does not validate denies: when the stored policies of the tenant fail
  validation, every decision the pipeline returns for the tenant is a denial, before the cache is
  consulted.\<close>

lemma invalid_policy_set_denies:
  assumes "\<And>s. \<exists>ps e. fst (run_state (acc_list_policies svc (req_tenant_id req)) s) = Inr ps \<and>
      ValidatePolicies ps = Inl e"
    and "run_state (EvaluateAccess svc req) s = (Inr d, s')"
  shows "dec_outcome d = DecisionDeny"
  using assms by (rule access_invalid_denies)

lemma stub_invalid:
  "isl (ValidatePolicies [(deny_policy ''block'' 1 False)\<lparr>pol_type := ''nonsense''\<rparr>])"
  "\<exists>d. run_state (EvaluateAccess (stub_service [(deny_policy ''block'' 1 False)\<lparr>pol_type := ''nonsense''\<rparr>])
      (stub_request ''1.2.0'')) () = (Inr d, ())"
proof -
  show "isl (ValidatePolicies [(deny_policy ''block'' 1 False)\<lparr>pol_type := ''nonsense''\<rparr>])" by code_simp
  have "\<not> isl (fst (run_state (EvaluateAccess (stub_service [(deny_policy ''block'' 1 False)\<lparr>pol_type := ''nonsense''\<rparr>])
      (stub_request ''1.2.0'')) ()))" by code_simp
  then show "\<exists>d. run_state (EvaluateAccess (stub_service [(deny_policy ''block'' 1 False)\<lparr>pol_type := ''nonsense''\<rparr>])
      (stub_request ''1.2.0'')) () = (Inr d, ())"
    by (cases "run_state (EvaluateAccess (stub_service [(deny_policy ''block'' 1 False)\<lparr>pol_type := ''nonsense''\<rparr>])
      (stub_request ''1.2.0'')) ()") (auto simp: isl_def split: sum.splits; metis sum.exhaust)
qed

lemma invalid_policy_set_denies_witness:
  "\<exists>d. run_state (EvaluateAccess (stub_service [(deny_policy ''block'' 1 False)\<lparr>pol_type := ''nonsense''\<rparr>])
      (stub_request ''1.2.0'')) () = (Inr d, ()) \<and> dec_outcome d = DecisionDeny"
proof -
  let ?svc = "stub_service [(deny_policy ''block'' 1 False)\<lparr>pol_type := ''nonsense''\<rparr>]"
  obtain d where d: "run_state (EvaluateAccess ?svc (stub_request ''1.2.0'')) () = (Inr d, ())"
    using stub_invalid(2) ..
  have "\<exists>ps e. fst (run_state (acc_list_policies ?svc (req_tenant_id (stub_request ''1.2.0''))) s) = Inr ps \<and>
      ValidatePolicies ps = Inl e" for s
    using stub_invalid(1) by (auto simp: stub_service_def isl_def)
  from invalid_policy_set_denies [OF this d] d show ?thesis by blast
qed



text \<open>A request for an npm package without a version (the package document) never touches the
  decision cache: the result and the final world are the same with any other cache in place.\<close>

lemma unversioned_npm_ignores_cache:
  assumes "isUnversionedNPMArtifact (req_artifact req)"
  shows "run_state (EvaluateAccess (svc\<lparr>acc_cache_get := get, acc_cache_set := put\<rparr>) req) s =
    run_state (EvaluateAccess svc req) s"
  using unversioned_ignores_cache [OF assms, of svc get put s] by (simp add: with_cache_def)

lemma unversioned_npm_ignores_cache_witness:
  "run_state (EvaluateAccess ((stub_service [])\<lparr>acc_cache_get := (\<lambda>_ _ _. State_Monad.return (Inr zero_decision)),
       acc_cache_set := (\<lambda>_ _. State_Monad.return (Inr ()))\<rparr>) (stub_request [])) () =
   run_state (EvaluateAccess (stub_service []) (stub_request [])) ()"
  by (rule unversioned_npm_ignores_cache)
    (simp add: isUnversionedNPMArtifact_def stub_request_def sample_npm_def)

end
