(* ===== verification/Control_Plane.thy ===== *)
theory Control_Plane
  imports Access_Service
begin

text \<open>
  The management services of the control plane: policies (\<open>internal/core/service/policy.go\<close>),
  upstreams (\<open>upstream.go\<close>), tenants (\<open>tenant.go\<close>) and cache maintenance (\<open>cache.go\<close>). Repositories
  and the decision cache are ports. A port that writes its argument through a pointer (identifiers and
  times of a stored row) returns the new value. Validation rewrites configurations and targets through
  the pointers that a copied policy shares, so a validated policy is the one \<open>ValidatePolicy\<close> returns.

  The lemmas show that a stored change of policies always ends in an invalidation of the tenant's
  decision cache, what a successful change has done, and that an upstream cannot be updated so that
  a policy scoped to it loses its support.
\<close>

section \<open>Errors\<close>

text \<open>\<open>errors.Join\<close>, and the format verbs \<open>%w\<close> and \<open>%v\<close> inside a longer text.\<close>

definition errors_join :: "go_error list \<Rightarrow> go_error" where
  "errors_join es = \<lparr>err_is = concat (map err_is es), err_text = join [char_of (10 :: nat)] (map err_text es)\<rparr>"

definition wrap_around :: "string \<Rightarrow> go_error \<Rightarrow> string \<Rightarrow> go_error" where
  "wrap_around before e after = \<lparr>err_is = err_is e, err_text = before @ err_text e @ after\<rparr>"

section \<open>Data\<close>

record policy_version =
  ver_policy_id :: string
  ver_version :: int
  ver_upstream_id :: string
  ver_name :: string
  ver_type :: policy_type
  ver_action :: policy_action
  ver_schema_version :: int
  ver_config :: "policy_config option"
  ver_target :: "policy_target option"
  ver_priority :: int
  ver_enabled :: bool
  ver_created_at :: time

record policy_set_revision =
  rev_id :: string
  rev_tenant_id :: string
  rev_generation :: int
  rev_policy_hash :: string
  rev_created_at :: time

definition MaxRetainedPolicyVersions :: int where "MaxRetainedPolicyVersions = 3"

record tenant =
  tenant_id :: string
  tenant_name :: string
  tenant_created_at :: time
  tenant_updated_at :: time

record 's policy_service =
  ps_create :: "policy \<Rightarrow> ('s, policy result) state"
  ps_get_by_id :: "string \<Rightarrow> string \<Rightarrow> ('s, policy result) state"
  ps_list_by_tenant :: "string \<Rightarrow> ('s, policy list result) state"
  ps_list_versions :: "string \<Rightarrow> string \<Rightarrow> int \<Rightarrow> ('s, policy_version list result) state"
  ps_update :: "policy \<Rightarrow> ('s, policy result) state"
  ps_rollback :: "string \<Rightarrow> string \<Rightarrow> int \<Rightarrow> ('s, policy result) state"
  ps_delete :: "string \<Rightarrow> string \<Rightarrow> bool \<Rightarrow> ('s, unit result) state"
  ps_create_revision :: "policy_set_revision \<Rightarrow> ('s, unit result) state"
  ps_invalidate_tenant :: "string \<Rightarrow> ('s, unit result) state"
  ps_get_upstream :: "(string \<Rightarrow> string \<Rightarrow> ('s, upstream result) state) option"
  ps_json_marshal :: "hashable_policy list \<Rightarrow> string result"
  ps_sha256_hex :: "string \<Rightarrow> string"

text \<open>\<open>if err != nil { return fmt.Errorf("what: %w", err) }\<close> around a call.\<close>

definition wrapped :: "string \<Rightarrow> ('s, 'a result) state \<Rightarrow> ('s, 'a result) state" where
  "wrapped what m = do { r \<leftarrow> m; State_Monad.return (map_error (wrap_error what) r) }"

definition pure_result :: "'a result \<Rightarrow> ('s, 'a result) state" where
  "pure_result r = State_Monad.return r"

section \<open>Policies\<close>

definition ListTypes :: "policy_type_descriptor list" where
  "ListTypes = TypeCatalog"

definition validateUpstreamScope ::
  "'s policy_service \<Rightarrow> string \<Rightarrow> string \<Rightarrow> policy_type \<Rightarrow> ('s, unit result) state" where
  "validateUpstreamScope svc tenantID upstreamID policyType =
     (case ps_get_upstream svc of
        None \<Rightarrow> pure_result (Inr ())
      | Some get_upstream \<Rightarrow>
          if upstreamID = [] then pure_result (Inr ())
          else on_ok (get_upstream tenantID upstreamID)
                 (\<lambda>upstream. pure_result (ValidateUpstreamCompatibility policyType upstream)))"

definition validatePolicyMutation :: "'s policy_service \<Rightarrow> policy \<Rightarrow> ('s, policy result) state" where
  "validatePolicyMutation svc p0 =
     on_ok (pure_result (if pol_schema_version p0 = 0
              then map_sum id (\<lambda>v. p0\<lparr>pol_schema_version := v\<rparr>) (normalizeSchemaVersion (pol_type p0) 0)
              else Inr p0))
       (\<lambda>p1. on_ok (pure_result (ValidatePolicy p1))
          (\<lambda>p. on_ok (validateUpstreamScope svc (pol_tenant_id p) (pol_upstream_id p) (pol_type p))
             (\<lambda>_. pure_result (Inr p))))"

text \<open>The hash of the listed policies is computed although they may be invalid, for its error only. The
  errors are collected, and the cache is invalidated in every case.\<close>

definition record_revision :: "'s policy_service \<Rightarrow> string \<Rightarrow> policy list \<Rightarrow> ('s, go_error list) state" where
  "record_revision svc tenantID policies =
     (let (validated, errs) = (case ValidatePolicies policies of
              Inl e \<Rightarrow> (policies, [wrap_error ''validating tenant policies for revision'' e])
            | Inr ps \<Rightarrow> (ps, []))
      in case HashPolicies (ps_json_marshal svc) (ps_sha256_hex svc) validated of
           Inl e \<Rightarrow> State_Monad.return (errs @ [wrap_error ''hashing tenant policy set'' e])
         | Inr hash \<Rightarrow>
             (if errs \<noteq> [] then State_Monad.return errs
              else do {
                r \<leftarrow> ps_create_revision svc
                  \<lparr>rev_id = [], rev_tenant_id = tenantID, rev_generation = 0, rev_policy_hash = hash, rev_created_at = zero_time\<rparr>;
                State_Monad.return (case r of
                    Inl e \<Rightarrow> [wrap_error ''recording tenant policy revision'' e]
                  | Inr _ \<Rightarrow> [])
              }))"

definition finalizeTenantMutation :: "'s policy_service \<Rightarrow> string \<Rightarrow> ('s, unit result) state" where
  "finalizeTenantMutation svc tenantID =
     do {
       listed \<leftarrow> ps_list_by_tenant svc tenantID;
       errs \<leftarrow> (case listed of
           Inl e \<Rightarrow> State_Monad.return [wrap_error ''listing tenant policies for revision'' e]
         | Inr policies \<Rightarrow> record_revision svc tenantID policies);
       r \<leftarrow> ps_invalidate_tenant svc tenantID;
       (let errs' = errs @ (case r of Inl e \<Rightarrow> [wrap_error ''invalidating tenant decision cache'' e] | Inr _ \<Rightarrow> [])
        in State_Monad.return (if errs' \<noteq> [] then Inl (errors_join errs') else Inr ()))
     }"

definition PolicyCreate :: "'s policy_service \<Rightarrow> policy \<Rightarrow> ('s, policy result) state" where
  "PolicyCreate svc p0 =
     on_ok (validatePolicyMutation svc p0)
       (\<lambda>p. on_ok (wrapped ''creating policy'' (ps_create svc p))
          (\<lambda>stored. on_ok (wrapped ''finalizing policy creation'' (finalizeTenantMutation svc (pol_tenant_id stored)))
             (\<lambda>_. pure_result (Inr stored))))"

definition PolicyGetByID :: "'s policy_service \<Rightarrow> string \<Rightarrow> string \<Rightarrow> ('s, policy result) state" where
  "PolicyGetByID svc tenantID id' =
     on_ok (wrapped ''getting policy'' (ps_get_by_id svc tenantID id'))
       (\<lambda>p. pure_result (map_error (wrap_error ''validating loaded policy'') (ValidatePolicy p)))"

definition PolicyListByTenant :: "'s policy_service \<Rightarrow> string \<Rightarrow> ('s, policy list result) state" where
  "PolicyListByTenant svc tenantID =
     on_ok (wrapped ''listing policies'' (ps_list_by_tenant svc tenantID))
       (\<lambda>ps. pure_result (map_error (wrap_error ''validating loaded policies'') (ValidatePolicies ps)))"

definition version_policy :: "string \<Rightarrow> policy_version \<Rightarrow> policy" where
  "version_policy tenantID v =
     \<lparr>pol_id = ver_policy_id v, pol_tenant_id = tenantID, pol_upstream_id = ver_upstream_id v, pol_name = ver_name v,
      pol_type = ver_type v, pol_action = ver_action v, pol_schema_version = ver_schema_version v,
      pol_config = ver_config v, pol_target = None, pol_priority = ver_priority v, pol_enabled = ver_enabled v,
      pol_version = ver_version v, pol_created_at = zero_time, pol_updated_at = zero_time\<rparr>"

fun validate_versions_loop :: "string \<Rightarrow> policy_version list \<Rightarrow> policy_version list result" where
  "validate_versions_loop tenantID [] = Inr []"
| "validate_versions_loop tenantID (v # vs) =
     (case ValidatePolicy (version_policy tenantID v) of
        Inl e \<Rightarrow> Inl (wrap_error (''validating stored policy version '' @ show_int (ver_version v)) e)
      | Inr p \<Rightarrow> map_sum id (\<lambda>rest. v\<lparr>ver_config := pol_config p\<rparr> # rest) (validate_versions_loop tenantID vs))"

definition ListVersions :: "'s policy_service \<Rightarrow> string \<Rightarrow> string \<Rightarrow> ('s, policy_version list result) state" where
  "ListVersions svc tenantID policyID =
     on_ok (wrapped ''listing policy versions'' (ps_list_versions svc tenantID policyID MaxRetainedPolicyVersions))
       (\<lambda>versions. pure_result (validate_versions_loop tenantID versions))"

definition PolicyUpdate :: "'s policy_service \<Rightarrow> policy \<Rightarrow> ('s, policy result) state" where
  "PolicyUpdate svc p0 =
     on_ok (validatePolicyMutation svc p0)
       (\<lambda>p. on_ok (wrapped ''updating policy'' (ps_update svc p))
          (\<lambda>stored. on_ok (wrapped ''finalizing policy update'' (finalizeTenantMutation svc (pol_tenant_id stored)))
             (\<lambda>_. pure_result (Inr stored))))"

text \<open>The loop over the versions looks at the first one with the wanted number.\<close>

definition RollbackToVersion :: "'s policy_service \<Rightarrow> string \<Rightarrow> string \<Rightarrow> int \<Rightarrow> ('s, policy result) state" where
  "RollbackToVersion svc tenantID policyID version =
     on_ok (wrapped ''listing policy versions for rollback''
              (ps_list_versions svc tenantID policyID MaxRetainedPolicyVersions))
       (\<lambda>versions. on_ok
          (case List.find (\<lambda>v. ver_version v = version) versions of
             None \<Rightarrow> pure_result (Inr ())
           | Some v \<Rightarrow> wrapped ''validating rolled back policy upstream''
               (validateUpstreamScope svc tenantID (ver_upstream_id v) (ver_type v)))
          (\<lambda>_. on_ok (wrapped ''rolling back policy'' (ps_rollback svc tenantID policyID version))
             (\<lambda>p. on_ok (pure_result (map_error (wrap_error ''validating rolled back policy'') (ValidatePolicy p)))
                (\<lambda>p'. on_ok (wrapped ''finalizing policy rollback'' (finalizeTenantMutation svc tenantID))
                   (\<lambda>_. pure_result (Inr p'))))))"

definition PolicyDelete :: "'s policy_service \<Rightarrow> string \<Rightarrow> string \<Rightarrow> bool \<Rightarrow> ('s, unit result) state" where
  "PolicyDelete svc tenantID id' force =
     on_ok (wrapped ''getting policy for delete'' (ps_get_by_id svc tenantID id'))
       (\<lambda>p. if pol_enabled p then pure_result (Inl (sentinel_error ErrPolicyDeleteEnabled))
            else on_ok (wrapped ''deleting policy'' (ps_delete svc tenantID id' force))
                   (\<lambda>_. wrapped ''finalizing policy delete'' (finalizeTenantMutation svc tenantID)))"

section \<open>Import of policies\<close>

fun prepare_loop :: "'s policy_service \<Rightarrow> string \<Rightarrow> policy list \<Rightarrow> ('s, policy list result) state" where
  "prepare_loop svc tenantID [] = pure_result (Inr [])"
| "prepare_loop svc tenantID (p0 # ps) =
     (let p1 = p0\<lparr>pol_tenant_id := tenantID\<rparr>;
          p = (if pol_version p1 = 0 then p1\<lparr>pol_version := 1\<rparr> else p1)
      in on_ok (wrapped (''validating imported policy '' @ quote (pol_name p) @ '' upstream'')
                  (validateUpstreamScope svc tenantID (pol_upstream_id p) (pol_type p)))
           (\<lambda>_. on_ok (prepare_loop svc tenantID ps) (\<lambda>rest. pure_result (Inr (p # rest)))))"

definition prepareImportedPolicies :: "'s policy_service \<Rightarrow> string \<Rightarrow> policy list \<Rightarrow> ('s, policy list result) state" where
  "prepareImportedPolicies svc tenantID imported =
     on_ok (prepare_loop svc tenantID imported)
       (\<lambda>ps. pure_result (map_error (wrap_error ''validating imported policies'') (ValidatePolicies ps)))"

definition existingPoliciesByName ::
  "'s policy_service \<Rightarrow> string \<Rightarrow> ('s, (string \<rightharpoonup> policy) result) state" where
  "existingPoliciesByName svc tenantID =
     on_ok (wrapped ''listing existing policies for import'' (ps_list_by_tenant svc tenantID))
       (\<lambda>ps. pure_result (Inr (foldl (\<lambda>m p. m(pol_name p \<mapsto> p)) Map.empty ps)))"

definition persistImportedPolicy ::
  "'s policy_service \<Rightarrow> policy \<Rightarrow> (string \<rightharpoonup> policy) \<Rightarrow> ('s, (string \<rightharpoonup> policy) result) state" where
  "persistImportedPolicy svc p existingByName =
     on_ok (case existingByName (pol_name p) of
              None \<Rightarrow> ps_create svc p
            | Some existing \<Rightarrow> ps_update svc (p\<lparr>pol_id := pol_id existing\<rparr>))
       (\<lambda>stored. pure_result (Inr (existingByName(pol_name stored \<mapsto> stored))))"

text \<open>The loop returns whether something was written and, on failure, the name and the error.\<close>

fun persistImportedPolicies ::
  "'s policy_service \<Rightarrow> policy list \<Rightarrow> (string \<rightharpoonup> policy) \<Rightarrow> bool \<Rightarrow> ('s, bool \<times> (string \<times> go_error) option) state" where
  "persistImportedPolicies svc [] existingByName mutated = State_Monad.return (mutated, None)"
| "persistImportedPolicies svc (p # ps) existingByName mutated =
     do {
       r \<leftarrow> persistImportedPolicy svc p existingByName;
       (case r of
          Inl e \<Rightarrow> State_Monad.return (mutated, Some (pol_name p, e))
        | Inr existing' \<Rightarrow> persistImportedPolicies svc ps existing' True)
     }"

definition importPersistenceError ::
  "'s policy_service \<Rightarrow> string \<Rightarrow> string \<Rightarrow> go_error \<Rightarrow> bool \<Rightarrow> ('s, go_error) state" where
  "importPersistenceError svc tenantID policyName persistErr mutated =
     (let prefix = ''persisting imported policy '' @ quote policyName
      in if \<not> mutated then State_Monad.return (wrap_error prefix persistErr)
         else do {
           r \<leftarrow> finalizeTenantMutation svc tenantID;
           State_Monad.return (case r of
               Inl finalizeErr \<Rightarrow> wrap_around (prefix @ '': '') persistErr
                 (''; finalizing partial import: '' @ err_text finalizeErr)
             | Inr _ \<Rightarrow> wrap_around (prefix @ '': '') persistErr
                 ''; partial import already recorded a new policy revision and invalidated cached decisions'')
         })"

definition ImportPolicies :: "'s policy_service \<Rightarrow> string \<Rightarrow> policy list \<Rightarrow> ('s, int result) state" where
  "ImportPolicies svc tenantID imported =
     on_ok (prepareImportedPolicies svc tenantID imported)
       (\<lambda>policies. on_ok (existingPoliciesByName svc tenantID)
          (\<lambda>existingByName. do {
             persisted \<leftarrow> persistImportedPolicies svc policies existingByName False;
             (case persisted of
                (mutated, Some (failedName, persistErr)) \<Rightarrow>
                  do { e \<leftarrow> importPersistenceError svc tenantID failedName persistErr mutated; pure_result (Inl e) }
              | (mutated, None) \<Rightarrow>
                  (if mutated then
                     on_ok (wrapped ''finalizing imported policies'' (finalizeTenantMutation svc tenantID))
                       (\<lambda>_. pure_result (Inr (int (length policies))))
                   else pure_result (Inr (int (length policies)))))
           }))"

section \<open>Upstreams, tenants and caches\<close>

record 's upstream_service =
  us_create :: "upstream \<Rightarrow> ('s, upstream result) state"
  us_get_by_id :: "string \<Rightarrow> string \<Rightarrow> ('s, upstream result) state"
  us_list_by_tenant :: "string \<Rightarrow> ('s, upstream list result) state"
  us_update :: "upstream \<Rightarrow> ('s, upstream result) state"
  us_delete :: "string \<Rightarrow> string \<Rightarrow> ('s, unit result) state"
  us_list_policies :: "(string \<Rightarrow> ('s, policy list result) state) option"
  us_allow_authenticated :: bool

definition validateAuth :: "'s upstream_service \<Rightarrow> upstream \<Rightarrow> unit result" where
  "validateAuth svc u =
     (if \<not> UpstreamAuthConfigured u then Inr ()
      else if \<not> us_allow_authenticated svc then Inl (sentinel_error ErrUpstreamAuthTransportInsecure)
      else if up_ecosystem u \<noteq> EcosystemOCI then
        Inl (wrap_sentinel ErrUpstreamAuthInvalid ''upstream auth is only supported for OCI'')
      else (case up_auth u of
          None \<Rightarrow> Inr ()
        | Some auth \<Rightarrow>
            (if auth_type auth = UpstreamAuthBasic then
               (if auth_username auth = [] \<or> auth_secret auth = [] then
                  Inl (wrap_sentinel ErrUpstreamAuthInvalid ''basic auth requires username and password'')
                else Inr ())
             else if auth_type auth = UpstreamAuthBearerToken then
               (if auth_secret auth = [] then
                  Inl (wrap_sentinel ErrUpstreamAuthInvalid ''bearer token auth requires token'')
                else Inr ())
             else Inl (wrap_sentinel ErrUpstreamAuthInvalid (''unsupported auth type '' @ quote (auth_type auth))))))"

fun scoped_policies_loop :: "upstream \<Rightarrow> policy list \<Rightarrow> unit result" where
  "scoped_policies_loop u [] = Inr ()"
| "scoped_policies_loop u (candidate # rest) =
     (if pol_upstream_id candidate \<noteq> up_id u then scoped_policies_loop u rest
      else (case ValidateUpstreamCompatibility (pol_type candidate) u of
          Inl e \<Rightarrow> Inl \<lparr>err_is = ErrUpstreamPolicyConflict # err_is e,
            err_text = sentinel_text ErrUpstreamPolicyConflict @ '': upstream '' @ quote (up_name u) @
              '' would no longer satisfy policy '' @ quote (pol_name candidate) @ '': '' @ err_text e\<rparr>
        | Inr _ \<Rightarrow> scoped_policies_loop u rest))"

definition validateScopedPolicies :: "'s upstream_service \<Rightarrow> upstream \<Rightarrow> ('s, unit result) state" where
  "validateScopedPolicies svc u =
     (case us_list_policies svc of
        None \<Rightarrow> pure_result (Inr ())
      | Some list_policies \<Rightarrow>
          on_ok (wrapped ''listing scoped policies for upstream update'' (list_policies (up_tenant_id u)))
            (\<lambda>policies. pure_result (scoped_policies_loop u policies)))"

text \<open>The shared begin of \<open>Create\<close> and \<open>Update\<close>.\<close>

definition check_upstream :: "'s upstream_service \<Rightarrow> upstream \<Rightarrow> upstream result" where
  "check_upstream svc u0 =
     (case NormalizeUpstreamCapabilities (up_ecosystem u0) (up_capabilities u0) of
        Inl e \<Rightarrow> Inl e
      | Inr capabilities \<Rightarrow>
          (let u = u0\<lparr>up_capabilities := capabilities\<rparr>
           in map_sum id (\<lambda>_. u) (validateAuth svc u)))"

definition UpstreamCreate :: "'s upstream_service \<Rightarrow> upstream \<Rightarrow> ('s, upstream result) state" where
  "UpstreamCreate svc u0 =
     on_ok (pure_result (check_upstream svc u0)) (\<lambda>u. wrapped ''creating upstream'' (us_create svc u))"

definition UpstreamGetByID :: "'s upstream_service \<Rightarrow> string \<Rightarrow> string \<Rightarrow> ('s, upstream result) state" where
  "UpstreamGetByID svc tenantID id' = wrapped ''getting upstream'' (us_get_by_id svc tenantID id')"

definition UpstreamListByTenant :: "'s upstream_service \<Rightarrow> string \<Rightarrow> ('s, upstream list result) state" where
  "UpstreamListByTenant svc tenantID = wrapped ''listing upstreams'' (us_list_by_tenant svc tenantID)"

definition UpstreamUpdate :: "'s upstream_service \<Rightarrow> upstream \<Rightarrow> ('s, upstream result) state" where
  "UpstreamUpdate svc u0 =
     on_ok (pure_result (check_upstream svc u0))
       (\<lambda>u. on_ok (validateScopedPolicies svc u) (\<lambda>_. wrapped ''updating upstream'' (us_update svc u)))"

definition UpstreamDelete :: "'s upstream_service \<Rightarrow> string \<Rightarrow> string \<Rightarrow> ('s, unit result) state" where
  "UpstreamDelete svc tenantID id' = wrapped ''deleting upstream'' (us_delete svc tenantID id')"

record 's tenant_service =
  ts_create :: "tenant \<Rightarrow> ('s, tenant result) state"
  ts_get_by_id :: "string \<Rightarrow> ('s, tenant result) state"
  ts_list :: "('s, tenant list result) state"
  ts_update :: "tenant \<Rightarrow> ('s, tenant result) state"
  ts_delete :: "string \<Rightarrow> ('s, unit result) state"

definition TenantCreate :: "'s tenant_service \<Rightarrow> tenant \<Rightarrow> ('s, tenant result) state" where
  "TenantCreate svc t = wrapped ''creating tenant'' (ts_create svc t)"
definition TenantGetByID :: "'s tenant_service \<Rightarrow> string \<Rightarrow> ('s, tenant result) state" where
  "TenantGetByID svc id' = wrapped ''getting tenant'' (ts_get_by_id svc id')"
definition TenantList :: "'s tenant_service \<Rightarrow> ('s, tenant list result) state" where
  "TenantList svc = wrapped ''listing tenants'' (ts_list svc)"
definition TenantUpdate :: "'s tenant_service \<Rightarrow> tenant \<Rightarrow> ('s, tenant result) state" where
  "TenantUpdate svc t = wrapped ''updating tenant'' (ts_update svc t)"
definition TenantDelete :: "'s tenant_service \<Rightarrow> string \<Rightarrow> ('s, unit result) state" where
  "TenantDelete svc id' = wrapped ''deleting tenant'' (ts_delete svc id')"

record 's cache_service =
  cs_invalidate_decisions :: "string \<Rightarrow> ('s, unit result) state"
  cs_invalidate_metadata :: "string \<Rightarrow> ('s, unit result) state"

definition ClearTenantDecisions :: "'s cache_service \<Rightarrow> string \<Rightarrow> ('s, unit result) state" where
  "ClearTenantDecisions svc tenantID = wrapped ''clearing tenant decision cache'' (cs_invalidate_decisions svc tenantID)"
definition ClearTenantMetadata :: "'s cache_service \<Rightarrow> string \<Rightarrow> ('s, unit result) state" where
  "ClearTenantMetadata svc tenantID = wrapped ''clearing tenant metadata cache'' (cs_invalidate_metadata svc tenantID)"

section \<open>Runs\<close>

lemma run_wrapped: "run_state (wrapped what m) s = (case run_state m s of (r, s1) \<Rightarrow> (map_error (wrap_error what) r, s1))"
  by (simp add: wrapped_def split: prod.split)

lemma wrapped_InrE:
  assumes "run_state (wrapped what m) s = (Inr a, s')"
  obtains "run_state m s = (Inr a, s')"
  using assms by (auto simp: run_wrapped split: prod.splits)

lemma wrapped_InlE:
  assumes "run_state (wrapped what m) s = (Inl e, s')"
  obtains e' where "run_state m s = (Inl e', s')"
  using assms by (auto simp: run_wrapped map_error_def split: prod.splits sum.splits)

lemma run_pure [simp]: "run_state (pure_result r) s = (r, s)"
  by (simp add: pure_result_def)

text \<open>\<open>ends_in m s'\<close>: the world \<open>s'\<close> is what a run of \<open>m\<close> left behind; \<open>fails_in m s'\<close>: that of a failed run.\<close>

definition ends_in :: "('s, 'a) state \<Rightarrow> 's \<Rightarrow> bool" where
  "ends_in m s' \<longleftrightarrow> (\<exists>s. snd (run_state m s) = s')"

definition fails_in :: "('s, 'a result) state \<Rightarrow> 's \<Rightarrow> bool" where
  "fails_in m s' \<longleftrightarrow> (\<exists>s e. run_state m s = (Inl e, s'))"

lemma ends_inI: "run_state m s = (a, s') \<Longrightarrow> ends_in m s'"
  unfolding ends_in_def by (rule exI [of _ s]) simp

lemma fails_inI: "run_state m s = (Inl e, s') \<Longrightarrow> fails_in m s'"
  unfolding fails_in_def by blast

lemma ends_in_wrapped: "ends_in (wrapped what m) s' \<longleftrightarrow> ends_in m s'"
  by (simp add: ends_in_def run_wrapped case_prod_beta)

lemma fails_in_wrapped: "fails_in (wrapped what m) s' \<Longrightarrow> fails_in m s'"
  unfolding fails_in_def by (metis wrapped_InlE)

lemma fails_ends: "fails_in m s' \<Longrightarrow> ends_in m s'"
  unfolding fails_in_def by (auto intro: ends_inI)

text \<open>Where a sequence of fallible steps ends.\<close>

lemma on_ok_endsE:
  assumes "run_state (on_ok m f) s = (r, s')"
  obtains (stop) e where "r = Inl e" "run_state m s = (Inl e, s')"
    | (go) a s1 where "run_state m s = (Inr a, s1)" "run_state (f a) s1 = (r, s')"
  using assms by (auto simp: run_on_ok split: prod.splits sum.splits)

lemma on_ok_pure_ends:
  assumes "run_state (on_ok m (\<lambda>_. pure_result (Inr b))) s = (r, s')"
  shows "ends_in m s'"
  using assms by (elim on_ok_endsE) (auto intro: ends_inI)

section \<open>The end of a mutation\<close>

lemma finalize_ends: "run_state (finalizeTenantMutation svc t) s = (r, s') \<Longrightarrow> ends_in (ps_invalidate_tenant svc t) s'"
  unfolding finalizeTenantMutation_def
  by (auto intro: ends_inI simp: Let_def split: prod.splits sum.splits)

lemma finalize_success:
  assumes "run_state (finalizeTenantMutation svc t) s = (Inr (), s')"
  obtains ps ps' h s1 s2 where "run_state (ps_list_by_tenant svc t) s = (Inr ps, s1)" "ValidatePolicies ps = Inr ps'"
    "HashPolicies (ps_json_marshal svc) (ps_sha256_hex svc) ps' = Inr h"
    "run_state (ps_create_revision svc \<lparr>rev_id = [], rev_tenant_id = t, rev_generation = 0, rev_policy_hash = h,
       rev_created_at = zero_time\<rparr>) s1 = (Inr (), s2)"
    "run_state (ps_invalidate_tenant svc t) s2 = (Inr (), s')"
proof -
  obtain l s1 where l: "run_state (ps_list_by_tenant svc t) s = (l, s1)" by fastforce
  with assms obtain ps where ps: "l = Inr ps"
    by (cases l) (auto simp: finalizeTenantMutation_def Let_def split: prod.splits)
  obtain errs s2 where r: "run_state (record_revision svc t ps) s1 = (errs, s2)" by fastforce
  obtain i s3 where i: "run_state (ps_invalidate_tenant svc t) s2 = (i, s3)" by fastforce
  have e: "errs = []" "i = Inr ()" "s3 = s'"
    using assms by (auto simp: finalizeTenantMutation_def Let_def l ps r i split: if_splits sum.splits)
  from r e(1) obtain ps' h where h: "ValidatePolicies ps = Inr ps'"
    "HashPolicies (ps_json_marshal svc) (ps_sha256_hex svc) ps' = Inr h"
    "run_state (ps_create_revision svc \<lparr>rev_id = [], rev_tenant_id = t, rev_generation = 0, rev_policy_hash = h,
       rev_created_at = zero_time\<rparr>) s1 = (Inr (), s2)"
    by (auto simp: record_revision_def split: sum.splits prod.splits if_splits)
  show ?thesis using that [of ps s1 ps' h s2] l ps h i e by simp
qed

lemma ends_in_finalize: "ends_in (finalizeTenantMutation svc t) s' \<Longrightarrow> ends_in (ps_invalidate_tenant svc t) s'"
  unfolding ends_in_def [of "finalizeTenantMutation svc t"] by (metis finalize_ends prod.collapse)

lemma mutation_ends:
  assumes "run_state (on_ok (wrapped w m) (\<lambda>stored. on_ok (wrapped v (finalizeTenantMutation svc (t stored)))
      (\<lambda>_. pure_result (Inr (f stored))))) s = (r, s')"
  shows "isl r \<and> fails_in m s' \<or>
    (\<exists>stored s1. run_state m s = (Inr stored, s1) \<and> ends_in (ps_invalidate_tenant svc (t stored)) s')"
  using assms
proof (cases rule: on_ok_endsE)
  case (stop e)
  then show ?thesis by (auto dest!: fails_inI fails_in_wrapped)
next
  case (go a s1)
  from go(1) have m: "run_state m s = (Inr a, s1)" by (rule wrapped_InrE)
  from go(2) have "ends_in (ps_invalidate_tenant svc (t a)) s'"
    by (auto dest!: on_ok_pure_ends ends_in_finalize simp: ends_in_wrapped)
  with m show ?thesis by blast
qed

lemma persist_unmutated:
  assumes "run_state (persistImportedPolicies svc ps ex m) s = ((m', res), s')"
  shows "(m \<longrightarrow> m') \<and> (\<not> m' \<longrightarrow> (if res = None then ps = [] \<and> s' = s
    else \<exists>q. fails_in (ps_create svc q) s' \<or> fails_in (ps_update svc q) s'))"
  using assms
proof (induction ps arbitrary: ex m s)
  case (Cons p ps)
  obtain r s1 where r: "run_state (persistImportedPolicy svc p ex) s = (r, s1)" by fastforce
  show ?case
  proof (cases r)
    case (Inl e)
    with r have "run_state (persistImportedPolicy svc p ex) s = (Inl e, s1)" by simp
    then have "\<exists>q. fails_in (ps_create svc q) s1 \<or> fails_in (ps_update svc q) s1"
      unfolding persistImportedPolicy_def
      by (cases rule: on_ok_InlE) (auto intro: fails_inI split: option.splits)
    with Inl r Cons.prems show ?thesis by auto
  next
    case (Inr ex')
    with Cons.prems r have "run_state (persistImportedPolicies svc ps ex' True) s1 = ((m', res), s')" by simp
    from Cons.IH [OF this] show ?thesis by simp
  qed
qed auto

lemma wrapped_finalize_ends:
  assumes "run_state (wrapped w (finalizeTenantMutation svc t)) s = (r, s')"
  shows "ends_in (ps_invalidate_tenant svc t) s'"
  using assms finalize_ends by (fastforce simp: run_wrapped split: prod.splits)

lemma delete_ends:
  assumes "run_state (PolicyDelete svc t i force) s = (r, s')"
  shows "isl r \<and> (ends_in (ps_get_by_id svc t i) s' \<or> fails_in (ps_delete svc t i force) s') \<or>
    ends_in (ps_invalidate_tenant svc t) s'"
  using assms unfolding PolicyDelete_def
proof (cases rule: on_ok_endsE)
  case (stop e)
  then show ?thesis using fails_ends [OF fails_in_wrapped [OF fails_inI [OF stop(2)]]] by simp
next
  case (go p s1)
  from go(1) have g: "run_state (ps_get_by_id svc t i) s = (Inr p, s1)" by (rule wrapped_InrE)
  show ?thesis
  proof (cases "pol_enabled p")
    case True
    with go(2) g show ?thesis by (auto intro: ends_inI)
  next
    case False
    with go(2) have "run_state (on_ok (wrapped ''deleting policy'' (ps_delete svc t i force))
        (\<lambda>_. wrapped ''finalizing policy delete'' (finalizeTenantMutation svc t))) s1 = (r, s')" by simp
    then show ?thesis
      by (cases rule: on_ok_endsE) (auto dest!: fails_inI fails_in_wrapped dest: wrapped_finalize_ends)
  qed
qed

lemma import_error_ends:
  assumes "run_state (importPersistenceError svc t name e m) s = (err, s')"
  shows "if m then ends_in (ps_invalidate_tenant svc t) s' else s' = s"
  using assms finalize_ends [of svc t s] by (auto simp: importPersistenceError_def Let_def split: prod.splits)

lemma import_ends:
  assumes "run_state (ImportPolicies svc t ps) s = (r, s')"
  shows "isl r \<and> (fails_in (prepareImportedPolicies svc t ps) s' \<or> fails_in (existingPoliciesByName svc t) s' \<or>
      (\<exists>q. fails_in (ps_create svc q) s' \<or> fails_in (ps_update svc q) s')) \<or>
    r = Inr 0 \<and> ends_in (existingPoliciesByName svc t) s' \<or> ends_in (ps_invalidate_tenant svc t) s'"
  using assms unfolding ImportPolicies_def
proof (cases rule: on_ok_endsE)
  case (stop e)
  then show ?thesis by (auto intro: fails_inI)
next
  case (go ps' s1)
  from go(2) show ?thesis
  proof (cases rule: on_ok_endsE)
    case (stop e)
    then show ?thesis by (auto intro: fails_inI)
  next
    case (go ex s2)
    obtain m res s3 where p: "run_state (persistImportedPolicies svc ps' ex False) s2 = ((m, res), s3)"
      by (metis prod.exhaust)
    note u = persist_unmutated [OF p]
    show ?thesis
    proof (cases res)
      case None
      with go p u show ?thesis
        by (cases m) (auto dest!: on_ok_pure_ends simp: ends_in_wrapped intro: ends_inI
            dest: finalize_ends simp: ends_in_finalize)
    next
      case (Some x)
      obtain err s4 where i: "run_state (importPersistenceError svc t (fst x) (snd x) m) s3 = (err, s4)" by fastforce
      with go(2) p Some have "r = Inl err" "s' = s4" by (auto split: prod.splits)
      with import_error_ends [OF i] u Some show ?thesis by (auto split: if_splits)
    qed
  qed
qed

text \<open>A control plane whose world is the trace of its writes. \<open>ps\<close> are the stored policies, \<open>back\<close> is what
  a rollback restores.\<close>

definition trace :: "string \<Rightarrow> 'a \<Rightarrow> (string list, 'a) state" where
  "trace name a = State (\<lambda>log. (a, log @ [name]))"

definition traced_service :: "policy list \<Rightarrow> policy \<Rightarrow> string list policy_service" where
  "traced_service ps back =
     \<lparr>ps_create = \<lambda>p. trace ''create'' (Inr p), ps_get_by_id = \<lambda>_ _. State_Monad.return (Inr back),
      ps_list_by_tenant = \<lambda>_. State_Monad.return (Inr ps), ps_list_versions = \<lambda>_ _ _. State_Monad.return (Inr []),
      ps_update = \<lambda>p. trace ''update'' (Inr p), ps_rollback = \<lambda>_ _ _. trace ''rollback'' (Inr back),
      ps_delete = \<lambda>_ _ _. trace ''delete'' (Inr ()), ps_create_revision = \<lambda>_. trace ''revision'' (Inr ()),
      ps_invalidate_tenant = \<lambda>_. trace ''invalidate'' (Inr ()), ps_get_upstream = None,
      ps_json_marshal = \<lambda>_. Inr ''json'', ps_sha256_hex = digest_stub\<rparr>"

definition broken_policy :: policy where
  "broken_policy = (deny_policy ''block'' 1 False)\<lparr>pol_config := None\<rparr>"

definition stub_upstreams :: "policy list \<Rightarrow> unit upstream_service" where
  "stub_upstreams ps =
     \<lparr>us_create = \<lambda>u. State_Monad.return (Inr u), us_get_by_id = \<lambda>_ _. State_Monad.return (Inl (sentinel_error ErrUpstreamNotFound)),
      us_list_by_tenant = \<lambda>_. State_Monad.return (Inr []), us_update = \<lambda>u. State_Monad.return (Inr u),
      us_delete = \<lambda>_ _. State_Monad.return (Inr ()), us_list_policies = Some (\<lambda>_. State_Monad.return (Inr ps)),
      us_allow_authenticated = True\<rparr>"

section \<open>The theorems\<close>

text \<open>Validation failures of a mutation, before anything is written.\<close>

definition rejected :: "'s policy_service \<Rightarrow> policy \<Rightarrow> 's \<Rightarrow> bool" where
  "rejected svc p s' \<longleftrightarrow> fails_in (validatePolicyMutation svc p) s'"


text \<open>A policy that was created successfully was validated for its upstream, and the control plane has
  recorded the hash of the validated policy set as a new revision before it invalidated the decisions of
  the tenant.\<close>

lemma policy_create_success:
  assumes "run_state (PolicyCreate svc p) s = (Inr stored, s')"
  shows "\<exists>p1 s1 s2 s3 s4 policies validated hash.
    run_state (validatePolicyMutation svc p) s = (Inr p1, s1) \<and> ValidatePolicy p1 = Inr p1 \<and>
    run_state (ps_create svc p1) s1 = (Inr stored, s2) \<and>
    run_state (ps_list_by_tenant svc (pol_tenant_id stored)) s2 = (Inr policies, s3) \<and>
    ValidatePolicies policies = Inr validated \<and>
    HashPolicies (ps_json_marshal svc) (ps_sha256_hex svc) validated = Inr hash \<and>
    run_state (ps_create_revision svc \<lparr>rev_id = [], rev_tenant_id = pol_tenant_id stored, rev_generation = 0,
      rev_policy_hash = hash, rev_created_at = zero_time\<rparr>) s3 = (Inr (), s4) \<and>
    run_state (ps_invalidate_tenant svc (pol_tenant_id stored)) s4 = (Inr (), s')"
proof -
  from assms obtain p1 s1 where v: "run_state (validatePolicyMutation svc p) s = (Inr p1, s1)"
    and rest: "run_state (on_ok (wrapped ''creating policy'' (ps_create svc p1))
      (\<lambda>stored. on_ok (wrapped ''finalizing policy creation'' (finalizeTenantMutation svc (pol_tenant_id stored)))
         (\<lambda>_. pure_result (Inr stored)))) s1 = (Inr stored, s')"
    unfolding PolicyCreate_def by (rule on_ok_InrE)
  from v have valid: "ValidatePolicy p1 = Inr p1"
    unfolding validatePolicyMutation_def by (auto elim!: on_ok_InrE dest: validate_policy_idem)
  from rest obtain s2 where c: "run_state (ps_create svc p1) s1 = (Inr stored, s2)"
    and f: "run_state (finalizeTenantMutation svc (pol_tenant_id stored)) s2 = (Inr (), s')"
    by (auto elim!: on_ok_InrE wrapped_InrE)
  from f show ?thesis by (rule finalize_success) (use v valid c in blast)
qed

lemma policy_create_success_witness:
  "let svc = traced_service [deny_policy ''block'' 1 False] broken_policy; p = deny_policy ''block'' 1 False
   in run_state (PolicyCreate svc p) [] = (Inr p, [''create'', ''revision'', ''invalidate'']) \<and>
     (\<exists>p1 s1 s2. run_state (validatePolicyMutation svc p) [] = (Inr p1, s1) \<and> ValidatePolicy p1 = Inr p1 \<and>
        run_state (ps_create svc p1) s1 = (Inr p, s2))"
proof -
  let ?svc = "traced_service [deny_policy ''block'' 1 False] broken_policy"
  have "run_state (PolicyCreate ?svc (deny_policy ''block'' 1 False)) [] =
      (Inr (deny_policy ''block'' 1 False), [''create'', ''revision'', ''invalidate''])" by code_simp
  with policy_create_success [OF this] show ?thesis unfolding Let_def by blast
qed

text \<open>A rollback can change the stored policy without invalidating the decision cache: the restored policy
  is validated only after the repository has stored it, and when it is invalid the rollback returns the
  error with neither a new revision nor an invalidation.\<close>

lemma invalid_rollback_keeps_cache:
  assumes "run_state (ps_list_versions svc tenant i MaxRetainedPolicyVersions) s = (Inr [], s1)"
    and "run_state (ps_rollback svc tenant i version) s1 = (Inr p, s2)" "ValidatePolicy p = Inl e"
  shows "run_state (RollbackToVersion svc tenant i version) s = (Inl (wrap_error ''validating rolled back policy'' e), s2)"
  using assms by (simp add: RollbackToVersion_def run_on_ok run_wrapped)

lemma invalid_rollback_keeps_cache_witness:
  "let svc = traced_service [] broken_policy
   in isl (fst (run_state (RollbackToVersion svc ''t1'' ''p1'' 2) [])) \<and>
      snd (run_state (RollbackToVersion svc ''t1'' ''p1'' 2) []) = [''rollback'']"
proof -
  let ?svc = "traced_service [] broken_policy"
  have "isl (ValidatePolicy broken_policy)" by code_simp
  then obtain e where e: "ValidatePolicy broken_policy = Inl e" by (auto simp: isl_def)
  have "run_state (RollbackToVersion ?svc ''t1'' ''p1'' 2) [] =
      (Inl (wrap_error ''validating rolled back policy'' e), [''rollback''])"
    by (rule invalid_rollback_keeps_cache [OF _ _ e]) (simp_all add: traced_service_def trace_def)
  then show ?thesis by simp
qed

text \<open>A successful update of an upstream keeps the policies that are scoped to it satisfiable: the stored
  upstream has a normalized capability profile and valid credentials, and every policy of the tenant that
  names it is compatible with its new ecosystem and capabilities.\<close>

lemma upstream_update_compatible:
  assumes "run_state (UpstreamUpdate svc u0) s = (Inr stored, s')" "us_list_policies svc = Some list_policies"
  shows "\<exists>u policies s1.
    NormalizeUpstreamCapabilities (up_ecosystem u0) (up_capabilities u0) = Inr (up_capabilities u) \<and>
    u = u0\<lparr>up_capabilities := up_capabilities u\<rparr> \<and> validateAuth svc u = Inr () \<and>
    run_state (list_policies (up_tenant_id u)) s = (Inr policies, s1) \<and>
    (\<forall>p \<in> set policies. pol_upstream_id p = up_id u \<longrightarrow> ValidateUpstreamCompatibility (pol_type p) u = Inr ()) \<and>
    run_state (us_update svc u) s1 = (Inr stored, s')"
proof -
  have loop: "scoped_policies_loop u ps = Inr () \<Longrightarrow>
      \<forall>p \<in> set ps. pol_upstream_id p = up_id u \<longrightarrow> ValidateUpstreamCompatibility (pol_type p) u = Inr ()" for u ps
    by (induction ps) (auto split: if_splits sum.splits)
  from assms(1) obtain u s1 where c: "check_upstream svc u0 = Inr u"
    and v: "run_state (validateScopedPolicies svc u) s = (Inr (), s1)"
    and w: "run_state (us_update svc u) s1 = (Inr stored, s')"
    unfolding UpstreamUpdate_def by (auto elim!: on_ok_InrE wrapped_InrE)
  from c have "NormalizeUpstreamCapabilities (up_ecosystem u0) (up_capabilities u0) = Inr (up_capabilities u)"
    "u = u0\<lparr>up_capabilities := up_capabilities u\<rparr>" "validateAuth svc u = Inr ()"
    by (auto simp: check_upstream_def Let_def map_sum_def split: sum.splits)
  moreover from v assms(2) obtain policies where "run_state (list_policies (up_tenant_id u)) s = (Inr policies, s1)"
    "scoped_policies_loop u policies = Inr ()"
    by (auto simp: validateScopedPolicies_def elim!: on_ok_InrE wrapped_InrE)
  ultimately show ?thesis using w loop by blast
qed

lemma upstream_update_compatible_witness:
  "let p = (deny_policy ''block'' 1 False)\<lparr>pol_upstream_id := ''u1''\<rparr>; svc = stub_upstreams [p];
       u0 = (sample_upstream ''u1'' EcosystemNPM)\<lparr>up_capabilities := Some []\<rparr>
   in (\<exists>stored. run_state (UpstreamUpdate svc u0) () = (Inr stored, ())) \<and>
     (\<exists>u. validateAuth svc u = Inr () \<and>
        NormalizeUpstreamCapabilities EcosystemNPM (Some []) = Inr (up_capabilities u))"
proof -
  let ?svc = "stub_upstreams [(deny_policy ''block'' 1 False)\<lparr>pol_upstream_id := ''u1''\<rparr>]"
  let ?u = "(sample_upstream ''u1'' EcosystemNPM)\<lparr>up_capabilities := Some []\<rparr>"
  have "\<not> isl (fst (run_state (UpstreamUpdate ?svc ?u) ()))" by code_simp
  then obtain stored where "fst (run_state (UpstreamUpdate ?svc ?u) ()) = Inr stored"
    by (cases "fst (run_state (UpstreamUpdate ?svc ?u) ())") auto
  then have r: "run_state (UpstreamUpdate ?svc ?u) () = (Inr stored, ())" by (simp add: prod_eq_iff)
  have l: "us_list_policies ?svc = Some (\<lambda>_. State_Monad.return
      (Inr [(deny_policy ''block'' 1 False)\<lparr>pol_upstream_id := ''u1''\<rparr>]))" by (simp add: stub_upstreams_def)
  from upstream_update_compatible [OF r l] show ?thesis
    unfolding Let_def using r by (auto simp: sample_upstream_def)
qed

end
