(* ===== verification/Bundle_Service.thy ===== *)
theory Bundle_Service
  imports Control_Plane "HOL-Library.AList"
begin

text \<open>
  Tenant bundles: what the control plane ships to the proxies and how a proxy keeps it
  (\<open>internal/core/service/bundle.go\<close>, \<open>internal/infra/bundle/repository.go\<close>, \<open>tenant.go\<close>).

  \<open>BundleService\<close> assembles a bundle from the repositories. \<open>CachedBundleProvider\<close> is a state machine of
  its own: its fields are a record, and the operations run on a pair of the outer world and that record.
  Each method that takes the mutex is one atomic step. A zero time is \<^const>\<open>None\<close>. The repositories of
  the proxy read from a provider; a nil bundle without an error makes them panic, which is an error value
  here.

  The lemmas show that a tenant whose bundle was once loaded is served from then on whatever the control
  plane does, and what the lookups of the proxy return.
\<close>

section \<open>Data\<close>

record tenant_bundle =
  bun_tenant :: tenant
  bun_tenant_id :: string
  bun_revision :: string
  bun_generated_at :: time
  bun_policies :: "policy list"
  bun_upstreams :: "upstream list"

text \<open>The payload of the revision: the policies with their encoded configuration, and the upstreams without
  the secrets of their credentials.\<close>

record bundle_tenant_hash_input =
  th_id :: string
  th_name :: string
  th_created_at :: time
  th_updated_at :: time

record bundle_policy_hash_input =
  ph_id :: string
  ph_upstream_id :: string
  ph_name :: string
  ph_type :: policy_type
  ph_action :: policy_action
  ph_schema_version :: int
  ph_config :: string
  ph_target :: "policy_target option"
  ph_priority :: int
  ph_enabled :: bool
  ph_version :: int
  ph_updated_at :: time

record bundle_upstream_auth_hash_input =
  ah_type :: upstream_auth_type
  ah_username :: string
  ah_updated_at :: time

record bundle_upstream_hash_input =
  uh_id :: string
  uh_name :: string
  uh_ecosystem :: ecosystem_type
  uh_base_url :: string
  uh_capabilities :: "upstream_capability list option"
  uh_auth :: bundle_upstream_auth_hash_input
  uh_updated_at :: time

record bundle_hash_input =
  bh_tenant :: bundle_tenant_hash_input
  bh_policies :: "bundle_policy_hash_input list"
  bh_upstreams :: "bundle_upstream_hash_input list"

record 's bundle_service =
  bs_get_tenant :: "string \<Rightarrow> ('s, tenant option result) state"
  bs_list_policies :: "string \<Rightarrow> ('s, policy list result) state"
  bs_list_bundle_upstreams :: "(string \<Rightarrow> ('s, upstream list result) state) option"
  bs_include_upstream_auth :: bool
  bs_runtime :: "'s runtime"
  bs_config_marshal :: "policy_config option \<Rightarrow> string result"
  bs_payload_marshal :: "bundle_hash_input \<Rightarrow> string result"
  bs_sha256_hex :: "string \<Rightarrow> string"

section \<open>Building bundles\<close>

definition NewBundleService :: "'s bundle_service \<Rightarrow> 's bundle_service result" where
  "NewBundleService svc =
     (if bs_list_bundle_upstreams svc = None then Inl (plain_error ''bundle upstream repository is required'') else Inr svc)"

definition auth_hash_input :: "upstream \<Rightarrow> bundle_upstream_auth_hash_input" where
  "auth_hash_input u =
     (case up_auth u of
        None \<Rightarrow> \<lparr>ah_type = UpstreamAuthNone, ah_username = [], ah_updated_at = zero_time\<rparr>
      | Some a \<Rightarrow> \<lparr>ah_type = auth_type a, ah_username = auth_username a, ah_updated_at = auth_updated_at a\<rparr>)"

definition upstream_hash_input :: "upstream \<Rightarrow> bundle_upstream_hash_input" where
  "upstream_hash_input u =
     \<lparr>uh_id = up_id u, uh_name = up_name u, uh_ecosystem = up_ecosystem u, uh_base_url = up_base_url u,
      uh_capabilities = copy_slice (slice_elems (up_capabilities u)), uh_auth = auth_hash_input u,
      uh_updated_at = up_updated_at u\<rparr>"

definition policy_hash_input :: "policy \<Rightarrow> string \<Rightarrow> bundle_policy_hash_input" where
  "policy_hash_input p config =
     \<lparr>ph_id = pol_id p, ph_upstream_id = pol_upstream_id p, ph_name = pol_name p, ph_type = pol_type p,
      ph_action = pol_action p, ph_schema_version = pol_schema_version p, ph_config = config,
      ph_target = pol_target p, ph_priority = pol_priority p, ph_enabled = pol_enabled p,
      ph_version = pol_version p, ph_updated_at = pol_updated_at p\<rparr>"

fun policy_payloads ::
  "(policy_config option \<Rightarrow> string result) \<Rightarrow> policy list \<Rightarrow> bundle_policy_hash_input list result" where
  "policy_payloads marshal [] = Inr []"
| "policy_payloads marshal (p # ps) =
     (case marshal (pol_config p) of
        Inl e \<Rightarrow> Inl (wrap_error ''marshalling policy config'' e)
      | Inr config \<Rightarrow> map_sum id (\<lambda>rest. policy_hash_input p config # rest) (policy_payloads marshal ps))"

definition bundleRevision :: "'s bundle_service \<Rightarrow> tenant \<Rightarrow> policy list \<Rightarrow> upstream list \<Rightarrow> string result" where
  "bundleRevision svc t policies upstreams =
     (case policy_payloads (bs_config_marshal svc) policies of
        Inl e \<Rightarrow> Inl e
      | Inr ps \<Rightarrow>
          (case bs_payload_marshal svc
                  \<lparr>bh_tenant = \<lparr>th_id = tenant_id t, th_name = tenant_name t, th_created_at = tenant_created_at t,
                     th_updated_at = tenant_updated_at t\<rparr>,
                   bh_policies = ps, bh_upstreams = map upstream_hash_input upstreams\<rparr> of
             Inl e \<Rightarrow> Inl (wrap_error ''marshalling bundle payload'' e)
           | Inr data \<Rightarrow> Inr (bs_sha256_hex svc data)))"

definition listBundleUpstreams :: "'s bundle_service \<Rightarrow> string \<Rightarrow> ('s, upstream list result) state" where
  "listBundleUpstreams svc tenantID =
     (case bs_list_bundle_upstreams svc of
        None \<Rightarrow> pure_result (Inl (plain_error ''bundle upstream repository is not configured''))
      | Some list_bundle \<Rightarrow> list_bundle tenantID)"

definition BuildTenantBundle :: "'s bundle_service \<Rightarrow> string \<Rightarrow> ('s, tenant_bundle result) state" where
  "BuildTenantBundle svc tenantID =
     on_ok (wrapped ''loading bundle tenant'' (bs_get_tenant svc tenantID))
       (\<lambda>found. case found of
          None \<Rightarrow> pure_result (Inl (wrap_error ''loading bundle tenant'' (sentinel_error ErrTenantNotFound)))
        | Some t \<Rightarrow>
            on_ok (wrapped ''listing bundle policies'' (bs_list_policies svc tenantID))
              (\<lambda>policies. on_ok (wrapped ''listing bundle upstreams'' (listBundleUpstreams svc tenantID))
                 (\<lambda>upstreams.
                    if \<not> bs_include_upstream_auth svc \<and> (\<exists>u \<in> set upstreams. UpstreamAuthConfigured u) then
                      pure_result (Inl (wrap_sentinel ErrUpstreamAuthTransportInsecure
                        ''authenticated upstreams cannot be bundled over insecure transport''))
                    else on_ok (pure_result (map_error (wrap_error ''computing bundle revision'')
                             (bundleRevision svc t policies upstreams)))
                           (\<lambda>revision. do {
                              now \<leftarrow> time_now (bs_runtime svc);
                              pure_result (Inr \<lparr>bun_tenant = t, bun_tenant_id = tenant_id t, bun_revision = revision,
                                bun_generated_at = now, bun_policies = policies, bun_upstreams = upstreams\<rparr>)
                            }))))"

section \<open>The cached provider\<close>

record cached_bundle =
  cb_bundle :: "tenant_bundle option"
  cb_refreshed :: time

record bundle_cache =
  bc_entries :: "(string \<times> cached_bundle) list"
  bc_last_success_tenant :: string
  bc_last_success_rev :: string
  bc_last_success_at :: "time option"
  bc_last_failure_tenant :: string
  bc_last_failure_err :: string
  bc_last_failure_at :: "time option"

record 's cached_bundle_provider =
  cbp_provider :: "string \<Rightarrow> ('s, tenant_bundle option result) state"
  cbp_refresh_interval :: duration
  cbp_runtime :: "'s runtime"

definition NewCachedBundleProvider :: bundle_cache where
  "NewCachedBundleProvider =
     \<lparr>bc_entries = [], bc_last_success_tenant = [], bc_last_success_rev = [], bc_last_success_at = None,
      bc_last_failure_tenant = [], bc_last_failure_err = [], bc_last_failure_at = None\<rparr>"

definition on_world :: "('s, 'a) state \<Rightarrow> ('s \<times> 'c, 'a) state" where
  "on_world m = State (\<lambda>(s, c). case run_state m s of (a, s') \<Rightarrow> (a, (s', c)))"

definition on_cache :: "('c \<Rightarrow> 'c) \<Rightarrow> ('s \<times> 'c, unit) state" where
  "on_cache f = State (\<lambda>(s, c). ((), (s, f c)))"

text \<open>Copying the capabilities into a fresh slice turns an empty slice into nil.\<close>

definition cloneBundle :: "tenant_bundle option \<Rightarrow> tenant_bundle option" where
  "cloneBundle b =
     map_option (\<lambda>bundle. bundle\<lparr>bun_upstreams :=
       map (\<lambda>u. u\<lparr>up_capabilities := copy_slice (slice_elems (up_capabilities u))\<rparr>) (bun_upstreams bundle)\<rparr>) b"

definition shouldRefresh :: "'s cached_bundle_provider \<Rightarrow> time \<Rightarrow> time \<Rightarrow> bool" where
  "shouldRefresh p now refreshed \<longleftrightarrow>
     cbp_refresh_interval p \<le> 0 \<or> cbp_refresh_interval p \<le> time_since now refreshed"

definition bundle_store :: "string \<Rightarrow> tenant_bundle option \<Rightarrow> time \<Rightarrow> bundle_cache \<Rightarrow> bundle_cache" where
  "bundle_store tenantID b now c =
     c\<lparr>bc_entries := AList.update tenantID \<lparr>cb_bundle = cloneBundle b, cb_refreshed = now\<rparr> (bc_entries c)\<rparr>"

definition recordSuccess :: "string \<Rightarrow> tenant_bundle option \<Rightarrow> time \<Rightarrow> bundle_cache \<Rightarrow> bundle_cache" where
  "recordSuccess tenantID b now c =
     (let c1 = c\<lparr>bc_last_success_tenant := tenantID, bc_last_success_at := Some now\<rparr>
      in case b of None \<Rightarrow> c1 | Some bundle \<Rightarrow> c1\<lparr>bc_last_success_rev := bun_revision bundle\<rparr>)"

definition recordFailure :: "string \<Rightarrow> go_error \<Rightarrow> time \<Rightarrow> bundle_cache \<Rightarrow> bundle_cache" where
  "recordFailure tenantID e now c =
     c\<lparr>bc_last_failure_tenant := tenantID, bc_last_failure_err := err_text e, bc_last_failure_at := Some now\<rparr>"

definition refreshBundle ::
  "'s cached_bundle_provider \<Rightarrow> string \<Rightarrow> cached_bundle option \<Rightarrow>
   ('s \<times> bundle_cache, tenant_bundle option result) state" where
  "refreshBundle p tenantID entry =
     do {
       fetched \<leftarrow> on_world (cbp_provider p tenantID);
       (case fetched of
          Inr bundle \<Rightarrow>
            do {
              stored \<leftarrow> on_world (time_now (cbp_runtime p));
              _ \<leftarrow> on_cache (bundle_store tenantID bundle stored);
              succeeded \<leftarrow> on_world (time_now (cbp_runtime p));
              _ \<leftarrow> on_cache (recordSuccess tenantID bundle succeeded);
              State_Monad.return (Inr (cloneBundle bundle))
            }
        | Inl e \<Rightarrow>
            do {
              failed \<leftarrow> on_world (time_now (cbp_runtime p));
              _ \<leftarrow> on_cache (recordFailure tenantID e failed);
              State_Monad.return (case entry of
                  Some cached \<Rightarrow> Inr (cloneBundle (cb_bundle cached))
                | None \<Rightarrow> Inl (wrap_sentinel ErrBundleUnavailable (err_text e)))
            })
     }"

definition GetTenantBundle ::
  "'s cached_bundle_provider \<Rightarrow> string \<Rightarrow> ('s \<times> bundle_cache, tenant_bundle option result) state" where
  "GetTenantBundle p tenantID =
     do {
       entry \<leftarrow> State (\<lambda>(s, c). (map_of (bc_entries c) tenantID, (s, c)));
       now \<leftarrow> on_world (time_now (cbp_runtime p));
       (case entry of
          Some e \<Rightarrow>
            if \<not> shouldRefresh p now (cb_refreshed e) then State_Monad.return (Inr (cloneBundle (cb_bundle e)))
            else refreshBundle p tenantID entry
        | None \<Rightarrow> refreshBundle p tenantID entry)
     }"

record component_status =
  cs_status :: string
  cs_message :: string
  cs_timestamp :: "time option"

definition shortRevision :: "string \<Rightarrow> string" where
  "shortRevision revision = (if length revision \<le> 12 then revision else take 12 revision)"

definition later_than :: "time option \<Rightarrow> time option \<Rightarrow> bool" where
  "later_than a b \<longleftrightarrow>
     (case a of None \<Rightarrow> False | Some x \<Rightarrow> (case b of None \<Rightarrow> True | Some y \<Rightarrow> y < x))"

definition CheckStatus :: "bundle_cache \<Rightarrow> component_status" where
  "CheckStatus c =
     (let cached_count = length (bc_entries c);
          failure = '' last refresh failed for tenant '' @ quote (bc_last_failure_tenant c) @ '': '' @ bc_last_failure_err c
      in if later_than (bc_last_failure_at c) (bc_last_success_at c) then
           (if cached_count > 0 then
              \<lparr>cs_status = ''stale'',
               cs_message = ''serving last-known-good bundle cache ('' @ show_nat cached_count @ '' cached);'' @ failure,
               cs_timestamp = bc_last_failure_at c\<rparr>
            else
              \<lparr>cs_status = ''unavailable'', cs_message = ''no cached bundle available;'' @ failure,
               cs_timestamp = bc_last_failure_at c\<rparr>)
         else if bc_last_success_at c \<noteq> None then
           \<lparr>cs_status = ''ready'',
            cs_message = show_nat cached_count @ '' cached bundle(s); last refresh succeeded for tenant '' @
              quote (bc_last_success_tenant c) @ '' at revision '' @ shortRevision (bc_last_success_rev c),
            cs_timestamp = bc_last_success_at c\<rparr>
         else \<lparr>cs_status = ''idle'', cs_message = ''no tenant bundles loaded yet'', cs_timestamp = None\<rparr>)"

section \<open>The repositories of the proxy\<close>

type_synonym 's bundle_provider = "string \<Rightarrow> ('s, tenant_bundle option result) state"

definition nil_bundle :: go_error where
  "nil_bundle = plain_error ''runtime error: invalid memory address or nil pointer dereference''"

definition with_bundle :: "'s bundle_provider \<Rightarrow> string \<Rightarrow> (tenant_bundle \<Rightarrow> 'a result) \<Rightarrow> ('s, 'a result) state" where
  "with_bundle provider tenantID f =
     on_ok (provider tenantID)
       (\<lambda>b. pure_result (case b of None \<Rightarrow> Inl nil_bundle | Some bundle \<Rightarrow> f bundle))"

definition BundlePolicyGetByID :: "'s bundle_provider \<Rightarrow> string \<Rightarrow> string \<Rightarrow> ('s, policy result) state" where
  "BundlePolicyGetByID provider tenantID id' =
     with_bundle provider tenantID
       (\<lambda>b. case List.find (\<lambda>p. pol_id p = id') (bun_policies b) of
          None \<Rightarrow> Inl (sentinel_error ErrPolicyNotFound)
        | Some p \<Rightarrow> Inr p)"

definition BundlePolicyListByTenant :: "'s bundle_provider \<Rightarrow> string \<Rightarrow> ('s, policy list result) state" where
  "BundlePolicyListByTenant provider tenantID = with_bundle provider tenantID (\<lambda>b. Inr (bun_policies b))"

definition BundlePolicyListVersions :: "string \<Rightarrow> string \<Rightarrow> int \<Rightarrow> ('s, policy_version list result) state" where
  "BundlePolicyListVersions tenantID id' limit =
     pure_result (Inl (plain_error ''bundle policy repository is read-only''))"

definition BundlePolicyRollback :: "string \<Rightarrow> string \<Rightarrow> int \<Rightarrow> ('s, policy result) state" where
  "BundlePolicyRollback tenantID id' version =
     pure_result (Inl (plain_error ''bundle policy repository is read-only''))"

definition BundlePolicyCreate :: "policy \<Rightarrow> ('s, policy result) state" where
  "BundlePolicyCreate p = pure_result (Inl (plain_error ''bundle policy repository is read-only''))"

definition BundlePolicyUpdate :: "policy \<Rightarrow> ('s, policy result) state" where
  "BundlePolicyUpdate p = pure_result (Inl (plain_error ''bundle policy repository is read-only''))"

definition BundlePolicyDelete :: "string \<Rightarrow> string \<Rightarrow> bool \<Rightarrow> ('s, unit result) state" where
  "BundlePolicyDelete tenantID id' force =
     pure_result (Inl (plain_error ''bundle policy repository is read-only''))"

definition BundleUpstreamGetByID :: "'s bundle_provider \<Rightarrow> string \<Rightarrow> string \<Rightarrow> ('s, upstream result) state" where
  "BundleUpstreamGetByID provider tenantID id' =
     with_bundle provider tenantID
       (\<lambda>b. case List.find (\<lambda>u. up_id u = id') (bun_upstreams b) of
          None \<Rightarrow> Inl (sentinel_error ErrUpstreamNotFound)
        | Some u \<Rightarrow> Inr u)"

fun select_upstream :: "ecosystem_type \<Rightarrow> upstream list \<Rightarrow> upstream option \<Rightarrow> upstream option" where
  "select_upstream eco [] selected = selected"
| "select_upstream eco (u # us) selected =
     (if up_ecosystem u \<noteq> eco then select_upstream eco us selected
      else (case selected of
          None \<Rightarrow> select_upstream eco us (Some u)
        | Some best \<Rightarrow>
            (if up_updated_at best < up_updated_at u then select_upstream eco us (Some u)
             else select_upstream eco us selected)))"

definition BundleGetByEcosystem :: "'s bundle_provider \<Rightarrow> string \<Rightarrow> ecosystem_type \<Rightarrow> ('s, upstream result) state" where
  "BundleGetByEcosystem provider tenantID eco =
     with_bundle provider tenantID
       (\<lambda>b. case select_upstream eco (bun_upstreams b) None of
          None \<Rightarrow> Inl (sentinel_error ErrUpstreamNotFound)
        | Some u \<Rightarrow> Inr u)"

definition BundleUpstreamListByTenant :: "'s bundle_provider \<Rightarrow> string \<Rightarrow> ('s, upstream list result) state" where
  "BundleUpstreamListByTenant provider tenantID = with_bundle provider tenantID (\<lambda>b. Inr (bun_upstreams b))"

definition BundleUpstreamCreate :: "upstream \<Rightarrow> ('s, upstream result) state" where
  "BundleUpstreamCreate u = pure_result (Inl (plain_error ''bundle upstream repository is read-only''))"

definition BundleUpstreamUpdate :: "upstream \<Rightarrow> ('s, upstream result) state" where
  "BundleUpstreamUpdate u = pure_result (Inl (plain_error ''bundle upstream repository is read-only''))"

definition BundleUpstreamDelete :: "string \<Rightarrow> string \<Rightarrow> ('s, unit result) state" where
  "BundleUpstreamDelete tenantID id' = pure_result (Inl (plain_error ''bundle upstream repository is read-only''))"

definition TenantLookupGetByID :: "'s bundle_provider \<Rightarrow> string \<Rightarrow> ('s, tenant result) state" where
  "TenantLookupGetByID provider id' =
     on_ok (provider id')
       (\<lambda>b. pure_result (case b of
            None \<Rightarrow> Inl (sentinel_error ErrTenantNotFound)
          | Some bundle \<Rightarrow>
              (let t0 = bun_tenant bundle;
                   t = (if tenant_id t0 = [] then t0\<lparr>tenant_id := bun_tenant_id bundle\<rparr> else t0)
               in if tenant_id t = [] \<or> tenant_id t \<noteq> id' then Inl (sentinel_error ErrTenantNotFound) else Inr t)))"

section \<open>One request to the cached provider\<close>

lemma clone_idem [simp]: "cloneBundle (cloneBundle b) = cloneBundle b"
  by (cases b) (simp_all add: cloneBundle_def)

definition fetched :: "'s cached_bundle_provider \<Rightarrow> string \<Rightarrow> tenant_bundle option \<Rightarrow> bool" where
  "fetched p t b \<longleftrightarrow> (\<exists>s b0 s'. run_state (cbp_provider p t) s = (Inr b0, s') \<and> b = cloneBundle b0)"

definition cache_ok :: "'s cached_bundle_provider \<Rightarrow> bundle_cache \<Rightarrow> bool" where
  "cache_ok p c \<longleftrightarrow> (\<forall>t e. map_of (bc_entries c) t = Some e \<longrightarrow> fetched p t (cb_bundle e))"

lemma fetched_clone: "fetched p t b \<Longrightarrow> cloneBundle b = b"
  by (auto simp: fetched_def)

lemma entries_records [simp]:
  "bc_entries (recordSuccess t b now c) = bc_entries c" "bc_entries (recordFailure t e now c) = bc_entries c"
  by (simp_all add: recordSuccess_def recordFailure_def Let_def split: option.split)

lemma run_on_world: "run_state (on_world m) (s, c) = (case run_state m s of (a, s') \<Rightarrow> (a, (s', c)))"
  by (simp add: on_world_def)

lemma run_on_cache: "run_state (on_cache f) (s, c) = ((), (s, f c))"
  by (simp add: on_cache_def)

lemma refresh_run:
  assumes "run_state (refreshBundle p t entry) (s, c) = (r, (s', c'))"
  obtains (ok) b0 s1 e where "run_state (cbp_provider p t) s = (Inr b0, s1)" "r = Inr (cloneBundle b0)"
      "map_of (bc_entries c') = (map_of (bc_entries c))(t \<mapsto> e)" "cb_bundle e = cloneBundle b0"
    | (stale) cached where "entry = Some cached" "r = Inr (cloneBundle (cb_bundle cached))" "bc_entries c' = bc_entries c"
    | (failed) e where "entry = None" "r = Inl e" "errors_is e ErrBundleUnavailable" "bc_entries c' = bc_entries c"
proof (cases "run_state (cbp_provider p t) s")
  case (Pair res s1)
  note defs = refreshBundle_def run_on_world run_on_cache time_now_def read_world_def
  show ?thesis
  proof (cases res)
    case (Inl e)
    show ?thesis
    proof (cases entry)
      case None
      show ?thesis by (rule failed) (use assms Pair Inl None in \<open>auto simp: defs\<close>)
    next
      case (Some cached)
      show ?thesis by (rule stale [OF Some]) (use assms Pair Inl Some in \<open>auto simp: defs\<close>)
    qed
  next
    case (Inr b0)
    show ?thesis
      by (rule ok [of b0 s1 "\<lparr>cb_bundle = cloneBundle b0, cb_refreshed = rt_now (cbp_runtime p) s1\<rparr>"])
        (use assms Pair Inr in \<open>auto simp: defs bundle_store_def update_conv'\<close>)
  qed
qed

text \<open>What one request does to the entries, and what it returns.\<close>

lemma request_step:
  assumes "run_state (GetTenantBundle p t) (s, c) = (r, (s', c'))" "cache_ok p c"
  shows "cache_ok p c' \<and> dom (map_of (bc_entries c')) = dom (map_of (bc_entries c)) \<union> (if isl r then {} else {t}) \<and>
    (case r of Inr b \<Rightarrow> fetched p t b
     | Inl e \<Rightarrow> errors_is e ErrBundleUnavailable \<and> map_of (bc_entries c) t = None)"
proof -
  let ?entry = "map_of (bc_entries c) t"
  have "(\<exists>e. ?entry = Some e \<and> r = Inr (cloneBundle (cb_bundle e)) \<and> c' = c) \<or>
      run_state (refreshBundle p t ?entry) (s, c) = (r, (s', c'))"
    using assms(1)
    by (auto simp: GetTenantBundle_def run_on_world time_now_def read_world_def split: option.splits if_splits)
  then consider e where "?entry = Some e" "r = Inr (cloneBundle (cb_bundle e))" "c' = c"
    | "run_state (refreshBundle p t ?entry) (s, c) = (r, (s', c'))" by blast
  then show ?thesis
  proof cases
    case 1
    then have "fetched p t (cb_bundle e)" using assms(2) by (simp add: cache_ok_def)
    with 1 assms(2) fetched_clone [OF this] show ?thesis by auto
  next
    case 2
    then show ?thesis
    proof (cases rule: refresh_run)
      case (ok b0 s1 e)
      then have "fetched p t (cloneBundle b0)" unfolding fetched_def by blast
      with ok assms(2) show ?thesis by (auto simp: cache_ok_def)
    next
      case (stale cached)
      then have "fetched p t (cb_bundle cached)" using assms(2) by (simp add: cache_ok_def)
      with stale assms(2) fetched_clone [OF this] show ?thesis by (auto simp: cache_ok_def)
    next
      case (failed e)
      with assms(2) show ?thesis by (auto simp: cache_ok_def)
    qed
  qed
qed

section \<open>Sequences of requests\<close>

fun run_requests ::
  "'s cached_bundle_provider \<Rightarrow> string list \<Rightarrow> ('s \<times> bundle_cache, (string \<times> tenant_bundle option result) list) state" where
  "run_requests p [] = State_Monad.return []"
| "run_requests p (t # ts) =
     do { r \<leftarrow> GetTenantBundle p t; rs \<leftarrow> run_requests p ts; State_Monad.return ((t, r) # rs) }"

lemma requests_invariant:
  assumes "run_state (run_requests p ts) (s, c) = (xs @ (t, r) # ys, w)" "cache_ok p c"
  shows "case r of Inr b \<Rightarrow> fetched p t b
    | Inl e \<Rightarrow> errors_is e ErrBundleUnavailable \<and> map_of (bc_entries c) t = None \<and> (\<forall>x \<in> set xs. fst x = t \<longrightarrow> isl (snd x))"
  using assms
proof (induction ts arbitrary: s c xs w)
  case (Cons u ts)
  obtain r1 s1 c1 where r1: "run_state (GetTenantBundle p u) (s, c) = (r1, (s1, c1))" by (metis prod.exhaust)
  obtain rs w1 where rs: "run_state (run_requests p ts) (s1, c1) = (rs, w1)"
    by (cases "run_state (run_requests p ts) (s1, c1)") auto
  note step = request_step [OF r1 Cons.prems(2)] and ih = Cons.IH
  have eq: "(u, r1) # rs = xs @ (t, r) # ys" using Cons.prems(1) r1 rs by simp
  show ?case
  proof (cases xs)
    case Nil
    with eq step show ?thesis by (auto split: sum.splits)
  next
    case (Cons x xs')
    with eq rs have "run_state (run_requests p ts) (s1, c1) = (xs' @ (t, r) # ys, w1)" by simp
    from ih [OF this] step have "case r of Inr b \<Rightarrow> fetched p t b
      | Inl e \<Rightarrow> errors_is e ErrBundleUnavailable \<and> map_of (bc_entries c1) t = None \<and> (\<forall>x \<in> set xs'. fst x = t \<longrightarrow> isl (snd x))"
      by simp
    moreover have "map_of (bc_entries c1) t = None \<Longrightarrow> map_of (bc_entries c) t = None \<and> (u = t \<longrightarrow> isl r1)"
    proof -
      assume "map_of (bc_entries c1) t = None"
      then have "t \<notin> dom (map_of (bc_entries c)) \<union> (if isl r1 then {} else {u})"
        using step by (metis domIff)
      then show ?thesis by (auto split: if_splits)
    qed
    ultimately show ?thesis using eq Cons by (auto split: sum.splits)
  qed
qed simp

section \<open>Lookups of the proxy\<close>

lemma select_upstream_spec:
  "select_upstream eco us selected = Some u \<Longrightarrow> \<forall>b. selected = Some b \<longrightarrow> up_ecosystem b = eco \<Longrightarrow>
   up_ecosystem u = eco \<and> (u \<in> set us \<or> selected = Some u) \<and>
   (\<forall>v \<in> set us. up_ecosystem v = eco \<longrightarrow> up_updated_at v \<le> up_updated_at u) \<and>
   (\<forall>b. selected = Some b \<longrightarrow> up_updated_at b \<le> up_updated_at u)"
proof (induction us arbitrary: selected)
  case (Cons x us)
  show ?case
  proof (cases "up_ecosystem x = eco \<and> (\<forall>b. selected = Some b \<longrightarrow> up_updated_at b < up_updated_at x)")
    case True
    with Cons.prems have "select_upstream eco us (Some x) = Some u" by (auto split: option.splits)
    from Cons.IH [OF this] True show ?thesis by fastforce
  next
    case False
    with Cons.prems have "select_upstream eco us selected = Some u" by (auto split: option.splits if_splits)
    from Cons.IH [OF this Cons.prems(2)] False show ?thesis by fastforce
  qed
qed simp

lemma with_bundle_InrE:
  assumes "run_state (with_bundle provider t f) s = (Inr a, s')"
  obtains b where "run_state (provider t) s = (Inr (Some b), s')" "f b = Inr a"
  using assms unfolding with_bundle_def by (auto elim!: on_ok_InrE split: option.splits)

lemma build_bundle_auth:
  assumes "run_state (BuildTenantBundle svc t) s = (Inr b, s')" "\<not> bs_include_upstream_auth svc"
  shows "\<forall>u \<in> set (bun_upstreams b). \<not> UpstreamAuthConfigured u"
proof -
  from assms(1) obtain found s1 where "run_state (case found of
          None \<Rightarrow> pure_result (Inl (wrap_error ''loading bundle tenant'' (sentinel_error ErrTenantNotFound)))
        | Some t' \<Rightarrow> on_ok (wrapped ''listing bundle policies'' (bs_list_policies svc t))
            (\<lambda>policies. on_ok (wrapped ''listing bundle upstreams'' (listBundleUpstreams svc t))
               (\<lambda>upstreams.
                  if \<not> bs_include_upstream_auth svc \<and> (\<exists>u \<in> set upstreams. UpstreamAuthConfigured u) then
                    pure_result (Inl (wrap_sentinel ErrUpstreamAuthTransportInsecure
                      ''authenticated upstreams cannot be bundled over insecure transport''))
                  else on_ok (pure_result (map_error (wrap_error ''computing bundle revision'')
                           (bundleRevision svc t' policies upstreams)))
                         (\<lambda>revision. do {
                            now \<leftarrow> time_now (bs_runtime svc);
                            pure_result (Inr \<lparr>bun_tenant = t', bun_tenant_id = tenant_id t', bun_revision = revision,
                              bun_generated_at = now, bun_policies = policies, bun_upstreams = upstreams\<rparr>)
                          })))) s1 = (Inr b, s')"
    unfolding BuildTenantBundle_def by (rule on_ok_InrE)
  with assms(2) show ?thesis
    by (auto elim!: on_ok_InrE split: option.splits if_splits simp: time_now_def read_world_def)
qed

text \<open>A bundle service over fixed repositories, and a control plane that answers once and then fails.\<close>

definition sample_bundle :: tenant_bundle where
  "sample_bundle =
     \<lparr>bun_tenant = \<lparr>tenant_id = ''t1'', tenant_name = ''acme'', tenant_created_at = 0, tenant_updated_at = 0\<rparr>,
      bun_tenant_id = ''t1'', bun_revision = ''r1'', bun_generated_at = 0, bun_policies = [deny_policy ''block'' 1 False],
      bun_upstreams = [sample_upstream ''u1'' EcosystemNPM, (sample_upstream ''u2'' EcosystemNPM)\<lparr>up_updated_at := 5\<rparr>]\<rparr>"

definition flaky_provider :: "nat cached_bundle_provider" where
  "flaky_provider =
     \<lparr>cbp_provider = \<lambda>t. State (\<lambda>n. (if n = 1 then Inr (Some sample_bundle) else Inl (plain_error ''connection refused''), n + 1)),
      cbp_refresh_interval = 0, cbp_runtime = sample_runtime\<rparr>"

section \<open>The theorems\<close>

text \<open>C40. The proxy stays available: in every sequence of bundle requests, each answer is a bundle that the
  control plane returned for this tenant, or the error \<open>ErrBundleUnavailable\<close>, and the error occurs only
  when no earlier request of the tenant was answered; once a tenant was served it is served ever after.\<close>

theorem bundle_stays_available:
  assumes "run_state (run_requests p ts) (s, NewCachedBundleProvider) = (xs @ (t, r) # ys, w)"
  shows "case r of
      Inr b \<Rightarrow> (\<exists>s1 b0 s2. run_state (cbp_provider p t) s1 = (Inr b0, s2) \<and> b = cloneBundle b0)
    | Inl e \<Rightarrow> errors_is e ErrBundleUnavailable \<and> (\<forall>x \<in> set xs. fst x = t \<longrightarrow> isl (snd x))"
  using requests_invariant [OF assms]
  by (auto simp: cache_ok_def NewCachedBundleProvider_def fetched_def split: sum.splits)

theorem bundle_stays_available_witness:
  "fst (run_state (run_requests flaky_provider [''t1'', ''t1'', ''t1'']) (0, NewCachedBundleProvider)) =
     [(''t1'', Inl (wrap_sentinel ErrBundleUnavailable ''connection refused''))] @ (''t1'', Inr (cloneBundle (Some sample_bundle))) #
     [(''t1'', Inr (cloneBundle (Some sample_bundle)))] \<and>
   (\<exists>s1 b0 s2. run_state (cbp_provider flaky_provider ''t1'') s1 = (Inr b0, s2) \<and>
      cloneBundle (Some sample_bundle) = cloneBundle b0)"
proof -
  let ?run = "run_state (run_requests flaky_provider [''t1'', ''t1'', ''t1'']) (0, NewCachedBundleProvider)"
  have f: "fst ?run = [(''t1'', Inl (wrap_sentinel ErrBundleUnavailable ''connection refused''))] @
      (''t1'', Inr (cloneBundle (Some sample_bundle))) # [(''t1'', Inr (cloneBundle (Some sample_bundle)))]"
    by code_simp
  then have "?run = ([(''t1'', Inl (wrap_sentinel ErrBundleUnavailable ''connection refused''))] @
      (''t1'', Inr (cloneBundle (Some sample_bundle))) # [(''t1'', Inr (cloneBundle (Some sample_bundle)))], snd ?run)"
    by (simp add: prod_eq_iff)
  from bundle_stays_available [OF this] f show ?thesis by simp
qed

text \<open>The upstream that the proxy selects for an ecosystem is one of the tenant's bundle, has that
  ecosystem and is the most recently updated of those; a tenant lookup returns only the tenant asked for.\<close>

lemma proxy_lookup_sound:
  assumes "run_state (BundleGetByEcosystem provider t eco) s = (Inr u, s')"
    and "run_state (TenantLookupGetByID provider t) s2 = (Inr found, s3)"
  shows "(\<exists>b. run_state (provider t) s = (Inr (Some b), s') \<and> u \<in> set (bun_upstreams b) \<and> up_ecosystem u = eco \<and>
      (\<forall>v \<in> set (bun_upstreams b). up_ecosystem v = eco \<longrightarrow> up_updated_at v \<le> up_updated_at u)) \<and>
    tenant_id found = t \<and> t \<noteq> []"
proof -
  from assms(1) obtain b where b: "run_state (provider t) s = (Inr (Some b), s')"
    "select_upstream eco (bun_upstreams b) None = Some u"
    unfolding BundleGetByEcosystem_def by (auto elim!: with_bundle_InrE split: option.splits)
  from select_upstream_spec [OF b(2)] have "up_ecosystem u = eco" "u \<in> set (bun_upstreams b)"
    "\<forall>v \<in> set (bun_upstreams b). up_ecosystem v = eco \<longrightarrow> up_updated_at v \<le> up_updated_at u" by auto
  moreover from assms(2) have "tenant_id found = t \<and> t \<noteq> []"
    unfolding TenantLookupGetByID_def
    by (auto elim!: on_ok_InrE simp: Let_def split: option.splits if_splits)
  ultimately show ?thesis using b(1) by blast
qed

lemma proxy_lookup_sound_witness:
  "let provider = (\<lambda>_. State_Monad.return (Inr (Some sample_bundle))) :: unit bundle_provider
   in \<exists>u. run_state (BundleGetByEcosystem provider ''t1'' EcosystemNPM) () = (Inr u, ()) \<and> up_id u = ''u2'' \<and>
     (\<exists>b. run_state (provider ''t1'') () = (Inr (Some b), ()) \<and> u \<in> set (bun_upstreams b) \<and> up_ecosystem u = EcosystemNPM)"
proof -
  let ?p = "(\<lambda>_. State_Monad.return (Inr (Some sample_bundle))) :: unit bundle_provider"
  have u: "run_state (BundleGetByEcosystem ?p ''t1'' EcosystemNPM) () =
      (Inr ((sample_upstream ''u2'' EcosystemNPM)\<lparr>up_updated_at := 5\<rparr>), ())" by code_simp
  have t: "run_state (TenantLookupGetByID ?p ''t1'') () = (Inr (bun_tenant sample_bundle), ())" by code_simp
  from proxy_lookup_sound [OF u t] u show ?thesis
    unfolding Let_def by (auto simp: sample_upstream_def)
qed

end
