(* ===== verification/Go_Path.thy ===== *)
theory Go_Path
  imports Go_Prelude
begin

text \<open>
  The part of Go's package \<open>path\<close> that the lockfile resolver uses (slash-separated paths, lexical
  processing only), \<open>strings.Split\<close> for longer separators, and the length bounds that make a walk
  towards the root terminate.
\<close>

section \<open>Splitting\<close>

function split_str :: "string \<Rightarrow> string \<Rightarrow> string list" where
  "split_str sep s =
     (if sep = [] \<or> s = [] then [s]
      else if has_prefix sep s then [] # split_str sep (drop (length sep) s)
      else (case split_str sep (tl s) of [] \<Rightarrow> [s] | w # ws \<Rightarrow> (hd s # w) # ws))"
  by pat_completeness auto
termination by (relation "measure (\<lambda>(sep, s). length s)") auto

declare split_str.simps [simp del]

lemma split_str_not_Nil [simp]: "split_str sep s \<noteq> []"
  by (induction sep s rule: split_str.induct) (subst split_str.simps, simp split: list.split)

section \<open>Paths\<close>

definition slash_parts :: "string \<Rightarrow> string list" where
  "slash_parts s = split_by (\<lambda>c. c = CHR ''/'') s"

text \<open>\<open>path.Clean\<close> keeps the elements of the result on a stack, innermost first.\<close>

definition clean_step :: "bool \<Rightarrow> string list \<Rightarrow> string \<Rightarrow> string list" where
  "clean_step rooted stack e =
     (if e = [] \<or> e = ''.'' then stack
      else if e = ''..'' then
        (case stack of
           [] \<Rightarrow> (if rooted then [] else [''..''])
         | inner # below \<Rightarrow> (if inner = ''..'' then ''..'' # stack else below))
      else e # stack)"

definition path_clean :: "string \<Rightarrow> string" where
  "path_clean s =
     (let rooted = has_prefix ''/'' s;
          out = join ''/'' (rev (foldl (clean_step rooted) [] (slash_parts s)))
      in if rooted then ''/'' @ out else if out = [] then ''.'' else out)"

definition path_join :: "string list \<Rightarrow> string" where
  "path_join elems =
     (let es = filter (\<lambda>e. e \<noteq> []) elems in if es = [] then [] else path_clean (join ''/'' es))"

text \<open>The directory part up to and with the last slash, cleaned.\<close>

definition path_dir :: "string \<Rightarrow> string" where
  "path_dir s = path_clean (rev (dropWhile (\<lambda>c. c \<noteq> CHR ''/'') (rev s)))"

section \<open>Lengths\<close>

definition weight :: "string list \<Rightarrow> nat" where
  "weight es = sum_list (map (\<lambda>e. Suc (length e)) es)"

lemma weight_simps [simp]:
  "weight [] = 0" "weight (e # es) = Suc (length e) + weight es" "weight (xs @ ys) = weight xs + weight ys"
  by (simp_all add: weight_def)

lemma weight_rev [simp]: "weight (rev xs) = weight xs"
  by (induction xs) auto

lemma length_join: "es \<noteq> [] \<Longrightarrow> Suc (length (join ''/'' es)) = weight es"
  by (induction "''/''" es rule: join.induct) auto

lemma split_by_not_Nil [simp]: "split_by p s \<noteq> []"
  by (induction s) (auto split: list.split)

lemma weight_slash_parts: "weight (slash_parts s) = Suc (length s)"
  unfolding slash_parts_def by (induction s) (auto split: list.split)

lemma weight_clean_step: "weight (clean_step rooted stack e) \<le> weight stack + (if e = [] then 0 else Suc (length e))"
  by (auto simp: clean_step_def split: list.split)

lemma weight_clean:
  "weight (foldl (clean_step rooted) stack es) \<le> weight stack + weight (filter (\<lambda>e. e \<noteq> []) es)"
proof (induction es arbitrary: stack)
  case (Cons e es)
  with weight_clean_step [of rooted stack e] show ?case
    by (auto intro: order_trans [OF Cons.IH])
qed simp

lemma slash_parts_append: "slash_parts (s @ ''/'') = slash_parts s @ [[]]"
  unfolding slash_parts_def by (induction s) (auto split: list.split)

lemma slash_parts_Cons: "slash_parts (CHR ''/'' # s) = [] # slash_parts s"
  by (simp add: slash_parts_def)

lemma weight_filter_le: "weight (filter p es) \<le> weight es"
  by (induction es) auto

text \<open>Cleaning a path that ends in a slash shortens it, unless it is the root or the working directory.\<close>

lemma length_clean_slash:
  assumes "path_clean (s @ ''/'') \<noteq> ''/''" "path_clean (s @ ''/'') \<noteq> ''.''"
  shows "length (path_clean (s @ ''/'')) < Suc (length s)"
proof -
  let ?rooted = "has_prefix ''/'' (s @ ''/'')"
  let ?st = "foldl (clean_step ?rooted) [] (slash_parts (s @ ''/''))"
  have w: "weight ?st \<le> weight (filter (\<lambda>e. e \<noteq> []) (slash_parts s))"
    using weight_clean [of ?rooted "[]" "slash_parts (s @ ''/'')"] by (simp add: slash_parts_append)
  have st: "?st \<noteq> []"
  proof
    assume "?st = []"
    then have "path_clean (s @ ''/'') = (if ?rooted then ''/'' else ''.'')"
      by (cases ?rooted) (simp_all add: path_clean_def Let_def)
    with assms show False by (simp split: if_splits)
  qed
  then have len: "Suc (length (join ''/'' (rev ?st))) = weight ?st" by (simp add: length_join)
  show ?thesis
  proof (cases ?rooted)
    case False
    then have "path_clean (s @ ''/'') = join ''/'' (rev ?st) \<or> path_clean (s @ ''/'') = ''.''"
      by (simp add: path_clean_def Let_def)
    with assms(2) len w weight_filter_le [of "\<lambda>e. e \<noteq> []" "slash_parts s"] weight_slash_parts [of s]
    show ?thesis by auto
  next
    case True
    then have clean: "path_clean (s @ ''/'') = ''/'' @ join ''/'' (rev ?st)" by (simp add: path_clean_def Let_def)
    show ?thesis
    proof (cases s)
      case Nil
      with st show ?thesis by (simp add: slash_parts_def clean_step_def)
    next
      case (Cons c cs)
      with True have "c = CHR ''/''" by (simp add: has_prefix_def)
      with Cons w weight_filter_le [of "\<lambda>e. e \<noteq> []" "slash_parts cs"] weight_slash_parts [of cs] len clean
      show ?thesis by (simp add: slash_parts_Cons)
    qed
  qed
qed

lemma path_dir_shorter:
  assumes "path_dir s \<noteq> ''/''" "path_dir s \<noteq> ''.''"
  shows "length (path_dir s) < length s"
proof (cases "dropWhile (\<lambda>c. c \<noteq> CHR ''/'') (rev s)")
  case Nil
  have "path_clean [] = ''.''" by code_simp
  then have "path_dir s = ''.''" unfolding path_dir_def Nil by simp
  with assms show ?thesis by simp
next
  case (Cons c cs)
  then have c: "c = CHR ''/''" using hd_dropWhile [of "\<lambda>c. c \<noteq> CHR ''/''" "rev s"] by simp
  have "length (c # cs) \<le> length s" using length_dropWhile_le [of "\<lambda>c. c \<noteq> CHR ''/''" "rev s"] Cons by simp
  moreover have "path_dir s = path_clean (rev cs @ ''/'')" using Cons c by (simp add: path_dir_def)
  ultimately show ?thesis using length_clean_slash [of "rev cs"] assms by simp
qed

lemma path_examples:
  "path_clean ''a/./b//../c/'' = ''a/c''" "path_clean ''/../a'' = ''/a''" "path_clean [] = ''.''"
  "path_join [''a'', ''node_modules'', ''@x/y''] = ''a/node_modules/@x/y''" "path_join [[], ''b''] = ''b''"
  "path_dir ''a/b/c'' = ''a/b''" "path_dir ''a'' = ''.''" "path_dir ''/a'' = ''/''"
  "split_str ''/n/'' ''a/n/b/n/'' = [''a'', ''b'', []]"
  by code_simp+

end
