(* ===== verification/Npm_Graph.thy ===== *)
theory Npm_Graph
  imports Domain_Dependency Go_Path "HOL-Library.AList"
begin

text \<open>
  The npm lockfile resolver (\<open>internal/infra/npmgraph/lockfile.go\<close>): a \<open>package-lock.json\<close> becomes
  the nodes and edges of a dependency graph with the least depth of every package.

  A Go map is an association list with distinct keys. Go iterates over a map in an order of its own
  choice, so every loop over a map is given its order by a component of \<open>map_order\<close>, an arbitrary
  permutation. The lemmas show that the depths are shortest distances from the root, that nodes and
  edges form a well-formed graph, and that the result does not depend on the iteration orders.
\<close>

section \<open>Data\<close>

record lock_package =
  lp_name :: string
  lp_version :: string
  lp_dependencies :: "(string \<times> string) list"
  lp_dev_dependencies :: "(string \<times> string) list"
  lp_peer_dependencies :: "(string \<times> string) list"
  lp_optional_dependencies :: "(string \<times> string) list"
  lp_dev :: bool
  lp_optional :: bool

definition zero_package :: lock_package where
  "zero_package =
     \<lparr>lp_name = [], lp_version = [], lp_dependencies = [], lp_dev_dependencies = [], lp_peer_dependencies = [],
      lp_optional_dependencies = [], lp_dev = False, lp_optional = False\<rparr>"

type_synonym packages = "(string \<times> lock_package) list"
type_synonym node_table = "(string \<times> dependency_graph_node) list"

record package_lock =
  lock_packages :: packages

record map_order =
  range_packages :: "string list \<Rightarrow> string list"
  range_entries :: "string \<Rightarrow> (string \<times> dependency_type) list \<Rightarrow> (string \<times> dependency_type) list"
  range_nodes :: "dependency_graph_node list \<Rightarrow> dependency_graph_node list"

text \<open>Indexing a map gives the zero value of an absent key.\<close>

definition package_at :: "packages \<Rightarrow> string \<Rightarrow> lock_package" where
  "package_at ps path = (case map_of ps path of None \<Rightarrow> zero_package | Some p \<Rightarrow> p)"

definition id_at :: "(string \<times> string) list \<Rightarrow> string \<Rightarrow> string" where
  "id_at ids path = (case map_of ids path of None \<Rightarrow> [] | Some i \<Rightarrow> i)"

section \<open>Artifacts of a lockfile\<close>

definition rootWithFullName :: "artifact_identity \<Rightarrow> artifact_identity" where
  "rootWithFullName root0 =
     (let root1 = root0\<lparr>art_ecosystem := EcosystemNPM\<rparr>;
          rootArt = (if art_namespace root1 \<noteq> [] then
                    root1\<lparr>art_name := art_namespace root1 @ ''/'' @ art_name root1, art_namespace := []\<rparr>
                  else root1)
      in case NormalizeArtifactIdentity rootArt of Inl _ \<Rightarrow> rootArt | Inr normalized \<Rightarrow> normalized)"

definition sortedPackagePaths :: "map_order \<Rightarrow> packages \<Rightarrow> string list" where
  "sortedPackagePaths ord ps = sort (range_packages ord (map fst ps))"

definition packageNameFromLockPath :: "string \<Rightarrow> string" where
  "packageNameFromLockPath lockPath0 =
     (let lockPath = trim_prefix ''node_modules/'' lockPath0;
          lst = last (split_str ''/node_modules/'' lockPath);
          first = takeWhile (\<lambda>c. c \<noteq> CHR ''/'')
      in if has_prefix ''@'' lst then
           (case split_two (CHR ''/'') lst of
              [scope, rest] \<Rightarrow> scope @ ''/'' @ first rest
            | _ \<Rightarrow> first lst)
         else first lst)"

definition artifactForLockPackage ::
  "artifact_identity \<Rightarrow> string \<Rightarrow> lock_package \<Rightarrow> artifact_identity result" where
  "artifactForLockPackage rootArt lockPath pkg =
     (if lockPath = [] then
        (if art_version rootArt = [] then
           Inl (plain_error ''parsing package-lock.json: root version is required'')
         else Inr rootArt)
      else
        (let name = (if lp_name pkg = [] then packageNameFromLockPath lockPath else lp_name pkg)
         in if name = [] \<or> lp_version pkg = [] then
              Inl (plain_error (''parsing package-lock.json: package '' @ quote lockPath @
                    '' has missing name or version''))
            else
              map_error (wrap_error (''normalizing lock package '' @ quote lockPath))
                (NormalizeArtifactIdentity
                   \<lparr>art_ecosystem = EcosystemNPM, art_namespace = [], art_name = name,
                    art_version = lp_version pkg, art_digest = []\<rparr>)))"

definition new_node :: "artifact_identity \<Rightarrow> dependency_graph_node" where
  "new_node artifact =
     \<lparr>node_id = CacheKey artifact, node_root_id = [], node_artifact = artifact, node_min_depth = -1,
      node_dependency_types = []\<rparr>"

fun build_nodes_loop ::
  "artifact_identity \<Rightarrow> packages \<Rightarrow> string list \<Rightarrow> (string \<times> string) list \<Rightarrow> node_table \<Rightarrow>
   ((string \<times> string) list \<times> node_table) result" where
  "build_nodes_loop rootArt ps [] ids nodes = Inr (ids, nodes)"
| "build_nodes_loop rootArt ps (path # paths) ids nodes =
     (case artifactForLockPackage rootArt path (package_at ps path) of
        Inl e \<Rightarrow> Inl e
      | Inr artifact \<Rightarrow>
          (let key = CacheKey artifact;
               nodes' = (case map_of nodes key of None \<Rightarrow> AList.update key (new_node artifact) nodes | Some _ \<Rightarrow> nodes)
           in build_nodes_loop rootArt ps paths (AList.update path key ids) nodes'))"

definition buildDependencyGraphNodes ::
  "artifact_identity \<Rightarrow> packages \<Rightarrow> string list \<Rightarrow> ((string \<times> string) list \<times> node_table) result" where
  "buildDependencyGraphNodes rootArt ps paths = build_nodes_loop rootArt ps paths [] []"

section \<open>Edges\<close>

definition dependencyEntries :: "lock_package \<Rightarrow> (string \<times> dependency_type) list" where
  "dependencyEntries pkg =
     (let put = (\<lambda>t names entries. fold (\<lambda>name. AList.update name t) (map fst names) entries)
      in put DependencyTypeOptional (lp_optional_dependencies pkg)
           (put DependencyTypePeer (lp_peer_dependencies pkg)
             (put DependencyTypeDev (lp_dev_dependencies pkg)
               (put DependencyTypeProd (lp_dependencies pkg) []))))"

definition at_top :: "string \<Rightarrow> bool" where
  "at_top dir \<longleftrightarrow> dir = ''.'' \<or> dir = ''/'' \<or> dir = []"

function resolve_dir_loop :: "packages \<Rightarrow> string \<Rightarrow> string \<Rightarrow> string \<times> bool" where
  "resolve_dir_loop ps depName dir =
     (let candidate = path_join [dir, ''node_modules'', depName]
      in if map_of ps candidate \<noteq> None then (candidate, True)
         else if at_top dir then
           (let candidate = path_join [''node_modules'', depName] in (candidate, map_of ps candidate \<noteq> None))
         else resolve_dir_loop ps depName (path_dir dir))"
  by pat_completeness auto
termination
proof (relation "measure (\<lambda>(ps, depName, dir). if at_top dir then 0 else Suc (length dir))")
  show "((ps, depName, path_dir dir), ps, depName, dir)
      \<in> measure (\<lambda>(ps, depName, dir). if at_top dir then 0 else Suc (length dir))"
    if "\<not> at_top dir" for ps :: packages and depName dir
    using that path_dir_shorter [of dir] by (auto simp: at_top_def)
qed simp

declare resolve_dir_loop.simps [simp del]

definition resolveDependencyPath :: "packages \<Rightarrow> string \<Rightarrow> string \<Rightarrow> string \<times> bool" where
  "resolveDependencyPath ps parentPath depName = resolve_dir_loop ps depName parentPath"

definition edge_of :: "string \<Rightarrow> string \<Rightarrow> dependency_type \<Rightarrow> dependency_graph_edge" where
  "edge_of parentID childID depType =
     \<lparr>edge_id = [], edge_root_id = [], edge_parent_node_id = parentID, edge_child_node_id = childID,
      edge_dependency_type = depType\<rparr>"

definition edge_key :: "dependency_graph_edge \<Rightarrow> string" where
  "edge_key e = edge_parent_node_id e @ ''>'' @ edge_child_node_id e @ '':'' @ edge_dependency_type e"

text \<open>The variables of the loop over the packages: the keys seen, the edges and the nodes.\<close>

record edge_state =
  es_keys :: "string set"
  es_edges :: "dependency_graph_edge list"
  es_nodes :: node_table

definition add_type :: "string \<Rightarrow> dependency_type \<Rightarrow> node_table \<Rightarrow> node_table" where
  "add_type childID depType nodes =
     (case map_of nodes childID of
        None \<Rightarrow> nodes
      | Some child \<Rightarrow>
          AList.update childID
            (child\<lparr>node_dependency_types := node_dependency_types child @ [depType]\<rparr>) nodes)"

definition add_edge :: "dependency_graph_edge \<Rightarrow> edge_state \<Rightarrow> edge_state" where
  "add_edge e s =
     (if edge_key e \<in> es_keys s then s
      else \<lparr>es_keys = insert (edge_key e) (es_keys s), es_edges = es_edges s @ [e],
            es_nodes = add_type (edge_child_node_id e) (edge_dependency_type e) (es_nodes s)\<rparr>)"

fun entries_loop ::
  "packages \<Rightarrow> (string \<times> string) list \<Rightarrow> string \<Rightarrow> (string \<times> dependency_type) list \<Rightarrow> edge_state \<Rightarrow> edge_state" where
  "entries_loop ps ids path [] s = s"
| "entries_loop ps ids path ((depName, depType) # entries) s =
     (case resolveDependencyPath ps path depName of
        (childPath, ok) \<Rightarrow>
          if \<not> ok then entries_loop ps ids path entries s
          else entries_loop ps ids path entries
                 (add_edge (edge_of (id_at ids path) (id_at ids childPath) depType) s))"

fun paths_loop ::
  "map_order \<Rightarrow> packages \<Rightarrow> (string \<times> string) list \<Rightarrow> string list \<Rightarrow> edge_state \<Rightarrow> edge_state" where
  "paths_loop ord ps ids [] s = s"
| "paths_loop ord ps ids (path # paths) s =
     paths_loop ord ps ids paths
       (entries_loop ps ids path (range_entries ord path (dependencyEntries (package_at ps path))) s)"

text \<open>The nodes are shared by reference with the caller: their new version is returned too.\<close>

definition buildDependencyGraphEdges ::
  "map_order \<Rightarrow> packages \<Rightarrow> string list \<Rightarrow> (string \<times> string) list \<Rightarrow> node_table \<Rightarrow>
   dependency_graph_edge list \<times> node_table" where
  "buildDependencyGraphEdges ord ps paths ids nodes =
     (let s = paths_loop ord ps ids paths \<lparr>es_keys = {}, es_edges = [], es_nodes = nodes\<rparr>
      in (es_edges s, es_nodes s))"

definition sortDependencyGraphEdges :: "dependency_graph_edge list \<Rightarrow> dependency_graph_edge list" where
  "sortDependencyGraphEdges edges =
     sort_key (\<lambda>e. (edge_parent_node_id e, edge_child_node_id e, edge_dependency_type e)) edges"

section \<open>Depths\<close>

text \<open>The depth of the current node does not change while its children are visited: a self-edge never
  lowers it.\<close>

fun relax_children :: "int \<Rightarrow> string list \<Rightarrow> string list \<Rightarrow> node_table \<Rightarrow> string list \<times> node_table" where
  "relax_children d [] queue byID = (queue, byID)"
| "relax_children d (child # children) queue byID =
     (case map_of byID child of
        None \<Rightarrow> relax_children d children queue byID
      | Some n \<Rightarrow>
          (if node_min_depth n = -1 \<or> d + 1 < node_min_depth n then
             relax_children d children (queue @ [child])
               (AList.update child (n\<lparr>node_min_depth := d + 1\<rparr>) byID)
           else relax_children d children queue byID))"

text \<open>Every round that puts nodes on the queue discovers a node or lowers a depth.\<close>

definition undiscovered :: "node_table \<Rightarrow> nat" where
  "undiscovered t = sum_list (map (\<lambda>x. if node_min_depth (snd x) = -1 then 1 else 0) t)"

definition total_depth :: "node_table \<Rightarrow> nat" where
  "total_depth t = sum_list (map (\<lambda>x. nat (node_min_depth (snd x))) t)"

lemma sum_update:
  "map_of t k = Some n \<Longrightarrow>
   sum_list (map (\<lambda>x. f (snd x)) (AList.update k n' t)) + f n = sum_list (map (\<lambda>x. f (snd x)) t) + (f n' :: nat)"
  by (induction t) (auto split: if_splits)

lemma relax_measure:
  assumes "0 \<le> d" "relax_children d cs q t = (q', t')"
  shows "(q', t') = (q, t) \<or> undiscovered t' < undiscovered t \<or>
    undiscovered t' = undiscovered t \<and> total_depth t' < total_depth t"
  using assms(2)
proof (induction cs arbitrary: q t)
  case (Cons c cs)
  show ?case
  proof (cases "map_of t c")
    case (Some n)
    show ?thesis
    proof (cases "node_min_depth n = -1 \<or> d + 1 < node_min_depth n")
      case True
      let ?t = "AList.update c (n\<lparr>node_min_depth := d + 1\<rparr>) t"
      have "undiscovered ?t < undiscovered t \<or> undiscovered ?t = undiscovered t \<and> total_depth ?t < total_depth t"
        using True assms(1) sum_update [OF Some, of "\<lambda>n. if node_min_depth n = -1 then 1 else 0" "n\<lparr>node_min_depth := d + 1\<rparr>"]
          sum_update [OF Some, of "\<lambda>n. nat (node_min_depth n)" "n\<lparr>node_min_depth := d + 1\<rparr>"]
        by (auto simp: undiscovered_def total_depth_def)
      with Cons.IH [of "q @ [c]" ?t] Cons.prems Some True show ?thesis by auto
    qed (use Cons Some in auto)
  qed (use Cons in auto)
qed simp

function depth_loop :: "(string \<Rightarrow> string list) \<Rightarrow> string list \<Rightarrow> node_table \<Rightarrow> node_table" where
  "depth_loop adjacency [] byID = byID"
| "depth_loop adjacency (current # queue) byID =
     (case map_of byID current of
        None \<Rightarrow> depth_loop adjacency queue byID
      | Some currentNode \<Rightarrow>
          if node_min_depth currentNode < 0 then depth_loop adjacency queue byID
          else (case relax_children (node_min_depth currentNode) (adjacency current) queue byID of
                  (queue', byID') \<Rightarrow> depth_loop adjacency queue' byID'))"
  by pat_completeness auto
termination
proof (relation "measures [\<lambda>(adj, q, t). undiscovered t, \<lambda>(adj, q, t). total_depth t, \<lambda>(adj, q, t). length q]",
    goal_cases)
  case (4 adj cur q t n q' t')
  from 4(3) have r: "relax_children (node_min_depth n) (adj cur) q t = (q', t')" by simp
  from 4(2) relax_measure [OF _ r] show ?case by (auto simp: r)
qed auto

definition computeDepths ::
  "string \<Rightarrow> dependency_graph_node list \<Rightarrow> dependency_graph_edge list \<Rightarrow> dependency_graph_node list" where
  "computeDepths rootID nodes edges =
     (let byID0 = fold (\<lambda>n. AList.update (node_id n) n) nodes [];
          byID1 = (case map_of byID0 rootID of
              None \<Rightarrow> byID0
            | Some rootNode \<Rightarrow> AList.update rootID (rootNode\<lparr>node_min_depth := 0\<rparr>) byID0);
          adjacency = (\<lambda>p. map edge_child_node_id (filter (\<lambda>e. edge_parent_node_id e = p) edges));
          byID = depth_loop adjacency [rootID] byID1
      in map (\<lambda>n. case map_of byID (node_id n) of
             None \<Rightarrow> n
           | Some node \<Rightarrow> n\<lparr>node_min_depth := node_min_depth node, node_dependency_types := node_dependency_types node\<rparr>)
           nodes)"

definition finalizeDependencyGraphNodes ::
  "map_order \<Rightarrow> string \<Rightarrow> node_table \<Rightarrow> dependency_graph_edge list \<Rightarrow> dependency_graph_node list" where
  "finalizeDependencyGraphNodes ord rootID nodesByKey edges =
     (let nodes = map (\<lambda>n. n\<lparr>node_dependency_types := uniqueDependencyTypes (node_dependency_types n)\<rparr>)
            (range_nodes ord (map snd nodesByKey))
      in sort_key node_id (computeDepths rootID nodes edges))"

section \<open>The whole resolver\<close>

type_synonym graph_payload =
  "(string \<times> int \<times> dependency_type list) list \<times> (string \<times> string \<times> dependency_type) list"

definition graphHash ::
  "(graph_payload \<Rightarrow> string) \<Rightarrow> (string \<Rightarrow> string) \<Rightarrow> dependency_graph_node list \<Rightarrow> dependency_graph_edge list \<Rightarrow> string" where
  "graphHash marshal sha256_hex nodes edges =
     sha256_hex (marshal
       (map (\<lambda>n. (node_id n, node_min_depth n, node_dependency_types n)) nodes,
        map (\<lambda>e. (edge_parent_node_id e, edge_child_node_id e, edge_dependency_type e)) edges))"

definition ParsePackageLock ::
  "map_order \<Rightarrow> (string \<Rightarrow> package_lock result) \<Rightarrow> (graph_payload \<Rightarrow> string) \<Rightarrow> (string \<Rightarrow> string) \<Rightarrow>
   artifact_identity \<Rightarrow> string \<Rightarrow>
   (dependency_graph_node list \<times> dependency_graph_edge list \<times> string) result" where
  "ParsePackageLock ord unmarshal marshal sha256_hex root0 data =
     (case unmarshal data of
        Inl e \<Rightarrow> Inl (wrap_error ''parsing package-lock.json'' e)
      | Inr lock \<Rightarrow>
          if lock_packages lock = [] then Inl (plain_error ''parsing package-lock.json: packages is required'')
          else
            (let rootArt = rootWithFullName root0;
                 ps = lock_packages lock;
                 paths = sortedPackagePaths ord ps
             in case buildDependencyGraphNodes rootArt ps paths of
                  Inl e \<Rightarrow> Inl e
                | Inr (ids, nodesByKey) \<Rightarrow>
                    (case buildDependencyGraphEdges ord ps paths ids nodesByKey of
                       (edges0, nodesByKey') \<Rightarrow>
                         (let nodes = finalizeDependencyGraphNodes ord (CacheKey rootArt) nodesByKey' edges0;
                              edges = sortDependencyGraphEdges edges0
                          in Inr (nodes, edges, graphHash marshal sha256_hex nodes edges)))))"

section \<open>Shortest distances\<close>

definition shortest :: "('a \<times> 'a) set \<Rightarrow> 'a \<Rightarrow> 'a \<Rightarrow> int" where
  "shortest E r v = (if \<exists>k. (r, v) \<in> E ^^ k then int (LEAST k. (r, v) \<in> E ^^ k) else -1)"

definition depth_at :: "node_table \<Rightarrow> string \<Rightarrow> int" where
  "depth_at t v = (case map_of t v of None \<Rightarrow> -1 | Some n \<Rightarrow> node_min_depth n)"

text \<open>The invariant of the loop: \<open>D\<close> are the identifiers of the nodes, \<open>P\<close> edges that are still to be
  looked at, \<open>q\<close> the queue.\<close>

definition depths_inv ::
  "(string \<times> string) set \<Rightarrow> string set \<Rightarrow> string \<Rightarrow> (string \<times> string) set \<Rightarrow> string list \<Rightarrow> node_table \<Rightarrow> bool" where
  "depths_inv E D r P q t \<longleftrightarrow>
     dom (map_of t) = D \<and> depth_at t r = 0 \<and>
     (\<forall>v \<in> D. depth_at t v = -1 \<or> 0 \<le> depth_at t v \<and> (r, v) \<in> E ^^ nat (depth_at t v)) \<and>
     (\<forall>u v. (u, v) \<in> E \<longrightarrow> (u, v) \<notin> P \<longrightarrow> 0 \<le> depth_at t u \<longrightarrow> u \<notin> set q \<longrightarrow>
        0 \<le> depth_at t v \<and> depth_at t v \<le> depth_at t u + 1)"

lemma inv_change:
  assumes "depths_inv E D r P q t"
    and "\<And>u v. (u, v) \<in> E \<Longrightarrow> (u, v) \<notin> P' \<Longrightarrow> 0 \<le> depth_at t u \<Longrightarrow> u \<notin> set q' \<Longrightarrow>
      (u, v) \<notin> P \<and> u \<notin> set q \<or> 0 \<le> depth_at t v \<and> depth_at t v \<le> depth_at t u + 1"
  shows "depths_inv E D r P' q' t"
  using assms unfolding depths_inv_def by blast

lemma depth_at_update:
  "depth_at (AList.update c n t) v = (if v = c then node_min_depth n else depth_at t v)"
  by (simp add: depth_at_def update_conv')

lemma dom_update: "map_of t c = Some n \<Longrightarrow> dom (map_of (AList.update c n' t)) = dom (map_of t)"
  by (auto simp: update_conv')

lemma inv_lower:
  assumes "depths_inv E D r P q t" "map_of t c = Some n" "(cur, c) \<in> E" "depth_at t cur = d" "0 \<le> d"
    and "node_min_depth n = -1 \<or> d + 1 < node_min_depth n"
  shows "depths_inv E D r P (q @ [c]) (AList.update c (n\<lparr>node_min_depth := d + 1\<rparr>) t)"
proof -
  have c: "c \<in> D" "depth_at t c = node_min_depth n"
    using assms(1,2) by (auto simp: depths_inv_def depth_at_def)
  then have "c \<noteq> r" using assms(1,5,6) by (auto simp: depths_inv_def)
  have "cur \<in> D" using assms(1,4,5) by (auto simp: depths_inv_def depth_at_def split: option.splits)
  with assms(1,4,5) have "(r, cur) \<in> E ^^ nat d" by (force simp: depths_inv_def)
  with assms(3) have "(r, c) \<in> E ^^ Suc (nat d)" by auto
  then have path: "(r, c) \<in> E ^^ nat (d + 1)" using assms(5) by (simp add: nat_add_distrib)
  show ?thesis
    unfolding depths_inv_def depth_at_update dom_update [OF assms(2)]
    using assms(1,5,6) c \<open>c \<noteq> r\<close> path by (force simp: depths_inv_def)
qed

lemma inv_relax:
  assumes "relax_children d cs q t = (q', t')" "depths_inv E D r ({cur} \<times> set cs) q t"
    and "depth_at t cur = d" "0 \<le> d" "\<And>c. c \<in> set cs \<Longrightarrow> c \<in> D \<Longrightarrow> (cur, c) \<in> E" "E \<subseteq> D \<times> D"
  shows "depths_inv E D r {} q' t'"
  using assms(1,2,3,5)
proof (induction cs arbitrary: q t)
  case (Cons c cs)
  let ?P = "{cur} \<times> set cs"
  show ?case
  proof (cases "map_of t c")
    case None
    then have "c \<notin> D" using Cons.prems(2) by (auto simp: depths_inv_def)
    then have "depths_inv E D r ?P q t" using Cons.prems(2) assms(6) by (auto elim!: inv_change)
    with Cons None show ?thesis by simp
  next
    case (Some n)
    then have c: "c \<in> D" "depth_at t c = node_min_depth n"
      using Cons.prems(2) by (auto simp: depths_inv_def depth_at_def)
    then have e: "(cur, c) \<in> E" using Cons.prems(4) by simp
    show ?thesis
    proof (cases "node_min_depth n = -1 \<or> d + 1 < node_min_depth n")
      case True
      let ?t = "AList.update c (n\<lparr>node_min_depth := d + 1\<rparr>) t"
      have ne: "c \<noteq> cur" using True c Cons.prems(3) assms(4) by auto
      have i: "depths_inv E D r ({cur} \<times> set (c # cs)) (q @ [c]) ?t"
        by (rule inv_lower [OF Cons.prems(2) Some e Cons.prems(3) assms(4) True])
      have "depths_inv E D r ?P (q @ [c]) ?t"
        using i ne Cons.prems(3) assms(4) by (auto elim!: inv_change simp: depth_at_update)
      with Cons Some True ne show ?thesis by (simp add: depth_at_update)
    next
      case False
      moreover from Cons.prems(2) c(1) have "node_min_depth n = -1 \<or> 0 \<le> node_min_depth n"
        unfolding depths_inv_def c(2) [symmetric] by auto
      ultimately have "0 \<le> depth_at t c \<and> depth_at t c \<le> d + 1" using c(2) by simp
      then have "depths_inv E D r ?P q t"
        using Cons.prems(2,3) by (auto elim!: inv_change)
      with Cons Some False show ?thesis by simp
    qed
  qed
qed simp

lemma inv_depth_loop:
  assumes "depths_inv E D r {} q t" "\<And>u c. u \<in> D \<Longrightarrow> c \<in> D \<Longrightarrow> c \<in> set (adj u) \<Longrightarrow> (u, c) \<in> E"
    and "E \<subseteq> {(u, v). u \<in> D \<and> v \<in> D \<and> v \<in> set (adj u)}"
  shows "depths_inv E D r {} [] (depth_loop adj q t)"
  using assms
proof (induction adj q t rule: depth_loop.induct)
  case (2 adj cur q t)
  have skip: "depth_at t cur < 0 \<Longrightarrow> depths_inv E D r {} q t"
    using "2.prems"(1) by (auto elim!: inv_change)
  show ?case
  proof (cases "map_of t cur")
    case None
    with skip 2 show ?thesis by (simp add: depth_at_def)
  next
    case (Some n)
    then have n: "depth_at t cur = node_min_depth n" "cur \<in> D"
      using "2.prems"(1) by (auto simp: depth_at_def depths_inv_def)
    show ?thesis
    proof (cases "node_min_depth n < 0")
      case True
      with skip 2 Some n show ?thesis by simp
    next
      case False
      obtain q' t' where r: "relax_children (node_min_depth n) (adj cur) q t = (q', t')" by fastforce
      have "depths_inv E D r ({cur} \<times> set (adj cur)) q t"
        using "2.prems"(1,3) by (auto elim!: inv_change)
      with False n "2.prems"(2,3) have "depths_inv E D r {} q' t'"
        by (intro inv_relax [OF r]) auto
      with "2.IH"(3) [OF Some False r [symmetric]] "2.prems"(2,3) Some False r show ?thesis by simp
    qed
  qed
qed simp

lemma inv_shortest:
  assumes "depths_inv E D r {} [] t" "v \<in> D"
  shows "depth_at t v = shortest E r v"
proof -
  have up: "0 \<le> depth_at t v \<and> depth_at t v \<le> int k" if "(r, v) \<in> E ^^ k" for k v
    using that
  proof (induction k arbitrary: v)
    case 0
    with assms(1) show ?case by (simp add: depths_inv_def)
  next
    case (Suc k)
    then obtain u where "(r, u) \<in> E ^^ k" "(u, v) \<in> E" by auto
    with Suc.IH [of u] assms(1) show ?case by (force simp: depths_inv_def)
  qed
  from assms consider "depth_at t v = -1" | "0 \<le> depth_at t v" "(r, v) \<in> E ^^ nat (depth_at t v)"
    by (auto simp: depths_inv_def)
  then show ?thesis
  proof cases
    case 1
    with up [of v] have "\<nexists>k. (r, v) \<in> E ^^ k" by force
    with 1 show ?thesis by (simp add: shortest_def)
  next
    case 2
    have "(LEAST k. (r, v) \<in> E ^^ k) = nat (depth_at t v)"
      using 2 up [of v] by (intro Least_equality) force+
    with 2 show ?thesis by (auto simp: shortest_def)
  qed
qed

text \<open>Only the depths change.\<close>

definition no_depth :: "dependency_graph_node \<Rightarrow> dependency_graph_node" where
  "no_depth n = n\<lparr>node_min_depth := 0\<rparr>"

lemma relax_no_depth:
  "relax_children d cs q t = (q', t') \<Longrightarrow> map_option no_depth (map_of t' v) = map_option no_depth (map_of t v)"
proof (induction cs arbitrary: q t)
  case (Cons c cs)
  then show ?case
    by (cases "map_of t c") (auto simp: update_conv' no_depth_def split: if_splits)
qed simp

lemma loop_no_depth: "map_option no_depth (map_of (depth_loop adj q t) v) = map_option no_depth (map_of t v)"
proof (induction adj q t rule: depth_loop.induct)
  case (2 adj cur q t)
  then show ?case
    using relax_no_depth [of _ "adj cur" q t] by (auto split: option.splits prod.splits)
qed simp

lemma no_depth_eq:
  "no_depth m = no_depth n \<Longrightarrow> m = n\<lparr>node_min_depth := node_min_depth m\<rparr>"
  by (cases m; cases n) (simp add: no_depth_def)

lemma map_of_table:
  "distinct (map node_id nodes) \<Longrightarrow> n \<in> set nodes \<Longrightarrow>
   map_of (fold (\<lambda>n. AList.update (node_id n) n) nodes t) (node_id n) = Some n"
proof (induction nodes arbitrary: t)
  case (Cons m ms)
  have other: "map_of (fold (\<lambda>n. AList.update (node_id n) n) ms t) v = map_of t v" if "v \<notin> node_id ` set ms" for v t
    using that by (induction ms arbitrary: t) (auto simp: update_conv')
  from Cons show ?case by (auto simp: other update_conv')
qed simp

lemma dom_table:
  "dom (map_of (fold (\<lambda>n. AList.update (node_id n) n) nodes t)) = node_id ` set nodes \<union> dom (map_of t)"
  by (induction nodes arbitrary: t) (auto simp: update_conv')

definition edge_relation :: "string set \<Rightarrow> dependency_graph_edge set \<Rightarrow> (string \<times> string) set" where
  "edge_relation D es =
     {(u, v). u \<in> D \<and> v \<in> D \<and> (\<exists>e \<in> es. edge_parent_node_id e = u \<and> edge_child_node_id e = v)}"

text \<open>The depths are the shortest distances from the root; a node that the root does not reach has
  depth -1.\<close>

lemma compute_depths_shortest:
  assumes "distinct (map node_id nodes)" "\<forall>n \<in> set nodes. node_min_depth n = -1"
  shows "computeDepths rootID nodes edges =
    map (\<lambda>n. n\<lparr>node_min_depth := shortest (edge_relation (node_id ` set nodes) (set edges)) rootID (node_id n)\<rparr>) nodes"
proof -
  let ?D = "node_id ` set nodes"
  let ?E = "edge_relation ?D (set edges)"
  let ?adj = "\<lambda>p. map edge_child_node_id (filter (\<lambda>e. edge_parent_node_id e = p) edges)"
  let ?base = "fold (\<lambda>n. AList.update (node_id n) n) nodes []"
  define t1 where "t1 = (case map_of ?base rootID of None \<Rightarrow> ?base
    | Some rootNode \<Rightarrow> AList.update rootID (rootNode\<lparr>node_min_depth := 0\<rparr>) ?base)"
  let ?t = "depth_loop ?adj [rootID] t1"
  have look: "map_of ?base (node_id n) = Some n" if "n \<in> set nodes" for n
    using map_of_table [OF assms(1) that] .
  have dom0: "dom (map_of ?base) = ?D" by (simp add: dom_table)
  have keep: "map_option no_depth (map_of ?t v) = map_option no_depth (map_of ?base v)" for v
    unfolding loop_no_depth by (auto simp: t1_def update_conv' no_depth_def split: option.split)
  have depth: "depth_at ?t v = shortest ?E rootID v" if v: "v \<in> ?D" for v
  proof (cases "rootID \<in> ?D")
    case True
    then obtain r where r: "map_of ?base rootID = Some r" using look by auto
    then have t1: "t1 = AList.update rootID (r\<lparr>node_min_depth := 0\<rparr>) ?base" by (simp add: t1_def)
    have d0: "depth_at ?base v = -1" for v
    proof (cases "v \<in> ?D")
      case True
      with look assms(2) show ?thesis by (auto simp: depth_at_def)
    next
      case False
      with dom0 have "map_of ?base v = None" by auto
      then show ?thesis by (simp add: depth_at_def)
    qed
    have "depths_inv ?E ?D rootID {} [rootID] t1"
      unfolding depths_inv_def t1 depth_at_update dom_update [OF r] d0 by (auto simp: dom0)
    then have "depths_inv ?E ?D rootID {} [] ?t"
      by (rule inv_depth_loop) (auto simp: edge_relation_def intro: rev_image_eqI)
    then show ?thesis using v by (rule inv_shortest)
  next
    case False
    then have none: "map_of ?base rootID = None" using dom0 by auto
    then have "?t = ?base" by (simp add: t1_def)
    then have "depth_at ?t v = -1" using look v assms(2) by (auto simp: depth_at_def)
    moreover have "(rootID, v) \<notin> ?E ^^ k" for k
    proof
      assume a: "(rootID, v) \<in> ?E ^^ k"
      with False v have "k \<noteq> 0" by (cases k) auto
      with a have "rootID \<in> ?D" by (metis (no_types, lifting) case_prodD edge_relation_def mem_Collect_eq relpow_E2)
      with False show False by simp
    qed
    ultimately show ?thesis by (simp add: shortest_def)
  qed
  have "(case map_of ?t (node_id n) of None \<Rightarrow> n
      | Some node \<Rightarrow> n\<lparr>node_min_depth := node_min_depth node, node_dependency_types := node_dependency_types node\<rparr>) =
    n\<lparr>node_min_depth := shortest ?E rootID (node_id n)\<rparr>" if n: "n \<in> set nodes" for n
  proof -
    obtain m where m: "map_of ?t (node_id n) = Some m" "no_depth m = no_depth n"
      using keep [of "node_id n"] look [OF n] by auto
    have "node_min_depth m = shortest ?E rootID (node_id n)"
      using depth [of "node_id n"] n m(1) by (simp add: depth_at_def)
    with m no_depth_eq [OF m(2)] show ?thesis by (cases m; cases n) auto
  qed
  then show ?thesis unfolding computeDepths_def Let_def t1_def [symmetric] by simp
qed

section \<open>Nodes and edges\<close>

lemma update_absent: "map_of t k = None \<Longrightarrow> AList.update k n t = t @ [(k, n)]"
  by (induction t) (auto split: if_splits)

definition fresh_table :: "node_table \<Rightarrow> bool" where
  "fresh_table t \<longleftrightarrow> distinct (map fst t) \<and>
     (\<forall>(k, n) \<in> set t. k = node_id n \<and> k = CacheKey (node_artifact n) \<and> node_min_depth n = -1 \<and> node_dependency_types n = [])"

lemma build_nodes_ok:
  assumes "build_nodes_loop rt ps paths ids t = Inr (ids', t')" "fresh_table t"
    and "\<forall>p i. map_of ids p = Some i \<longrightarrow> i \<in> fst ` set t"
  shows "fresh_table t' \<and> (\<forall>p i. map_of ids' p = Some i \<longrightarrow> i \<in> fst ` set t') \<and>
    set paths \<union> dom (map_of ids) \<subseteq> dom (map_of ids')"
  using assms
proof (induction paths arbitrary: ids t)
  case (Cons p paths)
  then obtain a where a: "artifactForLockPackage rt p (package_at ps p) = Inr a"
    by (auto split: sum.splits)
  let ?k = "CacheKey a"
  let ?t = "case map_of t ?k of None \<Rightarrow> AList.update ?k (new_node a) t | Some _ \<Rightarrow> t"
  have keys: "fst ` set ?t = insert ?k (fst ` set t)"
  proof (cases "map_of t ?k")
    case None
    then show ?thesis
      using dom_map_of_conv_image_fst [of "AList.update ?k (new_node a) t"] dom_map_of_conv_image_fst [of t]
      by (auto simp: update_conv')
  next
    case (Some n)
    then show ?thesis by (auto dest: map_of_SomeD intro: rev_image_eqI)
  qed
  have "fresh_table ?t"
  proof (cases "map_of t ?k")
    case None
    then have t: "?t = t @ [(?k, new_node a)]" by (simp add: update_absent)
    show ?thesis
      unfolding t using None Cons.prems(2) by (auto simp: fresh_table_def new_node_def map_of_eq_None_iff)
  qed (use Cons.prems(2) in simp)
  moreover have "\<forall>q i. map_of (AList.update p ?k ids) q = Some i \<longrightarrow> i \<in> fst ` set ?t"
    using Cons.prems(3) keys by (auto simp: update_conv')
  moreover have "build_nodes_loop rt ps paths (AList.update p ?k ids) ?t = Inr (ids', t')"
    using Cons.prems(1) a by (simp add: Let_def)
  ultimately have "fresh_table t' \<and> (\<forall>p i. map_of ids' p = Some i \<longrightarrow> i \<in> fst ` set t') \<and>
      set paths \<union> dom (map_of (AList.update p ?k ids)) \<subseteq> dom (map_of ids')"
    by (intro Cons.IH)
  moreover have "dom (map_of (AList.update p ?k ids)) = insert p (dom (map_of ids))"
    by (auto simp: update_conv')
  ultimately show ?case by auto
qed simp

lemma resolve_ok: "resolve_dir_loop ps dep dir = (path, True) \<Longrightarrow> path \<in> fst ` set ps"
proof (induction ps dep dir rule: resolve_dir_loop.induct)
  case (1 ps dep dir)
  show ?case
  proof (cases "map_of ps (path_join [dir, ''node_modules'', dep]) = None \<and> \<not> at_top dir")
    case True
    with "1.prems" have "resolve_dir_loop ps dep (path_dir dir) = (path, True)"
      by (simp add: resolve_dir_loop.simps [of ps dep dir])
    with "1.IH" True show ?thesis by simp
  next
    case False
    with "1.prems" show ?thesis
      by (auto simp: resolve_dir_loop.simps [of ps dep dir] Let_def map_of_eq_None_iff split: if_splits)
  qed
qed

text \<open>The edges that one package contributes, before duplicates are dropped.\<close>

definition candidate_edges ::
  "packages \<Rightarrow> (string \<times> string) list \<Rightarrow> string \<Rightarrow> (string \<times> dependency_type) list \<Rightarrow> dependency_graph_edge list" where
  "candidate_edges ps ids path entries =
     map (\<lambda>(dep, t). edge_of (id_at ids path) (id_at ids (fst (resolveDependencyPath ps path dep))) t)
       (filter (\<lambda>(dep, t). snd (resolveDependencyPath ps path dep)) entries)"

lemma entries_loop_fold: "entries_loop ps ids path entries s = fold add_edge (candidate_edges ps ids path entries) s"
  by (induction entries arbitrary: s) (auto simp: candidate_edges_def split: prod.split)

definition all_candidates :: "map_order \<Rightarrow> packages \<Rightarrow> (string \<times> string) list \<Rightarrow> string \<Rightarrow> dependency_graph_edge list" where
  "all_candidates ord ps ids path =
     candidate_edges ps ids path (range_entries ord path (dependencyEntries (package_at ps path)))"

lemma paths_loop_fold:
  "paths_loop ord ps ids paths s = fold (\<lambda>path. fold add_edge (all_candidates ord ps ids path)) paths s"
  by (induction paths arbitrary: s) (simp_all add: entries_loop_fold all_candidates_def)

text \<open>What the loop over the edges keeps: the keys are those of the edges, and the types of a node are
  those of the edges into it, in order.\<close>

definition edges_inv :: "node_table \<Rightarrow> edge_state \<Rightarrow> bool" where
  "edges_inv t s \<longleftrightarrow>
     es_keys s = edge_key ` set (es_edges s) \<and> distinct (map edge_key (es_edges s)) \<and>
     es_nodes s = map (\<lambda>(k, n). (k, n\<lparr>node_dependency_types :=
        map edge_dependency_type (filter (\<lambda>e. edge_child_node_id e = k) (es_edges s))\<rparr>)) t"

lemma map_of_map_key: "map_of (map (\<lambda>(k, n). (k, f k n)) t) k = map_option (f k) (map_of t k)"
  by (induction t) auto

lemma update_map_table:
  assumes "distinct (map fst t)" "map_of t k = Some n"
  shows "AList.update k (g n) (map (\<lambda>(k, n). (k, f k n)) t) =
    map (\<lambda>(k', n). (k', if k' = k then g n else f k' n)) t"
  using assms
proof (induction t)
  case (Cons x t)
  show ?case
  proof (cases "fst x = k")
    case True
    with Cons.prems(1) have "k \<notin> fst ` set t" by auto
    then have k: "(k, m) \<notin> set t" for m by force
    have "map (\<lambda>(k', n). (k', f k' n)) t = map (\<lambda>(k', n). (k', if k' = k then g n else f k' n)) t"
      by (rule map_cong) (auto simp: k)
    with True Cons.prems show ?thesis by (cases x) auto
  next
    case False
    with Cons show ?thesis by (cases x) auto
  qed
qed simp

lemma edges_inv_add:
  assumes "edges_inv t s" "fresh_table t"
  shows "edges_inv t (add_edge e s)"
proof (cases "edge_key e \<in> es_keys s")
  case True
  with assms show ?thesis by (simp add: add_edge_def)
next
  case False
  let ?f = "\<lambda>es k n. n\<lparr>node_dependency_types := map edge_dependency_type (filter (\<lambda>e. edge_child_node_id e = k) es)\<rparr>"
  let ?c = "edge_child_node_id e"
  have nodes: "es_nodes s = map (\<lambda>(k, n). (k, ?f (es_edges s) k n)) t" using assms(1) by (simp add: edges_inv_def)
  have "add_type ?c (edge_dependency_type e) (es_nodes s) = map (\<lambda>(k, n). (k, ?f (es_edges s @ [e]) k n)) t"
  proof (cases "map_of t ?c")
    case None
    then have k: "(?c, n) \<notin> set t" for n by (force simp: map_of_eq_None_iff)
    have "map (\<lambda>(k, n). (k, ?f (es_edges s) k n)) t = map (\<lambda>(k, n). (k, ?f (es_edges s @ [e]) k n)) t"
      by (rule map_cong) (auto simp: k)
    with None show ?thesis unfolding nodes add_type_def by (simp add: map_of_map_key)
  next
    case (Some n)
    from assms(2) have d: "distinct (map fst t)" by (simp add: fresh_table_def)
    have "add_type ?c (edge_dependency_type e) (es_nodes s) =
        AList.update ?c (?f (es_edges s @ [e]) ?c n) (map (\<lambda>(k, n). (k, ?f (es_edges s) k n)) t)"
      using Some unfolding nodes add_type_def by (simp add: map_of_map_key)
    also have "\<dots> = map (\<lambda>(k', n). (k', if k' = ?c then ?f (es_edges s @ [e]) ?c n else ?f (es_edges s) k' n)) t"
      using update_map_table [OF d Some, of "?f (es_edges s @ [e]) ?c" "?f (es_edges s)"] .
    also have "\<dots> = map (\<lambda>(k, n). (k, ?f (es_edges s @ [e]) k n)) t" by auto
    finally show ?thesis .
  qed
  with False assms(1) show ?thesis by (auto simp: edges_inv_def add_edge_def)
qed

lemma edges_inv_fold: "edges_inv t s \<Longrightarrow> fresh_table t \<Longrightarrow> edges_inv t (fold add_edge es s)"
  by (induction es arbitrary: s) (simp_all add: edges_inv_add)

lemma edges_inv_paths:
  "edges_inv t s \<Longrightarrow> fresh_table t \<Longrightarrow> edges_inv t (paths_loop ord ps ids paths s)"
  unfolding paths_loop_fold by (induction paths arbitrary: s) (simp_all add: edges_inv_fold)

lemma edges_inv_initial: "fresh_table t \<Longrightarrow> edges_inv t \<lparr>es_keys = {}, es_edges = [], es_nodes = t\<rparr>"
proof -
  assume f: "fresh_table t"
  have "n\<lparr>node_dependency_types := []\<rparr> = n" if "node_dependency_types n = []" for n :: dependency_graph_node
    using that by (cases n) simp
  with f have "map (\<lambda>(k, n). (k, n\<lparr>node_dependency_types := []\<rparr>)) t = t"
    by (intro map_idI) (auto simp: fresh_table_def)
  then show ?thesis by (simp add: edges_inv_def)
qed

section \<open>Independence of the iteration order\<close>

definition valid_order :: "map_order \<Rightarrow> bool" where
  "valid_order ord \<longleftrightarrow>
     (\<forall>xs. mset (range_packages ord xs) = mset xs) \<and> (\<forall>p xs. mset (range_entries ord p xs) = mset xs) \<and>
     (\<forall>xs. mset (range_nodes ord xs) = mset xs)"

lemma entry_type_set:
  "snd ` set (dependencyEntries pkg) \<subseteq>
   {DependencyTypeOptional, DependencyTypePeer, DependencyTypeDev, DependencyTypeProd}"
proof -
  have put: "snd ` set (fold (\<lambda>name. AList.update name t) names es) \<subseteq> insert t (snd ` set es)"
    for names :: "string list" and t :: dependency_type and es
  proof (induction names arbitrary: es)
    case (Cons name names)
    have "snd ` set (AList.update name t es) \<subseteq> insert t (snd ` set es)" by (induction es) auto
    with Cons [of "AList.update name t es"] show ?case by auto
  qed auto
  show ?thesis
    unfolding dependencyEntries_def Let_def
    by (intro order_trans [OF put] insert_mono) simp
qed

lemma entry_types: "t \<in> snd ` set (dependencyEntries pkg) \<Longrightarrow> CHR '':'' \<notin> set t"
  using entry_type_set [of pkg] by auto

lemma last_colon:
  assumes "xs @ CHR '':'' # ys = xs' @ CHR '':'' # ys'" "CHR '':'' \<notin> set ys" "CHR '':'' \<notin> set ys'"
  shows "xs = xs' \<and> ys = ys'"
proof -
  have "rev ys @ CHR '':'' # rev xs = rev ys' @ CHR '':'' # rev xs'"
    using arg_cong [OF assms(1), of rev] by simp
  from append_eq_split_char [OF this] assms(2,3) show ?thesis by simp
qed

lemma edge_key_inj:
  assumes "valid_order ord"
  shows "inj_on edge_key (set (all_candidates ord ps ids path))"
proof -
  have "CHR '':'' \<notin> set t" if "(dep, t) \<in> set (range_entries ord path (dependencyEntries pkg))" for dep t pkg
  proof -
    have "set (range_entries ord path (dependencyEntries pkg)) = set (dependencyEntries pkg)"
      using assms by (intro mset_eq_setD) (simp add: valid_order_def)
    with that show ?thesis by (intro entry_types [of _ pkg]) force
  qed
  then show ?thesis
    by (auto simp: inj_on_def all_candidates_def candidate_edges_def edge_key_def edge_of_def dest: last_colon)
qed

lemma fold_add_edge:
  assumes "inj_on edge_key (set es)"
  shows "es_keys (fold add_edge es s) = es_keys s \<union> edge_key ` set es \<and>
    set (es_edges (fold add_edge es s)) = set (es_edges s) \<union> {e \<in> set es. edge_key e \<notin> es_keys s}"
  using assms
proof (induction es arbitrary: s)
  case (Cons e es)
  then have inj: "inj_on edge_key (set es)" "\<And>e'. e' \<in> set es \<Longrightarrow> edge_key e' = edge_key e \<longleftrightarrow> e' = e"
    by (auto simp: inj_on_def)
  show ?case
  proof (cases "edge_key e \<in> es_keys s")
    case True
    with Cons.IH [OF inj(1), of s] show ?thesis by (auto simp: add_edge_def)
  next
    case False
    have "{x \<in> set es. edge_key x \<noteq> edge_key e \<and> edge_key x \<notin> es_keys s} = {x \<in> set es. edge_key x \<notin> es_keys s} - {e}"
      using inj(2) by auto
    with Cons.IH [OF inj(1), of "add_edge e s"] False show ?thesis by (auto simp: add_edge_def)
  qed
qed simp

text \<open>The keys and the set of the edges after the loop do not depend on the order.\<close>

lemma paths_loop_order:
  assumes "valid_order ord" "valid_order ord'" "es_keys s = es_keys s'" "set (es_edges s) = set (es_edges s')"
  shows "es_keys (paths_loop ord ps ids paths s) = es_keys (paths_loop ord' ps ids paths s') \<and>
    set (es_edges (paths_loop ord ps ids paths s)) = set (es_edges (paths_loop ord' ps ids paths s'))"
  using assms(3,4) unfolding paths_loop_fold
proof (induction paths arbitrary: s s')
  case (Cons path paths)
  have entries: "set (range_entries o' path xs) = set xs" if "valid_order o'" for o' xs
    using that by (intro mset_eq_setD) (simp add: valid_order_def)
  then have "set (all_candidates ord ps ids path) = set (all_candidates ord' ps ids path)"
    using assms(1,2) by (simp add: all_candidates_def candidate_edges_def)
  with Cons.prems fold_add_edge [OF edge_key_inj [OF assms(1), of ps ids path], of s]
    fold_add_edge [OF edge_key_inj [OF assms(2), of ps ids path], of s']
  have "es_keys (fold add_edge (all_candidates ord ps ids path) s) =
      es_keys (fold add_edge (all_candidates ord' ps ids path) s')"
    "set (es_edges (fold add_edge (all_candidates ord ps ids path) s)) =
      set (es_edges (fold add_edge (all_candidates ord' ps ids path) s'))"
    by simp_all
  from Cons.IH [OF this] show ?case by simp
qed simp

section \<open>The result in closed form\<close>

definition finished ::
  "string \<Rightarrow> string set \<Rightarrow> dependency_graph_edge set \<Rightarrow> dependency_graph_node \<Rightarrow> dependency_graph_node" where
  "finished rootID D es n =
     n\<lparr>node_min_depth := shortest (edge_relation D es) rootID (node_id n),
       node_dependency_types := sorted_list_of_set
         {t. t \<noteq> [] \<and> (\<exists>e \<in> es. edge_child_node_id e = node_id n \<and> edge_dependency_type e = t)}\<rparr>"

lemma finalize_closed:
  assumes "valid_order ord" "fresh_table t"
    and "tbl = map (\<lambda>(k, n). (k, n\<lparr>node_dependency_types :=
      map edge_dependency_type (filter (\<lambda>e. edge_child_node_id e = k) edges)\<rparr>)) t"
  shows "finalizeDependencyGraphNodes ord rootID tbl edges =
    sort_key node_id (map (finished rootID (fst ` set t) (set edges)) (map snd t))"
proof -
  let ?typed = "\<lambda>n. n\<lparr>node_dependency_types :=
    map edge_dependency_type (filter (\<lambda>e. edge_child_node_id e = node_id n) edges)\<rparr>"
  let ?uniq = "\<lambda>n. n\<lparr>node_dependency_types := uniqueDependencyTypes (node_dependency_types n)\<rparr>"
  let ?L = "range_nodes ord (map snd tbl)"
  have fst_eq: "map fst t = map node_id (map snd t)" using assms(2) by (auto simp: fresh_table_def)
  have L: "map snd tbl = map ?typed (map snd t)"
    using assms(2,3) by (auto simp: fresh_table_def)
  have m: "mset ?L = mset (map ?typed (map snd t))"
    using assms(1) unfolding L by (simp add: valid_order_def)
  let ?N = "map ?uniq ?L"
  have mN: "mset ?N = mset (map (\<lambda>n. ?uniq (?typed n)) (map snd t))"
    using arg_cong [OF m, of "image_mset ?uniq"] by (simp add: multiset.map_comp comp_def)
  have ids: "mset (map node_id ?N) = mset (map fst t)"
    using arg_cong [OF mN, of "image_mset node_id"] unfolding fst_eq by (simp add: multiset.map_comp comp_def)
  then have dist: "distinct (map node_id ?N)"
    using assms(2) mset_eq_imp_distinct_iff [OF ids] by (simp only: fresh_table_def)
  have set_ids: "node_id ` set ?N = fst ` set t" using mset_eq_setD [OF ids] by (simp add: image_image)
  have "\<forall>n \<in> set ?N. node_min_depth n = -1"
    using mset_eq_setD [OF mN] assms(2) by (auto simp: fresh_table_def)
  note closed = compute_depths_shortest [OF dist this, of rootID edges, unfolded set_ids]
  let ?fin = "\<lambda>n. n\<lparr>node_min_depth := shortest (edge_relation (fst ` set t) (set edges)) rootID (node_id n)\<rparr>"
  have fin: "?fin (?uniq (?typed n)) = finished rootID (fst ` set t) (set edges) n" for n
  proof -
    have "{v \<in> edge_dependency_type ` {x \<in> set edges. edge_child_node_id x = node_id n}. v \<noteq> []} =
      {t. t \<noteq> [] \<and> (\<exists>e \<in> set edges. edge_child_node_id e = node_id n \<and> edge_dependency_type e = t)}" by auto
    then show ?thesis by (simp add: finished_def uniqueDependencyTypes_alt)
  qed
  have "mset (map ?fin ?N) = mset (map (finished rootID (fst ` set t) (set edges)) (map snd t))"
    using arg_cong [OF mN, of "image_mset ?fin"] by (simp only: mset_map multiset.map_comp comp_def fin)
  moreover have "inj_on node_id (set (map ?fin ?N))"
    using dist by (auto simp: distinct_map inj_on_def)
  ultimately have "sort_key node_id (map ?fin ?N) =
      sort_key node_id (map (finished rootID (fst ` set t) (set edges)) (map snd t))"
    by (rule sort_key_mset_unique)
  then show ?thesis
    unfolding finalizeDependencyGraphNodes_def Let_def closed .
qed

lemma paths_loop_edges:
  assumes "valid_order ord"
  shows "set (es_edges (paths_loop ord ps ids paths s)) \<subseteq>
    set (es_edges s) \<union> (\<Union>path \<in> set paths. set (all_candidates ord ps ids path))"
  unfolding paths_loop_fold
proof (induction paths arbitrary: s)
  case (Cons path paths)
  show ?case
    using Cons [of "fold add_edge (all_candidates ord ps ids path) s"]
      fold_add_edge [OF edge_key_inj [OF assms, of ps ids path], of s] by auto
qed simp

definition edge_ok :: "string set \<Rightarrow> dependency_graph_edge \<Rightarrow> bool" where
  "edge_ok D e \<longleftrightarrow> edge_parent_node_id e \<in> D \<and> edge_child_node_id e \<in> D \<and>
     edge_dependency_type e \<in> {DependencyTypeOptional, DependencyTypePeer, DependencyTypeDev, DependencyTypeProd} \<and>
     e = edge_of (edge_parent_node_id e) (edge_child_node_id e) (edge_dependency_type e)"

lemma candidates_ok:
  assumes "valid_order ord" "e \<in> set (all_candidates ord ps ids path)" "path \<in> fst ` set ps"
    and "\<forall>p \<in> fst ` set ps. id_at ids p \<in> D"
  shows "edge_ok D e"
proof -
  from assms(2) obtain dep t where e: "snd (resolveDependencyPath ps path dep)"
    "e = edge_of (id_at ids path) (id_at ids (fst (resolveDependencyPath ps path dep))) t"
    "(dep, t) \<in> set (range_entries ord path (dependencyEntries (package_at ps path)))"
    by (auto simp: all_candidates_def candidate_edges_def)
  have "(dep, t) \<in> set (dependencyEntries (package_at ps path))"
    using e(3) assms(1) mset_eq_setD unfolding valid_order_def by blast
  then have t: "t \<in> {DependencyTypeOptional, DependencyTypePeer, DependencyTypeDev, DependencyTypeProd}"
    using entry_type_set [of "package_at ps path"] by force
  have "fst (resolveDependencyPath ps path dep) \<in> fst ` set ps" using e(1)
    by (intro resolve_ok [of ps dep path]) (simp add: resolveDependencyPath_def prod_eq_iff)
  with assms(3,4) have "id_at ids path \<in> D" "id_at ids (fst (resolveDependencyPath ps path dep)) \<in> D" by blast+
  with e(2) t show ?thesis by (simp add: edge_ok_def edge_of_def)
qed

lemma sort_edges_unique:
  assumes "set es = set es'" "distinct es" "distinct es'" "\<forall>e \<in> set es. edge_ok D e"
  shows "sortDependencyGraphEdges es = sortDependencyGraphEdges es'"
  unfolding sortDependencyGraphEdges_def
proof (rule sort_key_mset_unique)
  show "mset es = mset es'" using assms(1-3) by (simp add: set_eq_iff_mset_eq_distinct)
  show "inj_on (\<lambda>e. (edge_parent_node_id e, edge_child_node_id e, edge_dependency_type e)) (set es)"
    using assms(4) unfolding inj_on_def edge_ok_def by (metis prod.inject)
qed

text \<open>A successful run: the table of the nodes, and a list of distinct edges between them.\<close>

definition edges_run :: "map_order \<Rightarrow> packages \<Rightarrow> (string \<times> string) list \<Rightarrow> node_table \<Rightarrow> edge_state" where
  "edges_run ord ps ids t =
     paths_loop ord ps ids (sort (map fst ps)) \<lparr>es_keys = {}, es_edges = [], es_nodes = t\<rparr>"

lemma edges_run_ok:
  assumes "valid_order ord" "buildDependencyGraphNodes rt ps (sort (map fst ps)) = Inr (ids, t)"
  shows "fresh_table t \<and> edges_inv t (edges_run ord ps ids t) \<and>
    (\<forall>e \<in> set (es_edges (edges_run ord ps ids t)). edge_ok (fst ` set t) e) \<and>
    distinct (es_edges (edges_run ord ps ids t))"
proof -
  let ?s = "edges_run ord ps ids t"
  have "fresh_table []" "\<forall>p i. map_of [] p = Some i \<longrightarrow> i \<in> fst ` set ([] :: node_table)"
    by (simp_all add: fresh_table_def)
  from build_nodes_ok [OF assms(2) [unfolded buildDependencyGraphNodes_def] this]
  have built: "fresh_table t" "\<forall>p i. map_of ids p = Some i \<longrightarrow> i \<in> fst ` set t" "fst ` set ps \<subseteq> dom (map_of ids)"
    by simp_all
  then have idat: "\<forall>p \<in> fst ` set ps. id_at ids p \<in> fst ` set t"
    by (fastforce simp: id_at_def split: option.split)
  have inv: "edges_inv t ?s" unfolding edges_run_def using built by (intro edges_inv_paths edges_inv_initial)
  moreover have "edge_ok (fst ` set t) e" if e: "e \<in> set (es_edges ?s)" for e
  proof -
    have "\<exists>path \<in> fst ` set ps. e \<in> set (all_candidates ord ps ids path)"
      using e paths_loop_edges [OF assms(1), of ps ids "sort (map fst ps)" "\<lparr>es_keys = {}, es_edges = [], es_nodes = t\<rparr>"]
      by (auto simp: edges_run_def)
    then show ?thesis using idat assms(1) by (auto intro: candidates_ok)
  qed
  moreover have "distinct (es_edges ?s)" using inv by (simp add: edges_inv_def distinct_map)
  ultimately show ?thesis using built(1) by blast
qed

definition graph_of ::
  "(graph_payload \<Rightarrow> string) \<Rightarrow> (string \<Rightarrow> string) \<Rightarrow> string \<Rightarrow> node_table \<Rightarrow> dependency_graph_edge list \<Rightarrow>
   dependency_graph_node list \<times> dependency_graph_edge list \<times> string" where
  "graph_of marshal sha rootID t es =
     (let nodes = sort_key node_id (map (finished rootID (fst ` set t) (set es)) (map snd t));
          edges = sortDependencyGraphEdges es
      in (nodes, edges, graphHash marshal sha nodes edges))"

lemma parse_closed:
  assumes "valid_order ord"
  shows "ParsePackageLock ord unmarshal marshal sha root0 data =
    (case unmarshal data of
       Inl e \<Rightarrow> Inl (wrap_error ''parsing package-lock.json'' e)
     | Inr lock \<Rightarrow>
         if lock_packages lock = [] then Inl (plain_error ''parsing package-lock.json: packages is required'')
         else (case buildDependencyGraphNodes (rootWithFullName root0) (lock_packages lock)
                      (sort (map fst (lock_packages lock))) of
                 Inl e \<Rightarrow> Inl e
               | Inr (ids, t) \<Rightarrow> Inr (graph_of marshal sha (CacheKey (rootWithFullName root0)) t
                   (es_edges (edges_run ord (lock_packages lock) ids t)))))"
proof -
  have paths: "sortedPackagePaths ord ps = sort (map fst ps)" for ps
    unfolding sortedPackagePaths_def using assms by (intro sort_key_mset_unique) (simp_all add: valid_order_def)
  have fin: "finalizeDependencyGraphNodes ord r (es_nodes (edges_run ord ps ids t)) (es_edges (edges_run ord ps ids t)) =
      sort_key node_id (map (finished r (fst ` set t) (set (es_edges (edges_run ord ps ids t)))) (map snd t))"
    if "buildDependencyGraphNodes rt ps (sort (map fst ps)) = Inr (ids, t)" for r rt ps ids t
    using edges_run_ok [OF assms that] by (intro finalize_closed [OF assms]) (simp_all add: edges_inv_def)
  show ?thesis
    unfolding ParsePackageLock_def
    by (auto simp: paths fin Let_def buildDependencyGraphEdges_def edges_run_def [symmetric] graph_of_def
        split: sum.split)
qed

lemma finished_simps [simp]:
  "node_id (finished r D es n) = node_id n" "node_artifact (finished r D es n) = node_artifact n"
  by (simp_all add: finished_def)

text \<open>A small lockfile: the root depends on \<open>a\<close> and, for development, on \<open>b\<close>; \<open>a\<close> brings its own \<open>b\<close>.\<close>

definition in_order :: map_order where
  "in_order = \<lparr>range_packages = \<lambda>xs. xs, range_entries = \<lambda>_ xs. xs, range_nodes = \<lambda>xs. xs\<rparr>"

definition in_reverse :: map_order where
  "in_reverse = \<lparr>range_packages = rev, range_entries = \<lambda>_. rev, range_nodes = rev\<rparr>"

lemma valid_orders: "valid_order in_order" "valid_order in_reverse"
  by (simp_all add: valid_order_def in_order_def in_reverse_def)

definition sample_lock :: package_lock where
  "sample_lock = \<lparr>lock_packages =
     [([], zero_package\<lparr>lp_dependencies := [(''a'', ''^1'')], lp_dev_dependencies := [(''b'', ''^1'')]\<rparr>),
      (''node_modules/b'', zero_package\<lparr>lp_version := ''1.0.0''\<rparr>),
      (''node_modules/a'', zero_package\<lparr>lp_version := ''1.0.0'', lp_dependencies := [(''b'', ''^2'')]\<rparr>),
      (''node_modules/a/node_modules/b'', zero_package\<lparr>lp_version := ''2.0.0''\<rparr>)]\<rparr>"

definition sample_run ::
  "map_order \<Rightarrow> (dependency_graph_node list \<times> dependency_graph_edge list \<times> string) result" where
  "sample_run ord = ParsePackageLock ord (\<lambda>_. Inr sample_lock) (\<lambda>_. ''payload'') (\<lambda>_. ''hash'') sample_npm ''data''"

lemma sample_run_result:
  "\<exists>nodes edges hash. sample_run in_order = Inr (nodes, edges, hash) \<and>
     map (\<lambda>n. (node_id n, node_min_depth n)) nodes =
       [(''npm:@acme/tool:1.2.0'', 0), (''npm:a:1.0.0'', 1), (''npm:b:1.0.0'', 1), (''npm:b:2.0.0'', 2)]"
proof -
  have "(case sample_run in_order of Inl _ \<Rightarrow> False
      | Inr (nodes, edges, hash) \<Rightarrow> map (\<lambda>n. (node_id n, node_min_depth n)) nodes =
         [(''npm:@acme/tool:1.2.0'', 0), (''npm:a:1.0.0'', 1), (''npm:b:1.0.0'', 1), (''npm:b:2.0.0'', 2)])"
    by code_simp
  then show ?thesis by (auto split: sum.splits prod.splits)
qed

text \<open>The nodes of a parsed lockfile carry the cache keys of their artifacts, and the edges the four types.\<close>

lemma parsed_graph:
  assumes "valid_order ord" "ParsePackageLock ord unmarshal marshal sha rt data = Inr (nodes, edges, hash)"
  shows "n \<in> set nodes \<Longrightarrow> node_id n = CacheKey (node_artifact n)"
    "e \<in> set edges \<Longrightarrow>
      edge_dependency_type e \<in> {DependencyTypeOptional, DependencyTypePeer, DependencyTypeDev, DependencyTypeProd}"
    "distinct (map node_id nodes)"
    "e \<in> set edges \<Longrightarrow> edge_parent_node_id e \<in> node_id ` set nodes \<and> edge_child_node_id e \<in> node_id ` set nodes"
proof -
  from assms(2) obtain ps ids t where b: "buildDependencyGraphNodes (rootWithFullName rt) ps
      (sort (map fst ps)) = Inr (ids, t)"
    "graph_of marshal sha (CacheKey (rootWithFullName rt)) t (es_edges (edges_run ord ps ids t)) =
      (nodes, edges, hash)"
    unfolding parse_closed [OF assms(1)] by (auto split: sum.splits if_splits)
  define es where "es = es_edges (edges_run ord ps ids t)"
  have p: "fresh_table t" "\<forall>e \<in> set es. edge_ok (fst ` set t) e"
    "nodes = sort_key node_id (map (finished (CacheKey (rootWithFullName rt)) (fst ` set t) (set es)) (map snd t))"
    "edges = sortDependencyGraphEdges es"
    using edges_run_ok [OF assms(1) b(1)] b(2) by (auto simp: es_def graph_of_def Let_def)
  have fst_eq: "map fst t = map node_id (map snd t)" using p(1) by (auto simp: fresh_table_def)
  have ids: "node_id ` set nodes = fst ` set t"
    using arg_cong [OF fst_eq, of set] by (simp add: p(3) image_image comp_def)
  have es: "set edges = set es" by (simp add: p(4) sortDependencyGraphEdges_def)
  show "n \<in> set nodes \<Longrightarrow> node_id n = CacheKey (node_artifact n)"
    using p(1) by (force simp: p(3) fresh_table_def)
  show "e \<in> set edges \<Longrightarrow>
      edge_dependency_type e \<in> {DependencyTypeOptional, DependencyTypePeer, DependencyTypeDev, DependencyTypeProd}"
    using p(2) unfolding es edge_ok_def by blast
  show "e \<in> set edges \<Longrightarrow> edge_parent_node_id e \<in> node_id ` set nodes \<and> edge_child_node_id e \<in> node_id ` set nodes"
    using p(2) unfolding es ids edge_ok_def by blast
  have "mset (map node_id nodes) = mset (map fst t)" unfolding p(3) fst_eq by (simp add: multiset.map_comp comp_def)
  with p(1) mset_eq_imp_distinct_iff [OF this] show "distinct (map node_id nodes)" by (simp only: fresh_table_def)
qed

section \<open>The theorems\<close>

text \<open>C38. A parsed lockfile is a well-formed graph: the nodes are sorted by distinct identifiers, every edge
  connects two of them, the depth of a node is its shortest distance from the root package (-1 when the
  root does not reach it), and its dependency types are the types of the edges into it.\<close>

theorem lockfile_graph_wellformed:
  assumes "valid_order ord" "ParsePackageLock ord unmarshal marshal sha rt data = Inr (nodes, edges, hash)"
  shows "sorted (map node_id nodes) \<and> distinct (map node_id nodes) \<and>
    (\<forall>e \<in> set edges. edge_parent_node_id e \<in> node_id ` set nodes \<and> edge_child_node_id e \<in> node_id ` set nodes) \<and>
    (\<forall>n \<in> set nodes.
       node_min_depth n = shortest {(u, v). \<exists>e \<in> set edges. edge_parent_node_id e = u \<and> edge_child_node_id e = v}
         (CacheKey (rootWithFullName rt)) (node_id n) \<and>
       (\<forall>t. t \<in> set (node_dependency_types n) \<longleftrightarrow>
          t \<noteq> [] \<and> (\<exists>e \<in> set edges. edge_child_node_id e = node_id n \<and> edge_dependency_type e = t)))"
proof -
  from assms(2) obtain ps ids t where b: "buildDependencyGraphNodes (rootWithFullName rt) ps
      (sort (map fst ps)) = Inr (ids, t)"
    "graph_of marshal sha (CacheKey (rootWithFullName rt)) t (es_edges (edges_run ord ps ids t)) =
      (nodes, edges, hash)"
    unfolding parse_closed [OF assms(1)] by (auto split: sum.splits if_splits)
  define es where "es = es_edges (edges_run ord ps ids t)"
  have p: "fresh_table t" "\<forall>e \<in> set es. edge_ok (fst ` set t) e"
    "nodes = sort_key node_id (map (finished (CacheKey (rootWithFullName rt)) (fst ` set t) (set es)) (map snd t))"
    "edges = sortDependencyGraphEdges es"
    using edges_run_ok [OF assms(1) b(1)] b(2) by (auto simp: es_def graph_of_def Let_def)
  have es: "set edges = set es" by (simp add: p(4) sortDependencyGraphEdges_def)
  have fst_eq: "map fst t = map node_id (map snd t)" using p(1) by (auto simp: fresh_table_def)
  have ids: "node_id ` set nodes = fst ` set t"
    using arg_cong [OF fst_eq, of set] by (simp add: p(3) image_image)
  have "edge_relation (fst ` set t) (set es) =
      {(u, v). \<exists>e \<in> set edges. edge_parent_node_id e = u \<and> edge_child_node_id e = v}"
    using p(2) unfolding es by (auto simp: edge_relation_def edge_ok_def)
  then have "\<forall>n \<in> set nodes. node_min_depth n = shortest
      {(u, v). \<exists>e \<in> set edges. edge_parent_node_id e = u \<and> edge_child_node_id e = v}
      (CacheKey (rootWithFullName rt)) (node_id n)"
    by (auto simp: p(3) finished_def)
  moreover have "\<forall>n \<in> set nodes. \<forall>x. x \<in> set (node_dependency_types n) \<longleftrightarrow>
      x \<noteq> [] \<and> (\<exists>e \<in> set edges. edge_child_node_id e = node_id n \<and> edge_dependency_type e = x)"
  proof -
    have "finite {x. x \<noteq> [] \<and> (\<exists>e \<in> set es. edge_child_node_id e = i \<and> edge_dependency_type e = x)}" for i
      by (rule finite_subset [of _ "edge_dependency_type ` set es"]) auto
    then show ?thesis by (auto simp: p(3) finished_def es)
  qed
  moreover have "distinct (map node_id nodes)"
  proof -
    have "mset (map node_id nodes) = mset (map fst t)" unfolding p(3) fst_eq by (simp add: multiset.map_comp comp_def)
    with p(1) mset_eq_imp_distinct_iff [OF this] show ?thesis by (simp only: fresh_table_def)
  qed
  moreover have "\<forall>e \<in> set edges. edge_parent_node_id e \<in> node_id ` set nodes \<and> edge_child_node_id e \<in> node_id ` set nodes"
    using p(2) unfolding es ids by (auto simp: edge_ok_def)
  ultimately show ?thesis by (simp add: p(3))
qed

theorem lockfile_graph_wellformed_witness:
  "\<exists>nodes edges hash. sample_run in_order = Inr (nodes, edges, hash) \<and>
     map (\<lambda>n. (node_id n, node_min_depth n)) nodes =
       [(''npm:@acme/tool:1.2.0'', 0), (''npm:a:1.0.0'', 1), (''npm:b:1.0.0'', 1), (''npm:b:2.0.0'', 2)] \<and>
     distinct (map node_id nodes)"
proof -
  obtain nodes edges hash where r: "sample_run in_order = Inr (nodes, edges, hash)"
    "map (\<lambda>n. (node_id n, node_min_depth n)) nodes =
       [(''npm:@acme/tool:1.2.0'', 0), (''npm:a:1.0.0'', 1), (''npm:b:1.0.0'', 1), (''npm:b:2.0.0'', 2)]"
    using sample_run_result by (elim exE conjE)
  with lockfile_graph_wellformed [OF valid_orders(1) r(1) [unfolded sample_run_def]] show ?thesis by simp
qed

text \<open>The result of parsing a lockfile (nodes, edges and hash, or the error) does not depend on the
  orders in which Go iterates over its maps.\<close>

lemma lockfile_order_independent:
  assumes "valid_order ord" "valid_order ord'"
  shows "ParsePackageLock ord unmarshal marshal sha rt data = ParsePackageLock ord' unmarshal marshal sha rt data"
proof -
  have "graph_of marshal sha r t (es_edges (edges_run ord ps ids t)) = graph_of marshal sha r t (es_edges (edges_run ord' ps ids t))"
    if b: "buildDependencyGraphNodes rootArt ps (sort (map fst ps)) = Inr (ids, t)" for rootArt ps ids t r
  proof -
    have same: "set (es_edges (edges_run ord ps ids t)) = set (es_edges (edges_run ord' ps ids t))"
      unfolding edges_run_def using paths_loop_order [OF assms] by simp
    moreover have "sortDependencyGraphEdges (es_edges (edges_run ord ps ids t)) =
        sortDependencyGraphEdges (es_edges (edges_run ord' ps ids t))"
      using same edges_run_ok [OF assms(1) b] edges_run_ok [OF assms(2) b] by (intro sort_edges_unique) blast+
    ultimately show ?thesis by (simp add: graph_of_def)
  qed
  then show ?thesis
    unfolding parse_closed [OF assms(1)] parse_closed [OF assms(2)] by (auto split: sum.split)
qed

lemma lockfile_order_independent_witness: "sample_run in_reverse = sample_run in_order"
  unfolding sample_run_def by (rule lockfile_order_independent [OF valid_orders(2,1)])

section \<open>The number of rounds\<close>

text \<open>The search with a bound on its rounds; \<^const>\<open>None\<close> when the bound is reached with nodes left on the queue.\<close>

fun depth_rounds :: "nat \<Rightarrow> (string \<Rightarrow> string list) \<Rightarrow> string list \<Rightarrow> node_table \<Rightarrow> node_table option" where
  "depth_rounds n adjacency [] byID = Some byID"
| "depth_rounds 0 adjacency (current # queue) byID = None"
| "depth_rounds (Suc n) adjacency (current # queue) byID =
     (case map_of byID current of
        None \<Rightarrow> depth_rounds n adjacency queue byID
      | Some currentNode \<Rightarrow>
          if node_min_depth currentNode < 0 then depth_rounds n adjacency queue byID
          else (case relax_children (node_min_depth currentNode) (adjacency current) queue byID of
                  (queue', byID') \<Rightarrow> depth_rounds n adjacency queue' byID'))"

lemma rounds_agree: "depth_rounds n adj q t = Some t' \<Longrightarrow> depth_loop adj q t = t'"
  by (induction n adj q t rule: depth_rounds.induct) (auto split: option.splits if_splits prod.splits)

text \<open>Depths on the queue ascend and differ by at most one, as in every breadth-first search, so that no depth is lowered
  once it is set: every round puts newly discovered nodes on the queue only.\<close>

definition bfs_ok :: "string list \<Rightarrow> node_table \<Rightarrow> bool" where
  "bfs_ok q t \<longleftrightarrow> sorted (map (depth_at t) q) \<and> (\<forall>u \<in> set q. 0 \<le> depth_at t u) \<and>
     (\<forall>v n. map_of t v = Some n \<longrightarrow> node_min_depth n = -1 \<or>
        0 \<le> node_min_depth n \<and> (q \<noteq> [] \<longrightarrow> node_min_depth n \<le> depth_at t (hd q) + 1))"

text \<open>While the children of a node at depth \<open>d\<close> are visited every depth is at most \<open>d + 1\<close>.\<close>

definition level_ok :: "int \<Rightarrow> string list \<Rightarrow> node_table \<Rightarrow> bool" where
  "level_ok d q t \<longleftrightarrow> sorted (map (depth_at t) q) \<and> (\<forall>u \<in> set q. d \<le> depth_at t u) \<and>
     (\<forall>v n. map_of t v = Some n \<longrightarrow> node_min_depth n = -1 \<or> 0 \<le> node_min_depth n \<and> node_min_depth n \<le> d + 1)"

lemma relax_level:
  assumes "0 \<le> d" "relax_children d cs q t = (q', t')" "level_ok d q t"
  shows "level_ok d q' t' \<and> length q' + undiscovered t' = length q + undiscovered t"
  using assms(2,3)
proof (induction cs arbitrary: q t)
  case (Cons c cs)
  show ?case
  proof (cases "map_of t c")
    case (Some n)
    have range: "node_min_depth n = -1 \<or> 0 \<le> node_min_depth n \<and> node_min_depth n \<le> d + 1"
      using Cons.prems(2) Some by (simp add: level_ok_def)
    show ?thesis
    proof (cases "node_min_depth n = -1")
      case True
      let ?t = "AList.update c (n\<lparr>node_min_depth := d + 1\<rparr>) t"
      have c: "c \<notin> set q" using Cons.prems(2) Some True assms(1) by (auto simp: level_ok_def depth_at_def)
      have le: "depth_at t u \<le> d + 1" if "u \<in> set q" for u
      proof -
        have u: "0 \<le> depth_at t u" using Cons.prems(2) that assms(1) by (auto simp: level_ok_def)
        then obtain m where m: "map_of t u = Some m" "depth_at t u = node_min_depth m"
          by (auto simp: depth_at_def split: option.splits)
        have "node_min_depth m = -1 \<or> node_min_depth m \<le> d + 1" using Cons.prems(2) m(1) unfolding level_ok_def by blast
        with u m(2) show ?thesis by auto
      qed
      have same: "map (depth_at ?t) q = map (depth_at t) q" using c by (auto simp: depth_at_update)
      have "level_ok d (q @ [c]) ?t"
        unfolding level_ok_def
      proof (intro conjI allI impI)
        show "sorted (map (depth_at ?t) (q @ [c]))"
          using Cons.prems(2) le by (simp add: same sorted_append depth_at_update level_ok_def)
        show "\<forall>u \<in> set (q @ [c]). d \<le> depth_at ?t u"
          using Cons.prems(2) by (auto simp: depth_at_update level_ok_def)
        fix v m assume "map_of ?t v = Some m"
        then show "node_min_depth m = -1 \<or> 0 \<le> node_min_depth m \<and> node_min_depth m \<le> d + 1"
          using Cons.prems(2) assms(1) by (auto simp: update_conv' level_ok_def split: if_splits)
      qed
      moreover have "undiscovered ?t + 1 = undiscovered t"
        using sum_update [OF Some, of "\<lambda>n. if node_min_depth n = -1 then 1 else 0" "n\<lparr>node_min_depth := d + 1\<rparr>"] True assms(1)
        by (simp add: undiscovered_def)
      ultimately show ?thesis
        using Cons.IH [of "q @ [c]" ?t] Cons.prems(1) Some True by simp
    next
      case False
      then show ?thesis using Cons range Some by auto
    qed
  qed (use Cons in auto)
qed simp

lemma rounds_enough:
  "bfs_ok q t \<Longrightarrow> length q + undiscovered t \<le> n \<Longrightarrow> depth_rounds n adj q t \<noteq> None"
proof (induction n arbitrary: q t)
  case 0
  then show ?case by simp
next
  case (Suc n)
  show ?case
  proof (cases q)
    case (Cons cur rest)
    have d0: "0 \<le> depth_at t cur" using Suc.prems(1) Cons by (simp add: bfs_ok_def)
    then obtain node where node: "map_of t cur = Some node" "node_min_depth node = depth_at t cur"
      by (auto simp: depth_at_def split: option.splits)
    obtain q' t' where r: "relax_children (depth_at t cur) (adj cur) rest t = (q', t')" by fastforce
    have "level_ok (depth_at t cur) rest t"
      using Suc.prems(1) Cons by (auto simp: bfs_ok_def level_ok_def)
    from relax_level [OF d0 r this] have l: "level_ok (depth_at t cur) q' t'"
      and len: "length q' + undiscovered t' = length rest + undiscovered t" by auto
    have "bfs_ok q' t'"
      using l d0 by (cases q') (force simp: bfs_ok_def level_ok_def)+
    from Suc.IH [OF this] len Suc.prems(2) Cons show ?thesis
      using node d0 r by simp
  qed simp
qed

text \<open>The table the search starts from: every node, the root at depth zero.\<close>

definition search_table :: "string \<Rightarrow> dependency_graph_node list \<Rightarrow> node_table" where
  "search_table rootID nodes =
     (let byID0 = fold (\<lambda>n. AList.update (node_id n) n) nodes []
      in case map_of byID0 rootID of
           None \<Rightarrow> byID0
         | Some rootNode \<Rightarrow> AList.update rootID (rootNode\<lparr>node_min_depth := 0\<rparr>) byID0)"

lemma length_table: "distinct (map node_id nodes) \<Longrightarrow> fst ` set t \<inter> node_id ` set nodes = {} \<Longrightarrow>
  length (fold (\<lambda>n. AList.update (node_id n) n) nodes t) = length t + length nodes"
proof (induction nodes arbitrary: t)
  case (Cons n ns)
  have "map_of t (node_id n) = None" using Cons.prems by (auto simp: map_of_eq_None_iff)
  then have "AList.update (node_id n) n t = t @ [(node_id n, n)]" by (rule update_absent)
  with Cons show ?case by auto
qed simp

lemma undiscovered_le: "undiscovered t \<le> length t"
  unfolding undiscovered_def by (induction t) auto

text \<open>C36. The breadth-first search for the depths visits every node at most once: it ends after at most as many rounds as
  there are nodes, however the dependencies are connected, cycles included.\<close>

theorem depth_search_ends:
  assumes "distinct (map node_id nodes)" "\<forall>n \<in> set nodes. node_min_depth n = -1" "rootID \<in> node_id ` set nodes"
  shows "\<exists>byID. depth_rounds (length nodes) (\<lambda>p. map edge_child_node_id (filter (\<lambda>e. edge_parent_node_id e = p) edges))
      [rootID] (search_table rootID nodes) = Some byID \<and>
    computeDepths rootID nodes edges = map (\<lambda>n. case map_of byID (node_id n) of None \<Rightarrow> n
      | Some node \<Rightarrow> n\<lparr>node_min_depth := node_min_depth node, node_dependency_types := node_dependency_types node\<rparr>) nodes"
proof -
  let ?adj = "\<lambda>p. map edge_child_node_id (filter (\<lambda>e. edge_parent_node_id e = p) edges)"
  let ?base = "fold (\<lambda>n. AList.update (node_id n) n) nodes []"
  obtain root where root: "root \<in> set nodes" "node_id root = rootID" using assms(3) by auto
  have r: "map_of ?base rootID = Some root" using map_of_table [OF assms(1) root(1)] root(2) by simp
  have t: "search_table rootID nodes = AList.update rootID (root\<lparr>node_min_depth := 0\<rparr>) ?base"
    by (simp add: search_table_def r)
  have fresh: "node_min_depth n = -1" if "map_of ?base v = Some n" for v n
  proof -
    have "v \<in> node_id ` set nodes" using that dom_table [of nodes "[]"] by auto
    then show ?thesis using map_of_table [OF assms(1), of _ "[]"] that assms(2) by auto
  qed
  have "undiscovered (search_table rootID nodes) + 1 = undiscovered ?base"
    using sum_update [OF r, of "\<lambda>n. if node_min_depth n = -1 then 1 else 0" "root\<lparr>node_min_depth := 0\<rparr>"] fresh [OF r]
    by (simp add: undiscovered_def t)
  moreover have "undiscovered ?base \<le> length nodes"
    using undiscovered_le [of ?base] length_table [OF assms(1), of "[]"] by simp
  moreover have "bfs_ok [rootID] (search_table rootID nodes)"
    unfolding bfs_ok_def t using fresh by (auto simp: depth_at_def update_conv' split: if_splits)
  ultimately have "depth_rounds (length nodes) ?adj [rootID] (search_table rootID nodes) \<noteq> None"
    by (intro rounds_enough) auto
  then obtain byID where byID: "depth_rounds (length nodes) ?adj [rootID] (search_table rootID nodes) = Some byID" by auto
  from rounds_agree [OF this] byID show ?thesis
    by (intro exI [of _ byID]) (simp add: computeDepths_def search_table_def Let_def)
qed

definition cyclic_nodes :: "dependency_graph_node list" where
  "cyclic_nodes =
     map (\<lambda>name. new_node \<lparr>art_ecosystem = EcosystemNPM, art_namespace = [], art_name = name, art_version = ''1.0.0'', art_digest = []\<rparr>)
       [''a'', ''b'']"

definition cyclic_edges :: "dependency_graph_edge list" where
  "cyclic_edges =
     map (\<lambda>(p, c). \<lparr>edge_id = [], edge_root_id = [], edge_parent_node_id = p, edge_child_node_id = c, edge_dependency_type = ''prod''\<rparr>)
       [(node_id (hd cyclic_nodes), node_id (last cyclic_nodes)), (node_id (last cyclic_nodes), node_id (hd cyclic_nodes))]"

theorem depth_search_ends_witness:
  "\<exists>byID. depth_rounds (length cyclic_nodes) (\<lambda>p. map edge_child_node_id (filter (\<lambda>e. edge_parent_node_id e = p) cyclic_edges))
     [node_id (hd cyclic_nodes)] (search_table (node_id (hd cyclic_nodes)) cyclic_nodes) = Some byID"
proof -
  have "distinct (map node_id cyclic_nodes)" by code_simp
  moreover have "\<forall>n \<in> set cyclic_nodes. node_min_depth n = -1" by code_simp
  moreover have "node_id (hd cyclic_nodes) \<in> node_id ` set cyclic_nodes" by (simp add: cyclic_nodes_def)
  ultimately show ?thesis using depth_search_ends [of cyclic_nodes _ cyclic_edges] by blast
qed

end
