(* ===== verification/Valkey_Caches.thy ===== *)
theory Valkey_Caches
  imports Access_Service
begin

text \<open>
  The caches in Valkey (\<open>internal/infra/valkey/decision.go\<close>, \<open>metadata.go\<close>, \<open>dependency_context.go\<close>).
  The client library is a parameter: a record of the four commands the code uses, whose documented
  behaviour on the stored strings is the predicate \<open>valkey_ok\<close>. The JSON codecs are parameters too,
  with the round trip they promise as \<open>codec_ok\<close>.

  Invalidation works by generations: a counter per tenant is part of every key, and bumping it makes
  the old entries unreachable. The lemmas show that keys are injective, that a stored decision is read
  back, that no entry ever has a generation above the counter, and that a bump therefore empties the
  tenant's cache and nobody else's.
\<close>

section \<open>The client\<close>

text \<open>\<^const>\<open>None\<close> is the nil reply of an absent key; the last argument of \<open>SET\<close> is the \<open>PX\<close> option.\<close>

record 's valkey_client =
  vk_get :: "string \<Rightarrow> ('s, string option result) state"
  vk_set :: "string \<Rightarrow> string \<Rightarrow> duration option \<Rightarrow> ('s, unit result) state"
  vk_incr :: "string \<Rightarrow> ('s, unit result) state"
  vk_del :: "string \<Rightarrow> ('s, unit result) state"

text \<open>\<open>strconv.ParseInt(value, 10, 64)\<close>: an optional sign and at least one digit, within 64 bits.\<close>

definition all_digits :: "string \<Rightarrow> bool" where
  "all_digits s \<longleftrightarrow> s \<noteq> [] \<and> list_all (\<lambda>c. 48 \<le> byte c \<and> byte c \<le> 57) s"

definition ParseInt64 :: "string \<Rightarrow> int result" where
  "ParseInt64 s =
     (let syntax_error = Inl (plain_error (''strconv.ParseInt: parsing '' @ quote s @ '': invalid syntax''));
          range_error = Inl (plain_error (''strconv.ParseInt: parsing '' @ quote s @ '': value out of range''));
          (neg, digits) = (case s of
              [] \<Rightarrow> (False, [])
            | c # cs \<Rightarrow> (if c = CHR ''-'' then (True, cs) else if c = CHR ''+'' then (False, cs) else (False, s)))
      in if \<not> all_digits digits then syntax_error
         else (let n = (if neg then - int (read_nat digits) else int (read_nat digits))
               in if n < - (2 ^ 63) \<or> 2 ^ 63 - 1 < n then range_error else Inr n))"

definition currentCacheGeneration ::
  "'s valkey_client \<Rightarrow> string \<Rightarrow> string \<Rightarrow> ('s, int result) state" where
  "currentCacheGeneration client generationKey cacheName =
     do {
       r \<leftarrow> vk_get client generationKey;
       State_Monad.return (case r of
           Inr (Some v) \<Rightarrow>
             map_error (wrap_error (''parsing '' @ cacheName @ '' cache generation'')) (ParseInt64 v)
         | Inr None \<Rightarrow> Inr 0
         | Inl e \<Rightarrow> Inl (wrap_error (''getting '' @ cacheName @ '' cache generation'') e))
     }"

text \<open>The shared end of the three \<open>Set\<close> methods: with an expiry when the TTL is positive.\<close>

definition set_with_ttl ::
  "'s valkey_client \<Rightarrow> string \<Rightarrow> string \<Rightarrow> string \<Rightarrow> duration \<Rightarrow> ('s, unit result) state" where
  "set_with_ttl client what key data ttl =
     do { r \<leftarrow> vk_set client key data (if ttl > 0 then Some ttl else None);
          State_Monad.return (map_error (wrap_error what) r) }"

section \<open>The decision cache\<close>

definition decisionGenerationKey :: "string \<Rightarrow> string" where
  "decisionGenerationKey tenantID = ''decision-generation:'' @ tenantID"

definition decisionKey :: "string \<Rightarrow> int \<Rightarrow> artifact_identity \<Rightarrow> string \<Rightarrow> string" where
  "decisionKey tenantID generation artifact h0 =
     (let h = (if h0 = [] then ''none'' else h0)
      in ''decision:'' @ tenantID @ '':'' @ show_int generation @ '':'' @ h @ '':'' @ CacheKey artifact)"

definition DecisionCacheGet ::
  "'s valkey_client \<Rightarrow> (string \<Rightarrow> decision result) \<Rightarrow> string \<Rightarrow> artifact_identity \<Rightarrow> string \<Rightarrow>
   ('s, decision result) state" where
  "DecisionCacheGet client unmarshal tenantID artifact h =
     on_ok (currentCacheGeneration client (decisionGenerationKey tenantID) ''decision'')
       (\<lambda>generation. do {
          r \<leftarrow> vk_get client (decisionKey tenantID generation artifact h);
          State_Monad.return (case r of
              Inl e \<Rightarrow> Inl (wrap_error ''getting cached decision'' e)
            | Inr None \<Rightarrow> Inl (sentinel_error ErrCacheMiss)
            | Inr (Some data) \<Rightarrow> map_error (wrap_error ''unmarshalling cached decision'') (unmarshal data))
        })"

definition DecisionCacheSet ::
  "'s valkey_client \<Rightarrow> (string \<Rightarrow> string) \<Rightarrow> (decision \<Rightarrow> string result) \<Rightarrow> decision \<Rightarrow> duration \<Rightarrow>
   ('s, unit result) state" where
  "DecisionCacheSet client sha256_hex marshal d ttl =
     (case marshal d of
        Inl e \<Rightarrow> State_Monad.return (Inl (wrap_error ''marshalling decision for cache'' e))
      | Inr data \<Rightarrow>
          on_ok (currentCacheGeneration client (decisionGenerationKey (dec_tenant_id d)) ''decision'')
            (\<lambda>generation.
               set_with_ttl client ''setting cached decision''
                 (decisionKey (dec_tenant_id d) generation (dec_artifact d)
                    (dependencyContextCacheHash sha256_hex (dec_dependency_context d))) data ttl))"

definition DecisionCacheInvalidate ::
  "'s valkey_client \<Rightarrow> string \<Rightarrow> artifact_identity \<Rightarrow> ('s, unit result) state" where
  "DecisionCacheInvalidate client tenantID artifact =
     on_ok (currentCacheGeneration client (decisionGenerationKey tenantID) ''decision'')
       (\<lambda>generation. do {
          r \<leftarrow> vk_del client (decisionKey tenantID generation artifact []);
          State_Monad.return (map_error (wrap_error ''invalidating cached decision'') r)
        })"

definition DecisionCacheInvalidateTenant :: "'s valkey_client \<Rightarrow> string \<Rightarrow> ('s, unit result) state" where
  "DecisionCacheInvalidateTenant client tenantID =
     do { r \<leftarrow> vk_incr client (decisionGenerationKey tenantID);
          State_Monad.return (map_error (wrap_error ''invalidating tenant decision cache'') r) }"

section \<open>The metadata cache\<close>

definition metadataGenerationKey :: "string \<Rightarrow> string" where
  "metadataGenerationKey tenantID = ''metadata-generation:'' @ tenantID"

definition metadataKey :: "string \<Rightarrow> int \<Rightarrow> artifact_identity \<Rightarrow> string" where
  "metadataKey tenantID generation artifact =
     ''metadata:'' @ tenantID @ '':'' @ show_int generation @ '':'' @ CacheKey artifact"

definition MetadataCacheGet ::
  "'s valkey_client \<Rightarrow> (string \<Rightarrow> artifact_metadata result) \<Rightarrow> string \<Rightarrow> artifact_identity \<Rightarrow>
   ('s, artifact_metadata option result) state" where
  "MetadataCacheGet client unmarshal tenantID artifact =
     on_ok (currentCacheGeneration client (metadataGenerationKey tenantID) ''metadata'')
       (\<lambda>generation. do {
          r \<leftarrow> vk_get client (metadataKey tenantID generation artifact);
          State_Monad.return (case r of
              Inl e \<Rightarrow> Inl (wrap_error ''getting cached metadata'' e)
            | Inr None \<Rightarrow> Inl (sentinel_error ErrCacheMiss)
            | Inr (Some data) \<Rightarrow>
                map_sum id Some (map_error (wrap_error ''unmarshalling cached metadata'') (unmarshal data)))
        })"

definition MetadataCacheSet ::
  "'s valkey_client \<Rightarrow> (artifact_metadata \<Rightarrow> string result) \<Rightarrow> string \<Rightarrow> artifact_identity \<Rightarrow>
   artifact_metadata \<Rightarrow> duration \<Rightarrow> ('s, unit result) state" where
  "MetadataCacheSet client marshal tenantID artifact metadata ttl =
     (case marshal metadata of
        Inl e \<Rightarrow> State_Monad.return (Inl (wrap_error ''marshalling metadata for cache'' e))
      | Inr data \<Rightarrow>
          on_ok (currentCacheGeneration client (metadataGenerationKey tenantID) ''metadata'')
            (\<lambda>generation. set_with_ttl client ''setting cached metadata''
               (metadataKey tenantID generation artifact) data ttl))"

definition MetadataCacheInvalidateTenant :: "'s valkey_client \<Rightarrow> string \<Rightarrow> ('s, unit result) state" where
  "MetadataCacheInvalidateTenant client tenantID =
     do { r \<leftarrow> vk_incr client (metadataGenerationKey tenantID);
          State_Monad.return (map_error (wrap_error ''invalidating tenant metadata cache'') r) }"

section \<open>The dependency-context cache\<close>

definition contextCacheKey :: "dependency_context_summary_key \<Rightarrow> string" where
  "contextCacheKey key =
     ''dependency-context:'' @ summary_tenant_id key @ '':'' @ summary_upstream_id key @ '':'' @
     CacheKey (summary_artifact key)"

definition DependencyContextCacheGet ::
  "'s valkey_client \<Rightarrow> (string \<Rightarrow> string) \<Rightarrow> (string \<Rightarrow> dependency_context result) \<Rightarrow>
   dependency_context_summary_key \<Rightarrow> ('s, dependency_context result) state" where
  "DependencyContextCacheGet client sha256_hex unmarshal key =
     do {
       r \<leftarrow> vk_get client (contextCacheKey key);
       State_Monad.return (case r of
           Inl e \<Rightarrow> Inl (wrap_error ''getting cached dependency context'' e)
         | Inr None \<Rightarrow> Inl (sentinel_error ErrCacheMiss)
         | Inr (Some data) \<Rightarrow>
             map_sum id (NormalizeContext sha256_hex)
               (map_error (wrap_error ''unmarshalling cached dependency context'') (unmarshal data)))
     }"

definition DependencyContextCacheSet ::
  "'s valkey_client \<Rightarrow> (string \<Rightarrow> string) \<Rightarrow> (dependency_context \<Rightarrow> string result) \<Rightarrow>
   dependency_context_summary_key \<Rightarrow> dependency_context \<Rightarrow> duration \<Rightarrow> ('s, unit result) state" where
  "DependencyContextCacheSet client sha256_hex marshal key c ttl =
     (case marshal (NormalizeContext sha256_hex c) of
        Inl e \<Rightarrow> State_Monad.return (Inl (wrap_error ''marshalling dependency context for cache'' e))
      | Inr data \<Rightarrow>
          set_with_ttl client ''setting cached dependency context'' (contextCacheKey key) data ttl)"

section \<open>Parsing what was formatted\<close>

lemma all_digits_show_nat: "all_digits (show_nat n)"
  using show_nat_digits [of n] by (simp add: all_digits_def list_all_iff)

lemma parse_show_int:
  assumes "- (2 ^ 63) \<le> i" "i \<le> 2 ^ 63 - 1"
  shows "ParseInt64 (show_int i) = Inr i"
proof (cases "i < 0")
  case True
  with assms all_digits_show_nat [of "nat (- i)"] show ?thesis
    by (simp add: ParseInt64_def show_int_def Let_def)
next
  case False
  obtain c cs where cs: "show_nat (nat i) = c # cs" by (cases "show_nat (nat i)") auto
  with show_nat_digits [of "nat i"] have "48 \<le> byte c" by simp
  then have "c \<noteq> CHR ''-''" "c \<noteq> CHR ''+''" by (auto simp: byte_def)
  with False assms cs all_digits_show_nat [of "nat i"] read_show_nat [of "nat i"] show ?thesis
    by (simp add: ParseInt64_def show_int_def Let_def)
qed

section \<open>Keys\<close>

lemma colon_split:
  assumes "xs @ CHR '':'' # ys = xs' @ CHR '':'' # ys'" "CHR '':'' \<notin> set xs" "CHR '':'' \<notin> set xs'"
  shows "xs = xs'" "ys = ys'"
  using append_eq_split_char [OF assms] by simp_all

lemma decision_key_inject:
  assumes "decisionKey t g a h = decisionKey t' g' a' h'"
    and "CHR '':'' \<notin> set t" "CHR '':'' \<notin> set t'" "CHR '':'' \<notin> set h" "CHR '':'' \<notin> set h'"
  shows "t = t' \<and> g = g' \<and> (if h = [] then ''none'' else h) = (if h' = [] then ''none'' else h') \<and>
    CacheKey a = CacheKey a'"
proof -
  let ?n = "\<lambda>h :: string. if h = [] then ''none'' else h"
  have h: "CHR '':'' \<notin> set (?n h)" "CHR '':'' \<notin> set (?n h')" using assms(4,5) by simp_all
  have "t @ CHR '':'' # show_int g @ CHR '':'' # ?n h @ CHR '':'' # CacheKey a =
      t' @ CHR '':'' # show_int g' @ CHR '':'' # ?n h' @ CHR '':'' # CacheKey a'"
    using assms(1) by (simp add: decisionKey_def Let_def)
  note 1 = colon_split [OF this assms(2,3)]
  note 2 = colon_split [OF 1(2) colon_not_in_show_int colon_not_in_show_int]
  note 3 = colon_split [OF 2(2) h]
  from 1(1) 2(1) 3 show ?thesis by simp
qed

lemma decision_keys_disjoint: "decisionKey t g a h \<noteq> decisionGenerationKey t'"
  by (simp add: decisionKey_def decisionGenerationKey_def Let_def)

lemma metadata_key_inject:
  assumes "metadataKey t g a = metadataKey t' g' a'" "CHR '':'' \<notin> set t" "CHR '':'' \<notin> set t'"
  shows "t = t' \<and> g = g' \<and> CacheKey a = CacheKey a'"
proof -
  have "t @ CHR '':'' # show_int g @ CHR '':'' # CacheKey a = t' @ CHR '':'' # show_int g' @ CHR '':'' # CacheKey a'"
    using assms(1) by (simp add: metadataKey_def)
  note 1 = colon_split [OF this assms(2,3)]
  note 2 = colon_split [OF 1(2) colon_not_in_show_int colon_not_in_show_int]
  from 1(1) 2 show ?thesis by simp
qed

lemma metadata_keys_disjoint: "metadataKey t g a \<noteq> metadataGenerationKey t'"
  by (simp add: metadataKey_def metadataGenerationKey_def)

lemma counter_keys_inject:
  "decisionGenerationKey t = decisionGenerationKey t' \<longleftrightarrow> t = t'"
  "metadataGenerationKey t = metadataGenerationKey t' \<longleftrightarrow> t = t'"
  by (simp_all add: decisionGenerationKey_def metadataGenerationKey_def)

section \<open>The documented behaviour of the store\<close>

text \<open>\<open>contents\<close> reads the stored strings off a world. Expiry is a change of the world between two
  operations, not inside one.\<close>

definition counter :: "string option \<Rightarrow> int result" where
  "counter v = (case v of None \<Rightarrow> Inr 0 | Some s \<Rightarrow> ParseInt64 s)"

definition valkey_ok :: "'s valkey_client \<Rightarrow> ('s \<Rightarrow> string \<rightharpoonup> string) \<Rightarrow> bool" where
  "valkey_ok client contents \<longleftrightarrow>
     (\<forall>k s. \<exists>s'. run_state (vk_get client k) s = (Inr (contents s k), s') \<and> contents s' = contents s) \<and>
     (\<forall>k v t s. \<exists>s'. run_state (vk_set client k v t) s = (Inr (), s') \<and> contents s' = (contents s)(k \<mapsto> v)) \<and>
     (\<forall>k s. \<exists>s'. run_state (vk_del client k) s = (Inr (), s') \<and> contents s' = (contents s)(k := None)) \<and>
     (\<forall>k s n. counter (contents s k) = Inr n \<longrightarrow> n < 2 ^ 63 - 1 \<longrightarrow>
        (\<exists>s'. run_state (vk_incr client k) s = (Inr (), s') \<and> contents s' = (contents s)(k \<mapsto> show_int (n + 1))))"

definition codec_ok :: "('a \<Rightarrow> string result) \<Rightarrow> (string \<Rightarrow> 'a result) \<Rightarrow> bool" where
  "codec_ok marshal unmarshal \<longleftrightarrow> (\<forall>a x. marshal a = Inr x \<longrightarrow> unmarshal x = Inr a)"

lemma counter_range: "counter v = Inr n \<Longrightarrow> n \<le> 2 ^ 63 - 1"
  by (auto simp: counter_def ParseInt64_def Let_def split: option.splits if_splits prod.splits)

lemma valkey_getE:
  assumes "valkey_ok client contents"
  obtains s' where "run_state (vk_get client k) s = (Inr (contents s k), s')" "contents s' = contents s"
  using assms unfolding valkey_ok_def by meson

lemma valkey_setE:
  assumes "valkey_ok client contents"
  obtains s' where "run_state (vk_set client k v t) s = (Inr (), s')" "contents s' = (contents s)(k \<mapsto> v)"
  using assms unfolding valkey_ok_def by meson

lemma valkey_delE:
  assumes "valkey_ok client contents"
  obtains s' where "run_state (vk_del client k) s = (Inr (), s')" "contents s' = (contents s)(k := None)"
  using assms unfolding valkey_ok_def by meson

lemma valkey_incrE:
  assumes "valkey_ok client contents" "counter (contents s k) = Inr n" "n < 2 ^ 63 - 1"
  obtains s' where "run_state (vk_incr client k) s = (Inr (), s')"
    "contents s' = (contents s)(k \<mapsto> show_int (n + 1))"
  using assms unfolding valkey_ok_def by meson

text \<open>The counter of a tenant, and the invariant of the keys: the generation of every stored entry of
  the tenant is at most its counter.\<close>

definition generation_of :: "(string \<Rightarrow> string) \<Rightarrow> (string \<rightharpoonup> string) \<Rightarrow> string \<Rightarrow> int result" where
  "generation_of genKey m t = counter (m (genKey t))"

definition generations_bounded ::
  "(string \<Rightarrow> string) \<Rightarrow> (string \<Rightarrow> int \<Rightarrow> 'x \<Rightarrow> string) \<Rightarrow> ('x \<Rightarrow> bool) \<Rightarrow> (string \<rightharpoonup> string) \<Rightarrow> string \<Rightarrow> bool" where
  "generations_bounded genKey key ok m t \<longleftrightarrow>
     (\<exists>c. generation_of genKey m t = Inr c \<and> 0 \<le> c \<and>
        (\<forall>g x. ok x \<longrightarrow> m (key t g x) \<noteq> None \<longrightarrow> g \<le> c))"

lemma current_generation_run:
  assumes "valkey_ok client contents" "generation_of genKey (contents s) t = Inr g"
  obtains s' where "run_state (currentCacheGeneration client (genKey t) name) s = (Inr g, s')"
    "contents s' = contents s"
proof -
  obtain s' where s': "run_state (vk_get client (genKey t)) s = (Inr (contents s (genKey t)), s')"
    "contents s' = contents s"
    using assms(1) by (rule valkey_getE)
  with assms(2) have "run_state (currentCacheGeneration client (genKey t) name) s = (Inr g, s')"
    by (auto simp: currentCacheGeneration_def generation_of_def counter_def split: option.splits)
  then show ?thesis using s'(2) by (rule that)
qed

lemma set_with_ttl_run:
  assumes "valkey_ok client contents"
  obtains s' where "run_state (set_with_ttl client what k data ttl) s = (Inr (), s')"
    "contents s' = (contents s)(k \<mapsto> data)"
proof -
  obtain s' where "run_state (vk_set client k data (if ttl > 0 then Some ttl else None)) s = (Inr (), s')"
    "contents s' = (contents s)(k \<mapsto> data)" using assms by (rule valkey_setE)
  then show ?thesis by (intro that [of s']) (simp_all add: set_with_ttl_def)
qed

section \<open>Caches with generations\<close>

text \<open>What a cache promises of its keys: a key determines its tenant and its generation, and is never a
  counter. \<open>valid\<close> are the tenants and entries that the code forms keys of.\<close>

locale generation_keys =
  fixes genKey :: "string \<Rightarrow> string"
    and key :: "string \<Rightarrow> int \<Rightarrow> 'x \<Rightarrow> string"
    and tenant_ok :: "string \<Rightarrow> bool"
    and ok :: "'x \<Rightarrow> bool"
  assumes key_inject:
      "key t g x = key t' g' x' \<Longrightarrow> tenant_ok t \<Longrightarrow> tenant_ok t' \<Longrightarrow> ok x \<Longrightarrow> ok x' \<Longrightarrow> t = t' \<and> g = g'"
    and key_no_counter: "key t g x \<noteq> genKey t'"
    and counter_inject: "genKey t = genKey t' \<Longrightarrow> t = t'"
begin

lemma generation_update [simp]:
  "generation_of genKey (m(key t g x \<mapsto> v)) t' = generation_of genKey m t'"
  "generation_of genKey (m(key t g x := None)) t' = generation_of genKey m t'"
  using key_no_counter [of t g x t'] by (simp_all add: generation_of_def)

lemma generation_bump:
  assumes "0 \<le> g" "g < 2 ^ 63 - 1"
  shows "generation_of genKey (m(genKey t \<mapsto> show_int (g + 1))) t = Inr (g + 1)"
  using assms by (simp add: generation_of_def counter_def parse_show_int)

lemma generation_other:
  "t \<noteq> u \<Longrightarrow> generation_of genKey (m(genKey t \<mapsto> v)) u = generation_of genKey m u"
  using counter_inject [of t u] by (auto simp: generation_of_def)

lemma bounded_initial: "generations_bounded genKey key ok Map.empty t"
  by (simp add: generations_bounded_def generation_of_def counter_def)

lemma bounded_set:
  assumes "generations_bounded genKey key ok m t" "generation_of genKey m u = Inr g"
    and "tenant_ok t" "tenant_ok u" "ok x"
  shows "generations_bounded genKey key ok (m(key u g x \<mapsto> v)) t"
  using assms key_inject [of t _ _ u g x]
  by (fastforce simp: generations_bounded_def split: if_splits)

lemma bounded_bump:
  assumes "generations_bounded genKey key ok m t" "generation_of genKey m u = Inr g"
    and "0 \<le> g" "g < 2 ^ 63 - 1"
  shows "generations_bounded genKey key ok (m(genKey u \<mapsto> show_int (g + 1))) t"
proof (cases "t = u")
  case True
  from assms(1,2) True have "\<forall>g' x. ok x \<longrightarrow> m (key t g' x) \<noteq> None \<longrightarrow> g' \<le> g"
    by (auto simp: generations_bounded_def)
  with generation_bump [of g m t] assms(3,4) True show ?thesis
    by (fastforce simp: generations_bounded_def key_no_counter)
next
  case False
  with assms(1) show ?thesis
    by (auto simp: generations_bounded_def generation_other key_no_counter)
qed

lemma bounded_remove:
  "generations_bounded genKey key ok m t \<Longrightarrow> generations_bounded genKey key ok (m(key u g x := None)) t"
  by (auto simp: generations_bounded_def)

lemma bumped_is_empty:
  assumes "generations_bounded genKey key ok m t" "generation_of genKey m t = Inr g" "ok x"
  shows "(m(genKey t \<mapsto> show_int (g + 1))) (key t (g + 1) x) = None"
proof (rule ccontr)
  assume "\<not> ?thesis"
  then have "m (key t (g + 1) x) \<noteq> None" by (simp add: key_no_counter)
  with assms have "g + 1 \<le> g" by (fastforce simp: generations_bounded_def)
  then show False by simp
qed

end

text \<open>A hash with a colon would make keys ambiguous; tenant identifiers and hexadecimal digests have none.\<close>

definition no_colon :: "string \<Rightarrow> bool" where
  "no_colon s \<longleftrightarrow> CHR '':'' \<notin> set s"

interpretation dk: generation_keys decisionGenerationKey "\<lambda>t g (a, h). decisionKey t g a h" no_colon
  "\<lambda>(a, h). no_colon h"
  by unfold_locales
    (auto simp: no_colon_def decision_keys_disjoint counter_keys_inject dest!: decision_key_inject)

interpretation mk: generation_keys metadataGenerationKey metadataKey no_colon "\<lambda>_. True"
  by unfold_locales
    (auto simp: no_colon_def metadata_keys_disjoint counter_keys_inject dest!: metadata_key_inject)

abbreviation decisions_bounded :: "(string \<rightharpoonup> string) \<Rightarrow> string \<Rightarrow> bool" where
  "decisions_bounded \<equiv>
     generations_bounded decisionGenerationKey (\<lambda>t g (a, h). decisionKey t g a h) (\<lambda>(a, h). no_colon h)"

abbreviation metadata_bounded :: "(string \<rightharpoonup> string) \<Rightarrow> string \<Rightarrow> bool" where
  "metadata_bounded \<equiv> generations_bounded metadataGenerationKey metadataKey (\<lambda>_. True)"

section \<open>Reading, writing and invalidating\<close>

lemma decision_get_run:
  assumes "valkey_ok client contents" "generation_of decisionGenerationKey (contents s) t = Inr g"
  obtains s' where "contents s' = contents s"
    "run_state (DecisionCacheGet client unmarshal t a h) s =
      ((case contents s (decisionKey t g a h) of
          None \<Rightarrow> Inl (sentinel_error ErrCacheMiss)
        | Some data \<Rightarrow> map_error (wrap_error ''unmarshalling cached decision'') (unmarshal data)), s')"
proof -
  obtain s1 where s1: "run_state (currentCacheGeneration client (decisionGenerationKey t) ''decision'') s = (Inr g, s1)"
    "contents s1 = contents s" using assms by (rule current_generation_run)
  obtain s2 where s2: "run_state (vk_get client (decisionKey t g a h)) s1 =
      (Inr (contents s1 (decisionKey t g a h)), s2)" "contents s2 = contents s1"
    using assms(1) by (rule valkey_getE)
  show ?thesis
    by (rule that [of s2]) (simp_all add: s1 s2 DecisionCacheGet_def run_on_ok split: option.split)
qed

lemma decision_get_result:
  assumes "valkey_ok client contents" "generation_of decisionGenerationKey (contents s) t = Inr g"
  shows "fst (run_state (DecisionCacheGet client unmarshal t a h) s) =
    (case contents s (decisionKey t g a h) of
        None \<Rightarrow> Inl (sentinel_error ErrCacheMiss)
      | Some data \<Rightarrow> map_error (wrap_error ''unmarshalling cached decision'') (unmarshal data))"
  by (rule decision_get_run [OF assms, of unmarshal a h]) simp

abbreviation decision_hash :: "(string \<Rightarrow> string) \<Rightarrow> decision \<Rightarrow> string" where
  "decision_hash sha d \<equiv> dependencyContextCacheHash sha (dec_dependency_context d)"

lemma decision_set_run:
  assumes "valkey_ok client contents"
    and "generation_of decisionGenerationKey (contents s) (dec_tenant_id d) = Inr g" "marshal d = Inr data"
  obtains s' where "run_state (DecisionCacheSet client sha marshal d ttl) s = (Inr (), s')"
    "contents s' = (contents s)(decisionKey (dec_tenant_id d) g (dec_artifact d) (decision_hash sha d) \<mapsto> data)"
proof -
  let ?k = "decisionKey (dec_tenant_id d) g (dec_artifact d) (decision_hash sha d)"
  obtain s1 where s1: "run_state (currentCacheGeneration client
      (decisionGenerationKey (dec_tenant_id d)) ''decision'') s = (Inr g, s1)" "contents s1 = contents s"
    using assms(1,2) by (rule current_generation_run)
  obtain s2 where s2: "run_state (set_with_ttl client ''setting cached decision'' ?k data ttl) s1 = (Inr (), s2)"
    "contents s2 = (contents s1)(?k \<mapsto> data)" using assms(1) by (rule set_with_ttl_run)
  show ?thesis
    by (rule that [of s2]) (simp_all add: s1 s2 assms(3) DecisionCacheSet_def run_on_ok)
qed

lemma decision_invalidate_run:
  assumes "valkey_ok client contents" "generation_of decisionGenerationKey (contents s) t = Inr g"
  obtains s' where "run_state (DecisionCacheInvalidate client t a) s = (Inr (), s')"
    "contents s' = (contents s)(decisionKey t g a [] := None)"
proof -
  obtain s1 where s1: "run_state (currentCacheGeneration client (decisionGenerationKey t) ''decision'') s = (Inr g, s1)"
    "contents s1 = contents s" using assms by (rule current_generation_run)
  obtain s2 where s2: "run_state (vk_del client (decisionKey t g a [])) s1 = (Inr (), s2)"
    "contents s2 = (contents s1)(decisionKey t g a [] := None)" using assms(1) by (rule valkey_delE)
  show ?thesis
    by (rule that [of s2]) (simp_all add: s1 s2 DecisionCacheInvalidate_def run_on_ok)
qed

lemma decision_invalidate_tenant_run:
  assumes "valkey_ok client contents" "generation_of decisionGenerationKey (contents s) t = Inr g"
    and "g < 2 ^ 63 - 1"
  obtains s' where "run_state (DecisionCacheInvalidateTenant client t) s = (Inr (), s')"
    "contents s' = (contents s)(decisionGenerationKey t \<mapsto> show_int (g + 1))"
proof -
  obtain s1 where "run_state (vk_incr client (decisionGenerationKey t)) s = (Inr (), s1)"
    "contents s1 = (contents s)(decisionGenerationKey t \<mapsto> show_int (g + 1))"
    using assms(1) assms(2) [unfolded generation_of_def] assms(3) by (rule valkey_incrE)
  then show ?thesis by (intro that [of s1]) (simp_all add: DecisionCacheInvalidateTenant_def)
qed

lemma bounded_generation:
  "generations_bounded genKey key ok m t \<Longrightarrow> \<exists>g. generation_of genKey m t = Inr g \<and> 0 \<le> g"
  by (auto simp: generations_bounded_def)

lemma decision_key_other_hash:
  "no_colon t \<Longrightarrow> no_colon h \<Longrightarrow> h \<noteq> [] \<Longrightarrow> h \<noteq> ''none'' \<Longrightarrow> decisionKey t g a h \<noteq> decisionKey t g' a' []"
  using decision_key_inject [of t g a h t g' a' "[]"] by (auto simp: no_colon_def)

text \<open>The metadata cache follows the same discipline, and the dependency-context cache returns the
  normal form of what was stored.\<close>

lemma metadata_get_result:
  assumes "valkey_ok client contents" "generation_of metadataGenerationKey (contents s) t = Inr g"
  shows "fst (run_state (MetadataCacheGet client unmarshal t a) s) =
    (case contents s (metadataKey t g a) of
        None \<Rightarrow> Inl (sentinel_error ErrCacheMiss)
      | Some data \<Rightarrow> map_sum id Some (map_error (wrap_error ''unmarshalling cached metadata'') (unmarshal data)))"
proof -
  obtain s1 where s1: "run_state (currentCacheGeneration client (metadataGenerationKey t) ''metadata'') s = (Inr g, s1)"
    "contents s1 = contents s" using assms by (rule current_generation_run)
  obtain s2 where s2: "run_state (vk_get client (metadataKey t g a)) s1 = (Inr (contents s1 (metadataKey t g a)), s2)"
    using assms(1) by (rule valkey_getE)
  show ?thesis by (simp add: s1 s2 MetadataCacheGet_def run_on_ok split: option.split)
qed

lemma metadata_set_run:
  assumes "valkey_ok client contents"
    and "generation_of metadataGenerationKey (contents s) t = Inr g" "marshal md = Inr data"
  obtains s' where "run_state (MetadataCacheSet client marshal t a md ttl) s = (Inr (), s')"
    "contents s' = (contents s)(metadataKey t g a \<mapsto> data)"
proof -
  obtain s1 where s1: "run_state (currentCacheGeneration client (metadataGenerationKey t) ''metadata'') s = (Inr g, s1)"
    "contents s1 = contents s" using assms(1,2) by (rule current_generation_run)
  obtain s2 where s2:
    "run_state (set_with_ttl client ''setting cached metadata'' (metadataKey t g a) data ttl) s1 = (Inr (), s2)"
    "contents s2 = (contents s1)(metadataKey t g a \<mapsto> data)" using assms(1) by (rule set_with_ttl_run)
  show ?thesis by (rule that [of s2]) (simp_all add: s1 s2 assms(3) MetadataCacheSet_def run_on_ok)
qed

lemma metadata_roundtrip:
  assumes "valkey_ok client contents" "codec_ok marshal unmarshal"
    and "generation_of metadataGenerationKey (contents s) t = Inr g" "marshal md = Inr data"
  shows "fst (run_state (do { _ \<leftarrow> MetadataCacheSet client marshal t a md ttl;
                              MetadataCacheGet client unmarshal t a }) s) = Inr (Some md)"
proof -
  obtain s1 where s1: "run_state (MetadataCacheSet client marshal t a md ttl) s = (Inr (), s1)"
    "contents s1 = (contents s)(metadataKey t g a \<mapsto> data)"
    using assms(1,3,4) by (rule metadata_set_run)
  with mk.generation_update(1) [of "contents s" t g a data t] assms(3)
  have "generation_of metadataGenerationKey (contents s1) t = Inr g" by simp
  from metadata_get_result [OF assms(1) this, of unmarshal a] s1 assms(2,4) show ?thesis
    by (simp add: codec_ok_def)
qed

lemma metadata_invalidate_tenant:
  assumes "valkey_ok client contents" "metadata_bounded (contents s) t"
    and "generation_of metadataGenerationKey (contents s) t = Inr g" "g < 2 ^ 63 - 1"
  shows "fst (run_state (do { _ \<leftarrow> MetadataCacheInvalidateTenant client t;
                              MetadataCacheGet client unmarshal t a }) s) = Inl (sentinel_error ErrCacheMiss)"
proof -
  obtain s1 where s1: "run_state (vk_incr client (metadataGenerationKey t)) s = (Inr (), s1)"
    "contents s1 = (contents s)(metadataGenerationKey t \<mapsto> show_int (g + 1))"
    using assms(1) assms(3) [unfolded generation_of_def] assms(4) by (rule valkey_incrE)
  from assms(2,3) have "0 \<le> g" by (auto dest: bounded_generation)
  with mk.generation_bump [of g "contents s" t] assms(4) s1(2)
  have "generation_of metadataGenerationKey (contents s1) t = Inr (g + 1)" by simp
  from metadata_get_result [OF assms(1) this, of unmarshal a] mk.bumped_is_empty [OF assms(2,3), of a] s1
  show ?thesis by (simp add: MetadataCacheInvalidateTenant_def)
qed

lemma context_cache_roundtrip:
  assumes "valkey_ok client contents" "codec_ok marshal unmarshal" "marshal (NormalizeContext sha c) = Inr data"
    and "\<And>x. sha x \<noteq> []"
  shows "fst (run_state (do { _ \<leftarrow> DependencyContextCacheSet client sha marshal key c ttl;
                              DependencyContextCacheGet client sha unmarshal key }) s) = Inr (NormalizeContext sha c)"
proof -
  obtain s1 where s1: "run_state (set_with_ttl client ''setting cached dependency context''
      (contextCacheKey key) data ttl) s = (Inr (), s1)" "contents s1 = (contents s)(contextCacheKey key \<mapsto> data)"
    using assms(1) by (rule set_with_ttl_run)
  obtain s2 where "run_state (vk_get client (contextCacheKey key)) s1 = (Inr (contents s1 (contextCacheKey key)), s2)"
    using assms(1) by (rule valkey_getE)
  with s1 assms(2,3) show ?thesis
    by (simp add: DependencyContextCacheSet_def DependencyContextCacheGet_def codec_ok_def normalize_context_idem assms(4))
qed

text \<open>A store in memory: what the theorems assume of the client can hold.\<close>

definition memory_client :: "(string \<rightharpoonup> string) valkey_client" where
  "memory_client =
     \<lparr>vk_get = \<lambda>k. State (\<lambda>m. (Inr (m k), m)),
      vk_set = \<lambda>k v _. State (\<lambda>m. (Inr (), m(k \<mapsto> v))),
      vk_incr = \<lambda>k. State (\<lambda>m. case counter (m k) of
          Inl e \<Rightarrow> (Inl e, m)
        | Inr n \<Rightarrow> if n < 2 ^ 63 - 1 then (Inr (), m(k \<mapsto> show_int (n + 1)))
                  else (Inl (plain_error ''ERR increment or decrement would overflow''), m)),
      vk_del = \<lambda>k. State (\<lambda>m. (Inr (), m(k := None)))\<rparr>"

lemma memory_client_ok: "valkey_ok memory_client (\<lambda>m. m)"
  by (simp add: valkey_ok_def memory_client_def)

definition cached_decision :: decision where
  "cached_decision =
     \<lparr>dec_id = ''d1'', dec_tenant_id = ''t1'', dec_artifact = sample_npm_normal, dec_outcome = DecisionDeny,
      dec_policy_id = ''p1'', dec_policy_hash = ''h'', dec_dependency_context = Some (sample_context [''g1'']),
      dec_reason = ''blocked'', dec_reasons = [], dec_warnings = [], dec_cached_at = None, dec_evaluated_at = 0\<rparr>"

definition one_marshal :: "decision \<Rightarrow> string result" where
  "one_marshal d = (if d = cached_decision then Inr ''json'' else Inl (plain_error ''unsupported value''))"

definition one_unmarshal :: "string \<Rightarrow> decision result" where
  "one_unmarshal data = Inr cached_decision"

lemma one_codec_ok: "codec_ok one_marshal one_unmarshal"
  by (simp add: codec_ok_def one_marshal_def one_unmarshal_def)

lemma cached_decision_tenant [simp]: "dec_tenant_id cached_decision = ''t1''"
  by (simp add: cached_decision_def)

lemma cached_decision_hash: "decision_hash (\<lambda>_. ''ab12'') cached_decision = ''ab12''"
  by code_simp

lemma no_colon_samples: "no_colon ''t1''" "no_colon ''t2''" "no_colon ''ab12''"
  by (simp_all add: no_colon_def)

lemma empty_generation: "generation_of genKey Map.empty t = Inr 0"
  by (simp add: generation_of_def counter_def)

section \<open>The theorems\<close>

text \<open>A stored decision is read back: after \<open>Set\<close> with any TTL, \<open>Get\<close> for the same tenant, an artifact
  with the same cache key and the same dependency-context hash returns the decision, in whatever state
  the cache was.\<close>

lemma decision_cache_roundtrip:
  assumes "valkey_ok client contents" "codec_ok marshal unmarshal"
    and "generation_of decisionGenerationKey (contents s) (dec_tenant_id d) = Inr g" "marshal d = Inr data"
    and "CacheKey a = CacheKey (dec_artifact d)"
  shows "fst (run_state (do { _ \<leftarrow> DecisionCacheSet client sha marshal d ttl;
                              DecisionCacheGet client unmarshal (dec_tenant_id d) a (decision_hash sha d) }) s) = Inr d"
proof -
  from assms(5) have k: "decisionKey t g a h = decisionKey t g (dec_artifact d) h" for t h
    by (simp add: decisionKey_def)
  obtain s1 where s1: "run_state (DecisionCacheSet client sha marshal d ttl) s = (Inr (), s1)"
    "contents s1 = (contents s)(decisionKey (dec_tenant_id d) g (dec_artifact d) (decision_hash sha d) \<mapsto> data)"
    using assms(1,3,4) by (rule decision_set_run)
  have "generation_of decisionGenerationKey (contents s1) (dec_tenant_id d) = Inr g"
    using assms(3) dk.generation_update(1) [of "contents s" _ g "(dec_artifact d, decision_hash sha d)"] s1(2) by simp
  from decision_get_run [OF assms(1) this, of unmarshal a "decision_hash sha d"] obtain s2 where
    "run_state (DecisionCacheGet client unmarshal (dec_tenant_id d) a (decision_hash sha d)) s1 =
      (map_error (wrap_error ''unmarshalling cached decision'') (unmarshal data), s2)"
    by (auto simp: s1(2) k)
  with s1(1) assms(2,4) show ?thesis by (simp add: codec_ok_def)
qed

lemma decision_cache_roundtrip_witness:
  "fst (run_state (do { _ \<leftarrow> DecisionCacheSet memory_client (\<lambda>_. ''ab12'') one_marshal cached_decision 1000;
                        DecisionCacheGet memory_client one_unmarshal ''t1'' sample_npm_normal ''ab12'' }) Map.empty) =
   Inr cached_decision"
  using decision_cache_roundtrip [OF memory_client_ok one_codec_ok, where s = Map.empty and d = cached_decision
      and g = 0 and data = "''json''" and a = sample_npm_normal and sha = "\<lambda>_. ''ab12''" and ttl = 1000]
  by (simp add: empty_generation one_marshal_def cached_decision_hash) (simp add: cached_decision_def)

text \<open>Invalidating a tenant empties its cache and nobody else's: afterwards every \<open>Get\<close> of the tenant
  misses, for every artifact and every dependency context, and every \<open>Get\<close> of another tenant returns
  what it returned before.\<close>

lemma invalidate_tenant_empties:
  assumes "valkey_ok client contents" "decisions_bounded (contents s) t" "decisions_bounded (contents s) u"
    and "generation_of decisionGenerationKey (contents s) t = Inr g" "g < 2 ^ 63 - 1"
    and "no_colon h" "u \<noteq> t"
  shows "fst (run_state (do { _ \<leftarrow> DecisionCacheInvalidateTenant client t;
                              DecisionCacheGet client unmarshal t a h }) s) = Inl (sentinel_error ErrCacheMiss) \<and>
         fst (run_state (do { _ \<leftarrow> DecisionCacheInvalidateTenant client t;
                              DecisionCacheGet client unmarshal u a' h' }) s) =
         fst (run_state (DecisionCacheGet client unmarshal u a' h') s)"
proof
  obtain s1 where s1: "run_state (DecisionCacheInvalidateTenant client t) s = (Inr (), s1)"
    "contents s1 = (contents s)(decisionGenerationKey t \<mapsto> show_int (g + 1))"
    using assms(1,4,5) by (rule decision_invalidate_tenant_run)
  from assms(2,4) have "0 \<le> g" by (auto dest: bounded_generation)
  then have g1: "generation_of decisionGenerationKey (contents s1) t = Inr (g + 1)"
    using assms(5) dk.generation_bump [of g "contents s" t] s1(2) by simp
  have "contents s1 (decisionKey t (g + 1) a h) = None"
    using dk.bumped_is_empty [OF assms(2,4), of "(a, h)"] assms(6) s1(2) by simp
  then have "fst (run_state (DecisionCacheGet client unmarshal t a h) s1) = Inl (sentinel_error ErrCacheMiss)"
    using decision_get_result [OF assms(1) g1, of unmarshal a h] by simp
  with s1(1) show "fst (run_state (do { _ \<leftarrow> DecisionCacheInvalidateTenant client t;
      DecisionCacheGet client unmarshal t a h }) s) = Inl (sentinel_error ErrCacheMiss)" by simp
  obtain k where k: "generation_of decisionGenerationKey (contents s) u = Inr k"
    using assms(3) by (auto dest: bounded_generation)
  then have "generation_of decisionGenerationKey (contents s1) u = Inr k"
    using dk.generation_other [of t u "contents s"] assms(7) s1(2) by simp
  then have "fst (run_state (DecisionCacheGet client unmarshal u a' h') s1) =
      fst (run_state (DecisionCacheGet client unmarshal u a' h') s)"
    using decision_get_result [OF assms(1) k, of unmarshal a' h']
      decision_get_result [OF assms(1), of s1 u k unmarshal a' h'] s1(2)
    by (simp add: decision_keys_disjoint)
  with s1(1) show "fst (run_state (do { _ \<leftarrow> DecisionCacheInvalidateTenant client t;
      DecisionCacheGet client unmarshal u a' h' }) s) = fst (run_state (DecisionCacheGet client unmarshal u a' h') s)"
    by simp
qed

lemma invalidate_tenant_empties_witness:
  "fst (run_state (do { _ \<leftarrow> DecisionCacheInvalidateTenant memory_client ''t1'';
                        DecisionCacheGet memory_client one_unmarshal ''t1'' sample_npm_normal ''ab12'' }) Map.empty) =
     Inl (sentinel_error ErrCacheMiss) \<and>
   fst (run_state (do { _ \<leftarrow> DecisionCacheInvalidateTenant memory_client ''t1'';
                        DecisionCacheGet memory_client one_unmarshal ''t2'' sample_npm_normal ''ab12'' }) Map.empty) =
     fst (run_state (DecisionCacheGet memory_client one_unmarshal ''t2'' sample_npm_normal ''ab12'') Map.empty)"
  using invalidate_tenant_empties [OF memory_client_ok, where s = Map.empty and t = "''t1''" and u = "''t2''"
      and g = 0 and h = "''ab12''" and unmarshal = one_unmarshal]
  by (simp add: dk.bounded_initial empty_generation no_colon_samples)

text \<open>The generations are an invariant of the decision cache: every operation keeps the generation of
  each tenant's stored decisions at or below its counter, whatever the codecs do, as long as the counter
  of the invalidated tenant has not reached the largest 64-bit integer.\<close>

lemma generations_invariant:
  assumes "valkey_ok client contents" "\<forall>u. no_colon u \<longrightarrow> decisions_bounded (contents s) u" "no_colon t"
    and "no_colon u" "no_colon (dec_tenant_id d)" "no_colon (decision_hash sha d)"
    and "generation_of decisionGenerationKey (contents s) u \<noteq> Inr (2 ^ 63 - 1)"
  shows "decisions_bounded (contents (snd (run_state (DecisionCacheGet client unmarshal u a h) s))) t \<and>
         decisions_bounded (contents (snd (run_state (DecisionCacheSet client sha marshal d ttl) s))) t \<and>
         decisions_bounded (contents (snd (run_state (DecisionCacheInvalidate client u a) s))) t \<and>
         decisions_bounded (contents (snd (run_state (DecisionCacheInvalidateTenant client u) s))) t"
proof -
  note t = assms(2) [rule_format, OF assms(3)]
  obtain g where g: "generation_of decisionGenerationKey (contents s) u = Inr g" "0 \<le> g"
    using assms(2,4) by (auto dest: bounded_generation)
  obtain k where k: "generation_of decisionGenerationKey (contents s) (dec_tenant_id d) = Inr k"
    using assms(2,5) by (auto dest: bounded_generation)
  have "decisions_bounded (contents (snd (run_state (DecisionCacheGet client unmarshal u a h) s))) t"
    by (rule decision_get_run [OF assms(1) g(1), of unmarshal a h]) (simp add: t)
  moreover have "decisions_bounded (contents (snd (run_state (DecisionCacheSet client sha marshal d ttl) s))) t"
  proof (cases "marshal d")
    case (Inr data)
    obtain s1 where "run_state (DecisionCacheSet client sha marshal d ttl) s = (Inr (), s1)"
      "contents s1 = (contents s)(decisionKey (dec_tenant_id d) k (dec_artifact d) (decision_hash sha d) \<mapsto> data)"
      using assms(1) k Inr by (rule decision_set_run)
    with dk.bounded_set [OF t k assms(3,5), of "(dec_artifact d, decision_hash sha d)" data] assms(6) show ?thesis
      by simp
  qed (simp add: DecisionCacheSet_def t)
  moreover have "decisions_bounded (contents (snd (run_state (DecisionCacheInvalidate client u a) s))) t"
  proof -
    obtain s1 where "run_state (DecisionCacheInvalidate client u a) s = (Inr (), s1)"
      "contents s1 = (contents s)(decisionKey u g a [] := None)"
      using assms(1) g(1) by (rule decision_invalidate_run)
    with dk.bounded_remove [OF t, of u g "(a, [])"] show ?thesis by simp
  qed
  moreover have "decisions_bounded (contents (snd (run_state (DecisionCacheInvalidateTenant client u) s))) t"
  proof (cases "g < 2 ^ 63 - 1")
    case True
    obtain s1 where "run_state (DecisionCacheInvalidateTenant client u) s = (Inr (), s1)"
      "contents s1 = (contents s)(decisionGenerationKey u \<mapsto> show_int (g + 1))"
      using assms(1) g(1) True by (rule decision_invalidate_tenant_run)
    with dk.bounded_bump [OF t g True] show ?thesis by simp
  next
    case False
    with g assms(7) counter_range [OF g(1) [unfolded generation_of_def]] show ?thesis by simp
  qed
  ultimately show ?thesis by blast
qed

lemma generations_invariant_witness:
  "decisions_bounded (snd (run_state (DecisionCacheSet memory_client (\<lambda>_. ''ab12'') one_marshal cached_decision 1000) Map.empty)) ''t1'' \<and>
   decisions_bounded (snd (run_state (DecisionCacheInvalidateTenant memory_client ''t1'') Map.empty)) ''t1''"
  using generations_invariant [OF memory_client_ok, of Map.empty "''t1''" "''t1''" cached_decision "\<lambda>_. ''ab12''"
      one_unmarshal sample_npm_normal "[]" one_marshal 1000]
  by (simp add: dk.bounded_initial no_colon_samples empty_generation cached_decision_hash)

text \<open>\<open>Invalidate\<close> removes only the entry without dependency context: a decision that was stored with a
  context is still served after \<open>Invalidate\<close> of its tenant and artifact.\<close>

lemma invalidate_misses_contexts:
  assumes "valkey_ok client contents" "codec_ok marshal unmarshal"
    and "generation_of decisionGenerationKey (contents s) (dec_tenant_id d) = Inr g" "marshal d = Inr data"
    and "no_colon (dec_tenant_id d)" "no_colon (decision_hash sha d)"
    and "decision_hash sha d \<noteq> []" "decision_hash sha d \<noteq> ''none''"
  shows "fst (run_state (do { _ \<leftarrow> DecisionCacheSet client sha marshal d ttl;
                              _ \<leftarrow> DecisionCacheInvalidate client (dec_tenant_id d) (dec_artifact d);
                              DecisionCacheGet client unmarshal (dec_tenant_id d) (dec_artifact d) (decision_hash sha d) }) s) =
         Inr d"
proof -
  let ?k = "decisionKey (dec_tenant_id d) g (dec_artifact d)"
  obtain s1 where s1: "run_state (DecisionCacheSet client sha marshal d ttl) s = (Inr (), s1)"
    "contents s1 = (contents s)(?k (decision_hash sha d) \<mapsto> data)"
    using assms(1,3,4) by (rule decision_set_run)
  have g1: "generation_of decisionGenerationKey (contents s1) (dec_tenant_id d) = Inr g"
    using assms(3) dk.generation_update(1) [of "contents s" _ g "(dec_artifact d, decision_hash sha d)"] s1(2) by simp
  obtain s2 where s2: "run_state (DecisionCacheInvalidate client (dec_tenant_id d) (dec_artifact d)) s1 = (Inr (), s2)"
    "contents s2 = (contents s1)(?k [] := None)"
    using assms(1) g1 by (rule decision_invalidate_run)
  have "generation_of decisionGenerationKey (contents s2) (dec_tenant_id d) = Inr g"
    using g1 dk.generation_update(2) [of "contents s1" _ g "(dec_artifact d, [])"] s2(2) by simp
  from decision_get_result [OF assms(1) this, of unmarshal "dec_artifact d" "decision_hash sha d"]
  have "fst (run_state (DecisionCacheGet client unmarshal (dec_tenant_id d) (dec_artifact d) (decision_hash sha d)) s2) = Inr d"
    using assms(2,4) decision_key_other_hash [OF assms(5-8), of g "dec_artifact d" g "dec_artifact d"] s1(2) s2(2)
    by (simp add: codec_ok_def)
  with s1(1) s2(1) show ?thesis by simp
qed

lemma invalidate_misses_contexts_witness:
  "fst (run_state (do { _ \<leftarrow> DecisionCacheSet memory_client (\<lambda>_. ''ab12'') one_marshal cached_decision 1000;
                        _ \<leftarrow> DecisionCacheInvalidate memory_client ''t1'' (dec_artifact cached_decision);
                        DecisionCacheGet memory_client one_unmarshal ''t1'' (dec_artifact cached_decision) ''ab12'' })
      Map.empty) = Inr cached_decision"
  using invalidate_misses_contexts [OF memory_client_ok one_codec_ok, where s = Map.empty and d = cached_decision
      and g = 0 and data = "''json''" and sha = "\<lambda>_. ''ab12''" and ttl = 1000]
  by (simp add: empty_generation one_marshal_def cached_decision_hash no_colon_def)

end
