(* ===== verification/Graph_Store.thy ===== *)
theory Graph_Store
  imports Npm_Graph Valkey_Caches Control_Plane
begin

text \<open>
  The job queue and graph tables (\<open>internal/infra/postgres/dependency_graph.go\<close>). The four tables are
  lists of rows; every SQL statement of the repository is the function it denotes on them, with the
  unique keys, the checks and the cascades of the schema. A transaction that fails returns the tables
  unchanged.

  What the database decides is a parameter \<open>graph_env\<close>: its clock, the identifiers it draws (\<open>ge_uuid\<close> of
  a running number), the rows locked by other transactions, the base URLs of the upstreams, and the
  failures: \<open>ge_fault stage\<close> is the error of the statements of a stage. The codec of the context column
  is a parameter as in the caches. Text columns are compared bytewise; rows that an \<open>ORDER BY\<close> leaves
  tied keep their order.

  The lemmas treat the repository as a state machine over arbitrary sequences of operations: the tables
  stay well-formed, a claimed job is not claimed again before its outcome is reported, and a stored
  graph is what the lookup reads back.
\<close>

section \<open>Tables\<close>

record root_row =
  rr_id :: string
  rr_tenant_id :: string
  rr_upstream_id :: string
  rr_package_name :: string
  rr_version :: string
  rr_status :: dependency_graph_status
  rr_graph_hash :: "string option"
  rr_error :: "string option"
  rr_created_at :: time
  rr_updated_at :: time
  rr_resolved_at :: "time option"

record summary_row =
  sr_root_id :: string
  sr_tenant_id :: string
  sr_upstream_id :: string
  sr_artifact :: artifact_identity
  sr_context :: string

record graph_db =
  gdb_roots :: "root_row list"
  gdb_nodes :: "dependency_graph_node list"
  gdb_edges :: "dependency_graph_edge list"
  gdb_summaries :: "summary_row list"
  gdb_drawn :: nat

record graph_env =
  ge_uuid :: "nat \<Rightarrow> string"
  ge_now :: time
  ge_locked :: "string \<Rightarrow> bool"
  ge_base_url :: "string \<Rightarrow> string option"
  ge_fault :: "string \<Rightarrow> go_error option"
  ge_sha256_hex :: "string \<Rightarrow> string"
  ge_marshal :: "dependency_context \<Rightarrow> string result"
  ge_unmarshal :: "string \<Rightarrow> dependency_context result"

definition empty_db :: graph_db where
  "empty_db = \<lparr>gdb_roots = [], gdb_nodes = [], gdb_edges = [], gdb_summaries = [], gdb_drawn = 0\<rparr>"

text \<open>A statement of a stage, with \<open>fmt.Errorf("stage: %w", err)\<close> on failure.\<close>

definition sql :: "graph_env \<Rightarrow> string \<Rightarrow> 'a \<Rightarrow> 'a result" where
  "sql env stage a = (case ge_fault env stage of Some e \<Rightarrow> Inl (wrap_error stage e) | None \<Rightarrow> Inr a)"

text \<open>A transaction: the new tables on success, the old ones otherwise.\<close>

definition transaction :: "graph_db \<Rightarrow> ('a \<times> graph_db) result \<Rightarrow> 'a result \<times> graph_db" where
  "transaction db r = (case r of Inl e \<Rightarrow> (Inl e, db) | Inr (a, db') \<Rightarrow> (Inr a, db'))"

type_synonym job_key = "string \<times> string \<times> string \<times> string"

definition row_key :: "root_row \<Rightarrow> job_key" where
  "row_key r = (rr_tenant_id r, rr_upstream_id r, rr_package_name r, rr_version r)"

definition request_key :: "dependency_graph_resolve_request \<Rightarrow> job_key" where
  "request_key req =
     (resolve_tenant_id req, up_id (resolve_upstream req), FullName (resolve_root req), art_version (resolve_root req))"

section \<open>Jobs\<close>

definition EnqueueResolve ::
  "graph_env \<Rightarrow> dependency_graph_resolve_request \<Rightarrow> graph_db \<Rightarrow> bool result \<times> graph_db" where
  "EnqueueResolve env req db =
     (let rootPackage = FullName (resolve_root req);
          version = art_version (resolve_root req)
      in if rootPackage = [] \<or> version = [] then
           (Inl (plain_error ''enqueueing dependency graph resolve: root package and version are required''), db)
         else
           transaction db
             (sql env ''enqueueing dependency graph resolve''
                (if \<exists>r \<in> set (gdb_roots db). row_key r = request_key req then (False, db)
                 else
                   (True, db\<lparr>gdb_roots := gdb_roots db @
                      [\<lparr>rr_id = ge_uuid env (gdb_drawn db), rr_tenant_id = resolve_tenant_id req,
                        rr_upstream_id = up_id (resolve_upstream req), rr_package_name = rootPackage,
                        rr_version = version, rr_status = DependencyGraphPending, rr_graph_hash = None,
                        rr_error = None, rr_created_at = ge_now env, rr_updated_at = ge_now env,
                        rr_resolved_at = None\<rparr>],
                      gdb_drawn := Suc (gdb_drawn db)\<rparr>))))"

text \<open>The common table expression \<open>next_job\<close>, with \<open>FOR UPDATE SKIP LOCKED\<close>.\<close>

definition next_job :: "graph_env \<Rightarrow> string option \<Rightarrow> time \<Rightarrow> graph_db \<Rightarrow> root_row option" where
  "next_job env tenantFilter now db =
     (case sort_key rr_updated_at
             (filter (\<lambda>r. rr_status r \<in> {DependencyGraphPending, DependencyGraphFailed} \<and> rr_updated_at r \<le> now \<and>
                (case tenantFilter of None \<Rightarrow> True | Some t \<Rightarrow> rr_tenant_id r = t) \<and> \<not> ge_locked env (rr_id r))
                (gdb_roots db)) of
        [] \<Rightarrow> None
      | r # _ \<Rightarrow> Some r)"

definition update_roots :: "(root_row \<Rightarrow> bool) \<Rightarrow> (root_row \<Rightarrow> root_row) \<Rightarrow> graph_db \<Rightarrow> graph_db" where
  "update_roots p f db = db\<lparr>gdb_roots := map (\<lambda>r. if p r then f r else r) (gdb_roots db)\<rparr>"

definition mark_resolving :: "graph_env \<Rightarrow> root_row \<Rightarrow> root_row" where
  "mark_resolving env r = r\<lparr>rr_status := DependencyGraphResolving, rr_updated_at := ge_now env, rr_error := None\<rparr>"

definition claimed_request ::
  "root_row \<Rightarrow> string \<Rightarrow> time \<Rightarrow> dependency_graph_resolve_request result" where
  "claimed_request r baseURL now =
     (case NormalizeArtifactIdentity
             \<lparr>art_ecosystem = EcosystemNPM, art_namespace = [], art_name = rr_package_name r,
              art_version = rr_version r, art_digest = []\<rparr> of
        Inl e \<Rightarrow> Inl (wrap_error ''normalizing claimed root artifact'' e)
      | Inr rootArt \<Rightarrow>
          Inr \<lparr>resolve_tenant_id = rr_tenant_id r,
               resolve_upstream =
                 \<lparr>up_id = rr_upstream_id r, up_tenant_id = rr_tenant_id r, up_name = [], up_ecosystem = EcosystemNPM,
                  up_base_url = baseURL, up_capabilities = None, up_auth = None,
                  up_created_at = zero_time, up_updated_at = zero_time\<rparr>,
               resolve_root = rootArt, resolve_requested_at = now\<rparr>)"

text \<open>Without a row the transaction is rolled back and the claim is empty. The request is normalized after
  the commit.\<close>

definition ClaimNextResolveJob ::
  "graph_env \<Rightarrow> string \<Rightarrow> time \<Rightarrow> graph_db \<Rightarrow> dependency_graph_resolve_request option result \<times> graph_db" where
  "ClaimNextResolveJob env tenantID0 now db =
     (let tenantID = trim_space tenantID0;
          tenantFilter = (if tenantID = ''*'' then None else Some tenantID)
      in if tenantID = [] then
           (Inl (plain_error ''claiming dependency graph resolve: tenant_id is required''), db)
         else
           (case bind_result (sql env ''beginning dependency graph claim'' ())
                  (\<lambda>_. sql env ''claiming dependency graph resolve'' (next_job env tenantFilter now db)) of
              Inl e \<Rightarrow> (Inl e, db)
            | Inr None \<Rightarrow> (Inr None, db)
            | Inr (Some r) \<Rightarrow>
                (case ge_base_url env (rr_upstream_id r) of
                   None \<Rightarrow> (Inr None, db)
                 | Some baseURL \<Rightarrow>
                     (case sql env ''committing dependency graph claim''
                             (update_roots (\<lambda>x. rr_id x = rr_id r) (mark_resolving env) db) of
                        Inl e \<Rightarrow> (Inl e, db)
                      | Inr db' \<Rightarrow> (map_sum id Some (claimed_request r baseURL now), db')))))"

definition FailResolve ::
  "graph_env \<Rightarrow> dependency_graph_resolve_request \<Rightarrow> string \<Rightarrow> time \<Rightarrow> graph_db \<Rightarrow> unit result \<times> graph_db" where
  "FailResolve env req message retryAfter db =
     transaction db
       (sql env ''marking dependency graph failed''
          ((), update_roots (\<lambda>r. row_key r = request_key req)
             (\<lambda>r. r\<lparr>rr_status := DependencyGraphFailed, rr_error := Some message, rr_updated_at := retryAfter\<rparr>) db))"

section \<open>Graphs\<close>

definition dependencyGraphRootID ::
  "graph_env \<Rightarrow> dependency_graph_resolve_request \<Rightarrow> graph_db \<Rightarrow> string result" where
  "dependencyGraphRootID env req db =
     bind_result (sql env ''loading dependency graph root'' ())
       (\<lambda>_. case List.find (\<lambda>r. row_key r = request_key req) (gdb_roots db) of
          None \<Rightarrow> Inl (wrap_error ''loading dependency graph root'' (plain_error ''no rows in result set''))
        | Some r \<Rightarrow> Inr (rr_id r))"

text \<open>Deleting nodes cascades to the edges at them.\<close>

definition clearDependencyGraph :: "graph_env \<Rightarrow> string \<Rightarrow> graph_db \<Rightarrow> graph_db result" where
  "clearDependencyGraph env rootID db =
     bind_result (sql env ''clearing dependency context summaries''
         (db\<lparr>gdb_summaries := filter (\<lambda>s. sr_root_id s \<noteq> rootID) (gdb_summaries db)\<rparr>))
       (\<lambda>db1. sql env ''clearing dependency graph nodes''
          (let gone = node_id ` set (filter (\<lambda>n. node_root_id n = rootID) (gdb_nodes db1))
           in db1\<lparr>gdb_nodes := filter (\<lambda>n. node_root_id n \<noteq> rootID) (gdb_nodes db1),
                  gdb_edges := filter (\<lambda>e. edge_parent_node_id e \<notin> gone \<and> edge_child_node_id e \<notin> gone)
                    (gdb_edges db1)\<rparr>))"

definition dependencyTypeStrings :: "dependency_type list \<Rightarrow> string list" where
  "dependencyTypeStrings vs = filter (\<lambda>v. v \<noteq> []) vs"

definition dependencyContextForNode :: "string \<Rightarrow> dependency_graph_node \<Rightarrow> dependency_context" where
  "dependencyContextForNode rootID node =
     (let depTypes = node_dependency_types node
      in if node_min_depth node = 0 then
           \<lparr>dep_scope = DependencyScopeDirect,
            dep_types = (if depTypes = [] then [DependencyTypeProd] else depTypes),
            dep_graph_ids = [rootID], dep_context_hash = []\<rparr>
         else
           \<lparr>dep_scope = DependencyScopeTransitive, dep_types = depTypes, dep_graph_ids = [rootID],
            dep_context_hash = []\<rparr>)"

definition unique_violation :: go_error where
  "unique_violation = plain_error ''duplicate key value violates unique constraint''"

definition insertDependencyContextSummary ::
  "graph_env \<Rightarrow> dependency_graph_resolve_request \<Rightarrow> string \<Rightarrow> artifact_identity \<Rightarrow> dependency_context \<Rightarrow>
   graph_db \<Rightarrow> graph_db result" where
  "insertDependencyContextSummary env req rootID artifact ctx db =
     (case ge_marshal env (NormalizeContext (ge_sha256_hex env) ctx) of
        Inl e \<Rightarrow> Inl (wrap_error ''marshalling dependency context summary'' e)
      | Inr data \<Rightarrow>
          bind_result (sql env ''inserting dependency context summary'' ())
            (\<lambda>_. if \<exists>s \<in> set (gdb_summaries db). sr_root_id s = rootID \<and> sr_artifact s = artifact then
                   Inl (wrap_error ''inserting dependency context summary'' unique_violation)
                 else Inr (db\<lparr>gdb_summaries := gdb_summaries db @
                   [\<lparr>sr_root_id = rootID, sr_tenant_id = resolve_tenant_id req,
                     sr_upstream_id = up_id (resolve_upstream req), sr_artifact = artifact, sr_context = data\<rparr>]\<rparr>)))"

definition insert_node :: "graph_env \<Rightarrow> string \<Rightarrow> dependency_graph_node \<Rightarrow> graph_db \<Rightarrow> (string \<times> graph_db) result" where
  "insert_node env rootID node db =
     bind_result (sql env ''inserting dependency graph node'' ())
       (\<lambda>_. if \<exists>n \<in> set (gdb_nodes db). node_root_id n = rootID \<and> node_artifact n = node_artifact node then
              Inl (wrap_error ''inserting dependency graph node'' unique_violation)
            else
              (let nodeID = ge_uuid env (gdb_drawn db)
               in Inr (nodeID, db\<lparr>gdb_nodes := gdb_nodes db @
                    [\<lparr>node_id = nodeID, node_root_id = rootID, node_artifact = node_artifact node,
                      node_min_depth = node_min_depth node,
                      node_dependency_types = dependencyTypeStrings (node_dependency_types node)\<rparr>],
                    gdb_drawn := Suc (gdb_drawn db)\<rparr>)))"

definition node_key :: "dependency_graph_node \<Rightarrow> string" where
  "node_key node = (if node_id node = [] then CacheKey (node_artifact node) else node_id node)"

fun insertDependencyGraphNodes ::
  "graph_env \<Rightarrow> dependency_graph_resolve_request \<Rightarrow> string \<Rightarrow> dependency_graph_node list \<Rightarrow>
   (string \<times> string) list \<Rightarrow> graph_db \<Rightarrow> ((string \<times> string) list \<times> graph_db) result" where
  "insertDependencyGraphNodes env req rootID [] nodeIDs db = Inr (nodeIDs, db)"
| "insertDependencyGraphNodes env req rootID (node # nodes) nodeIDs db =
     bind_result (insert_node env rootID node db)
       (\<lambda>(nodeID, db1). bind_result
          (insertDependencyContextSummary env req rootID (node_artifact node)
             (NormalizeContext (ge_sha256_hex env) (dependencyContextForNode rootID node)) db1)
          (\<lambda>db2. insertDependencyGraphNodes env req rootID nodes (AList.update (node_key node) nodeID nodeIDs) db2))"

definition edge_types :: "dependency_type set" where
  "edge_types = {DependencyTypeProd, DependencyTypeDev, DependencyTypePeer, DependencyTypeOptional}"

definition insert_edge ::
  "graph_env \<Rightarrow> string \<Rightarrow> string \<Rightarrow> string \<Rightarrow> dependency_type \<Rightarrow> graph_db \<Rightarrow> graph_db result" where
  "insert_edge env rootID parentID childID depType db =
     bind_result (sql env ''inserting dependency graph edge'' ())
       (\<lambda>_. if depType \<notin> edge_types then
              Inl (wrap_error ''inserting dependency graph edge'' (plain_error ''violates check constraint''))
            else if \<exists>e \<in> set (gdb_edges db). edge_root_id e = rootID \<and> edge_parent_node_id e = parentID \<and>
                edge_child_node_id e = childID \<and> edge_dependency_type e = depType then Inr db
            else Inr (db\<lparr>gdb_edges := gdb_edges db @
                [\<lparr>edge_id = ge_uuid env (gdb_drawn db), edge_root_id = rootID, edge_parent_node_id = parentID,
                  edge_child_node_id = childID, edge_dependency_type = depType\<rparr>],
                gdb_drawn := Suc (gdb_drawn db)\<rparr>))"

fun insertDependencyGraphEdges ::
  "graph_env \<Rightarrow> string \<Rightarrow> (string \<times> string) list \<Rightarrow> dependency_graph_edge list \<Rightarrow> graph_db \<Rightarrow> graph_db result" where
  "insertDependencyGraphEdges env rootID nodeIDs [] db = Inr db"
| "insertDependencyGraphEdges env rootID nodeIDs (edge # edges) db =
     (case map_of nodeIDs (edge_parent_node_id edge) of
        None \<Rightarrow> Inl (plain_error (''inserting dependency graph edge: parent node '' @
          quote (edge_parent_node_id edge) @ '' not found''))
      | Some parentID \<Rightarrow>
          (case map_of nodeIDs (edge_child_node_id edge) of
             None \<Rightarrow> Inl (plain_error (''inserting dependency graph edge: child node '' @
               quote (edge_child_node_id edge) @ '' not found''))
           | Some childID \<Rightarrow>
               bind_result (insert_edge env rootID parentID childID (edge_dependency_type edge) db)
                 (\<lambda>db1. insertDependencyGraphEdges env rootID nodeIDs edges db1)))"

definition markDependencyGraphComplete :: "graph_env \<Rightarrow> string \<Rightarrow> string \<Rightarrow> graph_db \<Rightarrow> graph_db result" where
  "markDependencyGraphComplete env rootID hash db =
     sql env ''marking dependency graph complete''
       (update_roots (\<lambda>r. rr_id r = rootID)
          (\<lambda>r. r\<lparr>rr_status := DependencyGraphComplete, rr_graph_hash := Some hash, rr_error := None,
                  rr_updated_at := ge_now env, rr_resolved_at := Some (ge_now env)\<rparr>) db)"

definition CompleteResolve ::
  "graph_env \<Rightarrow> dependency_graph_resolve_request \<Rightarrow> dependency_graph_node list \<Rightarrow> dependency_graph_edge list \<Rightarrow>
   string \<Rightarrow> graph_db \<Rightarrow> unit result \<times> graph_db" where
  "CompleteResolve env req nodes edges hash db =
     transaction db
       (bind_result (sql env ''beginning dependency graph completion'' ())
          (\<lambda>_. bind_result (dependencyGraphRootID env req db)
             (\<lambda>rootID. bind_result (clearDependencyGraph env rootID db)
                (\<lambda>db1. bind_result (insertDependencyGraphNodes env req rootID nodes [] db1)
                   (\<lambda>(nodeIDs, db2). bind_result (insertDependencyGraphEdges env rootID nodeIDs edges db2)
                      (\<lambda>db3. bind_result (markDependencyGraphComplete env rootID hash db3)
                         (\<lambda>db4. sql env ''committing dependency graph completion'' ((), db4))))))))"

section \<open>Reading\<close>

definition root_of_row :: "root_row \<Rightarrow> dependency_graph_root" where
  "root_of_row r =
     \<lparr>root_id = rr_id r, root_tenant_id = rr_tenant_id r, root_upstream_id = rr_upstream_id r,
      root_package_name = rr_package_name r, root_version = rr_version r, root_status = rr_status r,
      root_graph_hash = (case rr_graph_hash r of None \<Rightarrow> [] | Some h \<Rightarrow> h),
      root_error = (case rr_error r of None \<Rightarrow> [] | Some e \<Rightarrow> e), root_created_at = rr_created_at r,
      root_updated_at = rr_updated_at r, root_resolved_at = rr_resolved_at r\<rparr>"

text \<open>Scanning fails at the first row, if there is one; an error of the iteration shows after the rows.\<close>

definition scan_rows :: "graph_env \<Rightarrow> string \<Rightarrow> 'a list \<Rightarrow> 'a list result" where
  "scan_rows env stage rows = (if rows = [] then Inr [] else sql env stage rows)"

definition ListRoots :: "graph_env \<Rightarrow> string \<Rightarrow> int \<Rightarrow> graph_db \<Rightarrow> dependency_graph_root list result" where
  "ListRoots env tenantID limit0 db =
     (let limit = (if limit0 \<le> 0 \<or> 500 < limit0 then 100 else limit0)
      in bind_result (sql env ''listing dependency graph roots''
             (take (nat limit) (sort_key (\<lambda>r. - root_updated_at r)
                (map root_of_row (filter (\<lambda>r. rr_tenant_id r = tenantID) (gdb_roots db))))))
           (\<lambda>rows. bind_result (scan_rows env ''scanning dependency graph root'' rows)
              (\<lambda>roots. sql env ''iterating dependency graph roots'' roots)))"

definition GetSnapshot :: "graph_env \<Rightarrow> string \<Rightarrow> string \<Rightarrow> graph_db \<Rightarrow> dependency_graph_snapshot result" where
  "GetSnapshot env tenantID rootID db =
     bind_result (sql env ''loading dependency graph root'' ())
       (\<lambda>_. case List.find (\<lambda>r. rr_tenant_id r = tenantID \<and> rr_id r = rootID) (gdb_roots db) of
          None \<Rightarrow> Inl (sentinel_error ErrArtifactNotFound)
        | Some r \<Rightarrow>
            bind_result (sql env ''loading dependency graph nodes''
                (sort_key (\<lambda>n. (node_min_depth n, art_name (node_artifact n), art_version (node_artifact n)))
                   (filter (\<lambda>n. node_root_id n = rootID) (gdb_nodes db))))
              (\<lambda>nodeRows. bind_result (scan_rows env ''scanning dependency graph node'' nodeRows)
                 (\<lambda>ns. bind_result (sql env ''iterating dependency graph nodes'' ns)
                    (\<lambda>nodes. bind_result (sql env ''loading dependency graph edges''
                         (sort_key (\<lambda>e. (edge_parent_node_id e, edge_child_node_id e, edge_dependency_type e))
                            (filter (\<lambda>e. edge_root_id e = rootID) (gdb_edges db))))
                       (\<lambda>edgeRows. bind_result (scan_rows env ''scanning dependency graph edge'' edgeRows)
                          (\<lambda>es. bind_result (sql env ''iterating dependency graph edges'' es)
                             (\<lambda>edges. Inr \<lparr>graph_root = root_of_row r, graph_nodes = nodes,
                                graph_edges = edges\<rparr>)))))))"

fun merge_loop ::
  "(string \<Rightarrow> string) \<Rightarrow> dependency_scope \<Rightarrow> dependency_context list \<Rightarrow> dependency_type list \<Rightarrow> string list \<Rightarrow>
   dependency_context" where
  "merge_loop sha scope [] depTypes graphIDs =
     NormalizeContext sha
       \<lparr>dep_scope = scope, dep_types = depTypes, dep_graph_ids = graphIDs, dep_context_hash = []\<rparr>"
| "merge_loop sha scope (c0 # cs) depTypes graphIDs =
     (let c = NormalizeContext sha c0
      in if dep_scope c = DependencyScopeUnknown \<or> dep_scope c \<noteq> scope then NewUnknownDependencyContext sha
         else merge_loop sha scope cs (depTypes @ dep_types c) (graphIDs @ dep_graph_ids c))"

text \<open>Only called with a non-empty list.\<close>

definition mergeDependencyContexts :: "(string \<Rightarrow> string) \<Rightarrow> dependency_context list \<Rightarrow> dependency_context" where
  "mergeDependencyContexts sha cs =
     (case cs of [] \<Rightarrow> NewUnknownDependencyContext sha | c # _ \<Rightarrow> merge_loop sha (dep_scope c) cs [] [])"

fun decode_contexts :: "graph_env \<Rightarrow> summary_row list \<Rightarrow> dependency_context list result" where
  "decode_contexts env [] = Inr []"
| "decode_contexts env (s # ss) =
     (case ge_unmarshal env (sr_context s) of
        Inl e \<Rightarrow> Inl (wrap_error ''decoding dependency context'' e)
      | Inr c \<Rightarrow> bind_result (decode_contexts env ss) (\<lambda>cs. Inr (NormalizeContext (ge_sha256_hex env) c # cs)))"

definition LookupContext :: "graph_env \<Rightarrow> dependency_context_summary_key \<Rightarrow> graph_db \<Rightarrow> dependency_context result" where
  "LookupContext env key db =
     bind_result (sql env ''looking up dependency context''
         (filter (\<lambda>s. sr_tenant_id s = summary_tenant_id key \<and> sr_upstream_id s = summary_upstream_id key \<and>
            sr_artifact s = summary_artifact key) (gdb_summaries db)))
       (\<lambda>rows0. bind_result (scan_rows env ''scanning dependency context'' rows0)
          (\<lambda>rows. bind_result (decode_contexts env rows)
             (\<lambda>cs. bind_result (sql env ''iterating dependency contexts'' cs)
                (\<lambda>contexts. if contexts = [] then Inl (sentinel_error ErrArtifactNotFound)
                   else Inr (mergeDependencyContexts (ge_sha256_hex env) contexts)))))"

section \<open>Well-formed tables\<close>

definition drawn_ids :: "(nat \<Rightarrow> string) \<Rightarrow> graph_db \<Rightarrow> string set" where
  "drawn_ids uuid db = uuid ` {..<gdb_drawn db}"

definition roots_ok :: "(nat \<Rightarrow> string) \<Rightarrow> graph_db \<Rightarrow> bool" where
  "roots_ok uuid db \<longleftrightarrow>
     distinct (map rr_id (gdb_roots db)) \<and> distinct (map row_key (gdb_roots db)) \<and>
     rr_id ` set (gdb_roots db) \<subseteq> drawn_ids uuid db \<and>
     rr_status ` set (gdb_roots db) \<subseteq>
       {DependencyGraphPending, DependencyGraphResolving, DependencyGraphComplete, DependencyGraphFailed}"

definition nodes_ok :: "(nat \<Rightarrow> string) \<Rightarrow> graph_db \<Rightarrow> bool" where
  "nodes_ok uuid db \<longleftrightarrow>
     distinct (map node_id (gdb_nodes db)) \<and> distinct (map (\<lambda>n. (node_root_id n, node_artifact n)) (gdb_nodes db)) \<and>
     node_id ` set (gdb_nodes db) \<subseteq> drawn_ids uuid db \<and>
     node_root_id ` set (gdb_nodes db) \<subseteq> rr_id ` set (gdb_roots db)"

definition node_ids_of :: "graph_db \<Rightarrow> string \<Rightarrow> string set" where
  "node_ids_of db rootID = node_id ` {n \<in> set (gdb_nodes db). node_root_id n = rootID}"

definition edges_ok :: "graph_db \<Rightarrow> bool" where
  "edges_ok db \<longleftrightarrow>
     (\<forall>e \<in> set (gdb_edges db). edge_parent_node_id e \<in> node_ids_of db (edge_root_id e) \<and>
        edge_child_node_id e \<in> node_ids_of db (edge_root_id e) \<and> edge_dependency_type e \<in> edge_types)"

text \<open>Every context summary belongs to a node of its root, and carries the tenant and upstream of the root.\<close>

definition summaries_ok :: "graph_db \<Rightarrow> bool" where
  "summaries_ok db \<longleftrightarrow>
     (\<forall>s \<in> set (gdb_summaries db).
        (\<exists>n \<in> set (gdb_nodes db). node_root_id n = sr_root_id s \<and> node_artifact n = sr_artifact s) \<and>
        (\<exists>r \<in> set (gdb_roots db). rr_id r = sr_root_id s \<and> rr_tenant_id r = sr_tenant_id s \<and>
           rr_upstream_id r = sr_upstream_id s))"

definition graph_ok :: "(nat \<Rightarrow> string) \<Rightarrow> graph_db \<Rightarrow> bool" where
  "graph_ok uuid db \<longleftrightarrow> roots_ok uuid db \<and> nodes_ok uuid db \<and> edges_ok db \<and> summaries_ok db"

lemmas graph_ok_defs = graph_ok_def roots_ok_def nodes_ok_def edges_ok_def summaries_ok_def

lemma graph_ok_empty: "graph_ok uuid empty_db"
  by (simp add: graph_ok_defs empty_db_def)

lemma drawn_ids_Suc: "drawn_ids uuid (db\<lparr>gdb_drawn := Suc (gdb_drawn db)\<rparr>) = insert (uuid (gdb_drawn db)) (drawn_ids uuid db)"
  by (simp add: drawn_ids_def lessThan_Suc)

lemma fresh_id: "inj uuid \<Longrightarrow> uuid (gdb_drawn db) \<notin> drawn_ids uuid db"
  by (auto simp: drawn_ids_def inj_def)

lemma drawn_ids_cong: "gdb_drawn db = gdb_drawn db' \<Longrightarrow> drawn_ids uuid db = drawn_ids uuid db'"
  by (simp add: drawn_ids_def)

lemma sql_Inr: "sql env stage a = Inr b \<Longrightarrow> b = a"
  by (simp add: sql_def split: option.splits)

lemma scan_rows_Inr: "scan_rows env stage rows = Inr rs \<Longrightarrow> rs = rows"
  by (auto simp: scan_rows_def split: if_splits dest: sql_Inr)

lemma bind_InrE:
  assumes "bind_result r f = Inr b"
  obtains a where "r = Inr a" "f a = Inr b"
  using assms by (auto simp: bind_result_def split: sum.splits)

lemma snd_transaction:
  "snd (transaction db r) = (case r of Inl _ \<Rightarrow> db | Inr (_, db') \<Rightarrow> db')"
  by (auto simp: transaction_def split: sum.split)

text \<open>Changing rows of the root table without their identity.\<close>

definition keeps_row :: "(root_row \<Rightarrow> root_row) \<Rightarrow> bool" where
  "keeps_row f \<longleftrightarrow> (\<forall>r. rr_id (f r) = rr_id r \<and> row_key (f r) = row_key r \<and>
     rr_status (f r) \<in> {DependencyGraphPending, DependencyGraphResolving, DependencyGraphComplete, DependencyGraphFailed})"

lemma keeps_row_tenant: "keeps_row f \<Longrightarrow> rr_tenant_id (f r) = rr_tenant_id r \<and> rr_upstream_id (f r) = rr_upstream_id r"
  unfolding keeps_row_def row_key_def by (metis prod.inject)

lemma ex_in_map: "(\<exists>y \<in> set (map g xs). P y) \<longleftrightarrow> (\<exists>x \<in> set xs. P (g x))"
  by simp

lemma roots_update_roots: "gdb_roots (update_roots p f db) = map (\<lambda>r. if p r then f r else r) (gdb_roots db)"
  by (simp add: update_roots_def)

lemma update_roots_ok:
  assumes "graph_ok uuid db" "keeps_row f"
  shows "graph_ok uuid (update_roots p f db)"
proof -
  let ?g = "\<lambda>r. if p r then f r else r"
  have g: "rr_id (?g r) = rr_id r" "row_key (?g r) = row_key r" "rr_tenant_id (?g r) = rr_tenant_id r"
    "rr_upstream_id (?g r) = rr_upstream_id r" for r
    using assms(2) keeps_row_tenant [OF assms(2), of r] by (auto simp: keeps_row_def)
  have maps: "map rr_id (map ?g rs) = map rr_id rs" "map row_key (map ?g rs) = map row_key rs" for rs
    using g by simp_all
  have ids: "rr_id ` set (gdb_roots (update_roots p f db)) = rr_id ` set (gdb_roots db)"
    using arg_cong [OF maps(1) [of "gdb_roots db"], of set] by (simp only: roots_update_roots set_map)
  have roots: "roots_ok uuid (update_roots p f db)"
    using assms ids unfolding graph_ok_def roots_ok_def update_roots_def drawn_ids_def
    by (simp add: maps del: map_map) (auto simp: keeps_row_def)
  have tables: "gdb_summaries (update_roots p f db) = gdb_summaries db" "gdb_nodes (update_roots p f db) = gdb_nodes db"
    by (simp_all add: update_roots_def)
  have "summaries_ok (update_roots p f db)"
    using assms(1) unfolding graph_ok_def summaries_ok_def roots_update_roots tables ex_in_map
    by (simp add: g)
  with roots ids assms(1) show ?thesis
    unfolding graph_ok_def nodes_ok_def edges_ok_def node_ids_of_def
    by (simp add: update_roots_def drawn_ids_def)
qed

lemma keeps_rows:
  "keeps_row (mark_resolving env)"
  "keeps_row (\<lambda>r. r\<lparr>rr_status := DependencyGraphFailed, rr_error := e, rr_updated_at := t\<rparr>)"
  "keeps_row (\<lambda>r. r\<lparr>rr_status := DependencyGraphComplete, rr_graph_hash := h, rr_error := e, rr_updated_at := t, rr_resolved_at := t'\<rparr>)"
  by (simp_all add: keeps_row_def mark_resolving_def row_key_def)

lemma enqueue_ok:
  assumes "graph_ok uuid db" "ge_uuid env = uuid" "inj uuid"
  shows "graph_ok uuid (snd (EnqueueResolve env req db))"
proof -
  let ?id = "uuid (gdb_drawn db)"
  have f: "?id \<notin> drawn_ids uuid db" by (rule fresh_id [OF assms(3)])
  have r: "?id \<notin> rr_id ` set (gdb_roots db)" using assms(1) f by (auto simp: graph_ok_def roots_ok_def)
  show ?thesis
    using assms(1,2) f r
    by (auto simp: EnqueueResolve_def Let_def snd_transaction sql_def graph_ok_defs drawn_ids_def lessThan_Suc
        row_key_def request_key_def node_ids_of_def split: option.splits)
qed

lemma claim_ok: "graph_ok uuid db \<Longrightarrow> graph_ok uuid (snd (ClaimNextResolveJob env t now db))"
  using keeps_rows(1) [of env]
  by (auto simp: ClaimNextResolveJob_def Let_def intro: update_roots_ok dest: sql_Inr
      split: sum.split option.split)

lemma fail_ok: "graph_ok uuid db \<Longrightarrow> graph_ok uuid (snd (FailResolve env req msg t db))"
  by (auto simp: FailResolve_def snd_transaction sql_def intro: update_roots_ok [OF _ keeps_rows(2)]
      split: sum.splits option.splits)

section \<open>Storing a graph\<close>

text \<open>The effects of the statements on success.\<close>

definition cleared :: "string \<Rightarrow> graph_db \<Rightarrow> graph_db" where
  "cleared rid db =
     db\<lparr>gdb_summaries := filter (\<lambda>s. sr_root_id s \<noteq> rid) (gdb_summaries db),
        gdb_nodes := filter (\<lambda>n. node_root_id n \<noteq> rid) (gdb_nodes db),
        gdb_edges := filter (\<lambda>e. edge_parent_node_id e \<notin> node_ids_of db rid \<and>
          edge_child_node_id e \<notin> node_ids_of db rid) (gdb_edges db)\<rparr>"

lemma clear_Inr: "clearDependencyGraph env rid db = Inr db' \<Longrightarrow> db' = cleared rid db"
  by (auto simp: clearDependencyGraph_def cleared_def node_ids_of_def Let_def elim!: bind_InrE dest!: sql_Inr)

lemma node_id_inj:
  "\<lbrakk>nodes_ok uuid db; m \<in> set (gdb_nodes db); n \<in> set (gdb_nodes db); node_id m = node_id n\<rbrakk> \<Longrightarrow> m = n"
  by (simp add: nodes_ok_def distinct_map inj_on_def)

lemma node_ids_disjoint:
  "\<lbrakk>nodes_ok uuid db; i \<in> node_ids_of db r; i \<in> node_ids_of db r'\<rbrakk> \<Longrightarrow> r = r'"
  by (auto simp: node_ids_of_def dest: node_id_inj)

lemma cleared_edges:
  assumes "graph_ok uuid db"
  shows "gdb_edges (cleared rid db) = filter (\<lambda>e. edge_root_id e \<noteq> rid) (gdb_edges db)"
  unfolding cleared_def using assms node_ids_disjoint [of uuid db]
  by (auto simp: graph_ok_def edges_ok_def intro!: filter_cong)

lemma cleared_ok:
  assumes "graph_ok uuid db"
  shows "graph_ok uuid (cleared rid db)"
proof -
  have same: "gdb_roots (cleared rid db) = gdb_roots db" "gdb_drawn (cleared rid db) = gdb_drawn db"
    "gdb_nodes (cleared rid db) = filter (\<lambda>n. node_root_id n \<noteq> rid) (gdb_nodes db)"
    "gdb_summaries (cleared rid db) = filter (\<lambda>s. sr_root_id s \<noteq> rid) (gdb_summaries db)"
    by (simp_all add: cleared_def)
  have "node_ids_of (cleared rid db) r = node_ids_of db r" if "r \<noteq> rid" for r
    using that by (auto simp: node_ids_of_def same)
  then have "edges_ok (cleared rid db)"
    using assms unfolding edges_ok_def cleared_edges [OF assms] by (auto simp: graph_ok_def edges_ok_def)
  moreover have "nodes_ok uuid (cleared rid db)"
    using assms by (auto simp: graph_ok_def nodes_ok_def same drawn_ids_def distinct_map_filter)
  moreover have "summaries_ok (cleared rid db)"
    using assms unfolding graph_ok_def summaries_ok_def same by simp metis
  ultimately show ?thesis
    using assms by (simp add: graph_ok_def roots_ok_def same drawn_ids_def)
qed

definition stored_node :: "(nat \<Rightarrow> string) \<Rightarrow> string \<Rightarrow> nat \<Rightarrow> dependency_graph_node \<Rightarrow> dependency_graph_node" where
  "stored_node uuid rid d node =
     \<lparr>node_id = uuid d, node_root_id = rid, node_artifact = node_artifact node, node_min_depth = node_min_depth node,
      node_dependency_types = dependencyTypeStrings (node_dependency_types node)\<rparr>"

definition node_added :: "(nat \<Rightarrow> string) \<Rightarrow> string \<Rightarrow> dependency_graph_node \<Rightarrow> graph_db \<Rightarrow> graph_db" where
  "node_added uuid rid node db =
     db\<lparr>gdb_nodes := gdb_nodes db @ [stored_node uuid rid (gdb_drawn db) node], gdb_drawn := Suc (gdb_drawn db)\<rparr>"

lemma insert_node_Inr:
  "insert_node env rid node db = Inr (i, db') \<Longrightarrow>
     i = ge_uuid env (gdb_drawn db) \<and> db' = node_added (ge_uuid env) rid node db \<and>
     (rid, node_artifact node) \<notin> (\<lambda>n. (node_root_id n, node_artifact n)) ` set (gdb_nodes db)"
  by (auto simp: insert_node_def node_added_def stored_node_def Let_def elim!: bind_InrE split: if_splits)

lemma node_added_ok:
  assumes "graph_ok uuid db" "inj uuid" "rid \<in> rr_id ` set (gdb_roots db)"
    "(rid, node_artifact node) \<notin> (\<lambda>n. (node_root_id n, node_artifact n)) ` set (gdb_nodes db)"
  shows "graph_ok uuid (node_added uuid rid node db)"
proof -
  let ?db = "node_added uuid rid node db"
  have fresh: "uuid (gdb_drawn db) \<notin> node_id ` set (gdb_nodes db)"
    using assms(1) fresh_id [OF assms(2)] by (auto simp: graph_ok_def nodes_ok_def)
  have same: "gdb_roots ?db = gdb_roots db" "gdb_summaries ?db = gdb_summaries db" "gdb_edges ?db = gdb_edges db"
    "gdb_nodes ?db = gdb_nodes db @ [stored_node uuid rid (gdb_drawn db) node]"
    "drawn_ids uuid ?db = insert (uuid (gdb_drawn db)) (drawn_ids uuid db)"
    by (auto simp: node_added_def drawn_ids_def lessThan_Suc)
  have "nodes_ok uuid ?db"
    using assms fresh by (auto simp: graph_ok_def nodes_ok_def same stored_node_def)
  moreover have "edges_ok ?db"
    using assms(1) by (auto simp: graph_ok_def edges_ok_def same node_ids_of_def)
  moreover have "summaries_ok ?db"
    using assms(1) unfolding graph_ok_def summaries_ok_def same by (simp add: bex_Un)
  ultimately show ?thesis
    using assms(1) by (auto simp: graph_ok_def roots_ok_def same)
qed

lemma summary_Inr:
  assumes "insertDependencyContextSummary env req rid a c db = Inr db'"
  obtains data where "ge_marshal env (NormalizeContext (ge_sha256_hex env) c) = Inr data"
    "db' = db\<lparr>gdb_summaries := gdb_summaries db @
       [\<lparr>sr_root_id = rid, sr_tenant_id = resolve_tenant_id req, sr_upstream_id = up_id (resolve_upstream req),
         sr_artifact = a, sr_context = data\<rparr>]\<rparr>"
    "\<not> (\<exists>s \<in> set (gdb_summaries db). sr_root_id s = rid \<and> sr_artifact s = a)"
  using assms
  by (auto simp: insertDependencyContextSummary_def elim!: bind_InrE split: sum.splits if_splits)

text \<open>The row of a request: it has the request's key and the given identifier.\<close>

definition job_row :: "dependency_graph_resolve_request \<Rightarrow> string \<Rightarrow> graph_db \<Rightarrow> bool" where
  "job_row req rid db \<longleftrightarrow> (\<exists>r \<in> set (gdb_roots db). rr_id r = rid \<and> row_key r = request_key req)"

lemma summary_ok:
  assumes "graph_ok uuid db" "insertDependencyContextSummary env req rid a c db = Inr db'" "job_row req rid db"
    "\<exists>n \<in> set (gdb_nodes db). node_root_id n = rid \<and> node_artifact n = a"
  shows "graph_ok uuid db'"
  using assms(2)
proof (cases rule: summary_Inr)
  case (1 data)
  with assms(1,3,4) show ?thesis
    by (auto simp: graph_ok_defs drawn_ids_def node_ids_of_def job_row_def row_key_def request_key_def)
qed

text \<open>The node loop. \<open>arts\<close> is the artifact last stored under each key; the identifiers the loop collects
  are those of the stored rows of these artifacts.\<close>

definition node_artifacts :: "dependency_graph_node list \<Rightarrow> (string \<times> artifact_identity) list \<Rightarrow> (string \<times> artifact_identity) list" where
  "node_artifacts nodes arts = fold (\<lambda>n. AList.update (node_key n) (node_artifact n)) nodes arts"

lemma node_artifacts_simps [simp]:
  "node_artifacts [] arts = arts"
  "node_artifacts (n # ns) arts = node_artifacts ns (AList.update (node_key n) (node_artifact n) arts)"
  by (simp_all add: node_artifacts_def)

definition ids_match :: "string \<Rightarrow> graph_db \<Rightarrow> (string \<times> string) list \<Rightarrow> (string \<times> artifact_identity) list \<Rightarrow> bool" where
  "ids_match rid db ids arts \<longleftrightarrow>
     (\<forall>k. case (map_of ids k, map_of arts k) of
        (None, None) \<Rightarrow> True
      | (Some i, Some a) \<Rightarrow> \<exists>n \<in> set (gdb_nodes db). node_root_id n = rid \<and> node_id n = i \<and> node_artifact n = a
      | _ \<Rightarrow> False)"

definition stored_attrs :: "dependency_graph_node \<Rightarrow> artifact_identity \<times> int \<times> dependency_type list" where
  "stored_attrs n = (node_artifact n, node_min_depth n, dependencyTypeStrings (node_dependency_types n))"

lemma ids_match_mono: "ids_match rid db ids arts \<Longrightarrow> set (gdb_nodes db) \<subseteq> set (gdb_nodes db') \<Longrightarrow> ids_match rid db' ids arts"
  unfolding ids_match_def by (fastforce split: option.splits)

lemma ids_match_update:
  assumes "ids_match rid db ids arts" "n \<in> set (gdb_nodes db)" "node_root_id n = rid"
  shows "ids_match rid db (AList.update k (node_id n) ids) (AList.update k (node_artifact n) arts)"
  using assms unfolding ids_match_def update_conv' by auto

lemma insert_nodes_run:
  assumes "insertDependencyGraphNodes env req rid nodes ids db = Inr (ids', db')"
    "graph_ok uuid db" "ge_uuid env = uuid" "inj uuid" "job_row req rid db" "ids_match rid db ids arts"
  shows "graph_ok uuid db' \<and> ids_match rid db' ids' (node_artifacts nodes arts) \<and>
    gdb_roots db' = gdb_roots db \<and> gdb_edges db' = gdb_edges db \<and>
    (\<exists>new. gdb_nodes db' = gdb_nodes db @ new \<and> map stored_attrs new = map stored_attrs nodes \<and>
       (\<forall>n \<in> set new. node_root_id n = rid))"
  using assms(1,2,5,6)
proof (induction nodes arbitrary: ids db arts)
  case Nil
  then show ?case by simp
next
  case (Cons node nodes)
  from Cons.prems(1) obtain i db1 db2 where
    ins: "insert_node env rid node db = Inr (i, db1)" and
    sum: "insertDependencyContextSummary env req rid (node_artifact node)
      (NormalizeContext (ge_sha256_hex env) (dependencyContextForNode rid node)) db1 = Inr db2" and
    rest: "insertDependencyGraphNodes env req rid nodes (AList.update (node_key node) i ids) db2 = Inr (ids', db')"
    by (auto elim!: bind_InrE)
  let ?n = "stored_node uuid rid (gdb_drawn db) node"
  have db1: "i = node_id ?n" "db1 = node_added uuid rid node db"
    "(rid, node_artifact node) \<notin> (\<lambda>n. (node_root_id n, node_artifact n)) ` set (gdb_nodes db)"
    using insert_node_Inr [OF ins] assms(3) by (simp_all add: stored_node_def)
  have job1: "job_row req rid db1" "rid \<in> rr_id ` set (gdb_roots db)" "?n \<in> set (gdb_nodes db1)"
    "gdb_nodes db1 = gdb_nodes db @ [?n]" "gdb_roots db1 = gdb_roots db" "gdb_edges db1 = gdb_edges db"
    using Cons.prems(3) db1(2) by (auto simp: job_row_def node_added_def)
  have ok1: "graph_ok uuid db1"
    unfolding db1(2) by (rule node_added_ok [OF Cons.prems(2) assms(4) job1(2) db1(3)])
  have db2: "gdb_nodes db2 = gdb_nodes db1" "gdb_roots db2 = gdb_roots db1" "gdb_edges db2 = gdb_edges db1"
    using sum by (auto elim!: summary_Inr)
  have ok2: "graph_ok uuid db2"
    by (rule summary_ok [OF ok1 sum job1(1)], rule bexI [OF _ job1(3)]) (simp add: stored_node_def)
  have m2: "ids_match rid db2 (AList.update (node_key node) i ids) (AList.update (node_key node) (node_artifact node) arts)"
  proof -
    have "ids_match rid db2 ids arts" by (rule ids_match_mono [OF Cons.prems(4)]) (auto simp: db2 job1)
    from ids_match_update [OF this, of ?n "node_key node"] show ?thesis
      using job1(3) db1(1) by (simp add: db2 stored_node_def)
  qed
  have job2: "job_row req rid db2" using job1(1) by (simp add: job_row_def db2)
  from Cons.IH [OF rest ok2 job2 m2] obtain new where
    "graph_ok uuid db'" "ids_match rid db' ids' (node_artifacts (node # nodes) arts)"
    "gdb_roots db' = gdb_roots db" "gdb_edges db' = gdb_edges db"
    "gdb_nodes db' = gdb_nodes db @ (?n # new)" "map stored_attrs new = map stored_attrs nodes"
    "\<forall>n \<in> set new. node_root_id n = rid"
    by (auto simp: db2 job1)
  moreover have "stored_attrs ?n = stored_attrs node"
    by (simp add: stored_attrs_def stored_node_def dependencyTypeStrings_def)
  ultimately show ?case
    by (intro conjI exI [of _ "?n # new"]) (auto simp: stored_node_def)
qed

text \<open>The edge loop.\<close>

definition edge_ends :: "dependency_graph_edge \<Rightarrow> string \<times> string \<times> dependency_type" where
  "edge_ends e = (edge_parent_node_id e, edge_child_node_id e, edge_dependency_type e)"

definition edges_of :: "string \<Rightarrow> graph_db \<Rightarrow> dependency_graph_edge set" where
  "edges_of rid db = {e \<in> set (gdb_edges db). edge_root_id e = rid}"

lemma insert_edge_cases:
  assumes "insert_edge env rid p c t db = Inr db'"
  obtains (known) e where "t \<in> edge_types" "db' = db" "e \<in> edges_of rid db" "edge_ends e = (p, c, t)"
    | (new) e where "t \<in> edge_types" "edge_root_id e = rid" "edge_ends e = (p, c, t)"
      "db' = db\<lparr>gdb_edges := gdb_edges db @ [e], gdb_drawn := Suc (gdb_drawn db)\<rparr>"
proof -
  let ?e = "\<lparr>edge_id = ge_uuid env (gdb_drawn db), edge_root_id = rid, edge_parent_node_id = p,
    edge_child_node_id = c, edge_dependency_type = t\<rparr>"
  let ?db = "db\<lparr>gdb_edges := gdb_edges db @ [?e], gdb_drawn := Suc (gdb_drawn db)\<rparr>"
  from assms have "t \<in> edge_types" and
    "(\<exists>e \<in> edges_of rid db. edge_ends e = (p, c, t)) \<and> db' = db \<or> db' = ?db"
    by (auto simp: insert_edge_def edges_of_def edge_ends_def elim!: bind_InrE split: if_splits)
  moreover have "edge_root_id ?e = rid" "edge_ends ?e = (p, c, t)" by (simp_all add: edge_ends_def)
  ultimately show ?thesis using known new by blast
qed

lemma insert_edge_Inr:
  assumes "insert_edge env rid p c t db = Inr db'"
  shows "t \<in> edge_types" "gdb_roots db' = gdb_roots db" "gdb_nodes db' = gdb_nodes db"
    "gdb_summaries db' = gdb_summaries db" "gdb_drawn db \<le> gdb_drawn db'"
    "edge_ends ` edges_of rid db' = insert (p, c, t) (edge_ends ` edges_of rid db)"
    "r \<noteq> rid \<Longrightarrow> edges_of r db' = edges_of r db"
proof -
  have "t \<in> edge_types \<and> gdb_roots db' = gdb_roots db \<and> gdb_nodes db' = gdb_nodes db \<and>
      gdb_summaries db' = gdb_summaries db \<and> gdb_drawn db \<le> gdb_drawn db' \<and>
      edge_ends ` edges_of rid db' = insert (p, c, t) (edge_ends ` edges_of rid db) \<and>
      (r \<noteq> rid \<longrightarrow> edges_of r db' = edges_of r db)"
    using assms
  proof (cases rule: insert_edge_cases)
    case (known e)
    then have "(p, c, t) \<in> edge_ends ` edges_of rid db" by force
    with known(1,2) show ?thesis by (simp add: insert_absorb)
  next
    case (new e)
    have "edges_of rid db' = insert e (edges_of rid db)" "r \<noteq> rid \<Longrightarrow> edges_of r db' = edges_of r db"
      using new(2,4) by (auto simp: edges_of_def)
    with new show ?thesis by simp
  qed
  then show "t \<in> edge_types" "gdb_roots db' = gdb_roots db" "gdb_nodes db' = gdb_nodes db"
    "gdb_summaries db' = gdb_summaries db" "gdb_drawn db \<le> gdb_drawn db'"
    "edge_ends ` edges_of rid db' = insert (p, c, t) (edge_ends ` edges_of rid db)"
    "r \<noteq> rid \<Longrightarrow> edges_of r db' = edges_of r db" by auto
qed

lemma edges_ok_alt:
  "edges_ok db \<longleftrightarrow> (\<forall>r p c t. (p, c, t) \<in> edge_ends ` edges_of r db \<longrightarrow>
     p \<in> node_ids_of db r \<and> c \<in> node_ids_of db r \<and> t \<in> edge_types)"
  by (fastforce simp: edges_ok_def edges_of_def edge_ends_def)

definition nodes_of :: "string \<Rightarrow> graph_db \<Rightarrow> dependency_graph_node set" where
  "nodes_of rid db = {n \<in> set (gdb_nodes db). node_root_id n = rid}"

lemma ids_matchD:
  "\<lbrakk>ids_match rid db ids arts; map_of ids k = Some i\<rbrakk> \<Longrightarrow>
   \<exists>n \<in> nodes_of rid db. node_id n = i \<and> map_of arts k = Some (node_artifact n)"
  unfolding ids_match_def nodes_of_def by (drule spec [where x = k]) (auto split: option.splits)

lemma ids_match_node_ids: "ids_match rid db ids arts \<Longrightarrow> map_of ids k = Some i \<Longrightarrow> i \<in> node_ids_of db rid"
  using ids_matchD [of rid db ids arts k i] by (auto simp: node_ids_of_def nodes_of_def)

lemma insert_edge_ok:
  assumes "graph_ok uuid db" "insert_edge env rid p c t db = Inr db'" "p \<in> node_ids_of db rid" "c \<in> node_ids_of db rid"
  shows "graph_ok uuid db'"
proof -
  note f = insert_edge_Inr [OF assms(2)]
  have "drawn_ids uuid db \<subseteq> drawn_ids uuid db'" using f(5) by (auto simp: drawn_ids_def)
  moreover have "node_ids_of db' r = node_ids_of db r" for r by (simp add: node_ids_of_def f)
  then have "edges_ok db'"
    using assms(1,3,4) f(1,6) f(7) unfolding graph_ok_def edges_ok_alt by (metis insert_iff prod.inject)
  ultimately show ?thesis
    using assms(1) by (auto simp: graph_ok_def roots_ok_def nodes_ok_def summaries_ok_def f)
qed

lemma insert_edges_run:
  assumes "insertDependencyGraphEdges env rid ids edges db = Inr db'" "graph_ok uuid db" "ids_match rid db ids arts"
  shows "graph_ok uuid db' \<and> gdb_roots db' = gdb_roots db \<and> gdb_nodes db' = gdb_nodes db \<and>
    gdb_summaries db' = gdb_summaries db \<and> (\<forall>r. r \<noteq> rid \<longrightarrow> edges_of r db' = edges_of r db) \<and>
    (\<forall>e \<in> set edges. map_of ids (edge_parent_node_id e) \<noteq> None \<and> map_of ids (edge_child_node_id e) \<noteq> None) \<and>
    edge_ends ` edges_of rid db' = edge_ends ` edges_of rid db \<union>
      (\<lambda>e. (the (map_of ids (edge_parent_node_id e)), the (map_of ids (edge_child_node_id e)), edge_dependency_type e)) ` set edges"
  using assms
proof (induction edges arbitrary: db)
  case Nil
  then show ?case by simp
next
  case (Cons e edges)
  from Cons.prems(1) obtain p c db1 where
    pc: "map_of ids (edge_parent_node_id e) = Some p" "map_of ids (edge_child_node_id e) = Some c" and
    ins: "insert_edge env rid p c (edge_dependency_type e) db = Inr db1" and
    rest: "insertDependencyGraphEdges env rid ids edges db1 = Inr db'"
    by (auto split: option.splits elim!: bind_InrE)
  note f = insert_edge_Inr [OF ins]
  have ok1: "graph_ok uuid db1"
    using Cons.prems(2,3) ins pc by (blast intro: insert_edge_ok ids_match_node_ids)
  have m1: "ids_match rid db1 ids arts" by (rule ids_match_mono [OF Cons.prems(3)]) (simp add: f)
  from Cons.IH [OF rest ok1 m1] show ?case using f pc by auto
qed

lemma rootID_Inr:
  "dependencyGraphRootID env req db = Inr rid \<Longrightarrow> job_row req rid db"
  by (auto simp: dependencyGraphRootID_def job_row_def find_Some_iff elim!: bind_InrE split: option.splits)

lemma complete_cases:
  assumes "CompleteResolve env req nodes edges hash db = (r, db')"
  obtains (failed) e where "r = Inl e" "db' = db"
    | (stored) rid ids db2 db3 where "r = Inr ()" "job_row req rid db"
      "insertDependencyGraphNodes env req rid nodes [] (cleared rid db) = Inr (ids, db2)"
      "insertDependencyGraphEdges env rid ids edges db2 = Inr db3"
      "db' = update_roots (\<lambda>r. rr_id r = rid)
          (\<lambda>r. r\<lparr>rr_status := DependencyGraphComplete, rr_graph_hash := Some hash, rr_error := None,
                  rr_updated_at := ge_now env, rr_resolved_at := Some (ge_now env)\<rparr>) db3"
proof (cases r)
  case (Inl e)
  with assms show ?thesis
    by (auto simp: CompleteResolve_def transaction_def intro: failed split: sum.splits)
next
  case (Inr u)
  with assms show ?thesis
    by (auto simp: CompleteResolve_def transaction_def markDependencyGraphComplete_def
        intro: stored dest!: rootID_Inr clear_Inr sql_Inr elim!: bind_InrE split: sum.splits)
qed

lemma ids_match_Nil: "ids_match rid db [] []"
  by (simp add: ids_match_def)

lemma job_row_cleared: "job_row req rid (cleared rid' db) = job_row req rid db"
  by (simp add: job_row_def cleared_def)

lemma complete_ok:
  assumes "graph_ok uuid db" "ge_uuid env = uuid" "inj uuid"
  shows "graph_ok uuid (snd (CompleteResolve env req nodes edges hash db))"
proof (cases "CompleteResolve env req nodes edges hash db")
  case (Pair r db')
  then show ?thesis
  proof (cases rule: complete_cases)
    case (failed e)
    with assms(1) Pair show ?thesis by simp
  next
    case (stored rid ids db2 db3)
    have "graph_ok uuid db2 \<and> ids_match rid db2 ids (node_artifacts nodes [])"
      using insert_nodes_run [OF stored(3) cleared_ok [OF assms(1)] assms(2,3) _ ids_match_Nil] stored(2)
      by (simp add: job_row_cleared)
    then have "graph_ok uuid db3" using insert_edges_run [OF stored(4)] by blast
    then show ?thesis unfolding Pair stored(5) by (simp add: update_roots_ok [OF _ keeps_rows(3)])
  qed
qed

section \<open>Refinement of an abstract job table\<close>

datatype graph_op =
    Enqueue dependency_graph_resolve_request
  | Claim string time
  | Complete dependency_graph_resolve_request "dependency_graph_node list" "dependency_graph_edge list" string
  | Fail dependency_graph_resolve_request string time

datatype graph_result =
    Enqueued bool
  | Claimed "dependency_graph_resolve_request option"
  | Done
  | Failed go_error

fun apply_op :: "graph_env \<Rightarrow> graph_op \<Rightarrow> graph_db \<Rightarrow> graph_result \<times> graph_db" where
  "apply_op env (Enqueue req) db = map_prod (case_sum Failed Enqueued) id (EnqueueResolve env req db)"
| "apply_op env (Claim t now) db = map_prod (case_sum Failed Claimed) id (ClaimNextResolveJob env t now db)"
| "apply_op env (Complete req nodes edges hash) db =
     map_prod (case_sum Failed (\<lambda>_. Done)) id (CompleteResolve env req nodes edges hash db)"
| "apply_op env (Fail req msg retry) db =
     map_prod (case_sum Failed (\<lambda>_. Done)) id (FailResolve env req msg retry db)"

text \<open>The abstract state: for every tenant, upstream, package and version at most one graph, with its
  artifacts and the dependencies between them; no identifiers, no row order.\<close>

record stored_graph =
  sg_status :: dependency_graph_status
  sg_hash :: "string option"
  sg_nodes :: "(artifact_identity \<times> int \<times> dependency_type list) set"
  sg_edges :: "(artifact_identity \<times> artifact_identity \<times> dependency_type) set"

type_synonym job_table = "job_key \<Rightarrow> stored_graph option"

definition claimable :: "stored_graph \<Rightarrow> bool" where
  "claimable g \<longleftrightarrow> sg_status g \<in> {DependencyGraphPending, DependencyGraphFailed}"

definition key_artifact :: "job_key \<Rightarrow> artifact_identity" where
  "key_artifact k = (case k of (_, _, name, version) \<Rightarrow>
     \<lparr>art_ecosystem = EcosystemNPM, art_namespace = [], art_name = name, art_version = version, art_digest = []\<rparr>)"

definition tenant_matches :: "string \<Rightarrow> job_key \<Rightarrow> bool" where
  "tenant_matches t k \<longleftrightarrow> trim_space t = ''*'' \<or> trim_space t = fst k"

definition completed_graph ::
  "dependency_graph_node list \<Rightarrow> dependency_graph_edge list \<Rightarrow> string \<Rightarrow> stored_graph" where
  "completed_graph nodes edges hash =
     \<lparr>sg_status = DependencyGraphComplete, sg_hash = Some hash, sg_nodes = stored_attrs ` set nodes,
      sg_edges = {(a, b, t). \<exists>e \<in> set edges. t = edge_dependency_type e \<and>
        map_of (node_artifacts nodes []) (edge_parent_node_id e) = Some a \<and>
        map_of (node_artifacts nodes []) (edge_child_node_id e) = Some b}\<rparr>"

text \<open>The specification of the operations with their results. A claim may lose the job it has marked: the
  request is built after the commit.\<close>

inductive spec_step :: "graph_op \<Rightarrow> graph_result \<Rightarrow> job_table \<Rightarrow> job_table \<Rightarrow> bool" where
  failed: "spec_step op (Failed e) s s"
| known: "s (request_key req) \<noteq> None \<Longrightarrow> spec_step (Enqueue req) (Enqueued False) s s"
| enqueued: "s (request_key req) = None \<Longrightarrow>
    spec_step (Enqueue req) (Enqueued True) s
      (s(request_key req \<mapsto> \<lparr>sg_status = DependencyGraphPending, sg_hash = None, sg_nodes = {}, sg_edges = {}\<rparr>))"
| no_job: "spec_step (Claim t now) (Claimed None) s s"
| claimed: "\<lbrakk>s k = Some g; claimable g; tenant_matches t k;
     NormalizeArtifactIdentity (key_artifact k) = Inr (resolve_root req);
     resolve_tenant_id req = fst k; up_id (resolve_upstream req) = fst (snd k)\<rbrakk> \<Longrightarrow>
    spec_step (Claim t now) (Claimed (Some req)) s (s(k \<mapsto> g\<lparr>sg_status := DependencyGraphResolving\<rparr>))"
| lost: "\<lbrakk>s k = Some g; claimable g; tenant_matches t k; NormalizeArtifactIdentity (key_artifact k) = Inl e\<rbrakk> \<Longrightarrow>
    spec_step (Claim t now) (Failed (wrap_error ''normalizing claimed root artifact'' e)) s
      (s(k \<mapsto> g\<lparr>sg_status := DependencyGraphResolving\<rparr>))"
| completed: "\<lbrakk>s (request_key req) \<noteq> None;
     edge_parent_node_id ` set edges \<union> edge_child_node_id ` set edges \<subseteq> dom (map_of (node_artifacts nodes []))\<rbrakk> \<Longrightarrow>
    spec_step (Complete req nodes edges hash) Done s (s(request_key req \<mapsto> completed_graph nodes edges hash))"
| no_row: "s (request_key req) = None \<Longrightarrow> spec_step (Fail req msg retry) Done s s"
| retried: "s (request_key req) = Some g \<Longrightarrow>
    spec_step (Fail req msg retry) Done s (s(request_key req \<mapsto> g\<lparr>sg_status := DependencyGraphFailed\<rparr>))"

definition abs_row :: "graph_db \<Rightarrow> root_row \<Rightarrow> stored_graph" where
  "abs_row db r =
     \<lparr>sg_status = rr_status r, sg_hash = rr_graph_hash r, sg_nodes = stored_attrs ` nodes_of (rr_id r) db,
      sg_edges = {(node_artifact p, node_artifact c, t) | p c t. p \<in> nodes_of (rr_id r) db \<and> c \<in> nodes_of (rr_id r) db \<and>
        (node_id p, node_id c, t) \<in> edge_ends ` edges_of (rr_id r) db}\<rparr>"

definition abs_db :: "graph_db \<Rightarrow> job_table" where
  "abs_db db k = map_option (abs_row db) (List.find (\<lambda>r. row_key r = k) (gdb_roots db))"

lemma abs_db_Some:
  assumes "graph_ok uuid db" "r \<in> set (gdb_roots db)"
  shows "abs_db db (row_key r) = Some (abs_row db r)"
proof -
  have "List.find (\<lambda>x. row_key x = row_key r) (gdb_roots db) = Some r"
  proof (cases "List.find (\<lambda>x. row_key x = row_key r) (gdb_roots db)")
    case None
    with assms(2) show ?thesis by (auto simp: find_None_iff)
  next
    case (Some x)
    then have "x \<in> set (gdb_roots db)" "row_key x = row_key r" by (auto simp: find_Some_iff in_set_conv_nth)
    with assms Some show ?thesis by (simp add: graph_ok_def roots_ok_def distinct_map inj_on_def)
  qed
  then show ?thesis by (simp add: abs_db_def)
qed

lemma abs_db_None: "abs_db db k = None \<longleftrightarrow> k \<notin> row_key ` set (gdb_roots db)"
  by (auto simp: abs_db_def find_None_iff)

text \<open>Two well-formed tables with the same rows up to \<open>g\<close> abstract alike outside \<open>k0\<close>, when no other root's
  rows change.\<close>

lemma abs_db_update:
  assumes "graph_ok uuid db" "graph_ok uuid db'" "gdb_roots db' = map g (gdb_roots db)" "\<And>r. row_key (g r) = row_key r"
    "r0 \<in> set (gdb_roots db)"
    "\<And>r. \<lbrakk>r \<in> set (gdb_roots db); row_key r \<noteq> row_key r0\<rbrakk> \<Longrightarrow> abs_row db' (g r) = abs_row db r"
  shows "abs_db db' = (abs_db db)(row_key r0 \<mapsto> abs_row db' (g r0))"
proof
  fix k
  show "abs_db db' k = ((abs_db db)(row_key r0 \<mapsto> abs_row db' (g r0))) k"
  proof (cases "k \<in> row_key ` set (gdb_roots db)")
    case True
    then obtain r where r: "r \<in> set (gdb_roots db)" "k = row_key r" by blast
    have r': "g r \<in> set (gdb_roots db')" using r(1) by (simp add: assms(3))
    have "abs_db db' k = Some (abs_row db' (g r))" using abs_db_Some [OF assms(2) r'] assms(4) r(2) by simp
    moreover have "abs_db db k = Some (abs_row db r)" using abs_db_Some [OF assms(1) r(1)] r(2) by simp
    moreover have "r = r0" if "row_key r = row_key r0"
      using that r(1) assms(1,5) by (simp add: graph_ok_def roots_ok_def distinct_map inj_on_def)
    ultimately show ?thesis using assms(6) [OF r(1)] r(2) by auto
  next
    case False
    then have "k \<notin> row_key ` set (gdb_roots db')" using assms(3,4) by (auto simp: image_iff)
    with False assms(5) have "abs_db db' k = None" "abs_db db k = None" "k \<noteq> row_key r0"
      by (auto simp: abs_db_None)
    then show ?thesis by simp
  qed
qed

lemma abs_row_cong:
  "\<lbrakk>rr_status r' = rr_status r; rr_graph_hash r' = rr_graph_hash r; rr_id r' = rr_id r;
    nodes_of (rr_id r) db' = nodes_of (rr_id r) db; edges_of (rr_id r) db' = edges_of (rr_id r) db\<rbrakk> \<Longrightarrow>
   abs_row db' r' = abs_row db r"
  by (simp add: abs_row_def)

lemma row_by_id:
  "\<lbrakk>graph_ok uuid db; r \<in> set (gdb_roots db); r' \<in> set (gdb_roots db); rr_id r = rr_id r'\<rbrakk> \<Longrightarrow> r = r'"
  by (simp add: graph_ok_def roots_ok_def distinct_map inj_on_def)

lemma row_by_key:
  "\<lbrakk>graph_ok uuid db; r \<in> set (gdb_roots db); r' \<in> set (gdb_roots db); row_key r = row_key r'\<rbrakk> \<Longrightarrow> r = r'"
  by (simp add: graph_ok_def roots_ok_def distinct_map inj_on_def)

lemma node_root_known: "\<lbrakk>graph_ok uuid db; n \<in> set (gdb_nodes db)\<rbrakk> \<Longrightarrow> node_root_id n \<in> rr_id ` set (gdb_roots db)"
  unfolding graph_ok_def nodes_ok_def by blast

lemma find_append: "List.find P (xs @ ys) = (case List.find P xs of None \<Rightarrow> List.find P ys | Some x \<Rightarrow> Some x)"
  by (induction xs) simp_all

lemma abs_update_roots:
  assumes "graph_ok uuid db" "keeps_row f" "r0 \<in> set (gdb_roots db)"
    "\<And>r. r \<in> set (gdb_roots db) \<Longrightarrow> p r \<longleftrightarrow> r = r0"
  shows "abs_db (update_roots p f db) = (abs_db db)(row_key r0 \<mapsto> abs_row db (f r0))"
proof -
  let ?g = "\<lambda>r. if p r then f r else r"
  have rows: "abs_row (update_roots p f db) = abs_row db"
    by (simp add: fun_eq_iff abs_row_def nodes_of_def edges_of_def update_roots_def)
  have "abs_db (update_roots p f db) = (abs_db db)(row_key r0 \<mapsto> abs_row (update_roots p f db) (?g r0))"
  proof (rule abs_db_update [OF assms(1) update_roots_ok [OF assms(1,2)] roots_update_roots _ assms(3)])
    show "row_key (?g r) = row_key r" for r using assms(2) by (simp add: keeps_row_def)
    show "abs_row (update_roots p f db) (?g r) = abs_row db r"
      if "r \<in> set (gdb_roots db)" "row_key r \<noteq> row_key r0" for r
      using that assms(4) by (auto simp: rows)
  qed
  then show ?thesis using assms(3,4) by (simp add: rows)
qed

lemma enqueue_refines:
  assumes "graph_ok uuid db" "ge_uuid env = uuid" "inj uuid"
  shows "case EnqueueResolve env req db of
      (Inl e, db') \<Rightarrow> db' = db
    | (Inr b, db') \<Rightarrow> spec_step (Enqueue req) (Enqueued b) (abs_db db) (abs_db db')"
proof (cases "EnqueueResolve env req db")
  case (Pair res db')
  show ?thesis
  proof (cases "\<exists>r \<in> set (gdb_roots db). row_key r = request_key req")
    case True
    then have "abs_db db (request_key req) \<noteq> None" unfolding abs_db_None by force
    then have "spec_step (Enqueue req) (Enqueued False) (abs_db db) (abs_db db)" by (rule spec_step.known)
    with True show ?thesis
      by (auto simp: EnqueueResolve_def transaction_def sql_def Let_def split: option.split)
  next
    case new: False
    show ?thesis
    proof (cases res)
      case (Inl e)
      with Pair show ?thesis
        by (auto simp: EnqueueResolve_def transaction_def sql_def Let_def split: option.splits if_splits)
    next
      case (Inr b)
      have ok: "graph_ok uuid db'" using enqueue_ok [OF assms, of req] by (simp add: Pair)
      from new Pair Inr obtain r where r: "b" "gdb_roots db' = gdb_roots db @ [r]" "row_key r = request_key req"
        "rr_status r = DependencyGraphPending" "rr_graph_hash r = None" "rr_id r = uuid (gdb_drawn db)"
        "gdb_nodes db' = gdb_nodes db" "gdb_edges db' = gdb_edges db"
        by (auto simp: EnqueueResolve_def transaction_def sql_def Let_def row_key_def request_key_def assms(2)
            split: option.splits if_splits)
      have fresh: "rr_id r \<notin> rr_id ` set (gdb_roots db)"
        using assms(1) fresh_id [OF assms(3)] r(6) by (auto simp: graph_ok_def roots_ok_def)
      have none: "nodes_of (rr_id r) db = {}"
        using node_root_known [OF assms(1)] fresh unfolding nodes_of_def by (metis (mono_tags, lifting) empty_Collect_eq)
      have rows: "abs_row db' = abs_row db"
        by (simp add: fun_eq_iff abs_row_def nodes_of_def edges_of_def r)
      have abs_r: "abs_row db r = \<lparr>sg_status = DependencyGraphPending, sg_hash = None, sg_nodes = {}, sg_edges = {}\<rparr>"
        using r none by (simp add: abs_row_def)
      have "abs_db db' k = ((abs_db db)(request_key req \<mapsto> abs_row db r)) k" for k
      proof (cases "k = request_key req")
        case True
        then show ?thesis using abs_db_Some [OF ok, of r] r(2,3) rows by simp
      next
        case False
        then show ?thesis using r(3) by (simp add: abs_db_def r(2) rows find_append split: option.split)
      qed
      then have eq: "abs_db db' = (abs_db db)(request_key req \<mapsto> abs_row db r)" by blast
      have "abs_db db (request_key req) = None" using new by (auto simp: abs_db_None)
      from spec_step.enqueued [of "abs_db db", OF this] show ?thesis
        unfolding Pair Inr using r(1) by (simp add: eq abs_r)
    qed
  qed
qed

lemma next_job_Some:
  assumes "next_job env f now db = Some r"
  shows "r \<in> set (gdb_roots db)" "rr_status r \<in> {DependencyGraphPending, DependencyGraphFailed}" "rr_updated_at r \<le> now"
    "f = None \<or> f = Some (rr_tenant_id r)" "\<not> ge_locked env (rr_id r)"
proof -
  let ?due = "filter (\<lambda>r. rr_status r \<in> {DependencyGraphPending, DependencyGraphFailed} \<and> rr_updated_at r \<le> now \<and>
    (case f of None \<Rightarrow> True | Some t \<Rightarrow> rr_tenant_id r = t) \<and> \<not> ge_locked env (rr_id r)) (gdb_roots db)"
  from assms obtain rs where "sort_key rr_updated_at ?due = r # rs"
    by (cases "sort_key rr_updated_at ?due") (auto simp: next_job_def)
  then have "r \<in> set (sort_key rr_updated_at ?due)" by (metis list.set_intros(1))
  then show "r \<in> set (gdb_roots db)" "rr_status r \<in> {DependencyGraphPending, DependencyGraphFailed}" "rr_updated_at r \<le> now"
    "f = None \<or> f = Some (rr_tenant_id r)" "\<not> ge_locked env (rr_id r)"
    by (auto split: option.splits)
qed

text \<open>Either the tables are as before, or a due row is marked and its request is built.\<close>

lemma claim_cases:
  assumes "ClaimNextResolveJob env t now db = (res, db')"
  obtains (none) "db' = db" "res = Inr None \<or> isl res"
    | (row) r baseURL where "r \<in> set (gdb_roots db)" "rr_status r \<in> {DependencyGraphPending, DependencyGraphFailed}"
      "rr_updated_at r \<le> now" "trim_space t = ''*'' \<or> trim_space t = rr_tenant_id r" "\<not> ge_locked env (rr_id r)"
      "ge_base_url env (rr_upstream_id r) = Some baseURL"
      "res = map_sum id Some (claimed_request r baseURL now)"
      "db' = update_roots (\<lambda>x. rr_id x = rr_id r) (mark_resolving env) db"
proof -
  let ?f = "if trim_space t = ''*'' then None else Some (trim_space t)"
  define job where "job = bind_result (sql env ''beginning dependency graph claim'' ())
    (\<lambda>_. sql env ''claiming dependency graph resolve'' (next_job env ?f now db))"
  have claim: "ClaimNextResolveJob env t now db =
    (if trim_space t = [] then (Inl (plain_error ''claiming dependency graph resolve: tenant_id is required''), db)
     else case job of
         Inl e \<Rightarrow> (Inl e, db)
       | Inr None \<Rightarrow> (Inr None, db)
       | Inr (Some r) \<Rightarrow>
           (case ge_base_url env (rr_upstream_id r) of
              None \<Rightarrow> (Inr None, db)
            | Some baseURL \<Rightarrow>
                (case sql env ''committing dependency graph claim''
                        (update_roots (\<lambda>x. rr_id x = rr_id r) (mark_resolving env) db) of
                   Inl e \<Rightarrow> (Inl e, db)
                 | Inr db' \<Rightarrow> (map_sum id Some (claimed_request r baseURL now), db'))))"
    unfolding ClaimNextResolveJob_def Let_def job_def ..
  show ?thesis
  proof (cases "db' = db \<and> (res = Inr None \<or> isl res)")
    case True
    then show ?thesis using none by blast
  next
    case False
    with assms obtain r baseURL where r: "job = Inr (Some r)" "ge_base_url env (rr_upstream_id r) = Some baseURL"
      "res = map_sum id Some (claimed_request r baseURL now)"
      "db' = update_roots (\<lambda>x. rr_id x = rr_id r) (mark_resolving env) db"
      unfolding claim by (auto dest: sql_Inr split: sum.splits option.splits if_split_asm)
    have job: "next_job env ?f now db = Some r"
      using r(1) unfolding job_def by (elim bind_InrE) (drule sql_Inr, rule sym)
    then have "trim_space t = ''*'' \<or> trim_space t = rr_tenant_id r"
      using next_job_Some(4) [OF job] by (simp split: if_split_asm)
    then show ?thesis by (rule row [OF next_job_Some(1-3) [OF job] _ next_job_Some(5) [OF job] r(2-4)])
  qed
qed

lemma claimed_request_Inr:
  assumes "claimed_request r baseURL now = Inr req"
  shows "NormalizeArtifactIdentity (key_artifact (row_key r)) = Inr (resolve_root req)"
    "resolve_tenant_id req = rr_tenant_id r" "up_id (resolve_upstream req) = rr_upstream_id r"
  using assms by (auto simp: claimed_request_def key_artifact_def row_key_def split: sum.splits)

lemma claim_refines:
  assumes "graph_ok uuid db" "ClaimNextResolveJob env t now db = (res, db')"
  shows "spec_step (Claim t now) (case_sum Failed Claimed res) (abs_db db) (abs_db db')"
  using assms(2)
proof (cases rule: claim_cases)
  case none
  then show ?thesis by (cases res) (auto intro: spec_step.intros)
next
  case (row r baseURL)
  have abs: "abs_db db (row_key r) = Some (abs_row db r)" by (rule abs_db_Some [OF assms(1) row(1)])
  have can: "claimable (abs_row db r)" "tenant_matches t (row_key r)"
    using row(2,4) by (auto simp: claimable_def abs_row_def tenant_matches_def row_key_def)
  have "abs_db db' = (abs_db db)(row_key r \<mapsto> abs_row db (mark_resolving env r))"
    unfolding row(8) using row_by_id [OF assms(1)] row(1)
    by (intro abs_update_roots [OF assms(1) keeps_rows(1) row(1)]) auto
  then have db': "abs_db db' = (abs_db db)(row_key r \<mapsto> (abs_row db r)\<lparr>sg_status := DependencyGraphResolving\<rparr>)"
    by (simp add: abs_row_def mark_resolving_def)
  show ?thesis
  proof (cases "claimed_request r baseURL now")
    case (Inl e)
    then obtain e' where "NormalizeArtifactIdentity (key_artifact (row_key r)) = Inl e'"
      "e = wrap_error ''normalizing claimed root artifact'' e'"
      by (auto simp: claimed_request_def key_artifact_def row_key_def split: sum.splits)
    with spec_step.lost [of "abs_db db", OF abs can] show ?thesis by (simp add: row(7) Inl db')
  next
    case (Inr req)
    from spec_step.claimed [of "abs_db db", OF abs can claimed_request_Inr(1) [OF Inr]] claimed_request_Inr(2,3) [OF Inr]
    show ?thesis by (simp add: row(7) Inr db' row_key_def)
  qed
qed

lemma fail_refines:
  assumes "graph_ok uuid db" "FailResolve env req msg retry db = (res, db')"
  shows "spec_step (Fail req msg retry) (case_sum Failed (\<lambda>_. Done) res) (abs_db db) (abs_db db')"
proof (cases res)
  case (Inl e)
  with assms(2) have "db' = db" by (auto simp: FailResolve_def transaction_def split: sum.splits)
  with Inl show ?thesis by (simp add: spec_step.failed)
next
  case (Inr u)
  let ?f = "\<lambda>r. r\<lparr>rr_status := DependencyGraphFailed, rr_error := Some msg, rr_updated_at := retry\<rparr>"
  have db': "db' = update_roots (\<lambda>r. row_key r = request_key req) ?f db"
    using assms(2) Inr by (auto simp: FailResolve_def transaction_def dest: sql_Inr split: sum.splits)
  show ?thesis
  proof (cases "\<exists>r \<in> set (gdb_roots db). row_key r = request_key req")
    case True
    then obtain r where r: "r \<in> set (gdb_roots db)" "row_key r = request_key req" by blast
    have abs: "abs_db db (request_key req) = Some (abs_row db r)"
      using abs_db_Some [OF assms(1) r(1)] r(2) by simp
    have "abs_db db' = (abs_db db)(row_key r \<mapsto> abs_row db (?f r))"
      unfolding db' using row_by_key [OF assms(1)] r
      by (intro abs_update_roots [OF assms(1) keeps_rows(2) r(1)]) auto
    then have "abs_db db' = (abs_db db)(request_key req \<mapsto> (abs_row db r)\<lparr>sg_status := DependencyGraphFailed\<rparr>)"
      by (simp add: abs_row_def r(2))
    with spec_step.retried [of "abs_db db", OF abs] Inr show ?thesis by simp
  next
    case False
    then have "db' = db" unfolding db' update_roots_def by (cases db) (auto intro!: map_idI)
    moreover have "abs_db db (request_key req) = None" using False by (auto simp: abs_db_None)
    ultimately show ?thesis using Inr by (simp add: spec_step.no_row)
  qed
qed

text \<open>A completed graph: the artifacts and dependencies of the nodes and edges given, nothing left of an
  earlier graph of the root, and nothing of another root touched.\<close>

lemma stored_graph_run:
  assumes "graph_ok uuid db" "ge_uuid env = uuid" "inj uuid" "job_row req rid db"
    "insertDependencyGraphNodes env req rid nodes [] (cleared rid db) = Inr (ids, db2)"
    "insertDependencyGraphEdges env rid ids edges db2 = Inr db3"
  shows "graph_ok uuid db3" "gdb_roots db3 = gdb_roots db"
    "r \<noteq> rid \<Longrightarrow> nodes_of r db3 = nodes_of r db" "r \<noteq> rid \<Longrightarrow> edges_of r db3 = edges_of r db"
    "stored_attrs ` nodes_of rid db3 = stored_attrs ` set nodes"
    "ids_match rid db3 ids (node_artifacts nodes [])"
    "\<forall>e \<in> set edges. map_of ids (edge_parent_node_id e) \<noteq> None \<and> map_of ids (edge_child_node_id e) \<noteq> None"
    "edge_ends ` edges_of rid db3 =
      (\<lambda>e. (the (map_of ids (edge_parent_node_id e)), the (map_of ids (edge_child_node_id e)), edge_dependency_type e)) ` set edges"
proof -
  have clear: "gdb_roots (cleared rid db) = gdb_roots db"
    "gdb_nodes (cleared rid db) = filter (\<lambda>n. node_root_id n \<noteq> rid) (gdb_nodes db)"
    by (simp_all add: cleared_def)
  obtain new where n: "graph_ok uuid db2" "ids_match rid db2 ids (node_artifacts nodes [])"
    "gdb_roots db2 = gdb_roots db" "gdb_edges db2 = gdb_edges (cleared rid db)"
    "gdb_nodes db2 = gdb_nodes (cleared rid db) @ new" "map stored_attrs new = map stored_attrs nodes"
    "\<forall>n \<in> set new. node_root_id n = rid"
    using insert_nodes_run [OF assms(5) cleared_ok [OF assms(1)] assms(2,3) _ ids_match_Nil] assms(4)
    by (auto simp: job_row_cleared clear)
  note e = insert_edges_run [OF assms(6) n(1,2)]
  from e n(3) show "graph_ok uuid db3" "gdb_roots db3 = gdb_roots db"
    "\<forall>e \<in> set edges. map_of ids (edge_parent_node_id e) \<noteq> None \<and> map_of ids (edge_child_node_id e) \<noteq> None"
    by auto
  show "ids_match rid db3 ids (node_artifacts nodes [])" by (rule ids_match_mono [OF n(2)]) (simp add: e)
  have edges: "edges_of r db2 = (if r = rid then {} else edges_of r db)" for r
    unfolding edges_of_def n(4) cleared_edges [OF assms(1)] by auto
  show "r \<noteq> rid \<Longrightarrow> edges_of r db3 = edges_of r db" using e edges by auto
  show "edge_ends ` edges_of rid db3 =
      (\<lambda>e. (the (map_of ids (edge_parent_node_id e)), the (map_of ids (edge_child_node_id e)), edge_dependency_type e)) ` set edges"
    using e edges [of rid] by auto
  show "r \<noteq> rid \<Longrightarrow> nodes_of r db3 = nodes_of r db"
    using e n(5,7) by (auto simp: nodes_of_def clear)
  have "nodes_of rid db3 = set new" using e n(5,7) by (auto simp: nodes_of_def clear)
  then show "stored_attrs ` nodes_of rid db3 = stored_attrs ` set nodes"
    using arg_cong [OF n(6), of set] by simp
qed

text \<open>Through matching identifiers the edges between rows are the dependencies between artifacts.\<close>

lemma edges_between_artifacts:
  assumes "nodes_ok uuid db" "ids_match rid db ids arts"
    "\<forall>e \<in> set edges. map_of ids (edge_parent_node_id e) \<noteq> None \<and> map_of ids (edge_child_node_id e) \<noteq> None"
    "edge_ends ` edges_of rid db =
      (\<lambda>e. (the (map_of ids (edge_parent_node_id e)), the (map_of ids (edge_child_node_id e)), edge_dependency_type e)) ` set edges"
  shows "{(node_artifact p, node_artifact c, t) | p c t. p \<in> nodes_of rid db \<and> c \<in> nodes_of rid db \<and>
       (node_id p, node_id c, t) \<in> edge_ends ` edges_of rid db} =
    {(a, b, t). \<exists>e \<in> set edges. t = edge_dependency_type e \<and>
       map_of arts (edge_parent_node_id e) = Some a \<and> map_of arts (edge_child_node_id e) = Some b}"
    (is "?L = ?R")
proof -
  have row: "\<exists>n \<in> nodes_of rid db. map_of ids k = Some (node_id n) \<and> map_of arts k = Some (node_artifact n)"
    if "map_of ids k \<noteq> None" for k
    using ids_matchD [OF assms(2), of k] that by auto
  have inj: "p = n" if "p \<in> nodes_of rid db" "n \<in> nodes_of rid db" "node_id p = node_id n" for p n
    using that node_id_inj [OF assms(1)] by (auto simp: nodes_of_def)
  show ?thesis
  proof (intro set_eqI iffI)
    fix x
    assume "x \<in> ?L"
    then obtain p c e where x: "x = (node_artifact p, node_artifact c, edge_dependency_type e)" "e \<in> set edges"
      "p \<in> nodes_of rid db" "c \<in> nodes_of rid db" "node_id p = the (map_of ids (edge_parent_node_id e))"
      "node_id c = the (map_of ids (edge_child_node_id e))"
      unfolding assms(4) by auto
    with row [of "edge_parent_node_id e"] row [of "edge_child_node_id e"] assms(3) inj show "x \<in> ?R" by fastforce
  next
    fix x
    assume "x \<in> ?R"
    then obtain a b e where x: "x = (a, b, edge_dependency_type e)" "e \<in> set edges"
      "map_of arts (edge_parent_node_id e) = Some a" "map_of arts (edge_child_node_id e) = Some b" by auto
    obtain p c where "p \<in> nodes_of rid db" "c \<in> nodes_of rid db" "a = node_artifact p" "b = node_artifact c"
      "map_of ids (edge_parent_node_id e) = Some (node_id p)" "map_of ids (edge_child_node_id e) = Some (node_id c)"
      using row [of "edge_parent_node_id e"] row [of "edge_child_node_id e"] assms(3) x by fastforce
    with x(1,2) show "x \<in> ?L" unfolding assms(4) by force
  qed
qed

lemma ids_match_dom: "ids_match rid db ids arts \<Longrightarrow> map_of ids k \<noteq> None \<Longrightarrow> k \<in> dom (map_of arts)"
  using ids_matchD [of rid db ids arts k] by auto

lemma complete_refines:
  assumes "graph_ok uuid db" "ge_uuid env = uuid" "inj uuid" "CompleteResolve env req nodes edges hash db = (res, db')"
  shows "spec_step (Complete req nodes edges hash) (case_sum Failed (\<lambda>_. Done) res) (abs_db db) (abs_db db')"
  using assms(4)
proof (cases rule: complete_cases)
  case (failed e)
  then show ?thesis by (simp add: spec_step.failed)
next
  case (stored rid ids db2 db3)
  note run = stored_graph_run [OF assms(1-3) stored(2-4)]
  let ?f = "\<lambda>r. r\<lparr>rr_status := DependencyGraphComplete, rr_graph_hash := Some hash, rr_error := None,
    rr_updated_at := ge_now env, rr_resolved_at := Some (ge_now env)\<rparr>"
  obtain r where r: "r \<in> set (gdb_roots db)" "rr_id r = rid" "row_key r = request_key req"
    using stored(2) by (auto simp: job_row_def)
  have "abs_db db3 = (abs_db db)(row_key r \<mapsto> abs_row db3 r)"
  proof -
    have "abs_row db3 x = abs_row db x" if "x \<in> set (gdb_roots db)" "row_key x \<noteq> row_key r" for x
      using that row_by_id [OF assms(1) that(1) r(1)] r(2) run(3,4) by (intro abs_row_cong) auto
    with abs_db_update [OF assms(1) run(1), of id r] run(2) r(1) show ?thesis by simp
  qed
  moreover have "abs_db db' = (abs_db db3)(row_key r \<mapsto> abs_row db3 (?f r))"
    unfolding stored(5) using row_by_id [OF run(1)] r run(2)
    by (intro abs_update_roots [OF run(1) keeps_rows(3)]) auto
  moreover have "abs_row db3 (?f r) = completed_graph nodes edges hash"
  proof -
    have "nodes_ok uuid db3" using run(1) by (simp add: graph_ok_def)
    from edges_between_artifacts [OF this run(6-8)] run(5) r(2) show ?thesis
      by (simp add: abs_row_def completed_graph_def)
  qed
  ultimately have db': "abs_db db' = (abs_db db)(request_key req \<mapsto> completed_graph nodes edges hash)"
    by (simp add: r(3))
  have "abs_db db (request_key req) \<noteq> None" using r unfolding abs_db_None by force
  moreover have "edge_parent_node_id ` set edges \<union> edge_child_node_id ` set edges \<subseteq> dom (map_of (node_artifacts nodes []))"
    using run(7) ids_match_dom [OF run(6)] by auto
  ultimately show ?thesis using spec_step.completed [of "abs_db db"] by (simp add: stored(1) db')
qed

end
