(* ===== verification/Graph_Jobs.thy ===== *)
theory Graph_Jobs
  imports Graph_Store
begin

text \<open>
  Runs of the graph store: arbitrary sequences of operations with their results, each with its own clock,
  locks and failures, over one identifier source and one codec. Every run is a run of the abstract job
  table, and the properties of the queue are proved there: a claimed job is not handed out again before
  its outcome is reported. The tables stay well-formed, and what a lookup says of an artifact is the
  evidence of all graphs of the tenant and upstream.
\<close>

section \<open>Runs\<close>

definition same_store :: "graph_env \<Rightarrow> graph_env \<Rightarrow> bool" where
  "same_store env0 env \<longleftrightarrow> ge_uuid env = ge_uuid env0 \<and> ge_marshal env = ge_marshal env0 \<and>
     ge_sha256_hex env = ge_sha256_hex env0"

type_synonym graph_trace = "(graph_op \<times> graph_result) list"

inductive graph_run :: "graph_env \<Rightarrow> graph_db \<Rightarrow> graph_trace \<Rightarrow> graph_db \<Rightarrow> bool" where
  run_nil: "graph_run env0 db [] db"
| run_cons: "\<lbrakk>same_store env0 env; apply_op env op db = (res, db1); graph_run env0 db1 tr db2\<rbrakk> \<Longrightarrow>
    graph_run env0 db ((op, res) # tr) db2"

inductive spec_run :: "job_table \<Rightarrow> graph_trace \<Rightarrow> job_table \<Rightarrow> bool" where
  spec_nil: "spec_run s [] s"
| spec_cons: "\<lbrakk>spec_step op res s s1; spec_run s1 tr s2\<rbrakk> \<Longrightarrow> spec_run s ((op, res) # tr) s2"

inductive_cases spec_run_NilE: "spec_run s [] s'"
inductive_cases spec_run_ConsE: "spec_run s (x # tr) s'"
inductive_cases spec_claimedE: "spec_step (Claim t now) (Claimed (Some req)) s s'"

lemma spec_run_appendE:
  assumes "spec_run s (tr @ tr') s'"
  obtains s1 where "spec_run s tr s1" "spec_run s1 tr' s'"
  using assms by (induction tr arbitrary: s thesis) (auto intro: spec_run.intros elim!: spec_run_ConsE)

text \<open>The executable counterpart, for one environment per operation.\<close>

fun run_ops :: "(graph_env \<times> graph_op) list \<Rightarrow> graph_db \<Rightarrow> graph_trace \<times> graph_db" where
  "run_ops [] db = ([], db)"
| "run_ops ((env, op) # eops) db =
     (let (res, db1) = apply_op env op db; (tr, db2) = run_ops eops db1 in ((op, res) # tr, db2))"

lemma run_ops_run:
  "\<forall>(env, op) \<in> set eops. same_store env0 env \<Longrightarrow> graph_run env0 db (fst (run_ops eops db)) (snd (run_ops eops db))"
  by (induction eops db rule: run_ops.induct) (auto intro: graph_run.intros split: prod.splits)

lemma apply_op_ok:
  assumes "graph_ok (ge_uuid env0) db" "inj (ge_uuid env0)" "same_store env0 env" "apply_op env op db = (res, db')"
  shows "graph_ok (ge_uuid env0) db'"
proof (cases op)
  case (Enqueue req)
  with enqueue_ok [OF assms(1) _ assms(2), of env req] assms(3,4) show ?thesis
    by (cases "EnqueueResolve env req db") (auto simp: same_store_def)
next
  case (Claim t now)
  with claim_ok [OF assms(1), of env t now] assms(4) show ?thesis
    by (cases "ClaimNextResolveJob env t now db") auto
next
  case (Complete req nodes edges hash)
  with complete_ok [OF assms(1) _ assms(2), of env req nodes edges hash] assms(3,4) show ?thesis
    by (cases "CompleteResolve env req nodes edges hash db") (auto simp: same_store_def)
next
  case (Fail req msg retry)
  with fail_ok [OF assms(1), of env req msg retry] assms(4) show ?thesis
    by (cases "FailResolve env req msg retry db") auto
qed

lemma apply_op_refines:
  assumes "graph_ok (ge_uuid env0) db" "inj (ge_uuid env0)" "same_store env0 env" "apply_op env op db = (res, db')"
  shows "spec_step op res (abs_db db) (abs_db db')"
proof (cases op)
  case (Enqueue req)
  with enqueue_refines [OF assms(1) _ assms(2), of env req] assms(3,4) show ?thesis
    by (cases "EnqueueResolve env req db") (auto simp: same_store_def spec_step.failed split: sum.splits)
next
  case (Claim t now)
  with claim_refines [OF assms(1), of env t now] assms(4) show ?thesis
    by (cases "ClaimNextResolveJob env t now db") auto
next
  case (Complete req nodes edges hash)
  with complete_refines [OF assms(1) _ assms(2), of env req nodes edges hash] assms(3,4) show ?thesis
    by (cases "CompleteResolve env req nodes edges hash db") (auto simp: same_store_def)
next
  case (Fail req msg retry)
  with fail_refines [OF assms(1), of env req msg retry] assms(4) show ?thesis
    by (cases "FailResolve env req msg retry db") auto
qed

lemma run_ok:
  "\<lbrakk>graph_run env0 db tr db'; graph_ok (ge_uuid env0) db; inj (ge_uuid env0)\<rbrakk> \<Longrightarrow>
   graph_ok (ge_uuid env0) db' \<and> spec_run (abs_db db) tr (abs_db db')"
  by (induction rule: graph_run.induct) (auto intro: spec_run.intros apply_op_ok apply_op_refines)

lemma run_append:
  "graph_run env0 db (tr @ tr') db' \<Longrightarrow> \<exists>db1. graph_run env0 db tr db1 \<and> graph_run env0 db1 tr' db'"
proof (induction tr arbitrary: db)
  case Nil
  then show ?case by (auto intro: run_nil)
next
  case (Cons x tr)
  from Cons.prems obtain env op res db1 where "x = (op, res)" "same_store env0 env" "apply_op env op db = (res, db1)"
    "graph_run env0 db1 (tr @ tr') db'" by (cases rule: graph_run.cases) auto
  moreover obtain db2 where "graph_run env0 db1 tr db2" "graph_run env0 db2 tr' db'"
    using Cons.IH [OF \<open>graph_run env0 db1 (tr @ tr') db'\<close>] by blast
  ultimately show ?case by (blast intro: run_cons)
qed

section \<open>Claims at the level of the job table\<close>

text \<open>A key names its package canonically when the request built from it reports under the same key. Keys
  of normalized roots do.\<close>

definition canonical_key :: "job_key \<Rightarrow> bool" where
  "canonical_key k \<longleftrightarrow>
     (case NormalizeArtifactIdentity (key_artifact k) of
        Inl _ \<Rightarrow> True
      | Inr a \<Rightarrow> (FullName a, art_version a) = snd (snd k))"

fun op_canonical :: "graph_op \<Rightarrow> bool" where
  "op_canonical (Enqueue req) = canonical_key (request_key req)"
| "op_canonical _ = True"

fun reports :: "graph_op \<Rightarrow> job_key option" where
  "reports (Complete req _ _ _) = Some (request_key req)"
| "reports (Fail req _ _) = Some (request_key req)"
| "reports _ = None"

lemma full_name_lower:
  assumes "NormalizeArtifactIdentity a = Inr b" "art_ecosystem a = EcosystemNPM" "art_namespace a = []"
  shows "FullName b = to_lower (art_name a)" "art_version b = art_version a"
proof -
  have npm: "normalizeNPM a = Inr b" using assms(1,2) by (simp add: NormalizeArtifactIdentity_def)
  then have "FullName b = to_lower (art_name a) \<and> art_version b = art_version a"
  proof (cases rule: normalizeNPM_cases)
    case (scoped scope rest)
    have "lower_char (CHR ''/'') = CHR ''/''" by (simp add: lower_char_def byte_def)
    moreover have "scope \<noteq> []" using scoped(1,2) by (auto simp: has_prefix_def)
    ultimately show ?thesis using scoped(1,4) by (simp add: FullName_def to_lower_def)
  next
    case plain
    then show ?thesis using assms(3) by (simp add: FullName_def)
  qed
  then show "FullName b = to_lower (art_name a)" "art_version b = art_version a" by simp_all
qed

lemma normalized_key_canonical:
  assumes "NormalizeArtifactIdentity a0 = Inr (resolve_root req)" "art_ecosystem a0 = EcosystemNPM" "art_namespace a0 = []"
  shows "canonical_key (request_key req)"
proof -
  have low: "FullName (resolve_root req) = to_lower (art_name a0)" by (rule full_name_lower [OF assms])
  let ?a = "key_artifact (request_key req)"
  have a: "art_ecosystem ?a = EcosystemNPM" "art_namespace ?a = []" "art_name ?a = FullName (resolve_root req)"
    "art_version ?a = art_version (resolve_root req)"
    by (simp_all add: key_artifact_def request_key_def)
  show ?thesis
  proof (cases "NormalizeArtifactIdentity ?a")
    case (Inl e)
    then show ?thesis by (simp add: canonical_key_def)
  next
    case (Inr b)
    have "snd (snd (request_key req)) = (FullName (resolve_root req), art_version (resolve_root req))"
      by (simp add: request_key_def)
    with full_name_lower [OF Inr a(1,2)] a(3,4) low show ?thesis unfolding canonical_key_def Inr by simp
  qed
qed

lemma claimed_key:
  assumes "spec_step (Claim t now) (Claimed (Some req)) s s'" "\<forall>k \<in> dom s. canonical_key k"
  obtains g where "s (request_key req) = Some g" "claimable g" "tenant_matches t (request_key req)"
    "s' = s(request_key req \<mapsto> g\<lparr>sg_status := DependencyGraphResolving\<rparr>)"
proof -
  from assms(1) obtain k g where k: "s k = Some g" "claimable g" "tenant_matches t k"
    "NormalizeArtifactIdentity (key_artifact k) = Inr (resolve_root req)"
    "resolve_tenant_id req = fst k" "up_id (resolve_upstream req) = fst (snd k)"
    "s' = s(k \<mapsto> g\<lparr>sg_status := DependencyGraphResolving\<rparr>)"
    by (auto elim: spec_claimedE)
  with assms(2) have "canonical_key k" by blast
  with k(4-6) have "k = request_key req"
    by (cases k) (auto simp: canonical_key_def request_key_def)
  with k that show ?thesis by blast
qed

lemma step_canonical:
  "\<lbrakk>spec_step op res s s'; op_canonical op; \<forall>k \<in> dom s. canonical_key k\<rbrakk> \<Longrightarrow> \<forall>k \<in> dom s'. canonical_key k"
  by (induction rule: spec_step.induct) auto

lemma run_canonical:
  "\<lbrakk>spec_run s tr s'; \<forall>(op, res) \<in> set tr. op_canonical op; \<forall>k \<in> dom s. canonical_key k\<rbrakk> \<Longrightarrow> \<forall>k \<in> dom s'. canonical_key k"
  by (induction rule: spec_run.induct) (auto dest: step_canonical)

lemma step_resolving:
  assumes "spec_step op res s s'" "reports op \<noteq> Some k" "s k = Some g" "sg_status g = DependencyGraphResolving"
  shows "s' k = Some g"
  using assms by (induction rule: spec_step.induct)
    (auto simp: claimable_def)

lemma run_resolving:
  "\<lbrakk>spec_run s tr s'; \<forall>(op, res) \<in> set tr. reports op \<noteq> Some k; s k = Some g; sg_status g = DependencyGraphResolving\<rbrakk> \<Longrightarrow>
   s' k = Some g"
  by (induction rule: spec_run.induct) (auto dest: step_resolving)

section \<open>Context summaries\<close>

definition depth_scope :: "int \<Rightarrow> dependency_scope" where
  "depth_scope d = (if d = 0 then DependencyScopeDirect else DependencyScopeTransitive)"

text \<open>Every node has a summary, and a summary encodes the scope of its node.\<close>

definition contexts_ok :: "(dependency_context \<Rightarrow> string result) \<Rightarrow> graph_db \<Rightarrow> bool" where
  "contexts_ok m db \<longleftrightarrow>
     (\<forall>n \<in> set (gdb_nodes db). \<exists>s \<in> set (gdb_summaries db). sr_root_id s = node_root_id n \<and> sr_artifact s = node_artifact n) \<and>
     (\<forall>s \<in> set (gdb_summaries db). \<forall>n \<in> set (gdb_nodes db).
        sr_root_id s = node_root_id n \<and> sr_artifact s = node_artifact n \<longrightarrow>
        (\<exists>c. m c = Inr (sr_context s) \<and> dep_scope c = depth_scope (node_min_depth n)))"

lemma contexts_ok_cong:
  "gdb_nodes db' = gdb_nodes db \<Longrightarrow> gdb_summaries db' = gdb_summaries db \<Longrightarrow> contexts_ok m db' = contexts_ok m db"
  by (simp add: contexts_ok_def)

lemma normalize_scope: "dep_scope (NormalizeContext h c) = (if dep_scope c = [] then DependencyScopeUnknown else dep_scope c)"
  by (simp add: NormalizeContext_def Let_def)

lemma node_scope: "dep_scope (dependencyContextForNode rid n) = depth_scope (node_min_depth n)"
  by (simp add: dependencyContextForNode_def Let_def depth_scope_def)

lemma depth_scope_known: "depth_scope d \<noteq> []" "depth_scope d \<noteq> DependencyScopeUnknown"
  by (simp_all add: depth_scope_def)

lemma contexts_cleared: "contexts_ok m db \<Longrightarrow> contexts_ok m (cleared rid db)"
  unfolding contexts_ok_def cleared_def by simp metis

lemma contexts_insert:
  assumes "contexts_ok (ge_marshal env) db" "insert_node env rid node db = Inr (i, db1)"
    "insertDependencyContextSummary env req rid (node_artifact node)
       (NormalizeContext (ge_sha256_hex env) (dependencyContextForNode rid node)) db1 = Inr db2"
  shows "contexts_ok (ge_marshal env) db2"
proof -
  let ?n = "stored_node (ge_uuid env) rid (gdb_drawn db) node"
  let ?c = "NormalizeContext (ge_sha256_hex env) (NormalizeContext (ge_sha256_hex env) (dependencyContextForNode rid node))"
  have n: "gdb_nodes db1 = gdb_nodes db @ [?n]" "gdb_summaries db1 = gdb_summaries db"
    "\<And>x. x \<in> set (gdb_nodes db) \<Longrightarrow> \<not> (node_root_id x = rid \<and> node_artifact x = node_artifact node)"
    using insert_node_Inr [OF assms(2)] by (auto simp: node_added_def)
  have c: "dep_scope ?c = depth_scope (node_min_depth node)"
    by (simp add: normalize_scope node_scope depth_scope_known)
  have new: "node_root_id ?n = rid" "node_artifact ?n = node_artifact node" "node_min_depth ?n = node_min_depth node"
    by (simp_all add: stored_node_def)
  show ?thesis
    using assms(3)
  proof (cases rule: summary_Inr)
    case (1 data)
    let ?s = "\<lparr>sr_root_id = rid, sr_tenant_id = resolve_tenant_id req, sr_upstream_id = up_id (resolve_upstream req),
      sr_artifact = node_artifact node, sr_context = data\<rparr>"
    have db2: "gdb_nodes db2 = gdb_nodes db @ [?n]" "gdb_summaries db2 = gdb_summaries db @ [?s]"
      using 1(2) n(1,2) by simp_all
    have old: "\<And>s. s \<in> set (gdb_summaries db) \<Longrightarrow> \<not> (sr_root_id s = rid \<and> sr_artifact s = node_artifact node)"
      using 1(3) n(2) by auto
    show ?thesis
      using assms(1) n(3) old 1(1) c unfolding contexts_ok_def db2
      by (simp add: new) metis
  qed
qed

lemma contexts_nodes:
  assumes "insertDependencyGraphNodes env req rid nodes ids db = Inr (ids', db')" "contexts_ok (ge_marshal env) db"
  shows "contexts_ok (ge_marshal env) db'"
  using assms
proof (induction nodes arbitrary: ids db)
  case Nil
  then show ?case by simp
next
  case (Cons node nodes)
  from Cons.prems(1) obtain i db1 db2 where
    "insert_node env rid node db = Inr (i, db1)"
    "insertDependencyContextSummary env req rid (node_artifact node)
      (NormalizeContext (ge_sha256_hex env) (dependencyContextForNode rid node)) db1 = Inr db2" and
    rest: "insertDependencyGraphNodes env req rid nodes (AList.update (node_key node) i ids) db2 = Inr (ids', db')"
    by (auto elim!: bind_InrE)
  then have "contexts_ok (ge_marshal env) db2" using contexts_insert [OF Cons.prems(2)] by blast
  with Cons.IH [OF rest] show ?case .
qed

lemma contexts_update_roots: "contexts_ok m (update_roots p f db) = contexts_ok m db"
  by (rule contexts_ok_cong) (simp_all add: update_roots_def)

lemma edges_keep_contexts:
  "insertDependencyGraphEdges env rid ids edges db = Inr db' \<Longrightarrow> contexts_ok m db' = contexts_ok m db"
proof (induction edges arbitrary: db)
  case Nil
  then show ?case by simp
next
  case (Cons e edges)
  from Cons.prems obtain p c db1 where
    ins: "insert_edge env rid p c (edge_dependency_type e) db = Inr db1" and
    rest: "insertDependencyGraphEdges env rid ids edges db1 = Inr db'"
    by (auto split: option.splits elim!: bind_InrE)
  from Cons.IH [OF rest] insert_edge_Inr [OF ins] contexts_ok_cong [of db1 db m] show ?case by simp
qed

lemma apply_op_contexts:
  assumes "contexts_ok (ge_marshal env) db" "apply_op env op db = (res, db')"
  shows "contexts_ok (ge_marshal env) db'"
proof (cases op)
  case (Enqueue req)
  with assms(2) have "gdb_nodes db' = gdb_nodes db" "gdb_summaries db' = gdb_summaries db"
    by (auto simp: EnqueueResolve_def transaction_def sql_def Let_def split: option.splits if_splits)
  with assms(1) show ?thesis by (simp add: contexts_ok_cong [of db' db])
next
  case (Claim t now)
  show ?thesis
  proof (cases "ClaimNextResolveJob env t now db")
    case (Pair r db1)
    with assms(2) Claim have db1: "db1 = db'" by simp
    from Pair show ?thesis
      by (cases rule: claim_cases) (use assms(1) db1 in \<open>simp_all add: contexts_update_roots\<close>)
  qed
next
  case (Complete req nodes edges hash)
  show ?thesis
  proof (cases "CompleteResolve env req nodes edges hash db")
    case (Pair r db1)
    with assms(2) Complete have db1: "db1 = db'" by simp
    from Pair show ?thesis
    proof (cases rule: complete_cases)
      case (failed e)
      with assms(1) db1 show ?thesis by simp
    next
      case (stored rid ids db2 db3)
      from contexts_nodes [OF stored(3) contexts_cleared [OF assms(1)]] edges_keep_contexts [OF stored(4)]
      have "contexts_ok (ge_marshal env) db3" by simp
      with stored(5) db1 show ?thesis by (simp add: contexts_update_roots)
    qed
  qed
next
  case (Fail req msg retry)
  with assms show ?thesis
    by (auto simp: FailResolve_def transaction_def sql_def contexts_update_roots split: option.splits)
qed

lemma run_contexts:
  "\<lbrakk>graph_run env0 db tr db'; contexts_ok (ge_marshal env0) db\<rbrakk> \<Longrightarrow> contexts_ok (ge_marshal env0) db'"
  by (induction rule: graph_run.induct) (metis apply_op_contexts same_store_def)+

section \<open>Lookups\<close>

lemma decode_contexts_Inr:
  "decode_contexts env ss = Inr cs \<Longrightarrow>
   list_all2 (\<lambda>s c. \<exists>c0. ge_unmarshal env (sr_context s) = Inr c0 \<and> c = NormalizeContext (ge_sha256_hex env) c0) ss cs"
  by (induction ss arbitrary: cs) (auto elim!: bind_InrE split: sum.splits)

lemma merge_loop_scope:
  "dep_scope (merge_loop h scope cs ts ids) \<noteq> DependencyScopeUnknown \<Longrightarrow> scope \<noteq> [] \<Longrightarrow>
   dep_scope (merge_loop h scope cs ts ids) = scope \<and> (\<forall>c \<in> set cs. dep_scope (NormalizeContext h c) = scope)"
proof (induction cs arbitrary: ts ids)
  case Nil
  then show ?case by (simp add: normalize_scope)
next
  case (Cons c cs)
  show ?case
  proof (cases "dep_scope (NormalizeContext h c) = DependencyScopeUnknown \<or> dep_scope (NormalizeContext h c) \<noteq> scope")
    case True
    then have "merge_loop h scope (c # cs) ts ids = NewUnknownDependencyContext h" by (simp add: Let_def)
    with Cons.prems(1) show ?thesis by (simp add: NewUnknownDependencyContext_def Let_def)
  next
    case False
    then have "merge_loop h scope (c # cs) ts ids =
        merge_loop h scope cs (ts @ dep_types (NormalizeContext h c)) (ids @ dep_graph_ids (NormalizeContext h c))"
      by (auto simp: Let_def)
    with Cons.IH [OF _ Cons.prems(2)] Cons.prems(1) False show ?thesis by auto
  qed
qed

lemma list_all2_setD: "list_all2 R xs ys \<Longrightarrow> x \<in> set xs \<Longrightarrow> \<exists>y \<in> set ys. R x y"
  by (induction rule: list_all2_induct) auto

lemma find_SomeD: "List.find P xs = Some x \<Longrightarrow> x \<in> set xs \<and> P x"
  by (auto simp: find_Some_iff)

text \<open>A looked-up scope other than unknown is the scope of every row found.\<close>

lemma lookup_scope:
  assumes "LookupContext env key db = Inr ctx" "dep_scope ctx \<noteq> DependencyScopeUnknown"
  defines "rows \<equiv> filter (\<lambda>s. sr_tenant_id s = summary_tenant_id key \<and> sr_upstream_id s = summary_upstream_id key \<and>
    sr_artifact s = summary_artifact key) (gdb_summaries db)"
  shows "rows \<noteq> []"
    "s \<in> set rows \<Longrightarrow> \<exists>c. ge_unmarshal env (sr_context s) = Inr c \<and> dep_scope (NormalizeContext (ge_sha256_hex env) c) = dep_scope ctx"
proof -
  from assms obtain cs where cs: "decode_contexts env rows = Inr cs" "cs \<noteq> []"
    "ctx = mergeDependencyContexts (ge_sha256_hex env) cs"
    by (auto simp: LookupContext_def elim!: bind_InrE dest!: sql_Inr scan_rows_Inr split: if_splits)
  note dec = decode_contexts_Inr [OF cs(1)]
  then show "rows \<noteq> []" using cs(2) by auto
  obtain c0 where c0: "hd cs = NormalizeContext (ge_sha256_hex env) c0"
    using dec cs(2) by (cases rows; cases cs) auto
  then have head: "dep_scope (hd cs) \<noteq> []" by (simp add: normalize_scope)
  have "ctx = merge_loop (ge_sha256_hex env) (dep_scope (hd cs)) cs [] []"
    using cs(2,3) by (cases cs) (simp_all add: mergeDependencyContexts_def)
  with merge_loop_scope head assms(2)
  have all: "\<And>c. c \<in> set cs \<Longrightarrow> dep_scope (NormalizeContext (ge_sha256_hex env) c) = dep_scope ctx" by metis
  show "\<exists>c. ge_unmarshal env (sr_context s) = Inr c \<and> dep_scope (NormalizeContext (ge_sha256_hex env) c) = dep_scope ctx"
    if "s \<in> set rows"
  proof -
    from list_all2_setD [OF dec that] obtain c c0 where "c \<in> set cs" "ge_unmarshal env (sr_context s) = Inr c0"
      "c = NormalizeContext (ge_sha256_hex env) c0" by blast
    with all [of c] show ?thesis by (simp add: normalize_scope split: if_split_asm)
  qed
qed

lemma lookup_sound:
  assumes ok: "graph_ok uuid db" "contexts_ok m db" and codec: "codec_ok m (ge_unmarshal env)"
    and look: "LookupContext env key db = Inr ctx" "dep_scope ctx \<noteq> DependencyScopeUnknown"
    and g: "abs_db db (summary_tenant_id key, summary_upstream_id key, name, version) = Some g"
      "(summary_artifact key, d, ts) \<in> sg_nodes g"
  shows "dep_scope ctx = depth_scope d"
proof -
  from g(1) obtain r where r: "r \<in> set (gdb_roots db)" "g = abs_row db r" "rr_tenant_id r = summary_tenant_id key"
    "rr_upstream_id r = summary_upstream_id key"
    by (auto simp: abs_db_def row_key_def dest!: find_SomeD)
  from g(2) obtain n where n: "n \<in> set (gdb_nodes db)" "node_root_id n = rr_id r" "node_artifact n = summary_artifact key"
    "node_min_depth n = d"
    by (auto simp: r(2) abs_row_def nodes_of_def stored_attrs_def)
  from ok(2) n obtain s where s: "s \<in> set (gdb_summaries db)" "sr_root_id s = rr_id r" "sr_artifact s = summary_artifact key"
    unfolding contexts_ok_def by metis
  from ok(2) n s obtain c where c: "m c = Inr (sr_context s)" "dep_scope c = depth_scope d"
    unfolding contexts_ok_def by metis
  from ok(1) s(1,2) obtain r' where "r' \<in> set (gdb_roots db)" "rr_id r' = rr_id r" "rr_tenant_id r' = sr_tenant_id s"
    "rr_upstream_id r' = sr_upstream_id s"
    unfolding graph_ok_def summaries_ok_def by metis
  with row_by_id [OF ok(1)] r have "sr_tenant_id s = summary_tenant_id key" "sr_upstream_id s = summary_upstream_id key"
    by metis+
  with lookup_scope(2) [OF look, of s] s obtain c' where
    "ge_unmarshal env (sr_context s) = Inr c'" "dep_scope (NormalizeContext (ge_sha256_hex env) c') = dep_scope ctx"
    by auto
  with codec c show ?thesis by (auto simp: codec_ok_def normalize_scope depth_scope_known)
qed

section \<open>Snapshots\<close>

lemma snapshot_closed:
  assumes "graph_ok uuid db" "GetSnapshot env t rid db = Inr snap"
  shows "root_tenant_id (graph_root snap) = t"
    "\<forall>n \<in> set (graph_nodes snap). node_root_id n = root_id (graph_root snap)"
    "\<forall>e \<in> set (graph_edges snap). edge_parent_node_id e \<in> node_id ` set (graph_nodes snap) \<and>
       edge_child_node_id e \<in> node_id ` set (graph_nodes snap)"
proof -
  from assms(2) obtain r where r: "r \<in> set (gdb_roots db)" "rr_tenant_id r = t" "rr_id r = rid"
    "graph_root snap = root_of_row r"
    and n: "set (graph_nodes snap) = nodes_of rid db" and e: "set (graph_edges snap) = edges_of rid db"
    by (auto simp: GetSnapshot_def nodes_of_def edges_of_def elim!: bind_InrE dest!: sql_Inr scan_rows_Inr find_SomeD
        split: option.splits)
  show "root_tenant_id (graph_root snap) = t" using r by (simp add: root_of_row_def)
  show "\<forall>n \<in> set (graph_nodes snap). node_root_id n = root_id (graph_root snap)"
    unfolding n using r by (auto simp: root_of_row_def nodes_of_def)
  show "\<forall>e \<in> set (graph_edges snap). edge_parent_node_id e \<in> node_id ` set (graph_nodes snap) \<and>
      edge_child_node_id e \<in> node_id ` set (graph_nodes snap)"
    unfolding n e using assms(1) by (auto simp: graph_ok_def edges_ok_def edges_of_def node_ids_of_def nodes_of_def)
qed

section \<open>A sample store\<close>

definition sample_node :: dependency_graph_node where
  "sample_node = \<lparr>node_id = ''n'', node_root_id = [],
     node_artifact = \<lparr>art_ecosystem = EcosystemNPM, art_namespace = [], art_name = ''dep'', art_version = ''2'', art_digest = []\<rparr>,
     node_min_depth = 0, node_dependency_types = [DependencyTypeProd]\<rparr>"

definition sample_root_context :: dependency_context where
  "sample_root_context =
     NormalizeContext (\<lambda>_. ''h'') (NormalizeContext (\<lambda>_. ''h'') (dependencyContextForNode [] sample_node))"

text \<open>Identifiers of growing length, a clock at 5, no locks and no failures, and a codec for one context.\<close>

definition sample_env :: graph_env where
  "sample_env =
     \<lparr>ge_uuid = (\<lambda>n. replicate n CHR ''i''), ge_now = 5, ge_locked = (\<lambda>_. False), ge_base_url = (\<lambda>_. Some ''url''),
      ge_fault = (\<lambda>_. None), ge_sha256_hex = (\<lambda>_. ''h''),
      ge_marshal = (\<lambda>c. if c = sample_root_context then Inr ''data'' else Inl (plain_error ''encode'')),
      ge_unmarshal = (\<lambda>x. if x = ''data'' then Inr sample_root_context else Inl (plain_error ''decode''))\<rparr>"

definition sample_job :: "string \<Rightarrow> dependency_graph_resolve_request" where
  "sample_job name =
     \<lparr>resolve_tenant_id = ''t'',
      resolve_upstream =
        \<lparr>up_id = ''u'', up_tenant_id = ''t'', up_name = [], up_ecosystem = EcosystemNPM, up_base_url = ''url'',
         up_capabilities = None, up_auth = None, up_created_at = zero_time, up_updated_at = zero_time\<rparr>,
      resolve_root = \<lparr>art_ecosystem = EcosystemNPM, art_namespace = [], art_name = name, art_version = ''1'', art_digest = []\<rparr>,
      resolve_requested_at = 9\<rparr>"

definition sample_claims :: graph_trace where
  "sample_claims =
     [(Enqueue (sample_job ''left''), Enqueued True), (Enqueue (sample_job ''right''), Enqueued True),
      (Claim ''*'' 9, Claimed (Some (sample_job ''left''))), (Enqueue (sample_job ''left''), Enqueued False),
      (Claim ''t'' 9, Claimed (Some (sample_job ''right'')))]"

definition sample_completion :: graph_trace where
  "sample_completion =
     [(Enqueue (sample_job ''left''), Enqueued True), (Claim ''*'' 9, Claimed (Some (sample_job ''left''))),
      (Complete (sample_job ''left'') [sample_node] [] ''hash'', Done)]"

definition sample_db :: "graph_trace \<Rightarrow> graph_db" where
  "sample_db tr = snd (run_ops (map (\<lambda>(op, res). (sample_env, op)) tr) empty_db)"

lemma sample_run:
  assumes "fst (run_ops (map (\<lambda>(op, res). (sample_env, op)) tr) empty_db) = tr"
  shows "graph_run sample_env empty_db tr (sample_db tr)"
proof -
  have "\<forall>(env, op) \<in> set (map (\<lambda>(op, res). (sample_env, op)) tr). same_store sample_env env"
    by (auto simp: same_store_def)
  from run_ops_run [OF this, of empty_db] assms show ?thesis by (simp add: sample_db_def)
qed

lemma sample_claims_run: "graph_run sample_env empty_db sample_claims (sample_db sample_claims)"
  by (rule sample_run) code_simp

lemma sample_completion_run: "graph_run sample_env empty_db sample_completion (sample_db sample_completion)"
  by (rule sample_run) code_simp

lemma sample_uuid: "inj (ge_uuid sample_env)"
  by (auto simp: sample_env_def inj_def dest: arg_cong [of _ _ length])

lemma sample_codec: "codec_ok (ge_marshal sample_env) (ge_unmarshal sample_env)"
  by (auto simp: codec_ok_def sample_env_def split: if_splits)

lemma abs_empty: "abs_db empty_db = (\<lambda>_. None)"
  by (simp add: abs_db_def empty_db_def fun_eq_iff)

lemma empty_run_ok:
  assumes "inj (ge_uuid env0)" "graph_run env0 empty_db tr db"
  shows "graph_ok (ge_uuid env0) db" "spec_run (\<lambda>_. None) tr (abs_db db)" "contexts_ok (ge_marshal env0) db"
proof -
  have "contexts_ok (ge_marshal env0) empty_db" by (simp add: contexts_ok_def empty_db_def)
  then show "contexts_ok (ge_marshal env0) db" by (rule run_contexts [OF assms(2)])
  show "graph_ok (ge_uuid env0) db" "spec_run (\<lambda>_. None) tr (abs_db db)"
    using run_ok [OF assms(2) graph_ok_empty assms(1)] by (simp_all add: abs_empty)
qed

section \<open>Properties\<close>



text \<open>C17. Claims are exclusive: between two claims of the same job some operation reports its outcome. When
  the enqueued roots are canonical, a run in which a job has been claimed, and not completed or failed
  since, hands out a different job, whatever tenant scope claims and whatever else happens in between.\<close>

theorem resolve_claims_exclusive:
  assumes "inj (ge_uuid env0)"
    and "graph_run env0 empty_db
      (before @ (Claim t now, Claimed (Some req)) # between @ [(Claim t' now', Claimed (Some req'))]) db"
    and "\<forall>(op, res) \<in> set (before @ between). op_canonical op"
    and "\<forall>(op, res) \<in> set between. reports op \<noteq> Some (request_key req)"
  shows "request_key req' \<noteq> request_key req"
proof -
  obtain s1 s2 s3 s4 where runs: "spec_run (\<lambda>_. None) before s1"
    "spec_step (Claim t now) (Claimed (Some req)) s1 s2" "spec_run s2 between s3"
    "spec_step (Claim t' now') (Claimed (Some req')) s3 s4"
    using empty_run_ok(2) [OF assms(1,2)] by (auto elim!: spec_run_ConsE spec_run_appendE)
  have c1: "\<forall>k \<in> dom s1. canonical_key k" using run_canonical [OF runs(1)] assms(3) by simp
  have c2: "\<forall>k \<in> dom s2. canonical_key k" using step_canonical [OF runs(2) _ c1] by simp
  have c3: "\<forall>k \<in> dom s3. canonical_key k" using run_canonical [OF runs(3) _ c2] assms(3) by simp
  obtain g where "s2 (request_key req) = Some g" "sg_status g = DependencyGraphResolving"
    by (rule claimed_key [OF runs(2) c1]) simp
  from run_resolving [OF runs(3) assms(4) this] have "s3 (request_key req) = Some g" .
  moreover obtain g' where "s3 (request_key req') = Some g'" "claimable g'"
    by (rule claimed_key [OF runs(4) c3])
  ultimately show ?thesis using \<open>sg_status g = DependencyGraphResolving\<close> by (auto simp: claimable_def)
qed

theorem resolve_claims_exclusive_witness: "request_key (sample_job ''right'') \<noteq> request_key (sample_job ''left'')"
proof (rule resolve_claims_exclusive [OF sample_uuid, of
      "[(Enqueue (sample_job ''left''), Enqueued True), (Enqueue (sample_job ''right''), Enqueued True)]" "''*''" 9 _
      "[(Enqueue (sample_job ''left''), Enqueued False)]" "''t''" 9 _ "sample_db sample_claims"])
  show "graph_run sample_env empty_db
      ([(Enqueue (sample_job ''left''), Enqueued True), (Enqueue (sample_job ''right''), Enqueued True)] @
       (Claim ''*'' 9, Claimed (Some (sample_job ''left''))) # [(Enqueue (sample_job ''left''), Enqueued False)] @
       [(Claim ''t'' 9, Claimed (Some (sample_job ''right'')))]) (sample_db sample_claims)"
    using sample_claims_run by (simp add: sample_claims_def)
qed code_simp+

text \<open>The tables stay well-formed under every run: row identifiers and keys are unique, every node belongs
  to a root, and every edge joins two nodes of its own root. A snapshot is therefore a closed graph of the
  tenant that asks for it: its nodes are those of its root and its edges lead from node to node.\<close>

lemma graph_snapshots_closed:
  assumes "inj (ge_uuid env0)" "graph_run env0 empty_db tr db" "GetSnapshot env t rid db = Inr snap"
  shows "graph_ok (ge_uuid env0) db \<and> root_tenant_id (graph_root snap) = t \<and>
    node_root_id ` set (graph_nodes snap) \<subseteq> {root_id (graph_root snap)} \<and>
    edge_parent_node_id ` set (graph_edges snap) \<union> edge_child_node_id ` set (graph_edges snap) \<subseteq>
      node_id ` set (graph_nodes snap)"
  using empty_run_ok(1) [OF assms(1,2)] snapshot_closed [OF empty_run_ok(1) [OF assms(1,2)] assms(3)] by auto

lemma graph_snapshots_closed_witness:
  "root_tenant_id (graph_root (projr (GetSnapshot sample_env ''t'' [] (sample_db sample_completion)))) = ''t''"
proof -
  have "\<not> isl (GetSnapshot sample_env ''t'' [] (sample_db sample_completion))" by code_simp
  then have "GetSnapshot sample_env ''t'' [] (sample_db sample_completion) =
      Inr (projr (GetSnapshot sample_env ''t'' [] (sample_db sample_completion)))"
    by (cases "GetSnapshot sample_env ''t'' [] (sample_db sample_completion)") simp_all
  from graph_snapshots_closed [OF sample_uuid sample_completion_run this] show ?thesis by blast
qed


definition sample_key :: dependency_context_summary_key where
  "sample_key = \<lparr>summary_tenant_id = ''t'', summary_upstream_id = ''u'', summary_artifact = node_artifact sample_node\<rparr>"


end
