(* ===== verification/Graph_Worker.thy ===== *)
theory Graph_Worker
  imports Graph_Jobs
begin

text \<open>
  The dependency graph worker (\<open>internal/core/service/dependency_graph_worker.go\<close>) and the notifier that
  wakes it (\<open>dependency_graph_notifier.go\<close>).

  The host of the worker (temporary directory, npm process, lockfile decoder) is a parameter \<open>npm_host\<close>.
  The worker is a state machine over the graph store: the select loop wakes it, each round of
  \<open>claimAvailableJobs\<close> claims a job into a free slot, the goroutines finish in any order, and other
  parties use the store in between. The notifier is a state machine too: each critical section and each
  channel operation is a step, so every interleaving is covered.

  The lemmas show that the worker never holds two jobs with the same key and never more jobs than
  slots, that a parsed lockfile is always stored, and that the notifier neither loses a signal of a
  subscriber nor sends on a closed channel.
\<close>

section \<open>The notifier\<close>

text \<open>A channel of capacity one is the flag of its buffered signal. The goroutine of a subscription deletes
  the channel from the map under the lock and closes it after the lock is released.\<close>

datatype watch_phase = Watching | Deleted | Closed

record notifier =
  nt_subscribers :: "(nat \<times> string) list"
  nt_signal :: "nat \<Rightarrow> bool"
  nt_phase :: "nat \<Rightarrow> watch_phase"
  nt_channels :: nat

definition NewDependencyGraphJobNotifier :: notifier where
  "NewDependencyGraphJobNotifier =
     \<lparr>nt_subscribers = [], nt_signal = (\<lambda>_. False), nt_phase = (\<lambda>_. Watching), nt_channels = 0\<rparr>"

text \<open>The loop of \<open>Notify\<close>. A send on a closed channel panics: the result is \<^const>\<open>None\<close>.\<close>

fun notify_loop :: "string \<Rightarrow> (nat \<times> string) list \<Rightarrow> notifier \<Rightarrow> notifier option" where
  "notify_loop tenantID [] n = Some n"
| "notify_loop tenantID ((subscriber, tenantScope) # rest) n =
     (if tenantScope \<noteq> ''*'' \<and> tenantScope \<noteq> tenantID then notify_loop tenantID rest n
      else if nt_phase n subscriber = Closed then None
      else notify_loop tenantID rest (n\<lparr>nt_signal := (nt_signal n)(subscriber := True)\<rparr>))"

definition Notify :: "string \<Rightarrow> notifier \<Rightarrow> notifier option" where
  "Notify tenantID n = notify_loop tenantID (nt_subscribers n) n"

definition watch_scope :: "string \<Rightarrow> string" where
  "watch_scope tenantID = (if trim_space tenantID = [] then ''*'' else trim_space tenantID)"

definition WatchResolveJobs :: "string \<Rightarrow> notifier \<Rightarrow> nat \<times> notifier" where
  "WatchResolveJobs tenantID n =
     (nt_channels n,
      n\<lparr>nt_subscribers := (nt_channels n, watch_scope tenantID) # nt_subscribers n,
        nt_channels := Suc (nt_channels n)\<rparr>)"

definition delete_subscriber :: "nat \<Rightarrow> notifier \<Rightarrow> notifier" where
  "delete_subscriber c n =
     n\<lparr>nt_subscribers := filter (\<lambda>(d, _). d \<noteq> c) (nt_subscribers n), nt_phase := (nt_phase n)(c := Deleted)\<rparr>"

definition close_channel :: "nat \<Rightarrow> notifier \<Rightarrow> notifier" where
  "close_channel c n = n\<lparr>nt_phase := (nt_phase n)(c := Closed)\<rparr>"

datatype notifier_event =
    Notified string
  | Subscribed string nat
  | Unsubscribed nat
  | ChannelClosed nat
  | Received nat

inductive notifier_step :: "notifier_event \<Rightarrow> notifier \<Rightarrow> notifier \<Rightarrow> bool" where
  notify: "Notify t n = Some n' \<Longrightarrow> notifier_step (Notified t) n n'"
| watch: "WatchResolveJobs t n = (c, n') \<Longrightarrow> notifier_step (Subscribed t c) n n'"
| unsubscribe: "\<lbrakk>c < nt_channels n; nt_phase n c = Watching\<rbrakk> \<Longrightarrow> notifier_step (Unsubscribed c) n (delete_subscriber c n)"
| close: "nt_phase n c = Deleted \<Longrightarrow> notifier_step (ChannelClosed c) n (close_channel c n)"
| receive: "nt_signal n c \<Longrightarrow> notifier_step (Received c) n (n\<lparr>nt_signal := (nt_signal n)(c := False)\<rparr>)"

inductive notifier_run :: "notifier \<Rightarrow> notifier_event list \<Rightarrow> notifier \<Rightarrow> bool" where
  quiet: "notifier_run n [] n"
| event: "\<lbrakk>notifier_step e n n1; notifier_run n1 es n2\<rbrakk> \<Longrightarrow> notifier_run n (e # es) n2"

inductive_cases notifier_stepE: "notifier_step e n n'"
inductive_cases notifier_run_ConsE: "notifier_run n (e # es) n'"

text \<open>The subscribers in the map are being watched; deleted and closed ones are gone.\<close>

definition notifier_ok :: "notifier \<Rightarrow> bool" where
  "notifier_ok n \<longleftrightarrow>
     (\<forall>(c, s) \<in> set (nt_subscribers n). c < nt_channels n \<and> nt_phase n c = Watching) \<and>
     (\<forall>c \<ge> nt_channels n. nt_phase n c = Watching) \<and> distinct (map fst (nt_subscribers n))"

lemma notify_loop_run:
  assumes "\<forall>(c, s) \<in> set subs. nt_phase n c \<noteq> Closed"
  shows "notify_loop t subs n =
    Some (n\<lparr>nt_signal := (\<lambda>c. nt_signal n c \<or> (\<exists>s. (c, s) \<in> set subs \<and> (s = ''*'' \<or> s = t)))\<rparr>)"
  using assms
proof (induction subs arbitrary: n)
  case (Cons x subs)
  obtain c s where x: "x = (c, s)" by (cases x)
  let ?n = "n\<lparr>nt_signal := (nt_signal n)(c := True)\<rparr>"
  have "notify_loop t subs n' = Some (n'\<lparr>nt_signal := (\<lambda>c. nt_signal n' c \<or> (\<exists>s. (c, s) \<in> set subs \<and> (s = ''*'' \<or> s = t)))\<rparr>)"
    if "n' = n \<or> n' = ?n" for n'
    using Cons.prems that by (intro Cons.IH) auto
  then show ?case using Cons.prems x by (auto simp: fun_eq_iff intro!: arg_cong [of _ _ Some] notifier.equality)
qed simp

lemma Notify_run:
  assumes "notifier_ok n"
  shows "Notify t n =
    Some (n\<lparr>nt_signal := (\<lambda>c. nt_signal n c \<or> (\<exists>s. (c, s) \<in> set (nt_subscribers n) \<and> (s = ''*'' \<or> s = t)))\<rparr>)"
  unfolding Notify_def using assms by (intro notify_loop_run) (auto simp: notifier_ok_def)

lemma step_notifier_ok:
  assumes "notifier_step e n n'" "notifier_ok n"
  shows "notifier_ok n'"
  using assms
proof cases
  case (notify t)
  then show ?thesis using Notify_run [OF assms(2), of t] assms(2) by (auto simp: notifier_ok_def)
next
  case (watch t c)
  then show ?thesis using assms(2)
    by (fastforce simp: notifier_ok_def WatchResolveJobs_def)
next
  case (unsubscribe c)
  then show ?thesis using assms(2)
    by (auto simp: notifier_ok_def delete_subscriber_def distinct_map_filter)
next
  case (close c)
  then show ?thesis using assms(2) by (fastforce simp: notifier_ok_def close_channel_def)
next
  case (receive c)
  then show ?thesis using assms(2) by (simp add: notifier_ok_def)
qed

lemma run_notifier_ok: "notifier_run n es n' \<Longrightarrow> notifier_ok n \<Longrightarrow> notifier_ok n'"
  by (induction rule: notifier_run.induct) (auto intro: step_notifier_ok)

lemma new_notifier_ok: "notifier_ok NewDependencyGraphJobNotifier"
  by (simp add: notifier_ok_def NewDependencyGraphJobNotifier_def)

lemma step_keeps_signal:
  assumes "notifier_step e n n'" "notifier_ok n" "nt_signal n c" "e \<noteq> Received c"
  shows "nt_signal n' c"
  using assms(1)
proof cases
  case (notify t)
  then show ?thesis using Notify_run [OF assms(2), of t] assms(3) by auto
qed (use assms(3,4) in \<open>auto simp: WatchResolveJobs_def delete_subscriber_def close_channel_def\<close>)

lemma run_keeps_signal:
  "\<lbrakk>notifier_run n es n'; notifier_ok n; nt_signal n c; Received c \<notin> set es\<rbrakk> \<Longrightarrow> nt_signal n' c"
  by (induction rule: notifier_run.induct) (auto dest: step_keeps_signal step_notifier_ok)

section \<open>Running npm\<close>

record npm_host =
  nh_mkdir :: "string result"
  nh_write :: "string \<Rightarrow> string \<Rightarrow> unit result"
  nh_npm :: "string \<Rightarrow> string list \<Rightarrow> string \<times> go_error option"
  nh_read :: "string \<Rightarrow> string result"
  nh_order :: map_order
  nh_unmarshal :: "string \<Rightarrow> package_lock result"
  nh_marshal :: "graph_payload \<Rightarrow> string"
  nh_sha256_hex :: "string \<Rightarrow> string"

definition package_json :: string where
  "package_json = CHR ''{'' # quote ''private'' @ '':true,'' @ quote ''name'' @ '':'' @ quote ''dependency-firewall-graph-root'' @
     '','' @ quote ''version'' @ '':'' @ quote ''0.0.0'' @ [CHR ''}'', char_of (10 :: nat)]"

definition npm_args :: "dependency_graph_resolve_request \<Rightarrow> string list" where
  "npm_args job =
     (let registry = trim_space (up_base_url (resolve_upstream job))
      in [''install'', ''--package-lock-only'', ''--ignore-scripts'', ''--no-audit'', ''--no-fund'', ''--allow-git=none''] @
         (if registry \<noteq> [] then [''--registry'', registry] else []) @
         [''--'', FullName (resolve_root job) @ ''@'' @ art_version (resolve_root job)])"

text \<open>\<open>fmt.Errorf("running npm resolver: %w: %s", err, output)\<close>\<close>

definition npm_error :: "go_error \<Rightarrow> string \<Rightarrow> go_error" where
  "npm_error e output = (wrap_error ''running npm resolver'' e)
     \<lparr>err_text := err_text (wrap_error ''running npm resolver'' e) @ '': '' @ trim_space output\<rparr>"

definition resolveNPMGraph ::
  "npm_host \<Rightarrow> dependency_graph_resolve_request \<Rightarrow>
   (dependency_graph_node list \<times> dependency_graph_edge list \<times> string) result" where
  "resolveNPMGraph host job =
     (case nh_mkdir host of
        Inl e \<Rightarrow> Inl (wrap_error ''creating resolver workspace'' e)
      | Inr dir \<Rightarrow>
          (case nh_write host (path_join [dir, ''package.json'']) package_json of
             Inl e \<Rightarrow> Inl (wrap_error ''writing resolver package.json'' e)
           | Inr _ \<Rightarrow>
               (case nh_npm host dir (npm_args job) of
                  (out, Some e) \<Rightarrow> Inl (npm_error e out)
                | (out, None) \<Rightarrow>
                    (case nh_read host (path_join [dir, ''package-lock.json'']) of
                       Inl e \<Rightarrow> Inl (wrap_error ''reading resolver package-lock.json'' e)
                     | Inr lockData \<Rightarrow>
                         ParsePackageLock (nh_order host) (nh_unmarshal host) (nh_marshal host) (nh_sha256_hex host)
                           (resolve_root job) lockData))))"

section \<open>The worker\<close>

definition Second :: duration where "Second = 1000000000"

record worker_config =
  wc_enabled :: bool
  wc_tenant_id :: string
  wc_poll_interval :: duration
  wc_timeout :: duration
  wc_concurrency :: int
  wc_retry_delay :: duration

text \<open>The defaults \<open>Run\<close> fills in.\<close>

definition effective_config :: "worker_config \<Rightarrow> worker_config" where
  "effective_config cfg =
     cfg\<lparr>wc_poll_interval := (if wc_poll_interval cfg \<le> 0 then 5 * Second else wc_poll_interval cfg),
         wc_timeout := (if wc_timeout cfg \<le> 0 then 2 * Minute else wc_timeout cfg),
         wc_concurrency := (if wc_concurrency cfg \<le> 0 then 1 else wc_concurrency cfg),
         wc_retry_delay := (if wc_retry_delay cfg \<le> 0 then 5 * Minute else wc_retry_delay cfg),
         wc_tenant_id := (if trim_space (wc_tenant_id cfg) = [] then ''*'' else trim_space (wc_tenant_id cfg))\<rparr>"

definition resolve_op :: "worker_config \<Rightarrow> npm_host \<Rightarrow> time \<Rightarrow> dependency_graph_resolve_request \<Rightarrow> graph_op" where
  "resolve_op cfg host now job =
     (case resolveNPMGraph host job of
        Inl err \<Rightarrow> Fail job (err_text err) (now + wc_retry_delay cfg)
      | Inr (nodes, edges, hash) \<Rightarrow> Complete job nodes edges hash)"

text \<open>The outcome is reported; a failure to report it is only logged.\<close>

definition resolveJob ::
  "worker_config \<Rightarrow> npm_host \<Rightarrow> graph_env \<Rightarrow> time \<Rightarrow> dependency_graph_resolve_request \<Rightarrow> graph_db \<Rightarrow> graph_result \<times> graph_db" where
  "resolveJob cfg host env now job db = apply_op env (resolve_op cfg host now job) db"

record worker_state =
  ws_db :: graph_db
  ws_claiming :: bool
  ws_running :: "dependency_graph_resolve_request list"

text \<open>One round of the loop of \<open>claimAvailableJobs\<close>; the length of \<open>ws_running\<close> is that of the semaphore.\<close>

definition claimAvailableJobs :: "worker_config \<Rightarrow> graph_env \<Rightarrow> time \<Rightarrow> worker_state \<Rightarrow> worker_state" where
  "claimAvailableJobs cfg env now w =
     (if \<not> int (length (ws_running w)) < wc_concurrency cfg then w\<lparr>ws_claiming := False\<rparr>
      else
        (case ClaimNextResolveJob env (wc_tenant_id cfg) now (ws_db w) of
           (Inl err, db) \<Rightarrow> w\<lparr>ws_db := db, ws_claiming := False\<rparr>
         | (Inr None, db) \<Rightarrow> w\<lparr>ws_db := db, ws_claiming := False\<rparr>
         | (Inr (Some job), db) \<Rightarrow> w\<lparr>ws_db := db, ws_running := ws_running w @ [job]\<rparr>))"

text \<open>Steps of the running program. \<open>other\<close> is any other client of the store: proxies that enqueue, other
  workers that claim and that report jobs of their own.\<close>

inductive worker_step :: "worker_config \<Rightarrow> graph_env \<Rightarrow> worker_state \<Rightarrow> worker_state \<Rightarrow> bool" where
  wake: "worker_step cfg env0 w (w\<lparr>ws_claiming := True\<rparr>)"
| round: "\<lbrakk>ws_claiming w; same_store env0 env\<rbrakk> \<Longrightarrow> worker_step cfg env0 w (claimAvailableJobs cfg env now w)"
| finish: "\<lbrakk>ws_running w = before @ job # after; same_store env0 env;
     resolveJob cfg host env now job (ws_db w) = (res, db)\<rbrakk> \<Longrightarrow>
    worker_step cfg env0 w (w\<lparr>ws_db := db, ws_running := before @ after\<rparr>)"
| other: "\<lbrakk>same_store env0 env; op_canonical op; reports op \<notin> (Some \<circ> request_key) ` set (ws_running w);
     apply_op env op (ws_db w) = (res, db)\<rbrakk> \<Longrightarrow>
    worker_step cfg env0 w (w\<lparr>ws_db := db\<rparr>)"

inductive worker_reachable :: "worker_config \<Rightarrow> graph_env \<Rightarrow> worker_state \<Rightarrow> bool" where
  start: "worker_reachable cfg env0 \<lparr>ws_db = empty_db, ws_claiming = False, ws_running = []\<rparr>"
| step: "\<lbrakk>worker_reachable cfg env0 w; worker_step cfg env0 w w'\<rbrakk> \<Longrightarrow> worker_reachable cfg env0 w'"

definition job_held :: "graph_db \<Rightarrow> dependency_graph_resolve_request \<Rightarrow> bool" where
  "job_held db job \<longleftrightarrow> (\<exists>g. abs_db db (request_key job) = Some g \<and> sg_status g = DependencyGraphResolving)"

definition worker_ok :: "worker_config \<Rightarrow> graph_env \<Rightarrow> worker_state \<Rightarrow> bool" where
  "worker_ok cfg env0 w \<longleftrightarrow>
     graph_ok (ge_uuid env0) (ws_db w) \<and> (\<forall>k \<in> dom (abs_db (ws_db w)). canonical_key k) \<and>
     distinct (map request_key (ws_running w)) \<and> (\<forall>job \<in> set (ws_running w). job_held (ws_db w) job) \<and>
     int (length (ws_running w)) \<le> wc_concurrency cfg"

lemma op_keeps_held:
  assumes "spec_step op res (abs_db db) (abs_db db')" "reports op \<noteq> Some (request_key job)" "job_held db job"
  shows "job_held db' job"
  using assms step_resolving [OF assms(1,2)] by (auto simp: job_held_def)

text \<open>An operation that reports none of the running jobs keeps the invariant.\<close>

lemma op_keeps_worker_ok:
  assumes "worker_ok cfg env0 w" "inj (ge_uuid env0)" "same_store env0 env" "op_canonical op"
    "apply_op env op (ws_db w) = (res, db)" "set jobs \<subseteq> set (ws_running w)" "distinct (map request_key jobs)"
    "length jobs \<le> length (ws_running w)" "reports op \<notin> (Some \<circ> request_key) ` set jobs"
  shows "worker_ok cfg env0 (w\<lparr>ws_db := db, ws_running := jobs, ws_claiming := b\<rparr>)"
proof -
  have ok: "graph_ok (ge_uuid env0) (ws_db w)" using assms(1) by (simp add: worker_ok_def)
  note spec = apply_op_refines [OF ok assms(2,3,5)]
  have "job_held db job" if "job \<in> set jobs" for job
    using that assms(1,6,9) by (intro op_keeps_held [OF spec]) (auto simp: worker_ok_def)
  moreover have "\<forall>k \<in> dom (abs_db db). canonical_key k"
    using step_canonical [OF spec assms(4)] assms(1) by (simp add: worker_ok_def)
  ultimately show ?thesis
    using assms(1,7,8) apply_op_ok [OF ok assms(2,3,5)] by (simp add: worker_ok_def)
qed

lemma claim_keeps_worker_ok:
  assumes "worker_ok cfg env0 w" "inj (ge_uuid env0)" "same_store env0 env"
    "ClaimNextResolveJob env t now (ws_db w) = (Inr (Some job), db)" "int (length (ws_running w)) < wc_concurrency cfg"
  shows "worker_ok cfg env0 (w\<lparr>ws_db := db, ws_running := ws_running w @ [job]\<rparr>)"
proof -
  have op: "apply_op env (Claim t now) (ws_db w) = (Claimed (Some job), db)" using assms(4) by simp
  have ok: "graph_ok (ge_uuid env0) (ws_db w)" "\<forall>k \<in> dom (abs_db (ws_db w)). canonical_key k"
    using assms(1) by (simp_all add: worker_ok_def)
  note spec = apply_op_refines [OF ok(1) assms(2,3) op]
  obtain g where g: "abs_db (ws_db w) (request_key job) = Some g" "claimable g"
    "abs_db db = (abs_db (ws_db w))(request_key job \<mapsto> g\<lparr>sg_status := DependencyGraphResolving\<rparr>)"
    by (rule claimed_key [OF spec ok(2)])
  have "\<not> job_held (ws_db w) job" using g(1,2) by (auto simp: job_held_def claimable_def)
  then have new: "request_key job \<notin> request_key ` set (ws_running w)"
    using assms(1) by (auto simp: worker_ok_def job_held_def)
  have "job_held db job" using g(3) by (simp add: job_held_def)
  moreover have "worker_ok cfg env0 (w\<lparr>ws_db := db, ws_running := ws_running w, ws_claiming := ws_claiming w\<rparr>)"
    using assms(1) by (intro op_keeps_worker_ok [OF assms(1-3) _ op]) (auto simp: worker_ok_def)
  ultimately show ?thesis using assms(5) new by (auto simp: worker_ok_def)
qed

lemma round_keeps_worker_ok:
  assumes "worker_ok cfg env0 w" "inj (ge_uuid env0)" "same_store env0 env"
  shows "worker_ok cfg env0 (claimAvailableJobs cfg env now w)"
proof (cases "int (length (ws_running w)) < wc_concurrency cfg")
  case False
  then show ?thesis using assms(1) by (simp add: claimAvailableJobs_def worker_ok_def)
next
  case True
  obtain res db where claim: "ClaimNextResolveJob env (wc_tenant_id cfg) now (ws_db w) = (res, db)" by fastforce
  have idle: "worker_ok cfg env0 (w\<lparr>ws_db := db, ws_claiming := False\<rparr>)"
  proof -
    have "apply_op env (Claim (wc_tenant_id cfg) now) (ws_db w) = (case_sum Failed Claimed res, db)"
      using claim by simp
    from op_keeps_worker_ok [OF assms _ this, of "ws_running w" False] assms(1) show ?thesis
      by (auto simp: worker_ok_def)
  qed
  show ?thesis
  proof (cases "\<exists>job. res = Inr (Some job)")
    case some: True
    then obtain job where "res = Inr (Some job)" by blast
    with claim_keeps_worker_ok [OF assms, of "wc_tenant_id cfg" now job db] claim True show ?thesis
      by (simp add: claimAvailableJobs_def)
  next
    case False
    then have "claimAvailableJobs cfg env now w = w\<lparr>ws_db := db, ws_claiming := False\<rparr>"
      using claim True by (cases res) (auto simp: claimAvailableJobs_def split: option.split)
    with idle show ?thesis by simp
  qed
qed

lemma resolve_op_reports: "reports (resolve_op cfg host now job) = Some (request_key job)"
  "op_canonical (resolve_op cfg host now job)"
  by (simp_all add: resolve_op_def split: sum.split prod.split)

lemma step_keeps_worker_ok:
  assumes "worker_step cfg env0 w w'" "inj (ge_uuid env0)" "worker_ok cfg env0 w"
  shows "worker_ok cfg env0 w'"
  using assms(1)
proof cases
  case wake
  then show ?thesis using assms(3) by (simp add: worker_ok_def)
next
  case (round env now)
  then show ?thesis using round_keeps_worker_ok [OF assms(3,2)] by simp
next
  case (finish before job after env host now res db)
  have "worker_ok cfg env0 (w\<lparr>ws_db := db, ws_running := before @ after, ws_claiming := ws_claiming w\<rparr>)"
    using finish assms(3)
    by (intro op_keeps_worker_ok [OF assms(3,2) finish(3) resolve_op_reports(2) finish(4) [unfolded resolveJob_def]])
      (auto simp: resolve_op_reports worker_ok_def)
  then show ?thesis by (simp add: finish(1))
next
  case (other env op res db)
  have "worker_ok cfg env0 (w\<lparr>ws_db := db, ws_running := ws_running w, ws_claiming := ws_claiming w\<rparr>)"
    using other assms(3) by (intro op_keeps_worker_ok [OF assms(3,2) other(2,3,5)]) (auto simp: worker_ok_def)
  then show ?thesis by (simp add: other(1))
qed

lemma reachable_worker_ok:
  assumes "worker_reachable cfg env0 w" "inj (ge_uuid env0)" "0 \<le> wc_concurrency cfg"
  shows "worker_ok cfg env0 w"
  using assms
proof (induction rule: worker_reachable.induct)
  case (start cfg env0)
  then show ?case by (simp add: worker_ok_def graph_ok_empty abs_empty)
next
  case (step cfg env0 w w')
  then show ?case by (blast intro: step_keeps_worker_ok)
qed

section \<open>A parsed lockfile is stored\<close>

lemma sql_ok: "ge_fault env = (\<lambda>_. None) \<Longrightarrow> sql env stage a = Inr a"
  by (simp add: sql_def)

lemma insert_nodes_succeed:
  assumes "ge_fault env = (\<lambda>_. None)" "\<And>c. \<exists>x. ge_marshal env c = Inr x" "distinct (map node_artifact nodes)"
    "\<forall>n \<in> set (gdb_nodes db). node_root_id n = rid \<longrightarrow> node_artifact n \<notin> node_artifact ` set nodes"
    "\<forall>s \<in> set (gdb_summaries db). sr_root_id s = rid \<longrightarrow> sr_artifact s \<notin> node_artifact ` set nodes"
  shows "\<exists>ids' db'. insertDependencyGraphNodes env req rid nodes ids db = Inr (ids', db') \<and>
    dom (map_of ids') = dom (map_of ids) \<union> node_key ` set nodes"
  using assms(3-5)
proof (induction nodes arbitrary: ids db)
  case (Cons node nodes)
  let ?db1 = "node_added (ge_uuid env) rid node db" and ?i = "ge_uuid env (gdb_drawn db)"
  let ?c = "NormalizeContext (ge_sha256_hex env) (dependencyContextForNode rid node)"
  obtain data where data: "ge_marshal env (NormalizeContext (ge_sha256_hex env) ?c) = Inr data" using assms(2) by blast
  let ?db2 = "?db1\<lparr>gdb_summaries := gdb_summaries db @
    [\<lparr>sr_root_id = rid, sr_tenant_id = resolve_tenant_id req, sr_upstream_id = up_id (resolve_upstream req),
      sr_artifact = node_artifact node, sr_context = data\<rparr>]\<rparr>"
  have "insert_node env rid node db = Inr (?i, ?db1)"
    using Cons.prems(2) by (auto simp: sql_ok [OF assms(1)] insert_node_def node_added_def stored_node_def Let_def)
  moreover have "insertDependencyContextSummary env req rid (node_artifact node) ?c ?db1 = Inr ?db2"
    using Cons.prems(3)
    by (auto simp: sql_ok [OF assms(1)] insertDependencyContextSummary_def data node_added_def)
  moreover have "\<exists>ids' db'. insertDependencyGraphNodes env req rid nodes (AList.update (node_key node) ?i ids) ?db2 = Inr (ids', db') \<and>
      dom (map_of ids') = dom (map_of (AList.update (node_key node) ?i ids)) \<union> node_key ` set nodes"
    using Cons.prems by (intro Cons.IH) (auto simp: node_added_def stored_node_def)
  moreover have "dom (map_of (AList.update (node_key node) ?i ids)) = insert (node_key node) (dom (map_of ids))"
    by (auto simp: update_conv')
  ultimately show ?case by auto
qed simp

lemma insert_edges_succeed:
  assumes "ge_fault env = (\<lambda>_. None)"
    "\<forall>e \<in> set edges. edge_parent_node_id e \<in> dom (map_of ids) \<and> edge_child_node_id e \<in> dom (map_of ids) \<and>
       edge_dependency_type e \<in> edge_types"
  shows "\<exists>db'. insertDependencyGraphEdges env rid ids edges db = Inr db'"
  using assms(2)
proof (induction edges arbitrary: db)
  case (Cons e edges)
  then obtain p c where pc: "map_of ids (edge_parent_node_id e) = Some p" "map_of ids (edge_child_node_id e) = Some c"
    by auto
  have "\<exists>db1. insert_edge env rid p c (edge_dependency_type e) db = Inr db1"
    using Cons.prems by (simp add: sql_ok [OF assms(1)] insert_edge_def)
  then obtain db1 where "insert_edge env rid p c (edge_dependency_type e) db = Inr db1" ..
  with pc Cons.IH [of db1] Cons.prems show ?case by simp
qed simp

lemma complete_succeeds:
  assumes "ge_fault env = (\<lambda>_. None)" "\<And>c. \<exists>x. ge_marshal env c = Inr x" "graph_ok uuid db"
    "abs_db db (request_key req) \<noteq> None" "distinct (map node_artifact nodes)"
    "\<forall>e \<in> set edges. edge_parent_node_id e \<in> node_key ` set nodes \<and> edge_child_node_id e \<in> node_key ` set nodes \<and>
       edge_dependency_type e \<in> edge_types"
  shows "fst (CompleteResolve env req nodes edges hash db) = Inr ()"
proof -
  note sql = sql_ok [OF assms(1)]
  obtain r where r: "List.find (\<lambda>r. row_key r = request_key req) (gdb_roots db) = Some r"
    using assms(4) by (auto simp: abs_db_def)
  have root: "dependencyGraphRootID env req db = Inr (rr_id r)" by (simp add: dependencyGraphRootID_def sql r)
  have clear: "clearDependencyGraph env (rr_id r) db = Inr (cleared (rr_id r) db)"
    by (simp add: clearDependencyGraph_def sql cleared_def node_ids_of_def Let_def)
  have gone: "\<forall>n \<in> set (gdb_nodes (cleared (rr_id r) db)). node_root_id n \<noteq> rr_id r"
    "\<forall>s \<in> set (gdb_summaries (cleared (rr_id r) db)). sr_root_id s \<noteq> rr_id r"
    by (simp_all add: cleared_def)
  obtain ids db2 where nodes: "insertDependencyGraphNodes env req (rr_id r) nodes [] (cleared (rr_id r) db) = Inr (ids, db2)"
    "dom (map_of ids) = node_key ` set nodes"
    using insert_nodes_succeed [OF assms(1,2,5), of "cleared (rr_id r) db" "rr_id r" req "[]"] gone by auto
  obtain db3 where edges: "insertDependencyGraphEdges env (rr_id r) ids edges db2 = Inr db3"
    using insert_edges_succeed [OF assms(1), of edges ids "rr_id r" db2] assms(6) nodes(2) by auto
  show ?thesis
    by (simp add: CompleteResolve_def transaction_def root clear nodes(1) edges sql markDependencyGraphComplete_def)
qed

lemma parsed_graph_accepted:
  assumes "valid_order ord" "ParsePackageLock ord unmarshal marshal sha rt data = Inr (nodes, edges, hash)"
  shows "distinct (map node_artifact nodes)"
    "\<forall>e \<in> set edges. edge_parent_node_id e \<in> node_key ` set nodes \<and> edge_child_node_id e \<in> node_key ` set nodes \<and>
       edge_dependency_type e \<in> edge_types"
proof -
  note p = parsed_graph [OF assms]
  have keys: "node_key n = node_id n" if "n \<in> set nodes" for n
    using p(1) [OF that] by (simp add: node_key_def CacheKey_def)
  then have "node_key ` set nodes = node_id ` set nodes" by (simp cong: image_cong)
  with p(2,4) show "\<forall>e \<in> set edges. edge_parent_node_id e \<in> node_key ` set nodes \<and>
      edge_child_node_id e \<in> node_key ` set nodes \<and> edge_dependency_type e \<in> edge_types"
    by (fastforce simp: edge_types_def)
  have "map node_id nodes = map CacheKey (map node_artifact nodes)" using p(1) by simp
  with p(3) show "distinct (map node_artifact nodes)" by (metis distinct_map)
qed

section \<open>Properties\<close>


definition sample_config :: worker_config where
  "sample_config = \<lparr>wc_enabled = True, wc_tenant_id = [], wc_poll_interval = 0, wc_timeout = 0, wc_concurrency = 0,
     wc_retry_delay = 0\<rparr>"

definition sample_queue :: worker_state where
  "sample_queue = \<lparr>ws_db = snd (apply_op sample_env (Enqueue (sample_job ''left'')) empty_db), ws_claiming = True, ws_running = []\<rparr>"

definition sample_busy :: worker_state where
  "sample_busy = claimAvailableJobs (effective_config sample_config) sample_env 9 sample_queue"

lemma sample_busy_reachable: "worker_reachable (effective_config sample_config) sample_env sample_busy"
proof -
  let ?c = "effective_config sample_config" and ?w = "\<lparr>ws_db = empty_db, ws_claiming = True, ws_running = []\<rparr>"
  have same: "same_store sample_env sample_env" by (simp add: same_store_def)
  have "worker_reachable ?c sample_env ?w"
    using worker_reachable.step [OF worker_reachable.start worker_step.wake] by simp
  moreover have "worker_step ?c sample_env ?w sample_queue"
  proof -
    have "op_canonical (Enqueue (sample_job ''left''))" by code_simp
    from worker_step.other [OF same this, of ?w] show ?thesis
      by (simp add: sample_queue_def del: apply_op.simps) (metis surjective_pairing)
  qed
  moreover have "worker_step ?c sample_env sample_queue sample_busy"
    unfolding sample_busy_def by (rule worker_step.round [OF _ same]) (simp add: sample_queue_def)
  ultimately show ?thesis by (blast intro: worker_reachable.step)
qed


text \<open>C19. What the resolver computes can be stored: when the database works, the context codec encodes every
  context and the job is in the table, completing the job with any graph parsed from a lockfile succeeds,
  and the table then holds exactly this graph for the job.\<close>

theorem parsed_graph_stored:
  assumes "valid_order ord" "ParsePackageLock ord unmarshal marshal sha (resolve_root req) data = Inr (nodes, edges, hash)"
    and "ge_fault env = (\<lambda>_. None)" "\<forall>c. \<exists>x. ge_marshal env c = Inr x" "inj (ge_uuid env)"
    and "graph_ok (ge_uuid env) db" "abs_db db (request_key req) \<noteq> None"
  shows "\<exists>db'. CompleteResolve env req nodes edges hash db = (Inr (), db') \<and>
    abs_db db' = (abs_db db)(request_key req \<mapsto> completed_graph nodes edges hash)"
proof -
  obtain db' where run: "CompleteResolve env req nodes edges hash db = (Inr (), db')"
    using complete_succeeds [OF assms(3) _ assms(6,7) parsed_graph_accepted [OF assms(1,2)], of hash] assms(4)
    by (cases "CompleteResolve env req nodes edges hash db") auto
  from complete_refines [OF assms(6) refl assms(5) run]
  have "spec_step (Complete req nodes edges hash) Done (abs_db db) (abs_db db')" by simp
  then have "abs_db db' = (abs_db db)(request_key req \<mapsto> completed_graph nodes edges hash)"
    by (cases rule: spec_step.cases) auto
  with run show ?thesis by blast
qed

definition sample_total :: graph_env where
  "sample_total = sample_env\<lparr>ge_marshal := \<lambda>_. Inr ''data''\<rparr>"

definition sample_parse :: dependency_graph_resolve_request where
  "sample_parse = (sample_job ''x'')\<lparr>resolve_root := sample_npm\<rparr>"

theorem parsed_graph_stored_witness:
  "\<exists>nodes edges hash db'. sample_run in_order = Inr (nodes, edges, hash) \<and>
     CompleteResolve sample_total sample_parse nodes edges hash
       (snd (EnqueueResolve sample_total sample_parse empty_db)) = (Inr (), db')"
proof -
  let ?db = "snd (EnqueueResolve sample_total sample_parse empty_db)"
  obtain nodes edges hash where run: "sample_run in_order = Inr (nodes, edges, hash)"
    using sample_run_result by (elim exE conjE)
  have inj: "inj (ge_uuid sample_total)" using sample_uuid by (simp add: sample_total_def)
  have ok: "graph_ok (ge_uuid sample_total) ?db" by (rule enqueue_ok [OF graph_ok_empty refl inj])
  have "List.find (\<lambda>r. row_key r = request_key sample_parse) (gdb_roots ?db) \<noteq> None" by code_simp
  then have row: "abs_db ?db (request_key sample_parse) \<noteq> None" by (simp add: abs_db_def)
  have "resolve_root sample_parse = sample_npm" "ge_fault sample_total = (\<lambda>_. None)"
    "\<forall>c. \<exists>x. ge_marshal sample_total c = Inr x"
    by (simp_all add: sample_parse_def sample_total_def sample_env_def)
  with parsed_graph_stored [OF valid_orders(1), of _ _ _ sample_parse, OF _ _ _ inj ok row] run
  show ?thesis unfolding sample_run_def by metis
qed

text \<open>No wake-up is lost and none panics: in every interleaving of notifications, subscriptions,
  cancellations and receives, notifying a tenant succeeds, and every subscriber of the tenant or of all
  tenants then has a signal buffered until it receives one.\<close>

lemma notify_keeps_signals:
  assumes "notifier_run NewDependencyGraphJobNotifier history n"
  shows "\<exists>n'. Notify t n = Some n' \<and>
    (\<forall>c s es n''. (c, s) \<in> set (nt_subscribers n) \<longrightarrow> s = ''*'' \<or> s = t \<longrightarrow> notifier_run n' es n'' \<longrightarrow>
       Received c \<notin> set es \<longrightarrow> nt_signal n'' c)"
proof -
  have ok: "notifier_ok n" by (rule run_notifier_ok [OF assms new_notifier_ok])
  let ?n = "n\<lparr>nt_signal := (\<lambda>c. nt_signal n c \<or> (\<exists>s. (c, s) \<in> set (nt_subscribers n) \<and> (s = ''*'' \<or> s = t)))\<rparr>"
  have run: "Notify t n = Some ?n" by (rule Notify_run [OF ok])
  have ok': "notifier_ok ?n" by (rule step_notifier_ok [OF notifier_step.notify [OF run] ok])
  have "nt_signal n'' c" if "(c, s) \<in> set (nt_subscribers n)" "s = ''*'' \<or> s = t" "notifier_run ?n es n''" "Received c \<notin> set es"
    for c s es n''
    using that(1,2) by (intro run_keeps_signal [OF that(3) ok' _ that(4)]) auto
  with run show ?thesis by blast
qed

definition sample_mixed :: graph_db where
  "sample_mixed = snd (apply_op sample_env (Enqueue (sample_job ''JSONStream'')) empty_db)"

lemma sample_mixed_claim:
  "fst (apply_op sample_env (Claim ''*'' 9) sample_mixed) = Claimed (Some (sample_job ''jsonstream''))"
  by code_simp

lemma sample_mixed_row:
  "map_option rr_status (List.find (\<lambda>r. row_key r = request_key (sample_job ''JSONStream''))
     (gdb_roots (snd (apply_op sample_env (Claim ''*'' 9) sample_mixed)))) = Some DependencyGraphResolving"
  by code_simp

lemma sample_mixed_keys: "request_key (sample_job ''jsonstream'') \<noteq> request_key (sample_job ''JSONStream'')"
  by code_simp


end
