(* ===== verification/Ingest_Service.thy ===== *)
theory Ingest_Service
  imports Graph_Worker
begin

text \<open>
  The control-plane side of the proxies: \<open>service/ingest.go\<close> (persistence on behalf of proxies and
  workers), \<open>service/install_snapshot.go\<close> with \<open>domain/install_snapshot.go\<close> (root inference from npm
  install snapshots) and \<open>service/evaluation.go\<close>.

  The services run over ports as in the access pipeline; a nil port is \<^const>\<open>None\<close>. The manifest lister
  of the snapshot service is a function of the package: its calls run concurrently and only their union
  and the number of failures are used. \<open>inspected\<close> is the number of packages looked at before the context
  was cancelled.

  The last section connects the services with the graph store and the notifier: an accepted enqueue
  leaves a pending job and a signal for every worker of the tenant, and a processed snapshot adds
  exactly the jobs of the inferred roots.
\<close>

section \<open>Proxy ingest\<close>

text \<open>Recording writes generated fields into the record it is given: the ports return the record as it is then.\<close>

record 's decision_repository =
  drp_record :: "decision \<Rightarrow> ('s, decision result) state"
  drp_get_by_artifact :: "string \<Rightarrow> artifact_identity \<Rightarrow> ('s, decision result) state"
  drp_list_by_tenant :: "string \<Rightarrow> int \<Rightarrow> int \<Rightarrow> string \<Rightarrow> ('s, decision list result) state"
  drp_has_recent_allow :: "string \<Rightarrow> ecosystem_type \<Rightarrow> string \<Rightarrow> string \<Rightarrow> ('s, bool result) state"

record 's graph_resolver =
  grs_claim :: "string \<Rightarrow> time \<Rightarrow> ('s, dependency_graph_resolve_request option result) state"
  grs_complete :: "dependency_graph_resolve_request \<Rightarrow> dependency_graph_node list \<Rightarrow> dependency_graph_edge list \<Rightarrow> string \<Rightarrow> ('s, unit result) state"
  grs_fail :: "dependency_graph_resolve_request \<Rightarrow> string \<Rightarrow> time \<Rightarrow> ('s, unit result) state"

text \<open>A graph queue and the further interfaces it implements.\<close>

record 's graph_backend =
  gbe_enqueue :: "dependency_graph_resolve_request \<Rightarrow> ('s, bool result) state"
  gbe_resolver :: "'s graph_resolver option"
  gbe_lookup_context :: "(dependency_context_summary_key \<Rightarrow> ('s, dependency_context result) state) option"

record 's job_notifier =
  jnt_notify :: "string \<Rightarrow> ('s, unit) state"
  jnt_watch :: "string \<Rightarrow> ('s, nat) state"

record 's proxy_ingest_service =
  ing_decisions :: "'s decision_repository option"
  ing_audits :: "(audit_event \<Rightarrow> ('s, audit_event result) state) option"
  ing_graphs :: "(dependency_graph_resolve_request \<Rightarrow> ('s, bool result) state) option"
  ing_resolver :: "'s graph_resolver option"
  ing_contexts :: "(dependency_context_summary_key \<Rightarrow> ('s, dependency_context result) state) option"
  ing_notifier :: "'s job_notifier option"

definition NewProxyIngestService ::
  "'s decision_repository option \<Rightarrow> (audit_event \<Rightarrow> ('s, audit_event result) state) option \<Rightarrow> 's graph_backend option \<Rightarrow>
   's job_notifier option \<Rightarrow> 's proxy_ingest_service" where
  "NewProxyIngestService decisions audits graphs nt =
     \<lparr>ing_decisions = decisions, ing_audits = audits, ing_graphs = map_option gbe_enqueue graphs,
      ing_resolver = Option.bind graphs gbe_resolver, ing_contexts = Option.bind graphs gbe_lookup_context,
      ing_notifier = nt\<rparr>"

definition fails :: "string \<Rightarrow> ('s, 'a result) state" where
  "fails message = State_Monad.return (Inl (plain_error message))"

definition RecordDecision :: "'s proxy_ingest_service \<Rightarrow> decision option \<Rightarrow> ('s, decision result) state" where
  "RecordDecision svc d =
     (case ing_decisions svc of
        None \<Rightarrow> fails ''recording decision: repository unavailable''
      | Some repo \<Rightarrow>
          (case d of
             None \<Rightarrow> fails ''recording decision: decision is required''
           | Some decision \<Rightarrow>
               if trim_space (dec_tenant_id decision) = [] then fails ''recording decision: tenant_id is required''
               else drp_record repo decision))"

definition GetDecisionByArtifact ::
  "'s proxy_ingest_service \<Rightarrow> string \<Rightarrow> artifact_identity \<Rightarrow> ('s, decision result) state" where
  "GetDecisionByArtifact svc tenantID artifact =
     (case ing_decisions svc of
        None \<Rightarrow> fails ''getting decision by artifact: repository unavailable''
      | Some repo \<Rightarrow>
          if trim_space tenantID = [] then fails ''getting decision by artifact: tenant_id is required''
          else drp_get_by_artifact repo tenantID artifact)"

definition ListDecisionsByTenant ::
  "'s proxy_ingest_service \<Rightarrow> string \<Rightarrow> int \<Rightarrow> int \<Rightarrow> string \<Rightarrow> ('s, decision list result) state" where
  "ListDecisionsByTenant svc tenantID limit offset search =
     (case ing_decisions svc of
        None \<Rightarrow> fails ''listing decisions: repository unavailable''
      | Some repo \<Rightarrow>
          if trim_space tenantID = [] then fails ''listing decisions: tenant_id is required''
          else drp_list_by_tenant repo tenantID limit offset search)"

definition IngestHasRecentAllow ::
  "'s proxy_ingest_service \<Rightarrow> string \<Rightarrow> ecosystem_type \<Rightarrow> string \<Rightarrow> string \<Rightarrow> ('s, bool result) state" where
  "IngestHasRecentAllow svc tenantID ecosystem namespace name =
     (case ing_decisions svc of
        None \<Rightarrow> fails ''checking recent allow: repository unavailable''
      | Some repo \<Rightarrow>
          if trim_space tenantID = [] then fails ''checking recent allow: tenant_id is required''
          else drp_has_recent_allow repo tenantID ecosystem namespace name)"

definition RecordAuditEvent :: "'s proxy_ingest_service \<Rightarrow> audit_event option \<Rightarrow> ('s, audit_event result) state" where
  "RecordAuditEvent svc ev =
     (case ing_audits svc of
        None \<Rightarrow> fails ''recording audit event: recorder unavailable''
      | Some recorder \<Rightarrow>
          (case ev of
             None \<Rightarrow> fails ''recording audit event: event is required''
           | Some event \<Rightarrow>
               if trim_space (ev_tenant_id event) = [] then fails ''recording audit event: tenant_id is required''
               else recorder event))"

text \<open>\<open>Notify\<close> accepts a nil notifier.\<close>

definition EnqueueDependencyGraphResolve ::
  "'s proxy_ingest_service \<Rightarrow> dependency_graph_resolve_request \<Rightarrow> ('s, bool result) state" where
  "EnqueueDependencyGraphResolve svc req =
     (case ing_graphs svc of
        None \<Rightarrow> fails ''enqueueing dependency graph resolve: queue unavailable''
      | Some enqueue \<Rightarrow>
          if trim_space (resolve_tenant_id req) = [] then
            fails ''enqueueing dependency graph resolve: tenant_id is required''
          else
            do {
              r \<leftarrow> enqueue req;
              _ \<leftarrow> (case (r, ing_notifier svc) of
                 (Inr True, Some nt) \<Rightarrow> jnt_notify nt (resolve_tenant_id req)
               | _ \<Rightarrow> State_Monad.return ());
              State_Monad.return r
            })"

definition WatchDependencyGraphResolve :: "'s proxy_ingest_service \<Rightarrow> string \<Rightarrow> ('s, nat result) state" where
  "WatchDependencyGraphResolve svc tenantID =
     (case ing_notifier svc of
        None \<Rightarrow> fails ''watching dependency graph resolve: notifier unavailable''
      | Some nt \<Rightarrow>
          if trim_space tenantID = [] then fails ''watching dependency graph resolve: tenant_id is required''
          else do { c \<leftarrow> jnt_watch nt tenantID; State_Monad.return (Inr c) })"

definition LookupDependencyGraphContext ::
  "'s proxy_ingest_service \<Rightarrow> dependency_context_summary_key \<Rightarrow> ('s, dependency_context result) state" where
  "LookupDependencyGraphContext svc key =
     (case ing_contexts svc of
        None \<Rightarrow> fails ''looking up dependency graph context: lookup unavailable''
      | Some lookup \<Rightarrow>
          if trim_space (summary_tenant_id key) = [] then
            fails ''looking up dependency graph context: tenant_id is required''
          else lookup key)"

definition ClaimDependencyGraphResolve ::
  "'s proxy_ingest_service \<Rightarrow> 's runtime \<Rightarrow> string \<Rightarrow> time \<Rightarrow> ('s, dependency_graph_resolve_request option result) state" where
  "ClaimDependencyGraphResolve svc rt tenantID now =
     (case ing_resolver svc of
        None \<Rightarrow> fails ''claiming dependency graph resolve: resolver unavailable''
      | Some resolver \<Rightarrow>
          if trim_space tenantID = [] then fails ''claiming dependency graph resolve: tenant_id is required''
          else
            do {
              clock \<leftarrow> time_now rt;
              grs_claim resolver tenantID (if now = zero_time then clock else now)
            })"

definition CompleteDependencyGraphResolve ::
  "'s proxy_ingest_service \<Rightarrow> dependency_graph_resolve_request \<Rightarrow> dependency_graph_node list \<Rightarrow>
   dependency_graph_edge list \<Rightarrow> string \<Rightarrow> ('s, unit result) state" where
  "CompleteDependencyGraphResolve svc req nodes edges hash =
     (case ing_resolver svc of
        None \<Rightarrow> fails ''completing dependency graph resolve: resolver unavailable''
      | Some resolver \<Rightarrow>
          if trim_space (resolve_tenant_id req) = [] then
            fails ''completing dependency graph resolve: tenant_id is required''
          else if trim_space hash = [] then fails ''completing dependency graph resolve: graph_hash is required''
          else grs_complete resolver req nodes edges hash)"

definition FailDependencyGraphResolve ::
  "'s proxy_ingest_service \<Rightarrow> dependency_graph_resolve_request \<Rightarrow> string \<Rightarrow> time \<Rightarrow> ('s, unit result) state" where
  "FailDependencyGraphResolve svc req message retryAfter =
     (case ing_resolver svc of
        None \<Rightarrow> fails ''failing dependency graph resolve: resolver unavailable''
      | Some resolver \<Rightarrow>
          if trim_space (resolve_tenant_id req) = [] then
            fails ''failing dependency graph resolve: tenant_id is required''
          else if retryAfter = zero_time then fails ''failing dependency graph resolve: retry_after is required''
          else grs_fail resolver req message retryAfter)"

text \<open>\<open>EvaluationService.ListByTenant\<close>\<close>

definition ListEvaluations ::
  "'s decision_repository \<Rightarrow> string \<Rightarrow> int \<Rightarrow> int \<Rightarrow> string \<Rightarrow> ('s, decision list result) state" where
  "ListEvaluations repo tenantID limit offset search =
     wrapped ''listing evaluations'' (drp_list_by_tenant repo tenantID limit offset search)"

section \<open>Install snapshots\<close>

record npm_install_snapshot =
  snap_tenant_id :: string
  snap_upstream :: upstream
  snap_packages :: "artifact_identity list"
  snap_observed_at :: time

definition snapshotMaxPackages :: nat where "snapshotMaxPackages = 5000"

definition dedupeSnapshotPackages :: "artifact_identity list \<Rightarrow> artifact_identity list" where
  "dedupeSnapshotPackages packages =
     sort_key (\<lambda>p. (art_name p, art_version p))
       (unique_loop (\<lambda>p. trim_space (art_name p) = [] \<or> trim_space (art_version p) = [])
          (\<lambda>p. art_name p @ ''@'' @ art_version p) {} packages)"

type_synonym manifest_lister = "upstream \<Rightarrow> artifact_identity \<Rightarrow> string list result"

definition collectDependencyNames ::
  "manifest_lister \<Rightarrow> nat \<Rightarrow> upstream \<Rightarrow> artifact_identity list \<Rightarrow> string set \<times> nat" where
  "collectDependencyNames manifests inspected up packages =
     (let results = map (manifests up) (take inspected packages)
      in (\<Union> (set (map (\<lambda>r. case r of Inr names \<Rightarrow> set names | Inl _ \<Rightarrow> {}) results)),
          length (filter isl results)))"

record 's npm_install_snapshot_service =
  iss_manifests :: "manifest_lister option"
  iss_queue :: "(dependency_graph_resolve_request \<Rightarrow> ('s, bool result) state) option"

definition snapshot_request :: "npm_install_snapshot \<Rightarrow> time \<Rightarrow> artifact_identity \<Rightarrow> dependency_graph_resolve_request" where
  "snapshot_request snapshot requestedAt pkg =
     \<lparr>resolve_tenant_id = snap_tenant_id snapshot, resolve_upstream = snap_upstream snapshot, resolve_root = pkg,
      resolve_requested_at = requestedAt\<rparr>"

fun enqueue_roots ::
  "(dependency_graph_resolve_request \<Rightarrow> ('s, bool result) state) \<Rightarrow> npm_install_snapshot \<Rightarrow> time \<Rightarrow>
   artifact_identity list \<Rightarrow> ('s, unit) state" where
  "enqueue_roots enqueue snapshot requestedAt [] = State_Monad.return ()"
| "enqueue_roots enqueue snapshot requestedAt (pkg # pkgs) =
     do {
       _ \<leftarrow> enqueue (snapshot_request snapshot requestedAt pkg);
       enqueue_roots enqueue snapshot requestedAt pkgs
     }"

definition infer_roots :: "manifest_lister \<Rightarrow> nat \<Rightarrow> npm_install_snapshot \<Rightarrow> artifact_identity list" where
  "infer_roots manifests inspected snapshot =
     (let packages = take snapshotMaxPackages (dedupeSnapshotPackages (snap_packages snapshot));
          (dependedOn, fetchFailures) = collectDependencyNames manifests inspected (snap_upstream snapshot) packages;
          roots = filter (\<lambda>p. art_name p \<notin> dependedOn) packages
      in if 0 < fetchFailures \<and> 1 < length packages \<and> length roots = length packages then [] else roots)"

definition ProcessSnapshot ::
  "'s npm_install_snapshot_service \<Rightarrow> 's runtime \<Rightarrow> nat \<Rightarrow> npm_install_snapshot \<Rightarrow> ('s, artifact_identity list result) state" where
  "ProcessSnapshot svc rt inspected snapshot =
     (case (iss_manifests svc, iss_queue svc) of
        (Some manifests, Some enqueue) \<Rightarrow>
          if dedupeSnapshotPackages (snap_packages snapshot) = [] then State_Monad.return (Inr [])
          else
            do {
              clock \<leftarrow> time_now rt;
              let roots = infer_roots manifests inspected snapshot;
              _ \<leftarrow> enqueue_roots enqueue snapshot
                (if snap_observed_at snapshot = zero_time then clock else snap_observed_at snapshot) roots;
              State_Monad.return (Inr roots)
            }
      | _ \<Rightarrow> State_Monad.return (Inr []))"

section \<open>Over the graph store and the notifier\<close>

record control_state =
  cps_db :: graph_db
  cps_notifier :: notifier
  cps_panicked :: bool

definition store_backend :: "graph_env \<Rightarrow> control_state graph_backend" where
  "store_backend env =
     \<lparr>gbe_enqueue = (\<lambda>req. State (\<lambda>s. case EnqueueResolve env req (cps_db s) of (r, db) \<Rightarrow> (r, s\<lparr>cps_db := db\<rparr>))),
      gbe_resolver = Some
        \<lparr>grs_claim = (\<lambda>t now. State (\<lambda>s. case ClaimNextResolveJob env t now (cps_db s) of (r, db) \<Rightarrow> (r, s\<lparr>cps_db := db\<rparr>))),
         grs_complete = (\<lambda>req ns es h. State (\<lambda>s. case CompleteResolve env req ns es h (cps_db s) of (r, db) \<Rightarrow> (r, s\<lparr>cps_db := db\<rparr>))),
         grs_fail = (\<lambda>req m t. State (\<lambda>s. case FailResolve env req m t (cps_db s) of (r, db) \<Rightarrow> (r, s\<lparr>cps_db := db\<rparr>)))\<rparr>,
      gbe_lookup_context = Some (\<lambda>key. State (\<lambda>s. (LookupContext env key (cps_db s), s)))\<rparr>"

definition store_notifier :: "control_state job_notifier" where
  "store_notifier =
     \<lparr>jnt_notify = (\<lambda>t. State (\<lambda>s. case Notify t (cps_notifier s) of
          None \<Rightarrow> ((), s\<lparr>cps_panicked := True\<rparr>) | Some n \<Rightarrow> ((), s\<lparr>cps_notifier := n\<rparr>))),
      jnt_watch = (\<lambda>t. State (\<lambda>s. case WatchResolveJobs t (cps_notifier s) of (c, n) \<Rightarrow> (c, s\<lparr>cps_notifier := n\<rparr>)))\<rparr>"

definition store_ingest :: "graph_env \<Rightarrow> control_state proxy_ingest_service" where
  "store_ingest env = NewProxyIngestService None None (Some (store_backend env)) (Some store_notifier)"

definition pending_graph :: stored_graph where
  "pending_graph = \<lparr>sg_status = DependencyGraphPending, sg_hash = None, sg_nodes = {}, sg_edges = {}\<rparr>"

inductive_cases spec_enqueuedE: "spec_step (Enqueue req) (Enqueued b) s s'"

lemma enqueue_abs:
  assumes "graph_ok (ge_uuid env) db" "inj (ge_uuid env)" "EnqueueResolve env req db = (Inr b, db')"
  shows "b \<longleftrightarrow> abs_db db (request_key req) = None"
    "abs_db db' = (if abs_db db (request_key req) = None then (abs_db db)(request_key req \<mapsto> pending_graph) else abs_db db)"
proof -
  have "spec_step (Enqueue req) (Enqueued b) (abs_db db) (abs_db db')"
    using enqueue_refines [OF assms(1) refl assms(2), of req] assms(3) by simp
  then have "(b \<longleftrightarrow> abs_db db (request_key req) = None) \<and>
      abs_db db' = (if abs_db db (request_key req) = None then (abs_db db)(request_key req \<mapsto> pending_graph) else abs_db db)"
    by (cases rule: spec_step.cases) (auto simp: pending_graph_def)
  then show "b \<longleftrightarrow> abs_db db (request_key req) = None"
    "abs_db db' = (if abs_db db (request_key req) = None then (abs_db db)(request_key req \<mapsto> pending_graph) else abs_db db)"
    by simp_all
qed

lemma enqueue_Inr:
  assumes "ge_fault env = (\<lambda>_. None)" "FullName (resolve_root req) \<noteq> []" "art_version (resolve_root req) \<noteq> []"
  shows "\<exists>b db'. EnqueueResolve env req db = (Inr b, db')"
  using assms by (auto simp: EnqueueResolve_def Let_def sql_ok transaction_def)

lemma enqueue_roots_run:
  assumes "inj (ge_uuid env)" "ge_fault env = (\<lambda>_. None)"
    "\<forall>p \<in> set pkgs. art_name p \<noteq> [] \<and> art_version p \<noteq> []" "graph_ok (ge_uuid env) (cps_db s)"
  shows "\<exists>db'. snd (run_state (enqueue_roots (gbe_enqueue (store_backend env)) snapshot t pkgs) s) = s\<lparr>cps_db := db'\<rparr> \<and>
    graph_ok (ge_uuid env) db' \<and>
    abs_db db' = (\<lambda>k. if abs_db (cps_db s) k = None \<and> k \<in> (request_key \<circ> snapshot_request snapshot t) ` set pkgs
      then Some pending_graph else abs_db (cps_db s) k)"
  using assms(3,4)
proof (induction pkgs arbitrary: s)
  case Nil
  then show ?case by (intro exI [of _ "cps_db s"]) simp
next
  case (Cons pkg pkgs)
  let ?req = "snapshot_request snapshot t pkg"
  have "FullName (resolve_root ?req) \<noteq> []" "art_version (resolve_root ?req) \<noteq> []"
    using Cons.prems(1) by (simp_all add: snapshot_request_def FullName_def)
  then obtain b db1 where enq: "EnqueueResolve env ?req (cps_db s) = (Inr b, db1)"
    using enqueue_Inr [OF assms(2)] by blast
  have ok1: "graph_ok (ge_uuid env) db1" using enqueue_ok [OF Cons.prems(2) refl assms(1), of ?req] by (simp add: enq)
  note abs1 = enqueue_abs(2) [OF Cons.prems(2) assms(1) enq]
  obtain db' where db': "snd (run_state (enqueue_roots (gbe_enqueue (store_backend env)) snapshot t pkgs) (s\<lparr>cps_db := db1\<rparr>)) = s\<lparr>cps_db := db'\<rparr>"
    "graph_ok (ge_uuid env) db'"
    "abs_db db' = (\<lambda>k. if abs_db db1 k = None \<and> k \<in> (request_key \<circ> snapshot_request snapshot t) ` set pkgs
      then Some pending_graph else abs_db db1 k)"
    using Cons.IH [of "s\<lparr>cps_db := db1\<rparr>"] Cons.prems(1) ok1 by (auto cong: if_cong)
  have "snd (run_state (enqueue_roots (gbe_enqueue (store_backend env)) snapshot t (pkg # pkgs)) s) = s\<lparr>cps_db := db'\<rparr>"
    using db'(1) by (simp add: store_backend_def enq)
  moreover have "abs_db db' = (\<lambda>k. if abs_db (cps_db s) k = None \<and> k \<in> (request_key \<circ> snapshot_request snapshot t) ` set (pkg # pkgs)
      then Some pending_graph else abs_db (cps_db s) k)"
    unfolding db'(3) abs1 by (auto simp: fun_eq_iff)
  ultimately show ?case using db'(2) by blast
qed

lemma infer_roots_subset:
  assumes "p \<in> set (infer_roots manifests inspected snapshot)"
  shows "p \<in> set (snap_packages snapshot)" "art_name p \<noteq> []" "art_version p \<noteq> []"
proof -
  from assms have "p \<in> set (dedupeSnapshotPackages (snap_packages snapshot))"
    by (auto simp: infer_roots_def Let_def split: prod.splits if_splits dest: in_set_takeD)
  then have "p \<in> set (snap_packages snapshot)" "trim_space (art_name p) \<noteq> []" "trim_space (art_version p) \<noteq> []"
    by (auto simp: dedupeSnapshotPackages_def dest: unique_loop_subset)
  then show "p \<in> set (snap_packages snapshot)" "art_name p \<noteq> []" "art_version p \<noteq> []"
    by (auto simp: trim_space_def trim_by_def)
qed

section \<open>Properties\<close>

text \<open>An accepted enqueue reaches the workers: when the ingest service reports a new job, the job table holds
  it as pending, the notifier has not panicked, and every worker subscribed to the tenant or to all
  tenants has a signal buffered until it receives one, whatever else happens on the notifier.\<close>

lemma enqueue_wakes_workers:
  assumes "notifier_run NewDependencyGraphJobNotifier history (cps_notifier s)"
    and "graph_ok (ge_uuid env) (cps_db s)" "inj (ge_uuid env)"
    and "run_state (EnqueueDependencyGraphResolve (store_ingest env) req) s = (Inr True, s')"
  shows "abs_db (cps_db s') = (abs_db (cps_db s))(request_key req \<mapsto> pending_graph) \<and>
    cps_panicked s' = cps_panicked s \<and>
    (\<forall>c scope es n. (c, scope) \<in> set (nt_subscribers (cps_notifier s)) \<longrightarrow> scope \<in> {''*'', resolve_tenant_id req} \<longrightarrow>
       notifier_run (cps_notifier s') es n \<longrightarrow> Received c \<notin> set es \<longrightarrow> nt_signal n c)"
proof -
  obtain n' where n': "Notify (resolve_tenant_id req) (cps_notifier s) = Some n'"
    "\<forall>c scope es n. (c, scope) \<in> set (nt_subscribers (cps_notifier s)) \<longrightarrow> scope = ''*'' \<or> scope = resolve_tenant_id req \<longrightarrow>
       notifier_run n' es n \<longrightarrow> Received c \<notin> set es \<longrightarrow> nt_signal n c"
    using notify_keeps_signals [OF assms(1), of "resolve_tenant_id req"] by blast
  obtain r db where enq: "EnqueueResolve env req (cps_db s) = (r, db)" by fastforce
  with assms(4) n'(1) have r: "r = Inr True" "s' = s\<lparr>cps_db := db, cps_notifier := n'\<rparr>"
    by (auto simp: EnqueueDependencyGraphResolve_def store_ingest_def NewProxyIngestService_def store_backend_def
        store_notifier_def fails_def split: if_splits sum.splits bool.splits)
  from enqueue_abs [OF assms(2,3) enq [unfolded r(1)]] n'(2) show ?thesis by (simp add: r(2))
qed

definition sample_control :: control_state where
  "sample_control = \<lparr>cps_db = empty_db, cps_notifier = snd (WatchResolveJobs [] NewDependencyGraphJobNotifier),
     cps_panicked = False\<rparr>"

lemma sample_control_run:
  "notifier_run NewDependencyGraphJobNotifier [Subscribed [] 0] (cps_notifier sample_control)"
proof -
  have "WatchResolveJobs [] NewDependencyGraphJobNotifier = (0, cps_notifier sample_control)"
    by (simp add: WatchResolveJobs_def NewDependencyGraphJobNotifier_def sample_control_def)
  then show ?thesis by (rule notifier_run.event [OF notifier_step.watch notifier_run.quiet])
qed

lemma enqueue_wakes_workers_witness:
  "nt_signal (cps_notifier (snd (run_state (EnqueueDependencyGraphResolve (store_ingest sample_env) (sample_job ''left''))
     sample_control))) 0"
proof -
  let ?run = "run_state (EnqueueDependencyGraphResolve (store_ingest sample_env) (sample_job ''left'')) sample_control"
  have "fst ?run = Inr True" by code_simp
  then have run: "?run = (Inr True, snd ?run)" by (simp add: prod_eq_iff)
  have ok: "graph_ok (ge_uuid sample_env) (cps_db sample_control)" by (simp add: sample_control_def graph_ok_empty)
  have "(0, ''*'') \<in> set (nt_subscribers (cps_notifier sample_control))" by code_simp
  with enqueue_wakes_workers [OF sample_control_run ok sample_uuid run] show ?thesis
    using notifier_run.quiet [of "cps_notifier (snd ?run)"] by fastforce
qed

text \<open>A processed install snapshot adds exactly the jobs of its roots: over a working store the service
  returns packages of the snapshot that no inspected manifest declares as a dependency, every returned
  root has a job afterwards, the jobs added are pending, and no existing job is touched.\<close>

lemma snapshot_adds_root_jobs:
  assumes "graph_ok (ge_uuid env) (cps_db s)" "inj (ge_uuid env)" "ge_fault env = (\<lambda>_. None)"
    and "iss_manifests svc = Some manifests" "iss_queue svc = Some (gbe_enqueue (store_backend env))"
    and "snap_observed_at snapshot \<noteq> zero_time"
    and "run_state (ProcessSnapshot svc rt inspected snapshot) s = (Inr roots, s')"
  shows "set roots \<subseteq> set (snap_packages snapshot) \<and>
    (\<forall>q names. q \<in> set (take inspected (take snapshotMaxPackages (dedupeSnapshotPackages (snap_packages snapshot)))) \<longrightarrow>
       manifests (snap_upstream snapshot) q = Inr names \<longrightarrow> art_name ` set roots \<inter> set names = {}) \<and>
    abs_db (cps_db s') = (\<lambda>k. if abs_db (cps_db s) k = None \<and>
        k \<in> (request_key \<circ> snapshot_request snapshot (snap_observed_at snapshot)) ` set roots
      then Some pending_graph else abs_db (cps_db s) k)"
proof (cases "dedupeSnapshotPackages (snap_packages snapshot) = []")
  case True
  then have "roots = []" "s' = s" using assms(4,5,7) by (auto simp: ProcessSnapshot_def)
  then show ?thesis by simp
next
  case False
  let ?roots = "infer_roots manifests inspected snapshot"
  let ?enq = "enqueue_roots (gbe_enqueue (store_backend env)) snapshot (snap_observed_at snapshot) ?roots"
  from False assms(4-7) have run: "roots = ?roots" "s' = snd (run_state ?enq s)"
    by (auto simp: ProcessSnapshot_def Let_def split: prod.splits)
  obtain db' where db': "s' = s\<lparr>cps_db := db'\<rparr>"
    "abs_db db' = (\<lambda>k. if abs_db (cps_db s) k = None \<and>
        k \<in> (request_key \<circ> snapshot_request snapshot (snap_observed_at snapshot)) ` set roots
      then Some pending_graph else abs_db (cps_db s) k)"
  proof -
    have "\<forall>p \<in> set ?roots. art_name p \<noteq> [] \<and> art_version p \<noteq> []" using infer_roots_subset(2,3) by blast
    from enqueue_roots_run [OF assms(2,3) this assms(1), of snapshot "snap_observed_at snapshot"] that show thesis
      unfolding run by blast
  qed
  have "art_name p \<notin> set names" if "p \<in> set ?roots"
    "q \<in> set (take inspected (take snapshotMaxPackages (dedupeSnapshotPackages (snap_packages snapshot))))"
    "manifests (snap_upstream snapshot) q = Inr names" for p q names
  proof -
    have "set names \<subseteq> fst (collectDependencyNames manifests inspected (snap_upstream snapshot)
        (take snapshotMaxPackages (dedupeSnapshotPackages (snap_packages snapshot))))"
      using that(2,3) unfolding collectDependencyNames_def Let_def by force
    moreover have "art_name p \<notin> fst (collectDependencyNames manifests inspected (snap_upstream snapshot)
        (take snapshotMaxPackages (dedupeSnapshotPackages (snap_packages snapshot))))"
      using that(1) by (auto simp: infer_roots_def Let_def case_prod_beta split: if_splits)
    ultimately show ?thesis by blast
  qed
  with infer_roots_subset(1) [of _ manifests inspected snapshot] run(1) db' show ?thesis by auto
qed

definition sample_snapshot :: npm_install_snapshot where
  "sample_snapshot = \<lparr>snap_tenant_id = ''t'', snap_upstream = resolve_upstream (sample_job ''app''),
     snap_packages = [resolve_root (sample_job ''left''), resolve_root (sample_job ''app''), resolve_root (sample_job ''left'')],
     snap_observed_at = 9\<rparr>"

definition sample_snapshots :: "control_state npm_install_snapshot_service" where
  "sample_snapshots = \<lparr>iss_manifests = Some (\<lambda>_ p. Inr (if art_name p = ''app'' then [''left''] else [])),
     iss_queue = Some (gbe_enqueue (store_backend sample_env))\<rparr>"

lemma snapshot_adds_root_jobs_witness:
  "abs_db (cps_db (snd (run_state (ProcessSnapshot sample_snapshots \<lparr>rt_ctx_err = \<lambda>_. None, rt_now = \<lambda>_. 9\<rparr> 5 sample_snapshot)
     sample_control))) (request_key (sample_job ''app'')) = Some pending_graph"
proof -
  let ?run = "run_state (ProcessSnapshot sample_snapshots \<lparr>rt_ctx_err = \<lambda>_. None, rt_now = \<lambda>_. 9\<rparr> 5 sample_snapshot) sample_control"
  have "fst ?run = Inr [resolve_root (sample_job ''app'')]" by code_simp
  then have run: "?run = (Inr [resolve_root (sample_job ''app'')], snd ?run)" by (simp add: prod_eq_iff)
  have pre: "graph_ok (ge_uuid sample_env) (cps_db sample_control)" "ge_fault sample_env = (\<lambda>_. None)"
    "iss_manifests sample_snapshots = Some (\<lambda>_ p. Inr (if art_name p = ''app'' then [''left''] else []))"
    "iss_queue sample_snapshots = Some (gbe_enqueue (store_backend sample_env))"
    "snap_observed_at sample_snapshot \<noteq> zero_time"
    by (simp_all add: sample_control_def graph_ok_empty sample_env_def sample_snapshots_def sample_snapshot_def zero_time_def)
  have key: "request_key (snapshot_request sample_snapshot 9 (resolve_root (sample_job ''app''))) = request_key (sample_job ''app'')"
    by code_simp
  have "abs_db (cps_db sample_control) = (\<lambda>_. None)" by (simp add: sample_control_def abs_empty)
  with snapshot_adds_root_jobs [OF pre(1) sample_uuid pre(2-5) run] key show ?thesis
    by (simp add: sample_snapshot_def)
qed

end
