(* ===== verification/Go_Time.thy ===== *)
theory Go_Time
  imports Valkey_Caches
begin

text \<open>
  The part of package \<open>time\<close> behind \<open>formatTime\<close> and \<open>parseTime\<close> (\<open>internal/wire/ingestgrpc/types.go\<close>):
  \<open>Format\<close> and \<open>Parse\<close> with the layout \<open>RFC3339Nano\<close>. Instants are nanoseconds since the Unix epoch; the
  calendar is the proleptic Gregorian one. Text that is not strict RFC 3339 is read by the general
  parser of the package, a parameter.

  The lemmas show that the calendar is exact and that a formatted instant of the years 0 to 9999 is read
  back.
\<close>

section \<open>Calendar\<close>

text \<open>Days before the first of January of a year, from 0001-01-01.\<close>

definition days_before :: "int \<Rightarrow> int" where
  "days_before y = 365 * (y - 1) + (y - 1) div 4 - (y - 1) div 100 + (y - 1) div 400"

definition is_leap :: "int \<Rightarrow> bool" where
  "is_leap y \<longleftrightarrow> y mod 4 = 0 \<and> (y mod 100 \<noteq> 0 \<or> y mod 400 = 0)"

definition year_of :: "int \<Rightarrow> int" where
  "year_of d =
     (let y = 400 * d div 146097 + 1
      in if days_before (y + 1) \<le> d then y + 1 else if d < days_before y then y - 1 else y)"

text \<open>Days of the year before a month; month 13 is the next year.\<close>

definition month_start :: "bool \<Rightarrow> nat \<Rightarrow> int" where
  "month_start leap m = [0, 31, 59, 90, 120, 151, 181, 212, 243, 273, 304, 334, 365] ! (m - 1) +
     (if leap \<and> 2 < m then 1 else 0)"

definition month_of :: "bool \<Rightarrow> int \<Rightarrow> nat" where
  "month_of leap yday = length (filter (\<lambda>m. month_start leap m \<le> yday) [1..<13])"

definition days_in :: "nat \<Rightarrow> int \<Rightarrow> int" where
  "days_in m y = month_start (is_leap y) (Suc m) - month_start (is_leap y) m"

text \<open>The first of January of year 1 is 719162 days before the epoch.\<close>

definition epoch_day :: int where "epoch_day = 719162"

definition nanoseconds :: int where "nanoseconds = 1000000000"

section \<open>Formatting\<close>

fun fixed :: "nat \<Rightarrow> nat \<Rightarrow> string" where
  "fixed 0 n = []"
| "fixed (Suc k) n = fixed k (n div 10) @ [digit (n mod 10)]"

definition year_text :: "int \<Rightarrow> string" where
  "year_text y =
     (if 0 \<le> y \<and> y \<le> 9999 then fixed 4 (nat y)
      else (if y < 0 then ''-'' else []) @ replicate (4 - length (show_nat (nat \<bar>y\<bar>))) (CHR ''0'') @ show_nat (nat \<bar>y\<bar>))"

definition fraction_text :: "nat \<Rightarrow> string" where
  "fraction_text ns =
     (if ns = 0 then [] else CHR ''.'' # rev (dropWhile (\<lambda>c. c = CHR ''0'') (rev (fixed 9 ns))))"

definition format_rfc3339 :: "time \<Rightarrow> string" where
  "format_rfc3339 t =
     (let secs = t div nanoseconds;
          d = secs div 86400 + epoch_day;
          sod = secs mod 86400;
          y = year_of d;
          yday = d - days_before y;
          m = month_of (is_leap y) yday;
          day = yday - month_start (is_leap y) m + 1
      in year_text y @ ''-'' @ fixed 2 m @ ''-'' @ fixed 2 (nat day) @ ''T'' @
         fixed 2 (nat (sod div 3600)) @ '':'' @ fixed 2 (nat (sod mod 3600 div 60)) @ '':'' @ fixed 2 (nat (sod mod 60)) @
         fraction_text (nat (t mod nanoseconds)) @ ''Z'')"

section \<open>Parsing\<close>

definition is_digit :: "char \<Rightarrow> bool" where
  "is_digit c \<longleftrightarrow> 48 \<le> byte c \<and> byte c \<le> 57"

definition read_uint :: "nat \<Rightarrow> int \<Rightarrow> int \<Rightarrow> string \<Rightarrow> (int \<times> string) option" where
  "read_uint k lo hi s =
     (if length s < k \<or> \<not> list_all is_digit (take k s) then None
      else let n = int (read_nat (take k s)) in if lo \<le> n \<and> n \<le> hi then Some (n, drop k s) else None)"

definition read_char :: "char \<Rightarrow> string \<Rightarrow> string option" where
  "read_char c s = (case s of [] \<Rightarrow> None | x # xs \<Rightarrow> if x = c then Some xs else None)"

definition read_fraction :: "string \<Rightarrow> nat \<times> string" where
  "read_fraction s =
     (case s of
        c # d # rest \<Rightarrow>
          if c = CHR ''.'' \<and> is_digit d then
            (let ds = takeWhile is_digit (d # rest)
             in (read_nat (take 9 (ds @ replicate (9 - length ds) (CHR ''0''))), dropWhile is_digit (d # rest)))
          else (0, s)
      | _ \<Rightarrow> (0, s))"

text \<open>The zone: \<open>Z\<close> or a signed offset, in seconds.\<close>

definition read_zone :: "string \<Rightarrow> int option" where
  "read_zone s =
     (if s = ''Z'' then Some 0
      else case s of
          [] \<Rightarrow> None
        | sign # rest \<Rightarrow>
            if sign \<noteq> CHR ''+'' \<and> sign \<noteq> CHR ''-'' then None
            else Option.bind (read_uint 2 0 23 rest) (\<lambda>(hh, s1).
              Option.bind (read_char (CHR '':'') s1) (\<lambda>s2.
              Option.bind (read_uint 2 0 59 s2) (\<lambda>(mm, s3).
                if s3 \<noteq> [] then None
                else Some ((if sign = CHR ''-'' then -1 else 1) * (hh * 60 + mm) * 60)))))"

definition parse_rfc3339 :: "string \<Rightarrow> time option" where
  "parse_rfc3339 s =
     Option.bind (read_uint 4 0 9999 s) (\<lambda>(y, s).
     Option.bind (read_char (CHR ''-'') s) (\<lambda>s.
     Option.bind (read_uint 2 1 12 s) (\<lambda>(m, s).
     Option.bind (read_char (CHR ''-'') s) (\<lambda>s.
     Option.bind (read_uint 2 1 (days_in (nat m) y) s) (\<lambda>(day, s).
     Option.bind (read_char (CHR ''T'') s) (\<lambda>s.
     Option.bind (read_uint 2 0 23 s) (\<lambda>(hh, s).
     Option.bind (read_char (CHR '':'') s) (\<lambda>s.
     Option.bind (read_uint 2 0 59 s) (\<lambda>(mi, s).
     Option.bind (read_char (CHR '':'') s) (\<lambda>s.
     Option.bind (read_uint 2 0 59 s) (\<lambda>(sec, s).
       (case read_fraction s of (ns, s) \<Rightarrow>
     Option.bind (read_zone s) (\<lambda>offset.
       let d = days_before y + month_start (is_leap y) (nat m) + day - 1 - epoch_day
       in Some ((d * 86400 + hh * 3600 + mi * 60 + sec - offset) * nanoseconds + int ns))))))))))))))"

definition time_parse :: "(string \<Rightarrow> time result) \<Rightarrow> string \<Rightarrow> time result" where
  "time_parse general s = (case parse_rfc3339 s of Some t \<Rightarrow> Inr t | None \<Rightarrow> general s)"

section \<open>The calendar is exact\<close>

lemma days_before_scaled:
  "400 * days_before y = 146097 * (y - 1) - 100 * ((y - 1) mod 4) + 4 * ((y - 1) mod 100) - (y - 1) mod 400"
proof -
  define n a b c where "n = y - 1" and "a = n div 4" and "b = n div 100" and "c = n div 400"
  define ra rb rc where "ra = n mod 4" and "rb = n mod 100" and "rc = n mod 400"
  have "n = 4 * a + ra" "n = 100 * b + rb" "n = 400 * c + rc"
    by (simp_all add: a_def b_def c_def ra_def rb_def rc_def)
  then have "400 * (365 * n + a - b + c) = 146097 * n - 100 * ra + 4 * rb - rc"
    by (simp add: algebra_simps)
  then show ?thesis by (simp only: days_before_def n_def [symmetric] a_def b_def c_def ra_def rb_def rc_def)
qed

lemma days_before_bounds:
  "146097 * (y - 1) - 699 \<le> 400 * days_before y" "400 * days_before y \<le> 146097 * (y - 1) + 396"
proof -
  have "0 \<le> (y - 1) mod 4" "(y - 1) mod 4 < 4" "0 \<le> (y - 1) mod 100" "(y - 1) mod 100 < 100"
    "0 \<le> (y - 1) mod 400" "(y - 1) mod 400 < 400" by simp_all
  then show "146097 * (y - 1) - 699 \<le> 400 * days_before y" "400 * days_before y \<le> 146097 * (y - 1) + 396"
    unfolding days_before_scaled by linarith+
qed

lemma year_of_bounds: "days_before (year_of d) \<le> d" "d < days_before (year_of d + 1)"
proof -
  define y where "y = 400 * d div 146097 + 1"
  have e: "146097 * (y - 1) \<le> 400 * d" "400 * d < 146097 * y"
  proof -
    define e q r where "e = 400 * d" and "q = e div 146097" and "r = e mod 146097"
    have "e = 146097 * q + r" "0 \<le> r" "r < 146097" by (simp_all add: q_def r_def)
    moreover have "y = q + 1" by (simp add: y_def q_def e_def)
    ultimately have "146097 * (y - 1) \<le> e" "e < 146097 * y" by auto
    then show "146097 * (y - 1) \<le> 400 * d" "400 * d < 146097 * y" by (simp_all only: e_def)
  qed
  have lo: "days_before (y - 1) \<le> d" using days_before_bounds(2) [of "y - 1"] e by simp
  have hi: "d < days_before (y + 2)" using days_before_bounds(1) [of "y + 2"] e by simp
  have year: "year_of d = (if days_before (y + 1) \<le> d then y + 1 else if d < days_before y then y - 1 else y)"
    by (simp only: year_of_def Let_def y_def)
  show "days_before (year_of d) \<le> d" using lo unfolding year by (simp split: if_split)
  show "d < days_before (year_of d + 1)" using hi unfolding year by (simp add: add.assoc split: if_split)
qed

lemma div_step: "0 < (m :: int) \<Longrightarrow> y div m - (y - 1) div m = (if y mod m = 0 then 1 else 0)"
proof -
  assume m: "0 < m"
  have y: "y = m * (y div m) + y mod m" by simp
  have split: "x = m * k \<Longrightarrow> x - 1 = m * (k - 1) + (m - 1)" for x k by (simp add: algebra_simps)
  show ?thesis
  proof (cases "y mod m = 0")
    case True
    then have "y = m * (y div m)" using y by simp
    then have eq: "y - 1 = m * (y div m - 1) + (m - 1)" by (rule split)
    have "(y - 1) div m = y div m - 1" using m by (intro int_div_pos_eq [OF eq]) auto
    with True show ?thesis by simp
  next
    case False
    moreover have "0 \<le> y mod m" "y mod m < m" using m by simp_all
    moreover have eq: "y - 1 = m * (y div m) + (y mod m - 1)" using y by simp
    ultimately have "(y - 1) div m = y div m" by (intro int_div_pos_eq [OF eq]) auto
    with False show ?thesis by simp
  qed
qed

lemma nested:
  "\<lbrakk>p \<Longrightarrow> q; q \<Longrightarrow> r\<rbrakk> \<Longrightarrow>
   365 + (if r then 1 else 0) - (if q then 1 else 0) + (if p then 1 else 0) = (365 + (if r \<and> (\<not> q \<or> p) then 1 else 0) :: int)"
  by auto

lemma year_length: "days_before (y + 1) = days_before y + 365 + (if is_leap y then 1 else 0)"
proof -
  have "(100 :: int) dvd 400" "(4 :: int) dvd 100" by simp_all
  then have nest: "y mod 400 = 0 \<Longrightarrow> y mod 100 = 0" "y mod 100 = 0 \<Longrightarrow> y mod 4 = 0"
    unfolding mod_eq_0_iff_dvd by (blast intro: dvd_trans)+
  have "days_before (y + 1) - days_before y =
      365 + (y div 4 - (y - 1) div 4) - (y div 100 - (y - 1) div 100) + (y div 400 - (y - 1) div 400)"
    by (simp add: days_before_def)
  also have "\<dots> = 365 + (if y mod 4 = 0 then 1 else 0) - (if y mod 100 = 0 then 1 else 0) + (if y mod 400 = 0 then 1 else 0)"
    by (simp only: div_step [of 4 y] div_step [of 100 y] div_step [of 400 y] zero_less_numeral)
  also have "\<dots> = 365 + (if is_leap y then 1 else 0)" unfolding is_leap_def by (rule nested [OF nest])
  finally show ?thesis by simp
qed

lemma month_starts [simp]:
  "month_start l (Suc 0) = 0" "month_start l 2 = 31" "month_start l 3 = (if l then 60 else 59)"
  "month_start l 4 = (if l then 91 else 90)" "month_start l 5 = (if l then 121 else 120)"
  "month_start l 6 = (if l then 152 else 151)" "month_start l 7 = (if l then 182 else 181)"
  "month_start l 8 = (if l then 213 else 212)" "month_start l 9 = (if l then 244 else 243)"
  "month_start l 10 = (if l then 274 else 273)" "month_start l 11 = (if l then 305 else 304)"
  "month_start l 12 = (if l then 335 else 334)" "month_start l 13 = (if l then 366 else 365)"
  by (simp_all add: month_start_def)

lemma months: "[Suc 0..<13] = [Suc 0, 2, 3, 4, 5, 6, 7, 8, 9, 10, 11, 12]"
  by (simp add: upt_rec)

lemma month_of_common:
  assumes "0 \<le> yday" "yday < 365"
  shows "1 \<le> month_of False yday \<and> month_of False yday \<le> 12 \<and> month_start False (month_of False yday) \<le> yday \<and>
    yday < month_start False (Suc (month_of False yday))"
proof -
  consider "yday < 31" | "31 \<le> yday" "yday < 59" | "59 \<le> yday" "yday < 90" | "90 \<le> yday" "yday < 120" | "120 \<le> yday" "yday < 151" | "151 \<le> yday" "yday < 181" | "181 \<le> yday" "yday < 212" | "212 \<le> yday" "yday < 243" | "243 \<le> yday" "yday < 273" | "273 \<le> yday" "yday < 304" | "304 \<le> yday" "yday < 334" | "334 \<le> yday" by linarith
  then show ?thesis using assms by cases (simp_all add: month_of_def months month_start_def del: month_starts)
qed

lemma month_of_leap:
  assumes "0 \<le> yday" "yday < 366"
  shows "1 \<le> month_of True yday \<and> month_of True yday \<le> 12 \<and> month_start True (month_of True yday) \<le> yday \<and>
    yday < month_start True (Suc (month_of True yday))"
proof -
  consider "yday < 31" | "31 \<le> yday" "yday < 60" | "60 \<le> yday" "yday < 91" | "91 \<le> yday" "yday < 121" | "121 \<le> yday" "yday < 152" | "152 \<le> yday" "yday < 182" | "182 \<le> yday" "yday < 213" | "213 \<le> yday" "yday < 244" | "244 \<le> yday" "yday < 274" | "274 \<le> yday" "yday < 305" | "305 \<le> yday" "yday < 335" | "335 \<le> yday" by linarith
  then show ?thesis using assms by cases (simp_all add: month_of_def months month_start_def del: month_starts)
qed

lemma month_of_bounds:
  assumes "0 \<le> yday" "yday < 365 + (if leap then 1 else 0)"
  shows "1 \<le> month_of leap yday \<and> month_of leap yday \<le> 12 \<and> month_start leap (month_of leap yday) \<le> yday \<and>
    yday < month_start leap (Suc (month_of leap yday))"
  using assms month_of_common [of yday] month_of_leap [of yday] by (cases leap) simp_all

section \<open>Reading back\<close>

lemma length_fixed [simp]: "length (fixed k n) = k"
  by (induction k arbitrary: n) simp_all

lemma is_digit_digit: "n < 10 \<Longrightarrow> is_digit (digit n)"
  by (simp add: is_digit_def byte_digit)

lemma fixed_digits: "list_all is_digit (fixed k n)"
  by (induction k arbitrary: n) (simp_all add: is_digit_digit)

lemma read_nat_snoc: "read_nat (s @ [c]) = 10 * read_nat s + (byte c - 48)"
  by (simp add: read_nat_def)

lemma read_fixed: "n < 10 ^ k \<Longrightarrow> read_nat (fixed k n) = n"
proof (induction k arbitrary: n)
  case (Suc k)
  then have "n div 10 < 10 ^ k" by (simp add: div_less_iff_less_mult mult.commute)
  then show ?case by (simp add: read_nat_snoc byte_digit Suc.IH)
qed (simp add: read_nat_def)

lemma read_uint_fixed:
  "\<lbrakk>n < 10 ^ k; lo \<le> int n; int n \<le> hi\<rbrakk> \<Longrightarrow> read_uint k lo hi (fixed k n @ rest) = Some (int n, rest)"
  by (simp add: read_uint_def fixed_digits read_fixed)

lemma read_char_Cons [simp]: "read_char c (c # s) = Some s"
  by (simp add: read_char_def)

lemma read_nat_zeros: "read_nat (replicate k (CHR ''0'')) = 0"
proof (induction k)
  case (Suc k)
  have "replicate (Suc k) (CHR ''0'') = replicate k (CHR ''0'') @ [CHR ''0'']" by (simp add: replicate_append_same)
  with Suc show ?case by (simp only: read_nat_snoc) (simp add: byte_def)
qed (simp add: read_nat_def)

lemma strip_zeros:
  assumes "g = rev (dropWhile (\<lambda>c. c = CHR ''0'') (rev f))"
  shows "f = g @ replicate (length f - length g) (CHR ''0'')"
proof -
  let ?z = "takeWhile (\<lambda>c. c = CHR ''0'') (rev f)"
  have "rev f = ?z @ rev g" using takeWhile_dropWhile_id [of "\<lambda>c. c = CHR ''0''" "rev f"] assms by simp
  then have f: "f = g @ rev ?z" by (metis rev_append rev_rev_ident)
  have "\<forall>c \<in> set (rev ?z). c = CHR ''0''" by (auto dest: set_takeWhileD)
  then have "rev ?z = replicate (length (rev ?z)) (CHR ''0'')" by (metis replicate_eqI)
  moreover have "length (rev ?z) = length f - length g" by (subst f) simp
  ultimately show ?thesis using f by metis
qed

lemma Z_no_digit: "\<not> is_digit (CHR ''Z'')"
  by (simp add: is_digit_def byte_def)

lemma read_fraction_text:
  assumes "ns < 10 ^ 9"
  shows "read_fraction (fraction_text ns @ ''Z'') = (ns, ''Z'')"
proof (cases "ns = 0")
  case True
  then show ?thesis by (simp add: read_fraction_def fraction_text_def)
next
  case False
  define g where "g = rev (dropWhile (\<lambda>c. c = CHR ''0'') (rev (fixed 9 ns)))"
  have pad: "fixed 9 ns = g @ replicate (9 - length g) (CHR ''0'')"
    using strip_zeros [OF g_def] by simp
  have "g \<noteq> []"
  proof
    assume "g = []"
    then have "fixed 9 ns = replicate 9 (CHR ''0'')" using pad by simp
    then have "ns = 0" using read_fixed [OF assms] read_nat_zeros by metis
    with False show False by contradiction
  qed
  then obtain x xs where g: "g = x # xs" by (cases g) auto
  have digits: "\<forall>c \<in> set g. is_digit c" using fixed_digits [of 9 ns] pad by (simp add: list_all_iff)
  have "fraction_text ns = CHR ''.'' # g" using False by (simp add: fraction_text_def g_def)
  then have "read_fraction (fraction_text ns @ ''Z'') =
      (read_nat (take 9 (takeWhile is_digit (g @ ''Z'') @ replicate (9 - length (takeWhile is_digit (g @ ''Z''))) (CHR ''0''))),
       dropWhile is_digit (g @ ''Z''))"
    using digits g by (simp add: read_fraction_def Let_def)
  also have "takeWhile is_digit (g @ ''Z'') = g" using digits Z_no_digit by (simp add: takeWhile_append2)
  also have "dropWhile is_digit (g @ ''Z'') = ''Z''" using digits Z_no_digit by (simp add: dropWhile_append2)
  also have "take 9 (g @ replicate (9 - length g) (CHR ''0'')) = fixed 9 ns" using pad by (metis length_fixed order_refl take_all)
  finally show ?thesis using read_fixed [OF assms] by simp
qed

definition instant_year :: "time \<Rightarrow> int" where
  "instant_year t = year_of (t div nanoseconds div 86400 + epoch_day)"

lemma parse_format:
  assumes "0 \<le> instant_year t" "instant_year t \<le> 9999"
  shows "parse_rfc3339 (format_rfc3339 t) = Some t"
proof -
  define secs d sod y yday m day where "secs = t div nanoseconds" and "d = secs div 86400 + epoch_day"
    and "sod = secs mod 86400" and "y = year_of d" and "yday = d - days_before y"
    and "m = month_of (is_leap y) yday" and "day = yday - month_start (is_leap y) m + 1"
  define h mi sec ns where "h = sod div 3600" and "mi = sod mod 3600 div 60" and "sec = sod mod 60"
    and "ns = nat (t mod nanoseconds)"
  have fmt: "format_rfc3339 t = year_text y @ ''-'' @ fixed 2 m @ ''-'' @ fixed 2 (nat day) @ ''T'' @
      fixed 2 (nat h) @ '':'' @ fixed 2 (nat mi) @ '':'' @ fixed 2 (nat sec) @ fraction_text ns @ ''Z''"
    by (simp add: format_rfc3339_def Let_def secs_def d_def sod_def y_def yday_def m_def day_def h_def mi_def sec_def ns_def)
  have y: "0 \<le> y" "y \<le> 9999" using assms by (simp_all add: instant_year_def y_def d_def secs_def)
  have "0 \<le> yday" "yday < 365 + (if is_leap y then 1 else 0)"
    using year_of_bounds [of d] year_length [of y] by (simp_all add: yday_def y_def)
  from month_of_bounds [OF this] have m: "1 \<le> m" "m \<le> 12" "1 \<le> day" "day \<le> days_in m y"
    by (simp_all add: m_def day_def days_in_def)
  have "days_in m y \<le> 31"
  proof -
    have "m \<in> set [Suc 0..<13]" using m(1,2) by simp
    then show ?thesis unfolding months by (auto simp: days_in_def month_start_def simp del: month_starts)
  qed
  with m(4) have day: "day \<le> 31" by linarith
  have sod: "0 \<le> sod" "sod < 86400" by (simp_all add: sod_def)
  have "sod div 3600 \<le> 86399 div 3600" "sod mod 3600 div 60 \<le> 3599 div 60"
    using sod by (auto intro!: zdiv_mono1)
  then have h: "0 \<le> h" "h \<le> 23" "0 \<le> mi" "mi \<le> 59" "0 \<le> sec" "sec \<le> 59"
    using sod by (simp_all add: h_def mi_def sec_def pos_imp_zdiv_nonneg_iff)
  have ns: "ns < 10 ^ 9" "int ns = t mod nanoseconds" by (simp_all add: ns_def nanoseconds_def)
  have hms: "h * 3600 + mi * 60 + sec = sod"
  proof -
    have "sod = h * 3600 + sod mod 3600" "sod mod 3600 = mi * 60 + sod mod 3600 mod 60" by (simp_all add: h_def mi_def)
    moreover have "sod mod 3600 mod 60 = sec" by (simp add: sec_def mod_mod_cancel)
    ultimately show ?thesis by simp
  qed
  have "parse_rfc3339 (format_rfc3339 t) =
      Some (((days_before y + month_start (is_leap y) m + day - 1 - epoch_day) * 86400 + h * 3600 + mi * 60 + sec - 0) * nanoseconds + int ns)"
    unfolding fmt year_text_def parse_rfc3339_def using y m day h
    by (simp add: read_uint_fixed read_fraction_text [OF ns(1)] read_zone_def Let_def)
  also have "days_before y + month_start (is_leap y) m + day - 1 - epoch_day = secs div 86400"
    by (simp add: day_def yday_def d_def)
  also have "secs div 86400 * 86400 + h * 3600 + mi * 60 + sec - 0 = secs"
    using hms by (simp add: sod_def add.assoc)
  also have "secs * nanoseconds + int ns = t" by (simp add: secs_def ns(2))
  finally show ?thesis .
qed

end
