(* ===== verification/Wire_Ingest.thy ===== *)
theory Wire_Ingest
  imports Ingest_Service Go_Time
begin

text \<open>
  The ingest protocol between proxies and the control plane: the messages and conversions of
  \<open>internal/wire/ingestgrpc/types.go\<close>, the server handlers of \<open>internal/delivery/ingestgrpc\<close> and the
  tenant authorization of \<open>internal/infra/controlplanegrpc/authz.go\<close>; the client is \<open>Wire_Client\<close>.

  A connection is the server behind it together with a \<open>transport\<close>: what the JSON codec makes of a
  message, the text of a status error, and the identities of the client certificate. The transport is
  a parameter; a theorem that needs it says which messages arrive as they were sent.

  The lemmas show that a decision survives the conversions, that an RPC of a client that is not
  authorized for the tenant of the request has no effect, and that a graph worker behind the protocol
  does to the job table what a local one does.
\<close>

section \<open>Messages\<close>

record wire_artifact =
  wa_ecosystem :: ecosystem_type
  wa_namespace :: string
  wa_name :: string
  wa_version :: string
  wa_digest :: string

record wire_upstream =
  wu_id :: string
  wu_tenant_id :: string
  wu_name :: string
  wu_ecosystem :: ecosystem_type
  wu_base_url :: string

record wire_reason =
  wr_policy_id :: string
  wr_policy_name :: string
  wr_category :: reason_category
  wr_action :: policy_action
  wr_message :: string

record wire_decision =
  wd_id :: string
  wd_tenant_id :: string
  wd_artifact :: wire_artifact
  wd_outcome :: decision_outcome
  wd_policy_id :: string
  wd_policy_hash :: string
  wd_dependency_context :: "dependency_context option"
  wd_reason :: string
  wd_reasons :: "wire_reason list"
  wd_warnings :: "string list"
  wd_cached_at :: "string option"
  wd_evaluated_at :: string

record wire_event =
  we_id :: string
  we_tenant_id :: string
  we_correlation_id :: string
  we_event_type :: audit_event_type
  we_source :: string
  we_entity_type :: string
  we_entity_id :: string
  we_upstream_id :: string
  we_policy_id :: string
  we_outcome :: "decision_outcome option"
  we_artifact :: wire_artifact
  we_message :: string
  we_payload :: "audit_payload option"
  we_created_at :: string

record wire_job =
  wj_tenant_id :: string
  wj_upstream :: wire_upstream
  wj_root :: wire_artifact

datatype ingest_request =
    RecordDecisionRequest wire_decision
  | GetDecisionByArtifactRequest string wire_artifact
  | ListDecisionsByTenantRequest string int int string
  | HasRecentAllowRequest string ecosystem_type string string
  | RecordAuditEventRequest wire_event
  | EnqueueRequest wire_job
  | ClaimRequest string string
  | CompleteRequest wire_job "dependency_graph_node list" "dependency_graph_edge list" string
  | FailRequest wire_job string string
  | LookupContextRequest string string wire_artifact
  | WatchRequest string

datatype ingest_response =
    DecisionResponse wire_decision
  | DecisionsResponse "wire_decision list"
  | AllowedResponse bool
  | EventResponse wire_event
  | EnqueuedResponse bool
  | JobResponse "wire_job option"
  | EmptyResponse
  | ContextResponse "dependency_context option"
  | WatchResponse nat \<comment> \<open>the channel of a stream\<close>

fun TenantIDFromRequest :: "ingest_request \<Rightarrow> string" where
  "TenantIDFromRequest (RecordDecisionRequest d) = wd_tenant_id d"
| "TenantIDFromRequest (GetDecisionByArtifactRequest t _) = t"
| "TenantIDFromRequest (ListDecisionsByTenantRequest t _ _ _) = t"
| "TenantIDFromRequest (HasRecentAllowRequest t _ _ _) = t"
| "TenantIDFromRequest (RecordAuditEventRequest e) = we_tenant_id e"
| "TenantIDFromRequest (EnqueueRequest j) = wj_tenant_id j"
| "TenantIDFromRequest (ClaimRequest t _) = t"
| "TenantIDFromRequest (LookupContextRequest t _ _) = t"
| "TenantIDFromRequest (WatchRequest t) = t"
| "TenantIDFromRequest (CompleteRequest j _ _ _) = wj_tenant_id j"
| "TenantIDFromRequest (FailRequest j _ _) = wj_tenant_id j"

section \<open>Conversions\<close>

definition formatTime :: "time \<Rightarrow> string" where
  "formatTime t = (if t = zero_time then [] else format_rfc3339 t)"

definition parseTime :: "(string \<Rightarrow> time result) \<Rightarrow> string \<Rightarrow> time result" where
  "parseTime general s = (if trim_space s = [] then Inr zero_time else time_parse general s)"

definition FromDomainArtifactIdentity :: "artifact_identity \<Rightarrow> wire_artifact" where
  "FromDomainArtifactIdentity a =
     \<lparr>wa_ecosystem = art_ecosystem a, wa_namespace = art_namespace a, wa_name = art_name a,
      wa_version = art_version a, wa_digest = art_digest a\<rparr>"

definition ArtifactToDomain :: "wire_artifact \<Rightarrow> artifact_identity" where
  "ArtifactToDomain a =
     \<lparr>art_ecosystem = wa_ecosystem a, art_namespace = wa_namespace a, art_name = wa_name a,
      art_version = wa_version a, art_digest = wa_digest a\<rparr>"

definition FromDomainUpstream :: "upstream \<Rightarrow> wire_upstream" where
  "FromDomainUpstream u =
     \<lparr>wu_id = up_id u, wu_tenant_id = up_tenant_id u, wu_name = up_name u, wu_ecosystem = up_ecosystem u,
      wu_base_url = up_base_url u\<rparr>"

definition UpstreamToDomain :: "wire_upstream \<Rightarrow> upstream" where
  "UpstreamToDomain u =
     \<lparr>up_id = wu_id u, up_tenant_id = wu_tenant_id u, up_name = wu_name u, up_ecosystem = wu_ecosystem u,
      up_base_url = wu_base_url u, up_capabilities = None, up_auth = None, up_created_at = zero_time,
      up_updated_at = zero_time\<rparr>"

definition FromDomainEvaluationReason :: "evaluation_reason \<Rightarrow> wire_reason" where
  "FromDomainEvaluationReason r =
     \<lparr>wr_policy_id = reason_policy_id r, wr_policy_name = reason_policy_name r, wr_category = reason_category r,
      wr_action = reason_action r, wr_message = reason_message r\<rparr>"

definition ReasonToDomain :: "wire_reason \<Rightarrow> evaluation_reason" where
  "ReasonToDomain r =
     \<lparr>reason_policy_id = wr_policy_id r, reason_policy_name = wr_policy_name r, reason_category = wr_category r,
      reason_action = wr_action r, reason_message = wr_message r\<rparr>"

definition cloneDependencyContext ::
  "(string \<Rightarrow> string) \<Rightarrow> dependency_context option \<Rightarrow> dependency_context option" where
  "cloneDependencyContext sha c = map_option (NormalizeContext sha) c"

definition FromDomainDecision :: "(string \<Rightarrow> string) \<Rightarrow> decision \<Rightarrow> wire_decision" where
  "FromDomainDecision sha d =
     \<lparr>wd_id = dec_id d, wd_tenant_id = dec_tenant_id d, wd_artifact = FromDomainArtifactIdentity (dec_artifact d),
      wd_outcome = dec_outcome d, wd_policy_id = dec_policy_id d, wd_policy_hash = dec_policy_hash d,
      wd_dependency_context = cloneDependencyContext sha (dec_dependency_context d), wd_reason = dec_reason d,
      wd_reasons = map FromDomainEvaluationReason (dec_reasons d), wd_warnings = dec_warnings d,
      wd_cached_at = map_option formatTime (dec_cached_at d), wd_evaluated_at = formatTime (dec_evaluated_at d)\<rparr>"

definition DecisionToDomain ::
  "(string \<Rightarrow> string) \<Rightarrow> (string \<Rightarrow> time result) \<Rightarrow> wire_decision \<Rightarrow> decision result" where
  "DecisionToDomain sha general d =
     (case parseTime general (wd_evaluated_at d) of
        Inl e \<Rightarrow> Inl (wrap_error ''parsing evaluated_at'' e)
      | Inr evaluatedAt \<Rightarrow>
          (let r = \<lparr>dec_id = wd_id d, dec_tenant_id = wd_tenant_id d, dec_artifact = ArtifactToDomain (wd_artifact d),
                    dec_outcome = wd_outcome d, dec_policy_id = wd_policy_id d, dec_policy_hash = wd_policy_hash d,
                    dec_dependency_context = cloneDependencyContext sha (wd_dependency_context d),
                    dec_reason = wd_reason d, dec_reasons = map ReasonToDomain (wd_reasons d),
                    dec_warnings = wd_warnings d, dec_cached_at = None, dec_evaluated_at = evaluatedAt\<rparr>
           in case wd_cached_at d of
                None \<Rightarrow> Inr r
              | Some s \<Rightarrow>
                  (case parseTime general s of
                     Inl e \<Rightarrow> Inl (wrap_error ''parsing cached_at'' e)
                   | Inr cachedAt \<Rightarrow> Inr (r\<lparr>dec_cached_at := Some cachedAt\<rparr>))))"

text \<open>\<open>cloneMap\<close> copies the payload.\<close>

definition FromDomainAuditEvent :: "audit_event \<Rightarrow> wire_event" where
  "FromDomainAuditEvent e =
     \<lparr>we_id = ev_id e, we_tenant_id = ev_tenant_id e, we_correlation_id = ev_correlation_id e,
      we_event_type = ev_event_type e, we_source = ev_source e, we_entity_type = ev_entity_type e,
      we_entity_id = ev_entity_id e, we_upstream_id = ev_upstream_id e, we_policy_id = ev_policy_id e,
      we_outcome = ev_outcome e, we_artifact = FromDomainArtifactIdentity (ev_artifact e), we_message = ev_message e,
      we_payload = ev_payload e, we_created_at = formatTime (ev_created_at e)\<rparr>"

definition EventToDomain :: "(string \<Rightarrow> time result) \<Rightarrow> wire_event \<Rightarrow> audit_event result" where
  "EventToDomain general e =
     (case parseTime general (we_created_at e) of
        Inl err \<Rightarrow> Inl (wrap_error ''parsing created_at'' err)
      | Inr createdAt \<Rightarrow>
          Inr \<lparr>ev_id = we_id e, ev_tenant_id = we_tenant_id e, ev_correlation_id = we_correlation_id e,
               ev_event_type = we_event_type e, ev_source = we_source e, ev_entity_type = we_entity_type e,
               ev_entity_id = we_entity_id e, ev_upstream_id = we_upstream_id e, ev_policy_id = we_policy_id e,
               ev_outcome = we_outcome e, ev_artifact = ArtifactToDomain (we_artifact e), ev_message = we_message e,
               ev_payload = we_payload e, ev_created_at = createdAt\<rparr>)"

definition FromDomainDependencyGraphResolveRequest :: "dependency_graph_resolve_request \<Rightarrow> wire_job" where
  "FromDomainDependencyGraphResolveRequest req =
     \<lparr>wj_tenant_id = resolve_tenant_id req, wj_upstream = FromDomainUpstream (resolve_upstream req),
      wj_root = FromDomainArtifactIdentity (resolve_root req)\<rparr>"

definition JobToDomain :: "wire_job \<Rightarrow> dependency_graph_resolve_request" where
  "JobToDomain j =
     \<lparr>resolve_tenant_id = wj_tenant_id j, resolve_upstream = UpstreamToDomain (wj_upstream j),
      resolve_root = ArtifactToDomain (wj_root j), resolve_requested_at = zero_time\<rparr>"

section \<open>Status errors\<close>

datatype status_code = CodeInvalidArgument | CodeNotFound | CodePermissionDenied | CodeUnimplemented | CodeInternal
  | CodeUnauthenticated | CodeOther nat

record status =
  st_code :: status_code
  st_message :: string

definition status_error :: "status_code \<Rightarrow> string \<Rightarrow> status + 'a" where
  "status_error c m = Inl \<lparr>st_code = c, st_message = m\<rparr>"

definition ToStatusError :: "go_error \<Rightarrow> status" where
  "ToStatusError e =
     (if errors_is e ErrArtifactNotFound then \<lparr>st_code = CodeNotFound, st_message = sentinel_text ErrArtifactNotFound\<rparr>
      else \<lparr>st_code = CodeInternal, st_message = err_text e\<rparr>)"

text \<open>A call fails with a status; its text is that of the library.\<close>

definition MapClientError :: "(status \<Rightarrow> string) \<Rightarrow> status \<Rightarrow> go_error" where
  "MapClientError status_text st =
     (if st_code st = CodeNotFound \<and> st_message st = sentinel_text ErrArtifactNotFound then sentinel_error ErrArtifactNotFound
      else plain_error (status_text st))"

section \<open>Tenant authorization\<close>

record denied_event =
  den_tenant_id :: string
  den_client_identities :: "string list"
  den_full_method :: string
  den_reason :: string
  den_message :: string

record certificate =
  cert_uris :: "string list"
  cert_dns_names :: "string list"
  cert_email_addresses :: "string list"
  cert_common_name :: string

record authorized_client =
  client_identity :: string
  client_tenant_ids :: "string list"

type_synonym tenant_authorizer = "string \<Rightarrow> string set option"

definition add_client :: "authorized_client \<Rightarrow> tenant_authorizer \<Rightarrow> tenant_authorizer" where
  "add_client c a =
     (let identity = trim_space (client_identity c)
      in if identity = [] then a
         else a(identity \<mapsto> (case a identity of None \<Rightarrow> {} | Some ts \<Rightarrow> ts) \<union>
           (set (map trim_space (client_tenant_ids c)) - {[]})))"

definition newTenantAuthorizer :: "authorized_client list \<Rightarrow> tenant_authorizer" where
  "newTenantAuthorizer clients = fold add_client clients (\<lambda>_. None)"

definition authorized :: "tenant_authorizer \<Rightarrow> string list \<Rightarrow> string \<Rightarrow> bool" where
  "authorized a identities tenantID =
     list_ex (\<lambda>identity. case a identity of None \<Rightarrow> False | Some ts \<Rightarrow> ''*'' \<in> ts \<or> tenantID \<in> ts) identities"

definition certificateIdentities :: "certificate \<Rightarrow> string list" where
  "certificateIdentities c =
     cert_uris c @ cert_dns_names c @ cert_email_addresses c @
     (if cert_common_name c \<noteq> [] then [cert_common_name c] else [])"

text \<open>The peer of a connection without TLS is \<^const>\<open>None\<close>.\<close>

definition peerCertificateIdentities :: "certificate list option \<Rightarrow> string list" where
  "peerCertificateIdentities peer = (case peer of Some (c # _) \<Rightarrow> certificateIdentities c | _ \<Rightarrow> [])"

record 's authorization_config =
  atz_clients :: "authorized_client list"
  atz_denied_recorder :: "(denied_event \<Rightarrow> ('s, unit result) state) option"

definition deny :: "'s authorization_config \<Rightarrow> denied_event \<Rightarrow> status_code \<Rightarrow> ('s, status) state" where
  "deny cfg event0 code =
     (let message0 = trim_space (den_message event0);
          message = (if message0 = [] then ''control-plane grpc request denied'' else message0);
          event = event0\<lparr>den_tenant_id := trim_space (den_tenant_id event0),
                         den_full_method := trim_space (den_full_method event0),
                         den_reason := trim_space (den_reason event0), den_message := message\<rparr>
      in do {
           _ \<leftarrow> (case atz_denied_recorder cfg of None \<Rightarrow> State_Monad.return (Inr ()) | Some recorder \<Rightarrow> recorder event);
           State_Monad.return \<lparr>st_code = code, st_message = message\<rparr>
         })"

definition denied :: "string \<Rightarrow> string list \<Rightarrow> string \<Rightarrow> string \<Rightarrow> string \<Rightarrow> denied_event" where
  "denied tenantID identities fullMethod reason message =
     \<lparr>den_tenant_id = tenantID, den_client_identities = identities, den_full_method = fullMethod, den_reason = reason,
      den_message = message\<rparr>"

definition authorize ::
  "'s authorization_config \<Rightarrow> certificate list option \<Rightarrow> string \<Rightarrow> ('r \<Rightarrow> string) option \<Rightarrow> 'r \<Rightarrow> ('s, status option) state" where
  "authorize cfg peer fullMethod extractTenantID req =
     (let refuse = (\<lambda>event code. do { st \<leftarrow> deny cfg event code; State_Monad.return (Some st) })
      in case extractTenantID of
           None \<Rightarrow> refuse (denied [] [] fullMethod ''tenant_id_extractor_missing'' ''tenant id extractor is not configured'') CodeInternal
         | Some extract \<Rightarrow>
             (let tenantID = trim_space (extract req);
                  identities = peerCertificateIdentities peer
              in if tenantID = [] then
                   refuse (denied [] [] fullMethod ''tenant_id_missing'' ''tenant_id is required'') CodeInvalidArgument
                 else if identities = [] then
                   refuse (denied tenantID [] fullMethod ''client_certificate_identity_missing''
                     ''client certificate identity is required'') CodeUnauthenticated
                 else if authorized (newTenantAuthorizer (atz_clients cfg)) identities tenantID then State_Monad.return None
                 else
                   refuse (denied tenantID identities fullMethod ''client_certificate_not_authorized_for_tenant''
                     (''client certificate is not authorized for tenant '' @ quote tenantID)) CodePermissionDenied))"

section \<open>The server\<close>

record 's ingest_server =
  srv_service :: "'s proxy_ingest_service"
  srv_runtime :: "'s runtime"
  srv_authorization :: "'s authorization_config option"
  srv_sha256_hex :: "string \<Rightarrow> string"
  srv_parse_time :: "string \<Rightarrow> time result"

definition respond :: "('s, 'a result) state \<Rightarrow> ('a \<Rightarrow> ingest_response) \<Rightarrow> ('s, status + ingest_response) state" where
  "respond m f = do { r \<leftarrow> m; State_Monad.return (map_sum ToStatusError f r) }"

definition invalid :: "string \<Rightarrow> ('s, status + 'a) state" where
  "invalid m = State_Monad.return (status_error CodeInvalidArgument m)"

definition persistTenantRecord ::
  "'a \<Rightarrow> string \<Rightarrow> string \<Rightarrow> ('a \<Rightarrow> ('s, 'a result) state) \<Rightarrow> ('a \<Rightarrow> ingest_response) \<Rightarrow> ('s, status + ingest_response) state" where
  "persistTenantRecord rec tenantID missing persist toResponse =
     (if trim_space tenantID = [] then invalid missing else respond (persist rec) toResponse)"

definition serveRecordDecision :: "'s ingest_server \<Rightarrow> wire_decision \<Rightarrow> ('s, status + ingest_response) state" where
  "serveRecordDecision srv w =
     (case DecisionToDomain (srv_sha256_hex srv) (srv_parse_time srv) w of
        Inl e \<Rightarrow> invalid (''invalid decision: '' @ err_text e)
      | Inr d \<Rightarrow>
          persistTenantRecord d (dec_tenant_id d) ''decision tenant_id is required''
            (\<lambda>d. RecordDecision (srv_service srv) (Some d)) (DecisionResponse \<circ> FromDomainDecision (srv_sha256_hex srv)))"

definition serveRecordAuditEvent :: "'s ingest_server \<Rightarrow> wire_event \<Rightarrow> ('s, status + ingest_response) state" where
  "serveRecordAuditEvent srv w =
     (case EventToDomain (srv_parse_time srv) w of
        Inl e \<Rightarrow> invalid (''invalid event: '' @ err_text e)
      | Inr e \<Rightarrow>
          persistTenantRecord e (ev_tenant_id e) ''event tenant_id is required''
            (\<lambda>e. RecordAuditEvent (srv_service srv) (Some e)) (EventResponse \<circ> FromDomainAuditEvent))"

definition with_tenant :: "string \<Rightarrow> ('s, status + 'a) state \<Rightarrow> ('s, status + 'a) state" where
  "with_tenant tenantID m = (if trim_space tenantID = [] then invalid ''tenant_id is required'' else m)"

definition serveClaim :: "'s ingest_server \<Rightarrow> string \<Rightarrow> string \<Rightarrow> ('s, status + ingest_response) state" where
  "serveClaim srv tenantID nowText =
     do {
       clock \<leftarrow> time_now (srv_runtime srv);
       (case (if trim_space nowText \<noteq> [] then time_parse (srv_parse_time srv) nowText else Inr clock) of
          Inl e \<Rightarrow> invalid (''invalid now: '' @ err_text e)
        | Inr now \<Rightarrow>
            respond (ClaimDependencyGraphResolve (srv_service srv) (srv_runtime srv) tenantID now)
              (JobResponse \<circ> map_option FromDomainDependencyGraphResolveRequest))
     }"

definition serveComplete ::
  "'s ingest_server \<Rightarrow> wire_job \<Rightarrow> dependency_graph_node list \<Rightarrow> dependency_graph_edge list \<Rightarrow> string \<Rightarrow>
   ('s, status + ingest_response) state" where
  "serveComplete srv job nodes edges hash =
     (if trim_space hash = [] then invalid ''graph_hash is required''
      else respond (CompleteDependencyGraphResolve (srv_service srv) (JobToDomain job) nodes edges hash) (\<lambda>_. EmptyResponse))"

definition serveFail :: "'s ingest_server \<Rightarrow> wire_job \<Rightarrow> string \<Rightarrow> string \<Rightarrow> ('s, status + ingest_response) state" where
  "serveFail srv job message retryText =
     (case time_parse (srv_parse_time srv) retryText of
        Inl e \<Rightarrow> invalid (''invalid retry_after: '' @ err_text e)
      | Inr retryAfter \<Rightarrow>
          respond (FailDependencyGraphResolve (srv_service srv) (JobToDomain job) message retryAfter) (\<lambda>_. EmptyResponse))"

definition serveWatch :: "'s ingest_server \<Rightarrow> string \<Rightarrow> ('s, status + ingest_response) state" where
  "serveWatch srv tenantID =
     do {
       r \<leftarrow> WatchDependencyGraphResolve (srv_service srv) tenantID;
       State_Monad.return (case r of
           Inl _ \<Rightarrow> status_error CodeUnimplemented ''dependency graph job notifications are unavailable''
         | Inr c \<Rightarrow> Inr (WatchResponse c))
     }"

text \<open>The handler of each method.\<close>

fun serve :: "'s ingest_server \<Rightarrow> ingest_request \<Rightarrow> ('s, status + ingest_response) state" where
  "serve srv (RecordDecisionRequest d) = serveRecordDecision srv d"
| "serve srv (GetDecisionByArtifactRequest t a) =
     with_tenant t (respond (GetDecisionByArtifact (srv_service srv) t (ArtifactToDomain a))
       (DecisionResponse \<circ> FromDomainDecision (srv_sha256_hex srv)))"
| "serve srv (ListDecisionsByTenantRequest t limit offset search) =
     with_tenant t (respond (ListDecisionsByTenant (srv_service srv) t limit offset search)
       (DecisionsResponse \<circ> map (FromDomainDecision (srv_sha256_hex srv))))"
| "serve srv (HasRecentAllowRequest t ecosystem namespace name) =
     with_tenant t (respond (IngestHasRecentAllow (srv_service srv) t ecosystem namespace name) AllowedResponse)"
| "serve srv (RecordAuditEventRequest e) = serveRecordAuditEvent srv e"
| "serve srv (EnqueueRequest job) =
     with_tenant (wj_tenant_id job)
       (respond (EnqueueDependencyGraphResolve (srv_service srv) (JobToDomain job)) EnqueuedResponse)"
| "serve srv (ClaimRequest t now) = with_tenant t (serveClaim srv t now)"
| "serve srv (CompleteRequest job nodes edges hash) =
     with_tenant (wj_tenant_id job) (serveComplete srv job nodes edges hash)"
| "serve srv (FailRequest job message retry) = with_tenant (wj_tenant_id job) (serveFail srv job message retry)"
| "serve srv (LookupContextRequest t u a) =
     with_tenant t (respond (LookupDependencyGraphContext (srv_service srv)
         \<lparr>summary_tenant_id = t, summary_upstream_id = u, summary_artifact = ArtifactToDomain a\<rparr>)
       (ContextResponse \<circ> Some))"
| "serve srv (WatchRequest t) = with_tenant t (serveWatch srv t)"

fun method_name :: "ingest_request \<Rightarrow> string" where
  "method_name (RecordDecisionRequest _) = ''RecordDecision''"
| "method_name (GetDecisionByArtifactRequest _ _) = ''GetDecisionByArtifact''"
| "method_name (ListDecisionsByTenantRequest _ _ _ _) = ''ListDecisionsByTenant''"
| "method_name (HasRecentAllowRequest _ _ _ _) = ''HasRecentAllow''"
| "method_name (RecordAuditEventRequest _) = ''RecordAuditEvent''"
| "method_name (EnqueueRequest _) = ''EnqueueDependencyGraphResolve''"
| "method_name (ClaimRequest _ _) = ''ClaimDependencyGraphResolve''"
| "method_name (CompleteRequest _ _ _ _) = ''CompleteDependencyGraphResolve''"
| "method_name (FailRequest _ _ _) = ''FailDependencyGraphResolve''"
| "method_name (LookupContextRequest _ _ _) = ''LookupDependencyGraphContext''"
| "method_name (WatchRequest _) = ''WatchDependencyGraphResolve''"

definition full_method :: "ingest_request \<Rightarrow> string" where
  "full_method req = ''/dependencyfirewall.proxyingest.v1.ProxyIngestService/'' @ method_name req"

text \<open>Decode, authorize, handle.\<close>

definition dispatchUnary ::
  "'s ingest_server \<Rightarrow> certificate list option \<Rightarrow> status + ingest_request \<Rightarrow> ('s, status + ingest_response) state" where
  "dispatchUnary srv peer decoded =
     (case decoded of
        Inl st \<Rightarrow> State_Monad.return (Inl st)
      | Inr req \<Rightarrow>
          (case srv_authorization srv of
             None \<Rightarrow> serve srv req
           | Some cfg \<Rightarrow>
               do {
                 refused \<leftarrow> authorize cfg peer (full_method req) (Some TenantIDFromRequest) req;
                 (case refused of Some st \<Rightarrow> State_Monad.return (Inl st) | None \<Rightarrow> serve srv req)
               }))"

end
