(* ===== verification/Wire_Client.thy ===== *)
theory Wire_Client
  imports Wire_Ingest
begin

text \<open>
  The proxy side of the ingest protocol: the client calls of \<open>internal/wire/ingestgrpc/types.go\<close> and the
  adapters of \<open>internal/infra/ingest\<close>, which give the ports of the domain over a connection (\<open>grpc.go\<close>,
  \<open>decision.go\<close>, \<open>audit.go\<close>, \<open>dependency_graph.go\<close>) or over the service in the same process (\<open>local.go\<close>).

  A connection is the server behind it with what gRPC and the JSON codec contribute: the peer's
  certificates, what arrives of a request and of a response (a status when the call fails on the way), and
  the text of a status error. Client and server run the same library, so the client reads times and
  hashes contexts with the functions of the server's record.

  The properties relate the two sides: a decision survives the conversions, a call without a configured
  grant has no effect, and a resolver behind the protocol does to the job table what the local one does.
\<close>

section \<open>Calls\<close>

record 's connection =
  cn_server :: "'s ingest_server"
  cn_peer :: "certificate list option"
  cn_request :: "ingest_request \<Rightarrow> status + ingest_request"
  cn_response :: "ingest_response \<Rightarrow> status + ingest_response"
  cn_status_text :: "status \<Rightarrow> string"

definition invoke :: "'s connection \<Rightarrow> ingest_request \<Rightarrow> ('s, ingest_response result) state" where
  "invoke conn req =
     do {
       r \<leftarrow> dispatchUnary (cn_server conn) (cn_peer conn) (cn_request conn req);
       State_Monad.return (map_sum (MapClientError (cn_status_text conn)) id
         (case r of Inl st \<Rightarrow> Inl st | Inr response \<Rightarrow> cn_response conn response))
     }"

text \<open>The response type of a call is fixed, so a response of another type does not occur.\<close>

definition unexpected :: "'a result" where
  "unexpected = Inl (plain_error ''response of another method'')"

definition received :: "'s connection \<Rightarrow> ingest_request \<Rightarrow> (ingest_response \<Rightarrow> 'a result) \<Rightarrow> ('s, 'a result) state" where
  "received conn req f = do { r \<leftarrow> invoke conn req; State_Monad.return (bind_result r f) }"

definition read_decision :: "'s connection \<Rightarrow> wire_decision \<Rightarrow> decision result" where
  "read_decision conn = DecisionToDomain (srv_sha256_hex (cn_server conn)) (srv_parse_time (cn_server conn))"

fun read_decisions :: "'s connection \<Rightarrow> wire_decision list \<Rightarrow> decision list result" where
  "read_decisions conn [] = Inr []"
| "read_decisions conn (w # ws) =
     (case read_decision conn w of
        Inl e \<Rightarrow> Inl (wrap_error ''decoding decision'' e)
      | Inr d \<Rightarrow> map_sum id (Cons d) (read_decisions conn ws))"

definition CallRecordDecision :: "'s connection \<Rightarrow> decision option \<Rightarrow> ('s, decision result) state" where
  "CallRecordDecision conn d =
     (case d of
        None \<Rightarrow> fails ''decision is required''
      | Some decision \<Rightarrow>
          received conn (RecordDecisionRequest (FromDomainDecision (srv_sha256_hex (cn_server conn)) decision))
            (\<lambda>r. case r of DecisionResponse w \<Rightarrow> read_decision conn w | _ \<Rightarrow> unexpected))"

definition CallGetDecisionByArtifact :: "'s connection \<Rightarrow> string \<Rightarrow> artifact_identity \<Rightarrow> ('s, decision result) state" where
  "CallGetDecisionByArtifact conn tenantID artifact =
     received conn (GetDecisionByArtifactRequest tenantID (FromDomainArtifactIdentity artifact))
       (\<lambda>r. case r of DecisionResponse w \<Rightarrow> read_decision conn w | _ \<Rightarrow> unexpected)"

definition CallListDecisionsByTenant ::
  "'s connection \<Rightarrow> string \<Rightarrow> int \<Rightarrow> int \<Rightarrow> string \<Rightarrow> ('s, decision list result) state" where
  "CallListDecisionsByTenant conn tenantID limit offset search =
     received conn (ListDecisionsByTenantRequest tenantID limit offset search)
       (\<lambda>r. case r of DecisionsResponse ws \<Rightarrow> read_decisions conn ws | _ \<Rightarrow> unexpected)"

definition CallHasRecentAllow ::
  "'s connection \<Rightarrow> string \<Rightarrow> ecosystem_type \<Rightarrow> string \<Rightarrow> string \<Rightarrow> ('s, bool result) state" where
  "CallHasRecentAllow conn tenantID ecosystem namespace name =
     received conn (HasRecentAllowRequest tenantID ecosystem namespace name)
       (\<lambda>r. case r of AllowedResponse b \<Rightarrow> Inr b | _ \<Rightarrow> unexpected)"

definition CallRecordAuditEvent :: "'s connection \<Rightarrow> audit_event option \<Rightarrow> ('s, audit_event result) state" where
  "CallRecordAuditEvent conn ev =
     (case ev of
        None \<Rightarrow> fails ''event is required''
      | Some event \<Rightarrow>
          received conn (RecordAuditEventRequest (FromDomainAuditEvent event))
            (\<lambda>r. case r of EventResponse w \<Rightarrow> EventToDomain (srv_parse_time (cn_server conn)) w | _ \<Rightarrow> unexpected))"

definition CallEnqueueResolve :: "'s connection \<Rightarrow> dependency_graph_resolve_request \<Rightarrow> ('s, bool result) state" where
  "CallEnqueueResolve conn req =
     received conn (EnqueueRequest (FromDomainDependencyGraphResolveRequest req))
       (\<lambda>r. case r of EnqueuedResponse b \<Rightarrow> Inr b | _ \<Rightarrow> unexpected)"

definition CallClaimResolve ::
  "'s connection \<Rightarrow> string \<Rightarrow> time \<Rightarrow> ('s, dependency_graph_resolve_request option result) state" where
  "CallClaimResolve conn tenantID now =
     received conn (ClaimRequest tenantID (formatTime now))
       (\<lambda>r. case r of JobResponse j \<Rightarrow> Inr (map_option JobToDomain j) | _ \<Rightarrow> unexpected)"

definition CallCompleteResolve ::
  "'s connection \<Rightarrow> dependency_graph_resolve_request \<Rightarrow> dependency_graph_node list \<Rightarrow> dependency_graph_edge list \<Rightarrow>
   string \<Rightarrow> ('s, unit result) state" where
  "CallCompleteResolve conn req nodes edges hash =
     received conn (CompleteRequest (FromDomainDependencyGraphResolveRequest req) nodes edges hash) (\<lambda>_. Inr ())"

definition CallFailResolve ::
  "'s connection \<Rightarrow> dependency_graph_resolve_request \<Rightarrow> string \<Rightarrow> time \<Rightarrow> ('s, unit result) state" where
  "CallFailResolve conn req message retryAfter =
     received conn (FailRequest (FromDomainDependencyGraphResolveRequest req) message (formatTime retryAfter)) (\<lambda>_. Inr ())"

definition CallLookupContext ::
  "'s connection \<Rightarrow> dependency_context_summary_key \<Rightarrow> ('s, dependency_context result) state" where
  "CallLookupContext conn key =
     received conn
       (LookupContextRequest (summary_tenant_id key) (summary_upstream_id key)
          (FromDomainArtifactIdentity (summary_artifact key)))
       (\<lambda>r. case r of
          ContextResponse (Some c) \<Rightarrow> Inr (NormalizeContext (srv_sha256_hex (cn_server conn)) c)
        | ContextResponse None \<Rightarrow> Inl (sentinel_error ErrArtifactNotFound)
        | _ \<Rightarrow> unexpected)"

section \<open>Adapters\<close>

text \<open>A nil adapter, client or service is \<^const>\<open>None\<close>. The record a caller holds is overwritten with the persisted one.\<close>

definition available :: "'c option \<Rightarrow> string \<Rightarrow> ('c \<Rightarrow> ('s, 'a result) state) \<Rightarrow> ('s, 'a result) state" where
  "available c message f = (case c of None \<Rightarrow> fails message | Some x \<Rightarrow> f x)"

definition NewDecisionRepository :: "'s connection option \<Rightarrow> 's decision_repository" where
  "NewDecisionRepository client =
     \<lparr>drp_record = (\<lambda>d. available client ''recording decision: client unavailable'' (\<lambda>c. CallRecordDecision c (Some d))),
      drp_get_by_artifact = (\<lambda>t a. available client ''getting decision by artifact: client unavailable''
        (\<lambda>c. CallGetDecisionByArtifact c t a)),
      drp_list_by_tenant = (\<lambda>t limit offset search. available client ''listing decisions: client unavailable''
        (\<lambda>c. CallListDecisionsByTenant c t limit offset search)),
      drp_has_recent_allow = (\<lambda>t e ns n. available client ''checking recent allow: client unavailable''
        (\<lambda>c. CallHasRecentAllow c t e ns n))\<rparr>"

definition NewAuditEventRecorder :: "'s connection option \<Rightarrow> audit_event \<Rightarrow> ('s, audit_event result) state" where
  "NewAuditEventRecorder client event =
     available client ''recording audit event: client unavailable'' (\<lambda>c. CallRecordAuditEvent c (Some event))"

definition NewDependencyGraphQueue ::
  "'s connection option \<Rightarrow> dependency_graph_resolve_request \<Rightarrow> ('s, bool result) state" where
  "NewDependencyGraphQueue client req =
     available client ''enqueueing dependency graph resolve: client unavailable'' (\<lambda>c. CallEnqueueResolve c req)"

definition NewLocalDependencyGraphQueue ::
  "'s proxy_ingest_service option \<Rightarrow> dependency_graph_resolve_request \<Rightarrow> ('s, bool result) state" where
  "NewLocalDependencyGraphQueue svc req =
     available svc ''enqueueing dependency graph resolve: service unavailable''
       (\<lambda>s. EnqueueDependencyGraphResolve s req)"

definition NewLocalDecisionRepository :: "'s proxy_ingest_service option \<Rightarrow> 's decision_repository" where
  "NewLocalDecisionRepository svc =
     \<lparr>drp_record = (\<lambda>d. available svc ''recording decision: service unavailable'' (\<lambda>s. RecordDecision s (Some d))),
      drp_get_by_artifact = (\<lambda>t a. available svc ''getting decision by artifact: service unavailable''
        (\<lambda>s. GetDecisionByArtifact s t a)),
      drp_list_by_tenant = (\<lambda>t limit offset search. available svc ''listing decisions: service unavailable''
        (\<lambda>s. ListDecisionsByTenant s t limit offset search)),
      drp_has_recent_allow = (\<lambda>t e ns n. available svc ''checking recent allow: service unavailable''
        (\<lambda>s. IngestHasRecentAllow s t e ns n))\<rparr>"

definition NewLocalAuditEventRecorder :: "'s proxy_ingest_service option \<Rightarrow> audit_event \<Rightarrow> ('s, audit_event result) state" where
  "NewLocalAuditEventRecorder svc event =
     available svc ''recording audit event: service unavailable'' (\<lambda>s. RecordAuditEvent s (Some event))"

text \<open>The resolver of a remote worker.\<close>

definition NewGRPCClient :: "'s connection \<Rightarrow> 's graph_resolver" where
  "NewGRPCClient conn =
     \<lparr>grs_claim = CallClaimResolve conn, grs_complete = CallCompleteResolve conn, grs_fail = CallFailResolve conn\<rparr>"

section \<open>Conversions\<close>

lemma formatTime_not_blank: "t \<noteq> zero_time \<Longrightarrow> trim_space (formatTime t) \<noteq> []"
  by (simp add: formatTime_def format_rfc3339_def Let_def trim_space_def trim_by_def is_space_def byte_def
      dropWhile_append)

lemma parse_formatTime:
  assumes "0 \<le> instant_year t" "instant_year t \<le> 9999"
  shows "parseTime general (formatTime t) = Inr t"
    "t \<noteq> zero_time \<Longrightarrow> time_parse general (formatTime t) = Inr t"
  using parse_format [OF assms] formatTime_not_blank [of t]
  by (auto simp: parseTime_def formatTime_def time_parse_def)

lemma artifact_roundtrip [simp]: "ArtifactToDomain (FromDomainArtifactIdentity a) = a"
  by (simp add: ArtifactToDomain_def FromDomainArtifactIdentity_def)

lemma reason_roundtrip [simp]: "ReasonToDomain (FromDomainEvaluationReason r) = r"
  by (simp add: ReasonToDomain_def FromDomainEvaluationReason_def)

lemma cloneDependencyContext_twice:
  assumes "\<And>s. sha s \<noteq> []"
  shows "cloneDependencyContext sha (cloneDependencyContext sha c) = cloneDependencyContext sha c"
  using normalize_context_idem [OF assms] by (cases c) (simp_all add: cloneDependencyContext_def)

text \<open>The fields of a request that the messages do not carry.\<close>

definition bare_upstream :: "upstream \<Rightarrow> upstream" where
  "bare_upstream u =
     u\<lparr>up_capabilities := None, up_auth := None, up_created_at := zero_time, up_updated_at := zero_time\<rparr>"

definition bare_request :: "dependency_graph_resolve_request \<Rightarrow> dependency_graph_resolve_request" where
  "bare_request req =
     req\<lparr>resolve_upstream := bare_upstream (resolve_upstream req), resolve_requested_at := zero_time\<rparr>"

lemma job_roundtrip [simp]:
  "JobToDomain (FromDomainDependencyGraphResolveRequest req) = bare_request req"
  by (simp add: JobToDomain_def FromDomainDependencyGraphResolveRequest_def FromDomainUpstream_def UpstreamToDomain_def
      bare_request_def bare_upstream_def)

section \<open>Authorization\<close>

definition grants :: "authorized_client \<Rightarrow> string list \<Rightarrow> string \<Rightarrow> bool" where
  "grants c identities tenantID \<longleftrightarrow>
     trim_space (client_identity c) \<noteq> [] \<and> trim_space (client_identity c) \<in> set identities \<and>
     (\<exists>t \<in> set (client_tenant_ids c). trim_space t \<noteq> [] \<and> trim_space t \<in> {''*'', tenantID})"

definition tenants_of :: "tenant_authorizer \<Rightarrow> string \<Rightarrow> string set" where
  "tenants_of a identity = (case a identity of None \<Rightarrow> {} | Some ts \<Rightarrow> ts)"

lemma tenants_of_fold:
  "tenants_of (fold add_client clients a) identity = tenants_of a identity \<union>
     {trim_space t | t c. c \<in> set clients \<and> t \<in> set (client_tenant_ids c) \<and> trim_space t \<noteq> [] \<and>
        trim_space (client_identity c) = identity \<and> identity \<noteq> []}"
proof (induction clients arbitrary: a)
  case (Cons c clients)
  have "tenants_of (add_client c a) identity = tenants_of a identity \<union>
      {trim_space t | t. t \<in> set (client_tenant_ids c) \<and> trim_space t \<noteq> [] \<and>
        trim_space (client_identity c) = identity \<and> identity \<noteq> []}"
    by (auto simp: tenants_of_def add_client_def Let_def split: option.splits)
  with Cons.IH [of "add_client c a"] show ?case by (auto 0 3)
qed (simp add: tenants_of_def)

lemma authorized_tenants_of:
  "authorized a identities tenantID \<longleftrightarrow>
     (\<exists>identity \<in> set identities. ''*'' \<in> tenants_of a identity \<or> tenantID \<in> tenants_of a identity)"
  by (auto simp: authorized_def list_ex_iff tenants_of_def split: option.splits)

lemma bex_exchange:
  "(\<exists>i \<in> I. \<exists>u \<in> U. \<exists>c \<in> C. \<exists>t \<in> T c. u = f t \<and> P t \<and> g c = i \<and> Q i) \<longleftrightarrow>
   (\<exists>c \<in> C. Q (g c) \<and> g c \<in> I \<and> (\<exists>t \<in> T c. P t \<and> f t \<in> U))"
  by blast

lemma authorized_iff:
  "authorized (newTenantAuthorizer clients) identities tenantID \<longleftrightarrow> (\<exists>c \<in> set clients. grants c identities tenantID)"
proof -
  have mem: "u \<in> tenants_of (newTenantAuthorizer clients) identity \<longleftrightarrow>
      (\<exists>c \<in> set clients. \<exists>t \<in> set (client_tenant_ids c). u = trim_space t \<and> trim_space t \<noteq> [] \<and>
         trim_space (client_identity c) = identity \<and> identity \<noteq> [])" for u identity
    unfolding newTenantAuthorizer_def tenants_of_fold by (auto simp: tenants_of_def [of "\<lambda>_. None"])
  have "authorized (newTenantAuthorizer clients) identities tenantID \<longleftrightarrow>
      (\<exists>identity \<in> set identities. \<exists>u \<in> {''*'', tenantID}. \<exists>c \<in> set clients. \<exists>t \<in> set (client_tenant_ids c).
         u = trim_space t \<and> trim_space t \<noteq> [] \<and> trim_space (client_identity c) = identity \<and> identity \<noteq> [])"
    unfolding authorized_tenants_of mem by simp
  also have "\<dots> \<longleftrightarrow> (\<exists>c \<in> set clients. grants c identities tenantID)"
    unfolding grants_def by (rule bex_exchange)
  finally show ?thesis .
qed

lemma granted_identities: "grants c identities tenantID \<Longrightarrow> identities \<noteq> []"
  by (auto simp: grants_def)

text \<open>What \<open>authorize\<close> decides.\<close>

definition granted :: "'s ingest_server \<Rightarrow> certificate list option \<Rightarrow> string \<Rightarrow> bool" where
  "granted srv peer tenantID \<longleftrightarrow>
     (case srv_authorization srv of
        None \<Rightarrow> True
      | Some cfg \<Rightarrow> trim_space tenantID \<noteq> [] \<and>
          (\<exists>c \<in> set (atz_clients cfg). grants c (peerCertificateIdentities peer) (trim_space tenantID)))"

lemma authorize_granted:
  assumes "trim_space (TenantIDFromRequest req) \<noteq> []"
    and "\<exists>c \<in> set (atz_clients cfg). grants c (peerCertificateIdentities peer) (trim_space (TenantIDFromRequest req))"
  shows "authorize cfg peer m (Some TenantIDFromRequest) req = State_Monad.return None"
proof -
  from assms(2) have "peerCertificateIdentities peer \<noteq> []" using granted_identities by blast
  with assms show ?thesis by (simp add: authorize_def Let_def authorized_iff)
qed

lemma dispatch_granted:
  assumes "granted srv peer (TenantIDFromRequest req)"
  shows "dispatchUnary srv peer (Inr req) = serve srv req"
  using assms by (auto simp: dispatchUnary_def granted_def authorize_granted split: option.splits)

text \<open>The event of a refusal.\<close>

definition refusal :: "'s authorization_config \<Rightarrow> denied_event \<Rightarrow> status \<Rightarrow> ('s, status + ingest_response) state" where
  "refusal cfg event st =
     do {
       _ \<leftarrow> (case atz_denied_recorder cfg of None \<Rightarrow> State_Monad.return (Inr ()) | Some recorder \<Rightarrow> recorder event);
       State_Monad.return (Inl st)
     }"

lemma trim_full_method [simp]: "trim_space (full_method req) = full_method req"
  by (cases req) (simp_all add: full_method_def trim_space_def trim_by_def is_space_def byte_def)

lemma deny_refusal:
  "\<exists>event' st. do { st \<leftarrow> deny cfg event code; State_Monad.return (Inl st) } = refusal cfg event' st \<and>
     st_code st = code \<and> den_full_method event' = trim_space (den_full_method event)"
  by (rule exI [of _ "event\<lparr>den_tenant_id := _, den_full_method := _, den_reason := _, den_message := _\<rparr>"],
      rule exI [of _ "\<lparr>st_code = _, st_message = _\<rparr>"])
    (simp add: deny_def refusal_def Let_def)

section \<open>The properties\<close>

text \<open>A decision survives the protocol: for times RFC 3339 can write, reading the message of a decision gives
  the decision back, its dependency context in normal form and nothing else changed.\<close>

lemma wire_decision_roundtrip:
  assumes "\<And>s. sha s \<noteq> []"
    and "0 \<le> instant_year (dec_evaluated_at d)" "instant_year (dec_evaluated_at d) \<le> 9999"
    and "\<And>t. dec_cached_at d = Some t \<Longrightarrow> 0 \<le> instant_year t \<and> instant_year t \<le> 9999"
  shows "DecisionToDomain sha general (FromDomainDecision sha d) =
    Inr (d\<lparr>dec_dependency_context := map_option (NormalizeContext sha) (dec_dependency_context d)\<rparr>)"
proof -
  have "map (ReasonToDomain \<circ> FromDomainEvaluationReason) rs = rs" for rs by (simp add: comp_def)
  moreover have "parseTime general (formatTime t) = Inr t" if "dec_cached_at d = Some t" for t
    using assms(4) [OF that] by (simp add: parse_formatTime)
  ultimately show ?thesis
    using assms(2,3) cloneDependencyContext_twice [OF assms(1)]
    by (cases d; cases "dec_cached_at d")
      (simp_all add: DecisionToDomain_def FromDomainDecision_def parse_formatTime Let_def cloneDependencyContext_def)
qed

lemma wire_decision_roundtrip_witness:
  "DecisionToDomain (\<lambda>_. ''h'') (\<lambda>_. Inl (plain_error ''time'')) (FromDomainDecision (\<lambda>_. ''h'') (cached_decision\<lparr>dec_cached_at := Some 7\<rparr>)) =
     Inr ((cached_decision\<lparr>dec_cached_at := Some 7\<rparr>)
       \<lparr>dec_dependency_context := map_option (NormalizeContext (\<lambda>_. ''h'')) (dec_dependency_context cached_decision)\<rparr>)"
proof -
  have "instant_year (dec_evaluated_at cached_decision) = 1970" "instant_year 7 = 1970" by code_simp+
  then show ?thesis
    using wire_decision_roundtrip [of "\<lambda>_. ''h''" "cached_decision\<lparr>dec_cached_at := Some 7\<rparr>" "\<lambda>_. Inl (plain_error ''time'')"] by simp
qed

text \<open>C20. An RPC without a grant has no effect: when no configured client owns an identity of the peer's certificate
  and a tenant list with the tenant of the request or the wildcard, the server answers with an
  authorization status, records the refusal where a recorder is configured, and does nothing else.\<close>

theorem ungranted_call_no_effect:
  assumes "srv_authorization srv = Some cfg" and "\<not> granted srv peer (TenantIDFromRequest req)"
  shows "\<exists>event st. st_code st \<in> {CodeInvalidArgument, CodeUnauthenticated, CodePermissionDenied} \<and>
    den_full_method event = full_method req \<and> dispatchUnary srv peer (Inr req) = refusal cfg event st"
proof -
  let ?tenant = "trim_space (TenantIDFromRequest req)" and ?ids = "peerCertificateIdentities peer"
  define event code where "event = (if ?tenant = [] then denied [] [] (full_method req) ''tenant_id_missing'' ''tenant_id is required''
      else if ?ids = [] then denied ?tenant [] (full_method req) ''client_certificate_identity_missing''
        ''client certificate identity is required''
      else denied ?tenant ?ids (full_method req) ''client_certificate_not_authorized_for_tenant''
        (''client certificate is not authorized for tenant '' @ quote ?tenant))"
    and "code = (if ?tenant = [] then CodeInvalidArgument else if ?ids = [] then CodeUnauthenticated else CodePermissionDenied)"
  have "?tenant = [] \<or> \<not> authorized (newTenantAuthorizer (atz_clients cfg)) ?ids ?tenant"
    using assms by (auto simp: granted_def authorized_iff)
  then have "dispatchUnary srv peer (Inr req) = do { st \<leftarrow> deny cfg event code; State_Monad.return (Inl st) }"
    by (auto simp: dispatchUnary_def assms(1) authorize_def Let_def event_def code_def)
  moreover have "den_full_method event = full_method req" by (simp add: event_def denied_def)
  moreover have "code \<in> {CodeInvalidArgument, CodeUnauthenticated, CodePermissionDenied}" by (simp add: code_def)
  ultimately show ?thesis
    using deny_refusal [of cfg event code] by (metis trim_full_method)
qed

definition sample_server :: "graph_env \<Rightarrow> control_state ingest_server" where
  "sample_server env =
     \<lparr>srv_service = store_ingest env, srv_runtime = \<lparr>rt_ctx_err = \<lambda>_. None, rt_now = \<lambda>_. 9\<rparr>,
      srv_authorization = Some
        \<lparr>atz_clients = [\<lparr>client_identity = '' proxy.a '', client_tenant_ids = [''t'', '' '']\<rparr>], atz_denied_recorder = None\<rparr>,
      srv_sha256_hex = (\<lambda>_. ''h''), srv_parse_time = (\<lambda>_. Inl (plain_error ''time''))\<rparr>"

definition sample_certificate :: "string \<Rightarrow> certificate" where
  "sample_certificate name =
     \<lparr>cert_uris = [], cert_dns_names = [name], cert_email_addresses = [], cert_common_name = []\<rparr>"

theorem ungranted_call_no_effect_witness:
  "\<exists>event st. st_code st \<in> {CodeInvalidArgument, CodeUnauthenticated, CodePermissionDenied} \<and>
    den_full_method event = full_method (ClaimRequest ''*'' []) \<and>
    dispatchUnary (sample_server sample_env) (Some [sample_certificate ''proxy.a'']) (Inr (ClaimRequest ''*'' [])) =
      refusal \<lparr>atz_clients = [\<lparr>client_identity = '' proxy.a '', client_tenant_ids = [''t'', '' '']\<rparr>],
        atz_denied_recorder = None\<rparr> event st"
proof (rule ungranted_call_no_effect)
  show "\<not> granted (sample_server sample_env) (Some [sample_certificate ''proxy.a'']) (TenantIDFromRequest (ClaimRequest ''*'' []))"
    by code_simp
qed (simp add: sample_server_def)

section \<open>Remote workers\<close>

text \<open>What a caller sees of an error of the service.\<close>

definition remote_error :: "(status \<Rightarrow> string) \<Rightarrow> go_error \<Rightarrow> go_error" where
  "remote_error txt e = MapClientError txt (ToStatusError e)"

lemma received_granted:
  assumes "granted (cn_server c) (cn_peer c) (TenantIDFromRequest req)" "cn_request c req = Inr req"
  shows "received c req f = do {
      r \<leftarrow> serve (cn_server c) req;
      State_Monad.return (case r of
          Inl st \<Rightarrow> Inl (MapClientError (cn_status_text c) st)
        | Inr m \<Rightarrow> (case cn_response c m of Inl st \<Rightarrow> Inl (MapClientError (cn_status_text c) st) | Inr m' \<Rightarrow> f m')) }"
  using assms
  by (simp add: received_def invoke_def dispatch_granted bind_result_def cong: sum.case_cong)
    (auto intro!: arg_cong2 [of _ _ _ _ State_Monad.bind] simp: fun_eq_iff split: sum.splits)

lemma bare_request_simps [simp]:
  "resolve_tenant_id (bare_request req) = resolve_tenant_id req"
  "up_id (resolve_upstream (bare_request req)) = up_id (resolve_upstream req)"
  "resolve_root (bare_request req) = resolve_root req"
  "request_key (bare_request req) = request_key req"
  by (simp_all add: bare_request_def bare_upstream_def request_key_def)

lemma insert_summary_bare [simp]:
  "insertDependencyContextSummary env (bare_request req) = insertDependencyContextSummary env req"
  by (intro ext) (simp add: insertDependencyContextSummary_def cong: sum.case_cong if_cong)

lemma insert_nodes_bare [simp]:
  "insertDependencyGraphNodes env (bare_request req) rid ns ids = insertDependencyGraphNodes env req rid ns ids"
  by (induction ns arbitrary: ids) (rule ext, simp)+

lemma CompleteResolve_bare [simp]:
  "CompleteResolve env (bare_request req) nodes edges hash db = CompleteResolve env req nodes edges hash db"
  by (simp add: CompleteResolve_def dependencyGraphRootID_def)

lemma FailResolve_bare [simp]: "FailResolve env (bare_request req) message t db = FailResolve env req message t db"
  by (simp add: FailResolve_def)

lemma EnqueueResolve_bare [simp]: "EnqueueResolve env (bare_request req) db = EnqueueResolve env req db"
  by (simp add: EnqueueResolve_def cong: if_cong)

lemma claimed_bare:
  assumes "fst (ClaimNextResolveJob env t now db) = Inr (Some req)"
  shows "bare_request req = req\<lparr>resolve_requested_at := zero_time\<rparr>"
  using assms
  by (auto simp: ClaimNextResolveJob_def claimed_request_def bare_request_def bare_upstream_def Let_def
      split: if_splits sum.splits option.splits)

text \<open>The resolver of the store, and a connection to a control plane over it that delivers the messages.\<close>

definition store_resolver :: "graph_env \<Rightarrow> control_state graph_resolver" where
  "store_resolver env =
     \<lparr>grs_claim = (\<lambda>t now. State (\<lambda>s. case ClaimNextResolveJob env t now (cps_db s) of (r, db) \<Rightarrow> (r, s\<lparr>cps_db := db\<rparr>))),
      grs_complete = (\<lambda>req ns es h. State (\<lambda>s. case CompleteResolve env req ns es h (cps_db s) of (r, db) \<Rightarrow> (r, s\<lparr>cps_db := db\<rparr>))),
      grs_fail = (\<lambda>req m t. State (\<lambda>s. case FailResolve env req m t (cps_db s) of (r, db) \<Rightarrow> (r, s\<lparr>cps_db := db\<rparr>)))\<rparr>"

lemma backend_resolver [simp]: "ing_resolver (store_ingest env) = Some (store_resolver env)"
  by (simp add: store_ingest_def NewProxyIngestService_def store_backend_def store_resolver_def)

definition delivers :: "'s connection \<Rightarrow> ingest_request \<Rightarrow> bool" where
  "delivers c req \<longleftrightarrow> cn_request c req = Inr req \<and> cn_response c EmptyResponse = Inr EmptyResponse \<and>
     (\<forall>job. cn_response c (JobResponse job) = Inr (JobResponse job))"

lemma remote_claim:
  assumes "srv_service (cn_server c) = store_ingest env" "granted (cn_server c) (cn_peer c) tenantID"
    and "trim_space tenantID \<noteq> []" "now \<noteq> zero_time" "0 \<le> instant_year now" "instant_year now \<le> 9999"
    and "delivers c (ClaimRequest tenantID (formatTime now))"
  shows "run_state (grs_claim (NewGRPCClient c) tenantID now) s =
    map_prod (map_sum (remote_error (cn_status_text c)) (map_option (\<lambda>j. j\<lparr>resolve_requested_at := zero_time\<rparr>))) id
      (run_state (grs_claim (store_resolver env) tenantID now) s)"
proof -
  obtain r db where run: "ClaimNextResolveJob env tenantID now (cps_db s) = (r, db)" by fastforce
  have bare: "map_option (JobToDomain \<circ> FromDomainDependencyGraphResolveRequest) j =
      map_option (\<lambda>j. j\<lparr>resolve_requested_at := zero_time\<rparr>) j" if "r = Inr j" for j
    using claimed_bare [of env tenantID now "cps_db s"] that by (cases j) (simp_all add: run)
  have "run_state (serve (cn_server c) (ClaimRequest tenantID (formatTime now))) s =
      (map_sum ToStatusError (JobResponse \<circ> map_option FromDomainDependencyGraphResolveRequest) r, s\<lparr>cps_db := db\<rparr>)"
    using assms(1-6)
    by (simp add: with_tenant_def serveClaim_def formatTime_not_blank parse_formatTime respond_def
        ClaimDependencyGraphResolve_def time_now_def read_world_def store_resolver_def run)
  then show ?thesis
    using assms(2,7) bare
    by (cases r) (simp_all add: NewGRPCClient_def CallClaimResolve_def received_granted delivers_def
        remote_error_def store_resolver_def run option.map_comp)
qed

lemma remote_complete:
  assumes "srv_service (cn_server c) = store_ingest env" "granted (cn_server c) (cn_peer c) (resolve_tenant_id req)"
    and "trim_space (resolve_tenant_id req) \<noteq> []" "trim_space hash \<noteq> []"
    and "delivers c (CompleteRequest (FromDomainDependencyGraphResolveRequest req) nodes edges hash)"
  shows "run_state (grs_complete (NewGRPCClient c) req nodes edges hash) s =
    map_prod (map_sum (remote_error (cn_status_text c)) id) id
      (run_state (grs_complete (store_resolver env) req nodes edges hash) s)"
proof -
  obtain r db where run: "CompleteResolve env req nodes edges hash (cps_db s) = (r, db)" by fastforce
  have tenant: "wj_tenant_id (FromDomainDependencyGraphResolveRequest req) = resolve_tenant_id req"
    by (simp add: FromDomainDependencyGraphResolveRequest_def)
  have "run_state (serve (cn_server c) (CompleteRequest (FromDomainDependencyGraphResolveRequest req) nodes edges hash)) s =
      (map_sum ToStatusError (\<lambda>_. EmptyResponse) r, s\<lparr>cps_db := db\<rparr>)"
    using assms(1-4)
    by (simp add: with_tenant_def serveComplete_def respond_def tenant CompleteDependencyGraphResolve_def
        store_resolver_def run)
  then show ?thesis
    using assms(2,5)
    by (cases r) (simp_all add: NewGRPCClient_def CallCompleteResolve_def received_granted delivers_def tenant
        remote_error_def store_resolver_def run)
qed

lemma remote_fail:
  assumes "srv_service (cn_server c) = store_ingest env" "granted (cn_server c) (cn_peer c) (resolve_tenant_id req)"
    and "trim_space (resolve_tenant_id req) \<noteq> []"
    and "retryAfter \<noteq> zero_time" "0 \<le> instant_year retryAfter" "instant_year retryAfter \<le> 9999"
    and "delivers c (FailRequest (FromDomainDependencyGraphResolveRequest req) message (formatTime retryAfter))"
  shows "run_state (grs_fail (NewGRPCClient c) req message retryAfter) s =
    map_prod (map_sum (remote_error (cn_status_text c)) id) id
      (run_state (grs_fail (store_resolver env) req message retryAfter) s)"
proof -
  obtain r db where run: "FailResolve env req message retryAfter (cps_db s) = (r, db)" by fastforce
  have tenant: "wj_tenant_id (FromDomainDependencyGraphResolveRequest req) = resolve_tenant_id req"
    by (simp add: FromDomainDependencyGraphResolveRequest_def)
  have "run_state (serve (cn_server c) (FailRequest (FromDomainDependencyGraphResolveRequest req) message (formatTime retryAfter))) s =
      (map_sum ToStatusError (\<lambda>_. EmptyResponse) r, s\<lparr>cps_db := db\<rparr>)"
    using assms(1-6)
    by (simp add: with_tenant_def serveFail_def respond_def tenant FailDependencyGraphResolve_def parse_formatTime
        store_resolver_def run)
  then show ?thesis
    using assms(2,7)
    by (cases r) (simp_all add: NewGRPCClient_def CallFailResolve_def received_granted delivers_def tenant
        remote_error_def store_resolver_def run)
qed

text \<open>C21. A worker behind the protocol does what a local one does: over a connection that delivers its messages,
  with a grant for the tenant, claiming, completing and failing a job return what the resolver over the
  store returns and leave the same control state. A claimed job comes without its time, and an error as
  the status error of its text.\<close>

theorem remote_resolver_equals_local:
  assumes "srv_service (cn_server c) = store_ingest env"
    and "granted (cn_server c) (cn_peer c) (resolve_tenant_id req)" "trim_space (resolve_tenant_id req) \<noteq> []"
    and "trim_space hash \<noteq> []"
    and "\<forall>t \<in> {now, retryAfter}. t \<noteq> zero_time \<and> 0 \<le> instant_year t \<and> instant_year t \<le> 9999"
    and "\<forall>m \<in> {ClaimRequest (resolve_tenant_id req) (formatTime now),
        CompleteRequest (FromDomainDependencyGraphResolveRequest req) nodes edges hash,
        FailRequest (FromDomainDependencyGraphResolveRequest req) message (formatTime retryAfter)}. delivers c m"
  shows "run_state (grs_claim (NewGRPCClient c) (resolve_tenant_id req) now) s =
      map_prod (map_sum (remote_error (cn_status_text c)) (map_option (\<lambda>j. j\<lparr>resolve_requested_at := zero_time\<rparr>))) id
        (run_state (grs_claim (store_resolver env) (resolve_tenant_id req) now) s) \<and>
    run_state (grs_complete (NewGRPCClient c) req nodes edges hash) s =
      map_prod (map_sum (remote_error (cn_status_text c)) id) id
        (run_state (grs_complete (store_resolver env) req nodes edges hash) s) \<and>
    run_state (grs_fail (NewGRPCClient c) req message retryAfter) s =
      map_prod (map_sum (remote_error (cn_status_text c)) id) id
        (run_state (grs_fail (store_resolver env) req message retryAfter) s)"
  using assms by (intro conjI remote_claim remote_complete remote_fail) simp_all

definition sample_connection :: "graph_env \<Rightarrow> control_state connection" where
  "sample_connection env =
     \<lparr>cn_server = sample_server env, cn_peer = Some [sample_certificate ''proxy.a''], cn_request = Inr, cn_response = Inr,
      cn_status_text = (\<lambda>st. ''rpc error: '' @ st_message st)\<rparr>"

theorem remote_resolver_equals_local_witness:
  "run_state (grs_claim (NewGRPCClient (sample_connection sample_env)) ''t'' 9)
     (snd (run_state (EnqueueDependencyGraphResolve (store_ingest sample_env) (sample_job ''left'')) sample_control)) =
   map_prod (map_sum (remote_error (\<lambda>st. ''rpc error: '' @ st_message st))
       (map_option (\<lambda>j. j\<lparr>resolve_requested_at := zero_time\<rparr>))) id
     (run_state (grs_claim (store_resolver sample_env) ''t'' 9)
       (snd (run_state (EnqueueDependencyGraphResolve (store_ingest sample_env) (sample_job ''left'')) sample_control)))"
proof -
  let ?c = "sample_connection sample_env" and ?req = "sample_job ''left''"
  have tenant: "resolve_tenant_id ?req = ''t''" by (simp add: sample_job_def)
  have server: "srv_service (cn_server ?c) = store_ingest sample_env"
    by (simp add: sample_connection_def sample_server_def)
  have grant: "granted (cn_server ?c) (cn_peer ?c) (resolve_tenant_id ?req)" by code_simp
  have year: "instant_year 9 = 1970" by code_simp
  have time: "\<forall>t \<in> {9, 9}. t \<noteq> zero_time \<and> 0 \<le> instant_year t \<and> instant_year t \<le> 9999"
    by (simp add: year) (simp add: zero_time_def)
  have "trim_space ''t'' \<noteq> []" "trim_space ''h'' \<noteq> []" by code_simp+
  with remote_resolver_equals_local [OF server grant _ _ time, of "''h''" "[]" "[]" "[]"] tenant show ?thesis
    by (simp add: delivers_def sample_connection_def)
qed

end
