(* ===== verification/Oci_Paths.thy ===== *)
theory Oci_Paths
  imports Go_Path Policy_Config
begin

text \<open>
  Where the disk cache of OCI artifacts keeps its files (\<open>infra/ocicache/disk.go\<close>: digests, path
  components, scope roots), over \<open>url.PathEscape\<close> and the joining of paths.

  The lemmas show that the file names of a scope lie below its directory and that an entry of another
  tenant, upstream, kind or digest has other file names. The components of a scope must not be \<open>.\<close> or
  \<open>..\<close>, which \<open>url.PathEscape\<close> leaves as they are.
\<close>

section \<open>Cleaning\<close>

text \<open>The elements of a path after \<open>path.Clean\<close>, innermost first, and the text they are written as.\<close>

definition path_stack :: "string \<Rightarrow> string list" where
  "path_stack s = foldl (clean_step (has_prefix ''/'' s)) [] (slash_parts s)"

definition path_text :: "bool \<Rightarrow> string list \<Rightarrow> string" where
  "path_text rooted stack =
     (let out = join ''/'' (rev stack)
      in if rooted then ''/'' @ out else if out = [] then ''.'' else out)"

definition plain_element :: "string \<Rightarrow> bool" where
  "plain_element e \<longleftrightarrow> e \<noteq> [] \<and> e \<noteq> ''.'' \<and> e \<noteq> ''..'' \<and> CHR ''/'' \<notin> set e"

definition clean_stack :: "bool \<Rightarrow> string list \<Rightarrow> bool" where
  "clean_stack rooted stack \<longleftrightarrow>
     (\<exists>es n. stack = es @ replicate n ''..'' \<and> (\<forall>e \<in> set es. plain_element e) \<and> (rooted \<longrightarrow> n = 0))"

lemma path_clean_text: "path_clean s = path_text (has_prefix ''/'' s) (path_stack s)"
  by (simp add: path_clean_def path_text_def path_stack_def Let_def)

lemma clean_stackI:
  "\<forall>e \<in> set es. plain_element e \<Longrightarrow> rooted \<longrightarrow> n = 0 \<Longrightarrow> clean_stack rooted (es @ replicate n ''..'')"
  unfolding clean_stack_def by blast

lemma plain_step: "plain_element e \<Longrightarrow> clean_step rooted st e = e # st"
  by (auto simp: clean_step_def plain_element_def)

lemma clean_step_stack:
  assumes "clean_stack rooted st" "CHR ''/'' \<notin> set e"
  shows "clean_stack rooted (clean_step rooted st e)"
proof -
  from assms(1) obtain es n where st: "st = es @ replicate n ''..''" "\<forall>e \<in> set es. plain_element e" "rooted \<longrightarrow> n = 0"
    by (auto simp: clean_stack_def)
  consider "e = [] \<or> e = ''.''" | "e = ''..''" | "plain_element e" using assms(2) by (auto simp: plain_element_def)
  then show ?thesis
  proof cases
    case 1
    with assms(1) show ?thesis by (auto simp: clean_step_def)
  next
    case 3
    with clean_stackI [of "e # es" rooted n] st show ?thesis by (simp add: plain_step)
  next
    case 2
    show ?thesis
    proof (cases es)
      case (Cons x xs)
      then have "plain_element x" using st(2) by simp
      with 2 Cons st(1) have "clean_step rooted st e = xs @ replicate n ''..''"
        by (auto simp: clean_step_def plain_element_def)
      with clean_stackI [of xs rooted n] Cons st show ?thesis by simp
    next
      case Nil
      with 2 st have "clean_step rooted st e = replicate (if rooted then 0 else Suc n) ''..''"
        by (cases n) (auto simp: clean_step_def)
      with clean_stackI [of "[]" rooted "if rooted then 0 else Suc n"] show ?thesis by (simp split: if_splits)
    qed
  qed
qed

lemma slash_parts_no_slash: "e \<in> set (slash_parts s) \<Longrightarrow> CHR ''/'' \<notin> set e"
  unfolding slash_parts_def using split_by_pieces by blast

lemma clean_steps_stack:
  "clean_stack rooted st \<Longrightarrow> \<forall>e \<in> set es. CHR ''/'' \<notin> set e \<Longrightarrow> clean_stack rooted (foldl (clean_step rooted) st es)"
  by (induction es arbitrary: st) (auto intro: clean_step_stack)

lemma clean_path_stack: "clean_stack (has_prefix ''/'' s) (path_stack s)"
  unfolding path_stack_def
  using clean_steps_stack [of _ "[]"] clean_stackI [of "[]" _ 0] slash_parts_no_slash by simp

lemma dots_step: "\<not> rooted \<Longrightarrow> foldl (clean_step rooted) [] (replicate n ''..'') = replicate n ''..''"
proof (induction n)
  case (Suc n)
  have "replicate (Suc n) ''..'' = replicate n ''..'' @ [''..'']" by (simp only: replicate_append_same replicate_Suc)
  with Suc have "foldl (clean_step rooted) [] (replicate (Suc n) ''..'') = clean_step rooted (replicate n ''..'') ''..''"
    by (simp add: foldl_append del: replicate_Suc)
  also have "\<dots> = replicate (Suc n) ''..''" using Suc.prems by (cases n) (simp_all add: clean_step_def)
  finally show ?case .
qed simp

lemma plain_steps: "\<forall>e \<in> set es. plain_element e \<Longrightarrow> foldl (clean_step rooted) st es = rev es @ st"
  by (induction es arbitrary: st) (simp_all add: plain_step)

lemma clean_steps_fixed:
  assumes "clean_stack rooted st"
  shows "foldl (clean_step rooted) [] (rev st) = st"
proof -
  from assms obtain es n where st: "st = es @ replicate n ''..''" "\<forall>e \<in> set es. plain_element e" "rooted \<longrightarrow> n = 0"
    by (auto simp: clean_stack_def)
  have "foldl (clean_step rooted) [] (replicate n ''..'') = replicate n ''..''"
    using dots_step [of rooted n] st(3) by (cases rooted) simp_all
  with st(2) plain_steps [of "rev es" rooted] show ?thesis by (simp add: st(1))
qed

lemma clean_stack_elements:
  assumes "clean_stack rooted st" "e \<in> set st"
  shows "e \<noteq> []" "CHR ''/'' \<notin> set e"
proof -
  from assms have "plain_element e \<or> e = ''..''" by (auto simp: clean_stack_def set_replicate_conv_if split: if_splits)
  then show "e \<noteq> []" "CHR ''/'' \<notin> set e" by (auto simp: plain_element_def)
qed

text \<open>A cleaned path is read back to the elements it was written from.\<close>

lemma join_slash_Nil: "join ''/'' es = [] \<Longrightarrow> [] \<notin> set es \<Longrightarrow> es = []"
  by (cases "(''/'', es)" rule: join.cases) auto

lemma slash_parts_join: "es \<noteq> [] \<Longrightarrow> \<forall>e \<in> set es. CHR ''/'' \<notin> set e \<Longrightarrow> slash_parts (join ''/'' es) = es"
  using split_by_join [of "\<lambda>c. c = CHR ''/''" "CHR ''/''" es] by (auto simp: slash_parts_def)

lemma join_hd: "es \<noteq> [] \<Longrightarrow> hd es \<noteq> [] \<Longrightarrow> join ''/'' es \<noteq> [] \<and> hd (join ''/'' es) = hd (hd es)"
  by (cases "(''/'', es)" rule: join.cases) auto

lemma has_prefix_slash: "has_prefix ''/'' s \<longleftrightarrow> s \<noteq> [] \<and> hd s = CHR ''/''"
  by (cases s) (auto simp: has_prefix_def)

lemma text_prefix:
  assumes "clean_stack rooted st"
  shows "has_prefix ''/'' (path_text rooted st) = rooted"
proof (cases "st = []")
  case True
  then show ?thesis by (simp add: path_text_def has_prefix_slash)
next
  case False
  then have "hd (rev st) \<in> set st" by (simp add: hd_rev)
  note el = clean_stack_elements [OF assms this]
  with join_hd [of "rev st"] False have "join ''/'' (rev st) \<noteq> []" "hd (join ''/'' (rev st)) = hd (hd (rev st))" by auto
  moreover from el have "hd (hd (rev st)) \<noteq> CHR ''/''" using hd_in_set by metis
  ultimately show ?thesis by (simp add: path_text_def Let_def has_prefix_slash)
qed

lemma stack_text:
  assumes "clean_stack rooted st"
  shows "path_stack (path_text rooted st) = st"
proof (cases "st = []")
  case True
  then show ?thesis
    by (cases rooted) (simp_all add: path_text_def path_stack_def slash_parts_def clean_step_def has_prefix_def)
next
  case False
  then have parts: "slash_parts (join ''/'' (rev st)) = rev st"
    using clean_stack_elements(2) [OF assms] by (intro slash_parts_join) auto
  moreover have "join ''/'' (rev st) \<noteq> []"
    using False clean_stack_elements(1) [OF assms] join_slash_Nil [of "rev st"] by auto
  ultimately show ?thesis
    using clean_steps_fixed [OF assms]
    unfolding path_stack_def text_prefix [OF assms]
    by (cases rooted) (simp_all add: path_text_def Let_def slash_parts_Cons clean_step_def)
qed

lemma text_inject: "clean_stack r st \<Longrightarrow> clean_stack r st' \<Longrightarrow> path_text r st = path_text r st' \<Longrightarrow> st = st'"
  by (metis stack_text)

lemma join_append: "xs \<noteq> [] \<Longrightarrow> ys \<noteq> [] \<Longrightarrow> join ''/'' (xs @ ys) = join ''/'' xs @ ''/'' @ join ''/'' ys"
  by (induction xs rule: induct_list012) (auto simp: neq_Nil_conv)

lemma slash_parts_slash: "slash_parts (s @ CHR ''/'' # t) = slash_parts s @ slash_parts t"
  unfolding slash_parts_def by (induction s) (auto split: list.split)

text \<open>Joining plain elements to a path.\<close>

lemma path_join_plain:
  assumes "base \<noteq> []" "es \<noteq> []" "\<forall>e \<in> set es. plain_element e"
  shows "path_join (base # es) = path_text (has_prefix ''/'' base) (rev es @ path_stack base)"
proof -
  have "filter (\<lambda>e. e \<noteq> []) (base # es) = [base] @ es"
    using assms(1,3) by (auto simp: plain_element_def filter_id_conv)
  then have join: "path_join (base # es) = path_clean (base @ CHR ''/'' # join ''/'' es)"
    using join_append [of "[base]" es] assms(2) by (simp add: path_join_def Let_def)
  have "slash_parts (join ''/'' es) = es"
    using assms(2,3) by (intro slash_parts_join) (auto simp: plain_element_def)
  moreover have "has_prefix ''/'' (base @ CHR ''/'' # join ''/'' es) = has_prefix ''/'' base"
    using assms(1) by (simp add: has_prefix_slash)
  ultimately show ?thesis
    using plain_steps [OF assms(3)]
    by (simp add: join path_clean_text path_stack_def slash_parts_slash foldl_append)
qed

lemma joined_stack:
  assumes "base \<noteq> []" "es \<noteq> []" "\<forall>e \<in> set es. plain_element e"
  shows "path_stack (path_join (base # es)) = rev es @ path_stack base"
    "has_prefix ''/'' (path_join (base # es)) = has_prefix ''/'' base"
    "path_join (base # es) \<noteq> []"
proof -
  have st: "clean_stack (has_prefix ''/'' base) (rev es @ path_stack base)"
  proof -
    obtain es' n where "path_stack base = es' @ replicate n ''..''" "\<forall>e \<in> set es'. plain_element e"
      "has_prefix ''/'' base \<longrightarrow> n = 0"
      using clean_path_stack [of base] by (auto simp: clean_stack_def)
    with clean_stackI [of "rev es @ es'" _ n] assms(3) show ?thesis by (simp add: ball_Un)
  qed
  note joined = path_join_plain [OF assms]
  show "path_stack (path_join (base # es)) = rev es @ path_stack base" using stack_text [OF st] joined by simp
  show "has_prefix ''/'' (path_join (base # es)) = has_prefix ''/'' base" using text_prefix [OF st] joined by simp
  show "path_join (base # es) \<noteq> []" by (simp add: joined path_text_def Let_def)
qed

section \<open>Components\<close>

text \<open>The bytes that \<open>url.PathEscape\<close> keeps.\<close>

definition path_safe :: "char \<Rightarrow> bool" where
  "path_safe c \<longleftrightarrow>
     (48 \<le> byte c \<and> byte c \<le> 57) \<or> (65 \<le> byte c \<and> byte c \<le> 90) \<or> (97 \<le> byte c \<and> byte c \<le> 122) \<or> c \<in> set ''-_.~$&+=:@''"

definition upper_hex :: "nat \<Rightarrow> char" where
  "upper_hex n = (if n < 10 then char_of (48 + n) else char_of (55 + n))"

definition escape_char :: "char \<Rightarrow> string" where
  "escape_char c = (if path_safe c then [c] else [CHR ''%'', upper_hex (byte c div 16), upper_hex (byte c mod 16)])"

definition PathEscape :: "string \<Rightarrow> string" where
  "PathEscape s = concat (map escape_char s)"

definition pathComponent :: "string \<Rightarrow> string \<Rightarrow> string result" where
  "pathComponent name value =
     (let trimmed = trim_space value
      in if trimmed = [] then Inl (plain_error (''OCI cache '' @ name @ '' is required'')) else Inr (PathEscape trimmed))"

definition scopeRoot :: "string \<Rightarrow> string \<Rightarrow> string \<Rightarrow> string result" where
  "scopeRoot rootDir tenantID upstreamID =
     (case pathComponent ''tenant_id'' tenantID of
        Inl e \<Rightarrow> Inl e
      | Inr t \<Rightarrow>
          (case pathComponent ''upstream_id'' upstreamID of
             Inl e \<Rightarrow> Inl e
           | Inr u \<Rightarrow> Inr (path_join [rootDir, t, u])))"

text \<open>The expression \<open>ociDigestRE\<close>: words of lower-case letters and digits with single separators between
  them, a colon, and a word of the encoding alphabet.\<close>

definition lower_alnum :: "char \<Rightarrow> bool" where
  "lower_alnum c \<longleftrightarrow> (97 \<le> byte c \<and> byte c \<le> 122) \<or> (48 \<le> byte c \<and> byte c \<le> 57)"

definition encoded_char :: "char \<Rightarrow> bool" where
  "encoded_char c \<longleftrightarrow> lower_alnum c \<or> (65 \<le> byte c \<and> byte c \<le> 90) \<or> c \<in> set ''=_-''"

definition ociDigestRE :: "string \<Rightarrow> bool" where
  "ociDigestRE digest \<longleftrightarrow>
     (case split_two CHR '':'' digest of
        [algo, encoded] \<Rightarrow>
          list_all (\<lambda>w. w \<noteq> [] \<and> list_all lower_alnum w) (split_by (\<lambda>c. c \<in> set ''+._-'') algo) \<and>
          encoded \<noteq> [] \<and> list_all encoded_char encoded
      | _ \<Rightarrow> False)"

definition splitDigest :: "string \<Rightarrow> (string \<times> string) result" where
  "splitDigest digest0 =
     (let digest = trim_space digest0
      in case (ociDigestRE digest, split_two CHR '':'' digest) of
           (True, [algo, encoded]) \<Rightarrow> Inr (algo, encoded)
         | _ \<Rightarrow> Inl (plain_error (''invalid OCI digest '' @ quote digest)))"

datatype artifact_kind = OCIArtifactManifest | OCIArtifactBlob

fun kind_name :: "artifact_kind \<Rightarrow> string" where
  "kind_name OCIArtifactManifest = ''manifests''"
| "kind_name OCIArtifactBlob = ''blobs''"

definition finalPaths :: "string \<Rightarrow> string \<Rightarrow> string \<Rightarrow> artifact_kind \<Rightarrow> string \<Rightarrow> (string \<times> string) result" where
  "finalPaths rootDir tenantID upstreamID kind digest =
     (case splitDigest digest of
        Inl e \<Rightarrow> Inl e
      | Inr (algo, encoded) \<Rightarrow>
          (case scopeRoot rootDir tenantID upstreamID of
             Inl e \<Rightarrow> Inl e
           | Inr scope \<Rightarrow>
               (let base = path_join [scope, kind_name kind, algo, encoded]
                in Inr (base @ ''.data'', base @ ''.meta.json''))))"

section \<open>Escaping\<close>

lemma byte_inject [simp]: "byte c = byte d \<longleftrightarrow> c = d"
  by (simp add: byte_def)

lemma byte_upper_hex: "n < 16 \<Longrightarrow> byte (upper_hex n) = (if n < 10 then 48 + n else 55 + n)"
  unfolding upper_hex_def by (simp only: if_distrib [of byte]) (simp add: byte_char_of)

lemma upper_hex_inject:
  assumes "m < 16" "n < 16"
  shows "upper_hex m = upper_hex n \<longleftrightarrow> m = n"
proof
  assume "upper_hex m = upper_hex n"
  then have "byte (upper_hex m) = byte (upper_hex n)" by simp
  then show "m = n" unfolding byte_upper_hex [OF assms(1)] byte_upper_hex [OF assms(2)]
    using assms by (simp split: if_splits)
qed simp

lemma percent_unsafe: "\<not> path_safe CHR ''%''"
  by code_simp

lemma byte_hex_digits: "byte c div 16 < 16"
  using byte_less [of c] by simp

lemma escape_char_inject:
  assumes "escape_char c @ xs = escape_char d @ ys"
  shows "c = d \<and> xs = ys"
proof -
  have "c = d" if "upper_hex (byte c div 16) = upper_hex (byte d div 16)" "upper_hex (byte c mod 16) = upper_hex (byte d mod 16)"
  proof -
    from that have "byte c div 16 = byte d div 16" "byte c mod 16 = byte d mod 16"
      using byte_hex_digits by (simp_all add: upper_hex_inject)
    then show ?thesis by (metis byte_inject div_mod_decomp)
  qed
  with assms percent_unsafe show ?thesis by (auto simp: escape_char_def split: if_splits)
qed

lemma escape_char_not_Nil: "escape_char c \<noteq> []"
  by (simp add: escape_char_def)

lemma PathEscape_inject: "PathEscape s = PathEscape t \<longleftrightarrow> s = t"
proof
  assume "PathEscape s = PathEscape t"
  then show "s = t"
  proof (induction s arbitrary: t)
    case Nil
    then show ?case by (cases t) (simp_all add: PathEscape_def escape_char_not_Nil)
  next
    case (Cons c s)
    then obtain d t' where t: "t = d # t'" by (cases t) (auto simp: PathEscape_def escape_char_not_Nil)
    with Cons escape_char_inject [of c "PathEscape s" d "PathEscape t'"] show ?case by (auto simp: PathEscape_def)
  qed
qed simp

lemma slash_not_upper_hex: "n < 16 \<Longrightarrow> upper_hex n \<noteq> CHR ''/''"
  using byte_upper_hex [of n] by (auto simp: byte_def split: if_splits)

lemma slash_unsafe: "\<not> path_safe CHR ''/''"
  by code_simp

lemma PathEscape_no_slash: "CHR ''/'' \<notin> set (PathEscape s)"
proof -
  have "CHR ''/'' \<notin> set (escape_char c)" for c
    using slash_unsafe slash_not_upper_hex byte_hex_digits by (auto simp: escape_char_def) (metis mod_less_divisor zero_less_numeral)+
  then show ?thesis by (simp add: PathEscape_def)
qed

lemma PathEscape_dots: "PathEscape ''.'' = ''.''" "PathEscape ''..'' = ''..''" "PathEscape [] = []"
  by code_simp+

definition scope_id :: "string \<Rightarrow> bool" where
  "scope_id s \<longleftrightarrow> trim_space s \<notin> {[], ''.'', ''..''}"

lemma plain_PathEscape: "scope_id s \<Longrightarrow> plain_element (PathEscape (trim_space s))"
  unfolding plain_element_def scope_id_def
  by (metis PathEscape_dots PathEscape_inject PathEscape_no_slash insertCI)

section \<open>Digests\<close>

lemma split_by_covers: "c \<in> set s \<Longrightarrow> p c \<or> (\<exists>w \<in> set (split_by p s). c \<in> set w)"
  by (induction s) (auto split: list.splits)

lemma split_by_words: "\<forall>w \<in> set (split_by p s). w \<noteq> [] \<Longrightarrow> s \<noteq> [] \<and> \<not> p (hd s)"
  by (cases s) (auto split: if_splits)

lemma splitDigest_Inr:
  assumes "splitDigest digest = Inr (algo, encoded)"
  shows "trim_space digest = algo @ '':'' @ encoded" "plain_element algo" "CHR ''/'' \<notin> set suffix \<Longrightarrow> plain_element (encoded @ suffix)"
proof -
  let ?d = "trim_space digest" and ?sep = "\<lambda>c. c \<in> set ''+._-''"
  from assms have re: "ociDigestRE ?d" and two: "split_two CHR '':'' ?d = [algo, encoded]"
    by (auto simp: splitDigest_def Let_def split: bool.splits list.splits)
  from two split_two_cases [of "CHR '':''" ?d] show "?d = algo @ '':'' @ encoded" by auto
  from re have words: "\<forall>w \<in> set (split_by ?sep algo). w \<noteq> [] \<and> list_all lower_alnum w"
    and enc: "encoded \<noteq> []" "list_all encoded_char encoded"
    by (simp_all add: ociDigestRE_def two list_all_iff)
  have first: "algo \<noteq> []" "\<not> ?sep (hd algo)" using split_by_words [of ?sep algo] words by auto
  have chars: "?sep c \<or> lower_alnum c" if "c \<in> set algo" for c
    using split_by_covers [OF that, of ?sep] words by (auto simp: list_all_iff)
  have "\<not> lower_alnum CHR ''/''" "CHR ''/'' \<notin> set ''+._-''" "CHR ''.'' \<in> set ''+._-''" by code_simp+
  with first chars [of "CHR ''/''"] show "plain_element algo" by (auto simp: plain_element_def)
  have "\<not> encoded_char CHR ''.''" "\<not> encoded_char CHR ''/''" by code_simp+
  moreover have "CHR ''/'' \<notin> set encoded" "hd encoded \<noteq> CHR ''.''"
    using enc calculation by (auto simp: list_all_iff dest: hd_in_set)
  ultimately show "plain_element (encoded @ suffix)" if "CHR ''/'' \<notin> set suffix"
    using enc(1) that by (cases encoded) (auto simp: plain_element_def)
qed

section \<open>Entries\<close>

lemma join_snoc: "join ''/'' (es @ [e]) @ s = join ''/'' (es @ [e @ s])"
  using join_append [of es "[e]"] join_append [of es "[e @ s]"] by (cases "es = []") simp_all

lemma path_join_suffix:
  assumes "base \<noteq> []" "\<forall>e \<in> set es. plain_element e" "plain_element e" "plain_element (e @ s)"
  shows "path_join (base # es @ [e]) @ s = path_join (base # es @ [e @ s])"
proof -
  define xs where "xs = rev (path_stack base) @ es"
  have "e \<noteq> []" using assms(3) by (simp add: plain_element_def)
  then have "join ''/'' (xs @ [e]) \<noteq> []" using join_append [of xs "[e]"] by (cases "xs = []") auto
  moreover from this join_snoc [of xs e s] have "join ''/'' (xs @ [e @ s]) \<noteq> []" by force
  moreover have "path_join (base # es @ [e]) = path_text (has_prefix ''/'' base) (rev (xs @ [e]))"
    "path_join (base # es @ [e @ s]) = path_text (has_prefix ''/'' base) (rev (xs @ [e @ s]))"
    using path_join_plain [of base "es @ [e]"] path_join_plain [of base "es @ [e @ s]"] assms by (simp_all add: xs_def)
  ultimately show ?thesis
    using join_snoc [of xs e s] by (simp add: path_text_def Let_def)
qed

lemma path_join_inject:
  assumes "base \<noteq> []" "es \<noteq> []" "es' \<noteq> []" "\<forall>e \<in> set es. plain_element e" "\<forall>e \<in> set es'. plain_element e"
  shows "path_join (base # es) = path_join (base # es') \<longleftrightarrow> es = es'"
proof
  assume "path_join (base # es) = path_join (base # es')"
  then have "path_stack (path_join (base # es)) = path_stack (path_join (base # es'))" by (simp only:)
  then have "rev es @ path_stack base = rev es' @ path_stack base"
    unfolding joined_stack(1) [OF assms(1,2,4)] joined_stack(1) [OF assms(1,3,5)] .
  then show "es = es'" by simp
qed simp

lemma path_join_nested:
  assumes "base \<noteq> []" "es \<noteq> []" "es' \<noteq> []" "\<forall>e \<in> set es. plain_element e" "\<forall>e \<in> set es'. plain_element e"
  shows "path_join (path_join (base # es) # es') = path_join (base # es @ es')"
  using path_join_plain [of "path_join (base # es)" es'] path_join_plain [of base "es @ es'"]
    joined_stack [OF assms(1,2,4)] assms by (simp add: ball_Un)

definition scope_elements :: "string \<Rightarrow> string \<Rightarrow> string list" where
  "scope_elements tenantID upstreamID = [PathEscape (trim_space tenantID), PathEscape (trim_space upstreamID)]"

definition entry_elements :: "string \<Rightarrow> string \<Rightarrow> artifact_kind \<Rightarrow> string \<Rightarrow> string \<Rightarrow> string list" where
  "entry_elements tenantID upstreamID kind algo name = scope_elements tenantID upstreamID @ [kind_name kind, algo, name]"

lemma kind_name_plain: "plain_element (kind_name kind)" "kind_name k = kind_name k' \<longleftrightarrow> k = k'"
  by (cases kind; simp add: plain_element_def) (cases k; cases k'; simp)

lemma scope_elements_plain: "scope_id t \<Longrightarrow> scope_id u \<Longrightarrow> \<forall>e \<in> set (scope_elements t u). plain_element e"
  by (simp add: scope_elements_def plain_PathEscape)

lemma scopeRoot_Inr:
  assumes "scope_id t" "scope_id u"
  shows "scopeRoot rootDir t u = Inr (path_join (rootDir # scope_elements t u))"
  using assms by (simp add: scopeRoot_def pathComponent_def scope_id_def scope_elements_def Let_def)

lemma finalPaths_Inr:
  assumes "rootDir \<noteq> []" "scope_id t" "scope_id u" "finalPaths rootDir t u kind digest = Inr (p, q)"
  obtains algo encoded where "splitDigest digest = Inr (algo, encoded)" "trim_space digest = algo @ '':'' @ encoded"
    "p = path_join (rootDir # entry_elements t u kind algo (encoded @ ''.data''))"
    "q = path_join (rootDir # entry_elements t u kind algo (encoded @ ''.meta.json''))"
    "\<forall>e \<in> set (entry_elements t u kind algo (encoded @ ''.data'')). plain_element e"
    "\<forall>e \<in> set (entry_elements t u kind algo (encoded @ ''.meta.json'')). plain_element e"
proof -
  from assms(4) obtain algo encoded where d: "splitDigest digest = Inr (algo, encoded)"
    by (auto simp: finalPaths_def split: sum.splits)
  note digest = splitDigest_Inr [OF d]
  have plain: "plain_element (encoded @ s)" if "CHR ''/'' \<notin> set s" for s by (rule digest(3) [OF that])
  let ?base = "path_join [path_join (rootDir # scope_elements t u), kind_name kind, algo, encoded]"
  have base: "?base = path_join (rootDir # (scope_elements t u @ [kind_name kind, algo]) @ [encoded])"
    using path_join_nested [of rootDir "scope_elements t u" "[kind_name kind, algo, encoded]"]
      scope_elements_plain [OF assms(2,3)] kind_name_plain(1) digest(2) plain [of "[]"] assms(1)
    by (simp add: scope_elements_def)
  have entry: "?base @ s = path_join (rootDir # entry_elements t u kind algo (encoded @ s))"
    "\<forall>e \<in> set (entry_elements t u kind algo (encoded @ s)). plain_element e" if "CHR ''/'' \<notin> set s" for s
    unfolding base
    using path_join_suffix [of rootDir "scope_elements t u @ [kind_name kind, algo]" encoded s]
      scope_elements_plain [OF assms(2,3)] kind_name_plain(1) digest(2) plain [of "[]"] plain [OF that] assms(1)
    by (simp_all add: entry_elements_def ball_Un)
  have "p = ?base @ ''.data''" "q = ?base @ ''.meta.json''"
    using assms(4) by (simp_all add: finalPaths_def d scopeRoot_Inr [OF assms(2,3)] Let_def)
  with that [OF d digest(1)] entry [of "''.data''"] entry [of "''.meta.json''"] show thesis by simp
qed

lemma data_name_inject: "a @ ''.data'' \<noteq> b @ ''.meta.json''"
proof
  assume "a @ ''.data'' = b @ ''.meta.json''"
  then have "last (a @ ''.data'') = last (b @ ''.meta.json'')" by simp
  then show False by simp
qed

lemma parts_text:
  assumes "clean_stack rooted st" "st \<noteq> []"
  shows "slash_parts (path_text rooted st) = (if rooted then [[]] else []) @ rev st"
proof -
  have parts: "slash_parts (join ''/'' (rev st)) = rev st"
    using clean_stack_elements(2) [OF assms(1)] assms(2) by (intro slash_parts_join) auto
  have "join ''/'' (rev st) \<noteq> []"
    using clean_stack_elements(1) [OF assms(1)] assms(2) join_slash_Nil [of "rev st"] by auto
  with parts show ?thesis by (simp add: path_text_def Let_def slash_parts_Cons)
qed

lemma joined_clean:
  assumes "\<forall>e \<in> set es. plain_element e"
  shows "clean_stack (has_prefix ''/'' base) (rev es @ path_stack base)"
proof -
  obtain es' n where "path_stack base = es' @ replicate n ''..''" "\<forall>e \<in> set es'. plain_element e"
    "has_prefix ''/'' base \<longrightarrow> n = 0"
    using clean_path_stack [of base] by (auto simp: clean_stack_def)
  with clean_stackI [of "rev es @ es'" _ n] assms show ?thesis by (simp add: ball_Un)
qed

text \<open>A joined path lies below another one when its elements extend the other's.\<close>

lemma below_iff:
  assumes "base \<noteq> []" "sc \<noteq> []" "es \<noteq> []" "\<forall>e \<in> set sc. plain_element e" "\<forall>e \<in> set es. plain_element e"
  shows "has_prefix (path_join (base # sc) @ ''/'') (path_join (base # es)) \<longleftrightarrow> (\<exists>rest. rest \<noteq> [] \<and> es = sc @ rest)"
proof
  assume "has_prefix (path_join (base # sc) @ ''/'') (path_join (base # es))"
  then obtain rest where "path_join (base # es) = (path_join (base # sc) @ ''/'') @ rest"
    using has_prefixE by blast
  then have "slash_parts (path_join (base # es)) = slash_parts (path_join (base # sc)) @ slash_parts rest"
    by (simp add: slash_parts_slash)
  then have "es = sc @ slash_parts rest"
    using parts_text [OF joined_clean [OF assms(4)], of base] parts_text [OF joined_clean [OF assms(5)], of base] assms
    by (simp add: path_join_plain)
  then show "\<exists>rest. rest \<noteq> [] \<and> es = sc @ rest" by (auto simp: slash_parts_def)
next
  assume "\<exists>rest. rest \<noteq> [] \<and> es = sc @ rest"
  then obtain rest where rest: "rest \<noteq> []" "es = sc @ rest" by blast
  let ?st = "rev (path_stack base) @ sc"
  have "join ''/'' ?st \<noteq> []"
    using clean_stack_elements(1) [OF joined_clean [OF assms(4)], of _ base] assms(2) join_slash_Nil [of ?st] by auto
  moreover have "join ''/'' (?st @ rest) = join ''/'' ?st @ ''/'' @ join ''/'' rest"
    using rest(1) assms(2) by (intro join_append) auto
  ultimately have "path_join (base # es) = (path_join (base # sc) @ ''/'') @ join ''/'' rest"
    using assms rest by (simp add: path_join_plain path_text_def Let_def)
  then show "has_prefix (path_join (base # sc) @ ''/'') (path_join (base # es))" by (simp only: has_prefix_append)
qed

lemma entry_elements_inject:
  "entry_elements t u k a n = entry_elements t' u' k' a' n' \<longleftrightarrow>
     trim_space t = trim_space t' \<and> trim_space u = trim_space u' \<and> k = k' \<and> a = a' \<and> n = n'"
  by (auto simp: entry_elements_def scope_elements_def PathEscape_inject kind_name_plain)

lemma entry_not_Nil [simp]: "entry_elements t u k a n \<noteq> []" "scope_elements t u \<noteq> []"
  by (simp_all add: entry_elements_def scope_elements_def)

text \<open>C23. Entries of the disk cache are separate: with identifiers other than \<open>.\<close> and \<open>..\<close>, two entries that share a
  file have the same tenant, upstream, kind and digest, and a file lies below the directory of a
  tenant's upstream exactly when it belongs to an entry of that tenant and upstream.\<close>

theorem cache_entries_separate:
  assumes "rootDir \<noteq> []" "scope_id t" "scope_id u" "scope_id t'" "scope_id u'"
    and "finalPaths rootDir t u k d = Inr (p, q)" "finalPaths rootDir t' u' k' d' = Inr (p', q')"
    and "scopeRoot rootDir t u = Inr scope"
  shows "({p, q} \<inter> {p', q'} \<noteq> {} \<longrightarrow>
      trim_space t = trim_space t' \<and> trim_space u = trim_space u' \<and> k = k' \<and> trim_space d = trim_space d') \<and>
    (\<forall>f \<in> {p', q'}. has_prefix (scope @ ''/'') f \<longleftrightarrow> trim_space t = trim_space t' \<and> trim_space u = trim_space u')"
proof -
  from finalPaths_Inr [OF assms(1-3,6)] obtain a e where
    fst: "trim_space d = a @ '':'' @ e" "p = path_join (rootDir # entry_elements t u k a (e @ ''.data''))"
      "q = path_join (rootDir # entry_elements t u k a (e @ ''.meta.json''))"
      "\<forall>x \<in> set (entry_elements t u k a (e @ ''.data'')). plain_element x"
      "\<forall>x \<in> set (entry_elements t u k a (e @ ''.meta.json'')). plain_element x" by metis
  from finalPaths_Inr [OF assms(1,4,5,7)] obtain a' e' where
    snd: "trim_space d' = a' @ '':'' @ e'" "p' = path_join (rootDir # entry_elements t' u' k' a' (e' @ ''.data''))"
      "q' = path_join (rootDir # entry_elements t' u' k' a' (e' @ ''.meta.json''))"
      "\<forall>x \<in> set (entry_elements t' u' k' a' (e' @ ''.data'')). plain_element x"
      "\<forall>x \<in> set (entry_elements t' u' k' a' (e' @ ''.meta.json'')). plain_element x" by metis
  have scope: "scope = path_join (rootDir # scope_elements t u)" using assms(8) scopeRoot_Inr [OF assms(2,3)] by simp
  note plain = scope_elements_plain [OF assms(2,3)]
  have same: "path_join (rootDir # entry_elements t u k a n) = path_join (rootDir # entry_elements t' u' k' a' n') \<longleftrightarrow>
      trim_space t = trim_space t' \<and> trim_space u = trim_space u' \<and> k = k' \<and> a = a' \<and> n = n'"
    if "\<forall>x \<in> set (entry_elements t u k a n). plain_element x" "\<forall>x \<in> set (entry_elements t' u' k' a' n'). plain_element x"
    for n n'
    using path_join_inject [OF assms(1) _ _ that] entry_elements_inject by simp
  have below: "has_prefix (scope @ ''/'') (path_join (rootDir # entry_elements t' u' k' a' n)) \<longleftrightarrow>
      trim_space t = trim_space t' \<and> trim_space u = trim_space u'"
    if "\<forall>x \<in> set (entry_elements t' u' k' a' n). plain_element x" for n
    using below_iff [OF assms(1) _ _ plain that]
    by (auto simp: scope entry_elements_def scope_elements_def PathEscape_inject)
  let ?same = "trim_space t = trim_space t' \<and> trim_space u = trim_space u' \<and> k = k' \<and> a = a' \<and> e = e'"
  have eqs: "p = p' \<longleftrightarrow> ?same" "q = q' \<longleftrightarrow> ?same"
    unfolding fst(2,3) snd(2,3) same [OF fst(4) snd(4)] same [OF fst(5) snd(5)] by simp_all
  have neqs: "p \<noteq> q'" "q \<noteq> p'"
    unfolding fst(2,3) snd(2,3) same [OF fst(4) snd(5)] same [OF fst(5) snd(4)]
    using data_name_inject [of e e'] data_name_inject [of e' e] by metis+
  have "?same" if "{p, q} \<inter> {p', q'} \<noteq> {}" using that eqs neqs by blast
  moreover have "has_prefix (scope @ ''/'') f \<longleftrightarrow> trim_space t = trim_space t' \<and> trim_space u = trim_space u'"
    if "f \<in> {p', q'}" for f
    using that below [OF snd(4)] below [OF snd(5)] unfolding snd(2,3) by blast
  ultimately show ?thesis using fst(1) snd(1) by simp
qed

theorem cache_entries_separate_witness:
  "{fst (projr (finalPaths ''/var/cache'' ''t/1'' ''u'' OCIArtifactBlob ''sha256:ab'')),
    snd (projr (finalPaths ''/var/cache'' ''t/1'' ''u'' OCIArtifactBlob ''sha256:ab''))} \<inter>
   {''/var/cache/t%2F1/u/manifests/sha256/ab.data'', ''/var/cache/t%2F1/u/manifests/sha256/ab.meta.json''} = {}"
proof -
  let ?p = "finalPaths ''/var/cache'' ''t/1'' ''u'' OCIArtifactBlob ''sha256:ab''"
  have ids: "scope_id ''t/1''" "scope_id ''u''" by code_simp+
  have paths: "?p = Inr (''/var/cache/t%2F1/u/blobs/sha256/ab.data'', ''/var/cache/t%2F1/u/blobs/sha256/ab.meta.json'')"
    "finalPaths ''/var/cache'' ''t/1'' ''u'' OCIArtifactManifest ''sha256:ab'' =
     Inr (''/var/cache/t%2F1/u/manifests/sha256/ab.data'', ''/var/cache/t%2F1/u/manifests/sha256/ab.meta.json'')"
    "scopeRoot ''/var/cache'' ''t/1'' ''u'' = Inr ''/var/cache/t%2F1/u''" by code_simp+
  have "''/var/cache'' \<noteq> []" by simp
  from cache_entries_separate [OF this ids ids paths] show ?thesis unfolding paths by simp
qed

end
