(* ===== verification/Oci_Client.thy ===== *)
theory Oci_Client
  imports Enrichment_Service Oci_Paths
begin

text \<open>
  The caching OCI client (\<open>infra/upstream/cached_oci.go\<close>) over the cache port: reading from the cache, fetching,
  and the reader that fills the cache while the client of the proxy reads the body.

  A body is the list of the results of its reads; after the last one a read returns the end of the file.
  A header map is the list of its entries in the order of their names.
  The locale states what the reader needs of a cache writer; its conclusion, proved for any cache that
  keeps these laws, is that only complete bodies become entries.
\<close>

section \<open>Bodies and ports\<close>

datatype read_end = More | Eof | Failed go_error

type_synonym body = "(string \<times> read_end) list"

record 'b upstream_response =
  rsp_status_code :: int
  rsp_content_type :: string
  rsp_headers :: "(string \<times> string) list"
  rsp_body :: 'b

record artifact_descriptor =
  ad_content_type :: string
  ad_headers :: "(string \<times> string) list"

record ('w, 's) oci_artifact_cache =
  oac_get :: "string \<Rightarrow> string \<Rightarrow> artifact_kind \<Rightarrow> string \<Rightarrow> ('s, string upstream_response result) state"
  oac_start_write :: "string \<Rightarrow> string \<Rightarrow> artifact_kind \<Rightarrow> string \<Rightarrow> artifact_descriptor \<Rightarrow> ('s, 'w result) state"
  oac_write :: "'w \<Rightarrow> string \<Rightarrow> ('s, unit result) state"
  oac_commit :: "'w \<Rightarrow> ('s, unit result) state"
  oac_abort :: "'w \<Rightarrow> ('s, unit result) state"

section \<open>The reader\<close>

record 'w cache_reader =
  cr_source :: body
  cr_writer :: "'w option"

definition next_read :: "body \<Rightarrow> string \<times> read_end" where
  "next_read source = (case source of [] \<Rightarrow> ([], Eof) | e # _ \<Rightarrow> e)"

definition abandon :: "('w, 's) oci_artifact_cache \<Rightarrow> 'w \<Rightarrow> ('s, 'w option) state" where
  "abandon cache w = do { _ \<leftarrow> oac_abort cache w; State_Monad.return None }"

definition copy_chunk :: "('w, 's) oci_artifact_cache \<Rightarrow> string \<Rightarrow> 'w option \<Rightarrow> ('s, 'w option) state" where
  "copy_chunk cache p writer =
     (case writer of
        None \<Rightarrow> State_Monad.return None
      | Some w \<Rightarrow>
          if p = [] then State_Monad.return (Some w)
          else
            do {
              r \<leftarrow> oac_write cache w p;
              (case r of Inl _ \<Rightarrow> abandon cache w | Inr _ \<Rightarrow> State_Monad.return (Some w))
            })"

definition finish_read :: "('w, 's) oci_artifact_cache \<Rightarrow> read_end \<Rightarrow> 'w option \<Rightarrow> ('s, 'w option) state" where
  "finish_read cache e writer =
     (case writer of
        None \<Rightarrow> State_Monad.return None
      | Some w \<Rightarrow>
          (case e of
             More \<Rightarrow> State_Monad.return (Some w)
           | Eof \<Rightarrow> do { _ \<leftarrow> oac_commit cache w; State_Monad.return None }
           | Failed _ \<Rightarrow> abandon cache w))"

definition ReaderRead ::
  "('w, 's) oci_artifact_cache \<Rightarrow> 'w cache_reader \<Rightarrow> ('s, (string \<times> read_end) \<times> 'w cache_reader) state" where
  "ReaderRead cache r =
     (let (p, e) = next_read (cr_source r)
      in do {
           w1 \<leftarrow> copy_chunk cache p (cr_writer r);
           w2 \<leftarrow> finish_read cache e w1;
           State_Monad.return ((p, e), \<lparr>cr_source = tl (cr_source r), cr_writer = w2\<rparr>)
         })"

definition ReaderClose :: "('w, 's) oci_artifact_cache \<Rightarrow> 'w cache_reader \<Rightarrow> ('s, 'w cache_reader) state" where
  "ReaderClose cache r =
     (case cr_writer r of
        None \<Rightarrow> State_Monad.return r
      | Some w \<Rightarrow> do { _ \<leftarrow> abandon cache w; State_Monad.return (r\<lparr>cr_writer := None\<rparr>) })"

text \<open>A client that reads some times and closes the body.\<close>

fun read_and_close :: "('w, 's) oci_artifact_cache \<Rightarrow> nat \<Rightarrow> 'w cache_reader \<Rightarrow> ('s, (string \<times> read_end) list) state" where
  "read_and_close cache 0 r = do { _ \<leftarrow> ReaderClose cache r; State_Monad.return [] }"
| "read_and_close cache (Suc n) r =
     do {
       (e, r1) \<leftarrow> ReaderRead cache r;
       es \<leftarrow> read_and_close cache n r1;
       State_Monad.return (e # es)
     }"

section \<open>Fetching\<close>

definition shouldReadOCIArtifactFromCache :: "artifact_kind \<Rightarrow> string \<Rightarrow> bool" where
  "shouldReadOCIArtifactFromCache kind digest \<longleftrightarrow> (if kind = OCIArtifactBlob then True else digest \<noteq> [])"

definition ociArtifactCacheScope :: "upstream \<Rightarrow> string \<times> string \<times> bool" where
  "ociArtifactCacheScope up =
     (let tenantID = trim_space (up_tenant_id up); upstreamID = trim_space (up_id up)
      in (tenantID, upstreamID, tenantID \<noteq> [] \<and> upstreamID \<noteq> []))"

text \<open>A response without a writer is passed on as it is; a cached file is read to its end.\<close>

definition passed_on :: "body option upstream_response \<Rightarrow> 'w cache_reader option upstream_response" where
  "passed_on resp =
     \<lparr>rsp_status_code = rsp_status_code resp, rsp_content_type = rsp_content_type resp, rsp_headers = rsp_headers resp,
      rsp_body = map_option (\<lambda>b. \<lparr>cr_source = b, cr_writer = None\<rparr>) (rsp_body resp)\<rparr>"

definition from_cache :: "string upstream_response \<Rightarrow> body option upstream_response" where
  "from_cache resp =
     \<lparr>rsp_status_code = rsp_status_code resp, rsp_content_type = rsp_content_type resp, rsp_headers = rsp_headers resp,
      rsp_body = Some [(rsp_body resp, More)]\<rparr>"

definition wrapResponse ::
  "('w, 's) oci_artifact_cache \<Rightarrow> string \<Rightarrow> string \<Rightarrow> artifact_kind \<Rightarrow> string \<Rightarrow> body option upstream_response option \<Rightarrow>
   ('s, 'w cache_reader option upstream_response option result) state" where
  "wrapResponse cache tenantID upstreamID kind digest resp0 =
     (case resp0 of
        None \<Rightarrow> State_Monad.return (Inr None)
      | Some resp \<Rightarrow>
          (case rsp_body resp of
             None \<Rightarrow> State_Monad.return (Inr (Some (passed_on resp)))
           | Some source \<Rightarrow>
               if digest = [] \<or> rsp_status_code resp \<noteq> 200 then State_Monad.return (Inr (Some (passed_on resp)))
               else
                 do {
                   w \<leftarrow> oac_start_write cache tenantID upstreamID kind digest
                     \<lparr>ad_content_type = rsp_content_type resp, ad_headers = rsp_headers resp\<rparr>;
                   State_Monad.return (Inr (Some
                     (case w of
                        Inl _ \<Rightarrow> passed_on resp
                      | Inr writer \<Rightarrow> (passed_on resp)\<lparr>rsp_body := Some \<lparr>cr_source = source, cr_writer = Some writer\<rparr>\<rparr>)))
                 }))"

definition fetchWithCache ::
  "('w, 's) oci_artifact_cache \<Rightarrow> upstream \<Rightarrow> artifact_kind \<Rightarrow> string \<Rightarrow>
   (upstream \<Rightarrow> ('s, body option upstream_response option result) state) \<Rightarrow>
   ('s, 'w cache_reader option upstream_response option result) state" where
  "fetchWithCache cache up kind digest fetchFn =
     (let (tenantID, upstreamID, cacheableScope) = ociArtifactCacheScope up
      in do {
           cached \<leftarrow> (if cacheableScope \<and> shouldReadOCIArtifactFromCache kind digest
             then do { r \<leftarrow> oac_get cache tenantID upstreamID kind digest; State_Monad.return (Some r) }
             else State_Monad.return None);
           (case cached of
              Some (Inr resp) \<Rightarrow> State_Monad.return (Inr (Some (passed_on (from_cache resp))))
            | _ \<Rightarrow>
                do {
                  fetched \<leftarrow> fetchFn up;
                  (case fetched of
                     Inl e \<Rightarrow> State_Monad.return (Inl e)
                   | Inr resp \<Rightarrow>
                       if \<not> cacheableScope then State_Monad.return (Inr (map_option passed_on resp))
                       else wrapResponse cache tenantID upstreamID kind digest resp)
                })
         })"

text \<open>The client around an upstream client: \<open>fetch_metadata\<close> and \<open>fetch_content\<close> are the delegate's.\<close>

definition CachedFetchMetadata ::
  "('w, 's) oci_artifact_cache \<Rightarrow> (upstream \<Rightarrow> artifact_identity \<Rightarrow> ('s, body option upstream_response option result) state) \<Rightarrow>
   upstream \<Rightarrow> artifact_identity \<Rightarrow> ('s, 'w cache_reader option upstream_response option result) state" where
  "CachedFetchMetadata cache fetch_metadata up artifact =
     fetchWithCache cache up OCIArtifactManifest (art_digest artifact) (\<lambda>up. fetch_metadata up artifact)"

definition CachedFetchContent ::
  "('w, 's) oci_artifact_cache \<Rightarrow> (upstream \<Rightarrow> string \<Rightarrow> ('s, body option upstream_response option result) state) \<Rightarrow>
   upstream \<Rightarrow> string \<Rightarrow> ('s, 'w cache_reader option upstream_response option result) state" where
  "CachedFetchContent cache fetch_content up digest =
     fetchWithCache cache up OCIArtifactBlob digest (\<lambda>up. fetch_content up digest)"

section \<open>Complete bodies\<close>

text \<open>What a client has read when it has seen the end of a body; a body that fails has no content.\<close>

fun body_content :: "body \<Rightarrow> string option" where
  "body_content [] = Some []"
| "body_content ((p, e) # es) =
     (case e of More \<Rightarrow> map_option (append p) (body_content es) | Eof \<Rightarrow> Some p | Failed _ \<Rightarrow> None)"

text \<open>What every operation of the writer keeps, reading and closing keeps.\<close>

lemma reading_without_writer:
  "run_state (read_and_close cache n \<lparr>cr_source = source, cr_writer = None\<rparr>) s = (es, s') \<Longrightarrow> s' = s"
  by (induction n arbitrary: source es)
    (auto simp: ReaderRead_def ReaderClose_def copy_chunk_def finish_read_def split: prod.splits)

lemma reading_keeps:
  assumes on_write: "\<And>s p. I s \<Longrightarrow> I (snd (run_state (oac_write cache w p) s))"
    and on_commit: "\<And>s. I s \<Longrightarrow> I (snd (run_state (oac_commit cache w) s))"
    and on_abort: "\<And>s. I s \<Longrightarrow> I (snd (run_state (oac_abort cache w) s))"
    and "I s"
  shows "I (snd (run_state (read_and_close cache n \<lparr>cr_source = source, cr_writer = Some w\<rparr>) s))"
  using assms(4)
proof (induction n arbitrary: source s)
  case 0
  with on_abort [of s] show ?case by (auto simp: ReaderClose_def abandon_def split: prod.splits)
next
  case (Suc n)
  obtain p e where next_read: "next_read source = (p, e)" by fastforce
  obtain w1 s1 where copy: "run_state (copy_chunk cache p (Some w)) s = (w1, s1)" by fastforce
  obtain w2 s2 where finish: "run_state (finish_read cache e w1) s1 = (w2, s2)" by fastforce
  have s1: "I s1 \<and> w1 \<in> {None, Some w}"
    using copy on_write [OF Suc.prems, of p] on_abort Suc.prems
    by (auto simp: copy_chunk_def abandon_def split: if_splits sum.splits prod.splits) (metis snd_conv)+
  then have s2: "I s2 \<and> w2 \<in> {None, Some w}"
    using finish on_commit [of s1] on_abort [of s1]
    by (cases w1) (auto simp: finish_read_def abandon_def split: read_end.splits prod.splits)
  obtain es s3 where rest: "run_state (read_and_close cache n \<lparr>cr_source = tl source, cr_writer = w2\<rparr>) s2 = (es, s3)" by fastforce
  have "I s3"
  proof (cases w2)
    case None
    with rest reading_without_writer s2 show ?thesis by metis
  next
    case (Some v)
    with s2 Suc.IH [of s2 "tl source"] rest show ?thesis by simp
  qed
  then show ?case by (simp add: ReaderRead_def next_read copy finish rest)
qed

text \<open>
  The contract of a cache writer. \<open>served\<close> is the content of an entry, \<open>entry\<close> relates a writer to the entry it
  fills, and \<open>staged\<close> is what it has taken so far; \<open>writable\<close> says that the writer may still be used.
\<close>

locale artifact_writer =
  fixes cache :: "('w, 's) oci_artifact_cache"
    and served :: "'s \<Rightarrow> 'k \<Rightarrow> string option"
    and entry :: "'w \<Rightarrow> 'k \<Rightarrow> bool"
    and staged :: "'w \<Rightarrow> 's \<Rightarrow> string"
    and writable :: "'w \<Rightarrow> 's \<Rightarrow> bool"
  assumes write_law: "writable w s \<Longrightarrow> run_state (oac_write cache w p) s = (r, s') \<Longrightarrow>
      writable w s' \<and> served s' = served s \<and> (r = Inr () \<longrightarrow> staged w s' = staged w s @ p)"
    and commit_law: "writable w s \<Longrightarrow> run_state (oac_commit cache w) s = (r, s') \<Longrightarrow>
      served s' k = served s k \<or> served s' k = None \<or> (entry w k \<and> served s' k = Some (staged w s))"
    and abort_law: "writable w s \<Longrightarrow> run_state (oac_abort cache w) s = (r, s') \<Longrightarrow> served s' = served s"
begin

lemma abandon_run:
  assumes "writable w s" "run_state (abandon cache w) s = (r, s')"
  shows "r = None \<and> served s' = served s"
  using assms abort_law by (auto simp: abandon_def split: prod.splits)

lemma copy_run:
  assumes "writable w s" "run_state (copy_chunk cache p (Some w)) s = (w1, s')"
  shows "served s' = served s \<and> (w1 = None \<or> (w1 = Some w \<and> writable w s' \<and> staged w s' = staged w s @ p))"
proof (cases "p = []")
  case True
  with assms show ?thesis by (simp add: copy_chunk_def)
next
  case False
  obtain r s1 where run: "run_state (oac_write cache w p) s = (r, s1)" by fastforce
  note law = write_law [OF assms(1) run]
  show ?thesis
  proof (cases r)
    case (Inl e)
    with False run assms(2) law abandon_run [of w s1] show ?thesis by (simp add: copy_chunk_def)
  next
    case (Inr u)
    with False run assms(2) law show ?thesis by (simp add: copy_chunk_def)
  qed
qed

lemma only_complete_bodies:
  assumes "writable w s"
    and "run_state (read_and_close cache n \<lparr>cr_source = source, cr_writer = Some w\<rparr>) s = (es, s')"
  shows "served s' k = served s k \<or> served s' k = None \<or>
    (entry w k \<and> (\<exists>content. body_content source = Some content \<and> served s' k = Some (staged w s @ content)))"
  using assms
proof (induction n arbitrary: source s es)
  case 0
  then show ?case
    using abandon_run [OF 0(1)] by (auto simp: ReaderClose_def split: prod.splits)
next
  case (Suc n)
  obtain p e where next_read: "next_read source = (p, e)" by fastforce
  obtain w1 s1 where copy: "run_state (copy_chunk cache p (Some w)) s = (w1, s1)" by fastforce
  obtain w2 s2 where finish: "run_state (finish_read cache e w1) s1 = (w2, s2)" by fastforce
  obtain es' where rest: "run_state (read_and_close cache n \<lparr>cr_source = tl source, cr_writer = w2\<rparr>) s2 = (es', s')"
    using Suc.prems(2) by (auto simp: ReaderRead_def next_read copy finish split: prod.splits)
  note copied = copy_run [OF Suc.prems(1) copy]
  show ?case
  proof (cases w1)
    case None
    with finish have "w2 = None" "s2 = s1" by (simp_all add: finish_read_def)
    with rest reading_without_writer copied show ?thesis by metis
  next
    case (Some v)
    with copied have v: "v = w" "writable w s1" "staged w s1 = staged w s @ p" "served s1 = served s" by auto
    show ?thesis
    proof (cases e)
      case More
      with finish Some v(1) have w2: "w2 = Some w" "s2 = s1" by (simp_all add: finish_read_def)
      with next_read More obtain src where "source = (p, More) # src" by (cases source) (auto simp: next_read_def)
      with Suc.IH [OF v(2), of "tl source" es'] rest w2 v show ?thesis by auto
    next
      case Eof
      obtain r where "run_state (oac_commit cache w) s1 = (r, s2)" and w2: "w2 = None"
        using finish Some v(1) Eof by (auto simp: finish_read_def split: prod.splits)
      then have "served s2 k = served s k \<or> served s2 k = None \<or> entry w k \<and> served s2 k = Some (staged w s @ p)"
        using commit_law [OF v(2), of r s2 k] v(3,4) by simp
      moreover have "body_content source = Some p" using next_read Eof by (cases source) (auto simp: next_read_def)
      ultimately show ?thesis using rest w2 reading_without_writer by metis
    next
      case (Failed err)
      with finish Some v(1) have "run_state (abandon cache w) s1 = (w2, s2)" by (simp add: finish_read_def)
      from abandon_run [OF v(2) this] rest reading_without_writer v(4) show ?thesis by metis
    qed
  qed
qed

end

end
