(* ===== verification/Oci_Cache.thy ===== *)
theory Oci_Cache
  imports Oci_Client Valkey_Caches "HOL-Library.AList"
begin

text \<open>
  The disk cache of OCI artifacts (\<open>infra/ocicache/disk.go\<close>).

  The file system is the list of its files, with their content and modification time; directories are
  not kept, since the cache only creates them. A call of package \<open>os\<close> fails when the environment has a
  fault for it, and a failed call changes nothing. The files are listed in any order, so that the order
  among files of the same age is any order.

  The lemmas show that every operation touches files of its own scope and temporary files only, that the
  writers keep the contract of the reader, what a committed entry contains, and that the configured
  limits hold after a commit.
\<close>

section \<open>The file system\<close>

record disk_file =
  df_content :: string
  df_mod_time :: time

type_synonym disk = "(string \<times> disk_file) list"

datatype os_call = OsMkdirAll | OsCreateTemp | OsReadFile | OsOpen | OsWrite | OsClose | OsWriteFile | OsStat
  | OsRename | OsRemove | OsWalk | OsInfo

record os_error =
  os_not_exist :: bool
  os_text :: string

record cache_env =
  ce_fault :: "os_call \<Rightarrow> string \<Rightarrow> os_error option"
  ce_now :: time
  ce_random :: "nat \<Rightarrow> nat" \<comment> \<open>the numbers drawn for temporary names\<close>
  ce_marshal :: "artifact_descriptor \<Rightarrow> string result"
  ce_unmarshal :: "string \<Rightarrow> artifact_descriptor result"

type_synonym 'a os_result = "os_error + 'a"

definition no_such_file :: os_error where
  "no_such_file = \<lparr>os_not_exist = True, os_text = ''no such file or directory''\<rparr>"

definition os_wrap :: "string \<Rightarrow> os_error \<Rightarrow> go_error" where
  "os_wrap stage e = plain_error (stage @ '': '' @ os_text e)"

definition os_call_at :: "cache_env \<Rightarrow> os_call \<Rightarrow> string \<Rightarrow> 'a os_result \<Rightarrow> 'a os_result" where
  "os_call_at env c path r = (case ce_fault env c path of Some e \<Rightarrow> Inl e | None \<Rightarrow> r)"

definition os_find :: "cache_env \<Rightarrow> os_call \<Rightarrow> string \<Rightarrow> disk \<Rightarrow> disk_file os_result" where
  "os_find env c path disk =
     os_call_at env c path (case map_of disk path of None \<Rightarrow> Inl no_such_file | Some f \<Rightarrow> Inr f)"

definition os_put :: "cache_env \<Rightarrow> string \<Rightarrow> string \<Rightarrow> disk \<Rightarrow> disk" where
  "os_put env path content disk = AList.update path \<lparr>df_content = content, df_mod_time = ce_now env\<rparr> disk"

definition os_write_file :: "cache_env \<Rightarrow> string \<Rightarrow> string \<Rightarrow> disk \<Rightarrow> unit os_result \<times> disk" where
  "os_write_file env path content disk =
     (case os_call_at env OsWriteFile path (Inr ()) of Inl e \<Rightarrow> (Inl e, disk) | Inr _ \<Rightarrow> (Inr (), os_put env path content disk))"

text \<open>Writing to an open file; what is written to a removed file is lost.\<close>

definition os_append :: "cache_env \<Rightarrow> string \<Rightarrow> string \<Rightarrow> disk \<Rightarrow> unit os_result \<times> disk" where
  "os_append env path p disk =
     (case os_call_at env OsWrite path (Inr ()) of
        Inl e \<Rightarrow> (Inl e, disk)
      | Inr _ \<Rightarrow>
          (Inr (), case map_of disk path of None \<Rightarrow> disk | Some f \<Rightarrow> os_put env path (df_content f @ p) disk))"

definition os_remove :: "cache_env \<Rightarrow> string \<Rightarrow> disk \<Rightarrow> unit os_result \<times> disk" where
  "os_remove env path disk =
     (case os_find env OsRemove path disk of Inl e \<Rightarrow> (Inl e, disk) | Inr _ \<Rightarrow> (Inr (), AList.delete path disk))"

definition os_rename :: "cache_env \<Rightarrow> string \<Rightarrow> string \<Rightarrow> disk \<Rightarrow> unit os_result \<times> disk" where
  "os_rename env source target disk =
     (case os_call_at env OsRename target (case map_of disk source of None \<Rightarrow> Inl no_such_file | Some f \<Rightarrow> Inr f) of
        Inl e \<Rightarrow> (Inl e, disk)
      | Inr f \<Rightarrow> (Inr (), AList.update target f (AList.delete source disk)))"

text \<open>\<open>_ = os.Remove(path)\<close>\<close>

definition discard :: "cache_env \<Rightarrow> string list \<Rightarrow> disk \<Rightarrow> disk" where
  "discard env paths disk = fold (\<lambda>path d. snd (os_remove env path d)) paths disk"

text \<open>\<open>os.CreateTemp\<close> draws names until one is free.\<close>

function free_temp :: "(nat \<Rightarrow> string) \<Rightarrow> disk \<Rightarrow> nat \<Rightarrow> string option" where
  "free_temp name disk n =
     (if 10000 \<le> n then None else if map_of disk (name n) = None then Some (name n) else free_temp name disk (Suc n))"
  by pat_completeness auto
termination by (relation "measure (\<lambda>(name, disk, n). 10000 - n)") auto

declare free_temp.simps [simp del]

definition os_create_temp :: "cache_env \<Rightarrow> string \<Rightarrow> string \<Rightarrow> string \<Rightarrow> disk \<Rightarrow> string os_result \<times> disk" where
  "os_create_temp env dir prefix suffix disk =
     (case os_call_at env OsCreateTemp dir
             (case free_temp (\<lambda>n. dir @ ''/'' @ prefix @ show_nat (ce_random env n) @ suffix) disk 0 of
                None \<Rightarrow> Inl \<lparr>os_not_exist = False, os_text = ''file already exists''\<rparr>
              | Some path \<Rightarrow> Inr path) of
        Inl e \<Rightarrow> (Inl e, disk)
      | Inr path \<Rightarrow> (Inr path, os_put env path [] disk))"

section \<open>The cache\<close>

record disk_cache =
  dc_root_dir :: string
  dc_max_bytes :: int
  dc_max_age :: duration
  dc_max_entries :: int

record write_session =
  ws_tenant_id :: string
  ws_upstream_id :: string
  ws_temp_data_path :: string
  ws_final_data :: string
  ws_final_meta :: string
  ws_descriptor :: artifact_descriptor
  ws_aborted :: bool
  ws_committed :: bool

record cached_file =
  cf_data_path :: string
  cf_meta_path :: string
  cf_size :: int
  cf_mod_time :: time

definition NewDiskCache :: "cache_env \<Rightarrow> disk_cache \<Rightarrow> disk_cache result" where
  "NewDiskCache env opts =
     (let rootDir = trim_space (dc_root_dir opts)
      in if rootDir = [] then Inl (plain_error ''disk cache root directory is required'')
         else map_sum (os_wrap ''creating cache root'') (\<lambda>_. opts\<lparr>dc_root_dir := rootDir\<rparr>)
           (os_call_at env OsMkdirAll rootDir (Inr ())))"

definition DiskCacheGet ::
  "cache_env \<Rightarrow> disk_cache \<Rightarrow> string \<Rightarrow> string \<Rightarrow> artifact_kind \<Rightarrow> string \<Rightarrow> disk \<Rightarrow> string upstream_response result" where
  "DiskCacheGet env c tenantID upstreamID kind digest disk =
     (let missing = (\<lambda>stage e. if os_not_exist e then sentinel_error ErrCacheMiss else os_wrap stage e)
      in case finalPaths (dc_root_dir c) tenantID upstreamID kind digest of
           Inl e \<Rightarrow> Inl e
         | Inr (dataPath, metaPath) \<Rightarrow>
             (case os_find env OsReadFile metaPath disk of
                Inl e \<Rightarrow> Inl (missing ''reading cache metadata'' e)
              | Inr m \<Rightarrow>
                  (case ce_unmarshal env (df_content m) of
                     Inl e \<Rightarrow> Inl (wrap_error ''decoding cache metadata'' e)
                   | Inr meta \<Rightarrow>
                       (case os_find env OsOpen dataPath disk of
                          Inl e \<Rightarrow> Inl (missing ''opening cached artifact'' e)
                        | Inr f \<Rightarrow>
                            Inr \<lparr>rsp_status_code = 200, rsp_content_type = ad_content_type meta,
                                 rsp_headers = ad_headers meta, rsp_body = df_content f\<rparr>))))"

definition StartWrite ::
  "cache_env \<Rightarrow> disk_cache \<Rightarrow> string \<Rightarrow> string \<Rightarrow> artifact_kind \<Rightarrow> string \<Rightarrow> artifact_descriptor \<Rightarrow> disk \<Rightarrow>
   write_session result \<times> disk" where
  "StartWrite env c tenantID upstreamID kind digest descriptor disk =
     (case finalPaths (dc_root_dir c) tenantID upstreamID kind digest of
        Inl e \<Rightarrow> (Inl e, disk)
      | Inr (finalData, finalMeta) \<Rightarrow>
          (case os_call_at env OsMkdirAll (path_dir finalData) (Inr ()) of
             Inl e \<Rightarrow> (Inl (os_wrap ''creating cache directory'' e), disk)
           | Inr _ \<Rightarrow>
               (case scopeRoot (dc_root_dir c) tenantID upstreamID of
                  Inl e \<Rightarrow> (Inl e, disk)
                | Inr scope \<Rightarrow>
                    (let tempDir = path_join [scope, ''.tmp'']
                     in case os_call_at env OsMkdirAll tempDir (Inr ()) of
                          Inl e \<Rightarrow> (Inl (os_wrap ''creating cache temp directory'' e), disk)
                        | Inr _ \<Rightarrow>
                            (case os_create_temp env tempDir (kind_name kind @ ''-'') ''.part'' disk of
                               (Inl e, disk') \<Rightarrow> (Inl (os_wrap ''creating cache temp file'' e), disk')
                             | (Inr path, disk') \<Rightarrow>
                                 (Inr \<lparr>ws_tenant_id = tenantID, ws_upstream_id = upstreamID, ws_temp_data_path = path,
                                       ws_final_data = finalData, ws_final_meta = finalMeta,
                                       ws_descriptor = descriptor, ws_aborted = False, ws_committed = False\<rparr>,
                                  disk'))))))"

definition SessionWrite :: "cache_env \<Rightarrow> write_session \<Rightarrow> string \<Rightarrow> disk \<Rightarrow> unit result \<times> disk" where
  "SessionWrite env s p disk =
     (if ws_aborted s \<or> ws_committed s then (Inl (plain_error ''cache write session already closed''), disk)
      else apfst (map_sum (\<lambda>e. plain_error (os_text e)) id) (os_append env (ws_temp_data_path s) p disk))"

definition tolerate :: "string \<Rightarrow> unit os_result \<Rightarrow> unit result" where
  "tolerate stage r =
     (case r of Inl e \<Rightarrow> if os_not_exist e then Inr () else Inl (os_wrap stage e) | Inr _ \<Rightarrow> Inr ())"

definition SessionAbort :: "cache_env \<Rightarrow> write_session \<Rightarrow> disk \<Rightarrow> (unit result \<times> write_session) \<times> disk" where
  "SessionAbort env s disk =
     (if ws_aborted s \<or> ws_committed s then ((Inr (), s), disk)
      else
        (case os_remove env (ws_temp_data_path s) disk of
           (r, disk') \<Rightarrow> ((tolerate ''removing cache temp file'' r, s\<lparr>ws_aborted := True\<rparr>), disk')))"

section \<open>Limits\<close>

definition removeCachedFile :: "cache_env \<Rightarrow> cached_file \<Rightarrow> disk \<Rightarrow> unit result \<times> disk" where
  "removeCachedFile env file disk =
     (case os_remove env (cf_data_path file) disk of
        (r1, disk1) \<Rightarrow>
          (case tolerate ''removing cached artifact'' r1 of
             Inl e \<Rightarrow> (Inl e, disk1)
           | Inr _ \<Rightarrow>
               (case os_remove env (cf_meta_path file) disk1 of
                  (r2, disk2) \<Rightarrow> (tolerate ''removing cached metadata'' r2, disk2))))"

text \<open>The files the walk collects: below the scope root, not in a directory named \<open>.tmp\<close>, with extension
  \<open>.data\<close>. The root itself is skipped when it has that name.\<close>

definition walked :: "string \<Rightarrow> string \<Rightarrow> bool" where
  "walked scope path \<longleftrightarrow>
     has_prefix (scope @ ''/'') path \<and> has_suffix ''.data'' path \<and>
     ''.tmp'' \<notin> set (butlast (slash_parts (drop (length scope + 1) path))) \<and> last (slash_parts scope) \<noteq> ''.tmp''"

definition cached_file_of :: "string \<times> disk_file \<Rightarrow> cached_file" where
  "cached_file_of e =
     \<lparr>cf_data_path = fst e, cf_meta_path = take (length (fst e) - 5) (fst e) @ ''.meta.json'',
      cf_size = int (length (df_content (snd e))), cf_mod_time = df_mod_time (snd e)\<rparr>"

definition collectScopedFiles :: "cache_env \<Rightarrow> string \<Rightarrow> disk \<Rightarrow> cached_file list result" where
  "collectScopedFiles env scope disk =
     (case os_call_at env OsStat scope (Inr ()) of
        Inl e \<Rightarrow> if os_not_exist e then Inr [] else Inl (os_wrap ''stat OCI cache scope root'' e)
      | Inr _ \<Rightarrow>
          (let files = filter (\<lambda>e. walked scope (fst e)) disk
           in case (ce_fault env OsWalk scope, List.find (\<lambda>e. ce_fault env OsInfo (fst e) \<noteq> None) files) of
                (Some e, _) \<Rightarrow> Inl (os_wrap ''walking OCI cache scope'' e)
              | (None, Some f) \<Rightarrow>
                  (case ce_fault env OsInfo (fst f) of
                     Some e \<Rightarrow> Inl (os_wrap ''walking OCI cache scope'' e) | None \<Rightarrow> Inr (map cached_file_of files))
              | (None, None) \<Rightarrow> Inr (map cached_file_of files)))"

fun expired_loop :: "cache_env \<Rightarrow> duration \<Rightarrow> time \<Rightarrow> cached_file list \<Rightarrow> disk \<Rightarrow> cached_file list result \<times> disk" where
  "expired_loop env maxAge now [] disk = (Inr [], disk)"
| "expired_loop env maxAge now (f # fs) disk =
     (if time_since now (cf_mod_time f) \<le> maxAge
      then apfst (map_sum id (Cons f)) (expired_loop env maxAge now fs disk)
      else
        (case removeCachedFile env f disk of
           (Inl e, disk') \<Rightarrow> (Inl e, disk')
         | (Inr _, disk') \<Rightarrow> expired_loop env maxAge now fs disk'))"

definition removeExpiredFiles ::
  "cache_env \<Rightarrow> disk_cache \<Rightarrow> cached_file list \<Rightarrow> time \<Rightarrow> disk \<Rightarrow> cached_file list result \<times> disk" where
  "removeExpiredFiles env c files now disk =
     (if dc_max_age c \<le> 0 then (Inr files, disk) else expired_loop env (dc_max_age c) now files disk)"

definition capacityExceeded :: "disk_cache \<Rightarrow> nat \<Rightarrow> int \<Rightarrow> bool" where
  "capacityExceeded c entryCount totalBytes \<longleftrightarrow>
     (0 < dc_max_entries c \<and> dc_max_entries c < int entryCount) \<or> (0 < dc_max_bytes c \<and> dc_max_bytes c < totalBytes)"

definition cachedFilesSize :: "cached_file list \<Rightarrow> int" where
  "cachedFilesSize files = sum_list (map cf_size files)"

fun capacity_loop :: "cache_env \<Rightarrow> disk_cache \<Rightarrow> cached_file list \<Rightarrow> int \<Rightarrow> disk \<Rightarrow> unit result \<times> disk" where
  "capacity_loop env c [] totalBytes disk = (Inr (), disk)"
| "capacity_loop env c (oldest # files) totalBytes disk =
     (if capacityExceeded c (length (oldest # files)) totalBytes then
        (case removeCachedFile env oldest disk of
           (Inl e, disk') \<Rightarrow> (Inl e, disk')
         | (Inr _, disk') \<Rightarrow> capacity_loop env c files (totalBytes - cf_size oldest) disk')
      else (Inr (), disk))"

definition enforceCapacityLimits :: "cache_env \<Rightarrow> disk_cache \<Rightarrow> cached_file list \<Rightarrow> disk \<Rightarrow> unit result \<times> disk" where
  "enforceCapacityLimits env c files disk =
     (if dc_max_entries c \<le> 0 \<and> dc_max_bytes c \<le> 0 then (Inr (), disk)
      else capacity_loop env c (sort_key cf_mod_time files) (cachedFilesSize files) disk)"

definition enforceLimits :: "cache_env \<Rightarrow> disk_cache \<Rightarrow> string \<Rightarrow> string \<Rightarrow> disk \<Rightarrow> unit result \<times> disk" where
  "enforceLimits env c tenantID upstreamID disk =
     (if dc_max_age c \<le> 0 \<and> dc_max_entries c \<le> 0 \<and> dc_max_bytes c \<le> 0 then (Inr (), disk)
      else
        (case scopeRoot (dc_root_dir c) tenantID upstreamID of
           Inl e \<Rightarrow> (Inl e, disk)
         | Inr scope \<Rightarrow>
             (case collectScopedFiles env scope disk of
                Inl e \<Rightarrow> (Inl e, disk)
              | Inr files \<Rightarrow>
                  (case removeExpiredFiles env c files (ce_now env) disk of
                     (Inl e, disk') \<Rightarrow> (Inl e, disk')
                   | (Inr kept, disk') \<Rightarrow> enforceCapacityLimits env c kept disk'))))"

section \<open>Committing\<close>

text \<open>The staged file and its metadata are moved to their final names, data first.\<close>

definition promote :: "cache_env \<Rightarrow> disk_cache \<Rightarrow> write_session \<Rightarrow> string \<Rightarrow> disk \<Rightarrow> (unit result \<times> write_session) \<times> disk" where
  "promote env c s tempMeta disk =
     (case os_rename env (ws_temp_data_path s) (ws_final_data s) disk of
        (Inl e, disk1) \<Rightarrow>
          ((Inl (os_wrap ''promoting cached artifact'' e), s), discard env [ws_temp_data_path s, tempMeta] disk1)
      | (Inr _, disk1) \<Rightarrow>
          (case os_rename env tempMeta (ws_final_meta s) disk1 of
             (Inl e, disk2) \<Rightarrow>
               ((Inl (os_wrap ''promoting cache metadata'' e), s), discard env [ws_final_data s, tempMeta] disk2)
           | (Inr _, disk2) \<Rightarrow>
               (case enforceLimits env c (ws_tenant_id s) (ws_upstream_id s) disk2 of
                  (r, disk3) \<Rightarrow> ((map_sum (wrap_error ''enforcing cache limits'') id r, s\<lparr>ws_committed := True\<rparr>), disk3))))"

definition SessionCommit :: "cache_env \<Rightarrow> disk_cache \<Rightarrow> write_session \<Rightarrow> disk \<Rightarrow> (unit result \<times> write_session) \<times> disk" where
  "SessionCommit env c s disk =
     (let temp = ws_temp_data_path s; tempMeta = temp @ ''.meta''
      in if ws_aborted s \<or> ws_committed s then ((Inr (), s), disk)
         else
           (case os_call_at env OsClose temp (Inr ()) of
              Inl e \<Rightarrow> ((Inl (os_wrap ''closing cache temp file'' e), s), discard env [temp] disk)
            | Inr _ \<Rightarrow>
                (case ce_marshal env (ws_descriptor s) of
                   Inl e \<Rightarrow> ((Inl (wrap_error ''encoding cache metadata'' e), s), discard env [temp] disk)
                 | Inr metaBytes \<Rightarrow>
                     (case os_write_file env tempMeta metaBytes disk of
                        (Inl e, disk1) \<Rightarrow> ((Inl (os_wrap ''writing cache metadata'' e), s), discard env [temp] disk1)
                      | (Inr _, disk1) \<Rightarrow>
                          (case os_find env OsStat (ws_final_data s) disk1 of
                             Inr _ \<Rightarrow> ((Inr (), s\<lparr>ws_committed := True\<rparr>), discard env [temp, tempMeta] disk1)
                           | Inl e \<Rightarrow>
                               if \<not> os_not_exist e then
                                 ((Inl (os_wrap ''checking cache destination'' e), s), discard env [temp, tempMeta] disk1)
                               else promote env c s tempMeta disk1)))))"

text \<open>The cache as the port of the client.\<close>

definition disk_port :: "cache_env \<Rightarrow> disk_cache \<Rightarrow> (write_session, disk) oci_artifact_cache" where
  "disk_port env c =
     \<lparr>oac_get = (\<lambda>t u k d. State (\<lambda>disk. (DiskCacheGet env c t u k d disk, disk))),
      oac_start_write = (\<lambda>t u k d desc. State (StartWrite env c t u k d desc)),
      oac_write = (\<lambda>s p. State (SessionWrite env s p)),
      oac_commit = (\<lambda>s. State (\<lambda>disk. apfst fst (SessionCommit env c s disk))),
      oac_abort = (\<lambda>s. State (\<lambda>disk. apfst fst (SessionAbort env s disk)))\<rparr>"

section \<open>Removing files\<close>

lemma map_of_put [simp]: "map_of (AList.update k v d) = (map_of d)(k \<mapsto> v)"
  by (rule update_conv')

lemma map_of_delete [simp]: "map_of (AList.delete k d) = (map_of d)(k := None)"
  by (rule delete_conv')

text \<open>Files have only disappeared.\<close>

definition fewer :: "disk \<Rightarrow> disk \<Rightarrow> bool" where
  "fewer d' d \<longleftrightarrow> (\<forall>p. map_of d' p = map_of d p \<or> map_of d' p = None)"

lemma fewer_refl [simp]: "fewer d d"
  by (simp add: fewer_def)

lemma fewer_trans: "fewer d2 d1 \<Longrightarrow> fewer d1 d \<Longrightarrow> fewer d2 d"
  unfolding fewer_def by metis

lemma remove_fewer: "fewer (snd (os_remove env p d)) d"
  by (auto simp: os_remove_def fewer_def split: sum.split)

lemma discard_fewer: "fewer (discard env ps d) d"
proof (induction ps arbitrary: d)
  case (Cons p ps)
  from fewer_trans [OF Cons remove_fewer] show ?case by (simp add: discard_def)
qed (simp add: discard_def)

lemma remove_cached_fewer: "fewer (snd (removeCachedFile env f d)) d"
  using remove_fewer [of env "cf_data_path f" d] fewer_trans [OF remove_fewer remove_fewer]
  by (auto simp: removeCachedFile_def split: prod.splits sum.splits) (metis snd_conv)+

lemma expired_fewer: "fewer (snd (expired_loop env a now fs d)) d"
proof (induction env a now fs d rule: expired_loop.induct)
  case (2 env a now f fs d)
  then show ?case
    using remove_cached_fewer [of env f d] by (auto split: prod.splits sum.splits intro: fewer_trans)
qed simp

lemma capacity_fewer: "fewer (snd (capacity_loop env c fs n d)) d"
proof (induction env c fs n d rule: capacity_loop.induct)
  case (2 env c f fs n d)
  then show ?case
    using remove_cached_fewer [of env f d] by (auto split: prod.splits sum.splits intro: fewer_trans)
qed simp

lemma limits_fewer: "fewer (snd (enforceLimits env c t u d)) d"
proof -
  have expired: "fewer (snd (removeExpiredFiles env c fs now d)) d" for fs now
    by (simp add: removeExpiredFiles_def expired_fewer)
  have capacity: "fewer (snd (enforceCapacityLimits env c fs d')) d'" for fs d'
    by (simp add: enforceCapacityLimits_def capacity_fewer)
  show ?thesis
    using expired [of _ "ce_now env"] capacity
    by (auto simp: enforceLimits_def split: sum.splits prod.splits) (metis fewer_trans snd_conv)+
qed

section \<open>The writer's contract\<close>

text \<open>The content of the data file at a path.\<close>

definition disk_served :: "disk \<Rightarrow> string \<Rightarrow> string option" where
  "disk_served d p = (if has_suffix ''.data'' p then map_option df_content (map_of d p) else None)"

definition session_staged :: "write_session \<Rightarrow> disk \<Rightarrow> string" where
  "session_staged s d = (case map_of d (ws_temp_data_path s) of None \<Rightarrow> [] | Some f \<Rightarrow> df_content f)"

definition session_fills :: "write_session \<Rightarrow> string \<Rightarrow> bool" where
  "session_fills s p \<longleftrightarrow> p = ws_final_data s"

definition session_ok :: "write_session \<Rightarrow> disk \<Rightarrow> bool" where
  "session_ok s d \<longleftrightarrow> map_of d (ws_temp_data_path s) \<noteq> None \<and> has_suffix ''.part'' (ws_temp_data_path s) \<and>
     has_suffix ''.data'' (ws_final_data s) \<and> has_suffix ''.meta.json'' (ws_final_meta s)"

lemma suffixes_differ:
  "has_suffix ''.part'' p \<Longrightarrow> \<not> has_suffix ''.data'' p" "has_suffix ''.meta.json'' p \<Longrightarrow> \<not> has_suffix ''.data'' p"
  "\<not> has_suffix ''.data'' (p @ ''.meta'')"
  by (auto dest!: has_suffixE)

lemma fewer_served: "fewer d' d \<Longrightarrow> disk_served d' p = disk_served d p \<or> disk_served d' p = None"
  unfolding disk_served_def fewer_def by (metis option.map(1))

lemma served_put: "\<not> has_suffix ''.data'' k \<Longrightarrow> disk_served (AList.update k v d) = disk_served d"
  by (auto simp: disk_served_def fun_eq_iff)

lemma served_delete: "\<not> has_suffix ''.data'' k \<Longrightarrow> disk_served (AList.delete k d) = disk_served d"
  by (auto simp: disk_served_def fun_eq_iff)

lemma served_discard: "\<forall>p \<in> set ps. \<not> has_suffix ''.data'' p \<Longrightarrow> disk_served (discard env ps d) = disk_served d"
proof (induction ps arbitrary: d)
  case (Cons p ps)
  then show ?case by (auto simp: discard_def os_remove_def served_delete split: sum.split)
qed (simp add: discard_def)

lemma commit_served:
  assumes "session_ok s d" "SessionCommit env c s d = (r, d')"
  shows "disk_served d' p = disk_served d p \<or> disk_served d' p = None \<or>
    session_fills s p \<and> disk_served d' p = Some (session_staged s d)"
proof -
  let ?temp = "ws_temp_data_path s" and ?final = "ws_final_data s" and ?meta = "ws_final_meta s"
  from assms(1) obtain f where f: "map_of d ?temp = Some f" by (auto simp: session_ok_def)
  have no_data: "\<not> has_suffix ''.data'' ?temp" "\<not> has_suffix ''.data'' (?temp @ ''.meta'')" "\<not> has_suffix ''.data'' ?meta"
    using assms(1) suffixes_differ by (auto simp: session_ok_def)
  have final: "has_suffix ''.data'' ?final" using assms(1) by (simp add: session_ok_def)
  then have neq: "?temp \<noteq> ?final" "?meta \<noteq> ?final" using no_data by auto
  consider "disk_served d' = disk_served d"
    | d1 d2 where "d1 = os_put env (?temp @ ''.meta'') d2 d" "promote env c s (?temp @ ''.meta'') d1 = (r, d')"
    using assms(2) no_data served_discard
    by (auto simp: SessionCommit_def os_write_file_def os_call_at_def os_put_def Let_def served_put
        split: if_splits sum.splits option.splits)
  then show ?thesis
  proof cases
    case 1
    then show ?thesis by simp
  next
    case 2
    have d1: "map_of d1 ?temp = Some f" "disk_served d1 = disk_served d"
      using 2(1) f no_data by (auto simp: os_put_def served_put)
    define d3 where "d3 = AList.update ?final f (AList.delete ?temp d1)"
    have d3: "disk_served d3 q = (if q = ?final then Some (session_staged s d) else disk_served d q)" for q
      using d1(1) fun_cong [OF d1(2), of q] f no_data(1) final neq
      by (auto simp: d3_def disk_served_def session_staged_def)
    have after: "disk_served d3 p = disk_served d p \<or> session_fills s p \<and> disk_served d3 p = Some (session_staged s d)"
      by (simp add: d3 session_fills_def)
    show ?thesis
    proof (cases "os_rename env ?temp ?final d1")
      case (Pair r1 d4)
      show ?thesis
      proof (cases r1)
        case (Inl e)
        with Pair have "d4 = d1" by (auto simp: os_rename_def split: sum.splits)
        with Pair Inl 2(2) have "fewer d' d1" using discard_fewer by (auto simp: promote_def)
        with fewer_served [of d' d1 p] d1(2) show ?thesis by auto
      next
        case (Inr u)
        with Pair d1 have "d4 = d3" by (auto simp: os_rename_def os_call_at_def d3_def split: sum.splits option.splits)
        obtain r2 d5 where r2: "os_rename env (?temp @ ''.meta'') ?meta d3 = (r2, d5)" by fastforce
        then have "disk_served d5 = disk_served d3"
          using no_data by (auto simp: os_rename_def served_put served_delete split: sum.splits)
        moreover have "fewer d' d5"
          using 2(2) Pair Inr \<open>d4 = d3\<close> r2 discard_fewer limits_fewer [of env c "ws_tenant_id s" "ws_upstream_id s" d5]
          by (auto simp: promote_def split: sum.splits prod.splits)
        ultimately show ?thesis using fewer_served [of d' d5 p] after by auto
      qed
    qed
  qed
qed

lemma write_session:
  assumes "session_ok s d" "SessionWrite env s p d = (r, d')"
  shows "session_ok s d' \<and> disk_served d' = disk_served d \<and> (r = Inr () \<longrightarrow> session_staged s d' = session_staged s d @ p)"
proof -
  from assms(1) obtain f where f: "map_of d (ws_temp_data_path s) = Some f" by (auto simp: session_ok_def)
  have "\<not> has_suffix ''.data'' (ws_temp_data_path s)" using assms(1) suffixes_differ by (auto simp: session_ok_def)
  with assms f show ?thesis
    by (auto simp: SessionWrite_def os_append_def os_put_def served_put session_ok_def session_staged_def
        split: if_splits sum.splits)
qed

lemma abort_session:
  assumes "session_ok s d" "SessionAbort env s d = (r, d')"
  shows "disk_served d' = disk_served d"
  using assms suffixes_differ(1) [of "ws_temp_data_path s"]
  by (auto simp: SessionAbort_def os_remove_def served_delete session_ok_def split: if_splits prod.splits sum.splits)

interpretation dw: artifact_writer "disk_port env c" disk_served session_fills session_staged session_ok for env c
proof
  fix w s p r s' k
  assume ok: "session_ok w s"
  show "session_ok w s' \<and> disk_served s' = disk_served s \<and> (r = Inr () \<longrightarrow> session_staged w s' = session_staged w s @ p)"
    if "run_state (oac_write (disk_port env c) w p) s = (r, s')"
    using that write_session [OF ok] by (simp add: disk_port_def)
  show "disk_served s' k = disk_served s k \<or> disk_served s' k = None \<or>
      session_fills w k \<and> disk_served s' k = Some (session_staged w s)"
    if "run_state (oac_commit (disk_port env c) w) s = (r, s')"
    using that commit_served [OF ok] by (auto simp: disk_port_def apfst_def map_prod_def split: prod.splits)
  show "disk_served s' = disk_served s" if "run_state (oac_abort (disk_port env c) w) s = (r, s')"
    using that abort_session [OF ok] by (auto simp: disk_port_def apfst_def map_prod_def split: prod.splits)
qed

section \<open>Starting and reading\<close>

lemma free_temp_Some: "free_temp name d n = Some x \<Longrightarrow> map_of d x = None \<and> (\<exists>m. x = name m)"
proof (induction name d n rule: free_temp.induct)
  case (1 name d n)
  then show ?case by (subst (asm) (2) free_temp.simps) (auto split: if_splits)
qed

lemma start_write:
  assumes "StartWrite env c t u k dg desc d = (Inr s, d')"
  shows "finalPaths (dc_root_dir c) t u k dg = Inr (ws_final_data s, ws_final_meta s)" "session_ok s d'"
    "session_staged s d' = []" "disk_served d' = disk_served d" "ws_aborted s = False" "ws_committed s = False"
    "ws_tenant_id s = t" "ws_upstream_id s = u" "ws_descriptor s = desc" "map_of d (ws_temp_data_path s) = None"
    "d' = os_put env (ws_temp_data_path s) [] d"
proof -
  from assms obtain p q tempDir where paths: "finalPaths (dc_root_dir c) t u k dg = Inr (p, q)"
    and temp: "os_create_temp env tempDir (kind_name k @ ''-'') ''.part'' d = (Inr (ws_temp_data_path s), d')"
    and s: "ws_final_data s = p" "ws_final_meta s = q" "ws_aborted s = False" "ws_committed s = False"
      "ws_tenant_id s = t" "ws_upstream_id s = u" "ws_descriptor s = desc"
    by (auto simp: StartWrite_def Let_def split: sum.splits prod.splits)
  let ?name = "\<lambda>n. tempDir @ ''/'' @ (kind_name k @ ''-'') @ show_nat (ce_random env n) @ ''.part''"
  from temp have free: "free_temp ?name d 0 = Some (ws_temp_data_path s)"
    and d': "d' = os_put env (ws_temp_data_path s) [] d"
    unfolding os_create_temp_def os_call_at_def by (simp_all split: option.splits)
  from free_temp_Some [OF free] obtain m where
    new: "map_of d (ws_temp_data_path s) = None" and m: "ws_temp_data_path s = ?name m" by blast
  have part: "has_suffix ''.part'' (ws_temp_data_path s)"
    unfolding m by (simp only: append.assoc [symmetric] has_suffix_append)
  from paths have "has_suffix ''.data'' p" "has_suffix ''.meta.json'' q"
    by (auto simp: finalPaths_def Let_def split: sum.splits)
  with part show "session_ok s d'" "session_staged s d' = []" "disk_served d' = disk_served d"
    using suffixes_differ(1) by (auto simp: session_ok_def session_staged_def d' os_put_def s served_put)
  show "finalPaths (dc_root_dir c) t u k dg = Inr (ws_final_data s, ws_final_meta s)" using paths s by simp
  show "ws_aborted s = False" "ws_committed s = False" "ws_tenant_id s = t" "ws_upstream_id s = u"
    "ws_descriptor s = desc" "map_of d (ws_temp_data_path s) = None" "d' = os_put env (ws_temp_data_path s) [] d"
    using s new d' by simp_all
qed

lemma get_served:
  assumes "DiskCacheGet env c t u k dg d = Inr resp"
  shows "\<exists>p q. finalPaths (dc_root_dir c) t u k dg = Inr (p, q) \<and> disk_served d p = Some (rsp_body resp)"
proof -
  from assms obtain p q f where "finalPaths (dc_root_dir c) t u k dg = Inr (p, q)" "map_of d p = Some f"
    "rsp_body resp = df_content f"
    by (auto simp: DiskCacheGet_def Let_def os_find_def os_call_at_def split: sum.splits option.splits)
  moreover from this have "has_suffix ''.data'' p" by (auto simp: finalPaths_def Let_def split: sum.splits)
  ultimately show ?thesis by (auto simp: disk_served_def)
qed

section \<open>The limits\<close>

text \<open>Faults of the environment are failures other than a missing file.\<close>

definition honest :: "cache_env \<Rightarrow> bool" where
  "honest env \<longleftrightarrow> (\<forall>c p e. ce_fault env c p = Some e \<longrightarrow> \<not> os_not_exist e)"

definition data_files :: "string \<Rightarrow> disk \<Rightarrow> disk" where
  "data_files scope d = filter (\<lambda>e. walked scope (fst e)) d"

definition without :: "string set \<Rightarrow> disk \<Rightarrow> disk" where
  "without ps d = filter (\<lambda>e. fst e \<notin> ps) d"

lemma delete_without: "AList.delete p d = without {p} d"
  by (auto simp: AList.delete_eq without_def intro: filter_cong)

lemma without_without [simp]: "without A (without B d) = without (A \<union> B) d"
  by (auto simp: without_def intro: filter_cong)

lemma without_empty [simp]: "without {} d = d"
  by (simp add: without_def)

lemma remove_honest:
  assumes "honest env" "os_remove env p d = (r, d')" "tolerate stage r = Inr ()"
  shows "d' = without {p} d"
proof -
  have "without {p} d = d" if "map_of d p = None"
    using that by (auto simp: without_def map_of_eq_None_iff filter_id_conv image_iff)
  with assms show ?thesis
    by (auto simp: os_remove_def os_find_def os_call_at_def tolerate_def honest_def delete_without
        split: option.splits sum.splits if_splits)
qed

lemma remove_cached_honest:
  assumes "honest env" "removeCachedFile env f d = (Inr (), d')"
  shows "d' = without {cf_data_path f, cf_meta_path f} d"
proof -
  obtain r1 d1 where r1: "os_remove env (cf_data_path f) d = (r1, d1)" by fastforce
  obtain r2 d2 where r2: "os_remove env (cf_meta_path f) d1 = (r2, d2)" by fastforce
  from assms(2) r1 r2 have "tolerate ''removing cached artifact'' r1 = Inr ()"
    "tolerate ''removing cached metadata'' r2 = Inr ()" "d' = d2"
    by (auto simp: removeCachedFile_def split: sum.splits)
  with remove_honest [OF assms(1) r1] remove_honest [OF assms(1) r2] show ?thesis by (simp add: insert_commute)
qed

definition cached_paths :: "cached_file list \<Rightarrow> string set" where
  "cached_paths fs = cf_data_path ` set fs \<union> cf_meta_path ` set fs"

lemma cached_paths_simps [simp]:
  "cached_paths [] = {}" "cached_paths (f # fs) = {cf_data_path f, cf_meta_path f} \<union> cached_paths fs"
  by (auto simp: cached_paths_def)

lemma expired_honest:
  assumes "honest env" "expired_loop env a now fs d = (Inr kept, d')"
  shows "kept = filter (\<lambda>f. time_since now (cf_mod_time f) \<le> a) fs \<and>
    d' = without (cached_paths (filter (\<lambda>f. \<not> time_since now (cf_mod_time f) \<le> a) fs)) d"
  using assms(2)
proof (induction fs arbitrary: d kept)
  case (Cons f fs)
  show ?case
  proof (cases "time_since now (cf_mod_time f) \<le> a")
    case True
    obtain r d1 where loop: "expired_loop env a now fs d = (r, d1)" by fastforce
    with Cons True show ?thesis by (cases r) auto
  next
    case False
    then obtain d1 where "removeCachedFile env f d = (Inr (), d1)" and rest: "expired_loop env a now fs d1 = (Inr kept, d')"
      using Cons.prems by (auto split: prod.splits sum.splits)
    from remove_cached_honest [OF assms(1) this(1)] Cons.IH [OF rest] False show ?thesis by (simp add: Un_commute)
  qed
qed simp

lemma capacity_honest:
  assumes "honest env" "capacity_loop env c fs bytes d = (Inr (), d')"
  shows "\<exists>n \<le> length fs. d' = without (cached_paths (take n fs)) d \<and>
    (n < length fs \<longrightarrow> \<not> capacityExceeded c (length (drop n fs)) (bytes - cachedFilesSize (take n fs)))"
  using assms(2)
proof (induction fs arbitrary: bytes d)
  case (Cons f fs)
  show ?case
  proof (cases "capacityExceeded c (length (f # fs)) bytes")
    case False
    with Cons.prems show ?thesis by (intro exI [of _ 0]) (simp add: cachedFilesSize_def)
  next
    case True
    then obtain d1 where remove: "removeCachedFile env f d = (Inr (), d1)"
      and rest: "capacity_loop env c fs (bytes - cf_size f) d1 = (Inr (), d')"
      using Cons.prems by (auto split: prod.splits sum.splits)
    from Cons.IH [OF rest] obtain n where n: "n \<le> length fs" "d' = without (cached_paths (take n fs)) d1"
      "n < length fs \<longrightarrow> \<not> capacityExceeded c (length (drop n fs)) (bytes - cf_size f - cachedFilesSize (take n fs))" by blast
    with remove_cached_honest [OF assms(1) remove] show ?thesis
      by (intro exI [of _ "Suc n"]) (auto simp: cachedFilesSize_def Un_commute diff_diff_eq)
  qed
qed simp

definition listed :: "string \<Rightarrow> disk \<Rightarrow> cached_file list" where
  "listed scope d = map cached_file_of (data_files scope d)"

lemma cached_file_of_simps [simp]:
  "cf_data_path (cached_file_of e) = fst e" "cf_size (cached_file_of e) = int (length (df_content (snd e)))"
  "cf_mod_time (cached_file_of e) = df_mod_time (snd e)" "has_suffix ''.meta.json'' (cf_meta_path (cached_file_of e))"
  by (simp_all add: cached_file_of_def)

lemma listed_paths: "distinct (map fst d) \<Longrightarrow> distinct (map cf_data_path (listed scope d))"
  by (simp add: listed_def data_files_def comp_def distinct_map_filter)

lemma listed_without:
  assumes "\<forall>f \<in> set fs. has_suffix ''.meta.json'' (cf_meta_path f)"
  shows "listed scope (without (cached_paths fs) d) = filter (\<lambda>f. cf_data_path f \<notin> cf_data_path ` set fs) (listed scope d)"
proof -
  have "fst e \<notin> cf_meta_path ` set fs" if "walked scope (fst e)" for e :: "string \<times> disk_file"
    using that assms suffixes_differ(2) by (auto simp: walked_def)
  then have "filter (\<lambda>e. walked scope (fst e)) (without (cached_paths fs) d) =
      filter (\<lambda>e. fst e \<notin> cf_data_path ` set fs) (data_files scope d)"
    by (auto simp: without_def data_files_def cached_paths_def intro!: filter_cong)
  then show ?thesis by (simp add: listed_def data_files_def filter_map comp_def)
qed

lemma filter_paths:
  assumes "distinct (map cf_data_path fs)" "S \<subseteq> set fs"
  shows "filter (\<lambda>f. cf_data_path f \<notin> cf_data_path ` S) fs = filter (\<lambda>f. f \<notin> S) fs"
  using assms by (intro filter_cong) (auto simp: distinct_map inj_on_def)

lemma listed_meta: "f \<in> set (listed scope d) \<Longrightarrow> has_suffix ''.meta.json'' (cf_meta_path f)"
  by (auto simp: listed_def)

lemma without_outside:
  assumes "\<forall>f \<in> set fs. has_prefix x (cf_data_path f) \<and> has_prefix x (cf_meta_path f)" "e \<in> set d" "\<not> has_prefix x (fst e)"
  shows "e \<in> set (without (cached_paths fs) d)"
  using assms by (auto simp: without_def cached_paths_def)

lemma listed_inside:
  assumes "f \<in> set (listed scope d)"
  shows "has_prefix (scope @ ''/'') (cf_data_path f) \<and> has_prefix (scope @ ''/'') (cf_meta_path f)"
proof -
  from assms obtain e where e: "f = cached_file_of e" "walked scope (fst e)" by (auto simp: listed_def data_files_def)
  then obtain x y where path: "fst e = (scope @ ''/'') @ x" "fst e = y @ ''.data''"
    using has_prefixE [of "scope @ ''/''" "fst e"] has_suffixE [of "''.data''" "fst e"] by (auto simp: walked_def)
  then have "(scope @ ''/'') @ x = y @ ''.data''" by simp
  then obtain us where "(scope @ ''/'') @ us = y \<or> scope @ ''/'' = y @ us \<and> us @ x = ''.data''"
    by (auto simp only: append_eq_append_conv2)
  moreover have "us = []" if "scope @ ''/'' = y @ us" "us @ x = ''.data''"
  proof (rule ccontr)
    assume "us \<noteq> []"
    then have "CHR ''/'' \<in> set us" using that(1) by (metis last_appendR last_in_set last_snoc)
    then have "CHR ''/'' \<in> set ''.data''" using that(2) by (metis Un_iff set_append)
    then show False by simp
  qed
  ultimately obtain x' where "y = (scope @ ''/'') @ x'" by (metis append_Nil2)
  with path(2) e(1) show ?thesis
    by (simp add: cached_file_of_def) (metis append.assoc append_Cons append_Nil has_prefix_append)
qed

lemma capacity_result:
  assumes "honest env" "distinct (map fst d)" "enforceCapacityLimits env c (listed scope d) d = (Inr (), d')"
  shows "\<exists>gone. listed scope d' = filter (\<lambda>f. f \<notin> set gone) (listed scope d) \<and> set gone \<subseteq> set (listed scope d) \<and>
    d' = without (cached_paths gone) d \<and>
    (\<forall>f \<in> set gone. \<forall>g \<in> set (listed scope d'). cf_mod_time f \<le> cf_mod_time g) \<and>
    \<not> capacityExceeded c (length (listed scope d')) (cachedFilesSize (listed scope d'))"
proof (cases "dc_max_entries c \<le> 0 \<and> dc_max_bytes c \<le> 0")
  case True
  with assms(3) show ?thesis by (intro exI [of _ "[]"]) (auto simp: enforceCapacityLimits_def capacityExceeded_def)
next
  case False
  define fs where "fs = sort_key cf_mod_time (listed scope d)"
  from False assms(3) have "capacity_loop env c fs (cachedFilesSize (listed scope d)) d = (Inr (), d')"
    by (auto simp: enforceCapacityLimits_def fs_def)
  from capacity_honest [OF assms(1) this] obtain n where n: "n \<le> length fs"
    and d': "d' = without (cached_paths (take n fs)) d"
    and stop: "n < length fs \<longrightarrow>
      \<not> capacityExceeded c (length (drop n fs)) (cachedFilesSize (listed scope d) - cachedFilesSize (take n fs))" by blast
  have perm: "mset fs = mset (listed scope d)" by (simp add: fs_def)
  then have set_fs: "set fs = set (listed scope d)" by (metis set_mset_mset)
  have dist: "distinct (map cf_data_path fs)"
    using listed_paths [OF assms(2), of scope] perm by (metis mset_map mset_eq_imp_distinct_iff)
  have sub: "set (take n fs) \<subseteq> set (listed scope d)" using set_fs set_take_subset by metis
  have left: "listed scope d' = filter (\<lambda>f. f \<notin> set (take n fs)) (listed scope d)"
    unfolding d' using sub listed_meta
    by (subst listed_without) (auto simp: filter_paths [OF listed_paths [OF assms(2)] sub])
  have "mset (listed scope d') = mset (filter (\<lambda>f. f \<notin> set (take n fs)) fs)"
    unfolding left using perm by (metis mset_filter)
  also have "filter (\<lambda>f. f \<notin> set (take n fs)) fs = drop n fs"
  proof -
    have "distinct (take n fs @ drop n fs)" using dist by (simp only: append_take_drop_id distinct_map)
    then have "\<forall>f \<in> set (drop n fs). f \<notin> set (take n fs)" unfolding distinct_append by blast
    then have "filter (\<lambda>f. f \<notin> set (take n fs)) (take n fs @ drop n fs) = drop n fs"
      unfolding filter_append by (simp add: filter_empty_conv filter_id_conv)
    then show ?thesis by (simp only: append_take_drop_id)
  qed
  finally have rest: "mset (listed scope d') = mset (drop n fs)" .
  then have rest_len: "length (listed scope d') = length (drop n fs)" by (rule mset_eq_length)
  have size: "cachedFilesSize xs = sum_mset (image_mset cf_size (mset xs))" for xs
    by (simp add: cachedFilesSize_def flip: sum_mset_sum_list)
  have "cachedFilesSize (listed scope d) = cachedFilesSize (take n fs) + cachedFilesSize (drop n fs)"
    unfolding size perm [symmetric] by (simp flip: image_mset_union mset_append sum_mset.union)
  then have rest_size: "cachedFilesSize (listed scope d') = cachedFilesSize (listed scope d) - cachedFilesSize (take n fs)"
    unfolding size rest by simp
  have "\<not> capacityExceeded c (length (listed scope d')) (cachedFilesSize (listed scope d'))"
  proof (cases "n < length fs")
    case True
    with stop show ?thesis unfolding rest_len rest_size by blast
  next
    case full: False
    then have "listed scope d' = []" using rest by simp
    then show ?thesis by (simp add: capacityExceeded_def cachedFilesSize_def)
  qed
  moreover have "cf_mod_time f \<le> cf_mod_time g" if "f \<in> set (take n fs)" "g \<in> set (listed scope d')" for f g
  proof -
    have "g \<in> set (drop n fs)" using that(2) rest by (metis set_mset_mset)
    moreover have "sorted (map cf_mod_time (take n fs @ drop n fs))" by (simp add: fs_def)
    ultimately show ?thesis using that(1) unfolding map_append sorted_append by auto
  qed
  ultimately show ?thesis using left sub d' by blast
qed

section \<open>Properties\<close>

text \<open>C22. Only complete bodies are cached: whatever fails on the disk and however much of the body the client reads,
  a hit after a request was filled is served content that the cache held before, or the entry of the
  request with the whole body, which the source must have delivered to its end.\<close>

theorem only_complete_bodies_cached:
  assumes "StartWrite env c t u k dg desc d = (Inr session, d1)"
    and "run_state (read_and_close (disk_port env c) n \<lparr>cr_source = source, cr_writer = Some session\<rparr>) d1 = (es, d2)"
    and "DiskCacheGet env' c t' u' k' dg' d2 = Inr resp"
  shows "\<exists>p q. finalPaths (dc_root_dir c) t' u' k' dg' = Inr (p, q) \<and>
    (map_option df_content (map_of d p) = Some (rsp_body resp) \<or>
     (\<exists>q'. finalPaths (dc_root_dir c) t u k dg = Inr (p, q')) \<and> body_content source = Some (rsp_body resp))"
proof -
  note started = start_write [OF assms(1)]
  obtain p q where get: "finalPaths (dc_root_dir c) t' u' k' dg' = Inr (p, q)" "disk_served d2 p = Some (rsp_body resp)"
    using get_served [OF assms(3)] by blast
  have "disk_served d2 p = disk_served d1 p \<or> disk_served d2 p = None \<or> (session_fills session p \<and>
      (\<exists>content. body_content source = Some content \<and> disk_served d2 p = Some (session_staged session d1 @ content)))"
    by (rule dw.only_complete_bodies [OF started(2) assms(2)])
  then have "disk_served d p = Some (rsp_body resp) \<or>
      p = ws_final_data session \<and> body_content source = Some (rsp_body resp)"
    using get(2) started(3,4) by (auto simp: session_fills_def)
  moreover have "map_option df_content (map_of d p) = Some x" if "disk_served d p = Some x" for x
    using that by (simp add: disk_served_def split: if_splits)
  ultimately show ?thesis using get(1) started(1) by auto
qed

text \<open>C24. The limits of the cache hold after a commit: when enforcing them succeeds, the data files of the scope are
  at most the configured number, of at most the configured size and age; a file has gone only because
  it was too old or no older than every file left, and nothing outside the scope is touched.\<close>

theorem cache_limits_hold:
  assumes "honest env" "distinct (map fst d)" "scopeRoot (dc_root_dir c) t u = Inr scope"
    and "enforceLimits env c t u d = (Inr (), d')"
  shows "(0 < dc_max_entries c \<longrightarrow> int (length (listed scope d')) \<le> dc_max_entries c) \<and>
    (0 < dc_max_bytes c \<longrightarrow> cachedFilesSize (listed scope d') \<le> dc_max_bytes c) \<and>
    (0 < dc_max_age c \<longrightarrow> (\<forall>f \<in> set (listed scope d'). time_since (ce_now env) (cf_mod_time f) \<le> dc_max_age c)) \<and>
    (\<forall>f \<in> set (listed scope d) - set (listed scope d').
       dc_max_age c < time_since (ce_now env) (cf_mod_time f) \<or> (\<forall>g \<in> set (listed scope d'). cf_mod_time f \<le> cf_mod_time g)) \<and>
    (\<forall>e \<in> set d. \<not> has_prefix (scope @ ''/'') (fst e) \<longrightarrow> e \<in> set d')"
proof (cases "dc_max_age c \<le> 0 \<and> dc_max_entries c \<le> 0 \<and> dc_max_bytes c \<le> 0")
  case True
  with assms(4) show ?thesis by (auto simp: enforceLimits_def)
next
  case False
  let ?old = "\<lambda>f. dc_max_age c > 0 \<and> dc_max_age c < time_since (ce_now env) (cf_mod_time f)"
  define gone where "gone = filter ?old (listed scope d)"
  have collected: "collectScopedFiles env scope d = Inr (listed scope d)"
    using assms(1,3,4) False
    by (auto simp: enforceLimits_def collectScopedFiles_def honest_def os_call_at_def Let_def listed_def data_files_def
        split: sum.splits option.splits)
  define d1 where "d1 = without (cached_paths gone) d"
  have meta: "\<forall>f \<in> set gone. has_suffix ''.meta.json'' (cf_meta_path f)" using listed_meta by (auto simp: gone_def)
  have kept: "listed scope d1 = filter (\<lambda>f. \<not> ?old f) (listed scope d)"
    unfolding d1_def listed_without [OF meta]
    using filter_paths [OF listed_paths [OF assms(2)], of "set gone" scope] by (auto simp: gone_def intro: filter_cong)
  have "enforceCapacityLimits env c (listed scope d1) d1 = (Inr (), d')"
  proof (cases "dc_max_age c \<le> 0")
    case True
    with assms(3,4) False collected kept show ?thesis
      by (auto simp: enforceLimits_def removeExpiredFiles_def d1_def gone_def split: if_splits)
  next
    case age: False
    then obtain kept' d2 where loop: "expired_loop env (dc_max_age c) (ce_now env) (listed scope d) d = (Inr kept', d2)"
      and rest: "enforceCapacityLimits env c kept' d2 = (Inr (), d')"
      using assms(3,4) False collected by (auto simp: enforceLimits_def removeExpiredFiles_def split: prod.splits sum.splits)
    from expired_honest [OF assms(1) loop] age kept have "kept' = listed scope d1" "d2 = d1"
      by (auto simp: d1_def gone_def not_le intro!: filter_cong arg_cong [of _ _ "\<lambda>x. without (cached_paths x) d"])
    with rest show ?thesis by simp
  qed
  moreover have "distinct (map fst d1)" using assms(2) by (simp add: d1_def without_def distinct_map_filter)
  ultimately obtain gone2 where gone2: "listed scope d' = filter (\<lambda>f. f \<notin> set gone2) (listed scope d1)"
    "set gone2 \<subseteq> set (listed scope d1)" "d' = without (cached_paths gone2) d1"
    "\<forall>f \<in> set gone2. \<forall>g \<in> set (listed scope d'). cf_mod_time f \<le> cf_mod_time g"
    "\<not> capacityExceeded c (length (listed scope d')) (cachedFilesSize (listed scope d'))"
    using capacity_result [OF assms(1)] by blast
  have outside: "e \<in> set d'" if "e \<in> set d" "\<not> has_prefix (scope @ ''/'') (fst e)" for e
  proof -
    have "\<forall>f \<in> set gone. has_prefix (scope @ ''/'') (cf_data_path f) \<and> has_prefix (scope @ ''/'') (cf_meta_path f)"
      using listed_inside by (auto simp: gone_def)
    from without_outside [OF this that] have "e \<in> set d1" by (simp add: d1_def)
    moreover have "\<forall>f \<in> set gone2. has_prefix (scope @ ''/'') (cf_data_path f) \<and> has_prefix (scope @ ''/'') (cf_meta_path f)"
      using gone2(2) listed_inside by blast
    ultimately show ?thesis using without_outside [of gone2 "scope @ ''/''" e d1] that(2) gone2(3) by blast
  qed
  have "dc_max_age c < time_since (ce_now env) (cf_mod_time f) \<or> f \<in> set gone2"
    if "f \<in> set (listed scope d) - set (listed scope d')" for f
    using that gone2(1) kept by auto
  moreover have "time_since (ce_now env) (cf_mod_time f) \<le> dc_max_age c" if "f \<in> set (listed scope d')" "0 < dc_max_age c" for f
    using that gone2(1) kept by auto
  ultimately show ?thesis
    using gone2(4,5) outside unfolding capacityExceeded_def by (meson not_less)
qed

section \<open>A filled entry\<close>

definition working :: "cache_env \<Rightarrow> bool" where
  "working env \<longleftrightarrow> ce_fault env = (\<lambda>_ _. None)"

lemma working_call [simp]: "working env \<Longrightarrow> os_call_at env c p r = r"
  by (simp add: working_def os_call_at_def)

lemma temp_differs:
  assumes "session_ok s d"
  shows "ws_temp_data_path s \<noteq> ws_final_data s" "ws_temp_data_path s \<noteq> ws_final_meta s"
    "ws_temp_data_path s @ ''.meta'' \<noteq> ws_final_data s" "ws_temp_data_path s @ ''.meta'' \<noteq> ws_final_meta s"
    "ws_final_meta s \<noteq> ws_final_data s"
proof -
  have ends: "last (ws_temp_data_path s) = CHR ''t''" "last (ws_final_meta s) = CHR ''n''"
    using assms by (auto simp: session_ok_def dest!: has_suffixE)
  have data: "has_suffix ''.data'' (ws_final_data s)" "\<not> has_suffix ''.data'' (ws_temp_data_path s)"
    "\<not> has_suffix ''.data'' (ws_final_meta s)" "\<not> has_suffix ''.data'' (ws_temp_data_path s @ ''.meta'')"
    using assms suffixes_differ by (auto simp: session_ok_def)
  from data show "ws_temp_data_path s \<noteq> ws_final_data s" "ws_temp_data_path s @ ''.meta'' \<noteq> ws_final_data s"
    "ws_final_meta s \<noteq> ws_final_data s" by metis+
  from ends show "ws_temp_data_path s \<noteq> ws_final_meta s" by auto
  have "last (ws_temp_data_path s @ ''.meta'') = CHR ''a''" by simp
  with ends(2) show "ws_temp_data_path s @ ''.meta'' \<noteq> ws_final_meta s" by fastforce
qed

lemma commit_working:
  assumes "working env" "session_ok s d" "\<not> ws_aborted s" "\<not> ws_committed s" "map_of d (ws_final_data s) = None"
    and "dc_max_age c \<le> 0" "dc_max_entries c \<le> 0" "dc_max_bytes c \<le> 0" "ce_marshal env (ws_descriptor s) = Inr m"
  shows "\<exists>f g d'. SessionCommit env c s d = ((Inr (), s\<lparr>ws_committed := True\<rparr>), d') \<and>
    map_of d' (ws_final_data s) = Some f \<and> df_content f = session_staged s d \<and>
    map_of d' (ws_final_meta s) = Some g \<and> df_content g = m"
proof -
  note differ = temp_differs [OF assms(2)]
  from assms(2) obtain f where f: "map_of d (ws_temp_data_path s) = Some f" by (auto simp: session_ok_def)
  have "ws_temp_data_path s @ ''.meta'' \<noteq> ws_temp_data_path s" by simp
  with assms f differ show ?thesis
    by (simp add: SessionCommit_def promote_def os_write_file_def os_find_def os_rename_def os_put_def enforceLimits_def
        no_such_file_def session_staged_def Let_def)
qed

lemma fill_run:
  assumes "working env" "session_ok s d" "\<not> ws_aborted s" "\<not> ws_committed s" "map_of d (ws_final_data s) = None"
    and "dc_max_age c \<le> 0" "dc_max_entries c \<le> 0" "dc_max_bytes c \<le> 0" "ce_marshal env (ws_descriptor s) = Inr m"
    and "body_content source = Some content" "length source < n"
  shows "\<exists>f g d' es. run_state (read_and_close (disk_port env c) n \<lparr>cr_source = source, cr_writer = Some s\<rparr>) d = (es, d') \<and>
    map_of d' (ws_final_data s) = Some f \<and> df_content f = session_staged s d @ content \<and>
    map_of d' (ws_final_meta s) = Some g \<and> df_content g = m"
  using assms(2,5,10,11)
proof (induction n arbitrary: source content d)
  case (Suc n)
  obtain p e where next_read: "next_read source = (p, e)" by fastforce
  define d1 where "d1 = (if p = [] then d else snd (SessionWrite env s p d))"
  have copy: "run_state (copy_chunk (disk_port env c) p (Some s)) d = (Some s, d1)"
    using assms(1,3,4) by (simp add: copy_chunk_def d1_def disk_port_def SessionWrite_def os_append_def)
  have "session_ok s d1 \<and> session_staged s d1 = session_staged s d @ p"
    using write_session [OF Suc.prems(1), of env p "Inr ()" d1] assms(1,3,4) Suc.prems(1)
    by (cases "p = []") (simp_all add: d1_def SessionWrite_def os_append_def)
  then have d1: "session_ok s d1" "session_staged s d1 = session_staged s d @ p" by auto
  have final: "map_of d1 (ws_final_data s) = None"
    using Suc.prems(2) temp_differs(1) [OF Suc.prems(1)] assms(1,3,4)
    by (auto simp: d1_def SessionWrite_def os_append_def os_put_def split: option.split)
  show ?case
  proof (cases "e = Eof")
    case True
    then have "content = p"
      using next_read Suc.prems(3) by (cases source) (auto simp: next_read_def)
    obtain f g d2 where commit: "SessionCommit env c s d1 = ((Inr (), s\<lparr>ws_committed := True\<rparr>), d2)"
      "map_of d2 (ws_final_data s) = Some f" "df_content f = session_staged s d1"
      "map_of d2 (ws_final_meta s) = Some g" "df_content g = m"
      using commit_working [OF assms(1) d1(1) assms(3,4) final assms(6-9)] by blast
    obtain es d3 where rest:
      "run_state (read_and_close (disk_port env c) n \<lparr>cr_source = tl source, cr_writer = None\<rparr>) d2 = (es, d3)" by fastforce
    from reading_without_writer [OF rest] have "d3 = d2" .
    moreover have "run_state (finish_read (disk_port env c) e (Some s)) d1 = (None, d2)"
      by (simp add: finish_read_def True disk_port_def commit(1))
    ultimately have "run_state (read_and_close (disk_port env c) (Suc n) \<lparr>cr_source = source, cr_writer = Some s\<rparr>) d =
        ((p, e) # es, d2)"
      using rest by (simp add: ReaderRead_def next_read copy)
    with commit(2-5) d1(2) \<open>content = p\<close> show ?thesis by auto
  next
    case False
    then obtain src where src: "source = (p, More) # src"
      using next_read Suc.prems(3) by (cases source) (auto simp: next_read_def split: read_end.splits)
    with Suc.prems(3) obtain content' where content': "body_content src = Some content'" "content = p @ content'" by auto
    have "e = More" using next_read src by (simp add: next_read_def)
    with Suc.IH [OF d1(1) final content'(1)] Suc.prems(4) src content'(2) d1(2) next_read copy show ?thesis
      by (auto simp: ReaderRead_def finish_read_def)
  qed
qed simp

lemma start_working:
  assumes "working env" "finalPaths (dc_root_dir c) t u k dg = Inr (p, q)" "\<forall>e \<in> set d. \<not> has_suffix ''.part'' (fst e)"
  shows "\<exists>s d1. StartWrite env c t u k dg desc d = (Inr s, d1)"
proof -
  from assms(2) obtain scope where scope: "scopeRoot (dc_root_dir c) t u = Inr scope"
    by (auto simp: finalPaths_def split: sum.splits)
  let ?name = "\<lambda>n. path_join [scope, ''.tmp''] @ ''/'' @ (kind_name k @ ''-'') @ show_nat (ce_random env n) @ ''.part''"
  have "has_suffix ''.part'' (?name 0)" by (simp only: append.assoc [symmetric] has_suffix_append)
  then have "map_of d (?name 0) = None" using assms(3) by (fastforce simp: map_of_eq_None_iff)
  then have "free_temp ?name d 0 = Some (?name 0)" by (subst free_temp.simps) simp
  then show ?thesis
    using assms(1,2) scope by (simp add: StartWrite_def os_create_temp_def Let_def)
qed

lemma get_absent:
  assumes "finalPaths (dc_root_dir c) t u k dg = Inr (p, q)" "map_of d p = None"
  shows "\<exists>e. DiskCacheGet env c t u k dg d = Inl e"
proof (cases "DiskCacheGet env c t u k dg d")
  case (Inr resp)
  from get_served [OF this] assms show ?thesis by (auto simp: disk_served_def split: if_splits)
qed simp

lemma valid_digest: "finalPaths rootDir t u k dg = Inr x \<Longrightarrow> shouldReadOCIArtifactFromCache k dg \<and> dg \<noteq> []"
proof -
  have "splitDigest [] = Inl e" if "splitDigest [] = r" "r = Inl e" for r e using that by simp
  moreover have "isl (splitDigest [])" by code_simp
  ultimately show "finalPaths rootDir t u k dg = Inr x \<Longrightarrow> shouldReadOCIArtifactFromCache k dg \<and> dg \<noteq> []"
    by (auto simp: finalPaths_def shouldReadOCIArtifactFromCache_def isl_def)
qed

text \<open>C25. A filled entry is served from the cache: on a working disk without limits, after one request for an uncached
  artifact was answered with status 200 and its body read to the end, the next request for it is
  answered from the cache with the same content type, headers and content, whatever the upstream would say.\<close>

theorem filled_entry_is_served:
  assumes "working env" "codec_ok (ce_marshal env) (ce_unmarshal env)"
    and "dc_max_age c \<le> 0" "dc_max_entries c \<le> 0" "dc_max_bytes c \<le> 0"
    and "ociArtifactCacheScope up = (t, u, True)" "finalPaths (dc_root_dir c) t u k dg = Inr (p, q)"
    and "map_of d p = None" "\<forall>e \<in> set d. \<not> has_suffix ''.part'' (fst e)"
    and "ce_marshal env \<lparr>ad_content_type = rsp_content_type resp, ad_headers = rsp_headers resp\<rparr> = Inr m"
    and "rsp_status_code resp = 200" "rsp_body resp = Some source" "body_content source = Some content"
    and "run_state (fetchWithCache (disk_port env c) up k dg (\<lambda>_. State_Monad.return (Inr (Some resp)))) d = (Inr (Some r), d1)"
    and "rsp_body r = Some reader" "length source < n"
    and "run_state (read_and_close (disk_port env c) n reader) d1 = (es, d2)"
  shows "run_state (fetchWithCache (disk_port env c) up k dg fetch) d2 =
    (Inr (Some \<lparr>rsp_status_code = 200, rsp_content_type = rsp_content_type resp, rsp_headers = rsp_headers resp,
       rsp_body = Some \<lparr>cr_source = [(content, More)], cr_writer = None\<rparr>\<rparr>), d2)"
proof -
  let ?desc = "\<lparr>ad_content_type = rsp_content_type resp, ad_headers = rsp_headers resp\<rparr>"
  obtain s d0 where start: "StartWrite env c t u k dg ?desc d = (Inr s, d0)"
    using start_working [OF assms(1,7,9)] by blast
  note started = start_write [OF start]
  obtain e where miss: "DiskCacheGet env c t u k dg d = Inl e" using get_absent [OF assms(7,8)] by blast
  have first: "d1 = d0" "reader = \<lparr>cr_source = source, cr_writer = Some s\<rparr>"
    using assms(6,11,12,14,15) valid_digest [OF assms(7)] miss start
    by (auto simp: fetchWithCache_def wrapResponse_def disk_port_def)
  have paths: "ws_final_data s = p" "ws_final_meta s = q" using started(1) assms(7) by auto
  have "map_of d0 p = None"
    using started(11) assms(8) temp_differs(1) [OF started(2)] paths by (simp add: os_put_def)
  then obtain f g where filled: "map_of d2 p = Some f" "df_content f = content" "map_of d2 q = Some g" "df_content g = m"
    using fill_run [OF assms(1) started(2) _ _ _ assms(3-5) _ assms(13,16), of m] started(3,5,6,9) assms(10,17) first paths
    by auto
  have "ce_unmarshal env m = Inr ?desc" using assms(2,10) by (simp add: codec_ok_def)
  with filled assms(1,7) have "DiskCacheGet env c t u k dg d2 =
      Inr \<lparr>rsp_status_code = 200, rsp_content_type = rsp_content_type resp, rsp_headers = rsp_headers resp, rsp_body = content\<rparr>"
    by (simp add: DiskCacheGet_def Let_def os_find_def)
  with assms(6) valid_digest [OF assms(7)] show ?thesis
    by (simp add: fetchWithCache_def disk_port_def passed_on_def from_cache_def)
qed

text \<open>A data file without its metadata blocks its entry: however often the artifact is requested and read, with
  whatever failures of the disk, no request replaces the file or writes the metadata, and every lookup
  of the entry is a miss. A crash between the two renames of a commit leaves such a file.\<close>

lemma orphaned_data_blocks_entry:
  assumes "honest env" "finalPaths (dc_root_dir c) t u k dg = Inr (p, q)" "map_of d p = Some f" "map_of d q = None"
    and "StartWrite env c t u k dg desc d = (Inr s, d1)"
    and "run_state (read_and_close (disk_port env c) n \<lparr>cr_source = source, cr_writer = Some s\<rparr>) d1 = (es, d2)"
  shows "map_of d2 p = Some f \<and> map_of d2 q = None \<and>
    (ce_fault env' OsReadFile q = None \<longrightarrow> DiskCacheGet env' c t u k dg d2 = Inl (sentinel_error ErrCacheMiss))"
proof -
  note started = start_write [OF assms(5)]
  have paths: "ws_final_data s = p" "ws_final_meta s = q" using started(1) assms(2) by auto
  note differ = temp_differs [OF started(2), unfolded paths]
  let ?keeps = "\<lambda>d. map_of d p = Some f \<and> map_of d q = None"
  have discarded: "?keeps (discard env ps d)" if "?keeps d" "p \<notin> set ps" for ps d
    using that
  proof (induction ps arbitrary: d)
    case (Cons x ps)
    then show ?case by (auto simp: discard_def os_remove_def split: sum.split)
  qed (simp add: discard_def)
  have "?keeps (snd (run_state (read_and_close (disk_port env c) n \<lparr>cr_source = source, cr_writer = Some s\<rparr>) d1))"
  proof (rule reading_keeps)
    fix d x
    assume keeps: "?keeps d"
    show "?keeps (snd (run_state (oac_write (disk_port env c) s x) d))"
      using keeps differ by (auto simp: disk_port_def SessionWrite_def os_append_def os_put_def split: sum.split option.split)
    show "?keeps (snd (run_state (oac_abort (disk_port env c) s) d))"
      using keeps differ by (auto simp: disk_port_def SessionAbort_def os_remove_def split: sum.split prod.split)
    have "?keeps (os_put env (ws_temp_data_path s @ ''.meta'') y d)" for y using keeps differ by (simp add: os_put_def)
    then show "?keeps (snd (run_state (oac_commit (disk_port env c) s) d))"
      using keeps differ discarded assms(1)
      by (auto simp: disk_port_def SessionCommit_def os_write_file_def os_find_def os_call_at_def honest_def paths Let_def
          split: sum.split option.split)
  next
    show "?keeps d1" using started(11) assms(3,4) differ by (simp add: os_put_def)
  qed
  then have "?keeps d2" by (simp add: assms(6))
  then show ?thesis
    by (simp add: DiskCacheGet_def assms(2) os_find_def os_call_at_def no_such_file_def)
qed

section \<open>Witnesses\<close>

definition sample_descriptor :: artifact_descriptor where
  "sample_descriptor = \<lparr>ad_content_type = ''application/json'', ad_headers = [(''Etag'', ''x'')]\<rparr>"

definition sample_cache_env :: "(os_call \<Rightarrow> string \<Rightarrow> os_error option) \<Rightarrow> cache_env" where
  "sample_cache_env fault =
     \<lparr>ce_fault = fault, ce_now = 20, ce_random = (\<lambda>n. n + 7),
      ce_marshal = (\<lambda>d. if d = sample_descriptor then Inr ''meta'' else Inl (plain_error ''encode'')),
      ce_unmarshal = (\<lambda>_. Inr sample_descriptor)\<rparr>"

definition sample_disk_cache :: "int \<Rightarrow> disk_cache" where
  "sample_disk_cache entries = \<lparr>dc_root_dir = ''/c'', dc_max_bytes = 0, dc_max_age = 0, dc_max_entries = entries\<rparr>"

definition sample_data :: string where "sample_data = ''/c/t/u/blobs/sha256/ab.data''"

definition sample_meta :: string where "sample_meta = ''/c/t/u/blobs/sha256/ab.meta.json''"

lemma sample_paths:
  "finalPaths (dc_root_dir (sample_disk_cache n)) ''t'' ''u'' OCIArtifactBlob ''sha256:ab'' = Inr (sample_data, sample_meta)"
  "scopeRoot (dc_root_dir (sample_disk_cache n)) ''t'' ''u'' = Inr ''/c/t/u''"
  by code_simp+

definition sample_session :: write_session where
  "sample_session =
     \<lparr>ws_tenant_id = ''t'', ws_upstream_id = ''u'', ws_temp_data_path = ''/c/t/u/.tmp/blobs-7.part'',
      ws_final_data = sample_data, ws_final_meta = sample_meta, ws_descriptor = sample_descriptor,
      ws_aborted = False, ws_committed = False\<rparr>"

lemma sample_start:
  "StartWrite (sample_cache_env (\<lambda>_ _. None)) (sample_disk_cache 0) ''t'' ''u'' OCIArtifactBlob ''sha256:ab'' sample_descriptor [] =
     (Inr sample_session, [(''/c/t/u/.tmp/blobs-7.part'', \<lparr>df_content = [], df_mod_time = 20\<rparr>)])"
  "StartWrite (sample_cache_env (\<lambda>_ _. None)) (sample_disk_cache 0) ''t'' ''u'' OCIArtifactBlob ''sha256:ab'' sample_descriptor
     [(sample_data, \<lparr>df_content = ''orphan'', df_mod_time = 1\<rparr>)] =
     (Inr sample_session, [(sample_data, \<lparr>df_content = ''orphan'', df_mod_time = 1\<rparr>),
        (''/c/t/u/.tmp/blobs-7.part'', \<lparr>df_content = [], df_mod_time = 20\<rparr>)])"
  by code_simp+

definition sample_body :: body where
  "sample_body = [(''ab'', More), ([], More), (''c'', Eof)]"

definition sample_reader :: "write_session cache_reader" where
  "sample_reader = \<lparr>cr_source = sample_body, cr_writer = Some sample_session\<rparr>"

definition sample_filled :: disk where
  "sample_filled = snd (run_state (read_and_close (disk_port (sample_cache_env (\<lambda>_ _. None)) (sample_disk_cache 0)) 4 sample_reader)
     [(''/c/t/u/.tmp/blobs-7.part'', \<lparr>df_content = [], df_mod_time = 20\<rparr>)])"

theorem only_complete_bodies_cached_witness:
  "\<exists>p q. finalPaths (dc_root_dir (sample_disk_cache 0)) ''t'' ''u'' OCIArtifactBlob ''sha256:ab'' = Inr (p, q) \<and>
    (map_option df_content (map_of [] p) = Some ''abc'' \<or>
     (\<exists>q'. finalPaths (dc_root_dir (sample_disk_cache 0)) ''t'' ''u'' OCIArtifactBlob ''sha256:ab'' = Inr (p, q')) \<and>
     body_content sample_body = Some ''abc'')"
proof -
  let ?env = "sample_cache_env (\<lambda>_ _. None)" and ?c = "sample_disk_cache 0"
  obtain es where run: "run_state (read_and_close (disk_port ?env ?c) 4 \<lparr>cr_source = sample_body, cr_writer = Some sample_session\<rparr>)
      [(''/c/t/u/.tmp/blobs-7.part'', \<lparr>df_content = [], df_mod_time = 20\<rparr>)] = (es, sample_filled)"
    by (metis sample_filled_def sample_reader_def prod.collapse)
  have get: "DiskCacheGet ?env ?c ''t'' ''u'' OCIArtifactBlob ''sha256:ab'' sample_filled = Inr
      \<lparr>rsp_status_code = 200, rsp_content_type = ''application/json'', rsp_headers = [(''Etag'', ''x'')], rsp_body = ''abc''\<rparr>"
    by code_simp
  from only_complete_bodies_cached [OF sample_start(1) run get] show ?thesis by simp
qed

lemma orphaned_data_blocks_entry_witness:
  "DiskCacheGet (sample_cache_env (\<lambda>_ _. None)) (sample_disk_cache 0) ''t'' ''u'' OCIArtifactBlob ''sha256:ab''
     (snd (run_state (read_and_close (disk_port (sample_cache_env (\<lambda>_ _. None)) (sample_disk_cache 0)) 4 sample_reader)
       [(sample_data, \<lparr>df_content = ''orphan'', df_mod_time = 1\<rparr>),
        (''/c/t/u/.tmp/blobs-7.part'', \<lparr>df_content = [], df_mod_time = 20\<rparr>)])) = Inl (sentinel_error ErrCacheMiss)"
proof -
  let ?env = "sample_cache_env (\<lambda>_ _. None)" and ?c = "sample_disk_cache 0"
    and ?d = "[(sample_data, \<lparr>df_content = ''orphan'', df_mod_time = 1\<rparr>)]"
  have honest: "honest ?env" "ce_fault ?env OsReadFile sample_meta = None" by (simp_all add: honest_def sample_cache_env_def)
  have orphan: "map_of ?d sample_data = Some \<lparr>df_content = ''orphan'', df_mod_time = 1\<rparr>" "map_of ?d sample_meta = None"
    by (simp_all add: sample_data_def sample_meta_def)
  from orphaned_data_blocks_entry [OF honest(1) sample_paths(1) orphan sample_start(2)] honest(2) show ?thesis
    by (metis prod.collapse sample_reader_def)
qed

definition sample_full_disk :: disk where
  "sample_full_disk =
     [(sample_data, \<lparr>df_content = ''new'', df_mod_time = 9\<rparr>),
      (''/c/t/u/blobs/sha256/cd.data'', \<lparr>df_content = ''old'', df_mod_time = 2\<rparr>),
      (''/c/t/u/blobs/sha256/cd.meta.json'', \<lparr>df_content = ''meta'', df_mod_time = 2\<rparr>),
      (''/c/t/other/blobs/sha256/ef.data'', \<lparr>df_content = ''other'', df_mod_time = 1\<rparr>)]"

theorem cache_limits_hold_witness:
  "length (listed ''/c/t/u'' (snd (enforceLimits (sample_cache_env (\<lambda>_ _. None)) (sample_disk_cache 1) ''t'' ''u'' sample_full_disk))) \<le> 1 \<and>
   length (listed ''/c/t/u'' sample_full_disk) = 2"
proof -
  let ?env = "sample_cache_env (\<lambda>_ _. None)" and ?c = "sample_disk_cache 1"
  have "honest ?env" "distinct (map fst sample_full_disk)"
    by (simp_all add: honest_def sample_cache_env_def sample_full_disk_def sample_data_def)
  note limits = cache_limits_hold [OF this sample_paths(2), of 1]
  have "fst (enforceLimits ?env ?c ''t'' ''u'' sample_full_disk) = Inr ()" by code_simp
  then have run: "enforceLimits ?env ?c ''t'' ''u'' sample_full_disk = (Inr (), snd (enforceLimits ?env ?c ''t'' ''u'' sample_full_disk))"
    by (simp add: prod_eq_iff)
  have "length (listed ''/c/t/u'' sample_full_disk) = 2" by code_simp
  with limits [OF run] show ?thesis by (simp add: sample_disk_cache_def)
qed

definition sample_oci_upstream :: upstream where
  "sample_oci_upstream =
     \<lparr>up_id = ''u'', up_tenant_id = '' t '', up_name = [], up_ecosystem = EcosystemOCI, up_base_url = ''url'',
      up_capabilities = None, up_auth = None, up_created_at = 0, up_updated_at = 0\<rparr>"

definition sample_response :: "body option upstream_response" where
  "sample_response =
     \<lparr>rsp_status_code = 200, rsp_content_type = ''application/json'', rsp_headers = [(''Etag'', ''x'')], rsp_body = Some sample_body\<rparr>"

theorem filled_entry_is_served_witness:
  "fst (run_state (fetchWithCache (disk_port (sample_cache_env (\<lambda>_ _. None)) (sample_disk_cache 0)) sample_oci_upstream
      OCIArtifactBlob ''sha256:ab'' (\<lambda>_. State_Monad.return (Inl (plain_error ''down'')))) sample_filled) =
   Inr (Some \<lparr>rsp_status_code = 200, rsp_content_type = ''application/json'', rsp_headers = [(''Etag'', ''x'')],
     rsp_body = Some \<lparr>cr_source = [(''abc'', More)], cr_writer = None\<rparr>\<rparr>)"
proof -
  let ?env = "sample_cache_env (\<lambda>_ _. None)" and ?c = "sample_disk_cache 0"
  have env: "working ?env" by (simp add: working_def sample_cache_env_def)
  have codec: "codec_ok (ce_marshal ?env) (ce_unmarshal ?env)"
    by (auto simp: codec_ok_def sample_cache_env_def split: if_splits)
  have limits: "dc_max_age ?c \<le> 0" "dc_max_entries ?c \<le> 0" "dc_max_bytes ?c \<le> 0" by (simp_all add: sample_disk_cache_def)
  have scope: "ociArtifactCacheScope sample_oci_upstream = (''t'', ''u'', True)" by code_simp
  have empty: "map_of [] sample_data = None" "\<forall>e \<in> set []. \<not> has_suffix ''.part'' (fst e)" by simp_all
  have marshal: "ce_marshal ?env \<lparr>ad_content_type = rsp_content_type sample_response, ad_headers = rsp_headers sample_response\<rparr> =
      Inr ''meta''"
    by (simp add: sample_cache_env_def sample_response_def sample_descriptor_def)
  have resp: "rsp_status_code sample_response = 200" "rsp_body sample_response = Some sample_body"
    "body_content sample_body = Some ''abc''" "length sample_body < 4"
    by (simp_all add: sample_response_def sample_body_def)
  have fetched: "run_state (fetchWithCache (disk_port ?env ?c) sample_oci_upstream OCIArtifactBlob ''sha256:ab''
      (\<lambda>_. State_Monad.return (Inr (Some sample_response)))) [] =
    (Inr (Some \<lparr>rsp_status_code = 200, rsp_content_type = ''application/json'', rsp_headers = [(''Etag'', ''x'')],
       rsp_body = Some sample_reader\<rparr>), [(''/c/t/u/.tmp/blobs-7.part'', \<lparr>df_content = [], df_mod_time = 20\<rparr>)])"
    by code_simp
  have body: "rsp_body \<lparr>rsp_status_code = 200, rsp_content_type = ''application/json'', rsp_headers = [(''Etag'', ''x'')],
       rsp_body = Some sample_reader\<rparr> = Some sample_reader" by simp
  obtain es where run: "run_state (read_and_close (disk_port ?env ?c) 4 sample_reader)
      [(''/c/t/u/.tmp/blobs-7.part'', \<lparr>df_content = [], df_mod_time = 20\<rparr>)] = (es, sample_filled)"
    by (metis sample_filled_def prod.collapse)
  from filled_entry_is_served [OF env codec limits scope sample_paths(1) empty marshal resp(1-3) fetched body resp(4) run]
  show ?thesis by (simp add: sample_response_def)
qed

end
