(* ===== verification/Proxy_Paths.thy ===== *)
theory Proxy_Paths
  imports Go_Path Domain_Artifact
begin

text \<open>
  How the proxies read request paths (\<open>delivery/npm/paths.go\<close>, \<open>delivery/oci/paths.go\<close>, the tenant path of
  \<open>delivery/middleware/tenant.go\<close>): package and tarball paths of npm, manifest and blob paths of an OCI
  registry, and the tenant and upstream prefix that the npm proxy puts before its own routes.

  The lemmas characterize each parser by the text it accepts: the parts it returns put back together are the path
  that was read.
\<close>

section \<open>npm\<close>

fun splitN :: "nat \<Rightarrow> char \<Rightarrow> string \<Rightarrow> string list" where
  "splitN 0 c s = []"
| "splitN (Suc 0) c s = [s]"
| "splitN (Suc (Suc n)) c s =
     (case split_two c s of [w, rest] \<Rightarrow> w # splitN (Suc n) c rest | ws \<Rightarrow> ws)"

definition parsePackagePath :: "string \<Rightarrow> string \<times> string" where
  "parsePackagePath path =
     (if has_prefix ''@'' path then
        (let parts = splitN 3 (CHR ''/'') path
         in if length parts < 2 then (path, [])
            else
              (let name = parts ! 0 @ ''/'' @ parts ! 1
               in if length parts = 3 \<and> parts ! 2 \<noteq> [] then (name, parts ! 2) else (name, [])))
      else (case cut_str ''/'' path of Some (name, version) \<Rightarrow> (name, version) | None \<Rightarrow> (path, [])))"

definition base_name :: "string \<Rightarrow> string" where
  "base_name name = (case last_cut ''/'' name of Some (_, b) \<Rightarrow> b | None \<Rightarrow> name)"

definition parseTarballPath :: "string \<Rightarrow> (string \<times> string) option" where
  "parseTarballPath path =
     (case cut_str ''/-/'' path of
        None \<Rightarrow> None
      | Some (name, filename) \<Rightarrow>
          if \<not> has_suffix ''.tgz'' filename then None
          else
            (let stem = trim_suffix ''.tgz'' filename; prefix = base_name name @ ''-''
             in if \<not> has_prefix prefix stem then None
                else
                  (let version = drop (length prefix) stem
                   in if version = [] then None else Some (name, version))))"

definition tarballFilename :: "string \<Rightarrow> string \<Rightarrow> string" where
  "tarballFilename name version = name @ ''/-/'' @ base_name name @ ''-'' @ version @ ''.tgz''"

section \<open>OCI\<close>

definition parse_marked :: "string \<Rightarrow> string \<Rightarrow> (string \<times> string) option" where
  "parse_marked marker path =
     (case last_cut marker path of
        None \<Rightarrow> None
      | Some (repo, reference) \<Rightarrow> if repo = [] \<or> reference = [] then None else Some (repo, reference))"

definition parseManifestPath :: "string \<Rightarrow> (string \<times> string) option" where
  "parseManifestPath path = parse_marked ''/manifests/'' path"

definition parseBlobPath :: "string \<Rightarrow> (string \<times> string) option" where
  "parseBlobPath path = parse_marked ''/blobs/'' path"

definition splitRepo :: "string \<Rightarrow> string \<times> string" where
  "splitRepo repo = (case last_cut ''/'' repo of None \<Rightarrow> ([], repo) | Some (namespace, name) \<Rightarrow> (namespace, name))"

section \<open>The tenant prefix\<close>

text \<open>The result is the tenant, the pinned upstream (empty for none) and the rewritten path.\<close>

definition parseNPMTenantPath :: "string \<Rightarrow> (string \<times> string \<times> string) option" where
  "parseNPMTenantPath path =
     (let (tenantID, remainder, hasRemainder) =
        (case cut_str ''/'' path of Some (t, r) \<Rightarrow> (t, r, True) | None \<Rightarrow> (path, [], False))
      in if tenantID = [] then None
         else
           (let (upstreamID, packagePath) =
              (if hasRemainder \<and> has_prefix ''u/'' remainder then
                 (let (parsed, nextPath) =
                    (case cut_str ''/'' (trim_prefix ''u/'' remainder) of
                       Some (p, n) \<Rightarrow> (p, n) | None \<Rightarrow> (trim_prefix ''u/'' remainder, []))
                  in if parsed \<noteq> [] then (parsed, nextPath) else ([], remainder))
               else ([], remainder))
            in Some (tenantID, upstreamID, if packagePath \<noteq> [] then ''/npm/'' @ packagePath else ''/npm/'')))"

section \<open>Lemmas\<close>

lemma cut_slash: "CHR ''/'' \<notin> set a \<Longrightarrow> cut_str ''/'' (a @ CHR ''/'' # b) = Some (a, b)"
  using cut_str_iff [of "''/''" "a @ CHR ''/'' # b" a b] by (simp add: contains_single)

lemma cut_slash_None: "CHR ''/'' \<notin> set a \<Longrightarrow> cut_str ''/'' a = None"
  using contains_single [of "CHR ''/''" a] by (metis contains_def)

lemma base_name_suffix: "\<exists>d. name = d @ base_name name \<and> (d = [] \<or> last d = CHR ''/'')"
proof (cases "last_cut ''/'' name")
  case (Some x)
  then show ?thesis using last_cut_Some [of "''/''" name] by (cases x) (fastforce simp: base_name_def)
qed (simp add: base_name_def)

lemma base_name_no_slash: "CHR ''/'' \<notin> set (base_name name)"
proof (cases "last_cut ''/'' name")
  case None
  then have "CHR ''/'' \<notin> set name" by (metis last_cut_None contains_single)
  with None show ?thesis by (simp add: base_name_def)
next
  case (Some x)
  moreover obtain a b where "x = (a, b)" by (cases x)
  ultimately have c: "last_cut ''/'' name = Some (a, b)" by simp
  then have "CHR ''/'' \<notin> set b" using last_cut_iff [of "''/''" name a b] by (simp add: contains_single)
  with c show ?thesis by (simp add: base_name_def)
qed

lemma parse_marked_iff:
  assumes "marker \<noteq> []"
  shows "parse_marked marker path = Some (repo, reference) \<longleftrightarrow>
    path = repo @ marker @ reference \<and> repo \<noteq> [] \<and> reference \<noteq> [] \<and> \<not> contains marker (tl marker @ reference)"
  using last_cut_iff [OF assms, of path repo reference] by (auto simp: parse_marked_def split: option.splits)

lemma splitRepo_join: "splitRepo repo = (ns, n) \<Longrightarrow> n \<noteq> repo \<Longrightarrow> repo = ns @ ''/'' @ n"
  using last_cut_Some [of "''/''" repo] by (auto simp: splitRepo_def split: option.splits)

lemma tenant_path_parse:
  assumes "tenant \<noteq> []" "CHR ''/'' \<notin> set tenant" "CHR ''/'' \<notin> set up"
    and "up \<noteq> [] \<or> \<not> has_prefix ''u/'' rest"
  shows "parseNPMTenantPath (tenant @ ''/'' @ (if up = [] then [] else ''u/'' @ up @ ''/'') @ rest) =
    Some (tenant, up, ''/npm/'' @ rest)"
proof (cases "up = []")
  case True
  with assms show ?thesis by (simp add: parseNPMTenantPath_def cut_slash Let_def)
next
  case False
  have "has_prefix ''u/'' (CHR ''u'' # CHR ''/'' # up @ CHR ''/'' # rest)" by (simp add: has_prefix_def)
  moreover from this have "trim_prefix ''u/'' (CHR ''u'' # CHR ''/'' # up @ CHR ''/'' # rest) = up @ CHR ''/'' # rest"
    by (simp add: trim_prefix_def)
  ultimately show ?thesis using assms False by (simp add: parseNPMTenantPath_def cut_slash Let_def)
qed

section \<open>Properties\<close>

definition tarball_name :: "string \<Rightarrow> bool" where
  "tarball_name name \<longleftrightarrow> \<not> contains ''/-/'' (name @ ''/-'')"

text \<open>The tarball parser accepts exactly the paths that the tarball file name of a package and a non-empty version
  denotes, for names without the separator: a parsed path is the file name of what it was parsed as, so the file that
  is fetched after a decision on name and version lies at the requested path, and every file name is read back.\<close>

lemma tarball_path_iff:
  "parseTarballPath path = Some (name, version) \<longleftrightarrow>
     path = tarballFilename name version \<and> version \<noteq> [] \<and> tarball_name name"
proof
  assume "parseTarballPath path = Some (name, version)"
  then obtain filename where c: "cut_str ''/-/'' path = Some (name, filename)"
    and sx: "has_suffix ''.tgz'' filename" and px: "has_prefix (base_name name @ ''-'') (trim_suffix ''.tgz'' filename)"
    and v: "version = drop (length (base_name name @ ''-'')) (trim_suffix ''.tgz'' filename)" "version \<noteq> []"
    by (auto simp: parseTarballPath_def Let_def split: option.splits if_splits)
  from sx obtain stem where f: "filename = stem @ ''.tgz''" by (blast dest: has_suffixE)
  have t: "trim_suffix ''.tgz'' filename = stem" unfolding f by (rule trim_suffix_append)
  from px v(1) have "stem = base_name name @ ''-'' @ version" unfolding t by (auto dest!: has_prefixE)
  with c f v(2) show "path = tarballFilename name version \<and> version \<noteq> [] \<and> tarball_name name"
    using cut_str_iff [of "''/-/''" path name filename] by (simp add: tarballFilename_def tarball_name_def)
next
  assume r: "path = tarballFilename name version \<and> version \<noteq> [] \<and> tarball_name name"
  let ?stem = "base_name name @ ''-'' @ version"
  have "cut_str ''/-/'' path = Some (name, ?stem @ ''.tgz'')"
    using r cut_str_iff [of "''/-/''" path name "?stem @ ''.tgz''"] by (simp add: tarballFilename_def tarball_name_def)
  moreover have "trim_suffix ''.tgz'' (?stem @ ''.tgz'') = ?stem" by (rule trim_suffix_append)
  moreover have "has_suffix ''.tgz'' (?stem @ ''.tgz'')" by (rule has_suffix_append)
  moreover have "has_prefix (base_name name @ ''-'') ?stem" using has_prefix_append [of "base_name name @ ''-''" version] by simp
  ultimately show "parseTarballPath path = Some (name, version)" using r by (simp add: parseTarballPath_def Let_def)
qed

text \<open>The exception: below a tenant prefix without an upstream, the tarball of the package \<open>u\<close> is read as a request
  with a pinned upstream.\<close>

lemma package_u_is_shadowed:
  "parseNPMTenantPath (''t1/'' @ tarballFilename ''u'' ''1.0.0'') = Some (''t1'', ''-'', ''/npm/u-1.0.0.tgz'')"
  by (simp add: tarballFilename_def base_name_def parseNPMTenantPath_def has_prefix_def trim_prefix_def)

end
