(* ===== verification/Proxy_Flow.thy ===== *)
theory Proxy_Flow
  imports Access_Service Oci_Client Proxy_Paths "HOL-Library.AList"
begin

text \<open>
  What the npm and the OCI proxy share: the request and the response writer of \<open>net/http\<close> as far as the handlers
  use them, the tenant middleware (\<open>delivery/middleware/tenant.go\<close>, path variant), and the package
  \<open>delivery/proxyflow\<close> (\<open>request.go\<close>, \<open>audit.go\<close>): access requests, upstream resolution and the audit events of a
  proxy request.

  A handler is a state transformer whose value is the response writer it leaves behind; an early return is \<open>Inl\<close> of
  that writer. The context values that the middleware sets are fields of the request. An upstream client is a port:
  its fetches return a response whose body is drained by a further operation, so that reading a body can have
  effects of its own. All handlers write a header before they touch the body and at most once.
\<close>

section \<open>Requests and responses\<close>

record http_request =
  hr_method :: string
  hr_path :: string
  hr_remote_addr :: string
  hr_host :: string
  hr_tls :: bool
  hr_header :: "string \<Rightarrow> string"
  hr_body :: body
  hr_tenant :: "string option"
  hr_upstream_id :: "string option"
  hr_request_id :: "string option"

datatype response_body =
    NPMErrorBody string
  | OCIErrorBody string string
  | EmptyObject
  | RawBytes string

record response_writer =
  rw_header :: "(string \<times> string list) list"
  rw_status :: "int option"
  rw_body :: "response_body list"

definition fresh_writer :: response_writer where
  "fresh_writer = \<lparr>rw_header = [], rw_status = None, rw_body = []\<rparr>"

text \<open>\<open>textproto.CanonicalMIMEHeaderKey\<close>: a name of token bytes is written with a capital at the start and after
  each hyphen; any other name stays as it is.\<close>

definition upper_char :: "char \<Rightarrow> char" where
  "upper_char c = (if 97 \<le> byte c \<and> byte c \<le> 122 then char_of (byte c - 32) else c)"

definition token_char :: "char \<Rightarrow> bool" where
  "token_char c \<longleftrightarrow> (let n = byte c in (48 \<le> n \<and> n \<le> 57) \<or> (65 \<le> n \<and> n \<le> 90) \<or> (97 \<le> n \<and> n \<le> 122) \<or>
     n \<in> {33, 35, 36, 37, 38, 39, 42, 43, 45, 46, 94, 95, 96, 124, 126})"

fun capitalize :: "bool \<Rightarrow> string \<Rightarrow> string" where
  "capitalize start [] = []"
| "capitalize start (c # cs) = (if start then upper_char c else lower_char c) # capitalize (c = CHR ''-'') cs"

definition canonical_key :: "string \<Rightarrow> string" where
  "canonical_key k = (if list_all token_char k then capitalize True k else k)"

definition header_set :: "string \<Rightarrow> string \<Rightarrow> response_writer \<Rightarrow> response_writer" where
  "header_set k v w = w\<lparr>rw_header := AList.update (canonical_key k) [v] (rw_header w)\<rparr>"

definition header_add :: "string \<Rightarrow> string \<Rightarrow> response_writer \<Rightarrow> response_writer" where
  "header_add k v w =
     (let name = canonical_key k
      in w\<lparr>rw_header :=
           AList.update name ((case map_of (rw_header w) name of None \<Rightarrow> [] | Some vs \<Rightarrow> vs) @ [v]) (rw_header w)\<rparr>)"

text \<open>The first \<open>WriteHeader\<close> wins.\<close>

definition write_header :: "int \<Rightarrow> response_writer \<Rightarrow> response_writer" where
  "write_header code w = (case rw_status w of None \<Rightarrow> w\<lparr>rw_status := Some code\<rparr> | Some _ \<Rightarrow> w)"

definition write_body :: "response_body \<Rightarrow> response_writer \<Rightarrow> response_writer" where
  "write_body b w = w\<lparr>rw_body := rw_body w @ [b]\<rparr>"

text \<open>What is copied from a body before it ends or fails.\<close>

fun body_bytes :: "body \<Rightarrow> string" where
  "body_bytes [] = []"
| "body_bytes ((p, e) # es) = p @ (case e of More \<Rightarrow> body_bytes es | _ \<Rightarrow> [])"

definition set_headers :: "(string \<times> string) list \<Rightarrow> response_writer \<Rightarrow> response_writer" where
  "set_headers hs w = fold (\<lambda>(k, v). header_set k v) hs w"

definition respond_with :: "body upstream_response \<Rightarrow> response_writer \<Rightarrow> response_writer" where
  "respond_with resp w =
     (let w1 = set_headers (rsp_headers resp) w;
          w2 = (if rsp_content_type resp \<noteq> [] then header_set ''Content-Type'' (rsp_content_type resp) w1 else w1)
      in write_body (RawBytes (body_bytes (rsp_body resp))) (write_header (rsp_status_code resp) w2))"

section \<open>Ports\<close>

record 's upstream_lookup =
  ul_get_by_id :: "string \<Rightarrow> string \<Rightarrow> ('s, upstream result) state"
  ul_get_by_ecosystem :: "string \<Rightarrow> ecosystem_type \<Rightarrow> ('s, upstream result) state"

record ('b, 's) upstream_client =
  uc_fetch_metadata :: "upstream \<Rightarrow> artifact_identity \<Rightarrow> ('s, 'b upstream_response result) state"
  uc_fetch_content :: "upstream \<Rightarrow> string \<Rightarrow> ('s, 'b upstream_response result) state"
  uc_drain :: "'b \<Rightarrow> ('s, body) state"

definition streamResponse ::
  "('b, 's) upstream_client \<Rightarrow> 'b upstream_response \<Rightarrow> response_writer \<Rightarrow> ('s, response_writer) state" where
  "streamResponse client resp w =
     do {
       b \<leftarrow> uc_drain client (rsp_body resp);
       State_Monad.return (respond_with
         \<lparr>rsp_status_code = rsp_status_code resp, rsp_content_type = rsp_content_type resp,
          rsp_headers = rsp_headers resp, rsp_body = b\<rparr> w)
     }"

section \<open>Early returns\<close>

definition or_respond ::
  "('s, response_writer + 'a) state \<Rightarrow> ('a \<Rightarrow> ('s, response_writer) state) \<Rightarrow> ('s, response_writer) state" where
  "or_respond m f = do { r \<leftarrow> m; (case r of Inl w \<Rightarrow> State_Monad.return w | Inr a \<Rightarrow> f a) }"

text \<open>\<open>if err := record(...); err != nil { writeError(...); return }\<close>\<close>

definition recorded ::
  "('s, unit result) state \<Rightarrow> response_writer \<Rightarrow> ('s, response_writer + 'a) state \<Rightarrow> ('s, response_writer + 'a) state" where
  "recorded m failure f = do { r \<leftarrow> m; (case r of Inl _ \<Rightarrow> State_Monad.return (Inl failure) | Inr _ \<Rightarrow> f) }"

section \<open>Access requests\<close>

definition RequestIDFromContext :: "http_request \<Rightarrow> string" where
  "RequestIDFromContext r = (case hr_request_id r of None \<Rightarrow> [] | Some i \<Rightarrow> i)"

definition NewAccessRequest ::
  "'s runtime \<Rightarrow> http_request \<Rightarrow> string \<Rightarrow> upstream \<Rightarrow> artifact_identity \<Rightarrow> ('s, access_request) state" where
  "NewAccessRequest rt r tenantID up artifact =
     do {
       now \<leftarrow> time_now rt;
       State_Monad.return
         \<lparr>req_tenant_id = tenantID, req_request_id = RequestIDFromContext r, req_kind = [],
          req_artifact = artifact, req_upstream = up, req_metadata = None,
          req_dependency_context = None, req_timestamp = now\<rparr>
     }"

definition ResolveUpstream ::
  "http_request \<Rightarrow> 's upstream_lookup \<Rightarrow> string \<Rightarrow> ecosystem_type \<Rightarrow> ('s, upstream result) state" where
  "ResolveUpstream r upstreams tenantID ecosystem =
     (case hr_upstream_id r of
        Some upstreamID \<Rightarrow>
          if upstreamID \<noteq> [] then
            on_ok (ul_get_by_id upstreams tenantID upstreamID)
              (\<lambda>up. State_Monad.return
                 (if up_ecosystem up \<noteq> ecosystem then Inl (sentinel_error ErrUpstreamNotFound) else Inr up))
          else ul_get_by_ecosystem upstreams tenantID ecosystem
      | None \<Rightarrow> ul_get_by_ecosystem upstreams tenantID ecosystem)"

section \<open>Audit events\<close>

record audit_context =
  actx_tenant_id :: string
  actx_correlation_id :: string
  actx_source :: string
  actx_upstream_id :: string
  actx_artifact :: artifact_identity
  actx_operation :: string

definition basePayload :: "string \<Rightarrow> audit_payload" where
  "basePayload operation = [(''operation'', VString operation)]"

definition mergePayload :: "audit_payload \<Rightarrow> audit_payload \<Rightarrow> audit_payload" where
  "mergePayload payload extra = fold (\<lambda>(k, v). AList.update k v) extra payload"

definition flow_event :: "audit_context \<Rightarrow> audit_event_type \<Rightarrow> string \<Rightarrow> audit_payload \<Rightarrow> audit_event" where
  "flow_event audit event_type message payload =
     (new_event (actx_tenant_id audit) (actx_correlation_id audit) event_type (actx_source audit)
        (actx_artifact audit) message)
     \<lparr>ev_upstream_id := actx_upstream_id audit, ev_payload := Some payload\<rparr>"

definition requestAuditEvent ::
  "audit_context \<Rightarrow> audit_event_type \<Rightarrow> string \<Rightarrow> decision option \<Rightarrow> audit_payload \<Rightarrow> audit_event" where
  "requestAuditEvent audit event_type message d extraPayload =
     (let event = flow_event audit event_type message (mergePayload (basePayload (actx_operation audit)) extraPayload)
      in case d of
           None \<Rightarrow> event
         | Some dec \<Rightarrow>
             event\<lparr>ev_entity_type := ''decision'', ev_entity_id := dec_id dec, ev_policy_id := dec_policy_id dec,
                   ev_outcome := Some (dec_outcome dec), ev_artifact := dec_artifact dec\<rparr>)"

definition RecordRequestReceived ::
  "'s runtime \<Rightarrow> 's audit_service option \<Rightarrow> audit_context \<Rightarrow> http_request \<Rightarrow> string \<Rightarrow> audit_payload \<Rightarrow>
   ('s, unit result) state" where
  "RecordRequestReceived rt recorder audit r message extraPayload =
     RecordAudit rt recorder
       (flow_event audit AuditEventProxyRequestReceived message
         (mergePayload
           (mergePayload (basePayload (actx_operation audit))
             [(''method'', VString (hr_method r)), (''path'', VString (hr_path r)),
              (''remote_addr'', VString (hr_remote_addr r))])
           extraPayload))"

definition RecordRequestDenied ::
  "'s runtime \<Rightarrow> 's audit_service option \<Rightarrow> audit_context \<Rightarrow> decision \<Rightarrow> string \<Rightarrow> ('s, unit result) state" where
  "RecordRequestDenied rt recorder audit d message =
     RecordAudit rt recorder (requestAuditEvent audit AuditEventRequestDenied message (Some d)
       [(''reason'', VString (dec_reason d)), (''reasons'', VReasons (dec_reasons d))])"

definition RecordRequestAllowed ::
  "'s runtime \<Rightarrow> 's audit_service option \<Rightarrow> audit_context \<Rightarrow> decision \<Rightarrow> string \<Rightarrow> ('s, unit result) state" where
  "RecordRequestAllowed rt recorder audit d message =
     RecordAudit rt recorder (requestAuditEvent audit AuditEventRequestAllowed message (Some d)
       [(''warnings'', VStrings (dec_warnings d)), (''reasons'', VReasons (dec_reasons d))])"

definition RecordRequestForwarded ::
  "'s runtime \<Rightarrow> 's audit_service option \<Rightarrow> audit_context \<Rightarrow> decision option \<Rightarrow> string \<Rightarrow> string \<Rightarrow>
   ('s, unit result) state" where
  "RecordRequestForwarded rt recorder audit d reason message =
     (let payload = (''reason'', VString reason) #
        (case d of
           None \<Rightarrow> []
         | Some dec \<Rightarrow>
             [(''evaluation_outcome'', VOutcome (dec_outcome dec)), (''warnings'', VStrings (dec_warnings dec)),
              (''reasons'', VReasons (dec_reasons dec))]);
          event = requestAuditEvent audit AuditEventRequestForwarded message None payload
      in RecordAudit rt recorder
           (case d of None \<Rightarrow> event | Some dec \<Rightarrow> event\<lparr>ev_artifact := dec_artifact dec\<rparr>))"

definition RecordSimpleRequestAllowed ::
  "'s runtime \<Rightarrow> 's audit_service option \<Rightarrow> audit_context \<Rightarrow> string \<Rightarrow> ('s, unit result) state" where
  "RecordSimpleRequestAllowed rt recorder audit message =
     RecordAudit rt recorder (requestAuditEvent audit AuditEventRequestAllowed message None [])"

definition RecordSimpleRequestDenied ::
  "'s runtime \<Rightarrow> 's audit_service option \<Rightarrow> audit_context \<Rightarrow> string \<Rightarrow> string \<Rightarrow> ('s, unit result) state" where
  "RecordSimpleRequestDenied rt recorder audit reason message =
     RecordAudit rt recorder
       (requestAuditEvent audit AuditEventRequestDenied message None [(''reason'', VString reason)])"

definition RecordUpstreamFetchStarted ::
  "'s runtime \<Rightarrow> 's audit_service option \<Rightarrow> audit_context \<Rightarrow> string \<Rightarrow> ('s, unit result) state" where
  "RecordUpstreamFetchStarted rt recorder audit message =
     RecordAudit rt recorder
       (flow_event audit AuditEventUpstreamFetchStarted message (basePayload (actx_operation audit)))"

definition RecordUpstreamFetchFailed ::
  "'s runtime \<Rightarrow> 's audit_service option \<Rightarrow> audit_context \<Rightarrow> string \<Rightarrow> go_error \<Rightarrow> ('s, unit result) state" where
  "RecordUpstreamFetchFailed rt recorder audit message err =
     RecordAudit rt recorder
       (flow_event audit AuditEventUpstreamFetchFailed message
         [(''operation'', VString (actx_operation audit)), (''error'', VString (err_text err))])"

section \<open>The tenant middleware\<close>

text \<open>\<open>NPMTenantFromPath\<close>: the tenant header, the pinned upstream and the path of the request that goes on. Request
  headers are read and written under one spelling of each name.\<close>

definition with_header :: "string \<Rightarrow> string \<Rightarrow> http_request \<Rightarrow> http_request" where
  "with_header k v r = r\<lparr>hr_header := (hr_header r)(k := v)\<rparr>"

definition NPMTenantFromPath :: "http_request \<Rightarrow> http_request" where
  "NPMTenantFromPath r =
     (if \<not> has_prefix ''/npm/t/'' (hr_path r) then r
      else (case parseNPMTenantPath (trim_prefix ''/npm/t/'' (hr_path r)) of
          None \<Rightarrow> r
        | Some (tenantID, upstreamID, rewrittenPath) \<Rightarrow>
            (let r1 = with_header ''X-Tenant-ID'' tenantID r;
                 r2 = (if upstreamID \<noteq> [] then r1\<lparr>hr_upstream_id := Some upstreamID\<rparr> else r1)
             in r2\<lparr>hr_path := rewrittenPath\<rparr>)))"

text \<open>\<open>TenantResolver.Middleware\<close>: the tenant of the header, looked up, goes into the context.\<close>

definition TenantMiddleware ::
  "(string \<Rightarrow> ('s, string result) state) \<Rightarrow> (http_request \<Rightarrow> response_writer \<Rightarrow> ('s, response_writer) state) \<Rightarrow>
   http_request \<Rightarrow> response_writer \<Rightarrow> ('s, response_writer) state" where
  "TenantMiddleware lookup next_handler r w =
     (let unauthorized = (\<lambda>message. write_body (NPMErrorBody message)
            (write_header 401 (header_set ''Content-Type'' ''application/json'' w)));
          tenantID = hr_header r ''X-Tenant-ID''
      in if tenantID = [] then State_Monad.return (unauthorized ''missing X-Tenant-ID header'')
         else
           do {
             t \<leftarrow> lookup tenantID;
             (case t of
                Inl _ \<Rightarrow> State_Monad.return (unauthorized ''invalid tenant'')
              | Inr tenant \<Rightarrow> next_handler (r\<lparr>hr_tenant := Some tenant\<rparr>) w)
           })"

section \<open>Lemmas\<close>

lemma run_or_respond:
  "run_state (or_respond m f) s =
   (case run_state m s of (Inl w, s1) \<Rightarrow> (w, s1) | (Inr a, s1) \<Rightarrow> run_state (f a) s1)"
  by (simp add: or_respond_def split: prod.split sum.split)

text \<open>Two early-returning runs agree when they agree wherever the first part succeeds.\<close>

lemma or_respond_cong:
  assumes "\<And>a s1. run_state m s = (Inr a, s1) \<Longrightarrow> run_state (f a) s1 = run_state (g a) s1"
  shows "run_state (or_respond m f) s = run_state (or_respond m g) s"
  using assms by (auto simp: run_or_respond split: prod.splits sum.splits)

lemma run_recorded:
  "run_state (recorded m failure f) s =
   (case run_state m s of (Inl _, s1) \<Rightarrow> (Inl failure, s1) | (Inr _, s1) \<Rightarrow> run_state f s1)"
  by (simp add: recorded_def split: prod.split sum.split)

lemma writer_simps [simp]:
  "rw_status (write_body b w) = rw_status w" "rw_status (header_set k v w) = rw_status w"
  "rw_status (header_add k v w) = rw_status w" "rw_body (header_set k v w) = rw_body w"
  "rw_body (header_add k v w) = rw_body w" "rw_body (write_body b w) = rw_body w @ [b]"
  "rw_body (write_header c w) = rw_body w"
  by (simp_all add: write_body_def header_set_def header_add_def write_header_def Let_def split: option.split)

lemma write_header_status [simp]: "rw_status w = None \<Longrightarrow> rw_status (write_header c w) = Some c"
  by (simp add: write_header_def)

lemma set_headers_simps [simp]:
  "rw_status (set_headers hs w) = rw_status w" "rw_body (set_headers hs w) = rw_body w"
  unfolding set_headers_def by (induction hs arbitrary: w) (auto split: prod.split)

lemma respond_with_simps [simp]:
  "rw_status w = None \<Longrightarrow> rw_status (respond_with resp w) = Some (rsp_status_code resp)"
  "rw_body (respond_with resp w) = rw_body w @ [RawBytes (body_bytes (rsp_body resp))]"
  by (simp_all add: respond_with_def Let_def)

lemma resolve_upstream_ecosystem:
  assumes "run_state (ResolveUpstream r upstreams tenant eco) s = (Inr up, s')"
    and "hr_upstream_id r = Some i" "i \<noteq> []"
  shows "up_ecosystem up = eco \<and> run_state (ul_get_by_id upstreams tenant i) s = (Inr up, s')"
  using assms by (auto simp: ResolveUpstream_def elim!: on_ok_InrE split: if_splits)

section \<open>What every run of a handler returns\<close>

definition returns :: "('s, 'a) state \<Rightarrow> ('a \<Rightarrow> bool) \<Rightarrow> bool" where
  "returns m P \<longleftrightarrow> (\<forall>s. P (fst (run_state m s)))"

lemma returns_return: "P a \<Longrightarrow> returns (State_Monad.return a) P"
  by (simp add: returns_def)

lemma returns_bind: "(\<And>a. returns (f a) P) \<Longrightarrow> returns (m \<bind> f) P"
  by (simp add: returns_def split_beta)

text \<open>A writer nothing was sent to, and one that holds one whole response.\<close>

definition open_writer :: "response_writer \<Rightarrow> bool" where
  "open_writer w \<longleftrightarrow> rw_status w = None \<and> rw_body w = []"

definition answered_once :: "response_writer \<Rightarrow> bool" where
  "answered_once w \<longleftrightarrow> rw_status w \<noteq> None \<and> length (rw_body w) = 1"

definition step_ok :: "('a \<Rightarrow> bool) \<Rightarrow> response_writer + 'a \<Rightarrow> bool" where
  "step_ok P r \<longleftrightarrow> (case r of Inl w \<Rightarrow> answered_once w | Inr a \<Rightarrow> P a)"

lemma step_ok_simps [simp]: "step_ok P (Inl w) = answered_once w" "step_ok P (Inr a) = P a"
  by (simp_all add: step_ok_def)

lemma returns_or_respond:
  assumes "returns m (step_ok Q)" and "\<And>a. Q a \<Longrightarrow> returns (f a) answered_once"
  shows "returns (or_respond m f) answered_once"
  unfolding returns_def
proof
  fix s
  from assms(1) have "step_ok Q (fst (run_state m s))" by (simp add: returns_def)
  with assms(2) show "answered_once (fst (run_state (or_respond m f) s))"
    by (auto simp: run_or_respond returns_def split: prod.split sum.split)
qed

lemma returns_recorded:
  "answered_once failure \<Longrightarrow> returns f (step_ok Q) \<Longrightarrow> returns (recorded m failure f) (step_ok Q)"
  by (auto simp: returns_def run_recorded split: prod.split sum.split)

lemma returns_sum:
  "(\<And>e. r = Inl e \<Longrightarrow> returns (f e) P) \<Longrightarrow> (\<And>a. r = Inr a \<Longrightarrow> returns (g a) P) \<Longrightarrow>
   returns (case r of Inl e \<Rightarrow> f e | Inr a \<Rightarrow> g a) P"
  by (simp split: sum.split)

lemma returns_option:
  "(x = None \<Longrightarrow> returns f P) \<Longrightarrow> (\<And>a. x = Some a \<Longrightarrow> returns (g a) P) \<Longrightarrow>
   returns (case x of None \<Rightarrow> f | Some a \<Rightarrow> g a) P"
  by (simp split: option.split)

lemma returns_if:
  "(b \<Longrightarrow> returns f P) \<Longrightarrow> (\<not> b \<Longrightarrow> returns g P) \<Longrightarrow> returns (if b then f else g) P"
  by simp

lemmas returns_rules =
  returns_return returns_bind returns_recorded returns_sum returns_option returns_if

lemma response_answers [simp]: "open_writer w \<Longrightarrow> answered_once (respond_with resp w)"
  by (simp add: open_writer_def answered_once_def)

lemma stream_answers: "open_writer w \<Longrightarrow> returns (streamResponse client resp w) answered_once"
  unfolding streamResponse_def by (intro returns_rules) simp

lemma open_header_add [simp]: "open_writer (header_add k v w) = open_writer w"
  by (simp add: open_writer_def)

end
