(* ===== verification/Go_Json.thy ===== *)
theory Go_Json
  imports Domain_Errors "HOL-Library.AList"
begin

text \<open>
  JSON documents as \<open>encoding/json\<close> reads them into an interface, and the assignments it makes when it decodes a value
  into a Go variable. The text of a document is parsed and printed by arguments of the definitions that need it; a
  number is the literal of the text, which the target of an assignment interprets.
\<close>

datatype json =
    JNull
  | JBool bool
  | JNumber string
  | JString string
  | JArray "json list"
  | JObject "(string \<times> json) list"

text \<open>The texts of decoding errors and the reading of a floating-point literal.\<close>

record json_decoder =
  jd_mismatch :: "string \<Rightarrow> json \<Rightarrow> string"
  jd_float :: "string \<Rightarrow> float64 option"

definition mismatch :: "json_decoder \<Rightarrow> string \<Rightarrow> json \<Rightarrow> 'a result" where
  "mismatch jd target j = Inl (plain_error (jd_mismatch jd target j))"

section \<open>Assignments\<close>

text \<open>\<open>null\<close> leaves a scalar alone and clears a pointer, a slice and a map.\<close>

definition assign_bool :: "json_decoder \<Rightarrow> json \<Rightarrow> bool \<Rightarrow> bool result" where
  "assign_bool jd j old = (case j of JNull \<Rightarrow> Inr old | JBool b \<Rightarrow> Inr b | _ \<Rightarrow> mismatch jd ''bool'' j)"

definition assign_string :: "json_decoder \<Rightarrow> json \<Rightarrow> string \<Rightarrow> string result" where
  "assign_string jd j old = (case j of JNull \<Rightarrow> Inr old | JString t \<Rightarrow> Inr t | _ \<Rightarrow> mismatch jd ''string'' j)"

definition assign_string_pointer :: "json_decoder \<Rightarrow> json \<Rightarrow> string option result" where
  "assign_string_pointer jd j =
     (case j of JNull \<Rightarrow> Inr None | JString t \<Rightarrow> Inr (Some t) | _ \<Rightarrow> mismatch jd ''string'' j)"

text \<open>\<open>strconv.ParseInt(literal, 10, 64)\<close>: digits after an optional minus sign, in range.\<close>

definition digits :: "string \<Rightarrow> bool" where
  "digits s \<longleftrightarrow> s \<noteq> [] \<and> list_all (\<lambda>c. 48 \<le> byte c \<and> byte c \<le> 57) s"

definition parse_int64 :: "string \<Rightarrow> int option" where
  "parse_int64 s =
     (let n = (if has_prefix ''-'' s then - int (read_nat (tl s)) else int (read_nat s))
      in if \<not> digits (trim_prefix ''-'' s) then None
         else if n < - (2 ^ 63) \<or> 2 ^ 63 - 1 < n then None else Some n)"

definition assign_int_pointer :: "json_decoder \<Rightarrow> json \<Rightarrow> int option result" where
  "assign_int_pointer jd j =
     (case j of
        JNull \<Rightarrow> Inr None
      | JNumber literal \<Rightarrow>
          (case parse_int64 literal of None \<Rightarrow> mismatch jd ''int'' j | Some i \<Rightarrow> Inr (Some i))
      | _ \<Rightarrow> mismatch jd ''int'' j)"

definition assign_float :: "json_decoder \<Rightarrow> json \<Rightarrow> float64 \<Rightarrow> float64 result" where
  "assign_float jd j old =
     (case j of
        JNull \<Rightarrow> Inr old
      | JNumber literal \<Rightarrow> (case jd_float jd literal of None \<Rightarrow> mismatch jd ''float64'' j | Some x \<Rightarrow> Inr x)
      | _ \<Rightarrow> mismatch jd ''float64'' j)"

definition assign_float_pointer :: "json_decoder \<Rightarrow> json \<Rightarrow> float64 option result" where
  "assign_float_pointer jd j =
     (if j = JNull then Inr None
      else (case assign_float jd j 0 of Inl e \<Rightarrow> Inl e | Inr x \<Rightarrow> Inr (Some x)))"

fun assign_elements :: "('a \<Rightarrow> 'b result) \<Rightarrow> 'a list \<Rightarrow> 'b list result" where
  "assign_elements f [] = Inr []"
| "assign_elements f (x # xs) =
     (case f x of
        Inl e \<Rightarrow> Inl e
      | Inr y \<Rightarrow> (case assign_elements f xs of Inl e \<Rightarrow> Inl e | Inr ys \<Rightarrow> Inr (y # ys)))"

definition assign_strings :: "json_decoder \<Rightarrow> json \<Rightarrow> string list result" where
  "assign_strings jd j =
     (case j of
        JNull \<Rightarrow> Inr []
      | JArray xs \<Rightarrow> assign_elements (\<lambda>x. assign_string jd x []) xs
      | _ \<Rightarrow> mismatch jd ''slice'' j)"

text \<open>Entries go into the map that is already there.\<close>

definition assign_float_map :: "json_decoder \<Rightarrow> json \<Rightarrow> (string \<times> float64) list \<Rightarrow> (string \<times> float64) list result" where
  "assign_float_map jd j old =
     (case j of
        JNull \<Rightarrow> Inr []
      | JObject kvs \<Rightarrow>
          (case assign_elements (\<lambda>(k, v). case assign_float jd v 0 of Inl e \<Rightarrow> Inl e | Inr x \<Rightarrow> Inr (k, x)) kvs of
             Inl e \<Rightarrow> Inl e
           | Inr xs \<Rightarrow> Inr (fold (\<lambda>(k, x). AList.update k x) xs old))
      | _ \<Rightarrow> mismatch jd ''map'' j)"

definition map_result :: "('a \<Rightarrow> 'b) \<Rightarrow> 'a result \<Rightarrow> 'b result" where
  "map_result f r = (case r of Inl e \<Rightarrow> Inl e | Inr a \<Rightarrow> Inr (f a))"

text \<open>Decoding an object into a struct, one assignment per member; the name of a field matches whatever its case. A
  struct is given by the assignments of its fields, which are none for another name; with
  \<open>DisallowUnknownFields\<close> that is an error.\<close>

type_synonym 'c fields = "string \<Rightarrow> json \<Rightarrow> 'c \<Rightarrow> 'c result option"

definition unknown_field :: "string \<Rightarrow> 'a result" where
  "unknown_field k = Inl (plain_error (''json: unknown field '' @ quote k))"

fun assign_members :: "'c fields \<Rightarrow> (string \<times> json) list \<Rightarrow> 'c \<Rightarrow> 'c result" where
  "assign_members assign [] c = Inr c"
| "assign_members assign ((k, v) # kvs) c =
     (case assign (to_lower k) v c of
        None \<Rightarrow> unknown_field k
      | Some (Inl e) \<Rightarrow> Inl e
      | Some (Inr c') \<Rightarrow> assign_members assign kvs c')"

definition decode_struct :: "json_decoder \<Rightarrow> 'c fields \<Rightarrow> json \<Rightarrow> 'c \<Rightarrow> 'c result" where
  "decode_struct jd assign j c =
     (case j of JNull \<Rightarrow> Inr c | JObject kvs \<Rightarrow> assign_members assign kvs c | _ \<Rightarrow> mismatch jd ''struct'' j)"

lemma map_result_Inr: "map_result f r = Inr b \<longleftrightarrow> (\<exists>a. r = Inr a \<and> b = f a)"
  by (auto simp: map_result_def split: sum.split)

end
