(* ===== verification/Npm_Proxy.thy ===== *)
theory Npm_Proxy
  imports Proxy_Flow Ingest_Service Go_Json
begin

text \<open>
  The npm proxy (\<open>delivery/npm\<close>: \<open>handler.go\<close>, \<open>response.go\<close>, \<open>metadata.go\<close>, \<open>audit.go\<close>). Package metadata and
  tarballs are fetched after the access pipeline has decided on them, the tarball addresses in metadata are rewritten
  to the proxy's own, and the native audit request of npm is the capture point of install snapshots.

  The JSON codec (numbers are the literals that \<open>json.Marshal\<close> prints for what \<open>json.Unmarshal\<close> reads), \<open>url.Parse\<close> and the decoding of a gzip stream are arguments. The goroutine that processes a
  snapshot is the second component of what the POST route returns.
\<close>

section \<open>Documents\<close>

text \<open>\<open>url.Parse\<close> gives the raw path and the decoded path.\<close>

record codecs =
  cd_unmarshal :: "string \<Rightarrow> json result"
  cd_marshal :: "json \<Rightarrow> string result"
  cd_url_parse :: "string \<Rightarrow> (string \<times> string) result"
  cd_gunzip :: "body \<Rightarrow> body result"
  cd_audit_payload :: "body \<Rightarrow> (string \<times> string list) list result"

record ('b, 's) npm_handler =
  nh_access :: "'s access_service"
  nh_audit :: "'s audit_service option"
  nh_upstream :: "('b, 's) upstream_client"
  nh_upstreams :: "'s upstream_lookup"
  nh_snapshots :: "'s npm_install_snapshot_service option"
  nh_codecs :: codecs

abbreviation nh_runtime :: "('b, 's) npm_handler \<Rightarrow> 's runtime" where
  "nh_runtime h \<equiv> acc_runtime (nh_access h)"

section \<open>Responses\<close>

definition writeNPMError :: "response_writer \<Rightarrow> string \<Rightarrow> int \<Rightarrow> response_writer" where
  "writeNPMError w message status =
     write_body (NPMErrorBody message) (write_header status (header_set ''Content-Type'' ''application/json'' w))"

definition addWarningHeaders :: "response_writer \<Rightarrow> decision \<Rightarrow> response_writer" where
  "addWarningHeaders w d = fold (header_add ''npm-notice'') (dec_warnings d) w"

section \<open>Rewriting metadata\<close>

definition isJSONContentType :: "string \<Rightarrow> bool" where
  "isJSONContentType contentType \<longleftrightarrow>
     (let mediaType = to_lower (trim_space (takeWhile (\<lambda>c. c \<noteq> CHR '';'') contentType))
      in mediaType = ''application/json'' \<or> has_suffix ''+json'' mediaType)"

definition tarballPath :: "codecs \<Rightarrow> string \<Rightarrow> string" where
  "tarballPath cd tarballURL =
     (case cd_url_parse cd tarballURL of
        Inl _ \<Rightarrow> tarballURL
      | Inr (rawPath, path) \<Rightarrow> if rawPath \<noteq> [] then rawPath else if path \<noteq> [] then path else tarballURL)"

definition rewrite_entry :: "codecs \<Rightarrow> string \<Rightarrow> string \<times> json \<Rightarrow> string \<times> json" where
  "rewrite_entry cd proxyBase entry =
     (case entry of
        (key, JString tarball) \<Rightarrow>
          if key = ''tarball'' \<and> trim_space tarball \<noteq> []
          then (key, JString (proxyBase @ trim_prefix ''/'' (tarballPath cd tarball)))
          else (key, JString tarball)
      | e \<Rightarrow> e)"

primrec rewriteTarballURLs :: "codecs \<Rightarrow> string \<Rightarrow> json \<Rightarrow> json" where
  "rewriteTarballURLs cd base JNull = JNull"
| "rewriteTarballURLs cd base (JBool b) = JBool b"
| "rewriteTarballURLs cd base (JNumber n) = JNumber n"
| "rewriteTarballURLs cd base (JString t) = JString t"
| "rewriteTarballURLs cd base (JArray xs) = JArray (map (rewriteTarballURLs cd base) xs)"
| "rewriteTarballURLs cd base (JObject kvs) =
     JObject (map (rewrite_entry cd base) (map (map_prod id (rewriteTarballURLs cd base)) kvs))"

definition firstHeaderValue :: "string \<Rightarrow> string" where
  "firstHeaderValue value = (if value = [] then [] else trim_space (takeWhile (\<lambda>c. c \<noteq> CHR '','') value))"

definition requestBaseURL :: "http_request \<Rightarrow> string" where
  "requestBaseURL r =
     (let scheme = (if hr_tls r then ''https'' else ''http'');
          forwardedProto = firstHeaderValue (hr_header r ''X-Forwarded-Proto'');
          scheme' = (if forwardedProto \<noteq> [] then forwardedProto else scheme);
          host = firstHeaderValue (hr_header r ''X-Forwarded-Host'');
          host' = (if host = [] then hr_host r else host)
      in scheme' @ ''://'' @ host')"

definition npmProxyBaseURL :: "http_request \<Rightarrow> string \<Rightarrow> string \<Rightarrow> string" where
  "npmProxyBaseURL r tenantID upstreamID =
     trim_right (CHR ''/'') (requestBaseURL r) @ ''/npm/t/'' @ tenantID @ ''/'' @
     (if upstreamID \<noteq> [] then ''u/'' @ upstreamID @ ''/'' else [])"

definition rewriteMetadataTarballs ::
  "codecs \<Rightarrow> http_request \<Rightarrow> body \<Rightarrow> string \<Rightarrow> string \<Rightarrow> string result" where
  "rewriteMetadataTarballs cd r b tenantID upstreamID =
     (case body_content b of
        None \<Rightarrow> Inl (plain_error ''reading body'')
      | Some raw \<Rightarrow>
          (case cd_unmarshal cd raw of
             Inl e \<Rightarrow> Inl e
           | Inr payload \<Rightarrow>
               cd_marshal cd (rewriteTarballURLs cd (npmProxyBaseURL r tenantID upstreamID) payload)))"

text \<open>A response that is not JSON is passed on; of any other the body is replaced, and with it the length.\<close>

definition rewriteMetadataResponse ::
  "codecs \<Rightarrow> response_writer \<Rightarrow> http_request \<Rightarrow> body upstream_response \<Rightarrow> string \<Rightarrow> string \<Rightarrow>
   response_writer + body upstream_response" where
  "rewriteMetadataResponse cd w r resp tenantID upstreamID =
     (if \<not> isJSONContentType (rsp_content_type resp) then Inr resp
      else (case rewriteMetadataTarballs cd r (rsp_body resp) tenantID upstreamID of
          Inl _ \<Rightarrow> Inl (writeNPMError w ''upstream metadata error'' 502)
        | Inr rewritten \<Rightarrow>
            Inr (resp\<lparr>rsp_body := [(rewritten, More)],
                      rsp_headers := AList.update ''Content-Length'' (show_int (int (length rewritten)))
                        (AList.delete ''ETag'' (rsp_headers resp))\<rparr>)))"

section \<open>The request flow\<close>

record npm_access_context =
  nac_tenant_id :: string
  nac_upstream :: upstream
  nac_artifact :: artifact_identity
  nac_audit :: audit_context
  nac_decision :: decision

definition npm_artifact :: "string \<Rightarrow> string \<Rightarrow> artifact_identity" where
  "npm_artifact name version =
     \<lparr>art_ecosystem = EcosystemNPM, art_namespace = [], art_name = name, art_version = version, art_digest = []\<rparr>"

definition audit_unavailable :: "response_writer \<Rightarrow> response_writer" where
  "audit_unavailable w = writeNPMError w ''audit logging unavailable'' 500"

text \<open>The request as the pipeline gets it and the context of its audit events.\<close>

definition npm_request :: "access_request \<Rightarrow> access_request_kind \<Rightarrow> access_request" where
  "npm_request req kind = req\<lparr>req_kind := kind\<rparr>"

definition npm_audit_context :: "access_request \<Rightarrow> string \<Rightarrow> audit_context" where
  "npm_audit_context req operation =
     \<lparr>actx_tenant_id = req_tenant_id req, actx_correlation_id = req_request_id req, actx_source = ''delivery/npm'',
      actx_upstream_id = up_id (req_upstream req), actx_artifact = req_artifact req, actx_operation = operation\<rparr>"

definition startNPMRequest ::
  "('b, 's) npm_handler \<Rightarrow> response_writer \<Rightarrow> http_request \<Rightarrow> string \<Rightarrow> string \<Rightarrow> access_request_kind \<Rightarrow> string \<Rightarrow>
   ('s, response_writer + npm_access_context) state" where
  "startNPMRequest h w r name version kind operation =
     (case hr_tenant r of
        None \<Rightarrow> State_Monad.return (Inl (writeNPMError w ''tenant not identified'' 401))
      | Some tenant \<Rightarrow>
          do {
            found \<leftarrow> ResolveUpstream r (nh_upstreams h) tenant EcosystemNPM;
            (case found of
               Inl _ \<Rightarrow> State_Monad.return (Inl (writeNPMError w ''no npm upstream configured'' 404))
             | Inr up \<Rightarrow>
                 do {
                   req0 \<leftarrow> NewAccessRequest (nh_runtime h) r tenant up (npm_artifact name version);
                   (let req = npm_request req0 kind; audit = npm_audit_context req operation
                    in recorded
                         (RecordRequestReceived (nh_runtime h) (nh_audit h) audit r
                            (''npm '' @ operation @ '' request received'') [])
                         (audit_unavailable w)
                         (do {
                            decided \<leftarrow> EvaluateAccess (nh_access h) req;
                            State_Monad.return
                              (case decided of
                                 Inl _ \<Rightarrow> Inl (writeNPMError w ''policy evaluation error'' 500)
                               | Inr d \<Rightarrow>
                                   Inr \<lparr>nac_tenant_id = tenant, nac_upstream = up,
                                        nac_artifact = npm_artifact name version,
                                        nac_audit = audit, nac_decision = d\<rparr>)
                          }))
                 })
          })"

definition denied_response ::
  "('b, 's) npm_handler \<Rightarrow> response_writer \<Rightarrow> npm_access_context \<Rightarrow> string \<Rightarrow> ('s, response_writer + 'a) state" where
  "denied_response h w access message =
     recorded (RecordRequestDenied (nh_runtime h) (nh_audit h) (nac_audit access) (nac_decision access) message)
       (audit_unavailable w)
       (State_Monad.return
          (Inl (writeNPMError w (''policy violation: '' @ dec_reason (nac_decision access)) 403)))"

definition authorizeMetadata ::
  "('b, 's) npm_handler \<Rightarrow> response_writer \<Rightarrow> npm_access_context \<Rightarrow> string \<Rightarrow>
   ('s, response_writer + response_writer) state" where
  "authorizeMetadata h w access version =
     (let d = nac_decision access; audit = nac_audit access
      in if dec_outcome d = DecisionDeny then denied_response h w access ''npm metadata request denied''
         else
           (let w1 = addWarningHeaders w d
            in recorded
                 (if version = []
                  then RecordRequestForwarded (nh_runtime h) (nh_audit h) audit (Some d)
                    ''bare npm packument; concrete version will be evaluated on versioned metadata or tarball request''
                    ''npm metadata request forwarded''
                  else RecordRequestAllowed (nh_runtime h) (nh_audit h) audit d ''npm metadata request allowed'')
                 (audit_unavailable w1) (State_Monad.return (Inr w1))))"

definition authorizeTarball ::
  "('b, 's) npm_handler \<Rightarrow> response_writer \<Rightarrow> npm_access_context \<Rightarrow> ('s, response_writer + response_writer) state" where
  "authorizeTarball h w access =
     (let d = nac_decision access
      in if dec_outcome d = DecisionDeny then denied_response h w access ''npm tarball request denied''
         else
           (let w1 = addWarningHeaders w d
            in recorded
                 (RecordRequestAllowed (nh_runtime h) (nh_audit h) (nac_audit access) d ''npm tarball request allowed'')
                 (audit_unavailable w1) (State_Monad.return (Inr w1))))"

text \<open>A failed fetch: an unknown artifact is answered with 404, anything else is recorded and answered with 502.\<close>

definition fetch_failed ::
  "('b, 's) npm_handler \<Rightarrow> response_writer \<Rightarrow> audit_context \<Rightarrow> string \<Rightarrow> string \<Rightarrow> go_error \<Rightarrow>
   ('s, response_writer + 'a) state" where
  "fetch_failed h w audit not_found message err =
     (if errors_is err ErrArtifactNotFound then State_Monad.return (Inl (writeNPMError w not_found 404))
      else
        do {
          _ \<leftarrow> RecordUpstreamFetchFailed (nh_runtime h) (nh_audit h) audit message err;
          State_Monad.return (Inl (writeNPMError w ''upstream error'' 502))
        })"

definition fetchMetadataResponse ::
  "('b, 's) npm_handler \<Rightarrow> response_writer \<Rightarrow> upstream \<Rightarrow> artifact_identity \<Rightarrow> audit_context \<Rightarrow>
   ('s, response_writer + 'b upstream_response) state" where
  "fetchMetadataResponse h w up artifact audit =
     do {
       r \<leftarrow> uc_fetch_metadata (nh_upstream h) up artifact;
       (case r of
          Inr resp \<Rightarrow> State_Monad.return (Inr resp)
        | Inl err \<Rightarrow> fetch_failed h w audit ''package not found'' ''npm upstream metadata fetch failed'' err)
     }"

text \<open>Fetching and answering, once the request is authorized; the body of a JSON response is read at once, any other
  while it is copied.\<close>

definition serve_metadata ::
  "('b, 's) npm_handler \<Rightarrow> response_writer \<Rightarrow> http_request \<Rightarrow> npm_access_context \<Rightarrow> ('s, response_writer) state" where
  "serve_metadata h w r access =
     or_respond
       (recorded
          (RecordUpstreamFetchStarted (nh_runtime h) (nh_audit h) (nac_audit access) ''npm upstream metadata fetch started'')
          (audit_unavailable w)
          (fetchMetadataResponse h w (nac_upstream access) (nac_artifact access) (nac_audit access)))
       (\<lambda>resp. do {
          b \<leftarrow> uc_drain (nh_upstream h) (rsp_body resp);
          State_Monad.return
            (case rewriteMetadataResponse (nh_codecs h) w r
               \<lparr>rsp_status_code = rsp_status_code resp, rsp_content_type = rsp_content_type resp,
                rsp_headers = rsp_headers resp, rsp_body = b\<rparr> (nac_tenant_id access) (up_id (nac_upstream access)) of
               Inl w1 \<Rightarrow> w1
             | Inr resp1 \<Rightarrow> respond_with resp1 w)
        })"

definition handleMetadata ::
  "('b, 's) npm_handler \<Rightarrow> response_writer \<Rightarrow> http_request \<Rightarrow> string \<Rightarrow> ('s, response_writer) state" where
  "handleMetadata h w r path =
     (let (name, version) = parsePackagePath path
      in or_respond (startNPMRequest h w r name version AccessRequestKindNPMMetadata ''metadata'')
           (\<lambda>access. or_respond (authorizeMetadata h w access version)
              (\<lambda>w1. serve_metadata h w1 r access)))"

definition streamTarball ::
  "('b, 's) npm_handler \<Rightarrow> response_writer \<Rightarrow> upstream \<Rightarrow> audit_context \<Rightarrow> string \<Rightarrow> string \<Rightarrow> ('s, response_writer) state" where
  "streamTarball h w up audit name version =
     or_respond
       (do {
          r \<leftarrow> uc_fetch_content (nh_upstream h) up (tarballFilename name version);
          (case r of
             Inr resp \<Rightarrow> State_Monad.return (Inr resp)
           | Inl err \<Rightarrow> fetch_failed h w audit ''tarball not found'' ''npm upstream tarball fetch failed'' err)
        })
       (\<lambda>resp. streamResponse (nh_upstream h) resp w)"

definition handleTarball ::
  "('b, 's) npm_handler \<Rightarrow> response_writer \<Rightarrow> http_request \<Rightarrow> string \<Rightarrow> string \<Rightarrow> ('s, response_writer) state" where
  "handleTarball h w r name version =
     or_respond (startNPMRequest h w r name version AccessRequestKindNPMTarball ''tarball'')
       (\<lambda>access. or_respond (authorizeTarball h w access)
          (\<lambda>w1. or_respond
             (recorded
                (RecordUpstreamFetchStarted (nh_runtime h) (nh_audit h) (nac_audit access)
                   ''npm upstream tarball fetch started'')
                (audit_unavailable w1) (State_Monad.return (Inr ())))
             (\<lambda>_. streamTarball h w1 (nac_upstream access) (nac_audit access) name version)))"

definition npm_route :: "('b, 's) npm_handler \<Rightarrow> http_request \<Rightarrow> response_writer \<Rightarrow> ('s, response_writer) state" where
  "npm_route h r w =
     (let path = trim_prefix ''/npm/'' (hr_path r)
      in if path = [] then State_Monad.return (writeNPMError w ''package name is required'' 400)
         else (case parseTarballPath path of
             Some (name, version) \<Rightarrow> handleTarball h w r name version
           | None \<Rightarrow> handleMetadata h w r path))"

section \<open>Install snapshots\<close>

definition npmAuditBulkPath :: string where
  "npmAuditBulkPath = ''-/npm/v1/security/advisories/bulk''"

definition maxAuditBodyBytes :: nat where "maxAuditBodyBytes = 8388608"

text \<open>\<open>io.LimitReader\<close>; the limit is on the bytes of the request, and a gzip stream is decoded behind it.\<close>

fun limit_body :: "nat \<Rightarrow> body \<Rightarrow> body" where
  "limit_body n [] = []"
| "limit_body n ((p, e) # es) =
     (if n = 0 then []
      else if length p \<le> n then (p, e) # limit_body (n - length p) es
      else [(take n p, More)])"

definition decodeAuditBulkPayload ::
  "codecs \<Rightarrow> body \<Rightarrow> string \<Rightarrow> (string \<times> string list) list result" where
  "decodeAuditBulkPayload cd b contentEncoding =
     (let reader = limit_body maxAuditBodyBytes b
      in if to_lower (trim_space contentEncoding) = ''gzip'' then
           (case cd_gunzip cd reader of Inl e \<Rightarrow> Inl e | Inr decoded \<Rightarrow> cd_audit_payload cd decoded)
         else cd_audit_payload cd reader)"

definition auditBulkPackages :: "(string \<times> string list) list \<Rightarrow> artifact_identity list" where
  "auditBulkPackages payload = concat (map (\<lambda>(name, versions). map (npm_artifact name) versions) payload)"

definition answered :: "response_writer \<Rightarrow> response_writer" where
  "answered w = write_body EmptyObject (write_header 200 (header_set ''Content-Type'' ''application/json'' w))"

definition handleAuditBulk ::
  "('b, 's) npm_handler \<Rightarrow> response_writer \<Rightarrow> http_request \<Rightarrow>
   ('s, response_writer \<times> npm_install_snapshot option) state" where
  "handleAuditBulk h w r =
     (case hr_tenant r of
        None \<Rightarrow> State_Monad.return (writeNPMError w ''tenant not identified'' 401, None)
      | Some tenant \<Rightarrow>
          (case decodeAuditBulkPayload (nh_codecs h) (hr_body r) (hr_header r ''Content-Encoding'') of
             Inl _ \<Rightarrow> State_Monad.return (writeNPMError w ''invalid audit payload'' 400, None)
           | Inr payload \<Rightarrow>
               if nh_snapshots h \<noteq> None \<and> 0 < length payload then
                 do {
                   found \<leftarrow> ResolveUpstream r (nh_upstreams h) tenant EcosystemNPM;
                   (case found of
                      Inl _ \<Rightarrow> State_Monad.return (writeNPMError w ''no npm upstream configured'' 404, None)
                    | Inr up \<Rightarrow>
                        do {
                          now \<leftarrow> time_now (nh_runtime h);
                          State_Monad.return (answered w, Some
                            \<lparr>snap_tenant_id = tenant, snap_upstream = up,
                             snap_packages = auditBulkPackages payload, snap_observed_at = now\<rparr>)
                        })
                 }
               else State_Monad.return (answered w, None)))"

definition npm_routePost ::
  "('b, 's) npm_handler \<Rightarrow> response_writer \<Rightarrow> http_request \<Rightarrow>
   ('s, response_writer \<times> npm_install_snapshot option) state" where
  "npm_routePost h w r =
     (if trim_prefix ''/npm/'' (hr_path r) = npmAuditBulkPath then handleAuditBulk h w r
      else State_Monad.return (writeNPMError w ''unsupported npm endpoint'' 404, None))"

text \<open>The goroutine; \<open>inspected\<close> is the number of manifests it reads within its timeout.\<close>

definition processSnapshot :: "('b, 's) npm_handler \<Rightarrow> nat \<Rightarrow> npm_install_snapshot \<Rightarrow> ('s, unit) state" where
  "processSnapshot h inspected snapshot =
     (case nh_snapshots h of
        None \<Rightarrow> State_Monad.return ()
      | Some svc \<Rightarrow>
          do { _ \<leftarrow> ProcessSnapshot svc (nh_runtime h) inspected snapshot; State_Monad.return () })"

section \<open>Lemmas\<close>

text \<open>Replacing the upstream client leaves the steps before a fetch alone.\<close>

lemma start_client [simp]: "startNPMRequest (h\<lparr>nh_upstream := c\<rparr>) = startNPMRequest h"
  by (intro ext) (simp add: startNPMRequest_def cong: option.case_cong sum.case_cong)

lemma denied_client [simp]: "denied_response (h\<lparr>nh_upstream := c\<rparr>) = denied_response h"
  by (intro ext) (simp add: denied_response_def)

lemma authorize_client [simp]:
  "authorizeMetadata (h\<lparr>nh_upstream := c\<rparr>) = authorizeMetadata h"
  "authorizeTarball (h\<lparr>nh_upstream := c\<rparr>) = authorizeTarball h"
  by (intro ext; simp add: authorizeMetadata_def authorizeTarball_def Let_def cong: if_cong)+

lemma fetch_failed_client [simp]: "fetch_failed (h\<lparr>nh_upstream := c\<rparr>) = fetch_failed h"
  by (intro ext) (simp add: fetch_failed_def cong: if_cong)

text \<open>What holds of a request that has passed the pipeline.\<close>

definition npm_evaluated :: "('b, 's) npm_handler \<Rightarrow> http_request \<Rightarrow> upstream \<Rightarrow> artifact_identity \<Rightarrow> decision \<Rightarrow> bool" where
  "npm_evaluated h r up artifact d \<longleftrightarrow>
     (\<exists>req s s'. hr_tenant r = Some (req_tenant_id req) \<and> req_upstream req = up \<and> req_artifact req = artifact \<and>
        run_state (EvaluateAccess (nh_access h) req) s = (Inr d, s'))"

definition npm_allows :: "('b, 's) npm_handler \<Rightarrow> http_request \<Rightarrow> upstream \<Rightarrow> artifact_identity \<Rightarrow> bool" where
  "npm_allows h r up artifact \<longleftrightarrow> (\<exists>d. npm_evaluated h r up artifact d \<and> dec_outcome d \<noteq> DecisionDeny)"

lemma start_Inr:
  assumes "run_state (startNPMRequest h w r name version kind operation) s = (Inr access, s')"
  shows "npm_evaluated h r (nac_upstream access) (npm_artifact name version) (nac_decision access)"
    and "nac_artifact access = npm_artifact name version" "hr_tenant r = Some (nac_tenant_id access)"
proof -
  from assms obtain tenant up req s1 d where *: "hr_tenant r = Some tenant"
    "run_state (EvaluateAccess (nh_access h) (npm_request req kind)) s1 = (Inr d, s')"
    "req_tenant_id req = tenant" "req_upstream req = up" "req_artifact req = npm_artifact name version"
    "access = \<lparr>nac_tenant_id = tenant, nac_upstream = up, nac_artifact = npm_artifact name version,
      nac_audit = npm_audit_context (npm_request req kind) operation, nac_decision = d\<rparr>"
    by (auto simp: startNPMRequest_def NewAccessRequest_def run_recorded Let_def
        split: option.splits prod.splits sum.splits)
  then show "npm_evaluated h r (nac_upstream access) (npm_artifact name version) (nac_decision access)"
    unfolding npm_evaluated_def by (intro exI [of _ "npm_request req kind"]) (auto simp: npm_request_def)
  from * show "nac_artifact access = npm_artifact name version" "hr_tenant r = Some (nac_tenant_id access)" by simp_all
qed

lemma authorize_Inr:
  "run_state (authorizeMetadata h w access version) s = (Inr w', s') \<Longrightarrow> dec_outcome (nac_decision access) \<noteq> DecisionDeny"
  "run_state (authorizeTarball h w access) s = (Inr w', s') \<Longrightarrow> dec_outcome (nac_decision access) \<noteq> DecisionDeny"
  by (auto simp: authorizeMetadata_def authorizeTarball_def denied_response_def run_recorded Let_def
      split: if_splits prod.splits sum.splits)

definition same_where_allowed :: "('b, 's) npm_handler \<Rightarrow> http_request \<Rightarrow> ('b, 's) upstream_client \<Rightarrow> bool" where
  "same_where_allowed h r c \<longleftrightarrow> uc_drain c = uc_drain (nh_upstream h) \<and>
     (\<forall>up name version. npm_allows h r up (npm_artifact name version) \<longrightarrow>
        uc_fetch_metadata c up (npm_artifact name version) =
          uc_fetch_metadata (nh_upstream h) up (npm_artifact name version) \<and>
        uc_fetch_content c up (tarballFilename name version) =
          uc_fetch_content (nh_upstream h) up (tarballFilename name version))"

lemma tarball_client:
  assumes "same_where_allowed h r c"
  shows "run_state (handleTarball (h\<lparr>nh_upstream := c\<rparr>) w r name version) s =
    run_state (handleTarball h w r name version) s"
  unfolding handleTarball_def start_client authorize_client
proof (rule or_respond_cong, rule or_respond_cong)
  fix access s1 w1 s2
  assume "run_state (startNPMRequest h w r name version AccessRequestKindNPMTarball ''tarball'') s = (Inr access, s1)"
    and "run_state (authorizeTarball h w access) s1 = (Inr w1, s2)"
  from start_Inr(1) [OF this(1)] authorize_Inr(2) [OF this(2)]
  have "npm_allows h r (nac_upstream access) (npm_artifact name version)" by (auto simp: npm_allows_def)
  with assms have "streamTarball (h\<lparr>nh_upstream := c\<rparr>) w1 (nac_upstream access) (nac_audit access) name version =
      streamTarball h w1 (nac_upstream access) (nac_audit access) name version"
    by (simp add: same_where_allowed_def streamTarball_def streamResponse_def cong: sum.case_cong)
  then show "run_state (or_respond (recorded
         (RecordUpstreamFetchStarted (nh_runtime (h\<lparr>nh_upstream := c\<rparr>)) (nh_audit (h\<lparr>nh_upstream := c\<rparr>))
            (nac_audit access) ''npm upstream tarball fetch started'') (audit_unavailable w1) (State_Monad.return (Inr ())))
       (\<lambda>_. streamTarball (h\<lparr>nh_upstream := c\<rparr>) w1 (nac_upstream access) (nac_audit access) name version)) s2 =
     run_state (or_respond (recorded
         (RecordUpstreamFetchStarted (nh_runtime h) (nh_audit h)
            (nac_audit access) ''npm upstream tarball fetch started'') (audit_unavailable w1) (State_Monad.return (Inr ())))
       (\<lambda>_. streamTarball h w1 (nac_upstream access) (nac_audit access) name version)) s2"
    by simp
qed

lemma metadata_client:
  assumes "same_where_allowed h r c"
  shows "run_state (handleMetadata (h\<lparr>nh_upstream := c\<rparr>) w r path) s = run_state (handleMetadata h w r path) s"
  unfolding handleMetadata_def start_client authorize_client Let_def split_beta
proof (rule or_respond_cong, rule or_respond_cong)
  fix access s1 w1 s2
  assume st: "run_state (startNPMRequest h w r (fst (parsePackagePath path)) (snd (parsePackagePath path))
      AccessRequestKindNPMMetadata ''metadata'') s = (Inr access, s1)"
    and au: "run_state (authorizeMetadata h w access (snd (parsePackagePath path))) s1 = (Inr w1, s2)"
  let ?a = "npm_artifact (fst (parsePackagePath path)) (snd (parsePackagePath path))"
  from start_Inr(1) [OF st] authorize_Inr(1) [OF au]
  have "npm_allows h r (nac_upstream access) ?a" by (auto simp: npm_allows_def)
  with assms start_Inr(2) [OF st]
  have "fetchMetadataResponse (h\<lparr>nh_upstream := c\<rparr>) w1 (nac_upstream access) (nac_artifact access) (nac_audit access) =
      fetchMetadataResponse h w1 (nac_upstream access) (nac_artifact access) (nac_audit access)"
    by (simp add: same_where_allowed_def fetchMetadataResponse_def cong: sum.case_cong)
  with assms show "run_state (serve_metadata (h\<lparr>nh_upstream := c\<rparr>) w1 r access) s2 = run_state (serve_metadata h w1 r access) s2"
    by (simp add: serve_metadata_def same_where_allowed_def cong: sum.case_cong)
qed

subsection \<open>One response per request\<close>

lemma error_answers [simp]:
  "open_writer w \<Longrightarrow> answered_once (writeNPMError w message status)" "open_writer w \<Longrightarrow> answered_once (audit_unavailable w)"
  by (simp_all add: open_writer_def answered_once_def writeNPMError_def audit_unavailable_def)

lemma warnings_keep [simp]: "open_writer (addWarningHeaders w d) = open_writer w"
proof -
  have "open_writer (fold (header_add k) vs w) = open_writer w" for k vs
    by (induction vs arbitrary: w) simp_all
  then show ?thesis by (simp add: addWarningHeaders_def)
qed

lemma start_answers: "open_writer w \<Longrightarrow> returns (startNPMRequest h w r name version kind operation) (step_ok (\<lambda>_. True))"
  unfolding startNPMRequest_def Let_def
  by (intro returns_rules) (auto split: sum.split)

lemma denied_answers: "open_writer w \<Longrightarrow> returns (denied_response h w access message) (step_ok P)"
  unfolding denied_response_def by (intro returns_rules) auto

lemma authorize_answers:
  "open_writer w \<Longrightarrow> returns (authorizeMetadata h w access version) (step_ok open_writer)"
  "open_writer w \<Longrightarrow> returns (authorizeTarball h w access) (step_ok open_writer)"
  unfolding authorizeMetadata_def authorizeTarball_def Let_def
  by (intro returns_if denied_answers returns_recorded returns_return; simp)+

lemma fetch_failed_answers: "open_writer w \<Longrightarrow> returns (fetch_failed h w audit nf message err) (step_ok P)"
  unfolding fetch_failed_def by (intro returns_rules) auto

lemma tarball_answers: "open_writer w \<Longrightarrow> returns (handleTarball h w r name version) answered_once"
  unfolding handleTarball_def streamTarball_def
  by (rule returns_or_respond, erule start_answers, rule returns_or_respond, erule authorize_answers,
      rule returns_or_respond [where Q = "\<lambda>_. True"], intro returns_rules; simp?)
    (rule returns_or_respond [where Q = "\<lambda>_. True"]; (intro returns_rules fetch_failed_answers stream_answers)?; simp?)

lemma metadata_answers: "open_writer w \<Longrightarrow> returns (handleMetadata h w r path) answered_once"
  unfolding handleMetadata_def serve_metadata_def fetchMetadataResponse_def Let_def split_beta
  by (rule returns_or_respond, erule start_answers, rule returns_or_respond, erule authorize_answers,
      rule returns_or_respond [where Q = "\<lambda>_. True"], intro returns_rules fetch_failed_answers; simp?)
    (intro returns_rules; auto simp: rewriteMetadataResponse_def split: sum.split)

subsection \<open>Addresses in metadata\<close>

text \<open>The strings under a key \<open>tarball\<close>, at any depth.\<close>

definition own_tarballs :: "(string \<times> json) list \<Rightarrow> string list" where
  "own_tarballs kvs =
     concat (map (\<lambda>(k, v). case v of JString t \<Rightarrow> if k = ''tarball'' then [t] else [] | _ \<Rightarrow> []) kvs)"

primrec tarballs :: "json \<Rightarrow> string list" where
  "tarballs JNull = []"
| "tarballs (JBool b) = []"
| "tarballs (JNumber n) = []"
| "tarballs (JString t) = []"
| "tarballs (JArray xs) = concat (map tarballs xs)"
| "tarballs (JObject kvs) = own_tarballs kvs @ concat (map snd (map (map_prod id tarballs) kvs))"

definition rewritten_from :: "codecs \<Rightarrow> string \<Rightarrow> string \<Rightarrow> string \<Rightarrow> bool" where
  "rewritten_from cd base u t \<longleftrightarrow> trim_space t = [] \<or> t = base @ trim_prefix ''/'' (tarballPath cd u)"

lemma rewrite_entry_tarballs: "tarballs (snd (rewrite_entry cd base e)) = tarballs (snd e)" "fst (rewrite_entry cd base e) = fst e"
  by (auto simp: rewrite_entry_def split: prod.split json.split)

lemma own_tarballs_iff: "t \<in> set (own_tarballs kvs) \<longleftrightarrow> (''tarball'', JString t) \<in> set kvs"
  unfolding own_tarballs_def by (induction kvs) (auto split: json.splits if_splits)

lemma rewrite_entry_string:
  assumes "rewrite_entry cd base e = (''tarball'', JString t)"
  obtains u where "e = (''tarball'', JString u)" "rewritten_from cd base u t"
  using assms by (cases e; cases "snd e") (auto simp: rewrite_entry_def rewritten_from_def split: if_splits)

lemma own_tarballs_rewritten:
  assumes "t \<in> set (own_tarballs (map (rewrite_entry cd base) kvs))"
  shows "\<exists>u \<in> set (own_tarballs kvs). rewritten_from cd base u t"
proof -
  from assms obtain e where "e \<in> set kvs" "rewrite_entry cd base e = (''tarball'', JString t)"
    by (auto simp: own_tarballs_iff)
  then show ?thesis by (metis own_tarballs_iff rewrite_entry_string)
qed

lemma rewrite_string [simp]:
  "rewriteTarballURLs cd base v = JString t \<longleftrightarrow> v = JString t" "JString t = rewriteTarballURLs cd base v \<longleftrightarrow> JString t = v"
  by (cases v; auto)+

lemma own_tarballs_children:
  "t \<in> set (own_tarballs (map (map_prod id (rewriteTarballURLs cd base)) kvs)) \<longleftrightarrow> t \<in> set (own_tarballs kvs)"
  by (induction kvs) (auto simp: own_tarballs_iff)

lemma tarballs_rewritten:
  "t \<in> set (tarballs (rewriteTarballURLs cd base doc)) \<Longrightarrow> \<exists>u \<in> set (tarballs doc). rewritten_from cd base u t"
proof (induction doc)
  case (JArray xs)
  then show ?case by fastforce
next
  case (JObject kvs)
  from JObject.prems consider
      (own) "t \<in> set (own_tarballs (map (rewrite_entry cd base) (map (map_prod id (rewriteTarballURLs cd base)) kvs)))"
    | (child) k v where "(k, v) \<in> set kvs" "t \<in> set (tarballs (rewriteTarballURLs cd base v))"
    by (auto simp: rewrite_entry_tarballs)
  then show ?case
  proof cases
    case own
    then have "\<exists>u \<in> set (own_tarballs kvs). rewritten_from cd base u t"
      using own_tarballs_rewritten [of t cd base "map (map_prod id (rewriteTarballURLs cd base)) kvs"]
      by (simp only: Bex_def own_tarballs_children)
    then show ?thesis by auto
  next
    case (child k v)
    from JObject.IH [of "(k, v)" v] child obtain u where "u \<in> set (tarballs v)" "rewritten_from cd base u t" by auto
    with child(1) show ?thesis by fastforce
  qed
qed simp_all

subsection \<open>The route\<close>

lemma npm_route_answers: "open_writer w \<Longrightarrow> returns (npm_route h r w) answered_once"
  unfolding npm_route_def Let_def
  by (auto intro!: returns_if returns_option returns_return tarball_answers metadata_answers split: prod.split option.split)

section \<open>Properties\<close>

text \<open>C5. The npm proxy asks its upstream client only for what the access pipeline has allowed: two clients that agree on
  the metadata of the allowed artifacts and on the tarballs of the allowed names and versions, and drain bodies alike,
  make the proxy behave alike on every request. An artifact counts as allowed when a run of the pipeline for the tenant
  of the request returns a decision on exactly that name and version that is not a denial.\<close>

theorem npm_fetches_only_allowed:
  assumes "uc_drain c = uc_drain (nh_upstream h)"
    and "\<And>up name version. npm_allows h r up (npm_artifact name version) \<Longrightarrow>
      uc_fetch_metadata c up (npm_artifact name version) = uc_fetch_metadata (nh_upstream h) up (npm_artifact name version) \<and>
      uc_fetch_content c up (tarballFilename name version) = uc_fetch_content (nh_upstream h) up (tarballFilename name version)"
  shows "run_state (npm_route (h\<lparr>nh_upstream := c\<rparr>) r w) s = run_state (npm_route h r w) s"
proof -
  from assms have "same_where_allowed h r c" by (simp add: same_where_allowed_def)
  then show ?thesis
    by (simp add: npm_route_def Let_def tarball_client metadata_client split: option.split prod.split)
qed

definition sample_npm_request :: "string \<Rightarrow> http_request" where
  "sample_npm_request path =
     \<lparr>hr_method = ''GET'', hr_path = path, hr_remote_addr = ''10.0.0.1:1'', hr_host = ''proxy'', hr_tls = False,
      hr_header = (\<lambda>_. []), hr_body = [], hr_tenant = Some ''t1'', hr_upstream_id = None, hr_request_id = Some ''r1''\<rparr>"

definition fixed_client :: "string \<Rightarrow> (body, unit) upstream_client" where
  "fixed_client text =
     (let resp = \<lparr>rsp_status_code = 200, rsp_content_type = ''text/plain'', rsp_headers = [], rsp_body = [(text, More)]\<rparr>
      in \<lparr>uc_fetch_metadata = (\<lambda>_ _. State_Monad.return (Inr resp)), uc_fetch_content = (\<lambda>_ _. State_Monad.return (Inr resp)),
          uc_drain = State_Monad.return\<rparr>)"

definition sample_codecs :: codecs where
  "sample_codecs =
     \<lparr>cd_unmarshal = (\<lambda>_. Inr JNull), cd_marshal = (\<lambda>_. Inr ''null''), cd_url_parse = (\<lambda>_. Inr ([], ''/a/-/a-1.tgz'')),
      cd_gunzip = Inr, cd_audit_payload = (\<lambda>_. Inr [])\<rparr>"

definition sample_npm_handler :: "policy list \<Rightarrow> (body, unit) npm_handler" where
  "sample_npm_handler ps =
     \<lparr>nh_access = stub_service ps, nh_audit = None, nh_upstream = fixed_client ''bytes'',
      nh_upstreams = \<lparr>ul_get_by_id = (\<lambda>_ _. State_Monad.return (Inr (req_upstream (sample_request None)))),
        ul_get_by_ecosystem = (\<lambda>_ _. State_Monad.return (Inr (req_upstream (sample_request None))))\<rparr>,
      nh_snapshots = None, nh_codecs = sample_codecs\<rparr>"

theorem npm_fetches_only_allowed_witness:
  "run_state (npm_route ((sample_npm_handler [(deny_policy ''block'' 1 False)\<lparr>pol_type := ''nonsense''\<rparr>])
       \<lparr>nh_upstream := fixed_client ''other''\<rparr>) (sample_npm_request ''/npm/a/-/a-1.0.0.tgz'') fresh_writer) () =
   run_state (npm_route (sample_npm_handler [(deny_policy ''block'' 1 False)\<lparr>pol_type := ''nonsense''\<rparr>])
     (sample_npm_request ''/npm/a/-/a-1.0.0.tgz'') fresh_writer) ()"
proof (rule npm_fetches_only_allowed)
  let ?h = "sample_npm_handler [(deny_policy ''block'' 1 False)\<lparr>pol_type := ''nonsense''\<rparr>]"
  show "uc_drain (fixed_client ''other'') = uc_drain (nh_upstream ?h)"
    by (simp add: sample_npm_handler_def fixed_client_def Let_def)
  have policies: "\<exists>ps e. fst (run_state (acc_list_policies (nh_access ?h) t) s) = Inr ps \<and> ValidatePolicies ps = Inl e" for t s
    using stub_invalid(1) by (auto simp: sample_npm_handler_def stub_service_def isl_def)
  have "\<not> npm_allows ?h r up a" for r up a
    using access_invalid_denies [OF policies] by (auto simp: npm_allows_def npm_evaluated_def)
  then show "uc_fetch_metadata (fixed_client ''other'') up (npm_artifact name version) =
        uc_fetch_metadata (nh_upstream ?h) up (npm_artifact name version) \<and>
      uc_fetch_content (fixed_client ''other'') up (tarballFilename name version) =
        uc_fetch_content (nh_upstream ?h) up (tarballFilename name version)"
    if "npm_allows ?h (sample_npm_request ''/npm/a/-/a-1.0.0.tgz'') up (npm_artifact name version)" for up name version
    using that by blast
qed




end
