(* ===== verification/Oci_Proxy.thy ===== *)
theory Oci_Proxy
  imports Proxy_Flow
begin

text \<open>
  The OCI proxy (\<open>delivery/oci\<close>: \<open>handler.go\<close>, \<open>response.go\<close>). A manifest is served after the access pipeline has
  decided on it, and it is fetched by the identity in the decision; a blob is served when the tenant has a recent
  allowing decision on a manifest of the repository.
\<close>

section \<open>The handler\<close>

record ('b, 's) oci_handler =
  oh_access :: "'s access_service"
  oh_audit :: "'s audit_service option"
  oh_upstream :: "('b, 's) upstream_client"
  oh_upstreams :: "'s upstream_lookup"

abbreviation oh_runtime :: "('b, 's) oci_handler \<Rightarrow> 's runtime" where
  "oh_runtime h \<equiv> acc_runtime (oh_access h)"

text \<open>A HEAD request gets no body.\<close>

definition writeOCIError :: "response_writer \<Rightarrow> http_request \<Rightarrow> string \<Rightarrow> string \<Rightarrow> int \<Rightarrow> response_writer" where
  "writeOCIError w r code message status =
     (let w1 = write_header status
        (header_set ''X-Dependency-Firewall-Reason'' message
          (header_set ''Docker-Distribution-Api-Version'' ''registry/2.0''
            (header_set ''Content-Type'' ''application/json'' w)))
      in if hr_method r = ''HEAD'' then w1 else write_body (OCIErrorBody code message) w1)"

definition versionCheck :: "response_writer \<Rightarrow> response_writer" where
  "versionCheck w = write_body EmptyObject (write_header 200 (header_set ''Content-Type'' ''application/json'' w))"

definition oci_audit_unavailable :: "response_writer \<Rightarrow> http_request \<Rightarrow> response_writer" where
  "oci_audit_unavailable w r = writeOCIError w r ''DENIED'' ''audit logging unavailable'' 500"

section \<open>Manifests\<close>

definition oci_artifact :: "string \<Rightarrow> string \<Rightarrow> string \<Rightarrow> artifact_identity" where
  "oci_artifact repo reference digest =
     (let (namespace, name) = splitRepo repo
      in \<lparr>art_ecosystem = EcosystemOCI, art_namespace = namespace, art_name = name, art_version = reference,
          art_digest = digest\<rparr>)"

definition oci_audit_context :: "string \<Rightarrow> string \<Rightarrow> string \<Rightarrow> artifact_identity \<Rightarrow> string \<Rightarrow> audit_context" where
  "oci_audit_context tenant correlation upstreamID artifact operation =
     \<lparr>actx_tenant_id = tenant, actx_correlation_id = correlation, actx_source = ''delivery/oci'',
      actx_upstream_id = upstreamID, actx_artifact = artifact, actx_operation = operation\<rparr>"

definition authorizeManifest ::
  "('b, 's) oci_handler \<Rightarrow> response_writer \<Rightarrow> http_request \<Rightarrow> audit_context \<Rightarrow> decision \<Rightarrow>
   ('s, response_writer + unit) state" where
  "authorizeManifest h w r audit d =
     (if dec_outcome d = DecisionDeny then
        recorded (RecordRequestDenied (oh_runtime h) (oh_audit h) audit d ''oci manifest request denied'')
          (oci_audit_unavailable w r)
          (State_Monad.return (Inl (writeOCIError w r ''DENIED'' (''policy violation: '' @ dec_reason d) 403)))
      else
        recorded (RecordRequestAllowed (oh_runtime h) (oh_audit h) audit d ''oci manifest request allowed'')
          (oci_audit_unavailable w r)
          (recorded (RecordUpstreamFetchStarted (oh_runtime h) (oh_audit h) audit ''oci manifest fetch started'')
             (oci_audit_unavailable w r) (State_Monad.return (Inr ()))))"

definition oci_fetch_failed ::
  "('b, 's) oci_handler \<Rightarrow> response_writer \<Rightarrow> http_request \<Rightarrow> audit_context \<Rightarrow> string \<Rightarrow> string \<Rightarrow> string \<Rightarrow> go_error \<Rightarrow>
   ('s, response_writer + 'a) state" where
  "oci_fetch_failed h w r audit code not_found message err =
     (if errors_is err ErrArtifactNotFound then State_Monad.return (Inl (writeOCIError w r code not_found 404))
      else
        do {
          _ \<leftarrow> RecordUpstreamFetchFailed (oh_runtime h) (oh_audit h) audit message err;
          State_Monad.return (Inl (writeOCIError w r code ''upstream error'' 502))
        })"

definition streamManifest ::
  "('b, 's) oci_handler \<Rightarrow> response_writer \<Rightarrow> http_request \<Rightarrow> upstream \<Rightarrow> audit_context \<Rightarrow> artifact_identity \<Rightarrow>
   ('s, response_writer) state" where
  "streamManifest h w r up audit artifact =
     or_respond
       (do {
          fetched \<leftarrow> uc_fetch_metadata (oh_upstream h) up artifact;
          (case fetched of
             Inr resp \<Rightarrow> State_Monad.return (Inr resp)
           | Inl err \<Rightarrow>
               oci_fetch_failed h w r (audit\<lparr>actx_artifact := artifact\<rparr>) ''MANIFEST_UNKNOWN'' ''manifest not found''
                 ''oci manifest fetch failed'' err)
        })
       (\<lambda>resp. streamResponse (oh_upstream h) resp w)"

text \<open>The part of \<open>handleManifest\<close> up to and with the evaluation.\<close>

definition evaluate_manifest ::
  "('b, 's) oci_handler \<Rightarrow> response_writer \<Rightarrow> http_request \<Rightarrow> string \<Rightarrow> string \<Rightarrow>
   ('s, response_writer + upstream \<times> audit_context \<times> decision) state" where
  "evaluate_manifest h w r repo reference =
     (case hr_tenant r of
        None \<Rightarrow> State_Monad.return (Inl (writeOCIError w r ''UNAUTHORIZED'' ''tenant not identified'' 401))
      | Some tenant \<Rightarrow>
          do {
            found \<leftarrow> ResolveUpstream r (oh_upstreams h) tenant EcosystemOCI;
            (case found of
               Inl _ \<Rightarrow>
                 State_Monad.return (Inl (writeOCIError w r ''NAME_UNKNOWN'' ''no OCI upstream configured'' 404))
             | Inr up \<Rightarrow>
                 do {
                   req \<leftarrow> NewAccessRequest (oh_runtime h) r tenant up (oci_artifact repo reference []);
                   (let audit = oci_audit_context tenant (req_request_id req) (up_id up) (req_artifact req) ''manifest''
                    in recorded
                         (RecordRequestReceived (oh_runtime h) (oh_audit h) audit r ''oci manifest request received''
                            [(''reference'', VString reference), (''repository'', VString repo)])
                         (oci_audit_unavailable w r)
                         (do {
                            decided \<leftarrow> EvaluateAccess (oh_access h) req;
                            State_Monad.return
                              (case decided of
                                 Inl _ \<Rightarrow> Inl (writeOCIError w r ''DENIED'' ''policy evaluation error'' 500)
                               | Inr d \<Rightarrow> Inr (up, audit, d))
                          }))
                 })
          })"

definition handleManifest ::
  "('b, 's) oci_handler \<Rightarrow> response_writer \<Rightarrow> http_request \<Rightarrow> string \<Rightarrow> string \<Rightarrow> ('s, response_writer) state" where
  "handleManifest h w r repo reference =
     or_respond (evaluate_manifest h w r repo reference)
       (\<lambda>(up, audit, d). or_respond (authorizeManifest h w r audit d)
          (\<lambda>_. streamManifest h w r up audit (dec_artifact d)))"

section \<open>Blobs\<close>

definition authorizeBlob ::
  "('b, 's) oci_handler \<Rightarrow> response_writer \<Rightarrow> http_request \<Rightarrow> string \<Rightarrow> artifact_identity \<Rightarrow> audit_context \<Rightarrow>
   ('s, response_writer + unit) state" where
  "authorizeBlob h w r tenantID artifact audit =
     do {
       checked \<leftarrow> HasRecentAllow (oh_access h) tenantID artifact;
       (case checked of
          Inl _ \<Rightarrow> State_Monad.return (Inl (writeOCIError w r ''DENIED'' ''policy check error'' 500))
        | Inr allowed \<Rightarrow>
            if allowed then State_Monad.return (Inr ())
            else
              recorded
                (RecordSimpleRequestDenied (oh_runtime h) (oh_audit h) audit
                   ''no manifest-level allow decision for this repository'' ''oci blob request denied'')
                (oci_audit_unavailable w r)
                (State_Monad.return
                   (Inl (writeOCIError w r ''DENIED'' ''no manifest-level allow decision for this repository'' 403))))
     }"

definition streamBlob ::
  "('b, 's) oci_handler \<Rightarrow> response_writer \<Rightarrow> http_request \<Rightarrow> upstream \<Rightarrow> audit_context \<Rightarrow> string \<Rightarrow>
   ('s, response_writer) state" where
  "streamBlob h w r up audit digest =
     or_respond
       (do {
          fetched \<leftarrow> uc_fetch_content (oh_upstream h) up digest;
          (case fetched of
             Inr resp \<Rightarrow> State_Monad.return (Inr resp)
           | Inl err \<Rightarrow> oci_fetch_failed h w r audit ''BLOB_UNKNOWN'' ''blob not found'' ''oci blob fetch failed'' err)
        })
       (\<lambda>resp. streamResponse (oh_upstream h) resp w)"

text \<open>The upstream with the repository in its base address.\<close>

definition blobUpstream :: "upstream \<Rightarrow> string \<Rightarrow> upstream" where
  "blobUpstream up repo = up\<lparr>up_base_url := trim_right (CHR ''/'') (up_base_url up) @ ''/v2/'' @ repo\<rparr>"

text \<open>The steps of \<open>handleBlob\<close> before and after the authorization.\<close>

definition receive_blob ::
  "('b, 's) oci_handler \<Rightarrow> response_writer \<Rightarrow> http_request \<Rightarrow> string \<Rightarrow> string \<Rightarrow>
   ('s, response_writer + string \<times> audit_context) state" where
  "receive_blob h w r repo digest =
     (case hr_tenant r of
        None \<Rightarrow> State_Monad.return (Inl (writeOCIError w r ''UNAUTHORIZED'' ''tenant not identified'' 401))
      | Some tenant \<Rightarrow>
          (let audit = oci_audit_context tenant (RequestIDFromContext r) [] (oci_artifact repo [] digest) ''blob''
           in recorded
                (RecordRequestReceived (oh_runtime h) (oh_audit h) audit r ''oci blob request received''
                   [(''repository'', VString repo), (''digest'', VString digest)])
                (oci_audit_unavailable w r) (State_Monad.return (Inr (tenant, audit)))))"

definition forward_blob ::
  "('b, 's) oci_handler \<Rightarrow> response_writer \<Rightarrow> http_request \<Rightarrow> string \<Rightarrow> audit_context \<Rightarrow>
   ('s, response_writer + upstream \<times> audit_context) state" where
  "forward_blob h w r tenant audit0 =
     do {
       found \<leftarrow> ResolveUpstream r (oh_upstreams h) tenant EcosystemOCI;
       (case found of
          Inl _ \<Rightarrow> State_Monad.return (Inl (writeOCIError w r ''NAME_UNKNOWN'' ''no OCI upstream configured'' 404))
        | Inr up \<Rightarrow>
            (let audit = audit0\<lparr>actx_upstream_id := up_id up\<rparr>
             in recorded
                  (RecordSimpleRequestAllowed (oh_runtime h) (oh_audit h) audit ''oci blob request allowed'')
                  (oci_audit_unavailable w r)
                  (recorded
                     (RecordUpstreamFetchStarted (oh_runtime h) (oh_audit h) audit ''oci blob fetch started'')
                     (oci_audit_unavailable w r) (State_Monad.return (Inr (up, audit))))))
     }"

definition handleBlob ::
  "('b, 's) oci_handler \<Rightarrow> response_writer \<Rightarrow> http_request \<Rightarrow> string \<Rightarrow> string \<Rightarrow> ('s, response_writer) state" where
  "handleBlob h w r repo digest =
     or_respond (receive_blob h w r repo digest)
       (\<lambda>(tenant, audit). or_respond (authorizeBlob h w r tenant (oci_artifact repo [] []) audit)
          (\<lambda>_. or_respond (forward_blob h w r tenant audit)
             (\<lambda>(up, audit'). streamBlob h w r (blobUpstream up repo) audit' digest)))"

definition oci_route :: "('b, 's) oci_handler \<Rightarrow> http_request \<Rightarrow> response_writer \<Rightarrow> ('s, response_writer) state" where
  "oci_route h r w =
     (let path = hr_path r
      in if path = ''/v2/'' \<or> path = ''/v2'' then State_Monad.return (versionCheck w)
         else
           (let rest = trim_prefix ''/v2/'' path
            in case parseManifestPath rest of
                 Some (repo, reference) \<Rightarrow> handleManifest h w r repo reference
               | None \<Rightarrow>
                   (case parseBlobPath rest of
                      Some (repo, digest) \<Rightarrow> handleBlob h w r repo digest
                    | None \<Rightarrow>
                        State_Monad.return (writeOCIError w r ''NAME_UNKNOWN'' ''unsupported OCI endpoint'' 404))))"

section \<open>Lemmas\<close>

lemma oci_client [simp]:
  "evaluate_manifest (h\<lparr>oh_upstream := c\<rparr>) = evaluate_manifest h"
  "authorizeManifest (h\<lparr>oh_upstream := c\<rparr>) = authorizeManifest h"
  "oci_fetch_failed (h\<lparr>oh_upstream := c\<rparr>) = oci_fetch_failed h"
  "receive_blob (h\<lparr>oh_upstream := c\<rparr>) = receive_blob h"
  "authorizeBlob (h\<lparr>oh_upstream := c\<rparr>) = authorizeBlob h"
  "forward_blob (h\<lparr>oh_upstream := c\<rparr>) = forward_blob h"
  by (intro ext; simp add: evaluate_manifest_def authorizeManifest_def oci_fetch_failed_def receive_blob_def
      authorizeBlob_def forward_blob_def cong: option.case_cong sum.case_cong if_cong)+

text \<open>A manifest is allowed by the decision it is fetched from, a blob by a recent allow for its repository.\<close>

definition manifest_allowed :: "('b, 's) oci_handler \<Rightarrow> http_request \<Rightarrow> upstream \<Rightarrow> artifact_identity \<Rightarrow> bool" where
  "manifest_allowed h r up artifact \<longleftrightarrow>
     (\<exists>req d s s'. hr_tenant r = Some (req_tenant_id req) \<and> req_upstream req = up \<and>
        run_state (EvaluateAccess (oh_access h) req) s = (Inr d, s') \<and> dec_outcome d \<noteq> DecisionDeny \<and>
        dec_artifact d = artifact)"

definition blob_allowed :: "('b, 's) oci_handler \<Rightarrow> http_request \<Rightarrow> string \<Rightarrow> bool" where
  "blob_allowed h r repo \<longleftrightarrow>
     (\<exists>tenant s s'. hr_tenant r = Some tenant \<and>
        run_state (HasRecentAllow (oh_access h) tenant (oci_artifact repo [] [])) s = (Inr True, s'))"

lemma evaluate_manifest_Inr:
  assumes "run_state (evaluate_manifest h w r repo reference) s = (Inr (up, audit, d), s')"
    and "dec_outcome d \<noteq> DecisionDeny"
  shows "manifest_allowed h r up (dec_artifact d)"
proof -
  from assms(1) obtain req s1 tenant where "hr_tenant r = Some tenant"
      "run_state (EvaluateAccess (oh_access h) req) s1 = (Inr d, s')" "req_tenant_id req = tenant" "req_upstream req = up"
    by (auto simp: evaluate_manifest_def NewAccessRequest_def run_recorded Let_def
        split: option.splits prod.splits sum.splits)
  with assms(2) show ?thesis by (auto simp: manifest_allowed_def)
qed

lemma authorize_manifest_Inr:
  "run_state (authorizeManifest h w r audit d) s = (Inr u, s') \<Longrightarrow> dec_outcome d \<noteq> DecisionDeny"
  by (auto simp: authorizeManifest_def run_recorded split: if_splits prod.splits sum.splits)

lemma receive_blob_Inr:
  "run_state (receive_blob h w r repo digest) s = (Inr (tenant, audit), s') \<Longrightarrow> hr_tenant r = Some tenant"
  by (auto simp: receive_blob_def run_recorded Let_def split: option.splits prod.splits sum.splits)

lemma authorize_blob_Inr:
  assumes "run_state (authorizeBlob h w r tenant artifact audit) s = (Inr u, s')"
  shows "\<exists>s'. run_state (HasRecentAllow (oh_access h) tenant artifact) s = (Inr True, s')"
  using assms by (auto simp: authorizeBlob_def run_recorded split: if_splits prod.splits sum.splits)

lemma manifest_client:
  assumes "uc_drain c = uc_drain (oh_upstream h)"
    and "\<And>up a. manifest_allowed h r up a \<Longrightarrow> uc_fetch_metadata c up a = uc_fetch_metadata (oh_upstream h) up a"
  shows "run_state (handleManifest (h\<lparr>oh_upstream := c\<rparr>) w r repo reference) s =
    run_state (handleManifest h w r repo reference) s"
  unfolding handleManifest_def oci_client split_beta
proof (rule or_respond_cong, rule or_respond_cong)
  fix x s1 u s2
  assume e: "run_state (evaluate_manifest h w r repo reference) s = (Inr x, s1)"
    and a: "run_state (authorizeManifest h w r (fst (snd x)) (snd (snd x))) s1 = (Inr u, s2)"
  obtain up audit d where x: "x = (up, audit, d)" by (cases x)
  from evaluate_manifest_Inr [OF e [unfolded x]] authorize_manifest_Inr [OF a] x
  have "manifest_allowed h r up (dec_artifact d)" by simp
  with assms x show "run_state (streamManifest (h\<lparr>oh_upstream := c\<rparr>) w r (fst x) (fst (snd x)) (dec_artifact (snd (snd x)))) s2 =
      run_state (streamManifest h w r (fst x) (fst (snd x)) (dec_artifact (snd (snd x)))) s2"
    by (simp add: streamManifest_def streamResponse_def cong: sum.case_cong)
qed

lemma blob_client:
  assumes "uc_drain c = uc_drain (oh_upstream h)"
    and "\<And>up. blob_allowed h r repo \<Longrightarrow>
      uc_fetch_content c (blobUpstream up repo) digest = uc_fetch_content (oh_upstream h) (blobUpstream up repo) digest"
  shows "run_state (handleBlob (h\<lparr>oh_upstream := c\<rparr>) w r repo digest) s = run_state (handleBlob h w r repo digest) s"
  unfolding handleBlob_def oci_client split_beta
proof (rule or_respond_cong, rule or_respond_cong, rule or_respond_cong)
  fix x s1 u s2 y s3
  assume e: "run_state (receive_blob h w r repo digest) s = (Inr x, s1)"
    and a: "run_state (authorizeBlob h w r (fst x) (oci_artifact repo [] []) (snd x)) s1 = (Inr u, s2)"
  from receive_blob_Inr [of h w r repo digest s "fst x" "snd x"] e have "hr_tenant r = Some (fst x)" by simp
  with authorize_blob_Inr [OF a] have "blob_allowed h r repo" by (auto simp: blob_allowed_def)
  with assms show "run_state (streamBlob (h\<lparr>oh_upstream := c\<rparr>) w r (blobUpstream (fst y) repo) (snd y) digest) s3 =
      run_state (streamBlob h w r (blobUpstream (fst y) repo) (snd y) digest) s3"
    by (simp add: streamBlob_def streamResponse_def cong: sum.case_cong)
qed

lemma oci_error_answers [simp]:
  "open_writer w \<Longrightarrow> hr_method r \<noteq> ''HEAD'' \<Longrightarrow> answered_once (writeOCIError w r code message status)"
  "open_writer w \<Longrightarrow> hr_method r \<noteq> ''HEAD'' \<Longrightarrow> answered_once (oci_audit_unavailable w r)"
  by (simp_all add: open_writer_def answered_once_def writeOCIError_def oci_audit_unavailable_def Let_def)

definition plain_exchange :: "response_writer \<Rightarrow> http_request \<Rightarrow> bool" where
  "plain_exchange w r \<longleftrightarrow> open_writer w \<and> hr_method r \<noteq> ''HEAD''"

lemma evaluate_manifest_answers: "plain_exchange w r \<Longrightarrow> returns (evaluate_manifest h w r repo reference) (step_ok (\<lambda>_. True))"
  unfolding evaluate_manifest_def Let_def
  by (intro returns_rules) (auto simp: plain_exchange_def split: sum.split)

lemma authorize_manifest_answers: "plain_exchange w r \<Longrightarrow> returns (authorizeManifest h w r audit d) (step_ok (\<lambda>_. True))"
  unfolding authorizeManifest_def by (intro returns_rules) (auto simp: plain_exchange_def)

lemma oci_fetch_failed_answers: "plain_exchange w r \<Longrightarrow> returns (oci_fetch_failed h w r audit code nf message err) (step_ok P)"
  unfolding oci_fetch_failed_def by (intro returns_rules) (auto simp: plain_exchange_def)

lemma stream_manifest_answers: "plain_exchange w r \<Longrightarrow> returns (streamManifest h w r up audit artifact) answered_once"
  unfolding streamManifest_def
  by (rule returns_or_respond [where Q = "\<lambda>_. True"])
    (intro returns_rules oci_fetch_failed_answers stream_answers; simp add: plain_exchange_def)+

lemma stream_blob_answers: "plain_exchange w r \<Longrightarrow> returns (streamBlob h w r up audit digest) answered_once"
  unfolding streamBlob_def
  by (rule returns_or_respond [where Q = "\<lambda>_. True"])
    (intro returns_rules oci_fetch_failed_answers stream_answers; simp add: plain_exchange_def)+

lemma blob_steps_answer:
  "plain_exchange w r \<Longrightarrow> returns (receive_blob h w r repo digest) (step_ok (\<lambda>_. True))"
  "plain_exchange w r \<Longrightarrow> returns (authorizeBlob h w r tenant artifact audit) (step_ok (\<lambda>_. True))"
  "plain_exchange w r \<Longrightarrow> returns (forward_blob h w r tenant audit) (step_ok (\<lambda>_. True))"
  unfolding receive_blob_def authorizeBlob_def forward_blob_def Let_def
  by (intro returns_rules; simp add: plain_exchange_def)+

lemma oci_route_answers:
  assumes p: "plain_exchange w r"
  shows "returns (oci_route h r w) answered_once"
proof -
  have m: "returns (handleManifest h w r repo reference) answered_once" for repo reference
    unfolding handleManifest_def split_beta
    by (rule returns_or_respond, rule evaluate_manifest_answers [OF p], rule returns_or_respond,
        rule authorize_manifest_answers [OF p], rule stream_manifest_answers [OF p])
  have b: "returns (handleBlob h w r repo digest) answered_once" for repo digest
    unfolding handleBlob_def split_beta
    by (rule returns_or_respond, rule blob_steps_answer [OF p], rule returns_or_respond, rule blob_steps_answer [OF p],
        rule returns_or_respond, rule blob_steps_answer [OF p], rule stream_blob_answers [OF p])
  from p have "answered_once (versionCheck w)"
    by (simp add: versionCheck_def answered_once_def open_writer_def plain_exchange_def)
  with p show ?thesis unfolding oci_route_def Let_def
    by (auto intro!: returns_if returns_option returns_return m b simp: plain_exchange_def split: prod.split option.split)
qed

section \<open>Properties\<close>

text \<open>C6. The OCI proxy asks its upstream client only for what was allowed: for a manifest that is the artifact of the
  decision, as the pipeline normalized and resolved it, and for a blob it is the requested digest below a repository
  for which the tenant has a recent allow. Two clients that agree there make the proxy behave alike on every request.\<close>

theorem oci_fetches_only_allowed:
  assumes "uc_drain c = uc_drain (oh_upstream h)"
    and "\<And>up a. manifest_allowed h r up a \<Longrightarrow> uc_fetch_metadata c up a = uc_fetch_metadata (oh_upstream h) up a"
    and "\<And>up repo digest. blob_allowed h r repo \<Longrightarrow>
      uc_fetch_content c (blobUpstream up repo) digest = uc_fetch_content (oh_upstream h) (blobUpstream up repo) digest"
  shows "run_state (oci_route (h\<lparr>oh_upstream := c\<rparr>) r w) s = run_state (oci_route h r w) s"
  using manifest_client [OF assms(1,2)] blob_client [OF assms(1,3)]
  by (simp add: oci_route_def Let_def split: option.split prod.split)

definition sample_oci_request :: "string \<Rightarrow> http_request" where
  "sample_oci_request path =
     \<lparr>hr_method = ''GET'', hr_path = path, hr_remote_addr = ''10.0.0.1:1'', hr_host = ''t1.proxy'', hr_tls = True,
      hr_header = (\<lambda>_. []), hr_body = [], hr_tenant = Some ''t1'', hr_upstream_id = None, hr_request_id = Some ''r1''\<rparr>"

definition text_client :: "string \<Rightarrow> (body, unit) upstream_client" where
  "text_client content =
     (let resp = \<lparr>rsp_status_code = 200, rsp_content_type = ''text/plain'', rsp_headers = [], rsp_body = [(content, More)]\<rparr>
      in \<lparr>uc_fetch_metadata = (\<lambda>_ _. State_Monad.return (Inr resp)), uc_fetch_content = (\<lambda>_ _. State_Monad.return (Inr resp)),
          uc_drain = State_Monad.return\<rparr>)"

definition sample_oci_handler :: "policy list \<Rightarrow> (body, unit) oci_handler" where
  "sample_oci_handler ps =
     \<lparr>oh_access = stub_service ps, oh_audit = None, oh_upstream = text_client ''bytes'',
      oh_upstreams = \<lparr>ul_get_by_id = (\<lambda>_ _. State_Monad.return (Inr (req_upstream (sample_request None)))),
        ul_get_by_ecosystem = (\<lambda>_ _. State_Monad.return (Inr (req_upstream (sample_request None))))\<rparr>\<rparr>"

theorem oci_fetches_only_allowed_witness:
  "run_state (oci_route ((sample_oci_handler [(deny_policy ''block'' 1 False)\<lparr>pol_type := ''nonsense''\<rparr>])
       \<lparr>oh_upstream := text_client ''other''\<rparr>) (sample_oci_request ''/v2/library/nginx/blobs/sha256:ab'') fresh_writer) () =
   run_state (oci_route (sample_oci_handler [(deny_policy ''block'' 1 False)\<lparr>pol_type := ''nonsense''\<rparr>])
     (sample_oci_request ''/v2/library/nginx/blobs/sha256:ab'') fresh_writer) ()"
proof (rule oci_fetches_only_allowed)
  let ?h = "sample_oci_handler [(deny_policy ''block'' 1 False)\<lparr>pol_type := ''nonsense''\<rparr>]"
  show "uc_drain (text_client ''other'') = uc_drain (oh_upstream ?h)"
    by (simp add: sample_oci_handler_def text_client_def Let_def)
  have policies: "\<exists>ps e. fst (run_state (acc_list_policies (oh_access ?h) t) s) = Inr ps \<and> ValidatePolicies ps = Inl e" for t s
    using stub_invalid(1) by (auto simp: sample_oci_handler_def stub_service_def isl_def)
  have "\<not> manifest_allowed ?h r up a" for r up a
    using access_invalid_denies [OF policies] by (auto simp: manifest_allowed_def)
  then show "uc_fetch_metadata (text_client ''other'') up a = uc_fetch_metadata (oh_upstream ?h) up a"
    if "manifest_allowed ?h (sample_oci_request ''/v2/library/nginx/blobs/sha256:ab'') up a" for up a
    using that by blast
  have "\<not> blob_allowed ?h r repo" for r repo
    by (simp add: blob_allowed_def HasRecentAllow_def sample_oci_handler_def stub_service_def)
  then show "uc_fetch_content (text_client ''other'') (blobUpstream up repo) digest =
      uc_fetch_content (oh_upstream ?h) (blobUpstream up repo) digest"
    if "blob_allowed ?h (sample_oci_request ''/v2/library/nginx/blobs/sha256:ab'') repo" for up repo digest
    using that by blast
qed

end
