(* ===== verification/Upstream_Clients.thy ===== *)
theory Upstream_Clients
  imports Proxy_Flow
begin

text \<open>
  The clients of the upstream registries (\<open>infra/upstream\<close>): npm (\<open>npm.go\<close>) and OCI (\<open>oci.go\<close>, \<open>oci_requests.go\<close>,
  \<open>oci_auth.go\<close>, \<open>oci_bearer.go\<close>, \<open>oci_headers.go\<close>) with the cache of bearer tokens (\<open>oci_token_cache.go\<close>).

  The transport is a port: \<open>Do\<close> of an HTTP client over an arbitrary world, reading a body to its end and closing it,
  and closing it unread. \<open>url.Parse\<close>, \<open>url.Values\<close>, the JSON codec
  and base64 are arguments. The OCI client runs over the world and its token cache; the mutex makes each cache
  operation one step.
\<close>

section \<open>Transport\<close>

record url_parts =
  url_scheme :: string
  url_host :: string
  url_path :: string

record wire_request =
  wq_method :: string
  wq_url :: string
  wq_parts :: url_parts
  wq_header :: "(string \<times> string) list"

record 'b wire_response =
  wr_status :: int
  wr_header :: "string \<Rightarrow> string"
  wr_body :: 'b

record ('b, 's) transport =
  tr_do :: "wire_request \<Rightarrow> ('s, 'b wire_response result) state"
  tr_read_all :: "'b \<Rightarrow> ('s, body) state"
  tr_close :: "'b \<Rightarrow> ('s, unit) state"
  tr_parse_url :: "string \<Rightarrow> url_parts result"

text \<open>\<open>http.NewRequestWithContext\<close>, which fails when the address does not parse.\<close>

definition new_request :: "('b, 's) transport \<Rightarrow> string \<Rightarrow> string \<Rightarrow> wire_request result" where
  "new_request tr verb address =
     (case tr_parse_url tr address of
        Inl e \<Rightarrow> Inl e
      | Inr parts \<Rightarrow> Inr \<lparr>wq_method = verb, wq_url = address, wq_parts = parts, wq_header = []\<rparr>)"

definition set_request_header :: "string \<Rightarrow> string \<Rightarrow> wire_request \<Rightarrow> wire_request" where
  "set_request_header k v q = q\<lparr>wq_header := AList.update k v (wq_header q)\<rparr>"

definition forwardedResponseHeaders :: "string list" where
  "forwardedResponseHeaders = [''Docker-Content-Digest'', ''Content-Type'', ''Content-Length'', ''ETag'']"

definition extractHeaders :: "'b wire_response \<Rightarrow> (string \<times> string) list" where
  "extractHeaders resp =
     filter (\<lambda>(h, v). v \<noteq> []) (map (\<lambda>h. (h, wr_header resp h)) forwardedResponseHeaders)"

definition newUpstreamResponse :: "'b wire_response \<Rightarrow> 'b upstream_response" where
  "newUpstreamResponse resp =
     \<lparr>rsp_status_code = wr_status resp, rsp_content_type = wr_header resp ''Content-Type'',
      rsp_headers = extractHeaders resp, rsp_body = wr_body resp\<rparr>"

text \<open>\<open>fmt.Errorf("%w: %w", domain.ErrUpstreamUnavailable, err)\<close>\<close>

definition unavailable :: "go_error \<Rightarrow> go_error" where
  "unavailable e =
     \<lparr>err_is = ErrUpstreamUnavailable # err_is e,
      err_text = sentinel_text ErrUpstreamUnavailable @ '': '' @ err_text e\<rparr>"

section \<open>npm\<close>

definition npmPackagePath :: "artifact_identity \<Rightarrow> string" where
  "npmPackagePath artifact =
     (if has_prefix ''@'' (art_namespace artifact) then PathEscape (art_namespace artifact @ ''/'' @ art_name artifact)
      else art_name artifact)"

text \<open>Sending a GET and turning the answer into a response of the port; an unknown artifact is an error.\<close>

definition npm_get :: "('b, 's) transport \<Rightarrow> wire_request \<Rightarrow> ('s, 'b upstream_response result) state" where
  "npm_get tr q =
     do {
       r \<leftarrow> tr_do tr q;
       (case r of
          Inl e \<Rightarrow> State_Monad.return (Inl (unavailable e))
        | Inr resp \<Rightarrow>
            if wr_status resp = 404 then
              do { _ \<leftarrow> tr_close tr (wr_body resp); State_Monad.return (Inl (sentinel_error ErrArtifactNotFound)) }
            else State_Monad.return (Inr (newUpstreamResponse resp)))
     }"

definition npm_metadata_url :: "upstream \<Rightarrow> artifact_identity \<Rightarrow> string" where
  "npm_metadata_url up artifact =
     trim_right (CHR ''/'') (up_base_url up) @ ''/'' @ npmPackagePath artifact @
     (if art_version artifact \<noteq> [] then ''/'' @ art_version artifact else [])"

definition NPMFetchMetadata ::
  "('b, 's) transport \<Rightarrow> upstream \<Rightarrow> artifact_identity \<Rightarrow> ('s, 'b upstream_response result) state" where
  "NPMFetchMetadata tr up artifact =
     (case new_request tr ''GET'' (npm_metadata_url up artifact) of
        Inl e \<Rightarrow> State_Monad.return (Inl (wrap_error ''creating npm manifest request'' e))
      | Inr q \<Rightarrow> npm_get tr (set_request_header ''Accept'' ''application/json'' q))"

definition NPMFetchContent ::
  "('b, 's) transport \<Rightarrow> upstream \<Rightarrow> string \<Rightarrow> ('s, 'b upstream_response result) state" where
  "NPMFetchContent tr up digest =
     (case new_request tr ''GET'' (trim_right (CHR ''/'') (up_base_url up) @ ''/'' @ digest) of
        Inl e \<Rightarrow> State_Monad.return (Inl (wrap_error ''creating npm tarball request'' e))
      | Inr q \<Rightarrow> npm_get tr q)"

text \<open>The three dependency maps of a manifest, decoded by the codec; the names in the order of the maps.\<close>

definition ListManifestDependencyNames ::
  "('b, 's) transport \<Rightarrow> (body \<Rightarrow> (string list \<times> string list \<times> string list) result) \<Rightarrow> upstream \<Rightarrow> artifact_identity \<Rightarrow>
   ('s, string list result) state" where
  "ListManifestDependencyNames tr decode up artifact =
     (if trim_space (art_version artifact) = [] then
        State_Monad.return (Inl (plain_error ''listing npm manifest dependencies: version is required''))
      else
        on_ok (NPMFetchMetadata tr up artifact)
          (\<lambda>resp. do {
             b \<leftarrow> tr_read_all tr (rsp_body resp);
             State_Monad.return
               (if rsp_status_code resp \<noteq> 200 then
                  Inl (plain_error (''listing npm manifest dependencies: unexpected status '' @ show_int (rsp_status_code resp)))
                else (case decode b of
                    Inl e \<Rightarrow> Inl (wrap_error ''decoding npm manifest'' e)
                  | Inr (deps, optional, peer) \<Rightarrow> Inr (deps @ optional @ peer)))
           }))"

definition NPMResolveReference ::
  "('b, 's) transport \<Rightarrow> (body \<Rightarrow> (string \<times> string) list result) \<Rightarrow> upstream \<Rightarrow> artifact_identity \<Rightarrow>
   ('s, string result) state" where
  "NPMResolveReference tr decode up artifact =
     (case new_request tr ''GET'' (trim_right (CHR ''/'') (up_base_url up) @ ''/'' @ npmPackagePath artifact) of
        Inl e \<Rightarrow> State_Monad.return (Inl (wrap_error ''creating npm tag resolve request'' e))
      | Inr q \<Rightarrow>
          do {
            r \<leftarrow> tr_do tr (set_request_header ''Accept'' ''application/json'' q);
            (case r of
               Inl e \<Rightarrow> State_Monad.return (Inl (unavailable e))
             | Inr resp \<Rightarrow>
                 do {
                   b \<leftarrow> tr_read_all tr (wr_body resp);
                   State_Monad.return
                     (if wr_status resp = 404 then Inl (sentinel_error ErrArtifactNotFound)
                      else (case decode b of
                          Inl e \<Rightarrow> Inl (wrap_error ''decoding npm metadata'' e)
                        | Inr distTags \<Rightarrow>
                            (let tag = (if art_version artifact = [] then ''latest'' else art_version artifact)
                             in case map_of distTags tag of
                                  None \<Rightarrow> Inl (plain_error (''dist-tag '' @ quote tag @ '' not found in package metadata''))
                                | Some version \<Rightarrow> Inr version)))
                 })
          })"

section \<open>The token cache\<close>

definition defaultBearerTokenCacheMaxEntries :: nat where "defaultBearerTokenCacheMaxEntries = 128"
definition defaultBearerTokenTTL :: duration where "defaultBearerTokenTTL = Minute"
definition bearerTokenExpirySkew :: duration where "bearerTokenExpirySkew = 15 * 1000000000"

record cached_token =
  ct_token :: string
  ct_expires_at :: time

record token_cache =
  tc_max_entries :: nat
  tc_entries :: "(string \<times> cached_token) list"

definition newBearerTokenCache :: "int \<Rightarrow> token_cache" where
  "newBearerTokenCache maxEntries =
     \<lparr>tc_max_entries = (if maxEntries \<le> 0 then defaultBearerTokenCacheMaxEntries else nat maxEntries), tc_entries = []\<rparr>"

definition TokenGet :: "time \<Rightarrow> string \<Rightarrow> token_cache \<Rightarrow> string option \<times> token_cache" where
  "TokenGet now key c =
     (if key = [] then (None, c)
      else (case map_of (tc_entries c) key of
          None \<Rightarrow> (None, c)
        | Some entry \<Rightarrow>
            if \<not> now < ct_expires_at entry then (None, c\<lparr>tc_entries := AList.delete key (tc_entries c)\<rparr>)
            else (Some (ct_token entry), c)))"

definition TokenSet :: "time \<Rightarrow> string \<Rightarrow> string \<Rightarrow> duration \<Rightarrow> token_cache \<Rightarrow> token_cache" where
  "TokenSet now key token ttl0 c =
     (if key = [] \<or> token = [] then c
      else
        (let ttl = (if ttl0 \<le> 0 then defaultBearerTokenTTL else ttl0);
             live = (if tc_max_entries c \<le> length (tc_entries c)
                     then filter (\<lambda>(_, e). now < ct_expires_at e) (tc_entries c) else tc_entries c);
             room = (if tc_max_entries c \<le> length live then [] else live);
             expiresAt = (if bearerTokenExpirySkew < ttl then now + ttl - bearerTokenExpirySkew else now + ttl)
         in c\<lparr>tc_entries := AList.update key \<lparr>ct_token = token, ct_expires_at = expiresAt\<rparr> room\<rparr>))"

text \<open>The repository of a registry path: what stands before the first marker.\<close>

definition repositoryFromOCIPath :: "string \<Rightarrow> string option" where
  "repositoryFromOCIPath path =
     (if \<not> has_prefix ''/v2/'' path then None
      else
        (let after = trim_prefix ''/v2/'' path;
             before = (\<lambda>marker. case cut_str marker after of
                         Some (repository, _) \<Rightarrow> if repository \<noteq> [] then Some repository else None | None \<Rightarrow> None)
         in case before ''/manifests/'' of Some r \<Rightarrow> Some r | None \<Rightarrow> before ''/blobs/''))"

definition bearerTokenCacheKey :: "url_parts \<Rightarrow> upstream \<Rightarrow> string option" where
  "bearerTokenCacheKey url up =
     (if (case up_auth up of None \<Rightarrow> False | Some a \<Rightarrow> auth_type a = UpstreamAuthBearerToken) then None
      else (case repositoryFromOCIPath (url_path url) of
          None \<Rightarrow> None
        | Some repository \<Rightarrow>
            (let principal = (case up_auth up of None \<Rightarrow> ''anonymous'' | Some a \<Rightarrow> auth_type a @ '':'' @ auth_username a)
             in Some (up_tenant_id up @ ''|'' @ up_id up @ ''|'' @ url_scheme url @ ''://'' @ url_host url @ ''|'' @
                  repository @ ''|'' @ principal))))"

section \<open>Bearer challenges\<close>

definition letter :: "char \<Rightarrow> bool" where
  "letter c \<longleftrightarrow> (65 \<le> byte c \<and> byte c \<le> 90) \<or> (97 \<le> byte c \<and> byte c \<le> 122)"

text \<open>All leftmost matches of \<open>([A-Za-z]+)="([^"]*)"\<close>: a run of letters that is not followed by the assignment cannot
  match from any of its letters.\<close>

function challenge_params :: "string \<Rightarrow> (string \<times> string) list" where
  "challenge_params s =
     (case s of
        [] \<Rightarrow> []
      | c # cs \<Rightarrow>
          if \<not> letter c then challenge_params cs
          else
            (let rest = dropWhile letter cs
             in if \<not> has_prefix [CHR ''='', CHR 0x22] rest then challenge_params rest
                else (case dropWhile (\<lambda>x. x \<noteq> CHR 0x22) (drop 2 rest) of
                    [] \<Rightarrow> []
                  | _ # later \<Rightarrow>
                      (c # takeWhile letter cs, takeWhile (\<lambda>x. x \<noteq> CHR 0x22) (drop 2 rest)) #
                      challenge_params later)))"
  by pat_completeness auto
termination
proof (relation "measure length")
  fix s :: string and c cs rest x later
  assume s: "s = c # cs" and rest: "rest = dropWhile letter cs"
    and d: "dropWhile (\<lambda>x. x \<noteq> CHR 0x22) (drop 2 rest) = x # later"
  have "length (x # later) \<le> length (drop 2 rest)" unfolding d [symmetric] by (rule length_dropWhile_le)
  also have "\<dots> \<le> length rest" by simp
  also have "\<dots> \<le> length cs" unfolding rest by (rule length_dropWhile_le)
  finally show "(later, s) \<in> measure length" using s by simp
qed (auto simp: le_imp_less_Suc length_dropWhile_le)

declare challenge_params.simps [simp del]

definition parseBearerChallenge :: "string \<Rightarrow> (string \<times> string) list option" where
  "parseBearerChallenge challenge0 =
     (let challenge = trim_space challenge0
      in if challenge = [] \<or> \<not> has_prefix ''bearer '' (to_lower challenge) then None
         else
           (let matches = challenge_params challenge
            in if matches = [] then None
               else Some (fold (\<lambda>(k, v). AList.update (to_lower k) v) matches [])))"

record token_payload =
  tp_token :: string
  tp_access_token :: string
  tp_expires_in :: int

text \<open>A product of \<open>int64\<close> values wraps around.\<close>

definition wrap_int64 :: "int \<Rightarrow> int" where
  "wrap_int64 i = (i + 2 ^ 63) mod 2 ^ 64 - 2 ^ 63"

definition bearerTokenValue :: "token_payload \<Rightarrow> (string \<times> duration) result" where
  "bearerTokenValue payload =
     (let ttl = (if 0 < tp_expires_in payload then wrap_int64 (tp_expires_in payload * 1000000000) else defaultBearerTokenTTL)
      in if tp_token payload \<noteq> [] then Inr (tp_token payload, ttl)
         else if tp_access_token payload \<noteq> [] then Inr (tp_access_token payload, ttl)
         else Inl (plain_error ''bearer token response missing token''))"

section \<open>OCI\<close>

record ('b, 's) oci_client =
  oc_transport :: "('b, 's) transport"
  oc_secret_resolver :: "(string \<Rightarrow> string result) option"
  oc_now :: "'s \<Rightarrow> time"
  oc_base64 :: "string \<Rightarrow> string"
  oc_token_url :: "string \<Rightarrow> (string \<times> string) list \<Rightarrow> string result"
  oc_decode_token :: "body \<Rightarrow> token_payload result"

text \<open>An operation of the transport, beside the token cache.\<close>

definition outside :: "('s, 'a) state \<Rightarrow> ('s \<times> token_cache, 'a) state" where
  "outside m = State (\<lambda>(s, c). case run_state m s of (a, s') \<Rightarrow> (a, (s', c)))"

definition cached_token :: "('b, 's) oci_client \<Rightarrow> string \<Rightarrow> ('s \<times> token_cache, string option) state" where
  "cached_token client key = State (\<lambda>(s, c). case TokenGet (oc_now client s) key c of (t, c') \<Rightarrow> (t, (s, c')))"

definition cache_token :: "('b, 's) oci_client \<Rightarrow> string \<Rightarrow> string \<Rightarrow> duration \<Rightarrow> ('s \<times> token_cache, unit) state" where
  "cache_token client key token ttl = State (\<lambda>(s, c). ((), (s, TokenSet (oc_now client s) key token ttl c)))"

definition resolveAuthSecret :: "('b, 's) oci_client \<Rightarrow> upstream_auth \<Rightarrow> string result" where
  "resolveAuthSecret client auth =
     (if auth_secret auth = [] then Inr []
      else (case oc_secret_resolver client of
          None \<Rightarrow> Inr (auth_secret auth)
        | Some resolve \<Rightarrow> map_error (wrap_error ''resolving upstream auth secret'') (resolve (auth_secret auth))))"

definition basic_auth :: "('b, 's) oci_client \<Rightarrow> upstream_auth \<Rightarrow> string \<Rightarrow> wire_request \<Rightarrow> wire_request" where
  "basic_auth client auth secret q =
     set_request_header ''Authorization'' (''Basic '' @ oc_base64 client (auth_username auth @ '':'' @ secret)) q"

definition applyRegistryAuth ::
  "('b, 's) oci_client \<Rightarrow> upstream_auth option \<Rightarrow> wire_request \<Rightarrow> wire_request result" where
  "applyRegistryAuth client auth0 q =
     (case auth0 of
        None \<Rightarrow> Inr q
      | Some auth \<Rightarrow>
          (case resolveAuthSecret client auth of
             Inl e \<Rightarrow> Inl e
           | Inr secret \<Rightarrow>
               Inr (if auth_type auth = UpstreamAuthBearerToken
                    then set_request_header ''Authorization'' (''Bearer '' @ secret) q
                    else if auth_type auth = UpstreamAuthBasic then basic_auth client auth secret q
                    else q)))"

definition token_request ::
  "('b, 's) oci_client \<Rightarrow> (string \<times> string) list \<Rightarrow> upstream_auth option \<Rightarrow> wire_request result" where
  "token_request client params auth0 =
     (case map_of params ''realm'' of
        None \<Rightarrow> Inl (plain_error ''bearer challenge missing realm'')
      | Some realm \<Rightarrow>
          if realm = [] then Inl (plain_error ''bearer challenge missing realm'')
          else
            (let added = filter (\<lambda>(k, v). v \<noteq> [])
               (map (\<lambda>k. (k, case map_of params k of None \<Rightarrow> [] | Some v \<Rightarrow> v)) [''service'', ''scope''])
             in case oc_token_url client realm added of
                  Inl e \<Rightarrow> Inl (wrap_error ''parsing bearer token realm'' e)
                | Inr address \<Rightarrow>
                    (case new_request (oc_transport client) ''GET'' address of
                       Inl e \<Rightarrow> Inl (wrap_error ''creating bearer token request'' e)
                     | Inr q \<Rightarrow>
                         (case auth0 of
                            Some auth \<Rightarrow>
                              if auth_type auth = UpstreamAuthBasic then
                                (case resolveAuthSecret client auth of
                                   Inl e \<Rightarrow> Inl e
                                 | Inr secret \<Rightarrow> Inr (basic_auth client auth secret q))
                              else Inr q
                          | None \<Rightarrow> Inr q))))"

definition requestBearerToken ::
  "('b, 's) oci_client \<Rightarrow> (string \<times> string) list \<Rightarrow> upstream_auth option \<Rightarrow> ('s, token_payload result) state" where
  "requestBearerToken client params auth =
     (case token_request client params auth of
        Inl e \<Rightarrow> State_Monad.return (Inl e)
      | Inr q \<Rightarrow>
          on_ok (tr_do (oc_transport client) q)
            (\<lambda>resp. do {
               b \<leftarrow> tr_read_all (oc_transport client) (wr_body resp);
               State_Monad.return
                 (if wr_status resp \<noteq> 200
                  then Inl (plain_error (''unexpected bearer token status: '' @ show_int (wr_status resp)))
                  else map_error (wrap_error ''decoding bearer token response'') (oc_decode_token client b))
             }))"

definition fetchBearerToken ::
  "('b, 's) oci_client \<Rightarrow> string \<Rightarrow> upstream_auth option \<Rightarrow> ('s, (string \<times> duration) option result) state" where
  "fetchBearerToken client challenge auth =
     (case parseBearerChallenge challenge of
        None \<Rightarrow> State_Monad.return (Inr None)
      | Some params \<Rightarrow>
          on_ok (requestBearerToken client params auth)
            (\<lambda>payload. State_Monad.return (case bearerTokenValue payload of Inl e \<Rightarrow> Inl e | Inr t \<Rightarrow> Inr (Some t))))"

definition authorize_request ::
  "('b, 's) oci_client \<Rightarrow> upstream \<Rightarrow> wire_request \<Rightarrow> ('s \<times> token_cache, wire_request result) state" where
  "authorize_request client up q =
     (case bearerTokenCacheKey (wq_parts q) up of
        None \<Rightarrow> State_Monad.return (applyRegistryAuth client (up_auth up) q)
      | Some key \<Rightarrow>
          do {
            cached \<leftarrow> cached_token client key;
            State_Monad.return
              (case cached of
                 Some token \<Rightarrow> Inr (set_request_header ''Authorization'' (''Bearer '' @ token) q)
               | None \<Rightarrow> applyRegistryAuth client (up_auth up) q)
          })"

text \<open>The second attempt, with a fresh token, which is cached when the registry takes it.\<close>

definition retry_request ::
  "('b, 's) oci_client \<Rightarrow> upstream \<Rightarrow> wire_request \<Rightarrow> string \<Rightarrow> duration \<Rightarrow>
   ('s \<times> token_cache, 'b wire_response result) state" where
  "retry_request client up q token ttl =
     on_ok (outside (tr_do (oc_transport client) (set_request_header ''Authorization'' (''Bearer '' @ token) q)))
       (\<lambda>resp. do {
          _ \<leftarrow> (case bearerTokenCacheKey (wq_parts q) up of
                 Some key \<Rightarrow>
                   if wr_status resp \<noteq> 401 then cache_token client key token ttl else State_Monad.return ()
               | None \<Rightarrow> State_Monad.return ());
          State_Monad.return (Inr resp)
        })"

definition doOCIRequest ::
  "('b, 's) oci_client \<Rightarrow> upstream \<Rightarrow> wire_request \<Rightarrow> ('s \<times> token_cache, 'b wire_response result) state" where
  "doOCIRequest client up q0 =
     on_ok (authorize_request client up q0)
       (\<lambda>q. on_ok (outside (tr_do (oc_transport client) q))
         (\<lambda>resp.
            if wr_status resp \<noteq> 401 then State_Monad.return (Inr resp)
            else
              do {
                fetched \<leftarrow> outside (fetchBearerToken client (wr_header resp ''WWW-Authenticate'') (up_auth up));
                (case fetched of
                   Inl e \<Rightarrow> do { _ \<leftarrow> outside (tr_close (oc_transport client) (wr_body resp)); State_Monad.return (Inl e) }
                 | Inr None \<Rightarrow> State_Monad.return (Inr resp)
                 | Inr (Some (token, ttl)) \<Rightarrow>
                     do {
                       _ \<leftarrow> outside (tr_close (oc_transport client) (wr_body resp));
                       retry_request client up q token ttl
                     })
              }))"

definition repoPath :: "artifact_identity \<Rightarrow> string" where
  "repoPath artifact =
     (if art_namespace artifact \<noteq> [] then art_namespace artifact @ ''/'' @ art_name artifact else art_name artifact)"

definition ociManifestURL :: "upstream \<Rightarrow> artifact_identity \<Rightarrow> string \<Rightarrow> string" where
  "ociManifestURL up artifact ref =
     trim_right (CHR ''/'') (up_base_url up) @ ''/v2/'' @ repoPath artifact @ ''/manifests/'' @ ref"

definition ociAcceptHeaders :: string where
  "ociAcceptHeaders = join '', ''
     [''application/vnd.oci.image.manifest.v1+json'', ''application/vnd.docker.distribution.manifest.v2+json'',
      ''application/vnd.oci.image.index.v1+json'', ''application/vnd.docker.distribution.manifest.list.v2+json'']"

definition executeOCIGet ::
  "('b, 's) oci_client \<Rightarrow> upstream \<Rightarrow> string \<Rightarrow> ('s \<times> token_cache, 'b upstream_response result) state" where
  "executeOCIGet client up address =
     (case new_request (oc_transport client) ''GET'' address of
        Inl e \<Rightarrow> State_Monad.return (Inl (wrap_error ''creating GET request'' e))
      | Inr q0 \<Rightarrow>
          (let q = (if contains ''/manifests/'' (url_path (wq_parts q0))
                    then set_request_header ''Accept'' ociAcceptHeaders q0 else q0)
           in do {
                r \<leftarrow> doOCIRequest client up q;
                (case r of
                   Inl e \<Rightarrow> State_Monad.return (Inl (unavailable e))
                 | Inr resp \<Rightarrow>
                     if wr_status resp = 404 then
                       do {
                         _ \<leftarrow> outside (tr_close (oc_transport client) (wr_body resp));
                         State_Monad.return (Inl (sentinel_error ErrArtifactNotFound))
                       }
                     else State_Monad.return (Inr (newUpstreamResponse resp)))
              }))"

definition OCIFetchMetadata ::
  "('b, 's) oci_client \<Rightarrow> upstream \<Rightarrow> artifact_identity \<Rightarrow> ('s \<times> token_cache, 'b upstream_response result) state" where
  "OCIFetchMetadata client up artifact =
     executeOCIGet client up
       (ociManifestURL up artifact (if art_digest artifact = [] then art_version artifact else art_digest artifact))"

definition OCIFetchContent ::
  "('b, 's) oci_client \<Rightarrow> upstream \<Rightarrow> string \<Rightarrow> ('s \<times> token_cache, 'b upstream_response result) state" where
  "OCIFetchContent client up digest =
     executeOCIGet client up (trim_right (CHR ''/'') (up_base_url up) @ ''/blobs/'' @ digest)"

text \<open>Resolving a tag: the digest header of a HEAD request, or of a GET request when that fails.\<close>

definition resolve_tag ::
  "('b, 's) oci_client \<Rightarrow> upstream \<Rightarrow> string \<Rightarrow> ('b \<Rightarrow> ('s, unit) state) \<Rightarrow> string \<Rightarrow>
   ('s \<times> token_cache, string result) state" where
  "resolve_tag client up verb finish address =
     (case new_request (oc_transport client) verb address of
        Inl e \<Rightarrow> State_Monad.return (Inl (wrap_error (''creating '' @ verb @ '' request'') e))
      | Inr q \<Rightarrow>
          do {
            r \<leftarrow> doOCIRequest client up (set_request_header ''Accept'' ociAcceptHeaders q);
            (case r of
               Inl e \<Rightarrow> State_Monad.return (Inl (unavailable e))
             | Inr resp \<Rightarrow>
                 do {
                   _ \<leftarrow> outside (finish (wr_body resp));
                   State_Monad.return
                     (if wr_status resp = 404 then Inl (sentinel_error ErrArtifactNotFound)
                      else
                        (let digest = wr_header resp ''Docker-Content-Digest''
                         in if digest = [] then Inl (plain_error (''no Docker-Content-Digest header in '' @ verb @ '' response''))
                            else Inr digest))
                 })
          })"

definition resolveTagHead ::
  "('b, 's) oci_client \<Rightarrow> upstream \<Rightarrow> string \<Rightarrow> ('s \<times> token_cache, string result) state" where
  "resolveTagHead client up address = resolve_tag client up ''HEAD'' (tr_close (oc_transport client)) address"

definition resolveTagGet ::
  "('b, 's) oci_client \<Rightarrow> upstream \<Rightarrow> string \<Rightarrow> ('s \<times> token_cache, string result) state" where
  "resolveTagGet client up address =
     resolve_tag client up ''GET'' (\<lambda>b. do { _ \<leftarrow> tr_read_all (oc_transport client) b; State_Monad.return () }) address"

definition OCIResolveReference ::
  "('b, 's) oci_client \<Rightarrow> upstream \<Rightarrow> artifact_identity \<Rightarrow> ('s \<times> token_cache, string result) state" where
  "OCIResolveReference client up artifact =
     (let address = ociManifestURL up artifact (art_version artifact)
      in do {
           r \<leftarrow> resolveTagHead client up address;
           (case r of
              Inr digest \<Rightarrow>
                if digest \<noteq> [] then State_Monad.return (Inr digest) else resolveTagGet client up address
            | Inl _ \<Rightarrow> resolveTagGet client up address)
         })"

section \<open>Lemmas\<close>

lemma run_outside: "run_state (outside m) (s, c) = (fst (run_state m s), (snd (run_state m s), c))"
  by (simp add: outside_def split_beta)

text \<open>The cache keeps one entry per key and never more than its limit.\<close>

definition token_cache_ok :: "token_cache \<Rightarrow> bool" where
  "token_cache_ok c \<longleftrightarrow>
     0 < tc_max_entries c \<and> length (tc_entries c) \<le> tc_max_entries c \<and> distinct (map fst (tc_entries c))"

lemma distinct_fst_filter: "distinct (map fst xs) \<Longrightarrow> distinct (map fst (filter P xs))"
  by (induction xs) auto

lemma distinct_fst_delete: "distinct (map fst xs) \<Longrightarrow> distinct (map fst (AList.delete k xs))"
  by (simp add: AList.delete_eq distinct_fst_filter)

lemma length_update: "length (AList.update k v xs) \<le> Suc (length xs)"
  by (induction xs) auto

lemma TokenGet_ok: "token_cache_ok c \<Longrightarrow> token_cache_ok (snd (TokenGet now key c))"
  by (auto simp: token_cache_ok_def TokenGet_def distinct_fst_delete AList.delete_eq distinct_fst_filter
      intro: order_trans [OF length_filter_le] split: option.split)

lemma TokenSet_ok: "token_cache_ok c \<Longrightarrow> token_cache_ok (TokenSet now key token ttl c)"
proof -
  assume c: "token_cache_ok c"
  define live where "live = (if tc_max_entries c \<le> length (tc_entries c)
    then filter (\<lambda>(_, e). now < ct_expires_at e) (tc_entries c) else tc_entries c)"
  define room where "room = (if tc_max_entries c \<le> length live then [] else live)"
  from c have "distinct (map fst live)" by (simp add: live_def token_cache_ok_def distinct_fst_filter)
  then have d: "distinct (map fst room)" by (simp add: room_def)
  from c have "length room < tc_max_entries c" by (simp add: room_def token_cache_ok_def)
  then have "length (AList.update key e room) \<le> tc_max_entries c" for e :: cached_token
    using length_update [of key e room] by linarith
  with c d show ?thesis
    by (simp add: TokenSet_def Let_def token_cache_ok_def live_def [symmetric] room_def [symmetric] distinct_update)
qed

lemma map_of_filter_ran: "map_of (filter P xs) k = Some v \<Longrightarrow> distinct (map fst xs) \<Longrightarrow> map_of xs k = Some v"
  by (induction xs) (auto simp: map_of_eq_None_iff rev_image_eqI split: if_splits dest: map_of_SomeD)

lemma TokenGet_Some: "fst (TokenGet now key c) = Some t \<longleftrightarrow>
    key \<noteq> [] \<and> (\<exists>e. map_of (tc_entries c) key = Some e \<and> now < ct_expires_at e \<and> ct_token e = t)"
  by (auto simp: TokenGet_def split: option.split)

lemma TokenSet_other:
  assumes "distinct (map fst (tc_entries c))" "k \<noteq> key" "map_of (tc_entries (TokenSet now key token ttl c)) k = Some e"
  shows "map_of (tc_entries c) k = Some e"
  using assms map_of_filter_ran [OF _ assms(1)]
  by (auto simp: TokenSet_def Let_def update_conv' split: if_splits)

text \<open>The parts of a key before the repository are separated by a byte that identifiers, schemes and hosts do not
  contain.\<close>

definition key_scope :: "url_parts \<Rightarrow> upstream \<Rightarrow> string list" where
  "key_scope url up = [up_tenant_id up, up_id up, url_scheme url @ ''://'' @ url_host url]"

definition plain_scope :: "url_parts \<Rightarrow> upstream \<Rightarrow> bool" where
  "plain_scope url up \<longleftrightarrow> (\<forall>p \<in> set (key_scope url up). CHR ''|'' \<notin> set p)"

lemma bearer_key_scope:
  assumes "bearerTokenCacheKey url up = Some k"
  obtains rest where "k = up_tenant_id up @ ''|'' @ up_id up @ ''|'' @ (url_scheme url @ ''://'' @ url_host url) @ ''|'' @ rest"
  using assms by (auto simp: bearerTokenCacheKey_def Let_def split: if_splits option.splits)

lemma bar_split:
  "a @ CHR ''|'' # x = b @ CHR ''|'' # y \<Longrightarrow> CHR ''|'' \<notin> set a \<Longrightarrow> CHR ''|'' \<notin> set b \<Longrightarrow> a = b \<and> x = y"
  by (rule append_eq_split_char)

lemma bearer_key_inject:
  assumes "bearerTokenCacheKey url up = Some k" "bearerTokenCacheKey url' up' = Some k"
    and "plain_scope url up" "plain_scope url' up'"
  shows "key_scope url up = key_scope url' up'"
proof -
  from assms(1,2) obtain r r' where
    "up_tenant_id up @ ''|'' @ up_id up @ ''|'' @ (url_scheme url @ ''://'' @ url_host url) @ ''|'' @ r =
     up_tenant_id up' @ ''|'' @ up_id up' @ ''|'' @ (url_scheme url' @ ''://'' @ url_host url') @ ''|'' @ r'"
    by (metis bearer_key_scope)
  then have "up_tenant_id up @ CHR ''|'' # up_id up @ CHR ''|'' # (url_scheme url @ ''://'' @ url_host url) @ CHR ''|'' # r =
     up_tenant_id up' @ CHR ''|'' # up_id up' @ CHR ''|'' # (url_scheme url' @ ''://'' @ url_host url') @ CHR ''|'' # r'"
    by simp
  with assms(3,4) show ?thesis
    unfolding key_scope_def plain_scope_def
    by (metis bar_split list.set_intros)
qed

subsection \<open>The number of requests\<close>

text \<open>\<open>sent\<close> reads a counter of the world; the operation raises it by at most \<open>n\<close>.\<close>

definition costs :: "('w \<Rightarrow> nat) \<Rightarrow> ('w, 'a) state \<Rightarrow> nat \<Rightarrow> bool" where
  "costs sent m n \<longleftrightarrow> (\<forall>s. sent (snd (run_state m s)) \<le> sent s + n)"

lemma costs_return: "costs sent (State_Monad.return a) n"
  by (simp add: costs_def)

lemma costs_mono: "costs sent m a \<Longrightarrow> a \<le> b \<Longrightarrow> costs sent m b"
  by (auto simp: costs_def intro: order_trans)

lemma costs_bind:
  assumes "costs sent m a" "\<And>x. costs sent (f x) b"
  shows "costs sent (m \<bind> f) (a + b)"
  unfolding costs_def
proof
  fix s
  obtain x s1 where m: "run_state m s = (x, s1)" by (cases "run_state m s")
  from assms(1) have "sent s1 \<le> sent s + a" unfolding costs_def by (metis m snd_conv)
  moreover from assms(2) have "sent (snd (run_state (f x) s1)) \<le> sent s1 + b" by (simp add: costs_def)
  ultimately show "sent (snd (run_state (m \<bind> f) s)) \<le> sent s + (a + b)" by (simp add: m)
qed

lemma costs_sum:
  "(\<And>e. costs sent (f e) n) \<Longrightarrow> (\<And>a. costs sent (g a) n) \<Longrightarrow>
   costs sent (case r of Inl e \<Rightarrow> f e | Inr a \<Rightarrow> g a) n"
  by (simp split: sum.split)

lemma costs_on_ok:
  assumes "costs sent m a" "\<And>x. costs sent (f x) b"
  shows "costs sent (on_ok m f) (a + b)"
  unfolding on_ok_def by (rule costs_bind [OF assms(1)]) (rule costs_sum [OF costs_return assms(2)])

lemma costs_outside: "costs sent m n \<Longrightarrow> costs (\<lambda>(s, c). sent s) (outside m) n"
  by (auto simp: costs_def run_outside)

definition counted :: "('s \<Rightarrow> nat) \<Rightarrow> ('b, 's) transport \<Rightarrow> bool" where
  "counted sent tr \<longleftrightarrow> (\<forall>q. costs sent (tr_do tr q) 1) \<and> (\<forall>b. costs sent (tr_read_all tr b) 0) \<and>
     (\<forall>b. costs sent (tr_close tr b) 0)"

lemma cache_costs:
  "costs (\<lambda>(s, c). sent s) (cached_token client key) 0" "costs (\<lambda>(s, c). sent s) (cache_token client key t ttl) 0"
  "costs (\<lambda>(s, c). sent s) (authorize_request client up q) 0"
proof -
  show c: "costs (\<lambda>(s, c). sent s) (cached_token client key) 0" for key
    by (auto simp: costs_def cached_token_def split: prod.split)
  show "costs (\<lambda>(s, c). sent s) (cache_token client key t ttl) 0"
    by (auto simp: costs_def cache_token_def)
  show "costs (\<lambda>(s, c). sent s) (authorize_request client up q) 0"
    using costs_bind [OF c costs_return, of _ _ 0]
    by (auto simp: authorize_request_def costs_return split: option.split)
qed

lemma token_costs:
  assumes "counted sent (oc_transport client)"
  shows "costs sent (fetchBearerToken client challenge auth) 1"
proof -
  have "costs sent (requestBearerToken client params auth) 1" for params
    unfolding requestBearerToken_def
    using costs_on_ok [of sent _ 1 _ 0] costs_bind [of sent _ 0 _ 0] assms
    by (auto simp: counted_def costs_return intro!: costs_sum costs_on_ok [where a = 1 and b = 0, simplified]
        costs_bind [where a = 0 and b = 0, simplified])
  then show ?thesis unfolding fetchBearerToken_def
    by (auto simp: costs_return intro!: costs_on_ok [where a = 1 and b = 0, simplified] split: option.split)
qed

lemma retry_costs:
  assumes "counted sent (oc_transport client)"
  shows "costs (\<lambda>(s, c). sent s) (retry_request client up q token ttl) 1"
  unfolding retry_request_def using assms
  by (auto simp: counted_def costs_return cache_costs intro!: costs_outside costs_on_ok [where a = 1 and b = 0, simplified]
      costs_bind [where a = 0 and b = 0, simplified] split: option.split)

lemma request_costs:
  fixes client :: "('b, 's) oci_client"
  assumes "counted sent (oc_transport client)"
  shows "costs (\<lambda>(s, c). sent s) (doOCIRequest client up q) 3"
proof -
  have close: "costs (\<lambda>(s, c). sent s) (outside (tr_close (oc_transport client) b)) 0" for b
    using assms by (auto simp: counted_def intro: costs_outside)
  have retry: "costs (\<lambda>(s, c). sent s) (do { _ \<leftarrow> outside (tr_close (oc_transport client) b); retry_request client up q' t ttl }) 1" for b q' t ttl
    using costs_bind [OF close retry_costs [OF assms]] by simp
  have stop: "costs (\<lambda>(s, c). sent s) (do { _ \<leftarrow> outside (tr_close (oc_transport client) b); State_Monad.return x }) 1" for b x
    using costs_bind [OF close costs_return [of _ _ 1]] by simp
  have step: "costs (\<lambda>(s, c). sent s) (outside (fetchBearerToken client ch (up_auth up)) \<bind> f) 2"
    if "\<And>x. costs (\<lambda>(s, c). sent s) (f x) 1"
    for ch and f :: "(string \<times> int) option result \<Rightarrow> ('s \<times> token_cache, 'b wire_response result) state"
    using costs_bind [OF costs_outside [OF token_costs [OF assms]] that] by (simp add: numeral_2_eq_2)
  have answer: "costs (\<lambda>(s, c). sent s) (if wr_status resp \<noteq> 401 then State_Monad.return (Inr resp) else
      do { fetched \<leftarrow> outside (fetchBearerToken client (wr_header resp ''WWW-Authenticate'') (up_auth up));
        (case fetched of
           Inl e \<Rightarrow> do { _ \<leftarrow> outside (tr_close (oc_transport client) (wr_body resp)); State_Monad.return (Inl e) }
         | Inr None \<Rightarrow> State_Monad.return (Inr resp)
         | Inr (Some (token, ttl)) \<Rightarrow>
             do { _ \<leftarrow> outside (tr_close (oc_transport client) (wr_body resp)); retry_request client up q' token ttl }) }) 2"
    for resp q'
    by (auto simp: costs_return simp del: One_nat_def intro!: step stop retry split: sum.split option.split)
  have "costs (\<lambda>(s, c). sent s) (outside (tr_do (oc_transport client) q')) 1" for q'
    using assms by (auto simp: counted_def intro: costs_outside)
  then have "costs (\<lambda>(s, c). sent s) (doOCIRequest client up q) (0 + (1 + 2))"
    unfolding doOCIRequest_def by (intro costs_on_ok cache_costs answer)
  then show ?thesis by (simp add: numeral_3_eq_3)
qed

lemma resolve_costs:
  fixes client :: "('b, 's) oci_client"
  assumes c: "counted sent (oc_transport client)" and f: "\<And>b. costs sent (finish b) 0"
  shows "costs (\<lambda>(s, c). sent s) (resolve_tag client up verb finish address) 3"
proof -
  have last: "costs (\<lambda>(s, c). sent s) (do { _ \<leftarrow> outside (finish b); State_Monad.return x }) 0" for b and x :: "string result"
    using costs_bind [OF costs_outside [OF f] costs_return [of _ _ 0]] by simp
  have step: "costs (\<lambda>(s, c). sent s) (doOCIRequest client up q \<bind> g) 3"
    if "\<And>r. costs (\<lambda>(s, c). sent s) (g r) 0" for q and g :: "'b wire_response result \<Rightarrow> ('s \<times> token_cache, string result) state"
    using costs_bind [OF request_costs [OF c] that] by simp
  show ?thesis unfolding resolve_tag_def
    by (intro costs_sum costs_return step last)
qed

lemma reference_costs:
  assumes c: "counted sent (oc_transport client)"
  shows "costs (\<lambda>(s, c). sent s) (OCIResolveReference client up artifact) 6"
proof -
  have head: "costs (\<lambda>(s, c). sent s) (resolveTagHead client up address) 3" for address
    unfolding resolveTagHead_def using c by (intro resolve_costs) (auto simp: counted_def)
  have drain: "costs sent (do { _ \<leftarrow> tr_read_all (oc_transport client) b; State_Monad.return () }) 0" for b
  proof -
    from c have "costs sent (tr_read_all (oc_transport client) b) 0" by (simp add: counted_def)
    from costs_bind [OF this costs_return [of _ _ 0]] show ?thesis by simp
  qed
  have get: "costs (\<lambda>(s, c). sent s) (resolveTagGet client up address) 3" for address
    unfolding resolveTagGet_def using c drain by (intro resolve_costs)
  have "costs (\<lambda>(s, c). sent s) (OCIResolveReference client up artifact) (3 + 3)"
    unfolding OCIResolveReference_def Let_def
    by (intro costs_bind head) (auto intro!: get costs_return split: sum.split)
  then show ?thesis by simp
qed

section \<open>Properties\<close>

text \<open>C8. A bearer token stays with the tenant, the upstream, the scheme and the host it was obtained for: storing a token
  for one request changes nothing about how a request in another scope is authorized, which carries its own upstream's
  credentials or a token that was already cached under its own key. Identifiers, schemes and hosts contain no bar.\<close>

theorem tokens_stay_in_scope:
  assumes "bearerTokenCacheKey url up = Some k" "token_cache_ok c"
    and "plain_scope url up" "plain_scope (wq_parts q) up'" "key_scope url up \<noteq> key_scope (wq_parts q) up'"
    and "run_state (authorize_request client up' q) (s, TokenSet now k token ttl c) = (Inr q', s')"
  shows "applyRegistryAuth client (up_auth up') q = Inr q' \<or>
    (\<exists>k' t. bearerTokenCacheKey (wq_parts q) up' = Some k' \<and> fst (TokenGet (oc_now client s) k' c) = Some t \<and>
       q' = set_request_header ''Authorization'' (''Bearer '' @ t) q)"
proof (cases "bearerTokenCacheKey (wq_parts q) up'")
  case None
  with assms(6) show ?thesis by (simp add: authorize_request_def)
next
  case (Some k')
  with bearer_key_inject assms(1,3-5) have other: "k' \<noteq> k" by metis
  show ?thesis
  proof (cases "fst (TokenGet (oc_now client s) k' (TokenSet now k token ttl c))")
    case None
    with Some assms(6) show ?thesis
      by (auto simp: authorize_request_def cached_token_def split: prod.splits)
  next
    case (Some t)
    then obtain e where "map_of (tc_entries (TokenSet now k token ttl c)) k' = Some e" "k' \<noteq> []"
      "oc_now client s < ct_expires_at e" "ct_token e = t" by (auto simp: TokenGet_Some)
    moreover from this(1) TokenSet_other other assms(2) have "map_of (tc_entries c) k' = Some e"
      by (metis token_cache_ok_def)
    ultimately have "fst (TokenGet (oc_now client s) k' c) = Some t" by (auto simp: TokenGet_Some)
    moreover from Some \<open>bearerTokenCacheKey (wq_parts q) up' = Some k'\<close> assms(6)
    have "q' = set_request_header ''Authorization'' (''Bearer '' @ t) q"
      by (auto simp: authorize_request_def cached_token_def split: prod.splits)
    ultimately show ?thesis using \<open>bearerTokenCacheKey (wq_parts q) up' = Some k'\<close> by blast
  qed
qed

definition sample_parts :: url_parts where
  "sample_parts = \<lparr>url_scheme = ''https'', url_host = ''reg'', url_path = ''/v2/a/manifests/1''\<rparr>"

definition sample_registry :: "string \<Rightarrow> upstream" where
  "sample_registry tenant =
     \<lparr>up_id = ''u1'', up_tenant_id = tenant, up_name = ''reg'', up_ecosystem = EcosystemOCI, up_base_url = ''https://reg'',
      up_capabilities = None, up_auth = None, up_created_at = 0, up_updated_at = 0\<rparr>"

definition oci_sample :: artifact_identity where
  "oci_sample = \<lparr>art_ecosystem = EcosystemOCI, art_namespace = [], art_name = ''a'', art_version = ''1'', art_digest = []\<rparr>"

definition sample_oci_client :: "(unit, nat) oci_client" where
  "sample_oci_client =
     \<lparr>oc_transport =
        \<lparr>tr_do = (\<lambda>q. State (\<lambda>n. (Inr \<lparr>wr_status = 401, wr_header = (\<lambda>_. []), wr_body = ()\<rparr>, Suc n))),
         tr_read_all = (\<lambda>_. State_Monad.return []), tr_close = (\<lambda>_. State_Monad.return ()), tr_parse_url = (\<lambda>_. Inr sample_parts)\<rparr>,
      oc_secret_resolver = None, oc_now = (\<lambda>_. 0), oc_base64 = id, oc_token_url = (\<lambda>realm _. Inr realm),
      oc_decode_token = (\<lambda>_. Inl (plain_error ''no token''))\<rparr>"

definition sample_wire_request :: wire_request where
  "sample_wire_request = \<lparr>wq_method = ''GET'', wq_url = ''https://reg/v2/a/manifests/1'', wq_parts = sample_parts, wq_header = []\<rparr>"

theorem tokens_stay_in_scope_witness:
  "applyRegistryAuth sample_oci_client (up_auth (sample_registry ''t2'')) sample_wire_request = Inr sample_wire_request \<or>
   (\<exists>k' t. bearerTokenCacheKey (wq_parts sample_wire_request) (sample_registry ''t2'') = Some k' \<and>
      fst (TokenGet (oc_now sample_oci_client 0) k' (newBearerTokenCache 2)) = Some t \<and>
      sample_wire_request = set_request_header ''Authorization'' (''Bearer '' @ t) sample_wire_request)"
proof (rule tokens_stay_in_scope)
  show "bearerTokenCacheKey sample_parts (sample_registry ''t1'') = Some ''t1|u1|https://reg|a|anonymous''" by code_simp
  show "token_cache_ok (newBearerTokenCache 2)" by (simp add: token_cache_ok_def newBearerTokenCache_def)
  show "plain_scope sample_parts (sample_registry ''t1'')" "plain_scope (wq_parts sample_wire_request) (sample_registry ''t2'')"
    "key_scope sample_parts (sample_registry ''t1'') \<noteq> key_scope (wq_parts sample_wire_request) (sample_registry ''t2'')"
    by (simp_all add: plain_scope_def key_scope_def sample_parts_def sample_registry_def sample_wire_request_def)
  have "bearerTokenCacheKey sample_parts (sample_registry ''t2'') = Some ''t2|u1|https://reg|a|anonymous''" by code_simp
  then show "run_state (authorize_request sample_oci_client (sample_registry ''t2'') sample_wire_request)
      (0, TokenSet 0 ''t1|u1|https://reg|a|anonymous'' ''tok'' 0 (newBearerTokenCache 2)) =
    (Inr sample_wire_request, (0, TokenSet 0 ''t1|u1|https://reg|a|anonymous'' ''tok'' 0 (newBearerTokenCache 2)))"
    by (simp add: authorize_request_def sample_wire_request_def cached_token_def TokenGet_def TokenSet_def
        newBearerTokenCache_def Let_def applyRegistryAuth_def sample_registry_def)
qed

text \<open>A registry that rejects every attempt costs at most three requests: \<open>doOCIRequest\<close> sends the request, at most
  one token request, and at most one retry, whatever the registry and the token service answer; resolving a tag costs
  at most six. Requests are counted by any counter of the world that each \<open>Do\<close> raises by at most one.\<close>

lemma registry_requests_bounded:
  assumes "counted sent (oc_transport client)"
  shows "sent (fst (snd (run_state (doOCIRequest client up q) (s, c)))) \<le> sent s + 3 \<and>
    sent (fst (snd (run_state (OCIResolveReference client up artifact) (s, c)))) \<le> sent s + 6"
  using request_costs [OF assms] reference_costs [OF assms] by (auto simp: costs_def split_beta)

lemma registry_requests_bounded_witness:
  "(fst (snd (run_state (doOCIRequest sample_oci_client (sample_registry ''t1'') sample_wire_request)
       (0, newBearerTokenCache 2)))) \<le> 3 \<and>
   (fst (snd (run_state (OCIResolveReference sample_oci_client (sample_registry ''t1'') oci_sample)
       (0, newBearerTokenCache 2)))) \<le> 6"
proof -
  have "counted id (oc_transport sample_oci_client)"
    by (simp add: counted_def costs_def sample_oci_client_def)
  from registry_requests_bounded [OF this, of "sample_registry ''t1''" sample_wire_request 0 "newBearerTokenCache 2" oci_sample]
  show ?thesis by simp
qed

text \<open>The token cache holds at most its limit of entries and one per key, whatever is stored and looked up, and a
  token is handed out exactly until its lifetime, shortened by the skew when it is longer than the skew, is over.\<close>

lemma token_cache_bounded:
  assumes "token_cache_ok c"
  shows "token_cache_ok (TokenSet now key token ttl c) \<and> token_cache_ok (snd (TokenGet now key c)) \<and>
    (key \<noteq> [] \<longrightarrow> token \<noteq> [] \<longrightarrow> 0 < ttl \<longrightarrow>
       fst (TokenGet later key (TokenSet now key token ttl c)) =
         (if later < now + ttl - (if bearerTokenExpirySkew < ttl then bearerTokenExpirySkew else 0) then Some token else None))"
  using assms TokenSet_ok TokenGet_ok
  by (auto simp: TokenGet_def TokenSet_def Let_def update_conv' split: option.split)

lemma token_cache_bounded_witness:
  "token_cache_ok (TokenSet 0 ''k'' ''t'' 5 (newBearerTokenCache 2)) \<and> fst (TokenGet 4 ''k'' (TokenSet 0 ''k'' ''t'' 5 (newBearerTokenCache 2))) = Some ''t'' \<and>
   fst (TokenGet 5 ''k'' (TokenSet 0 ''k'' ''t'' 5 (newBearerTokenCache 2))) = None"
proof -
  have "token_cache_ok (newBearerTokenCache 2)" by (simp add: token_cache_ok_def newBearerTokenCache_def)
  from token_cache_bounded [OF this, of 0 "''k''" "''t''" 5 4] token_cache_bounded [OF this, of 0 "''k''" "''t''" 5 5]
  show ?thesis by (simp add: bearerTokenExpirySkew_def)
qed

end
