(* ===== verification/Policy_Documents.thy ===== *)
theory Policy_Documents
  imports Go_Json Audit_Service
begin

text \<open>
  Policy documents (\<open>internal/core/policy/dsl.go\<close>, \<open>parser.go\<close>, \<open>config.go\<close>): decoding the configuration of a policy
  type, and turning a parsed document into validated policies of a tenant.

  The JSON and YAML parsers and the JSON printer are arguments. \<open>pc_decode\<close> is what a \<open>json.Decoder\<close> does with the
  text: the first value and the text behind it.
\<close>

record policy_codec =
  pc_decoder :: json_decoder
  pc_decode :: "string \<Rightarrow> (json \<times> string) result"
  pc_marshal :: "(string \<times> json) list \<Rightarrow> string result"

section \<open>Configurations\<close>

text \<open>The fields of the configuration structs with the names in their tags.\<close>

definition cvss_fields :: "json_decoder \<Rightarrow> cvss_threshold_config fields" where
  "cvss_fields jd k v c =
     (if k = ''max_cvss'' then Some (map_result (\<lambda>x. c\<lparr>cvss_max := x\<rparr>) (assign_float_pointer jd v))
      else if k = ''minimum_severity'' then Some (map_result (\<lambda>x. c\<lparr>cvss_minimum_severity := x\<rparr>) (assign_string_pointer jd v))
      else if k = ''dry_run'' then Some (map_result (\<lambda>x. c\<lparr>cvss_dry_run := x\<rparr>) (assign_bool jd v (cvss_dry_run c)))
      else None)"

definition minimum_age_fields :: "json_decoder \<Rightarrow> minimum_age_config fields" where
  "minimum_age_fields jd k v c =
     (if k = ''min_age_days'' then Some (map_result (\<lambda>x. c\<lparr>minage_days := x\<rparr>) (assign_int_pointer jd v))
      else if k = ''exclude_packages'' then Some (map_result (\<lambda>x. c\<lparr>minage_exclude := x\<rparr>) (assign_strings jd v))
      else if k = ''dry_run'' then Some (map_result (\<lambda>x. c\<lparr>minage_dry_run := x\<rparr>) (assign_bool jd v (minage_dry_run c)))
      else None)"

definition maximum_age_fields :: "json_decoder \<Rightarrow> maximum_age_config fields" where
  "maximum_age_fields jd k v c =
     (if k = ''max_age_days'' then Some (map_result (\<lambda>x. c\<lparr>maxage_days := x\<rparr>) (assign_int_pointer jd v))
      else if k = ''exclude_packages'' then Some (map_result (\<lambda>x. c\<lparr>maxage_exclude := x\<rparr>) (assign_strings jd v))
      else if k = ''dry_run'' then Some (map_result (\<lambda>x. c\<lparr>maxage_dry_run := x\<rparr>) (assign_bool jd v (maxage_dry_run c)))
      else None)"

definition mutable_tag_fields :: "json_decoder \<Rightarrow> block_mutable_tag_config fields" where
  "mutable_tag_fields jd k v c =
     (if k = ''tags'' then Some (map_result (\<lambda>x. c\<lparr>tag_tags := x\<rparr>) (assign_strings jd v))
      else if k = ''dry_run'' then Some (map_result (\<lambda>x. c\<lparr>tag_dry_run := x\<rparr>) (assign_bool jd v (tag_dry_run c)))
      else None)"

definition scorecard_fields :: "json_decoder \<Rightarrow> scorecard_config fields" where
  "scorecard_fields jd k v c =
     (if k = ''min_score'' then Some (map_result (\<lambda>x. c\<lparr>scc_min_score := x\<rparr>) (assign_float_pointer jd v))
      else if k = ''checks'' then Some (map_result (\<lambda>x. c\<lparr>scc_checks := x\<rparr>) (assign_float_map jd v (scc_checks c)))
      else if k = ''unavailable_scorecard_behavior'' then Some (map_result (\<lambda>x. c\<lparr>scc_unavailable_behavior := x\<rparr>) (assign_string jd v (scc_unavailable_behavior c)))
      else if k = ''dry_run'' then Some (map_result (\<lambda>x. c\<lparr>scc_dry_run := x\<rparr>) (assign_bool jd v (scc_dry_run c)))
      else None)"

definition license_fields :: "json_decoder \<Rightarrow> license_config fields" where
  "license_fields jd k v c =
     (if k = ''licenses'' then Some (map_result (\<lambda>x. c\<lparr>lic_licenses := x\<rparr>) (assign_strings jd v))
      else if k = ''dry_run'' then Some (map_result (\<lambda>x. c\<lparr>lic_dry_run := x\<rparr>) (assign_bool jd v (lic_dry_run c)))
      else None)"

definition license_allowlist_fields :: "json_decoder \<Rightarrow> license_allowlist_config fields" where
  "license_allowlist_fields jd k v c =
     (if k = ''licenses'' then Some (map_result (\<lambda>x. c\<lparr>lica_licenses := x\<rparr>) (assign_strings jd v))
      else if k = ''dry_run'' then Some (map_result (\<lambda>x. c\<lparr>lica_dry_run := x\<rparr>) (assign_bool jd v (lica_dry_run c)))
      else None)"

definition license_allowlist_v2_fields :: "json_decoder \<Rightarrow> license_allowlist_config_v2 fields" where
  "license_allowlist_v2_fields jd k v c =
     (if k = ''licenses'' then Some (map_result (\<lambda>x. c\<lparr>licv2_licenses := x\<rparr>) (assign_strings jd v))
      else if k = ''unlicensed_behavior'' then Some (map_result (\<lambda>x. c\<lparr>licv2_unlicensed_behavior := x\<rparr>) (assign_string jd v (licv2_unlicensed_behavior c)))
      else if k = ''unavailable_metadata_behavior'' then Some (map_result (\<lambda>x. c\<lparr>licv2_unavailable_behavior := x\<rparr>) (assign_string jd v (licv2_unavailable_behavior c)))
      else if k = ''dry_run'' then Some (map_result (\<lambda>x. c\<lparr>licv2_dry_run := x\<rparr>) (assign_bool jd v (licv2_dry_run c)))
      else None)"

definition namespace_list_fields :: "json_decoder \<Rightarrow> namespace_list_config fields" where
  "namespace_list_fields jd k v c =
     (if k = ''namespaces'' then Some (map_result (\<lambda>x. c\<lparr>nsl_namespaces := x\<rparr>) (assign_strings jd v))
      else if k = ''dry_run'' then Some (map_result (\<lambda>x. c\<lparr>nsl_dry_run := x\<rparr>) (assign_bool jd v (nsl_dry_run c)))
      else None)"

text \<open>Decoding into the struct behind the interface; a factory never returns a nil pointer.\<close>

definition decode_into :: "json_decoder \<Rightarrow> 'c fields \<Rightarrow> json \<Rightarrow> ('c option \<Rightarrow> policy_config) \<Rightarrow> 'c option \<Rightarrow> policy_config result" where
  "decode_into jd assign j wrap c =
     (case c of
        None \<Rightarrow> mismatch jd ''nil'' j
      | Some config \<Rightarrow> map_result (\<lambda>config'. wrap (Some config')) (decode_struct jd assign j config))"

fun decode_config :: "json_decoder \<Rightarrow> json \<Rightarrow> policy_config \<Rightarrow> policy_config result" where
  "decode_config jd j (CVSSThresholdPolicyConfig c) = decode_into jd (cvss_fields jd) j CVSSThresholdPolicyConfig c"
| "decode_config jd j (MinimumAgePolicyConfig c) = decode_into jd (minimum_age_fields jd) j MinimumAgePolicyConfig c"
| "decode_config jd j (MaximumAgePolicyConfig c) = decode_into jd (maximum_age_fields jd) j MaximumAgePolicyConfig c"
| "decode_config jd j (BlockMutableTagPolicyConfig c) = decode_into jd (mutable_tag_fields jd) j BlockMutableTagPolicyConfig c"
| "decode_config jd j (ScorecardPolicyConfig c) = decode_into jd (scorecard_fields jd) j ScorecardPolicyConfig c"
| "decode_config jd j (LicensePolicyConfig c) = decode_into jd (license_fields jd) j LicensePolicyConfig c"
| "decode_config jd j (LicenseAllowlistPolicyConfig c) = decode_into jd (license_allowlist_fields jd) j LicenseAllowlistPolicyConfig c"
| "decode_config jd j (LicenseAllowlistPolicyConfigV2 c) = decode_into jd (license_allowlist_v2_fields jd) j LicenseAllowlistPolicyConfigV2 c"
| "decode_config jd j (NamespaceListPolicyConfig c) = decode_into jd (namespace_list_fields jd) j NamespaceListPolicyConfig c"

text \<open>\<open>json.Unmarshal\<close> wants one value and nothing but white space behind it; \<open>Decoder.More\<close> does not count a closing
  bracket or brace as more data.\<close>

definition unmarshal :: "policy_codec \<Rightarrow> string \<Rightarrow> json result" where
  "unmarshal pc raw =
     (case pc_decode pc raw of
        Inl e \<Rightarrow> Inl e
      | Inr (j, rest) \<Rightarrow> if trim_space rest = [] then Inr j else Inl (plain_error ''invalid character after top-level value''))"

definition decoder_more :: "string \<Rightarrow> bool" where
  "decoder_more rest =
     (case dropWhile is_space rest of [] \<Rightarrow> False | c # _ \<Rightarrow> c \<noteq> CHR '']'' \<and> c \<noteq> CHR ''}'')"

definition hasDeprecatedEnforceJSON :: "policy_codec \<Rightarrow> string \<Rightarrow> bool" where
  "hasDeprecatedEnforceJSON pc raw =
     (case unmarshal pc raw of Inr (JObject kvs) \<Rightarrow> ''enforce'' \<in> set (map fst kvs) | _ \<Rightarrow> False)"

definition enforce_unsupported :: go_error where
  "enforce_unsupported =
     invalidPolicyf (''config key '' @ quote ''enforce'' @ '' is not supported; use '' @ quote ''dry_run'' @ '' instead'')"

definition rejectDeprecatedEnforceJSON :: "policy_codec \<Rightarrow> string \<Rightarrow> unit result" where
  "rejectDeprecatedEnforceJSON pc raw =
     (if \<not> hasDeprecatedEnforceJSON pc raw then Inr () else Inl enforce_unsupported)"

definition DecodeConfigJSON :: "policy_codec \<Rightarrow> policy_type \<Rightarrow> int \<Rightarrow> string \<Rightarrow> policy_config result" where
  "DecodeConfigJSON pc policyType schemaVersion raw =
     (let trimmed = trim_space raw;
          invalid = (\<lambda>t. Inl (invalidPolicyf (''invalid config for policy type '' @ quote policyType @ '': '' @ t)))
      in if trimmed = [] \<or> trimmed = ''null'' then Inl (invalidPolicyf ''config is required'')
         else
           bind_result (rejectDeprecatedEnforceJSON pc trimmed)
          (\<lambda>_. bind_result (normalizeSchemaVersion policyType schemaVersion)
          (\<lambda>normalizedSchemaVersion. bind_result (validateSchemaVersion policyType normalizedSchemaVersion)
          (\<lambda>_. bind_result (newConfigForType policyType normalizedSchemaVersion)
          (\<lambda>config.
             case bind_result (pc_decode pc trimmed)
                    (\<lambda>(j, rest). map_result (\<lambda>c. (c, rest)) (decode_config (pc_decoder pc) j config)) of
               Inl e \<Rightarrow> invalid (err_text e)
             | Inr (decoded, rest) \<Rightarrow>
                 if decoder_more rest then invalid ''unexpected trailing data''
                 else (case ValidateConfig decoded of
                     Inl e \<Rightarrow> Inl (invalidPolicyf (err_text e))
                   | Inr validated \<Rightarrow> Inr validated))))))"

definition DecodeStoredConfigJSON :: "policy_codec \<Rightarrow> policy_type \<Rightarrow> int \<Rightarrow> string \<Rightarrow> policy_config result" where
  "DecodeStoredConfigJSON pc policyType schemaVersion raw =
     (let trimmed = trim_space raw
      in if trimmed = [] \<or> trimmed = ''null'' then Inl (invalidPolicyf ''config is required'')
         else if hasDeprecatedEnforceJSON pc trimmed then
           Inl (wrap_sentinel ErrDeprecatedPolicyConfig (''stored policy config uses deprecated '' @ quote ''enforce'' @
             '' field; run the policy data migration''))
         else DecodeConfigJSON pc policyType schemaVersion trimmed)"

text \<open>A nil map is marshalled as \<open>null\<close>.\<close>

definition DecodeConfigValue ::
  "policy_codec \<Rightarrow> policy_type \<Rightarrow> int \<Rightarrow> (string \<times> json) list option \<Rightarrow> policy_config result" where
  "DecodeConfigValue pc policyType schemaVersion raw =
     (case raw of
        None \<Rightarrow> DecodeConfigJSON pc policyType schemaVersion ''null''
      | Some rawMap \<Rightarrow>
          if ''enforce'' \<in> set (map fst rawMap) then Inl enforce_unsupported
          else (case pc_marshal pc rawMap of
              Inl e \<Rightarrow> Inl (invalidPolicyf (''marshalling config for policy type '' @ quote policyType @ '': '' @ err_text e))
            | Inr payload \<Rightarrow> DecodeConfigJSON pc policyType schemaVersion payload))"

section \<open>Documents\<close>

record target_def =
  td_dependency_scopes :: "string list"
  td_dependency_types :: "string list"
  td_on_unknown :: string

record policy_def =
  pd_upstream_id :: "string option"
  pd_name :: string
  pd_type :: string
  pd_schema_version :: "int option"
  pd_action :: string
  pd_target :: "target_def option"
  pd_priority :: "int option"
  pd_config :: "(string \<times> json) list option"
  pd_enabled :: "bool option"

record policy_file =
  pf_tenant_id :: string
  pf_policies :: "policy_def list"

definition looksLikeJSON :: "string \<Rightarrow> bool" where
  "looksLikeJSON s \<longleftrightarrow> s \<noteq> [] \<and> (hd s = CHR ''{'' \<or> hd s = CHR ''['')"

definition ParseFile ::
  "(string \<Rightarrow> policy_file result) \<Rightarrow> (string \<Rightarrow> policy_file result) \<Rightarrow> string \<Rightarrow> policy_file result" where
  "ParseFile json_file yaml_file raw =
     (let trimmed = trim_space raw
      in if trimmed = [] then
           Inl (wrap_error ''parsing policy file'' (wrap_sentinel ErrInvalidPolicy ''empty policy document''))
         else if looksLikeJSON trimmed then map_error (wrap_error ''parsing policy JSON'') (json_file trimmed)
         else map_error (wrap_error ''parsing policy YAML'') (yaml_file trimmed))"

definition toDomainTarget :: "target_def option \<Rightarrow> policy_target option result" where
  "toDomainTarget td =
     (case td of
        None \<Rightarrow> Inr None
      | Some t \<Rightarrow>
          map_result NormalizeTarget
            (ValidateTarget (Some \<lparr>target_scopes = td_dependency_scopes t, target_types = td_dependency_types t,
               target_on_unknown = td_on_unknown t\<rparr>)))"

definition stringValue :: "string option \<Rightarrow> string" where
  "stringValue v = (case v of None \<Rightarrow> [] | Some s \<Rightarrow> s)"

definition toDomainPolicy :: "policy_codec \<Rightarrow> string \<Rightarrow> policy_def \<Rightarrow> nat \<Rightarrow> policy result" where
  "toDomainPolicy pc tenantID pd index =
     (if pd_name pd = [] then Inl (plain_error ''name is required'')
      else if pd_type pd = [] then Inl (plain_error ''type is required'')
      else (case pd_schema_version pd of
          None \<Rightarrow> Inl (wrap_sentinel ErrUnsupportedPolicySchemaVersion ''schema_version is required'')
        | Some schemaVersion \<Rightarrow>
            if pd_action pd = [] then Inl (plain_error ''action is required'')
            else (case parsePolicyType (pd_type pd) of
                None \<Rightarrow> Inl (plain_error (''unknown policy type '' @ quote (pd_type pd)))
              | Some policyType \<Rightarrow>
                  bind_result (validateSchemaVersion policyType schemaVersion)
                    (\<lambda>_. if pd_action pd \<notin> set validActions then
                           Inl (plain_error (''invalid action '' @ quote (pd_action pd) @ '', must be '' @
                             quote PolicyActionAllow @ '' or '' @ quote PolicyActionDeny))
                         else
                           bind_result (DecodeConfigValue pc policyType schemaVersion (pd_config pd))
                          (\<lambda>config. bind_result (toDomainTarget (pd_target pd))
                          (\<lambda>target. Inr
                             \<lparr>pol_id = [], pol_tenant_id = tenantID, pol_upstream_id = stringValue (pd_upstream_id pd),
                              pol_name = pd_name pd, pol_type = policyType, pol_action = pd_action pd,
                              pol_schema_version = schemaVersion, pol_config = Some config, pol_target = target,
                              pol_priority = (case pd_priority pd of None \<Rightarrow> int index | Some p \<Rightarrow> p),
                              pol_enabled = (case pd_enabled pd of None \<Rightarrow> True | Some b \<Rightarrow> b), pol_version = 1,
                              pol_created_at = zero_time, pol_updated_at = zero_time\<rparr>))))))"

text \<open>The validation of a policy works on the configuration and the target behind its pointers, so what is collected
  is the validated policy; the same holds for the set.\<close>

fun policies_loop :: "policy_codec \<Rightarrow> string \<Rightarrow> nat \<Rightarrow> policy_def list \<Rightarrow> policy list result" where
  "policies_loop pc tenantID i [] = Inr []"
| "policies_loop pc tenantID i (pd # pds) =
     (case bind_result (toDomainPolicy pc tenantID pd i) ValidatePolicy of
        Inl e \<Rightarrow> Inl (wrap_error (''policy '' @ show_nat i @ '' ('' @ quote (pd_name pd) @ '')'') e)
      | Inr p \<Rightarrow> map_result (\<lambda>ps. p # ps) (policies_loop pc tenantID (Suc i) pds))"

definition ToDomainPoliciesForTenant :: "policy_codec \<Rightarrow> policy_file \<Rightarrow> string \<Rightarrow> policy list result" where
  "ToDomainPoliciesForTenant pc file tenantID =
     (let effectiveTenantID = (if tenantID = [] then pf_tenant_id file else tenantID)
      in if effectiveTenantID = [] then Inl (plain_error ''tenant_id is required'')
         else bind_result (policies_loop pc effectiveTenantID 0 (pf_policies file)) ValidatePolicies)"

definition ToDomainPolicies :: "policy_codec \<Rightarrow> policy_file \<Rightarrow> policy list result" where
  "ToDomainPolicies pc file = ToDomainPoliciesForTenant pc file []"

section \<open>Lemmas\<close>

text \<open>Decoding keeps the struct behind the interface.\<close>

lemma decode_config_type: "decode_config jd j c = Inr d \<Longrightarrow> config_type_of d = config_type_of c"
  by (cases c) (auto simp: decode_into_def map_result_Inr mismatch_def split: option.splits)

lemma config_matches_type:
  "configTypeMatchesPolicy t c \<Longrightarrow> config_type_of d = config_type_of c \<Longrightarrow> configTypeMatchesPolicy t d"
proof -
  have "condition_config k d = condition_config k c" if "config_type_of d = config_type_of c" for k
    using that by (cases k) (simp_all add: configTypeMatcher_def)
  moreover assume "configTypeMatchesPolicy t c" and "config_type_of d = config_type_of c"
  moreover from this(1) obtain dd where dd: "policyDefinitionFor t = Some dd" "def_config_matches dd c"
    by (auto simp: configTypeMatchesPolicy_def split: option.splits)
  moreover from this(1) have "def_config_matches dd = condition_config (def_condition_evaluator dd)"
    using definitions_consistent by (simp add: definition_for_iff definition_consistent_def)
  ultimately show ?thesis by (simp add: configTypeMatchesPolicy_def)
qed

lemma new_config_matches:
  assumes "newConfigForType t v = Inr c"
  shows "configTypeMatchesPolicy t c"
proof -
  from assms obtain d where d: "policyDefinitionFor t = Some d" and c: "def_new_config_by_schema d v = Some c"
    by (auto simp: newConfigForType_def split: option.splits)
  from d have "definition_consistent d" using definitions_consistent by (simp add: definition_for_iff)
  with c have "def_config_matches d c" by (auto simp: definition_consistent_def ran_def)
  with d show ?thesis by (simp add: configTypeMatchesPolicy_def)
qed

lemma schema_version_supported:
  "validateSchemaVersion t v = Inr u \<Longrightarrow> \<exists>d. typeDescriptorFor t = Some d \<and> v \<in> set (desc_supported_schema_versions d)"
  by (auto simp: validateSchemaVersion_def split: option.splits if_splits)

lemma decode_json_Inr:
  assumes "DecodeConfigJSON pc t v raw = Inr c"
  obtains v' c0 j rest c1 where "normalizeSchemaVersion t v = Inr v'" "validateSchemaVersion t v' = Inr ()"
    "newConfigForType t v' = Inr c0" "pc_decode pc (trim_space raw) = Inr (j, rest)"
    "decode_config (pc_decoder pc) j c0 = Inr c1" "\<not> decoder_more rest" "ValidateConfig c1 = Inr c"
proof -
  from assms obtain v' c0 where o: "normalizeSchemaVersion t v = Inr v'" "validateSchemaVersion t v' = Inr ()"
      "newConfigForType t v' = Inr c0"
    and rest: "(case bind_result (pc_decode pc (trim_space raw))
             (\<lambda>(j, rest). map_result (\<lambda>c. (c, rest)) (decode_config (pc_decoder pc) j c0)) of
          Inl e \<Rightarrow> Inl (invalidPolicyf (''invalid config for policy type '' @ quote t @ '': '' @ err_text e))
        | Inr (decoded, rest) \<Rightarrow>
            if decoder_more rest
            then Inl (invalidPolicyf (''invalid config for policy type '' @ quote t @ '': '' @ ''unexpected trailing data''))
            else (case ValidateConfig decoded of
                Inl e \<Rightarrow> Inl (invalidPolicyf (err_text e)) | Inr validated \<Rightarrow> Inr validated)) = Inr c"
    unfolding DecodeConfigJSON_def Let_def by (auto simp: bind_result_eq_Inr split: if_splits)
  from rest obtain c1 r where "bind_result (pc_decode pc (trim_space raw))
      (\<lambda>(j, rest). map_result (\<lambda>c. (c, rest)) (decode_config (pc_decoder pc) j c0)) = Inr (c1, r)"
    and "\<not> decoder_more r" "ValidateConfig c1 = Inr c"
    by (cases "bind_result (pc_decode pc (trim_space raw))
      (\<lambda>(j, rest). map_result (\<lambda>c. (c, rest)) (decode_config (pc_decoder pc) j c0))")
      (auto split: if_splits sum.splits)
  with o show ?thesis using that by (auto simp: bind_result_eq_Inr map_result_Inr)
qed

lemma decoded_config:
  assumes "DecodeConfigJSON pc t v raw = Inr c"
  shows "configTypeMatchesPolicy t c \<and> ValidateConfig c = Inr c \<and> parsePolicyType t = Some t \<and>
    (\<exists>v' d. normalizeSchemaVersion t v = Inr v' \<and> typeDescriptorFor t = Some d \<and>
       v' \<in> set (desc_supported_schema_versions d))"
proof -
  from assms obtain v' c0 j rest c1 where o: "normalizeSchemaVersion t v = Inr v'" "validateSchemaVersion t v' = Inr ()"
    "newConfigForType t v' = Inr c0" "decode_config (pc_decoder pc) j c0 = Inr c1" "ValidateConfig c1 = Inr c"
    by (rule decode_json_Inr)
  have "config_type_of c = config_type_of c0"
    using validate_config_type [OF o(5)] decode_config_type [OF o(4)] by simp
  with new_config_matches [OF o(3)] have "configTypeMatchesPolicy t c" by (rule config_matches_type)
  moreover from o(5) have "ValidateConfig c = Inr c" by (rule validate_config_idem)
  moreover from \<open>configTypeMatchesPolicy t c\<close> have "parsePolicyType t = Some t"
    by (auto simp: configTypeMatchesPolicy_def parsePolicyType_def policyDefinitionFor_def split: option.splits)
  ultimately show ?thesis using o(1) schema_version_supported [OF o(2)] by blast
qed

lemma policies_loop_Inr:
  "policies_loop pc tenant i pds = Inr ps \<longleftrightarrow>
   list_all2 (\<lambda>(k, pd) p. bind_result (toDomainPolicy pc tenant pd k) ValidatePolicy = Inr p) (enumerate i pds) ps"
proof (induction pds arbitrary: i ps)
  case (Cons pd pds)
  then show ?case by (auto simp: map_result_Inr list_all2_Cons1 split: sum.split)
qed auto

lemma imported_policy:
  assumes "bind_result (toDomainPolicy pc tenant pd k) ValidatePolicy = Inr p"
  shows "ValidatePolicy p = Inr p \<and> pol_tenant_id p = tenant \<and> pol_name p = pd_name pd \<and> pol_type p = pd_type pd \<and>
    pol_action p = pd_action pd \<and> pd_schema_version pd = Some (pol_schema_version p) \<and>
    pol_priority p = (case pd_priority pd of None \<Rightarrow> int k | Some i \<Rightarrow> i) \<and>
    pol_enabled p = (pd_enabled pd \<noteq> Some False)"
proof -
  from assms obtain q where q: "toDomainPolicy pc tenant pd k = Inr q" and v: "ValidatePolicy q = Inr p"
    by (auto simp: bind_result_eq_Inr)
  from q have "pol_tenant_id q = tenant \<and> pol_name q = pd_name pd \<and> pol_type q = pd_type pd \<and> pol_action q = pd_action pd \<and>
      pd_schema_version pd = Some (pol_schema_version q) \<and>
      pol_priority q = (case pd_priority pd of None \<Rightarrow> int k | Some i \<Rightarrow> i) \<and> pol_enabled q = (pd_enabled pd \<noteq> Some False)"
    by (auto simp: toDomainPolicy_def bind_result_eq_Inr parsePolicyType_def split: if_splits option.splits)
  with validate_policy_keeps [OF v] validate_policy_idem [OF v] show ?thesis by simp
qed

section \<open>Properties\<close>

definition sample_codec :: policy_codec where
  "sample_codec =
     \<lparr>pc_decoder = \<lparr>jd_mismatch = (\<lambda>_ _. ''mismatch''), jd_float = (\<lambda>_. None)\<rparr>,
      pc_decode = (\<lambda>raw. Inr (JObject [(''namespaces'', JArray [JString ''evil''])], drop 4 raw)),
      pc_marshal = (\<lambda>_. Inr ''{..}'')\<rparr>"

text \<open>C14. A configuration that is decoded has the type of its policy: the struct behind the interface is the one that the
  policy type asserts, so no condition ever fails on its type, it validates and validating it again changes nothing,
  and the schema version it was read with is supported for the type.\<close>

theorem decoded_config_typed:
  assumes "DecodeConfigJSON pc t v raw = Inr c"
  shows "configTypeMatchesPolicy t c \<and> ValidateConfig c = Inr c \<and>
    (\<exists>v' d. normalizeSchemaVersion t v = Inr v' \<and> typeDescriptorFor t = Some d \<and>
       v' \<in> set (desc_supported_schema_versions d))"
  using decoded_config [OF assms] by blast

theorem decoded_config_typed_witness:
  "configTypeMatchesPolicy PolicyTypeBlocklist (blocklist_config [''evil''] False) \<and>
   ValidateConfig (blocklist_config [''evil''] False) = Inr (blocklist_config [''evil''] False)"
proof -
  have "DecodeConfigJSON sample_codec PolicyTypeBlocklist 1 ''{..}'' = Inr (blocklist_config [''evil''] False)"
    by code_simp
  from decoded_config_typed [OF this] show ?thesis by simp
qed


definition sample_file :: policy_file where
  "sample_file =
     \<lparr>pf_tenant_id = [], pf_policies =
        [\<lparr>pd_upstream_id = None, pd_name = ''a'', pd_type = PolicyTypeBlocklist, pd_schema_version = Some 1,
          pd_action = PolicyActionDeny, pd_target = None, pd_priority = None,
          pd_config = Some [(''namespaces'', JArray [JString ''evil''])], pd_enabled = None\<rparr>]\<rparr>"


text \<open>Data behind a configuration is rejected, but a closing brace does not count as data.\<close>

lemma trailing_brace_accepted:
  "DecodeConfigJSON sample_codec PolicyTypeBlocklist 1 ''{..}}'' = Inr (blocklist_config [''evil''] False)"
  "isl (DecodeConfigJSON sample_codec PolicyTypeBlocklist 1 ''{..}1'')"
  by code_simp+

end
