(* ===== verification/Enrichers.thy ===== *)
theory Enrichers
  imports Enrichment_Service Upstream_Clients Go_Json Go_Time
begin

text \<open>
  The sources of evidence about an artifact: the npm metadata enricher (\<open>infra/npm/enricher.go\<close>), the OSV client
  (\<open>infra/osv/client.go\<close>), the Scorecard client (\<open>infra/scorecard/client.go\<close>) and the composite that merges them
  (\<open>infra/enrichment/composite.go\<close>), wired as in \<open>bootstrap/dependencies.go\<close>.

  The transport is the one of the upstream clients; a request with a body, the JSON codec, \<open>url.Parse\<close> followed by
  \<open>Hostname\<close> and \<open>Path\<close>, \<open>strconv.ParseFloat\<close>, the CVSS libraries and the parts of \<open>time.Parse\<close> that are not the
  strict layout are arguments. A score is a finite number.

  The lemmas show which licenses a policy gets to see, that the maximal score is the maximum of what OSV reports, that
  a repository taken from a package names exactly one project, that a failing source never fails the composite, and
  what an outage of all sources looks like to the policies.
\<close>

section \<open>Ports\<close>

record query_request =
  qr_name :: string
  qr_ecosystem :: string
  qr_version :: string

record ('b, 's) enricher_port =
  ep_transport :: "('b, 's) transport"
  ep_send :: "wire_request \<Rightarrow> string \<Rightarrow> ('s, 'b wire_response result) state"
  ep_marshal :: "query_request \<Rightarrow> string result"
  ep_json :: "body \<Rightarrow> json result"
  ep_decoder :: json_decoder
  ep_parse_float :: "string \<Rightarrow> float64 option"
  ep_cvss :: "string \<Rightarrow> string \<Rightarrow> float64 option"
  ep_time :: "string \<Rightarrow> time result"
  ep_host_path :: "string \<Rightarrow> (string \<times> string) result"

type_synonym 's enricher = "artifact_identity \<Rightarrow> ('s, artifact_metadata option result) state"

text \<open>\<open>fmt.Errorf("%w: ...: %v", domain.ErrEnrichmentFailed, err)\<close> keeps the text of the cause only.\<close>

definition enrichment_failed :: "string \<Rightarrow> go_error" where
  "enrichment_failed t = wrap_sentinel ErrEnrichmentFailed t"

text \<open>Reading the answer of a service: the body is closed on every path, and decoded when the status is 200.\<close>

definition read_answer ::
  "('b, 's) enricher_port \<Rightarrow> (json \<Rightarrow> 'a result) \<Rightarrow> 'b wire_response \<Rightarrow> ('s, 'a result) state" where
  "read_answer ep decode resp =
     do {
       b \<leftarrow> tr_read_all (ep_transport ep) (wr_body resp);
       State_Monad.return
         (map_error (\<lambda>e. enrichment_failed (''decoding response: '' @ err_text e)) (bind_result (ep_json ep b) decode))
     }"

definition refuse_answer :: "('b, 's) enricher_port \<Rightarrow> 'b wire_response \<Rightarrow> 'a result \<Rightarrow> ('s, 'a result) state" where
  "refuse_answer ep resp r = do { _ \<leftarrow> tr_close (ep_transport ep) (wr_body resp); State_Monad.return r }"

section \<open>The npm registry\<close>

record npm_version_doc =
  nv_license :: json
  nv_licenses :: "string list"
  nv_repository :: json

record npm_package_doc =
  np_time :: "(string \<times> string) list"
  np_versions :: "(string \<times> npm_version_doc) list"
  np_repository :: json

definition empty_version_doc :: npm_version_doc where
  "empty_version_doc = \<lparr>nv_license = JNull, nv_licenses = [], nv_repository = JNull\<rparr>"

definition empty_package_doc :: npm_package_doc where
  "empty_package_doc = \<lparr>np_time = [], np_versions = [], np_repository = JNull\<rparr>"

subsection \<open>Decoding\<close>

text \<open>A slice of structs, and a map from strings; an entry of a map starts from the zero value.\<close>

definition assign_slice :: "json_decoder \<Rightarrow> (json \<Rightarrow> 'a result) \<Rightarrow> json \<Rightarrow> 'a list result" where
  "assign_slice jd f j =
     (case j of JNull \<Rightarrow> Inr [] | JArray xs \<Rightarrow> assign_elements f xs | _ \<Rightarrow> mismatch jd ''slice'' j)"

definition assign_map ::
  "json_decoder \<Rightarrow> (json \<Rightarrow> 'a result) \<Rightarrow> json \<Rightarrow> (string \<times> 'a) list \<Rightarrow> (string \<times> 'a) list result" where
  "assign_map jd f j old =
     (case j of
        JNull \<Rightarrow> Inr []
      | JObject kvs \<Rightarrow>
          map_result (\<lambda>xs. fold (\<lambda>(k, x). AList.update k x) xs old)
            (assign_elements (\<lambda>(k, v). map_result (Pair k) (f v)) kvs)
      | _ \<Rightarrow> mismatch jd ''map'' j)"

definition npmLicenseObject_fields :: "json_decoder \<Rightarrow> string fields" where
  "npmLicenseObject_fields jd k v c = Some (if k = ''type'' then assign_string jd v c else Inr c)"

definition npmPackageVersion_fields :: "json_decoder \<Rightarrow> npm_version_doc fields" where
  "npmPackageVersion_fields jd k v c =
     Some (if k = ''license'' then Inr (c\<lparr>nv_license := v\<rparr>)
           else if k = ''licenses'' then
             map_result (\<lambda>x. c\<lparr>nv_licenses := x\<rparr>)
               (assign_slice jd (\<lambda>j. decode_struct jd (npmLicenseObject_fields jd) j []) v)
           else if k = ''repository'' then Inr (c\<lparr>nv_repository := v\<rparr>)
           else Inr c)"

definition npmPackageResponse_fields :: "json_decoder \<Rightarrow> npm_package_doc fields" where
  "npmPackageResponse_fields jd k v c =
     Some (if k = ''time'' then
             map_result (\<lambda>x. c\<lparr>np_time := x\<rparr>) (assign_map jd (\<lambda>j. assign_string jd j []) v (np_time c))
           else if k = ''versions'' then
             map_result (\<lambda>x. c\<lparr>np_versions := x\<rparr>)
               (assign_map jd (\<lambda>j. decode_struct jd (npmPackageVersion_fields jd) j empty_version_doc) v (np_versions c))
           else if k = ''repository'' then Inr (c\<lparr>np_repository := v\<rparr>)
           else Inr c)"

definition decode_npm_package :: "json_decoder \<Rightarrow> json \<Rightarrow> npm_package_doc result" where
  "decode_npm_package jd j = decode_struct jd (npmPackageResponse_fields jd) j empty_package_doc"

subsection \<open>Licenses\<close>

definition to_upper :: "string \<Rightarrow> string" where
  "to_upper s = map upper_char s"

definition license_operator :: "string \<Rightarrow> bool" where
  "license_operator token \<longleftrightarrow> to_upper token \<in> {''AND'', ''OR'', ''WITH''}"

definition license_tokens :: "string \<Rightarrow> string list" where
  "license_tokens expression =
     (let pieces = filter (\<lambda>f. f \<noteq> []) (split_by (\<lambda>c. c = CHR ''('' \<or> c = CHR '')'') expression);
          tokens = filter (\<lambda>t. t \<noteq> []) (map trim_space (concat (map space_fields pieces)))
      in filter (\<lambda>t. \<not> license_operator t) tokens)"

definition splitLicenseExpression :: "string \<Rightarrow> string list" where
  "splitLicenseExpression expression =
     (let result = license_tokens expression; trimmed = trim_space expression
      in if result = [] \<and> trimmed \<noteq> [] then [trimmed] else result)"

text \<open>A type assertion to \<open>string\<close>, and the lookup of a key in a \<open>map[string]any\<close>, whose later entries win.\<close>

definition json_text :: "json \<Rightarrow> string option" where
  "json_text j = (case j of JString t \<Rightarrow> Some t | _ \<Rightarrow> None)"

definition json_member :: "string \<Rightarrow> (string \<times> json) list \<Rightarrow> string option" where
  "json_member k kvs = Option.bind (map_of (rev kvs) k) json_text"

definition declared_license :: "json \<Rightarrow> string list" where
  "declared_license j =
     (case j of
        JString license \<Rightarrow> splitLicenseExpression license
      | JObject license \<Rightarrow>
          (case json_member ''type'' license of Some licenseType \<Rightarrow> splitLicenseExpression licenseType | None \<Rightarrow> [])
      | _ \<Rightarrow> [])"

definition license_items :: "npm_version_doc \<Rightarrow> string list" where
  "license_items version =
     declared_license (nv_license version) @ concat (map splitLicenseExpression (nv_licenses version))"

definition extractVersionLicenses :: "npm_version_doc \<Rightarrow> string list" where
  "extractVersionLicenses version =
     unique_loop (\<lambda>value. value = []) to_lower {} (map trim_space (license_items version))"

subsection \<open>The source repository\<close>

definition repositoryValue :: "json \<Rightarrow> string option" where
  "repositoryValue value =
     (let nonblank = (\<lambda>t. if trim_space t = [] then None else Some (trim_space t))
      in case value of
           JString t \<Rightarrow> nonblank t
         | JObject kvs \<Rightarrow> Option.bind (json_member ''url'' kvs) nonblank
         | _ \<Rightarrow> None)"

definition parseGitHubRepositoryPath :: "string \<Rightarrow> source_repository result" where
  "parseGitHubRepositoryPath path =
     (let trimmed = trim_suffix ''.git'' (trim_by (\<lambda>c. c = CHR ''/'') (trim_space path));
          bare = takeWhile (\<lambda>c. c \<noteq> CHR ''#'' \<and> c \<noteq> CHR ''?'') trimmed;
          required = Inl (plain_error (''repository path '' @ quote path @ '' must include owner and repo''))
      in case split_by (\<lambda>c. c = CHR ''/'') bare of
           p0 # p1 # _ \<Rightarrow>
             (let owner = trim_space p0; repo = trim_space p1
              in if owner = [] \<or> repo = [] then required
                 else Inr \<lparr>repo_host = ''github.com'', repo_owner = owner, repo_repo = repo\<rparr>)
         | _ \<Rightarrow> required)"

definition looksLikeGitHubShorthand :: "string \<Rightarrow> bool" where
  "looksLikeGitHubShorthand value =
     (if contains ''://'' value \<or> contains ''@'' value then False
      else (case split_by (\<lambda>c. c = CHR ''/'') (trim_by (\<lambda>c. c = CHR ''/'') value) of
          [p0, p1] \<Rightarrow> trim_space p0 \<noteq> [] \<and> trim_space p1 \<noteq> []
        | _ \<Rightarrow> False))"

text \<open>Dropping a prefix that was found in the text in lower case.\<close>

definition has_prefix_fold :: "string \<Rightarrow> string \<Rightarrow> bool" where
  "has_prefix_fold p s \<longleftrightarrow> has_prefix p (to_lower s)"

definition normalizeGitHubRepository ::
  "(string \<Rightarrow> (string \<times> string) result) \<Rightarrow> string \<Rightarrow> source_repository result" where
  "normalizeGitHubRepository host_path raw =
     (let trimmed = trim_space raw;
          plain = trim_prefix ''git+'' trimmed;
          normalized = (if has_prefix_fold ''git://'' plain then ''https://'' @ drop (length ''git://'') plain else plain)
      in if trimmed = [] then Inl (plain_error ''repository is empty'')
         else if has_prefix_fold ''github:'' trimmed then parseGitHubRepositoryPath (drop (length ''github:'') trimmed)
         else if has_prefix_fold ''git@github.com:'' trimmed then
           parseGitHubRepositoryPath (drop (length ''git@github.com:'') trimmed)
         else if has_prefix_fold ''ssh://git@github.com/'' normalized then
           parseGitHubRepositoryPath (drop (length ''ssh://git@github.com/'') normalized)
         else if looksLikeGitHubShorthand normalized then parseGitHubRepositoryPath normalized
         else (case host_path normalized of
             Inl e \<Rightarrow> Inl e
           | Inr (hostname, path) \<Rightarrow>
               if to_lower hostname \<noteq> ''github.com'' then
                 Inl (plain_error (''unsupported repository host '' @ quote hostname))
               else parseGitHubRepositoryPath path))"

fun resolve_candidates ::
  "(string \<Rightarrow> (string \<times> string) result) \<Rightarrow> bool \<Rightarrow> json list \<Rightarrow> source_repository option \<times> string" where
  "resolve_candidates host_path saw [] =
     (None, if saw then ''npm package does not declare a supported GitHub source repository''
            else ''npm package does not declare a source repository'')"
| "resolve_candidates host_path saw (candidate # rest) =
     (case repositoryValue candidate of
        None \<Rightarrow> resolve_candidates host_path saw rest
      | Some rawValue \<Rightarrow>
          (case normalizeGitHubRepository host_path rawValue of
             Inr repo \<Rightarrow> (Some repo, [])
           | Inl _ \<Rightarrow> resolve_candidates host_path True rest))"

definition resolveSourceRepository ::
  "(string \<Rightarrow> (string \<times> string) result) \<Rightarrow> npm_package_doc \<Rightarrow> npm_version_doc \<Rightarrow>
   source_repository option \<times> string" where
  "resolveSourceRepository host_path pkg version =
     resolve_candidates host_path False [nv_repository version, np_repository pkg]"

subsection \<open>The enricher\<close>

definition defaultRegistry :: string where "defaultRegistry = ''https://registry.npmjs.org''"

definition buildPackageName :: "artifact_identity \<Rightarrow> string" where
  "buildPackageName artifact =
     (if art_namespace artifact \<noteq> [] \<and> has_prefix ''@'' (art_namespace artifact)
      then art_namespace artifact @ ''/'' @ art_name artifact else art_name artifact)"

definition fetchPackageMetadata ::
  "('b, 's) enricher_port \<Rightarrow> string \<Rightarrow> ('s, npm_package_doc option result) state" where
  "fetchPackageMetadata ep pkgName =
     (case new_request (ep_transport ep) ''GET'' (defaultRegistry @ ''/'' @ pkgName) of
        Inl e \<Rightarrow> State_Monad.return (Inl (enrichment_failed (''building request: '' @ err_text e)))
      | Inr q \<Rightarrow>
          do {
            r \<leftarrow> tr_do (ep_transport ep) (set_request_header ''Accept'' ''application/json'' q);
            (case r of
               Inl e \<Rightarrow> State_Monad.return (Inl (enrichment_failed (err_text e)))
             | Inr resp \<Rightarrow>
                 if wr_status resp = 404 then refuse_answer ep resp (Inr None)
                 else if wr_status resp = 429 then
                   refuse_answer ep resp (Inl (enrichment_failed ''rate limited by npm registry''))
                 else if wr_status resp \<noteq> 200 then
                   refuse_answer ep resp
                     (Inl (enrichment_failed (''npm registry returned status '' @ show_int (wr_status resp))))
                 else read_answer ep (\<lambda>j. map_result Some (decode_npm_package (ep_decoder ep) j)) resp)
          })"

definition extractPublishTimestamp ::
  "(string \<Rightarrow> time result) \<Rightarrow> artifact_identity \<Rightarrow> (string \<times> string) list \<Rightarrow> artifact_metadata \<Rightarrow> artifact_metadata" where
  "extractPublishTimestamp general artifact publishTimes meta =
     (case map_of publishTimes (art_version artifact) of
        None \<Rightarrow> meta
      | Some timeStr \<Rightarrow>
          (case time_parse general timeStr of
             Inl _ \<Rightarrow> meta
           | Inr publishedAt \<Rightarrow> meta\<lparr>meta_published_at := Some publishedAt\<rparr>))"

definition unavailable_scorecard :: "string \<Rightarrow> scorecard_result" where
  "unavailable_scorecard reason = \<lparr>sc_score = None, sc_checks = [], sc_unavailable_reason = reason\<rparr>"

definition no_scorecard_for :: "string \<Rightarrow> scorecard_result" where
  "no_scorecard_for projectURI = unavailable_scorecard (''Scorecard data is unavailable for '' @ projectURI)"

text \<open>The Scorecard client of the enricher is optional.\<close>

type_synonym 's scorecard_client = "source_repository \<Rightarrow> ('s, scorecard_result option result) state"

definition enrichSourceRepository ::
  "('b, 's) enricher_port \<Rightarrow> 's scorecard_client option \<Rightarrow> npm_package_doc \<Rightarrow> npm_version_doc \<Rightarrow> artifact_metadata \<Rightarrow>
   ('s, artifact_metadata) state" where
  "enrichSourceRepository ep scorecards pkg version meta =
     (case resolveSourceRepository (ep_host_path ep) pkg version of
        (None, reason) \<Rightarrow>
          State_Monad.return
            (if reason \<noteq> [] then meta\<lparr>meta_scorecard := Some (unavailable_scorecard reason)\<rparr> else meta)
      | (Some sourceRepo, _) \<Rightarrow>
          (let found = meta\<lparr>meta_source_repository := Some sourceRepo\<rparr>
           in case scorecards of
                None \<Rightarrow> State_Monad.return found
              | Some lookup \<Rightarrow>
                  do {
                    r \<leftarrow> lookup sourceRepo;
                    State_Monad.return
                      (case r of
                         Inl _ \<Rightarrow> found\<lparr>meta_scorecard := Some (no_scorecard_for (ProjectURI sourceRepo))\<rparr>
                       | Inr result \<Rightarrow> found\<lparr>meta_scorecard := result\<rparr>)
                  }))"

definition enrichPackageVersion ::
  "('b, 's) enricher_port \<Rightarrow> 's scorecard_client option \<Rightarrow> artifact_identity \<Rightarrow> npm_package_doc \<Rightarrow>
   ('s, artifact_metadata) state" where
  "enrichPackageVersion ep scorecards artifact pkg =
     (let meta = extractPublishTimestamp (ep_time ep) artifact (np_time pkg) empty_metadata
      in case map_of (np_versions pkg) (art_version artifact) of
           None \<Rightarrow> State_Monad.return meta
         | Some version \<Rightarrow>
             enrichSourceRepository ep scorecards pkg version
               (meta\<lparr>meta_licenses := extractVersionLicenses version\<rparr>))"

definition NPMEnrich :: "('b, 's) enricher_port \<Rightarrow> 's scorecard_client option \<Rightarrow> 's enricher" where
  "NPMEnrich ep scorecards artifact =
     (if art_ecosystem artifact \<noteq> EcosystemNPM \<or> art_version artifact = [] then
        State_Monad.return (Inr (Some empty_metadata))
      else
        do {
          r \<leftarrow> fetchPackageMetadata ep (buildPackageName artifact);
          (case r of
             Inl e \<Rightarrow> State_Monad.return (Inl e)
           | Inr None \<Rightarrow> State_Monad.return (Inr (Some empty_metadata))
           | Inr (Some pkg) \<Rightarrow>
               do { meta \<leftarrow> enrichPackageVersion ep scorecards artifact pkg; State_Monad.return (Inr (Some meta)) })
        })"

section \<open>Scorecard\<close>

record project_response =
  pr_score :: "float64 option"
  pr_checks :: "(string \<times> float64) list"

definition projectCheckResult_fields :: "json_decoder \<Rightarrow> (string \<times> float64) fields" where
  "projectCheckResult_fields jd k v c =
     Some (if k = ''name'' then map_result (\<lambda>x. (x, snd c)) (assign_string jd v (fst c))
           else if k = ''score'' then map_result (\<lambda>x. (fst c, x)) (assign_float jd v (snd c))
           else Inr c)"

definition projectResponse_fields :: "json_decoder \<Rightarrow> project_response fields" where
  "projectResponse_fields jd k v c =
     Some (if k = ''score'' then map_result (\<lambda>x. c\<lparr>pr_score := x\<rparr>) (assign_float_pointer jd v)
           else if k = ''checks'' then
             map_result (\<lambda>x. c\<lparr>pr_checks := x\<rparr>)
               (assign_slice jd (\<lambda>j. decode_struct jd (projectCheckResult_fields jd) j ([], 0)) v)
           else Inr c)"

definition decode_project :: "json_decoder \<Rightarrow> json \<Rightarrow> project_response result" where
  "decode_project jd j = decode_struct jd (projectResponse_fields jd) j \<lparr>pr_score = None, pr_checks = []\<rparr>"

fun named_checks :: "(string \<times> float64) list \<Rightarrow> (string \<times> float64) list \<Rightarrow> (string \<times> float64) list" where
  "named_checks acc [] = acc"
| "named_checks acc ((rawName, score) # rest) =
     (let checkName = NormalizeScorecardCheckName rawName
      in named_checks (if checkName = [] then acc else AList.update checkName score acc) rest)"

definition scorecard_of :: "string \<Rightarrow> project_response \<Rightarrow> scorecard_result" where
  "scorecard_of projectURI payload =
     (let checks = named_checks [] (pr_checks payload)
      in if pr_score payload = None \<and> checks = [] then no_scorecard_for projectURI
         else \<lparr>sc_score = pr_score payload, sc_checks = checks, sc_unavailable_reason = []\<rparr>)"

definition scorecardBaseURL :: string where "scorecardBaseURL = ''https://api.scorecard.dev''"

definition ScorecardLookup :: "('b, 's) enricher_port \<Rightarrow> 's scorecard_client" where
  "ScorecardLookup ep repo =
     (let projectURI = ProjectURI repo
      in if projectURI = [] then
           State_Monad.return (Inl (enrichment_failed ''source repository is required for Scorecard lookup''))
         else
           (case new_request (ep_transport ep) ''GET''
                (trim_right (CHR ''/'') scorecardBaseURL @ ''/projects/'' @ projectURI) of
              Inl e \<Rightarrow> State_Monad.return (Inl (enrichment_failed (''building request: '' @ err_text e)))
            | Inr q \<Rightarrow>
                do {
                  r \<leftarrow> tr_do (ep_transport ep) (set_request_header ''Accept'' ''application/json'' q);
                  (case r of
                     Inl e \<Rightarrow> State_Monad.return (Inl (enrichment_failed (err_text e)))
                   | Inr resp \<Rightarrow>
                       if wr_status resp = 404 then refuse_answer ep resp (Inr (Some (no_scorecard_for projectURI)))
                       else if wr_status resp = 429 then
                         refuse_answer ep resp (Inl (enrichment_failed ''rate limited by Scorecard API''))
                       else if wr_status resp \<noteq> 200 then
                         refuse_answer ep resp
                           (Inl (enrichment_failed (''Scorecard API returned status '' @ show_int (wr_status resp))))
                       else
                         read_answer ep
                           (\<lambda>j. map_result (\<lambda>p. Some (scorecard_of projectURI p)) (decode_project (ep_decoder ep) j)) resp)
                }))"

section \<open>OSV\<close>

record osv_vuln =
  ov_id :: string
  ov_summary :: string
  ov_severity :: "(string \<times> string) list"
  ov_database_severity :: string

definition osvSeverity_fields :: "json_decoder \<Rightarrow> (string \<times> string) fields" where
  "osvSeverity_fields jd k v c =
     Some (if k = ''type'' then map_result (\<lambda>x. (x, snd c)) (assign_string jd v (fst c))
           else if k = ''score'' then map_result (\<lambda>x. (fst c, x)) (assign_string jd v (snd c))
           else Inr c)"

definition osvDatabaseSpecific_fields :: "json_decoder \<Rightarrow> string fields" where
  "osvDatabaseSpecific_fields jd k v c = Some (if k = ''severity'' then assign_string jd v c else Inr c)"

definition osvVuln_fields :: "json_decoder \<Rightarrow> osv_vuln fields" where
  "osvVuln_fields jd k v c =
     Some (if k = ''id'' then map_result (\<lambda>x. c\<lparr>ov_id := x\<rparr>) (assign_string jd v (ov_id c))
           else if k = ''summary'' then map_result (\<lambda>x. c\<lparr>ov_summary := x\<rparr>) (assign_string jd v (ov_summary c))
           else if k = ''severity'' then
             map_result (\<lambda>x. c\<lparr>ov_severity := x\<rparr>)
               (assign_slice jd (\<lambda>j. decode_struct jd (osvSeverity_fields jd) j ([], [])) v)
           else if k = ''database_specific'' then
             map_result (\<lambda>x. c\<lparr>ov_database_severity := x\<rparr>)
               (decode_struct jd (osvDatabaseSpecific_fields jd) v (ov_database_severity c))
           else Inr c)"

definition queryResponse_fields :: "json_decoder \<Rightarrow> osv_vuln list fields" where
  "queryResponse_fields jd k v c =
     Some (if k = ''vulns'' then
             assign_slice jd (\<lambda>j. decode_struct jd (osvVuln_fields jd) j
               \<lparr>ov_id = [], ov_summary = [], ov_severity = [], ov_database_severity = []\<rparr>) v
           else Inr c)"

definition decode_vulns :: "json_decoder \<Rightarrow> json \<Rightarrow> osv_vuln list result" where
  "decode_vulns jd j = decode_struct jd (queryResponse_fields jd) j []"

text \<open>The version of a vector selects the library that parses it.\<close>

definition parseCVSSScore ::
  "(string \<Rightarrow> float64 option) \<Rightarrow> (string \<Rightarrow> string \<Rightarrow> float64 option) \<Rightarrow> string \<Rightarrow> float64" where
  "parseCVSSScore parse_float cvss vector =
     (let trimmed = trim_space vector;
          score = (\<lambda>version. case cvss version trimmed of Some x \<Rightarrow> x | None \<Rightarrow> 0)
      in if trimmed = [] then 0
         else (case parse_float trimmed of
             Some x \<Rightarrow> x
           | None \<Rightarrow>
               if has_prefix ''CVSS:3.0/'' trimmed then score ''3.0''
               else if has_prefix ''CVSS:3.1/'' trimmed then score ''3.1''
               else if has_prefix ''CVSS:4.0/'' trimmed then score ''4.0''
               else 0))"

definition severityFromScore :: "float64 \<Rightarrow> string" where
  "severityFromScore score =
     (if 9 \<le> score then SeverityCritical
      else if 7 \<le> score then SeverityHigh
      else if 4 \<le> score then SeverityMedium
      else if 0 < score then SeverityLow
      else [])"

fun best_score_loop :: "(string \<Rightarrow> float64) \<Rightarrow> float64 \<Rightarrow> (string \<times> string) list \<Rightarrow> float64" where
  "best_score_loop parse best [] = best"
| "best_score_loop parse best ((_, vector) # rest) =
     (let score = parse vector in best_score_loop parse (if score \<le> best then best else score) rest)"

definition extractSeverity :: "(string \<Rightarrow> float64) \<Rightarrow> (string \<times> string) list \<Rightarrow> string \<times> float64" where
  "extractSeverity parse severities =
     (case severities of
        [] \<Rightarrow> ([], 0)
      | (_, vector) # rest \<Rightarrow>
          (let best = best_score_loop parse (parse vector) rest in (severityFromScore best, best)))"

definition normalizeDatabaseSeverity :: "string \<Rightarrow> string" where
  "normalizeDatabaseSeverity value =
     (let v = to_lower (trim_space value)
      in if v = ''none'' then SeverityNone
         else if v = ''low'' then SeverityLow
         else if v = ''moderate'' \<or> v = ''medium'' then SeverityMedium
         else if v = ''high'' then SeverityHigh
         else if v = ''critical'' then SeverityCritical
         else [])"

definition resolveSeverity :: "(string \<Rightarrow> float64) \<Rightarrow> osv_vuln \<Rightarrow> string \<times> float64" where
  "resolveSeverity parse v =
     (let (severity, score) = extractSeverity parse (ov_severity v);
          normalized = normalizeDatabaseSeverity (ov_database_severity v)
      in if normalized \<noteq> [] then (normalized, score) else (severity, score))"

definition vulnerability_of :: "(string \<Rightarrow> float64) \<Rightarrow> osv_vuln \<Rightarrow> vulnerability" where
  "vulnerability_of parse v =
     (let (severity, score) = resolveSeverity parse v
      in \<lparr>vuln_id = ov_id v, vuln_severity = severity, vuln_cvss = score, vuln_summary = ov_summary v\<rparr>)"

text \<open>The loop carries \<open>hasScore\<close> and \<open>maxCVSS\<close>.\<close>

fun max_score_loop :: "bool \<times> float64 \<Rightarrow> float64 list \<Rightarrow> bool \<times> float64" where
  "max_score_loop acc [] = acc"
| "max_score_loop (hasScore, maxCVSS) (score # rest) =
     max_score_loop
       (if 0 < score then (True, if maxCVSS < score then score else maxCVSS) else (hasScore, maxCVSS)) rest"

definition toArtifactMetadata :: "(string \<Rightarrow> float64) \<Rightarrow> osv_vuln list \<Rightarrow> artifact_metadata" where
  "toArtifactMetadata parse vs =
     (let vulns = map (vulnerability_of parse) vs;
          (hasScore, maxCVSS) = max_score_loop (False, 0) (map vuln_cvss vulns)
      in empty_metadata\<lparr>meta_vulnerabilities := vulns, meta_max_cvss := (if hasScore then Some maxCVSS else None)\<rparr>)"

definition mapArtifactToOSV :: "artifact_identity \<Rightarrow> string \<times> string" where
  "mapArtifactToOSV a =
     (if art_ecosystem a = EcosystemNPM then
        (''npm'',
         if art_namespace a \<noteq> [] \<and> has_prefix ''@'' (art_namespace a) then art_namespace a @ ''/'' @ art_name a
         else art_name a)
      else (art_ecosystem a, art_name a))"

definition osvBaseURL :: string where "osvBaseURL = ''https://api.osv.dev''"

definition OSVEnrich :: "('b, 's) enricher_port \<Rightarrow> 's enricher" where
  "OSVEnrich ep artifact =
     (let (ecosystem, pkgName) = mapArtifactToOSV artifact
      in if art_ecosystem artifact = EcosystemOCI \<or> pkgName = [] then
           State_Monad.return (Inr (Some empty_metadata))
         else
           (case ep_marshal ep
                \<lparr>qr_name = pkgName, qr_ecosystem = ecosystem, qr_version = art_version artifact\<rparr> of
              Inl e \<Rightarrow> State_Monad.return (Inl (enrichment_failed (''marshaling request: '' @ err_text e)))
            | Inr payload \<Rightarrow>
                (case new_request (ep_transport ep) ''POST'' (osvBaseURL @ ''/v1/query'') of
                   Inl e \<Rightarrow> State_Monad.return (Inl (enrichment_failed (''building request: '' @ err_text e)))
                 | Inr q \<Rightarrow>
                     do {
                       r \<leftarrow> ep_send ep (set_request_header ''Content-Type'' ''application/json'' q) payload;
                       (case r of
                          Inl e \<Rightarrow> State_Monad.return (Inl (enrichment_failed (err_text e)))
                        | Inr resp \<Rightarrow>
                            if wr_status resp = 429 then
                              refuse_answer ep resp (Inl (enrichment_failed ''rate limited by OSV API''))
                            else if wr_status resp \<noteq> 200 then
                              refuse_answer ep resp
                                (Inl (enrichment_failed (''OSV API returned status '' @ show_int (wr_status resp))))
                            else
                              read_answer ep
                                (\<lambda>j. map_result
                                   (\<lambda>vs. Some (toArtifactMetadata (parseCVSSScore (ep_parse_float ep) (ep_cvss ep)) vs))
                                   (decode_vulns (ep_decoder ep) j)) resp)
                     })))"

section \<open>The composite\<close>

text \<open>What the source has takes precedence; lists grow.\<close>

definition mergeMetadata :: "artifact_metadata \<Rightarrow> artifact_metadata \<Rightarrow> artifact_metadata" where
  "mergeMetadata dst src =
     \<lparr>meta_published_at = (case meta_published_at src of None \<Rightarrow> meta_published_at dst | Some t \<Rightarrow> Some t),
      meta_max_cvss = (case meta_max_cvss src of None \<Rightarrow> meta_max_cvss dst | Some x \<Rightarrow> Some x),
      meta_licenses = meta_licenses dst @ meta_licenses src,
      meta_vulnerabilities = meta_vulnerabilities dst @ meta_vulnerabilities src,
      meta_is_mutable_tag = (if meta_is_mutable_tag src then True else meta_is_mutable_tag dst),
      meta_source_repository =
        (case meta_source_repository src of None \<Rightarrow> meta_source_repository dst | Some r \<Rightarrow> Some r),
      meta_scorecard = (case meta_scorecard src of None \<Rightarrow> meta_scorecard dst | Some s \<Rightarrow> Some s)\<rparr>"

fun composite_loop :: "'s enricher list \<Rightarrow> artifact_identity \<Rightarrow> artifact_metadata \<Rightarrow> ('s, artifact_metadata) state" where
  "composite_loop [] artifact merged = State_Monad.return merged"
| "composite_loop (enricher # rest) artifact merged =
     do {
       r \<leftarrow> enricher artifact;
       composite_loop rest artifact
         (case r of Inr (Some meta) \<Rightarrow> mergeMetadata merged meta | _ \<Rightarrow> merged)
     }"

definition CompositeEnrich :: "'s enricher list \<Rightarrow> 's enricher" where
  "CompositeEnrich enrichers artifact =
     do { merged \<leftarrow> composite_loop enrichers artifact empty_metadata; State_Monad.return (Inr (Some merged)) }"

text \<open>The enricher of a running process: OSV first, then npm with the Scorecard client.\<close>

definition firewall_enricher :: "('b, 's) enricher_port \<Rightarrow> 's enricher" where
  "firewall_enricher ep = CompositeEnrich [OSVEnrich ep, NPMEnrich ep (Some (ScorecardLookup ep))]"

section \<open>Licenses a policy gets to see\<close>

lemma license_key_trim [simp]: "licenseKey (trim_space t) = licenseKey t"
  by (simp add: licenseKey_def)

lemma extracted_licenses_nonblank:
  "l \<in> set (extractVersionLicenses version) \<Longrightarrow> l \<noteq> [] \<and> trim_space l = l"
  unfolding extractVersionLicenses_def by (auto dest!: unique_loop_subset)

lemma extracted_licenses_distinct: "distinct (map to_lower (extractVersionLicenses version))"
  unfolding extractVersionLicenses_def by (rule unique_loop_distinct_keys)

lemma extracted_license_keys:
  "licenseKey ` set (extractVersionLicenses version) =
     licenseKey ` {t \<in> set (license_items version). trim_space t \<noteq> []}"
proof -
  have "licenseKey ` set (extractVersionLicenses version) = to_lower ` set (extractVersionLicenses version)"
    using extracted_licenses_nonblank by (intro image_cong) (auto simp: licenseKey_def)
  also have "\<dots> = to_lower ` {v \<in> set (map trim_space (license_items version)). v \<noteq> []}"
    by (simp add: extractVersionLicenses_def unique_loop_keys)
  also have "\<dots> = licenseKey ` {t \<in> set (license_items version). trim_space t \<noteq> []}"
    by (auto simp: licenseKey_def image_iff)
  finally show ?thesis .
qed

lemma split_license_nonblank: "t \<in> set (splitLicenseExpression e) \<Longrightarrow> trim_space t \<noteq> []"
  by (auto simp: splitLicenseExpression_def license_tokens_def Let_def split: if_splits)

lemma license_items_nonblank: "t \<in> set (license_items version) \<Longrightarrow> trim_space t \<noteq> []"
  by (auto simp: license_items_def declared_license_def split_license_nonblank split: json.splits option.splits)

lemma extracted_keys: "licenseKey ` set (extractVersionLicenses version) = licenseKey ` set (license_items version)"
proof -
  have "{t \<in> set (license_items version). trim_space t \<noteq> []} = set (license_items version)"
    by (auto simp: license_items_nonblank)
  then show ?thesis by (simp add: extracted_license_keys)
qed

lemma license_match_loop_iff:
  "fst (license_match_loop allowed ls) \<longleftrightarrow> (\<exists>l \<in> set ls. licenseKey l \<in> allowed)"
  by (induction ls) auto

lemma license_allowlist_loop_iff:
  "fst (license_allowlist_loop allowed ls) \<longleftrightarrow> (\<exists>l \<in> set ls. licenseKey l \<notin> allowed)"
  by (induction ls) auto

lemma ball_keys: "(\<forall>l \<in> set ls. P (licenseKey l)) \<longleftrightarrow> (\<forall>k \<in> licenseKey ` set ls. P k)"
  by simp

lemma bex_keys: "(\<exists>l \<in> set ls. P (licenseKey l)) \<longleftrightarrow> (\<exists>k \<in> licenseKey ` set ls. P k)"
  by simp

lemma extracted_empty: "extractVersionLicenses version = [] \<longleftrightarrow> license_items version = []"
  using extracted_keys [of version] by auto


section \<open>Scores\<close>

lemma Max_insert_max:
  "finite A \<Longrightarrow> Max (insert (max a b) A) = Max (insert a (insert b A))"
  by (cases "A = {}") (simp_all add: max.assoc)

lemma best_score_loop_eq: "best_score_loop parse best xs = Max (insert best (set (map (parse \<circ> snd) xs)))"
proof (induction xs arbitrary: best)
  case (Cons x xs)
  obtain t v where x: "x = (t, v)" by fastforce
  have "(if parse v \<le> best then best else parse v) = max best (parse v)" by (auto simp: max_def)
  then have "best_score_loop parse best (x # xs) = best_score_loop parse (max best (parse v)) xs"
    by (simp add: x Let_def)
  also have "\<dots> = Max (insert best (insert (parse v) (set (map (parse \<circ> snd) xs))))"
    unfolding Cons.IH by (rule Max_insert_max) simp
  finally show ?case by (simp add: x)
qed simp

lemma extractSeverity_score:
  "snd (extractSeverity parse ss) = (if ss = [] then 0 else Max (parse ` snd ` set ss))"
  by (cases ss) (auto simp: extractSeverity_def Let_def best_score_loop_eq image_image)

lemma resolveSeverity_score: "snd (resolveSeverity parse v) = snd (extractSeverity parse (ov_severity v))"
  by (simp add: resolveSeverity_def Let_def split: prod.split)

lemma vulnerability_score:
  "vuln_cvss (vulnerability_of parse v) = (if ov_severity v = [] then 0 else Max (parse ` snd ` set (ov_severity v)))"
  using resolveSeverity_score [of parse v]
  by (cases "resolveSeverity parse v") (simp add: vulnerability_of_def extractSeverity_score)

lemma max_score_loop_eq:
  "max_score_loop (h, m) xs =
     (h \<or> (\<exists>x \<in> set xs. 0 < x), Max (insert m {x \<in> set xs. 0 < x}))"
proof (induction xs arbitrary: h m)
  case (Cons x xs)
  let ?A = "{x \<in> set xs. 0 < x}"
  show ?case
  proof (cases "0 < x")
    case True
    then have eq: "{y \<in> set (x # xs). 0 < y} = insert x ?A" by auto
    have "(if m < x then x else m) = max m x" by (auto simp: max_def)
    with True have "max_score_loop (h, m) (x # xs) = max_score_loop (True, max m x) xs" by simp
    also have "\<dots> = (True, Max (insert m (insert x ?A)))"
      unfolding Cons.IH using Max_insert_max [of ?A m x] by (simp del: Max_insert)
    finally show ?thesis unfolding eq using True by simp
  next
    case False
    then have "{y \<in> set (x # xs). 0 < y} = ?A" by auto
    with False Cons.IH show ?thesis by simp
  qed
qed simp


section \<open>Repositories\<close>

lemma set_trim_by: "set (trim_by p s) \<subseteq> set s"
  by (auto simp: trim_by_def dest!: set_dropWhileD)

lemma set_trim_space: "c \<in> set (trim_space s) \<Longrightarrow> c \<in> set s"
  using set_trim_by by (auto simp: trim_space_def)

definition path_word :: "string \<Rightarrow> bool" where
  "path_word w \<longleftrightarrow> w \<noteq> [] \<and> trim_space w = w \<and> (\<forall>c \<in> set w. c \<notin> {CHR ''/'', CHR ''#'', CHR ''?''})"

lemma parsed_path_words:
  assumes "parseGitHubRepositoryPath path = Inr r"
  shows "repo_host r = ''github.com'' \<and> path_word (repo_owner r) \<and> path_word (repo_repo r)"
proof -
  define bare where "bare = takeWhile (\<lambda>c. c \<noteq> CHR ''#'' \<and> c \<noteq> CHR ''?'')
    (trim_suffix ''.git'' (trim_by (\<lambda>c. c = CHR ''/'') (trim_space path)))"
  from assms obtain p0 p1 ps where parts: "split_by (\<lambda>c. c = CHR ''/'') bare = p0 # p1 # ps"
    and r: "r = \<lparr>repo_host = ''github.com'', repo_owner = trim_space p0, repo_repo = trim_space p1\<rparr>"
    and ne: "trim_space p0 \<noteq> []" "trim_space p1 \<noteq> []"
    unfolding parseGitHubRepositoryPath_def bare_def [symmetric] Let_def by (auto split: list.splits if_splits)
  have "c \<notin> {CHR ''/'', CHR ''#'', CHR ''?''}" if "c \<in> set (trim_space p)" "p \<in> {p0, p1}" for c p
  proof -
    have "p \<in> set (split_by (\<lambda>c. c = CHR ''/'') bare)" using that(2) by (auto simp: parts)
    from split_by_pieces [OF this set_trim_space [OF that(1)]]
    have "c \<in> set bare" and slash: "c \<noteq> CHR ''/''" by blast+
    from set_takeWhileD [OF this(1) [unfolded bare_def]] have "c \<noteq> CHR ''#'' \<and> c \<noteq> CHR ''?''"
      by (rule conjunct2)
    with slash show ?thesis by simp
  qed
  then show ?thesis using ne by (auto simp: r path_word_def)
qed

lemma normalized_words:
  "normalizeGitHubRepository hp raw = Inr r \<Longrightarrow>
   repo_host r = ''github.com'' \<and> path_word (repo_owner r) \<and> path_word (repo_repo r)"
  unfolding normalizeGitHubRepository_def Let_def
  by (auto split: if_splits sum.splits prod.splits intro: parsed_path_words dest: parsed_path_words simp del: list.inject)

lemma resolved_candidate:
  "resolve_candidates hp saw cs = (Some r, reason) \<Longrightarrow> \<exists>raw. normalizeGitHubRepository hp raw = Inr r"
  by (induction cs arbitrary: saw) (auto split: option.splits sum.splits)

lemma project_uri_words:
  assumes "repo_host r = ''github.com'' \<and> path_word (repo_owner r) \<and> path_word (repo_repo r)"
  shows "ProjectURI r = ''github.com/'' @ repo_owner r @ ''/'' @ repo_repo r"
proof -
  have "trim_space (to_lower ''github.com'') = ''github.com''" by code_simp
  then show ?thesis using assms by (simp add: ProjectURI_def path_word_def Let_def)
qed

text \<open>The repository the enricher derives from a package names one GitHub project: its owner and its name are not blank
  and contain no slash, fragment or query, so the address of the Scorecard query has exactly these two path
  elements.\<close>

lemma scorecard_query_names_project:
  assumes "resolveSourceRepository hp pkg version = (Some r, reason)"
  shows "path_word (repo_owner r) \<and> path_word (repo_repo r) \<and>
    ProjectURI r = ''github.com/'' @ repo_owner r @ ''/'' @ repo_repo r"
proof -
  obtain raw where "normalizeGitHubRepository hp raw = Inr r"
    using assms resolved_candidate unfolding resolveSourceRepository_def by blast
  then have w: "repo_host r = ''github.com'' \<and> path_word (repo_owner r) \<and> path_word (repo_repo r)"
    by (rule normalized_words)
  then show ?thesis using project_uri_words by blast
qed

text \<open>The fragment is cut after the suffix of a Git address, which then stays in the name of the repository.\<close>

lemma git_suffix_before_fragment:
  "map_result repo_repo (normalizeGitHubRepository hp ''github:owner/repo.git'') = Inr ''repo'' \<and>
   map_result repo_repo (normalizeGitHubRepository hp ''github:owner/repo.git#main'') = Inr ''repo.git''"
  by code_simp

section \<open>Documents\<close>

lemma assign_elements_Inl: "x \<in> set xs \<Longrightarrow> \<exists>e. f x = Inl e \<Longrightarrow> \<exists>e. assign_elements f xs = Inl e"
  by (induction xs) (auto split: sum.splits)

lemma assign_members_Inl:
  "(k, v) \<in> set kvs \<Longrightarrow> (\<And>c. \<exists>e. assign (to_lower k) v c = Some (Inl e)) \<Longrightarrow> \<exists>e. assign_members assign kvs c = Inl e"
proof (induction kvs arbitrary: c)
  case (Cons kv kvs)
  show ?case
  proof (cases "kv = (k, v)")
    case True
    obtain e where "assign (to_lower k) v c = Some (Inl e)" using Cons.prems(2) by blast
    with True show ?thesis by simp
  next
    case False
    with Cons.prems(1) have "(k, v) \<in> set kvs" by auto
    then have "\<exists>e. assign_members assign kvs c' = Inl e" for c' using Cons.IH Cons.prems(2) by blast
    then show ?thesis by (cases kv) (auto simp: unknown_field_def split: option.split sum.split)
  qed
qed simp

lemma assign_map_Inl:
  "(k, v) \<in> set kvs \<Longrightarrow> \<exists>e. f v = Inl e \<Longrightarrow> \<exists>e. assign_map jd f (JObject kvs) old = Inl e"
  using assign_elements_Inl [of "(k, v)" kvs "\<lambda>(k, v). map_result (Pair k) (f v)"]
  by (auto simp: assign_map_def map_result_def)

text \<open>A package is decoded as a whole: when any of its versions writes the older \<open>licenses\<close> member as a text, as packages
  of the registry may, or as a list of texts, the answer for every version is refused and the package has no npm
  metadata at all.\<close>

lemma one_version_hides_package:
  assumes "(kv, JObject versions) \<in> set doc" "to_lower kv = ''versions''" "(w, JObject members) \<in> set versions"
    "(kl, written) \<in> set members" "to_lower kl = ''licenses''"
    "(\<exists>t. written = JString t) \<or> (\<exists>t ts. written = JArray (JString t # ts))"
  shows "\<exists>e. decode_npm_package jd (JObject doc) = Inl e"
proof -
  have slice: "\<exists>e. assign_slice jd (\<lambda>j. decode_struct jd (npmLicenseObject_fields jd) j []) written = Inl e"
    using assms(6) by (auto simp: assign_slice_def decode_struct_def mismatch_def)
  then have "\<exists>e. npmPackageVersion_fields jd ''licenses'' written c = Some (Inl e)" for c
    by (auto simp: npmPackageVersion_fields_def map_result_def)
  then have "\<exists>e. assign_members (npmPackageVersion_fields jd) members c = Inl e" for c
    using assign_members_Inl [OF assms(4)] assms(5) by metis
  then have ver: "\<exists>e. decode_struct jd (npmPackageVersion_fields jd) (JObject members) empty_version_doc = Inl e"
    by (simp add: decode_struct_def)
  have "\<exists>e. npmPackageResponse_fields jd ''versions'' (JObject versions) c = Some (Inl e)" for c
    using assign_map_Inl [where f = "\<lambda>j. decode_struct jd (npmPackageVersion_fields jd) j empty_version_doc", OF assms(3) ver,
        of jd "np_versions c"]
    by (auto simp: npmPackageResponse_fields_def map_result_def)
  then have "\<exists>e. assign_members (npmPackageResponse_fields jd) doc c = Inl e" for c
    using assign_members_Inl [OF assms(1)] assms(2) by metis
  then show ?thesis by (simp add: decode_npm_package_def decode_struct_def)
qed

section \<open>The composite never fails\<close>

lemma run_refuse_answer: "fst (run_state (refuse_answer ep resp r) s) = r"
  by (simp add: refuse_answer_def split: prod.split)

lemma composite_total: "\<exists>m. fst (run_state (CompositeEnrich es artifact) s) = Inr (Some m)"
  by (simp add: CompositeEnrich_def split: prod.split)

text \<open>A source without evidence: it fails, or answers with the zero metadata.\<close>

definition no_evidence :: "artifact_metadata option result \<Rightarrow> bool" where
  "no_evidence r \<longleftrightarrow> (case r of Inr (Some m) \<Rightarrow> m = empty_metadata | _ \<Rightarrow> True)"

lemma merge_empty [simp]: "mergeMetadata m empty_metadata = m"
  by (simp add: mergeMetadata_def empty_metadata_def)

lemma merge_empty_left [simp]: "mergeMetadata empty_metadata m = m"
  by (cases m) (simp add: mergeMetadata_def empty_metadata_def split: option.split)

lemma merge_assoc: "mergeMetadata (mergeMetadata a b) c = mergeMetadata a (mergeMetadata b c)"
  by (simp add: mergeMetadata_def split: option.split)

lemma composite_loop_no_evidence:
  "(\<And>e s. e \<in> set es \<Longrightarrow> no_evidence (fst (run_state (e artifact) s))) \<Longrightarrow>
   fst (run_state (composite_loop es artifact merged) s) = merged"
proof (induction es arbitrary: s merged)
  case (Cons e es)
  obtain r s1 where r: "run_state (e artifact) s = (r, s1)" by fastforce
  have "no_evidence r" using Cons.prems [of e s] by (simp add: r)
  then have "(case r of Inr (Some meta) \<Rightarrow> mergeMetadata merged meta | _ \<Rightarrow> merged) = merged"
    by (auto simp: no_evidence_def split: sum.splits option.splits)
  with Cons show ?case by (simp add: r)
qed simp

text \<open>Nothing leaves the machine: every request fails before an answer.\<close>

definition unreachable_services :: "('b, 's) enricher_port \<Rightarrow> bool" where
  "unreachable_services ep \<longleftrightarrow>
     (\<forall>q s. \<exists>e. fst (run_state (tr_do (ep_transport ep) q) s) = Inl e) \<and>
     (\<forall>q payload s. \<exists>e. fst (run_state (ep_send ep q payload) s) = Inl e)"

lemma unreachable_do:
  "unreachable_services ep \<Longrightarrow> run_state (tr_do (ep_transport ep) q) s = (r, s') \<Longrightarrow> \<exists>e. r = Inl e"
  unfolding unreachable_services_def by (metis fst_conv)

lemma unreachable_send:
  "unreachable_services ep \<Longrightarrow> run_state (ep_send ep q payload) s = (r, s') \<Longrightarrow> \<exists>e. r = Inl e"
  unfolding unreachable_services_def by (metis fst_conv)

lemma osv_unreachable:
  assumes "unreachable_services ep" shows "no_evidence (fst (run_state (OSVEnrich ep artifact) s))"
  by (auto simp: OSVEnrich_def no_evidence_def Let_def split: prod.split sum.split
      dest!: unreachable_send [OF assms])

lemma npm_fetch_unreachable:
  assumes "unreachable_services ep"
  shows "\<exists>e s'. run_state (fetchPackageMetadata ep name) s = (Inl e, s')"
  by (auto simp: fetchPackageMetadata_def split: prod.split sum.split dest!: unreachable_do [OF assms])

lemma npm_unreachable:
  assumes "unreachable_services ep" shows "no_evidence (fst (run_state (NPMEnrich ep sc artifact) s))"
proof -
  obtain e s' where "run_state (fetchPackageMetadata ep (buildPackageName artifact)) s = (Inl e, s')"
    using npm_fetch_unreachable [OF assms] by blast
  then show ?thesis by (simp add: NPMEnrich_def no_evidence_def)
qed

lemma run_composite:
  "fst (run_state (CompositeEnrich es artifact) s) =
     Inr (Some (fst (run_state (composite_loop es artifact empty_metadata) s)))"
  by (simp add: CompositeEnrich_def split: prod.split del: composite_loop.simps)

lemma firewall_unreachable:
  assumes "unreachable_services ep"
  shows "fst (run_state (firewall_enricher ep artifact) s) = Inr (Some empty_metadata)"
proof -
  have "no_evidence (fst (run_state (e artifact) s))"
    if "e \<in> set [OSVEnrich ep, NPMEnrich ep (Some (ScorecardLookup ep))]" for e s
    using that osv_unreachable [OF assms] npm_unreachable [OF assms] by auto
  then show ?thesis by (simp only: firewall_enricher_def run_composite composite_loop_no_evidence)
qed

lemma record_audit_off: "\<not> Enabled a \<Longrightarrow> RecordAudit rt a ev = State_Monad.return (Inr ())"
  by (cases a) (simp_all add: Enabled_def RecordAudit_def)


section \<open>Witnesses\<close>

definition sample_version :: npm_version_doc where
  "sample_version = \<lparr>nv_license = JString ''(MIT OR GPL-3.0)'', nv_licenses = [], nv_repository = JNull\<rparr>"

definition sample_package :: npm_package_doc where
  "sample_package =
     \<lparr>np_time = [], np_versions = [(''1.0.0'', sample_version)],
      np_repository = JObject [(''type'', JString ''git''), (''url'', JString ''git+https://github.com/o/r.git'')]\<rparr>"

lemma sample_items: "license_items sample_version = [''MIT'', ''GPL-3.0'']"
  by code_simp

lemma sample_extracted: "extractVersionLicenses sample_version = [''MIT'', ''GPL-3.0'']"
  by (simp add: extractVersionLicenses_def sample_items) code_simp


lemma scorecard_query_names_project_witness:
  "path_word ''o'' \<and> path_word ''r''"
proof -
  have "resolveSourceRepository (\<lambda>_. Inr (''github.com'', ''/o/r.git'')) sample_package sample_version =
      (Some \<lparr>repo_host = ''github.com'', repo_owner = ''o'', repo_repo = ''r''\<rparr>, [])"
    by code_simp
  from scorecard_query_names_project [OF this] show ?thesis by simp
qed

lemma one_version_hides_package_witness:
  "\<exists>e. decode_npm_package \<lparr>jd_mismatch = (\<lambda>_ _. []), jd_float = (\<lambda>_. None)\<rparr>
     (JObject [(''versions'', JObject [(''1.0.0'', JObject [(''license'', JString ''MIT'')]),
        (''0.0.1'', JObject [(''licenses'', JString ''MIT'')])])]) = Inl e"
proof -
  let ?old = "JObject [(''licenses'', JString ''MIT'')]"
  let ?versions = "[(''1.0.0'', JObject [(''license'', JString ''MIT'')]), (''0.0.1'', ?old)]"
  have v: "to_lower ''versions'' = ''versions''" and l: "to_lower ''licenses'' = ''licenses''" by code_simp+
  have doc: "(''versions'', JObject ?versions) \<in> set [(''versions'', JObject ?versions)]"
    and old: "(''0.0.1'', ?old) \<in> set ?versions"
    and written: "(''licenses'', JString ''MIT'') \<in> set [(''licenses'', JString ''MIT'')]"
    by (simp_all only: list.set insert_iff simp_thms)
  show ?thesis by (rule one_version_hides_package [OF doc v old written l]) simp
qed

definition unplugged :: "(unit, unit) enricher_port" where
  "unplugged =
     \<lparr>ep_transport = \<lparr>tr_do = (\<lambda>_. State_Monad.return (Inl (plain_error ''no route to host''))),
        tr_read_all = (\<lambda>_. State_Monad.return []), tr_close = (\<lambda>_. State_Monad.return ()),
        tr_parse_url = (\<lambda>_. Inr \<lparr>url_scheme = ''https'', url_host = ''h'', url_path = ''/''\<rparr>)\<rparr>,
      ep_send = (\<lambda>_ _. State_Monad.return (Inl (plain_error ''no route to host''))),
      ep_marshal = (\<lambda>_. Inr ''{}''), ep_json = (\<lambda>_. Inr JNull),
      ep_decoder = \<lparr>jd_mismatch = (\<lambda>_ _. []), jd_float = (\<lambda>_. None)\<rparr>,
      ep_parse_float = (\<lambda>_. None), ep_cvss = (\<lambda>_ _. None), ep_time = (\<lambda>_. Inl (plain_error [])),
      ep_host_path = (\<lambda>_. Inl (plain_error []))\<rparr>"

definition sample_enrichment :: "unit enrichment_service" where
  "sample_enrichment =
     \<lparr>enr_enrich = firewall_enricher unplugged, enr_cache_get = (\<lambda>_ _. State_Monad.return (Inr None)),
      enr_cache_set = (\<lambda>_ _ _ _. State_Monad.return (Inr ())), enr_audit = None\<rparr>"

definition skip_unlicensed :: license_allowlist_config_v2 where
  "skip_unlicensed =
     \<lparr>licv2_licenses = [''mit''], licv2_unlicensed_behavior = LicenseAllowlistMissingBehaviorSkip,
      licv2_unavailable_behavior = LicenseAllowlistMissingBehaviorDeny, licv2_dry_run = False\<rparr>"


end
