(* ===== verification/Runtime_Config.thy ===== *)
theory Runtime_Config
  imports Wire_Ingest Go_Path
begin

text \<open>
  The configuration of a process: its sections with their defaults, loading and validation (\<open>config/config.go\<close>) and the
  messages of the tag validator (\<open>validation/validator.go\<close>).

  The reader of files and environment variables and the validator of struct tags are libraries. The first is a port whose
  decoding starts from the configuration of the defaults; the second is a function from the tagged fields, in the order
  of the structs, to the first error, and \<open>validator_laws\<close> states its documented behaviour. \<open>url.Parse\<close> and base64 are
  arguments.

  The lemmas show what a validated configuration guarantees, mode by mode.
\<close>

section \<open>Sections\<close>

type_synonym runtime_mode = string

abbreviation RuntimeModeAllInOne :: runtime_mode where "RuntimeModeAllInOne \<equiv> ''all-in-one''"
abbreviation RuntimeModeControlPlane :: runtime_mode where "RuntimeModeControlPlane \<equiv> ''control-plane''"
abbreviation RuntimeModeProxy :: runtime_mode where "RuntimeModeProxy \<equiv> ''proxy''"
abbreviation RuntimeModeDependencyGraphWorker :: runtime_mode where
  "RuntimeModeDependencyGraphWorker \<equiv> ''dependency-graph-worker''"

record server_config =
  svr_port :: int
  svr_read_timeout :: duration
  svr_write_timeout :: duration
  svr_idle_timeout :: duration

record oci_cache_s3_config =
  s3_bucket :: string
  s3_prefix :: string
  s3_region :: string
  s3_endpoint :: string

record oci_cache_gcs_config =
  gcs_bucket :: string
  gcs_prefix :: string

record oci_cache_config =
  occ_enabled :: bool
  occ_backend :: string
  occ_root_dir :: string
  occ_max_bytes :: int
  occ_max_age :: duration
  occ_max_entries :: int
  occ_s3 :: oci_cache_s3_config
  occ_gcs :: oci_cache_gcs_config

record database_config =
  dbc_dsn :: string
  dbc_max_open_conns :: int
  dbc_max_idle_conns :: int
  dbc_conn_max_lifetime :: duration

record valkey_config =
  vkc_addr :: string
  vkc_password :: string
  vkc_db :: int

record log_config =
  lgc_level :: string
  lgc_format :: string

record sql_tracing_config =
  sqt_trim_sql_in_span_name :: bool
  sqt_disable_sql_statement_in_attributes :: bool

record telemetry_config =
  tlm_enabled :: bool
  tlm_endpoint :: string
  tlm_protocol :: string
  tlm_insecure :: bool
  tlm_sample_ratio :: float64
  tlm_stdout :: bool
  tlm_headers :: "(string \<times> string) list"
  tlm_sql_tracing :: sql_tracing_config

record audit_config =
  auc_enabled :: bool
  auc_slog :: bool
  auc_postgres :: bool
  auc_failure_mode :: string
  auc_detail_level :: string

text \<open>The slice of clients may be nil, \<^const>\<open>None\<close>.\<close>

record bundle_tls_config =
  btc_mode :: string
  btc_ca_file :: string
  btc_cert_file :: string
  btc_key_file :: string
  btc_server_name_override :: string
  btc_allow_insecure_control_plane :: bool
  btc_authorized_clients :: "authorized_client list option"

record bundle_config =
  bdc_listen_addr :: string
  bdc_control_plane_addr :: string
  bdc_refresh_interval :: duration
  bdc_tls :: bundle_tls_config

record dependency_graph_config =
  dgc_enabled :: bool
  dgc_run_in_process :: bool
  dgc_tenant_id :: string
  dgc_poll_interval :: duration
  dgc_timeout :: duration
  dgc_concurrency :: int
  dgc_retry_delay :: duration

record config =
  cfg_runtime_mode :: runtime_mode
  cfg_server :: server_config
  cfg_oci_cache :: oci_cache_config
  cfg_database :: database_config
  cfg_valkey :: valkey_config
  cfg_log :: log_config
  cfg_telemetry :: telemetry_config
  cfg_audit :: audit_config
  cfg_health_proxy_url :: string
  cfg_bundle :: bundle_config
  cfg_upstream_auth_key :: string
  cfg_dependency_graph :: dependency_graph_config

section \<open>Tags\<close>

datatype validation_rule =
    Required
  | NotBlank
  | OmitEmpty
  | OneOf "string list"
  | Gt int
  | Gte int
  | Lte int

text \<open>A struct is known by whether it is the zero value.\<close>

datatype field_value = TextField string | NumberField rat | StructField bool

type_synonym tagged_field = "string \<times> field_value \<times> validation_rule list"

record field_error =
  fe_namespace :: string
  fe_field :: string
  fe_tag :: string
  fe_param :: string

definition zero_server :: server_config where
  "zero_server = \<lparr>svr_port = 0, svr_read_timeout = 0, svr_write_timeout = 0, svr_idle_timeout = 0\<rparr>"

definition zero_valkey :: valkey_config where "zero_valkey = \<lparr>vkc_addr = [], vkc_password = [], vkc_db = 0\<rparr>"

definition zero_log :: log_config where "zero_log = \<lparr>lgc_level = [], lgc_format = []\<rparr>"

definition zero_audit :: audit_config where
  "zero_audit = \<lparr>auc_enabled = False, auc_slog = False, auc_postgres = False, auc_failure_mode = [], auc_detail_level = []\<rparr>"

definition zero_bundle :: bundle_config where
  "zero_bundle =
     \<lparr>bdc_listen_addr = [], bdc_control_plane_addr = [], bdc_refresh_interval = 0,
      bdc_tls = \<lparr>btc_mode = [], btc_ca_file = [], btc_cert_file = [], btc_key_file = [], btc_server_name_override = [],
        btc_allow_insecure_control_plane = False, btc_authorized_clients = None\<rparr>\<rparr>"

text \<open>The \<open>validate\<close> tags of the structs.\<close>

definition runtime_modes :: "string list" where
  "runtime_modes = [''all-in-one'', ''control-plane'', ''proxy'', ''dependency-graph-worker'']"

definition server_fields :: "server_config \<Rightarrow> tagged_field list" where
  "server_fields c =
     [(''Config.server'', StructField (c = zero_server), [Required]),
      (''Config.server.port'', NumberField (of_int (svr_port c)), [Gte 1, Lte 65535]),
      (''Config.server.read_timeout'', NumberField (of_int (svr_read_timeout c)), [Gt 0]),
      (''Config.server.write_timeout'', NumberField (of_int (svr_write_timeout c)), [Gte 0]),
      (''Config.server.idle_timeout'', NumberField (of_int (svr_idle_timeout c)), [Gt 0])]"

definition oci_cache_fields :: "oci_cache_config \<Rightarrow> tagged_field list" where
  "oci_cache_fields c =
     [(''Config.oci_cache.backend'', TextField (occ_backend c), [OmitEmpty, OneOf [''disk'', ''s3'', ''gcs'']]),
      (''Config.oci_cache.max_bytes'', NumberField (of_int (occ_max_bytes c)), [Gte 0]),
      (''Config.oci_cache.max_age'', NumberField (of_int (occ_max_age c)), [Gte 0]),
      (''Config.oci_cache.max_entries'', NumberField (of_int (occ_max_entries c)), [Gte 0])]"

definition valkey_fields :: "valkey_config \<Rightarrow> tagged_field list" where
  "valkey_fields c =
     [(''Config.valkey'', StructField (c = zero_valkey), [Required]),
      (''Config.valkey.addr'', TextField (vkc_addr c), [NotBlank]),
      (''Config.valkey.db'', NumberField (of_int (vkc_db c)), [Gte 0])]"

definition log_fields :: "log_config \<Rightarrow> tagged_field list" where
  "log_fields c =
     [(''Config.log'', StructField (c = zero_log), [Required]),
      (''Config.log.level'', TextField (lgc_level c), [OneOf [''debug'', ''info'', ''warn'', ''error'']]),
      (''Config.log.format'', TextField (lgc_format c), [OneOf [''json'', ''text'']])]"

definition telemetry_fields :: "telemetry_config \<Rightarrow> tagged_field list" where
  "telemetry_fields c =
     [(''Config.telemetry.protocol'', TextField (tlm_protocol c), [OmitEmpty, OneOf [''grpc'', ''http/protobuf'']]),
      (''Config.telemetry.sample_ratio'', NumberField (tlm_sample_ratio c), [Gte 0, Lte 1])]"

definition audit_fields :: "audit_config \<Rightarrow> tagged_field list" where
  "audit_fields c =
     [(''Config.audit'', StructField (c = zero_audit), [Required]),
      (''Config.audit.failure_mode'', TextField (auc_failure_mode c), [OneOf [''fail_open'', ''fail_closed'']]),
      (''Config.audit.detail_level'', TextField (auc_detail_level c), [OneOf [''minimal'', ''summary'', ''full'']])]"

definition bundle_fields :: "bundle_config \<Rightarrow> tagged_field list" where
  "bundle_fields c =
     [(''Config.bundle'', StructField (c = zero_bundle), [Required]),
      (''Config.bundle.refresh_interval'', NumberField (of_int (bdc_refresh_interval c)), [Gte 0]),
      (''Config.bundle.tls.mode'', TextField (btc_mode (bdc_tls c)), [OneOf [''insecure'', ''mtls'']])]"

definition config_fields :: "config \<Rightarrow> tagged_field list" where
  "config_fields c =
     [(''Config.runtime'', StructField (cfg_runtime_mode c = []), [Required]),
      (''Config.runtime.mode'', TextField (cfg_runtime_mode c), [Required, OneOf runtime_modes])] @
     server_fields (cfg_server c) @ oci_cache_fields (cfg_oci_cache c) @ valkey_fields (cfg_valkey c) @
     log_fields (cfg_log c) @ telemetry_fields (cfg_telemetry c) @ audit_fields (cfg_audit c) @
     bundle_fields (cfg_bundle c)"

section \<open>Messages of the validator\<close>

definition notBlank :: "field_value \<Rightarrow> bool" where
  "notBlank v = (case v of TextField s \<Rightarrow> trim_space s \<noteq> [] | _ \<Rightarrow> False)"

definition fieldPath :: "field_error \<Rightarrow> string" where
  "fieldPath e =
     (if fe_namespace e = [] then fe_field e
      else
        (let parts = split_by (\<lambda>c. c = CHR ''.'') (fe_namespace e)
         in if length parts \<le> 1 then fe_namespace e else join ''.'' (tl parts)))"

definition fieldErrorMessage :: "field_error \<Rightarrow> string" where
  "fieldErrorMessage e =
     (let field = ''field '' @ quote (fieldPath e); tag = fe_tag e; p = fe_param e
      in if tag = ''required'' \<or> tag = ''notblank'' then field @ '' is required''
         else if tag = ''oneof'' then field @ '' must be one of ['' @ p @ '']''
         else if tag = ''url'' then field @ '' must be a valid URL''
         else if tag = ''gt'' then field @ '' must be greater than '' @ p
         else if tag = ''gte'' then field @ '' must be greater than or equal to '' @ p
         else if tag = ''lt'' then field @ '' must be less than '' @ p
         else if tag = ''lte'' then field @ '' must be less than or equal to '' @ p
         else field @ '' is invalid'')"

section \<open>Validation\<close>

record parsed_url =
  pu_scheme :: string
  pu_host :: string
  pu_raw_query :: string
  pu_fragment :: string

record config_env =
  cv_validate :: "tagged_field list \<Rightarrow> field_error option"
  cv_parse_url :: "string \<Rightarrow> parsed_url result"
  cv_decode64 :: "string \<Rightarrow> string result"

definition invalid_config :: "string \<Rightarrow> unit result" where
  "invalid_config m = Inl (plain_error (''invalid config: '' @ m))"

definition blank :: "string \<Rightarrow> bool" where "blank s \<longleftrightarrow> trim_space s = []"

definition required_field :: "string \<Rightarrow> string \<Rightarrow> unit result" where
  "required_field key reason = invalid_config (''field '' @ quote key @ '' is required when '' @ reason)"

definition equal_fold :: "string \<Rightarrow> string \<Rightarrow> bool" where
  "equal_fold s t \<longleftrightarrow> to_lower s = to_lower t"

definition validateDatabase :: "config \<Rightarrow> unit result" where
  "validateDatabase c =
     (let db = cfg_database c; owner = cfg_runtime_mode c \<noteq> RuntimeModeProxy \<and> cfg_runtime_mode c \<noteq> RuntimeModeDependencyGraphWorker
      in if owner \<and> blank (dbc_dsn db) then
           required_field ''database.dsn'' (''runtime.mode is '' @ quote (cfg_runtime_mode c))
         else if owner \<and> dbc_max_open_conns db \<le> 0 then
           invalid_config (''field '' @ quote ''database.max_open_conns'' @ '' must be greater than 0'')
         else if owner \<and> dbc_max_idle_conns db < 0 then
           invalid_config (''field '' @ quote ''database.max_idle_conns'' @ '' must be greater than or equal to 0'')
         else if owner \<and> dbc_conn_max_lifetime db \<le> 0 then
           invalid_config (''field '' @ quote ''database.conn_max_lifetime'' @ '' must be greater than 0'')
         else if dbc_max_open_conns db < dbc_max_idle_conns db \<and> 0 < dbc_max_open_conns db then
           invalid_config (''field '' @ quote ''database.max_idle_conns'' @ '' must be less than or equal to '' @
             quote ''database.max_open_conns'')
         else Inr ())"

definition validateDependencyGraph :: "config \<Rightarrow> unit result" where
  "validateDependencyGraph c =
     (if dgc_enabled (cfg_dependency_graph c) \<and> blank (dgc_tenant_id (cfg_dependency_graph c)) then
        required_field ''dependency_graph.tenant_id'' ''dependency graph resolution is enabled''
      else Inr ())"

definition validateOCICache :: "config \<Rightarrow> unit result" where
  "validateOCICache c =
     (let o' = cfg_oci_cache c
      in if occ_enabled o' \<and> equal_fold (occ_backend o') ''disk'' \<and> blank (occ_root_dir o') then
           required_field ''oci_cache.root_dir'' (''OCI cache backend is '' @ quote ''disk'')
         else Inr ())"

definition validateHealth :: "config_env \<Rightarrow> config \<Rightarrow> unit result" where
  "validateHealth env c =
     (let proxyURL = trim_space (cfg_health_proxy_url c);
          bad = invalid_config (''field '' @ quote ''health.proxy_url'' @ '' must be a valid absolute URL'')
      in if proxyURL = [] then Inr ()
         else (case cv_parse_url env proxyURL of
             Inl _ \<Rightarrow> bad
           | Inr u \<Rightarrow> if pu_scheme u = [] \<or> pu_host u = [] then bad else Inr ()))"

definition validateTelemetry :: "config_env \<Rightarrow> config \<Rightarrow> unit result" where
  "validateTelemetry env c =
     (let t = cfg_telemetry c; endpoint = trim_space (tlm_endpoint t);
          bad = invalid_config (''field '' @ quote ''telemetry.endpoint'' @
            '' must be a valid absolute URL without query or fragment'')
      in if \<not> tlm_enabled t then Inr ()
         else if endpoint = [] \<and> \<not> tlm_stdout t then
           invalid_config (''either '' @ quote ''telemetry.endpoint'' @ '' must be set or '' @ quote ''telemetry.stdout'' @
             '' must be true when telemetry is enabled'')
         else if endpoint = [] then Inr ()
         else (case cv_parse_url env endpoint of
             Inl _ \<Rightarrow> bad
           | Inr u \<Rightarrow>
               if pu_scheme u = [] \<or> pu_host u = [] \<or> pu_raw_query u \<noteq> [] \<or> pu_fragment u \<noteq> [] then bad else Inr ()))"

definition validateSecrets :: "config_env \<Rightarrow> config \<Rightarrow> unit result" where
  "validateSecrets env c =
     (let key = trim_space (cfg_upstream_auth_key c);
          bad = invalid_config (''field '' @ quote ''secrets.upstream_auth_key'' @ '' must be a base64 encoded 32-byte key'')
      in if key = [] then Inr ()
         else (case cv_decode64 env key of
             Inl _ \<Rightarrow> bad
           | Inr decoded \<Rightarrow> if length decoded \<noteq> 32 then bad else Inr ()))"

definition client_key :: "nat \<Rightarrow> string \<Rightarrow> string" where
  "client_key i suffix = ''bundle.tls.authorized_clients['' @ show_nat i @ '']'' @ suffix"

fun tenant_ids_loop :: "nat \<Rightarrow> nat \<Rightarrow> string list \<Rightarrow> unit result" where
  "tenant_ids_loop i j [] = Inr ()"
| "tenant_ids_loop i j (t # ts) =
     (if blank t then
        invalid_config (''field '' @ quote (client_key i (''.tenant_ids['' @ show_nat j @ '']'')) @ '' must not be blank'')
      else tenant_ids_loop i (Suc j) ts)"

fun clients_loop :: "nat \<Rightarrow> authorized_client list \<Rightarrow> unit result" where
  "clients_loop i [] = Inr ()"
| "clients_loop i (client # clients) =
     (if blank (client_identity client) then
        invalid_config (''field '' @ quote (client_key i ''.identity'') @ '' is required'')
      else if client_tenant_ids client = [] then
        invalid_config (''field '' @ quote (client_key i ''.tenant_ids'') @ '' must include at least one tenant id'')
      else bind_result (tenant_ids_loop i 0 (client_tenant_ids client)) (\<lambda>_. clients_loop (Suc i) clients))"

definition validateAuthorizedClients :: "config \<Rightarrow> unit result" where
  "validateAuthorizedClients c =
     (let tls = bdc_tls (cfg_bundle c); clients = slice_elems (btc_authorized_clients tls)
      in if clients = [] then
           required_field ''bundle.tls.authorized_clients''
             (''runtime.mode is '' @ quote (cfg_runtime_mode c) @ '' and bundle.tls.mode is '' @ quote (btc_mode tls))
         else clients_loop 0 clients)"

definition validateBundleTLS :: "config \<Rightarrow> unit result" where
  "validateBundleTLS c =
     (let tls = bdc_tls (cfg_bundle c);
          missing = (\<lambda>key. required_field key (''bundle.tls.mode is '' @ quote (btc_mode tls)))
      in if \<not> equal_fold (btc_mode tls) ''mtls'' then Inr ()
         else if blank (btc_ca_file tls) then missing ''bundle.tls.ca_file''
         else if blank (btc_cert_file tls) then missing ''bundle.tls.cert_file''
         else if blank (btc_key_file tls) then missing ''bundle.tls.key_file''
         else if cfg_runtime_mode c = RuntimeModeControlPlane then validateAuthorizedClients c
         else Inr ())"

definition validateControlPlaneBundle :: "config \<Rightarrow> unit result" where
  "validateControlPlaneBundle c =
     (let tls = bdc_tls (cfg_bundle c)
      in if cfg_runtime_mode c \<noteq> RuntimeModeControlPlane then Inr ()
         else if blank (bdc_listen_addr (cfg_bundle c)) then
           required_field ''bundle.listen_addr'' (''runtime.mode is '' @ quote (cfg_runtime_mode c))
         else if btc_mode tls \<noteq> ''mtls'' \<and> \<not> btc_allow_insecure_control_plane tls then
           invalid_config (''field '' @ quote ''bundle.tls.mode'' @ '' must be '' @ quote ''mtls'' @ '' when runtime.mode is '' @
             quote (cfg_runtime_mode c) @ '' unless '' @ quote ''bundle.tls.allow_insecure_control_plane'' @ '' is true'')
         else Inr ())"

definition validateBundleClient :: "config \<Rightarrow> unit result" where
  "validateBundleClient c =
     (let mode = cfg_runtime_mode c
      in if mode \<notin> {RuntimeModeAllInOne, RuntimeModeProxy, RuntimeModeDependencyGraphWorker} then Inr ()
         else if blank (bdc_control_plane_addr (cfg_bundle c)) then
           required_field ''bundle.control_plane_addr'' (''runtime.mode is '' @ quote mode)
         else if (mode = RuntimeModeProxy \<or> mode = RuntimeModeDependencyGraphWorker) \<and>
             btc_mode (bdc_tls (cfg_bundle c)) \<noteq> ''mtls'' then
           invalid_config (''field '' @ quote ''bundle.tls.mode'' @ '' must be '' @ quote ''mtls'' @
             '' when runtime.mode is '' @ quote mode)
         else Inr ())"

text \<open>\<^const>\<open>None\<close> is the nil configuration.\<close>

definition Validate :: "config_env \<Rightarrow> config option \<Rightarrow> unit result" where
  "Validate env c0 =
     (case c0 of
        None \<Rightarrow> invalid_config ''config is required''
      | Some c \<Rightarrow>
          (case cv_validate env (config_fields c) of
             Some e \<Rightarrow> invalid_config (fieldErrorMessage e)
           | None \<Rightarrow>
               bind_result (validateDatabase c) (\<lambda>_.
               bind_result (validateDependencyGraph c) (\<lambda>_.
               bind_result (validateOCICache c) (\<lambda>_.
               bind_result (validateHealth env c) (\<lambda>_.
               bind_result (validateTelemetry env c) (\<lambda>_.
               bind_result (validateSecrets env c) (\<lambda>_.
               bind_result (validateBundleTLS c) (\<lambda>_.
               bind_result (validateControlPlaneBundle c) (\<lambda>_.
                 validateBundleClient c))))))))))"

section \<open>Defaults and loading\<close>

abbreviation one_second :: duration where "one_second \<equiv> 1000000000"

definition runtime_server_defaults :: "runtime_mode \<times> server_config" where
  "runtime_server_defaults =
     (RuntimeModeAllInOne,
      \<lparr>svr_port = 8080, svr_read_timeout = 5 * one_second, svr_write_timeout = 0, svr_idle_timeout = 120 * one_second\<rparr>)"

text \<open>The argument is the directory for temporary files.\<close>

definition defaultOCICacheRootDir :: "string \<Rightarrow> string" where
  "defaultOCICacheRootDir tempDir = path_join [tempDir, ''dependency-firewall'', ''oci'']"

definition oci_cache_defaults :: "string \<Rightarrow> oci_cache_config" where
  "oci_cache_defaults tempDir =
     \<lparr>occ_enabled = False, occ_backend = ''disk'', occ_root_dir = defaultOCICacheRootDir tempDir, occ_max_bytes = 0,
      occ_max_age = 0, occ_max_entries = 0,
      occ_s3 = \<lparr>s3_bucket = [], s3_prefix = [], s3_region = [], s3_endpoint = []\<rparr>,
      occ_gcs = \<lparr>gcs_bucket = [], gcs_prefix = []\<rparr>\<rparr>"

definition storage_defaults :: "database_config \<times> valkey_config" where
  "storage_defaults =
     (\<lparr>dbc_dsn = ''postgres://localhost:5432/firewall?sslmode=disable'', dbc_max_open_conns = 25,
       dbc_max_idle_conns = 5, dbc_conn_max_lifetime = 5 * (60 * one_second)\<rparr>,
      \<lparr>vkc_addr = ''localhost:6379'', vkc_password = [], vkc_db = 0\<rparr>)"

definition observability_defaults :: "log_config \<times> telemetry_config \<times> audit_config \<times> string" where
  "observability_defaults =
     (\<lparr>lgc_level = ''info'', lgc_format = ''json''\<rparr>,
      \<lparr>tlm_enabled = False, tlm_endpoint = ''http://localhost:4317'', tlm_protocol = ''grpc'', tlm_insecure = True,
       tlm_sample_ratio = 1, tlm_stdout = False, tlm_headers = [],
       tlm_sql_tracing = \<lparr>sqt_trim_sql_in_span_name = True, sqt_disable_sql_statement_in_attributes = True\<rparr>\<rparr>,
      \<lparr>auc_enabled = True, auc_slog = True, auc_postgres = True, auc_failure_mode = ''fail_closed'',
       auc_detail_level = ''summary''\<rparr>,
      [])"

definition bundle_defaults :: bundle_config where
  "bundle_defaults =
     \<lparr>bdc_listen_addr = '':9090'', bdc_control_plane_addr = ''127.0.0.1:9090'', bdc_refresh_interval = 30 * one_second,
      bdc_tls = \<lparr>btc_mode = ''insecure'', btc_ca_file = [], btc_cert_file = [], btc_key_file = [],
        btc_server_name_override = [], btc_allow_insecure_control_plane = False, btc_authorized_clients = Some []\<rparr>\<rparr>"

definition dependency_graph_defaults :: dependency_graph_config where
  "dependency_graph_defaults =
     \<lparr>dgc_enabled = True, dgc_run_in_process = False, dgc_tenant_id = ''*'', dgc_poll_interval = 5 * one_second,
      dgc_timeout = 2 * (60 * one_second), dgc_concurrency = 2, dgc_retry_delay = 5 * (60 * one_second)\<rparr>"

definition setDefaults :: "string \<Rightarrow> config" where
  "setDefaults tempDir =
     \<lparr>cfg_runtime_mode = fst runtime_server_defaults, cfg_server = snd runtime_server_defaults,
      cfg_oci_cache = oci_cache_defaults tempDir, cfg_database = fst storage_defaults, cfg_valkey = snd storage_defaults,
      cfg_log = fst observability_defaults, cfg_telemetry = fst (snd observability_defaults),
      cfg_audit = fst (snd (snd observability_defaults)), cfg_health_proxy_url = snd (snd (snd observability_defaults)),
      cfg_bundle = bundle_defaults, cfg_upstream_auth_key = [], cfg_dependency_graph = dependency_graph_defaults\<rparr>"

datatype config_source = ConfigFile string | ConfigSearch
datatype read_outcome = ConfigRead | ConfigFileNotFound | ReadFailed go_error

record viper =
  vp_read :: "config_source \<Rightarrow> read_outcome"
  vp_keys :: "string list"
  vp_bind_env :: "string \<Rightarrow> unit result"
  vp_unmarshal :: "config_source \<Rightarrow> config \<Rightarrow> config result"

fun bindEnvKeys :: "viper \<Rightarrow> string list \<Rightarrow> unit result" where
  "bindEnvKeys vp [] = Inr ()"
| "bindEnvKeys vp (key # keys) =
     (case vp_bind_env vp key of
        Inl e \<Rightarrow> Inl (wrap_error (''binding environment variable for '' @ quote key) e)
      | Inr _ \<Rightarrow> bindEnvKeys vp keys)"

definition LoadWithOptions :: "config_env \<Rightarrow> viper \<Rightarrow> string \<Rightarrow> string \<Rightarrow> config result" where
  "LoadWithOptions env vp tempDir configPath =
     (let source = (if blank configPath then ConfigSearch else ConfigFile configPath)
      in case vp_read vp source of
           ReadFailed e \<Rightarrow> Inl (wrap_error ''reading config file'' e)
         | _ \<Rightarrow>
             bind_result (bindEnvKeys vp (vp_keys vp)) (\<lambda>_.
             bind_result (map_error (wrap_error ''unmarshalling config'') (vp_unmarshal vp source (setDefaults tempDir))) (\<lambda>cfg.
             bind_result (Validate env (Some cfg)) (\<lambda>_. Inr cfg))))"

section \<open>Lemmas\<close>

fun field_zero :: "field_value \<Rightarrow> bool" where
  "field_zero (TextField s) = (s = [])"
| "field_zero (NumberField r) = (r = 0)"
| "field_zero (StructField z) = z"

fun rule_holds :: "validation_rule \<Rightarrow> field_value \<Rightarrow> bool" where
  "rule_holds Required v = (\<not> field_zero v)"
| "rule_holds NotBlank v = notBlank v"
| "rule_holds OmitEmpty v = True"
| "rule_holds (OneOf ts) v = (case v of TextField s \<Rightarrow> s \<in> set ts | _ \<Rightarrow> False)"
| "rule_holds (Gt n) v = (case v of NumberField r \<Rightarrow> of_int n < r | _ \<Rightarrow> False)"
| "rule_holds (Gte n) v = (case v of NumberField r \<Rightarrow> of_int n \<le> r | _ \<Rightarrow> False)"
| "rule_holds (Lte n) v = (case v of NumberField r \<Rightarrow> r \<le> of_int n | _ \<Rightarrow> False)"

fun rules_hold :: "validation_rule list \<Rightarrow> field_value \<Rightarrow> bool" where
  "rules_hold [] v = True"
| "rules_hold (OmitEmpty # rules) v = (field_zero v \<or> rules_hold rules v)"
| "rules_hold (rule # rules) v = (rule_holds rule v \<and> rules_hold rules v)"

text \<open>The validator accepts the fields whose rules hold.\<close>

definition validator_laws :: "config_env \<Rightarrow> bool" where
  "validator_laws env \<longleftrightarrow>
     (\<forall>fs. cv_validate env fs = None \<longleftrightarrow> list_all (\<lambda>(namespace, v, rules). rules_hold rules v) fs)"

lemma validator_lawsD:
  "validator_laws env \<Longrightarrow>
     cv_validate env fs = None \<longleftrightarrow> list_all (\<lambda>(namespace, v, rules). rules_hold rules v) fs"
  by (simp add: validator_laws_def)

lemma invalid_not_Inr [simp]: "invalid_config m \<noteq> Inr x" "required_field k r \<noteq> Inr x"
  by (simp_all add: invalid_config_def required_field_def)

lemma validate_iff:
  "Validate env (Some c) = Inr () \<longleftrightarrow> cv_validate env (config_fields c) = None \<and> validateDatabase c = Inr () \<and>
     validateDependencyGraph c = Inr () \<and> validateOCICache c = Inr () \<and> validateHealth env c = Inr () \<and>
     validateTelemetry env c = Inr () \<and> validateSecrets env c = Inr () \<and> validateBundleTLS c = Inr () \<and>
     validateControlPlaneBundle c = Inr () \<and> validateBundleClient c = Inr ()"
  by (auto simp: Validate_def bind_result_eq_Inr split: option.split)

lemma tenant_ids_loop_ok: "tenant_ids_loop i j ts = Inr () \<longleftrightarrow> (\<forall>t \<in> set ts. \<not> blank t)"
  by (induction ts arbitrary: j) auto

definition client_ok :: "authorized_client \<Rightarrow> bool" where
  "client_ok c \<longleftrightarrow> \<not> blank (client_identity c) \<and> client_tenant_ids c \<noteq> [] \<and> (\<forall>t \<in> set (client_tenant_ids c). \<not> blank t)"

lemma clients_loop_ok: "clients_loop i clients = Inr () \<longleftrightarrow> (\<forall>c \<in> set clients. client_ok c)"
  by (induction clients arbitrary: i) (auto simp: bind_result_eq_Inr tenant_ids_loop_ok client_ok_def)

lemma fields_holds:
  "validator_laws env \<Longrightarrow> Validate env (Some c) = Inr () \<Longrightarrow> (namespace, v, rules) \<in> set (config_fields c) \<Longrightarrow>
     rules_hold rules v"
  by (auto simp: validate_iff validator_lawsD list_all_iff)

lemma validated_modes:
  assumes "validator_laws env" "Validate env (Some c) = Inr ()"
  shows "cfg_runtime_mode c \<in> set runtime_modes" "btc_mode (bdc_tls (cfg_bundle c)) \<in> {''insecure'', ''mtls''}"
proof -
  note f = fields_holds [OF assms]
  have m: "(''Config.runtime.mode'', TextField (cfg_runtime_mode c), [Required, OneOf runtime_modes]) \<in> set (config_fields c)"
    by (simp add: config_fields_def)
  show "cfg_runtime_mode c \<in> set runtime_modes" using f [OF m] by simp
  have t: "(''Config.bundle.tls.mode'', TextField (btc_mode (bdc_tls (cfg_bundle c))), [OneOf [''insecure'', ''mtls'']])
      \<in> set (config_fields c)"
    by (simp add: config_fields_def bundle_fields_def)
  show "btc_mode (bdc_tls (cfg_bundle c)) \<in> {''insecure'', ''mtls''}" using f [OF t] by simp
qed

lemma validated_tls:
  assumes "Validate env (Some c) = Inr ()" "btc_mode (bdc_tls (cfg_bundle c)) = ''mtls''"
  shows "\<not> blank (btc_ca_file (bdc_tls (cfg_bundle c)))" "\<not> blank (btc_cert_file (bdc_tls (cfg_bundle c)))"
    "\<not> blank (btc_key_file (bdc_tls (cfg_bundle c)))"
    "cfg_runtime_mode c = RuntimeModeControlPlane \<Longrightarrow> slice_elems (btc_authorized_clients (bdc_tls (cfg_bundle c))) \<noteq> [] \<and>
       (\<forall>cl \<in> set (slice_elems (btc_authorized_clients (bdc_tls (cfg_bundle c)))). client_ok cl)"
  using assms
  by (auto simp: validate_iff validateBundleTLS_def validateAuthorizedClients_def equal_fold_def Let_def clients_loop_ok
      split: if_splits)

lemma validated_split_mode:
  assumes "Validate env (Some c) = Inr ()"
  shows "cfg_runtime_mode c \<in> {RuntimeModeProxy, RuntimeModeDependencyGraphWorker} \<Longrightarrow>
       btc_mode (bdc_tls (cfg_bundle c)) = ''mtls''"
    "cfg_runtime_mode c = RuntimeModeControlPlane \<Longrightarrow> btc_allow_insecure_control_plane (bdc_tls (cfg_bundle c)) = False \<Longrightarrow>
       btc_mode (bdc_tls (cfg_bundle c)) = ''mtls''"
  using assms
  by (auto simp: validate_iff validateBundleClient_def validateControlPlaneBundle_def Let_def split: if_splits)

lemma validated_key:
  assumes "Validate env (Some c) = Inr ()" "trim_space (cfg_upstream_auth_key c) \<noteq> []"
  shows "\<exists>key. cv_decode64 env (trim_space (cfg_upstream_auth_key c)) = Inr key \<and> length key = 32"
  using assms by (auto simp: validate_iff validateSecrets_def Let_def split: sum.splits if_splits)

section \<open>Properties\<close>

lemma default_rules_hold:
  "list_all (\<lambda>(namespace, v, rules). rules_hold rules v) (config_fields ((setDefaults tempDir)\<lparr>cfg_runtime_mode := m\<rparr>)) \<longleftrightarrow>
     m \<in> set runtime_modes"
  by (auto simp: config_fields_def setDefaults_def runtime_server_defaults_def oci_cache_defaults_def storage_defaults_def
      observability_defaults_def bundle_defaults_def server_fields_def oci_cache_fields_def valkey_fields_def log_fields_def
      telemetry_fields_def audit_fields_def bundle_fields_def zero_server_def zero_valkey_def zero_log_def zero_audit_def
      zero_bundle_def notBlank_def trim_space_def trim_by_def is_space_def byte_def runtime_modes_def)

lemma bind_env_ok: "\<forall>key \<in> set keys. vp_bind_env vp key = Inr () \<Longrightarrow> bindEnvKeys vp keys = Inr ()"
  by (induction keys) simp_all

lemma default_modes:
  assumes "validator_laws env"
  shows "Validate env (Some ((setDefaults tempDir)\<lparr>cfg_runtime_mode := m\<rparr>)) = Inr () \<longleftrightarrow> m = RuntimeModeAllInOne"
proof
  let ?c = "(setDefaults tempDir)\<lparr>cfg_runtime_mode := m\<rparr>"
  assume v: "Validate env (Some ?c) = Inr ()"
  have "btc_mode (bdc_tls (cfg_bundle ?c)) = ''insecure''" "\<not> btc_allow_insecure_control_plane (bdc_tls (cfg_bundle ?c))"
    by (simp_all add: setDefaults_def bundle_defaults_def)
  with validated_split_mode [OF v] validated_modes(1) [OF assms v] show "m = RuntimeModeAllInOne"
    by (auto simp: runtime_modes_def)
next
  assume m: "m = RuntimeModeAllInOne"
  let ?c = "(setDefaults tempDir)\<lparr>cfg_runtime_mode := m\<rparr>"
  have "cv_validate env (config_fields ?c) = None"
    using default_rules_hold [where tempDir = tempDir and m = m] by (simp add: validator_lawsD [OF assms] m runtime_modes_def)
  moreover have "\<not> equal_fold ''insecure'' ''mtls''" by code_simp
  ultimately show "Validate env (Some ?c) = Inr ()"
    by (simp add: validate_iff m setDefaults_def validateDatabase_def validateDependencyGraph_def validateOCICache_def
        validateHealth_def validateTelemetry_def validateSecrets_def validateBundleTLS_def validateControlPlaneBundle_def
        validateBundleClient_def Let_def runtime_server_defaults_def oci_cache_defaults_def storage_defaults_def
        observability_defaults_def bundle_defaults_def dependency_graph_defaults_def blank_def trim_space_def
        trim_by_def is_space_def byte_def)
qed

text \<open>With no file and no environment variable the process loads the defaults and runs all in one; choosing another
  mode and nothing else never loads, because the control plane, the proxies and the workers all need certificates.\<close>

lemma default_configuration_loads:
  assumes "validator_laws env" "vp_read vp ConfigSearch = ConfigFileNotFound" "\<forall>key \<in> set (vp_keys vp). vp_bind_env vp key = Inr ()"
    "blank configPath" "vp_unmarshal vp ConfigSearch (setDefaults tempDir) = Inr ((setDefaults tempDir)\<lparr>cfg_runtime_mode := m\<rparr>)"
  shows "(m = RuntimeModeAllInOne \<longrightarrow> LoadWithOptions env vp tempDir configPath = Inr (setDefaults tempDir)) \<and>
    (m \<noteq> RuntimeModeAllInOne \<longrightarrow> (\<exists>e. LoadWithOptions env vp tempDir configPath = Inl e))"
proof -
  have bind: "bindEnvKeys vp (vp_keys vp) = Inr ()" using assms(3) by (rule bind_env_ok)
  have load: "LoadWithOptions env vp tempDir configPath =
      bind_result (Validate env (Some ((setDefaults tempDir)\<lparr>cfg_runtime_mode := m\<rparr>))) (\<lambda>_. Inr ((setDefaults tempDir)\<lparr>cfg_runtime_mode := m\<rparr>))"
    using assms(2,4,5) bind by (simp add: LoadWithOptions_def Let_def)
  have "(setDefaults tempDir)\<lparr>cfg_runtime_mode := RuntimeModeAllInOne\<rparr> = setDefaults tempDir"
    by (simp add: setDefaults_def runtime_server_defaults_def)
  with load default_modes [OF assms(1), where tempDir = tempDir and m = m] show ?thesis
    by (cases "Validate env (Some ((setDefaults tempDir)\<lparr>cfg_runtime_mode := m\<rparr>))") (auto simp: bind_result_def)
qed

section \<open>Witnesses\<close>

fun first_error :: "tagged_field list \<Rightarrow> field_error option" where
  "first_error [] = None"
| "first_error ((namespace, v, rules) # fs) =
     (if rules_hold rules v then first_error fs
      else Some \<lparr>fe_namespace = namespace, fe_field = [], fe_tag = ''required'', fe_param = []\<rparr>)"

definition sample_config_env :: config_env where
  "sample_config_env =
     \<lparr>cv_validate = first_error, cv_parse_url = (\<lambda>_. Inl (plain_error ''parse'')),
      cv_decode64 = (\<lambda>s. Inr (replicate 32 (CHR ''k'')))\<rparr>"

lemma sample_validator: "validator_laws sample_config_env"
proof -
  have "first_error fs = None \<longleftrightarrow> list_all (\<lambda>(namespace, v, rules). rules_hold rules v) fs" for fs
    by (induction fs rule: first_error.induct) auto
  then show ?thesis by (simp add: validator_laws_def sample_config_env_def)
qed

definition sample_viper :: "runtime_mode \<Rightarrow> viper" where
  "sample_viper m =
     \<lparr>vp_read = (\<lambda>_. ConfigFileNotFound), vp_keys = [''runtime.mode''], vp_bind_env = (\<lambda>_. Inr ()),
      vp_unmarshal = (\<lambda>_ c. Inr (c\<lparr>cfg_runtime_mode := m\<rparr>))\<rparr>"

lemma default_configuration_loads_witness:
  "LoadWithOptions sample_config_env (sample_viper RuntimeModeAllInOne) ''/tmp'' [] = Inr (setDefaults ''/tmp'')"
proof -
  have "blank []" by (simp add: blank_def)
  then show ?thesis
    using default_configuration_loads [OF sample_validator, of "sample_viper RuntimeModeAllInOne" "[]" "''/tmp''" RuntimeModeAllInOne]
    by (simp add: sample_viper_def)
qed

end
