(* ===== verification/Secret_Envelopes.thy ===== *)
theory Secret_Envelopes
  imports Domain_Errors "HOL-Library.State_Monad" "HOL-Library.Monad_Syntax"
begin

text \<open>
  The envelopes of upstream secrets (\<open>infra/secrets\<close>): the AES-256-GCM envelope in which the control plane stores a
  secret (\<open>codec.go\<close>), and the hybrid envelope in which it sends the secret to one proxy (\<open>hybrid.go\<close>).

  Ciphers, key agreement, key derivation, base64 and the JSON codec are arguments over an arbitrary source of
  randomness. \<open>cipher.AEAD\<close> panics when it is given a nonce of the wrong length; a decryption that may do so has the
  outcome \<open>Panics\<close>. The clearing of key buffers is left out.

  The lemmas show that an envelope is opened to the secret it was made of by the holder of the key, under the documented
  laws of the primitives, when a decryption panics, and what a resolver that insists on envelopes lets through.
\<close>

section \<open>Primitives\<close>

datatype 'a outcome = Returned "'a result" | Panics

record aead =
  aead_nonce_size :: nat
  aead_seal :: "string \<Rightarrow> string \<Rightarrow> string"
  aead_open :: "string \<Rightarrow> string \<Rightarrow> string result"

datatype ec_curve = P256 | P384 | P521 | OtherCurve

text \<open>The dynamic types of a key behind \<open>any\<close>; the last constructor is any other type with its name.\<close>

datatype ('r, 'e) asymmetric_key = RSAKey 'r | ECDSAKey ec_curve 'e | OtherKey string

record envelope =
  env_version :: int
  env_nonce :: string
  env_ciphertext :: string

record hybrid_envelope =
  hyb_version :: int
  hyb_alg :: string
  hyb_ephemeral_pub :: string
  hyb_encrypted_key :: string
  hyb_nonce :: string
  hyb_ciphertext :: string

record ('rp, 'rs, 'ep, 'es, 'b, 's) crypto =
  cr_random :: "nat \<Rightarrow> ('s, string result) state"
  cr_aes :: "string \<Rightarrow> 'b result"
  cr_gcm :: "'b \<Rightarrow> aead result"
  cr_oaep_encrypt :: "'rp \<Rightarrow> string \<Rightarrow> ('s, string result) state"
  cr_oaep_decrypt :: "'rs \<Rightarrow> string \<Rightarrow> string result"
  cr_generate :: "ec_curve \<Rightarrow> ('s, 'es result) state"
  cr_public :: "'es \<Rightarrow> 'ep"
  cr_check_public :: "'ep \<Rightarrow> 'ep result"
  cr_check_private :: "'es \<Rightarrow> 'es result"
  cr_bytes :: "'ep \<Rightarrow> string"
  cr_new_public :: "ec_curve \<Rightarrow> string \<Rightarrow> 'ep result"
  cr_ecdh :: "'es \<Rightarrow> 'ep \<Rightarrow> string result"
  cr_hkdf :: "string \<Rightarrow> string result"
  cr_encode64 :: "string \<Rightarrow> string"
  cr_decode64 :: "string \<Rightarrow> string result"
  cr_marshal :: "hybrid_envelope \<Rightarrow> string result"
  cr_unmarshal :: "string \<Rightarrow> hybrid_envelope result"
  cr_marshal_v1 :: "envelope \<Rightarrow> string result"
  cr_unmarshal_v1 :: "string \<Rightarrow> envelope result"

text \<open>Sequencing of fallible steps over the source of randomness, with the text of the failing step.\<close>

definition try_step :: "string \<Rightarrow> ('s, 'a result) state \<Rightarrow> ('a \<Rightarrow> ('s, 'c result) state) \<Rightarrow> ('s, 'c result) state" where
  "try_step what m f =
     do { r \<leftarrow> m; (case r of Inl e \<Rightarrow> State_Monad.return (Inl (wrap_error what e)) | Inr a \<Rightarrow> f a) }"

definition try_pure :: "string \<Rightarrow> 'a result \<Rightarrow> ('a \<Rightarrow> 'c result) \<Rightarrow> 'c result" where
  "try_pure what r f = bind_result (map_error (wrap_error what) r) f"

definition and_then :: "'a result \<Rightarrow> ('a \<Rightarrow> 'c outcome) \<Rightarrow> 'c outcome" where
  "and_then r f = (case r of Inl e \<Rightarrow> Returned (Inl e) | Inr a \<Rightarrow> f a)"

text \<open>\<open>aead.Open\<close> panics on a nonce of another length.\<close>

definition open_sealed :: "string \<Rightarrow> aead \<Rightarrow> string \<Rightarrow> string \<Rightarrow> string outcome" where
  "open_sealed what a nonce ciphertext =
     (if length nonce \<noteq> aead_nonce_size a then Panics
      else Returned (map_error (wrap_error what) (aead_open a nonce ciphertext)))"

section \<open>The stored envelope\<close>

definition envelopeVersion :: int where "envelopeVersion = 1"
definition aes256KeySize :: nat where "aes256KeySize = 32"

text \<open>A codec is its cipher; \<^const>\<open>None\<close> is the nil codec.\<close>

definition NewAESGCMCodec :: "('rp, 'rs, 'ep, 'es, 'b, 's) crypto \<Rightarrow> string \<Rightarrow> aead result" where
  "NewAESGCMCodec cr key =
     (if length key \<noteq> aes256KeySize then
        Inl (plain_error (''secret key must be '' @ show_nat aes256KeySize @ '' bytes''))
      else
        try_pure ''creating aes cipher'' (cr_aes cr key)
          (\<lambda>block. try_pure ''creating gcm cipher'' (cr_gcm cr block) Inr))"

definition NewAESGCMCodecFromBase64 :: "('rp, 'rs, 'ep, 'es, 'b, 's) crypto \<Rightarrow> string \<Rightarrow> aead result" where
  "NewAESGCMCodecFromBase64 cr encoded =
     try_pure ''decoding secret key'' (cr_decode64 cr encoded) (NewAESGCMCodec cr)"

definition CodecEncrypt ::
  "('rp, 'rs, 'ep, 'es, 'b, 's) crypto \<Rightarrow> aead option \<Rightarrow> string \<Rightarrow> ('s, string result) state" where
  "CodecEncrypt cr c plaintext =
     (case c of
        None \<Rightarrow> State_Monad.return (Inl (plain_error ''secret codec is not configured''))
      | Some a \<Rightarrow>
          try_step ''generating secret nonce'' (cr_random cr (aead_nonce_size a))
            (\<lambda>nonce. State_Monad.return
               (map_error (wrap_error ''marshalling secret envelope'')
                 (cr_marshal_v1 cr
                   \<lparr>env_version = envelopeVersion, env_nonce = cr_encode64 cr nonce,
                    env_ciphertext = cr_encode64 cr (aead_seal a nonce plaintext)\<rparr>))))"

definition CodecDecrypt ::
  "('rp, 'rs, 'ep, 'es, 'b, 's) crypto \<Rightarrow> aead option \<Rightarrow> string \<Rightarrow> string outcome" where
  "CodecDecrypt cr c payload =
     (case c of
        None \<Rightarrow> Returned (Inl (plain_error ''secret codec is not configured''))
      | Some a \<Rightarrow>
          and_then (map_error (wrap_error ''unmarshalling secret envelope'') (cr_unmarshal_v1 cr payload))
            (\<lambda>env.
               if env_version env \<noteq> envelopeVersion then
                 Returned (Inl (plain_error (''unsupported secret envelope version '' @ show_int (env_version env))))
               else
                 and_then (map_error (wrap_error ''decoding secret nonce'') (cr_decode64 cr (env_nonce env)))
                   (\<lambda>nonce.
                      and_then (map_error (wrap_error ''decoding secret ciphertext'') (cr_decode64 cr (env_ciphertext env)))
                        (\<lambda>ciphertext. open_sealed ''decrypting secret'' a nonce ciphertext))))"

section \<open>The hybrid envelope\<close>

definition HybridEnvelopeVersion :: int where "HybridEnvelopeVersion = 2"
abbreviation AlgECIESP256AES256GCM :: string where "AlgECIESP256AES256GCM \<equiv> ''ecies-p256-aes256gcm''"
abbreviation AlgECIESP384AES256GCM :: string where "AlgECIESP384AES256GCM \<equiv> ''ecies-p384-aes256gcm''"
abbreviation AlgECIESP521AES256GCM :: string where "AlgECIESP521AES256GCM \<equiv> ''ecies-p521-aes256gcm''"
abbreviation AlgRSAOAEPAES256GCM :: string where "AlgRSAOAEPAES256GCM \<equiv> ''rsa-oaep-aes256gcm''"

definition ecdhCurveForPublicKey :: "ec_curve \<Rightarrow> (ec_curve \<times> string) result" where
  "ecdhCurveForPublicKey curve =
     (case curve of
        P256 \<Rightarrow> Inr (P256, AlgECIESP256AES256GCM)
      | P384 \<Rightarrow> Inr (P384, AlgECIESP384AES256GCM)
      | P521 \<Rightarrow> Inr (P521, AlgECIESP521AES256GCM)
      | OtherCurve \<Rightarrow> Inl (plain_error ''unsupported ec public key curve''))"

definition ecdhCurveForAlgorithm :: "string \<Rightarrow> ec_curve result" where
  "ecdhCurveForAlgorithm alg =
     (if alg = AlgECIESP256AES256GCM then Inr P256
      else if alg = AlgECIESP384AES256GCM then Inr P384
      else if alg = AlgECIESP521AES256GCM then Inr P521
      else Inl (plain_error (''unsupported ec hybrid algorithm '' @ quote alg)))"

definition is_ec_alg :: "string \<Rightarrow> bool" where
  "is_ec_alg alg \<longleftrightarrow> alg \<in> {AlgECIESP256AES256GCM, AlgECIESP384AES256GCM, AlgECIESP521AES256GCM}"

definition aesGCM :: "('rp, 'rs, 'ep, 'es, 'b, 's) crypto \<Rightarrow> string \<Rightarrow> aead result" where
  "aesGCM cr key =
     (if length key \<noteq> aes256KeySize then
        Inl (plain_error (''hybrid secret key must be '' @ show_nat aes256KeySize @ '' bytes''))
      else
        try_pure ''creating hybrid aes cipher'' (cr_aes cr key)
          (\<lambda>block. try_pure ''creating hybrid gcm cipher'' (cr_gcm cr block) Inr))"

definition encryptAESGCM ::
  "('rp, 'rs, 'ep, 'es, 'b, 's) crypto \<Rightarrow> string \<Rightarrow> string \<Rightarrow> ('s, (string \<times> string) result) state" where
  "encryptAESGCM cr key plaintext =
     (case aesGCM cr key of
        Inl e \<Rightarrow> State_Monad.return (Inl e)
      | Inr a \<Rightarrow>
          try_step ''generating hybrid nonce'' (cr_random cr (aead_nonce_size a))
            (\<lambda>nonce. State_Monad.return (Inr (nonce, aead_seal a nonce plaintext))))"

definition decryptAESGCM ::
  "('rp, 'rs, 'ep, 'es, 'b, 's) crypto \<Rightarrow> string \<Rightarrow> string \<Rightarrow> string \<Rightarrow> string outcome" where
  "decryptAESGCM cr key encodedNonce encodedCiphertext =
     and_then (map_error (wrap_error ''decoding hybrid nonce'') (cr_decode64 cr encodedNonce))
       (\<lambda>nonce.
          and_then (map_error (wrap_error ''decoding hybrid ciphertext'') (cr_decode64 cr encodedCiphertext))
            (\<lambda>ciphertext.
               and_then (aesGCM cr key) (\<lambda>a. open_sealed ''decrypting hybrid ciphertext'' a nonce ciphertext)))"

definition marshalHybridEnvelope ::
  "('rp, 'rs, 'ep, 'es, 'b, 's) crypto \<Rightarrow> hybrid_envelope \<Rightarrow> string result" where
  "marshalHybridEnvelope cr env = map_error (wrap_error ''marshalling hybrid secret envelope'') (cr_marshal cr env)"

text \<open>\<open>io.ReadFull\<close> of the derived key stream.\<close>

definition deriveHybridKey :: "('rp, 'rs, 'ep, 'es, 'b, 's) crypto \<Rightarrow> string \<Rightarrow> string result" where
  "deriveHybridKey cr sharedSecret = map_error (wrap_error ''deriving hybrid session key'') (cr_hkdf cr sharedSecret)"

definition sealed_envelope ::
  "('rp, 'rs, 'ep, 'es, 'b, 's) crypto \<Rightarrow> string \<Rightarrow> string \<Rightarrow> string \<Rightarrow> string \<Rightarrow> string \<Rightarrow> hybrid_envelope" where
  "sealed_envelope cr alg ephemeral encryptedKey nonce ciphertext =
     \<lparr>hyb_version = HybridEnvelopeVersion, hyb_alg = alg, hyb_ephemeral_pub = ephemeral, hyb_encrypted_key = encryptedKey,
      hyb_nonce = cr_encode64 cr nonce, hyb_ciphertext = cr_encode64 cr ciphertext\<rparr>"

definition encryptRSA ::
  "('rp, 'rs, 'ep, 'es, 'b, 's) crypto \<Rightarrow> 'rp \<Rightarrow> string \<Rightarrow> ('s, string result) state" where
  "encryptRSA cr publicKey plaintext =
     try_step ''generating rsa hybrid session key'' (cr_random cr aes256KeySize)
       (\<lambda>sessionKey. try_step ''encrypting rsa hybrid session key'' (cr_oaep_encrypt cr publicKey sessionKey)
          (\<lambda>encryptedKey. do {
             r \<leftarrow> encryptAESGCM cr sessionKey plaintext;
             State_Monad.return
               (bind_result r (\<lambda>(nonce, ciphertext).
                  marshalHybridEnvelope cr
                    (sealed_envelope cr AlgRSAOAEPAES256GCM [] (cr_encode64 cr encryptedKey) nonce ciphertext)))
           }))"

definition decryptRSA ::
  "('rp, 'rs, 'ep, 'es, 'b, 's) crypto \<Rightarrow> 'rs \<Rightarrow> hybrid_envelope \<Rightarrow> string outcome" where
  "decryptRSA cr privateKey env =
     and_then (map_error (wrap_error ''decoding rsa hybrid encrypted key'') (cr_decode64 cr (hyb_encrypted_key env)))
       (\<lambda>encryptedKey.
          and_then (map_error (wrap_error ''decrypting rsa hybrid session key'') (cr_oaep_decrypt cr privateKey encryptedKey))
            (\<lambda>sessionKey. decryptAESGCM cr sessionKey (hyb_nonce env) (hyb_ciphertext env)))"

definition encryptEC ::
  "('rp, 'rs, 'ep, 'es, 'b, 's) crypto \<Rightarrow> ec_curve \<Rightarrow> 'ep \<Rightarrow> string \<Rightarrow> ('s, string result) state" where
  "encryptEC cr publicCurve publicKey plaintext =
     (case ecdhCurveForPublicKey publicCurve of
        Inl e \<Rightarrow> State_Monad.return (Inl e)
      | Inr (curve, alg) \<Rightarrow>
          (case map_error (wrap_error ''converting peer public key to ecdh'') (cr_check_public cr publicKey) of
             Inl e \<Rightarrow> State_Monad.return (Inl e)
           | Inr peerPublicKey \<Rightarrow>
               try_step ''generating ephemeral ecdh key'' (cr_generate cr curve)
                 (\<lambda>ephemeral.
                    (case bind_result (map_error (wrap_error ''computing ecdh shared secret'') (cr_ecdh cr ephemeral peerPublicKey))
                        (deriveHybridKey cr) of
                       Inl e \<Rightarrow> State_Monad.return (Inl e)
                     | Inr sessionKey \<Rightarrow>
                         do {
                           r \<leftarrow> encryptAESGCM cr sessionKey plaintext;
                           State_Monad.return
                             (bind_result r (\<lambda>(nonce, ciphertext).
                                marshalHybridEnvelope cr
                                  (sealed_envelope cr alg (cr_encode64 cr (cr_bytes cr (cr_public cr ephemeral))) []
                                    nonce ciphertext)))
                         }))))"

definition decryptEC ::
  "('rp, 'rs, 'ep, 'es, 'b, 's) crypto \<Rightarrow> ec_curve \<Rightarrow> 'es \<Rightarrow> hybrid_envelope \<Rightarrow> string outcome" where
  "decryptEC cr privateCurve privateKey env =
     and_then (ecdhCurveForAlgorithm (hyb_alg env))
       (\<lambda>curve.
          and_then (map_error (wrap_error ''converting private key to ecdh'') (cr_check_private cr privateKey))
            (\<lambda>ownPrivateKey.
               if privateCurve \<noteq> curve then
                 Returned (Inl (plain_error ''hybrid envelope curve does not match private key''))
               else
                 and_then (map_error (wrap_error ''decoding ephemeral public key'') (cr_decode64 cr (hyb_ephemeral_pub env)))
                   (\<lambda>raw.
                      and_then (map_error (wrap_error ''parsing ephemeral public key'') (cr_new_public cr curve raw))
                        (\<lambda>ephemeral.
                           and_then
                             (bind_result (map_error (wrap_error ''computing ecdh shared secret'')
                               (cr_ecdh cr ownPrivateKey ephemeral)) (deriveHybridKey cr))
                             (\<lambda>sessionKey. decryptAESGCM cr sessionKey (hyb_nonce env) (hyb_ciphertext env))))))"

definition EncryptForPublicKey ::
  "('rp, 'rs, 'ep, 'es, 'b, 's) crypto \<Rightarrow> ('rp, 'ep) asymmetric_key \<Rightarrow> string \<Rightarrow> ('s, string result) state" where
  "EncryptForPublicKey cr publicKey plaintext =
     (case publicKey of
        RSAKey k \<Rightarrow> encryptRSA cr k plaintext
      | ECDSAKey curve k \<Rightarrow> encryptEC cr curve k plaintext
      | OtherKey name \<Rightarrow> State_Monad.return (Inl (plain_error (''unsupported public key type '' @ name))))"

definition isWellFormedHybridEnvelope :: "hybrid_envelope \<Rightarrow> bool" where
  "isWellFormedHybridEnvelope env \<longleftrightarrow>
     (if hyb_alg env = [] \<or> hyb_nonce env = [] \<or> hyb_ciphertext env = [] then False
      else if hyb_alg env = AlgRSAOAEPAES256GCM then hyb_encrypted_key env \<noteq> [] \<and> hyb_ephemeral_pub env = []
      else if is_ec_alg (hyb_alg env) then hyb_ephemeral_pub env \<noteq> [] \<and> hyb_encrypted_key env = []
      else False)"

definition IsHybridEnvelope :: "('rp, 'rs, 'ep, 'es, 'b, 's) crypto \<Rightarrow> string \<Rightarrow> bool" where
  "IsHybridEnvelope cr payload =
     (case cr_unmarshal cr payload of
        Inl _ \<Rightarrow> False
      | Inr env \<Rightarrow> hyb_version env = HybridEnvelopeVersion \<and> isWellFormedHybridEnvelope env)"

definition DecryptWithPrivateKey ::
  "('rp, 'rs, 'ep, 'es, 'b, 's) crypto \<Rightarrow> ('rs, 'es) asymmetric_key \<Rightarrow> string \<Rightarrow> string outcome" where
  "DecryptWithPrivateKey cr privateKey payload =
     and_then (map_error (wrap_error ''unmarshalling hybrid secret envelope'') (cr_unmarshal cr payload))
       (\<lambda>env.
          if hyb_version env \<noteq> HybridEnvelopeVersion then
            Returned (Inl (plain_error (''unsupported hybrid secret envelope version '' @ show_int (hyb_version env) @
              '' (expected '' @ show_int HybridEnvelopeVersion @ '')'')))
          else if \<not> isWellFormedHybridEnvelope env then
            Returned (Inl (plain_error ''invalid hybrid secret envelope''))
          else if hyb_alg env = AlgRSAOAEPAES256GCM then
            (case privateKey of
               RSAKey k \<Rightarrow> decryptRSA cr k env
             | _ \<Rightarrow> Returned (Inl (plain_error ''rsa hybrid envelope requires rsa private key'')))
          else if is_ec_alg (hyb_alg env) then
            (case privateKey of
               ECDSAKey curve k \<Rightarrow> decryptEC cr curve k env
             | _ \<Rightarrow> Returned (Inl (plain_error ''ec hybrid envelope requires ecdsa private key'')))
          else Returned (Inl (plain_error (''unsupported hybrid secret algorithm '' @ quote (hyb_alg env)))))"

record ('rs, 'es) hybrid_resolver =
  res_private_key :: "('rs, 'es) asymmetric_key option"
  res_strict :: bool

definition NewHybridPrivateKeyResolver :: "('rs, 'es) asymmetric_key option \<Rightarrow> ('rs, 'es) hybrid_resolver" where
  "NewHybridPrivateKeyResolver k = \<lparr>res_private_key = k, res_strict = False\<rparr>"

definition NewStrictHybridPrivateKeyResolver :: "('rs, 'es) asymmetric_key option \<Rightarrow> ('rs, 'es) hybrid_resolver" where
  "NewStrictHybridPrivateKeyResolver k = \<lparr>res_private_key = k, res_strict = True\<rparr>"

definition ResolveSecret ::
  "('rp, 'rs, 'ep, 'es, 'b, 's) crypto \<Rightarrow> ('rs, 'es) hybrid_resolver option \<Rightarrow> string \<Rightarrow> string outcome" where
  "ResolveSecret cr r payload =
     (if \<not> IsHybridEnvelope cr payload then
        (case r of
           Some x \<Rightarrow>
             if res_strict x then Returned (Inl (plain_error ''hybrid secret envelope is required''))
             else Returned (Inr payload)
         | None \<Rightarrow> Returned (Inr payload))
      else
        (case Option.bind r res_private_key of
           None \<Rightarrow> Returned (Inl (plain_error ''hybrid private key resolver is not configured''))
         | Some k \<Rightarrow> DecryptWithPrivateKey cr k payload))"

section \<open>Laws of the primitives\<close>

text \<open>An AEAD opens what it sealed with a nonce of its size, and adds a tag; base64 and JSON are read back; a random
  string has the length asked for; the two halves of a key pair belong together.\<close>

definition aead_laws :: "aead \<Rightarrow> bool" where
  "aead_laws a \<longleftrightarrow> 0 < aead_nonce_size a \<and>
     (\<forall>nonce plaintext. length nonce = aead_nonce_size a \<longrightarrow>
        aead_seal a nonce plaintext \<noteq> [] \<and> aead_open a nonce (aead_seal a nonce plaintext) = Inr plaintext)"

definition coding_laws :: "('rp, 'rs, 'ep, 'es, 'b, 's) crypto \<Rightarrow> bool" where
  "coding_laws cr \<longleftrightarrow>
     (\<forall>x. cr_decode64 cr (cr_encode64 cr x) = Inr x) \<and> (\<forall>x. x \<noteq> [] \<longrightarrow> cr_encode64 cr x \<noteq> []) \<and>
     (\<forall>env payload. cr_marshal cr env = Inr payload \<longrightarrow> cr_unmarshal cr payload = Inr env) \<and>
     (\<forall>env payload. cr_marshal_v1 cr env = Inr payload \<longrightarrow> cr_unmarshal_v1 cr payload = Inr env) \<and>
     (\<forall>n s x s'. run_state (cr_random cr n) s = (Inr x, s') \<longrightarrow> length x = n) \<and>
     (\<forall>key block a. cr_aes cr key = Inr block \<longrightarrow> cr_gcm cr block = Inr a \<longrightarrow> aead_laws a)"

definition key_pair ::
  "('rp, 'rs, 'ep, 'es, 'b, 's) crypto \<Rightarrow> ('rp, 'ep) asymmetric_key \<Rightarrow> ('rs, 'es) asymmetric_key \<Rightarrow> bool" where
  "key_pair cr publicKey privateKey \<longleftrightarrow>
     (case (publicKey, privateKey) of
        (RSAKey p, RSAKey k) \<Rightarrow>
          (\<forall>x s y s'. run_state (cr_oaep_encrypt cr p x) s = (Inr y, s') \<longrightarrow> y \<noteq> [] \<and> cr_oaep_decrypt cr k y = Inr x)
      | (ECDSAKey c p, ECDSAKey c' k) \<Rightarrow>
          c = c' \<and> cr_check_private cr k = Inr k \<and>
          (\<forall>s d s' q z. run_state (cr_generate cr c) s = (Inr d, s') \<longrightarrow> cr_check_public cr p = Inr q \<longrightarrow>
             cr_ecdh cr d q = Inr z \<longrightarrow>
             cr_bytes cr (cr_public cr d) \<noteq> [] \<and>
             (\<exists>e. cr_new_public cr c (cr_bytes cr (cr_public cr d)) = Inr e \<and> cr_ecdh cr k e = Inr z))
      | _ \<Rightarrow> False)"

definition hybrid_laws ::
  "('rp, 'rs, 'ep, 'es, 'b, 's) crypto \<Rightarrow> ('rp, 'ep) asymmetric_key \<Rightarrow> ('rs, 'es) asymmetric_key \<Rightarrow> bool" where
  "hybrid_laws cr publicKey privateKey \<longleftrightarrow> coding_laws cr \<and> key_pair cr publicKey privateKey"

section \<open>Lemmas\<close>

lemma and_then_Inr [simp]: "and_then (Inr a) f = f a"
  by (simp add: and_then_def)

lemma and_then_Inl [simp]: "and_then (Inl e) f = Returned (Inl e)"
  by (simp add: and_then_def)

lemma try_pure_eq_Inr: "try_pure what r f = Inr b \<longleftrightarrow> (\<exists>a. r = Inr a \<and> f a = Inr b)"
  by (auto simp: try_pure_def bind_result_eq_Inr map_error_def split: sum.splits)

lemma try_step_run:
  "run_state (try_step what m f) s = (Inr b, s') \<longleftrightarrow>
     (\<exists>a s1. run_state m s = (Inr a, s1) \<and> run_state (f a) s1 = (Inr b, s'))"
  by (auto simp: try_step_def split: prod.splits sum.splits)

lemma run_then_return:
  "run_state (do { r \<leftarrow> m; State_Monad.return (f r) }) s = (Inr b, s') \<longleftrightarrow>
     (\<exists>r. run_state m s = (r, s') \<and> f r = Inr b)"
  by (auto split: prod.splits)

lemma run_case_result:
  "run_state (case r of Inl e \<Rightarrow> State_Monad.return (Inl e) | Inr a \<Rightarrow> f a) s = (Inr b, s') \<longleftrightarrow>
     (\<exists>a. r = Inr a \<and> run_state (f a) s = (Inr b, s'))"
  by (auto split: sum.splits)

lemma coding_lawsD:
  assumes "coding_laws cr"
  shows "cr_decode64 cr (cr_encode64 cr x) = Inr x" "x \<noteq> [] \<Longrightarrow> cr_encode64 cr x \<noteq> []"
    "cr_marshal cr env = Inr payload \<Longrightarrow> cr_unmarshal cr payload = Inr env"
    "cr_marshal_v1 cr env1 = Inr payload \<Longrightarrow> cr_unmarshal_v1 cr payload = Inr env1"
    "run_state (cr_random cr n) s = (Inr y, s') \<Longrightarrow> length y = n"
    "cr_aes cr key = Inr block \<Longrightarrow> cr_gcm cr block = Inr a \<Longrightarrow> aead_laws a"
  using assms unfolding coding_laws_def by (blast, blast, blast, blast, blast, blast)

lemma aes_gcm_laws: "coding_laws cr \<Longrightarrow> aesGCM cr key = Inr a \<Longrightarrow> aead_laws a"
  by (auto simp: aesGCM_def try_pure_eq_Inr dest: coding_lawsD(6) split: if_splits)

lemma encrypted_is_decrypted:
  assumes laws: "coding_laws cr" and run: "run_state (encryptAESGCM cr key plaintext) s = (Inr (nonce, ciphertext), s')"
  shows "nonce \<noteq> [] \<and> ciphertext \<noteq> [] \<and>
    decryptAESGCM cr key (cr_encode64 cr nonce) (cr_encode64 cr ciphertext) = Returned (Inr plaintext)"
proof -
  from run obtain a where a: "aesGCM cr key = Inr a" and n: "run_state (cr_random cr (aead_nonce_size a)) s = (Inr nonce, s')"
    and c: "ciphertext = aead_seal a nonce plaintext"
    by (auto simp: encryptAESGCM_def try_step_run split: sum.splits)
  have "length nonce = aead_nonce_size a" using coding_lawsD(5) [OF laws n] .
  moreover have "aead_laws a" using aes_gcm_laws [OF laws a] .
  ultimately have o: "0 < length nonce" "ciphertext \<noteq> []" "aead_open a nonce ciphertext = Inr plaintext"
    "length nonce = aead_nonce_size a"
    unfolding aead_laws_def c by auto
  then show ?thesis by (auto simp: decryptAESGCM_def coding_lawsD(1) [OF laws] a open_sealed_def)
qed

lemma decrypt_sealed:
  assumes "coding_laws cr" "cr_marshal cr env = Inr payload" "hyb_version env = HybridEnvelopeVersion"
    "isWellFormedHybridEnvelope env"
  shows "IsHybridEnvelope cr payload"
    "hyb_alg env = AlgRSAOAEPAES256GCM \<Longrightarrow> DecryptWithPrivateKey cr (RSAKey k) payload = decryptRSA cr k env"
    "is_ec_alg (hyb_alg env) \<Longrightarrow> DecryptWithPrivateKey cr (ECDSAKey c e) payload = decryptEC cr c e env"
  using assms coding_lawsD(3) [OF assms(1,2)]
  by (auto simp: IsHybridEnvelope_def DecryptWithPrivateKey_def is_ec_alg_def)

lemma rsa_roundtrip:
  assumes laws: "hybrid_laws cr (RSAKey p) (RSAKey k)" and run: "run_state (encryptRSA cr p plaintext) s = (Inr payload, s')"
  shows "IsHybridEnvelope cr payload \<and> DecryptWithPrivateKey cr (RSAKey k) payload = Returned (Inr plaintext)"
proof -
  have cl: "coding_laws cr" using laws by (simp add: hybrid_laws_def)
  from run obtain key s1 enc s2 nonce ciphertext where
    enc: "run_state (cr_oaep_encrypt cr p key) s1 = (Inr enc, s2)"
    and gcm: "run_state (encryptAESGCM cr key plaintext) s2 = (Inr (nonce, ciphertext), s')"
    and m: "cr_marshal cr (sealed_envelope cr AlgRSAOAEPAES256GCM [] (cr_encode64 cr enc) nonce ciphertext) = Inr payload"
    by (auto simp: encryptRSA_def try_step_run run_then_return bind_result_eq_Inr marshalHybridEnvelope_def
        simp del: run_state_bind)
  let ?env = "sealed_envelope cr AlgRSAOAEPAES256GCM [] (cr_encode64 cr enc) nonce ciphertext"
  have key: "enc \<noteq> []" "cr_oaep_decrypt cr k enc = Inr key"
    using laws enc by (auto simp: hybrid_laws_def key_pair_def)
  note gcm = encrypted_is_decrypted [OF cl gcm]
  have wf: "isWellFormedHybridEnvelope ?env"
    using gcm key coding_lawsD(2) [OF cl] by (simp add: isWellFormedHybridEnvelope_def sealed_envelope_def)
  have v: "hyb_version ?env = HybridEnvelopeVersion" "hyb_alg ?env = AlgRSAOAEPAES256GCM"
    by (simp_all add: sealed_envelope_def)
  have "decryptRSA cr k ?env = Returned (Inr plaintext)"
    using gcm key by (simp add: decryptRSA_def sealed_envelope_def coding_lawsD(1) [OF cl])
  then show ?thesis using decrypt_sealed [OF cl m v(1) wf] v(2) by simp
qed

lemma ec_curve_alg:
  "ecdhCurveForPublicKey c0 = Inr (c, alg) \<Longrightarrow> c = c0 \<and> is_ec_alg alg \<and> ecdhCurveForAlgorithm alg = Inr c \<and>
     alg \<noteq> AlgRSAOAEPAES256GCM \<and> alg \<noteq> []"
  by (cases c0) (auto simp: ecdhCurveForPublicKey_def is_ec_alg_def ecdhCurveForAlgorithm_def)

lemma ec_roundtrip:
  assumes laws: "hybrid_laws cr (ECDSAKey c p) (ECDSAKey c' k)"
    and run: "run_state (encryptEC cr c p plaintext) s = (Inr payload, s')"
  shows "IsHybridEnvelope cr payload \<and> DecryptWithPrivateKey cr (ECDSAKey c' k) payload = Returned (Inr plaintext)"
proof -
  have cl: "coding_laws cr" and c': "c' = c" using laws by (auto simp: hybrid_laws_def key_pair_def)
  from run obtain c1 alg q d s1 z key s2 nonce ciphertext where
    curve: "ecdhCurveForPublicKey c = Inr (c1, alg)" and q: "cr_check_public cr p = Inr q"
    and d: "run_state (cr_generate cr c1) s = (Inr d, s1)" and z: "cr_ecdh cr d q = Inr z" and h: "cr_hkdf cr z = Inr key"
    and gcm: "run_state (encryptAESGCM cr key plaintext) s1 = (Inr (nonce, ciphertext), s')"
    and m: "cr_marshal cr (sealed_envelope cr alg (cr_encode64 cr (cr_bytes cr (cr_public cr d))) [] nonce ciphertext) = Inr payload"
    by (auto simp: encryptEC_def try_step_run run_case_result run_then_return bind_result_eq_Inr
        marshalHybridEnvelope_def deriveHybridKey_def simp del: run_state_bind)
  let ?env = "sealed_envelope cr alg (cr_encode64 cr (cr_bytes cr (cr_public cr d))) [] nonce ciphertext"
  note alg = ec_curve_alg [OF curve]
  have bytes: "cr_bytes cr (cr_public cr d) \<noteq> []"
    and e: "\<exists>e. cr_new_public cr c (cr_bytes cr (cr_public cr d)) = Inr e \<and> cr_ecdh cr k e = Inr z"
    and own: "cr_check_private cr k = Inr k"
    using laws d q z alg by (auto simp: hybrid_laws_def key_pair_def)
  note gcm = encrypted_is_decrypted [OF cl gcm]
  have wf: "isWellFormedHybridEnvelope ?env"
    using gcm bytes alg coding_lawsD(2) [OF cl] by (simp add: isWellFormedHybridEnvelope_def sealed_envelope_def)
  have v: "hyb_version ?env = HybridEnvelopeVersion" "is_ec_alg (hyb_alg ?env)"
    using alg by (simp_all add: sealed_envelope_def)
  have "decryptEC cr c' k ?env = Returned (Inr plaintext)"
    using gcm own e alg h
    by (auto simp: decryptEC_def sealed_envelope_def coding_lawsD(1) [OF cl] c' deriveHybridKey_def)
  then show ?thesis using decrypt_sealed [OF cl m v(1) wf] v(2) by simp
qed

section \<open>Properties\<close>

lemma encrypt_opens:
  assumes "hybrid_laws cr publicKey privateKey" "run_state (EncryptForPublicKey cr publicKey plaintext) s = (Inr payload, s')"
  shows "IsHybridEnvelope cr payload \<and> DecryptWithPrivateKey cr privateKey payload = Returned (Inr plaintext)"
proof (cases publicKey)
  case (RSAKey p)
  with assms(1) obtain k where "privateKey = RSAKey k"
    by (auto simp: hybrid_laws_def key_pair_def split: asymmetric_key.splits)
  with assms RSAKey show ?thesis using rsa_roundtrip by (simp add: EncryptForPublicKey_def)
next
  case (ECDSAKey c p)
  with assms(1) obtain c' k where "privateKey = ECDSAKey c' k"
    by (auto simp: hybrid_laws_def key_pair_def split: asymmetric_key.splits)
  with assms ECDSAKey show ?thesis using ec_roundtrip by (simp add: EncryptForPublicKey_def)
next
  case (OtherKey name)
  with assms(1) show ?thesis by (simp add: hybrid_laws_def key_pair_def split: asymmetric_key.splits)
qed

lemma strict_resolves:
  assumes "hybrid_laws cr publicKey privateKey" "run_state (EncryptForPublicKey cr publicKey plaintext) s = (Inr payload, s')"
  shows "ResolveSecret cr (Some (NewStrictHybridPrivateKeyResolver (Some privateKey))) payload = Returned (Inr plaintext)"
  using encrypt_opens [OF assms] by (simp add: ResolveSecret_def NewStrictHybridPrivateKeyResolver_def)

text \<open>C33. The hybrid envelope made for a public key, RSA or of a NIST curve, is recognised and opened to the same secret by
  a resolver with the matching private key, also by the strict resolver of a proxy.\<close>

theorem hybrid_envelope_roundtrip:
  assumes "hybrid_laws cr publicKey privateKey" "run_state (EncryptForPublicKey cr publicKey plaintext) s = (Inr payload, s')"
  shows "ResolveSecret cr (Some (NewStrictHybridPrivateKeyResolver (Some privateKey))) payload = Returned (Inr plaintext) \<and>
    ResolveSecret cr (Some (NewHybridPrivateKeyResolver (Some privateKey))) payload = Returned (Inr plaintext)"
  using strict_resolves [OF assms] encrypt_opens [OF assms]
  by (simp add: ResolveSecret_def NewHybridPrivateKeyResolver_def)

text \<open>The stored envelope likewise.\<close>

lemma codec_laws: "coding_laws cr \<Longrightarrow> NewAESGCMCodec cr key = Inr a \<Longrightarrow> aead_laws a"
  by (auto simp: NewAESGCMCodec_def try_pure_eq_Inr dest: coding_lawsD(6) split: if_splits)

lemma stored_envelope_roundtrip:
  assumes laws: "coding_laws cr" and a: "NewAESGCMCodec cr key = Inr a"
    and run: "run_state (CodecEncrypt cr (Some a) plaintext) s = (Inr payload, s')"
  shows "CodecDecrypt cr (Some a) payload = Returned (Inr plaintext)"
proof -
  let ?env = "\<lambda>nonce. \<lparr>env_version = envelopeVersion, env_nonce = cr_encode64 cr nonce,
    env_ciphertext = cr_encode64 cr (aead_seal a nonce plaintext)\<rparr>"
  from run obtain nonce where n: "run_state (cr_random cr (aead_nonce_size a)) s = (Inr nonce, s')"
    and m: "cr_marshal_v1 cr (?env nonce) = Inr payload"
    by (auto simp: CodecEncrypt_def try_step_run)
  have "length nonce = aead_nonce_size a" using coding_lawsD(5) [OF laws n] .
  moreover from codec_laws [OF laws a] this have "aead_open a nonce (aead_seal a nonce plaintext) = Inr plaintext"
    by (simp add: aead_laws_def)
  ultimately show ?thesis
    by (simp add: CodecDecrypt_def coding_lawsD(4) [OF laws m] coding_lawsD(1) [OF laws] open_sealed_def)
qed

text \<open>Decrypting a stored envelope panics exactly when it is an envelope of this version whose parts decode but whose
  nonce has another length than the cipher uses: the length is checked by the cipher only, by panicking, so a damaged
  or forged envelope is not an error of the codec.\<close>

lemma decrypt_panics_iff:
  "CodecDecrypt cr (Some a) payload = Panics \<longleftrightarrow>
     (\<exists>env nonce ciphertext. cr_unmarshal_v1 cr payload = Inr env \<and> env_version env = envelopeVersion \<and>
        cr_decode64 cr (env_nonce env) = Inr nonce \<and> cr_decode64 cr (env_ciphertext env) = Inr ciphertext \<and>
        length nonce \<noteq> aead_nonce_size a)"
  by (auto simp: CodecDecrypt_def and_then_def open_sealed_def map_error_def split: sum.splits if_splits)

text \<open>The hybrid envelope is opened by the same routine.\<close>

lemma hybrid_decrypt_panics:
  assumes "cr_unmarshal cr payload = Inr env" "hyb_version env = HybridEnvelopeVersion" "hyb_alg env = AlgRSAOAEPAES256GCM"
    "isWellFormedHybridEnvelope env" "cr_decode64 cr (hyb_encrypted_key env) = Inr enc" "cr_oaep_decrypt cr k enc = Inr key"
    "aesGCM cr key = Inr a" "cr_decode64 cr (hyb_nonce env) = Inr nonce" "cr_decode64 cr (hyb_ciphertext env) = Inr ciphertext"
    "length nonce \<noteq> aead_nonce_size a"
  shows "DecryptWithPrivateKey cr (RSAKey k) payload = Panics"
  using assms by (simp add: DecryptWithPrivateKey_def decryptRSA_def decryptAESGCM_def open_sealed_def)

section \<open>Witnesses\<close>

text \<open>A one-byte pad in the place of the ciphers: keys and nonces are fixed, sealing appends a tag.\<close>

definition sample_aead :: aead where
  "sample_aead = \<lparr>aead_nonce_size = 1, aead_seal = (\<lambda>nonce plaintext. plaintext @ ''T''),
     aead_open = (\<lambda>nonce ciphertext. if ciphertext = [] then Inl (plain_error ''cipher: message authentication failed'')
       else Inr (butlast ciphertext))\<rparr>"

definition sample_hybrid :: hybrid_envelope where
  "sample_hybrid =
     \<lparr>hyb_version = 2, hyb_alg = AlgRSAOAEPAES256GCM, hyb_ephemeral_pub = [],
      hyb_encrypted_key = ''K'' @ replicate 32 (CHR ''r''), hyb_nonce = ''r'', hyb_ciphertext = ''tokenT''\<rparr>"

definition sample_stored :: envelope where
  "sample_stored = \<lparr>env_version = 1, env_nonce = ''r'', env_ciphertext = ''tokenT''\<rparr>"

text \<open>The JSON codec of the witness knows one envelope of each kind.\<close>

definition sample_crypto :: "(unit, unit, unit, unit, unit, unit) crypto" where
  "sample_crypto =
     \<lparr>cr_random = (\<lambda>n. State_Monad.return (Inr (replicate n (CHR ''r'')))), cr_aes = (\<lambda>_. Inr ()), cr_gcm = (\<lambda>_. Inr sample_aead),
      cr_oaep_encrypt = (\<lambda>_ x. State_Monad.return (Inr (''K'' @ x))), cr_oaep_decrypt = (\<lambda>_ y. Inr (tl y)),
      cr_generate = (\<lambda>_. State_Monad.return (Inr ())), cr_public = (\<lambda>_. ()), cr_check_public = Inr, cr_check_private = Inr,
      cr_bytes = (\<lambda>_. ''P''), cr_new_public = (\<lambda>_ _. Inr ()), cr_ecdh = (\<lambda>_ _. Inr ''Z''),
      cr_hkdf = (\<lambda>_. Inr (replicate 32 (CHR ''h''))), cr_encode64 = (\<lambda>x. x), cr_decode64 = Inr,
      cr_marshal = (\<lambda>e. if e = sample_hybrid then Inr ''H'' else Inl (plain_error ''marshal'')),
      cr_unmarshal = (\<lambda>p. if p = ''H'' then Inr sample_hybrid else Inl (plain_error ''unmarshal'')),
      cr_marshal_v1 = (\<lambda>e. if e = sample_stored then Inr ''S'' else Inl (plain_error ''marshal'')),
      cr_unmarshal_v1 = (\<lambda>p. if p = ''S'' then Inr sample_stored else Inl (plain_error ''unmarshal''))\<rparr>"

lemma sample_coding: "coding_laws sample_crypto"
  by (auto simp: coding_laws_def sample_crypto_def aead_laws_def sample_aead_def split: if_splits)

lemma sample_keys: "hybrid_laws sample_crypto (RSAKey ()) (RSAKey ())"
  by (simp add: hybrid_laws_def sample_coding) (simp add: key_pair_def sample_crypto_def)

lemma sample_encrypts: "run_state (EncryptForPublicKey sample_crypto (RSAKey ()) ''token'') () = (Inr ''H'', ())"
  by code_simp

lemma sample_stores: "run_state (CodecEncrypt sample_crypto (Some sample_aead) ''token'') () = (Inr ''S'', ())"
  by code_simp

theorem hybrid_envelope_roundtrip_witness:
  "ResolveSecret sample_crypto (Some (NewStrictHybridPrivateKeyResolver (Some (RSAKey ())))) ''H'' = Returned (Inr ''token'')"
  using hybrid_envelope_roundtrip [OF sample_keys sample_encrypts] by blast

end
