(* ===== verification/Upstream_Store.thy ===== *)
theory Upstream_Store
  imports Audit_Service Secret_Envelopes
begin

text \<open>
  The table of upstreams (\<open>infra/postgres/upstream.go\<close>, \<open>errors.go\<close>). The table is a list of rows; every statement is the
  function it denotes on it, with the keys, the checks and the references of the schema. What the statements of other
  tables contribute, the tenants and the references of policies and of their version history, is a field of the
  database.

  The codec of the secrets is a port, as are the clock, the identifiers, the cast of a secret to \<open>jsonb\<close> and back, and the
  faults of the database. A codec may panic when it decrypts. The rows an upstream cascades to are those of the graph
  store and left out here.

  The lemmas show that the table stays well-formed, that a tenant's operations leave the other tenants alone, and that a
  created upstream is read back with its credentials.
\<close>

section \<open>Data\<close>

record secret_codec =
  sc_encrypt :: "string \<Rightarrow> string result"
  sc_decrypt :: "string \<Rightarrow> string outcome"

record upstream_row =
  ur_id :: string
  ur_tenant_id :: string
  ur_name :: string
  ur_ecosystem :: ecosystem_type
  ur_base_url :: string
  ur_capabilities :: "string list"
  ur_auth_type :: upstream_auth_type
  ur_auth_username :: "string option"
  ur_auth_secret :: "string option"
  ur_auth_updated_at :: "time option"
  ur_created_at :: time
  ur_updated_at :: time

record upstream_db =
  udb_tenants :: "string list"
  udb_rows :: "upstream_row list"
  udb_policy_refs :: "string list"
  udb_version_refs :: "string list"

text \<open>An error of the server has a code and the name of the violated constraint.\<close>

datatype db_error = PgError string string | OtherDbError go_error

record upstream_env =
  ue_uuid :: string
  ue_now :: time
  ue_codec :: "secret_codec option"
  ue_jsonb :: "string \<Rightarrow> string option"
  ue_fault :: "string \<Rightarrow> db_error option"
  ue_text :: "db_error \<Rightarrow> string"

definition raw_error :: "upstream_env \<Rightarrow> db_error \<Rightarrow> go_error" where
  "raw_error env e = (case e of OtherDbError g \<Rightarrow> g | PgError _ _ \<Rightarrow> plain_error (ue_text env e))"

section \<open>Constraints\<close>

definition upstreamConstraintErrors :: "(string \<times> sentinel) list" where
  "upstreamConstraintErrors =
     [(''upstreams_tenant_id_name_key'', ErrUpstreamNameConflict),
      (''uq_upstreams_tenant_ecosystem_base_url'', ErrUpstreamRegistryConflict)]"

text \<open>The mapped error, or none when the error stays as it is.\<close>

definition mapConstraintError :: "db_error \<Rightarrow> (string \<times> sentinel) list \<Rightarrow> sentinel option" where
  "mapConstraintError e constraints =
     (case e of
        PgError code name \<Rightarrow> if code \<noteq> ''23505'' then None else map_of constraints name
      | OtherDbError _ \<Rightarrow> None)"

definition auth_types :: "upstream_auth_type list" where
  "auth_types = [UpstreamAuthNone, UpstreamAuthBasic, UpstreamAuthBearerToken]"

definition name_key :: "upstream_row \<Rightarrow> string \<times> string" where
  "name_key r = (ur_tenant_id r, ur_name r)"

definition registry_key :: "upstream_row \<Rightarrow> string \<times> string \<times> string" where
  "registry_key r = (ur_tenant_id r, ur_ecosystem r, ur_base_url r)"

text \<open>The checks of a new row version against the other rows: the check constraint, the unique indexes in the order of
  their creation, the reference to the tenant.\<close>

definition violation :: "upstream_db \<Rightarrow> upstream_row list \<Rightarrow> upstream_row \<Rightarrow> db_error option" where
  "violation db others r =
     (if ur_auth_type r \<notin> set auth_types then Some (PgError ''23514'' ''upstreams_auth_type_check'')
      else if ur_id r \<in> ur_id ` set others then Some (PgError ''23505'' ''upstreams_pkey'')
      else if name_key r \<in> name_key ` set others then Some (PgError ''23505'' ''upstreams_tenant_id_name_key'')
      else if registry_key r \<in> registry_key ` set others then
        Some (PgError ''23505'' ''uq_upstreams_tenant_ecosystem_base_url'')
      else if ur_tenant_id r \<notin> set (udb_tenants db) then Some (PgError ''23503'' ''upstreams_tenant_id_fkey'')
      else None)"

definition failing :: "upstream_env \<Rightarrow> string \<Rightarrow> db_error option \<Rightarrow> db_error option" where
  "failing env stage broken = (case ue_fault env stage of Some e \<Rightarrow> Some e | None \<Rightarrow> broken)"

section \<open>Credentials\<close>

definition authColumns ::
  "upstream_env \<Rightarrow> upstream_auth option \<Rightarrow> (upstream_auth_type \<times> string option \<times> string option) result" where
  "authColumns env auth0 =
     (case auth0 of
        None \<Rightarrow> Inr (UpstreamAuthNone, None, None)
      | Some auth \<Rightarrow>
          if \<not> Configured auth0 then Inr (UpstreamAuthNone, None, None)
          else (case ue_codec env of
              None \<Rightarrow> Inl (sentinel_error ErrUpstreamAuthKeyUnavailable)
            | Some codec \<Rightarrow>
                (case sc_encrypt codec (auth_secret auth) of
                   Inl e \<Rightarrow> Inl (wrap_error ''encrypting upstream auth'' e)
                 | Inr encrypted \<Rightarrow>
                     Inr (auth_type auth,
                          if auth_type auth = UpstreamAuthBasic then Some (auth_username auth) else None,
                          Some encrypted))))"

text \<open>\<open>$8::jsonb\<close>; a text that is no JSON document is an error of the statement.\<close>

definition secret_column :: "upstream_env \<Rightarrow> string option \<Rightarrow> string option option" where
  "secret_column env secret = (case secret of None \<Rightarrow> Some None | Some t \<Rightarrow> map_option Some (ue_jsonb env t))"

definition auth_time :: "upstream_env \<Rightarrow> upstream_auth_type \<Rightarrow> time option" where
  "auth_time env ty = (if ty = UpstreamAuthNone then None else Some (ue_now env))"

definition bad_json :: db_error where "bad_json = PgError ''22P02'' []"

definition row_upstream :: "upstream_row \<Rightarrow> upstream_auth option \<Rightarrow> upstream" where
  "row_upstream r auth =
     \<lparr>up_id = ur_id r, up_tenant_id = ur_tenant_id r, up_name = ur_name r, up_ecosystem = ur_ecosystem r,
      up_base_url = ur_base_url r, up_capabilities = ParseUpstreamCapabilities (ur_capabilities r), up_auth = auth,
      up_created_at = ur_created_at r, up_updated_at = ur_updated_at r\<rparr>"

definition stored_auth :: "upstream_row \<Rightarrow> string \<Rightarrow> upstream_auth" where
  "stored_auth r secret =
     \<lparr>auth_type = ur_auth_type r, auth_username = (case ur_auth_username r of None \<Rightarrow> [] | Some u \<Rightarrow> u),
      auth_secret = secret, auth_updated_at = (case ur_auth_updated_at r of None \<Rightarrow> zero_time | Some t \<Rightarrow> t)\<rparr>"

definition attachAuth :: "upstream_env \<Rightarrow> upstream_row \<Rightarrow> upstream outcome" where
  "attachAuth env r =
     (if ur_auth_type r = [] \<or> ur_auth_type r = UpstreamAuthNone then Returned (Inr (row_upstream r None))
      else (case ue_codec env of
          None \<Rightarrow> Returned (Inl (sentinel_error ErrUpstreamAuthKeyUnavailable))
        | Some codec \<Rightarrow>
            (case ur_auth_secret r of
               None \<Rightarrow> Returned (Inl (wrap_sentinel ErrUpstreamAuthInvalid ''stored secret is empty''))
             | Some encrypted \<Rightarrow>
                 if encrypted = [] then Returned (Inl (wrap_sentinel ErrUpstreamAuthInvalid ''stored secret is empty''))
                 else (case sc_decrypt codec encrypted of
                     Panics \<Rightarrow> Panics
                   | Returned (Inl e) \<Rightarrow> Returned (Inl (wrap_error ''decrypting upstream auth'' e))
                   | Returned (Inr plaintext) \<Rightarrow> Returned (Inr (row_upstream r (Some (stored_auth r plaintext))))))))"

definition attachBundleAuthMetadata :: "upstream_row \<Rightarrow> upstream" where
  "attachBundleAuthMetadata r =
     row_upstream r
       (if ur_auth_type r = [] \<or> ur_auth_type r = UpstreamAuthNone then None else Some (stored_auth r []))"

section \<open>Reading\<close>

definition query :: "upstream_env \<Rightarrow> string \<Rightarrow> 'a \<Rightarrow> 'a result" where
  "query env stage rows = (case ue_fault env stage of Some e \<Rightarrow> Inl (wrap_error stage (raw_error env e)) | None \<Rightarrow> Inr rows)"

definition first_row :: "upstream_env \<Rightarrow> string \<Rightarrow> upstream_row list \<Rightarrow> upstream outcome" where
  "first_row env stage rows =
     and_then (query env stage rows)
       (\<lambda>rs. case rs of [] \<Rightarrow> Returned (Inl (sentinel_error ErrUpstreamNotFound)) | r # _ \<Rightarrow> attachAuth env r)"

definition GetByID :: "upstream_env \<Rightarrow> upstream_db \<Rightarrow> string \<Rightarrow> string \<Rightarrow> upstream outcome" where
  "GetByID env db tenantID uid =
     first_row env ''querying upstream by id''
       (filter (\<lambda>r. ur_tenant_id r = tenantID \<and> ur_id r = uid) (udb_rows db))"

text \<open>\<open>ORDER BY updated_at DESC, created_at DESC LIMIT 1\<close>; the order of equal rows is that of the table.\<close>

definition GetByEcosystem :: "upstream_env \<Rightarrow> upstream_db \<Rightarrow> string \<Rightarrow> ecosystem_type \<Rightarrow> upstream outcome" where
  "GetByEcosystem env db tenantID eco =
     first_row env ''querying upstream by ecosystem''
       (take 1 (sort_key (\<lambda>r. - ur_updated_at r) (sort_key (\<lambda>r. - ur_created_at r)
          (filter (\<lambda>r. ur_tenant_id r = tenantID \<and> ur_ecosystem r = eco) (udb_rows db)))))"

definition tenant_rows :: "upstream_db \<Rightarrow> string \<Rightarrow> upstream_row list" where
  "tenant_rows db tenantID = sort_key ur_created_at (filter (\<lambda>r. ur_tenant_id r = tenantID) (udb_rows db))"

fun attach_loop :: "upstream_env \<Rightarrow> upstream_row list \<Rightarrow> upstream list outcome" where
  "attach_loop env [] = Returned (Inr [])"
| "attach_loop env (r # rs) =
     (case attachAuth env r of
        Panics \<Rightarrow> Panics
      | Returned (Inl e) \<Rightarrow> Returned (Inl e)
      | Returned (Inr u) \<Rightarrow>
          (case attach_loop env rs of
             Returned (Inr us) \<Rightarrow> Returned (Inr (u # us))
           | other \<Rightarrow> other))"

definition ListByTenant :: "upstream_env \<Rightarrow> upstream_db \<Rightarrow> string \<Rightarrow> upstream list outcome" where
  "ListByTenant env db tenantID =
     and_then (query env ''listing upstreams by tenant'' (tenant_rows db tenantID))
       (\<lambda>rs. case attach_loop env rs of
           Returned (Inr us) \<Rightarrow> Returned (query env ''iterating upstream rows'' us)
         | other \<Rightarrow> other)"

definition ListBundleByTenant :: "upstream_env \<Rightarrow> upstream_db \<Rightarrow> string \<Rightarrow> upstream list result" where
  "ListBundleByTenant env db tenantID =
     bind_result (query env ''listing bundle upstreams by tenant'' (tenant_rows db tenantID))
       (\<lambda>rs. query env ''iterating bundle upstream rows'' (map attachBundleAuthMetadata rs))"

text \<open>The wrapper encrypts for the recipient and may need randomness.\<close>

definition RewrapUpstreamAuthSecret ::
  "upstream_env \<Rightarrow> upstream_db \<Rightarrow> string \<Rightarrow> string \<Rightarrow> (string \<Rightarrow> ('s, string result) state) option \<Rightarrow>
   ('s, string outcome) state" where
  "RewrapUpstreamAuthSecret env db tenantID upstreamID wrapper =
     (case (wrapper, ue_codec env) of
        (None, _) \<Rightarrow> State_Monad.return (Returned (Inl (plain_error ''upstream auth secret wrapper is not configured'')))
      | (_, None) \<Rightarrow> State_Monad.return (Returned (Inl (sentinel_error ErrUpstreamAuthKeyUnavailable)))
      | (Some wrap, Some codec) \<Rightarrow>
          (case query env ''querying upstream auth secret''
               (filter (\<lambda>r. ur_tenant_id r = tenantID \<and> ur_id r = upstreamID \<and> ur_auth_type r \<noteq> UpstreamAuthNone) (udb_rows db)) of
             Inl e \<Rightarrow> State_Monad.return (Returned (Inl e))
           | Inr [] \<Rightarrow> State_Monad.return (Returned (Inl (sentinel_error ErrUpstreamNotFound)))
           | Inr (r # _) \<Rightarrow>
               (let encrypted = (case ur_auth_secret r of None \<Rightarrow> [] | Some t \<Rightarrow> t)
                in if encrypted = [] then
                     State_Monad.return (Returned (Inl (wrap_sentinel ErrUpstreamAuthInvalid ''stored secret is empty'')))
                   else (case sc_decrypt codec encrypted of
                       Panics \<Rightarrow> State_Monad.return Panics
                     | Returned (Inl e) \<Rightarrow>
                         State_Monad.return (Returned (Inl (wrap_error ''decrypting upstream auth for bundle'' e)))
                     | Returned (Inr plaintext) \<Rightarrow>
                         do {
                           w \<leftarrow> wrap plaintext;
                           State_Monad.return
                             (Returned (map_error (wrap_error ''rewrapping upstream auth for bundle'') w))
                         }))))"

section \<open>Writing\<close>

text \<open>The upstream as the caller holds it after the statement returned its generated columns.\<close>

definition set_auth_time :: "time option \<Rightarrow> upstream \<Rightarrow> upstream" where
  "set_auth_time t up =
     (case (up_auth up, t) of
        (Some auth, Some updated) \<Rightarrow> up\<lparr>up_auth := Some (auth\<lparr>auth_updated_at := updated\<rparr>)\<rparr>
      | _ \<Rightarrow> up)"

definition write_failed :: "upstream_env \<Rightarrow> string \<Rightarrow> db_error \<Rightarrow> go_error" where
  "write_failed env stage e =
     (case mapConstraintError e upstreamConstraintErrors of
        Some s \<Rightarrow> sentinel_error s
      | None \<Rightarrow> wrap_error stage (raw_error env e))"

definition UpstreamInsert :: "upstream_env \<Rightarrow> upstream_db \<Rightarrow> upstream \<Rightarrow> upstream result \<times> upstream_db" where
  "UpstreamInsert env db up =
     (case authColumns env (up_auth up) of
        Inl e \<Rightarrow> (Inl e, db)
      | Inr (ty, username, secret) \<Rightarrow>
          (let row = (\<lambda>stored. \<lparr>ur_id = ue_uuid env, ur_tenant_id = up_tenant_id up, ur_name = up_name up,
                 ur_ecosystem = up_ecosystem up, ur_base_url = up_base_url up,
                 ur_capabilities = UpstreamCapabilityStrings (up_capabilities up), ur_auth_type = ty,
                 ur_auth_username = username, ur_auth_secret = stored, ur_auth_updated_at = auth_time env ty,
                 ur_created_at = ue_now env, ur_updated_at = ue_now env\<rparr>)
           in case secret_column env secret of
                None \<Rightarrow> (Inl (write_failed env ''creating upstream''
                           (case ue_fault env ''creating upstream'' of Some e \<Rightarrow> e | None \<Rightarrow> bad_json)), db)
              | Some stored \<Rightarrow>
                  (case failing env ''creating upstream'' (violation db (udb_rows db) (row stored)) of
                     Some e \<Rightarrow> (Inl (write_failed env ''creating upstream'' e), db)
                   | None \<Rightarrow>
                       (Inr (set_auth_time (auth_time env ty)
                          (up\<lparr>up_id := ue_uuid env, up_created_at := ue_now env, up_updated_at := ue_now env\<rparr>)),
                        db\<lparr>udb_rows := udb_rows db @ [row stored]\<rparr>))))"

definition owned :: "upstream \<Rightarrow> upstream_row \<Rightarrow> bool" where
  "owned up r \<longleftrightarrow> ur_tenant_id r = up_tenant_id up \<and> ur_id r = up_id up"

definition set_row :: "upstream_env \<Rightarrow> upstream \<Rightarrow> upstream_row \<Rightarrow> upstream_row" where
  "set_row env up r =
     r\<lparr>ur_name := up_name up, ur_ecosystem := up_ecosystem up, ur_base_url := up_base_url up,
       ur_capabilities := UpstreamCapabilityStrings (up_capabilities up), ur_updated_at := ue_now env\<rparr>"

definition set_row_auth ::
  "upstream_env \<Rightarrow> upstream_auth_type \<Rightarrow> string option \<Rightarrow> string option \<Rightarrow> upstream_row \<Rightarrow> upstream_row" where
  "set_row_auth env ty username stored r =
     r\<lparr>ur_auth_type := ty, ur_auth_username := username, ur_auth_secret := stored,
       ur_auth_updated_at := auth_time env ty, ur_updated_at := ue_now env\<rparr>"

text \<open>An \<open>UPDATE\<close> of the rows of one identifier; the identifier is the primary key.\<close>

datatype update_outcome = NoRow | Violates db_error | Updated upstream_db

definition update_rows ::
  "upstream \<Rightarrow> (upstream_row \<Rightarrow> upstream_row) \<Rightarrow> upstream_db \<Rightarrow> update_outcome" where
  "update_rows up f db =
     (let hit = filter (owned up) (udb_rows db); others = filter (\<lambda>r. \<not> owned up r) (udb_rows db)
      in case hit of
           [] \<Rightarrow> NoRow
         | r # _ \<Rightarrow>
             (case violation db others (f r) of
                Some e \<Rightarrow> Violates e
              | None \<Rightarrow> Updated (db\<lparr>udb_rows := map (\<lambda>r. if owned up r then f r else r) (udb_rows db)\<rparr>)))"

text \<open>A transaction of up to two statements; every error leaves the table as it was.\<close>

definition UpstreamModify :: "upstream_env \<Rightarrow> upstream_db \<Rightarrow> upstream \<Rightarrow> upstream result \<times> upstream_db" where
  "UpstreamModify env db up =
     (let abort = (\<lambda>e. (Inl e, db));
          stage = (\<lambda>name. case ue_fault env name of Some e \<Rightarrow> Some (wrap_error name (raw_error env e)) | None \<Rightarrow> None);
          commit = (\<lambda>up1 db1. case stage ''committing upstream update'' of Some e \<Rightarrow> abort e | None \<Rightarrow> (Inr up1, db1))
      in case stage ''starting upstream update'' of
           Some e \<Rightarrow> abort e
         | None \<Rightarrow>
             (case ue_fault env ''updating upstream'' of
                Some e \<Rightarrow> abort (write_failed env ''updating upstream'' e)
              | None \<Rightarrow>
                  (case update_rows up (set_row env up) db of
                     NoRow \<Rightarrow> abort (sentinel_error ErrUpstreamNotFound)
                   | Violates e \<Rightarrow> abort (write_failed env ''updating upstream'' e)
                   | Updated db1 \<Rightarrow>
                       (if up_auth up = None then commit up db1
                        else (case authColumns env (up_auth up) of
                            Inl e \<Rightarrow> abort e
                          | Inr (ty, username, secret) \<Rightarrow>
                              (case stage ''updating upstream auth'' of
                                 Some e \<Rightarrow> abort e
                               | None \<Rightarrow>
                                   (case secret_column env secret of
                                      None \<Rightarrow> abort (wrap_error ''updating upstream auth'' (raw_error env bad_json))
                                    | Some stored \<Rightarrow>
                                        (case update_rows up (set_row_auth env ty username stored) db1 of
                                           NoRow \<Rightarrow> abort (plain_error ''updating upstream auth: no rows in result set'')
                                         | Violates e \<Rightarrow> abort (wrap_error ''updating upstream auth'' (raw_error env e))
                                         | Updated db2 \<Rightarrow> commit (set_auth_time (auth_time env ty) up) db2))))))))"

text \<open>Policies and their version history restrict the deletion; the constraint of the policies is the older one.\<close>

definition delete_violation :: "upstream_db \<Rightarrow> string \<Rightarrow> db_error option" where
  "delete_violation db uid =
     (if uid \<in> set (udb_policy_refs db) then Some (PgError ''23503'' ''fk_policies_upstream_id'')
      else if uid \<in> set (udb_version_refs db) then Some (PgError ''23503'' ''fk_policy_versions_upstream_id'')
      else None)"

definition UpstreamRemove :: "upstream_env \<Rightarrow> upstream_db \<Rightarrow> string \<Rightarrow> string \<Rightarrow> unit result \<times> upstream_db" where
  "UpstreamRemove env db tenantID uid =
     (let hit = (\<lambda>r. ur_tenant_id r = tenantID \<and> ur_id r = uid);
          found = (\<exists>r \<in> set (udb_rows db). hit r)
      in case failing env ''deleting upstream'' (if found then delete_violation db uid else None) of
           Some e \<Rightarrow>
             (if e = PgError ''23503'' ''fk_policies_upstream_id'' then (Inl (sentinel_error ErrUpstreamInUse), db)
              else (Inl (wrap_error ''deleting upstream'' (raw_error env e)), db))
         | None \<Rightarrow>
             (if \<not> found then (Inl (sentinel_error ErrUpstreamNotFound), db)
              else (Inr (), db\<lparr>udb_rows := filter (\<lambda>r. \<not> hit r) (udb_rows db)\<rparr>)))"

section \<open>The table stays well-formed\<close>

definition row_ok :: "upstream_row \<Rightarrow> bool" where
  "row_ok r \<longleftrightarrow> ur_auth_type r \<in> set auth_types \<and>
     (ur_auth_type r = UpstreamAuthNone \<longleftrightarrow> ur_auth_secret r = None) \<and>
     (ur_auth_type r = UpstreamAuthNone \<longleftrightarrow> ur_auth_updated_at r = None)"

definition upstreams_ok :: "upstream_db \<Rightarrow> bool" where
  "upstreams_ok db \<longleftrightarrow> distinct (map ur_id (udb_rows db)) \<and> distinct (map name_key (udb_rows db)) \<and>
     distinct (map registry_key (udb_rows db)) \<and> (\<forall>r \<in> set (udb_rows db). row_ok r \<and> ur_tenant_id r \<in> set (udb_tenants db))"

lemma auth_columns_cases:
  assumes "authColumns env a = Inr (ty, username, secret)"
  shows "(ty = UpstreamAuthNone \<and> username = None \<and> secret = None) \<or>
    (\<exists>auth codec t. a = Some auth \<and> Configured a \<and> ue_codec env = Some codec \<and> ty = auth_type auth \<and> ty \<noteq> UpstreamAuthNone \<and>
       sc_encrypt codec (auth_secret auth) = Inr t \<and> secret = Some t \<and>
       username = (if ty = UpstreamAuthBasic then Some (auth_username auth) else None))"
  using assms by (auto simp: authColumns_def Configured_def split: option.splits if_splits sum.splits)

lemma stored_auth_ok:
  assumes "authColumns env a = Inr (ty, username, secret)" "secret_column env secret = Some stored"
  shows "(ty = UpstreamAuthNone \<longleftrightarrow> stored = None) \<and> (ty = UpstreamAuthNone \<longleftrightarrow> auth_time env ty = None)"
  using auth_columns_cases [OF assms(1)] assms(2) by (auto simp: secret_column_def auth_time_def)

lemma violation_None:
  "violation db others r = None \<longleftrightarrow> ur_auth_type r \<in> set auth_types \<and> ur_id r \<notin> ur_id ` set others \<and>
     name_key r \<notin> name_key ` set others \<and> registry_key r \<notin> registry_key ` set others \<and>
     ur_tenant_id r \<in> set (udb_tenants db)"
  by (simp add: violation_def)

lemma insert_ok:
  assumes "upstreams_ok db" "UpstreamInsert env db up = (r, db')" shows "upstreams_ok db'"
proof (cases "db' = db")
  case False
  with assms(2) obtain ty username secret stored row where
    a: "authColumns env (up_auth up) = Inr (ty, username, secret)" and s: "secret_column env secret = Some stored"
    and v: "violation db (udb_rows db) row = None" and db': "db' = db\<lparr>udb_rows := udb_rows db @ [row]\<rparr>"
    and row: "ur_auth_type row = ty" "ur_auth_secret row = stored" "ur_auth_updated_at row = auth_time env ty"
    by (auto simp: UpstreamInsert_def Let_def failing_def split: sum.splits option.splits)
  have "row_ok row" using v stored_auth_ok [OF a s] row by (auto simp: row_ok_def violation_None)
  with assms(1) v show ?thesis by (auto simp: upstreams_ok_def violation_None db')
qed (use assms in simp)

lemma distinct_map_update:
  assumes "distinct (map k xs)" "\<And>x y. x \<in> set xs \<Longrightarrow> y \<in> set xs \<Longrightarrow> p x \<Longrightarrow> p y \<Longrightarrow> x = y"
    "\<And>x. x \<in> set xs \<Longrightarrow> p x \<Longrightarrow> k (f x) \<notin> k ` {y \<in> set xs. \<not> p y}"
  shows "distinct (map k (map (\<lambda>r. if p r then f r else r) xs))"
proof -
  have "inj_on (\<lambda>r. k (if p r then f r else r)) (set xs)"
  proof (rule inj_onI)
    fix x y assume xy: "x \<in> set xs" "y \<in> set xs" "k (if p x then f x else x) = k (if p y then f y else y)"
    consider "p x" "p y" | "p x" "\<not> p y" | "\<not> p x" "p y" | "\<not> p x" "\<not> p y" by blast
    then show "x = y"
    proof cases
      case 1 with assms(2) xy show ?thesis by blast
    next
      case 2 with assms(3) [OF xy(1)] xy show ?thesis by auto
    next
      case 3 with assms(3) [OF xy(2)] xy show ?thesis by (auto simp: image_iff)
    next
      case 4 with assms(1) xy show ?thesis by (auto simp: distinct_map inj_on_def)
    qed
  qed
  with assms(1) show ?thesis by (simp add: distinct_map comp_def)
qed

lemma owned_unique:
  "upstreams_ok db \<Longrightarrow> r \<in> set (udb_rows db) \<Longrightarrow> r' \<in> set (udb_rows db) \<Longrightarrow> owned up r \<Longrightarrow> owned up r' \<Longrightarrow> r = r'"
  by (auto simp: upstreams_ok_def distinct_map owned_def inj_on_def)

lemma update_rows_cases:
  assumes "upstreams_ok db" "update_rows up f db = Updated db'"
  obtains r where "r \<in> set (udb_rows db)" "owned up r" "violation db (filter (\<lambda>r. \<not> owned up r) (udb_rows db)) (f r) = None"
    "db' = db\<lparr>udb_rows := map (\<lambda>r. if owned up r then f r else r) (udb_rows db)\<rparr>"
proof -
  obtain r rs where hit: "filter (owned up) (udb_rows db) = r # rs"
    and rest: "violation db (filter (\<lambda>r. \<not> owned up r) (udb_rows db)) (f r) = None"
      "db' = db\<lparr>udb_rows := map (\<lambda>r. if owned up r then f r else r) (udb_rows db)\<rparr>"
    using assms(2) by (auto simp: update_rows_def Let_def split: list.splits option.splits)
  have "r \<in> set (filter (owned up) (udb_rows db))" by (simp add: hit)
  with rest that show thesis by auto
qed

lemma update_rows_ok:
  assumes ok: "upstreams_ok db" and u: "update_rows up f db = Updated db'"
    and f: "\<And>r. r \<in> set (udb_rows db) \<Longrightarrow> row_ok r \<Longrightarrow> row_ok (f r)"
  shows "upstreams_ok db'"
proof -
  obtain r where r: "r \<in> set (udb_rows db)" "owned up r"
    and v: "violation db (filter (\<lambda>r. \<not> owned up r) (udb_rows db)) (f r) = None"
    and db': "db' = db\<lparr>udb_rows := map (\<lambda>r. if owned up r then f r else r) (udb_rows db)\<rparr>"
    using update_rows_cases [OF ok u] .
  have only: "x = r" if "x \<in> set (udb_rows db)" "owned up x" for x
    using owned_unique [OF ok that(1) r(1) that(2) r(2)] .
  have d: "distinct (map k (map (\<lambda>r. if owned up r then f r else r) (udb_rows db)))"
    if "distinct (map k (udb_rows db))" "k (f r) \<notin> k ` {y \<in> set (udb_rows db). \<not> owned up y}" for k :: "upstream_row \<Rightarrow> 'k"
    using that only by (intro distinct_map_update) auto
  have "row_ok (f r)" using f r(1) ok by (auto simp: upstreams_ok_def)
  then show ?thesis
    using ok v only d [of ur_id] d [of name_key] d [of registry_key]
    by (auto simp: upstreams_ok_def db' violation_None)
qed

lemma modify_ok:
  assumes ok: "upstreams_ok db" and run: "UpstreamModify env db up = (r, db')" shows "upstreams_ok db'"
proof (cases "db' = db")
  case False
  with run obtain db1 where u1: "update_rows up (set_row env up) db = Updated db1"
    and rest: "db' = db1 \<or> (\<exists>ty username secret stored. authColumns env (up_auth up) = Inr (ty, username, secret) \<and>
      secret_column env secret = Some stored \<and> update_rows up (set_row_auth env ty username stored) db1 = Updated db')"
    by (auto simp: UpstreamModify_def Let_def split: option.splits update_outcome.splits if_splits sum.splits)
  have ok1: "upstreams_ok db1" by (rule update_rows_ok [OF ok u1]) (auto simp: row_ok_def set_row_def)
  from rest show ?thesis
  proof (elim disjE exE conjE)
    fix ty username secret stored
    assume a: "authColumns env (up_auth up) = Inr (ty, username, secret)" and s: "secret_column env secret = Some stored"
      and u2: "update_rows up (set_row_auth env ty username stored) db1 = Updated db'"
    obtain r where v: "violation db1 (filter (\<lambda>r. \<not> owned up r) (udb_rows db1)) (set_row_auth env ty username stored r) = None"
      using update_rows_cases [OF ok1 u2] by blast
    then have "ty \<in> set auth_types" by (simp add: violation_None set_row_auth_def)
    with stored_auth_ok [OF a s] show ?thesis
      by (intro update_rows_ok [OF ok1 u2]) (auto simp: row_ok_def set_row_auth_def)
  qed (use ok1 in simp)
qed (use ok in simp)

lemma remove_ok:
  assumes "upstreams_ok db" "UpstreamRemove env db t uid = (r, db')" shows "upstreams_ok db'"
  using assms by (auto simp: UpstreamRemove_def upstreams_ok_def Let_def distinct_map_filter
      split: option.splits if_splits)

section \<open>Tenants\<close>

text \<open>What is not the tenant's is not touched.\<close>

definition other_rows :: "string \<Rightarrow> upstream_db \<Rightarrow> upstream_row list" where
  "other_rows t db = filter (\<lambda>r. ur_tenant_id r \<noteq> t) (udb_rows db)"

lemma other_rows_update:
  "(\<And>r. ur_tenant_id (f r) = ur_tenant_id r) \<Longrightarrow> update_rows up f db = Updated db' \<Longrightarrow>
   other_rows (up_tenant_id up) db' = other_rows (up_tenant_id up) db"
proof -
  assume keep: "\<And>r. ur_tenant_id (f r) = ur_tenant_id r" and u: "update_rows up f db = Updated db'"
  have "filter (\<lambda>r. ur_tenant_id r \<noteq> up_tenant_id up) (map (\<lambda>r. if owned up r then f r else r) xs) =
      filter (\<lambda>r. ur_tenant_id r \<noteq> up_tenant_id up) xs" for xs
    using keep by (induction xs) (auto simp: owned_def)
  with u show ?thesis
    by (auto simp: update_rows_def other_rows_def Let_def split: list.splits option.splits)
qed

lemma insert_others: "UpstreamInsert env db up = (r, db') \<Longrightarrow> other_rows (up_tenant_id up) db' = other_rows (up_tenant_id up) db"
  by (auto simp: UpstreamInsert_def other_rows_def Let_def split: sum.splits option.splits prod.splits)

lemma modify_others:
  assumes "UpstreamModify env db up = (r, db')"
  shows "other_rows (up_tenant_id up) db' = other_rows (up_tenant_id up) db"
proof -
  have m1: "other_rows (up_tenant_id up) db1 = other_rows (up_tenant_id up) db0"
    if "update_rows up (set_row env up) db0 = Updated db1" for db0 db1
    using that by (rule other_rows_update [rotated]) (simp add: set_row_def)
  have m2: "other_rows (up_tenant_id up) db1 = other_rows (up_tenant_id up) db0"
    if "update_rows up (set_row_auth env ty username stored) db0 = Updated db1" for db0 db1 ty username stored
    using that by (rule other_rows_update [rotated]) (simp add: set_row_auth_def)
  show ?thesis
    using assms
    by (auto simp: UpstreamModify_def Let_def dest!: m1 m2
        split: option.splits update_outcome.splits if_splits sum.splits prod.splits)
qed

lemma remove_others: "UpstreamRemove env db t uid = (r, db') \<Longrightarrow> other_rows t db' = other_rows t db"
proof -
  have "filter (\<lambda>r. ur_tenant_id r \<noteq> t) (filter (\<lambda>r. \<not> (ur_tenant_id r = t \<and> ur_id r = uid)) xs) =
      filter (\<lambda>r. ur_tenant_id r \<noteq> t) xs" for xs
    by (induction xs) auto
  then show "UpstreamRemove env db t uid = (r, db') \<Longrightarrow> other_rows t db' = other_rows t db"
    by (auto simp: UpstreamRemove_def other_rows_def Let_def simp del: filter_filter de_Morgan_conj split: option.splits if_splits)
qed

section \<open>The codec a process installs\<close>

text \<open>\<open>upstreamSecretCodec\<close> of \<open>bootstrap/dependencies.go\<close> returns a nil pointer when no key is configured; the repository is
  given the pointer as a value of its interface, which is not nil then.\<close>

definition upstreamSecretCodec :: "('rp, 'rs, 'ep, 'es, 'b, 's) crypto \<Rightarrow> string \<Rightarrow> aead option result" where
  "upstreamSecretCodec cr configured =
     (let key = trim_space configured
      in if key = [] then Inr None
         else (case NewAESGCMCodecFromBase64 cr key of
             Inl e \<Rightarrow> Inl (wrap_error ''configuring upstream auth secret codec'' e)
           | Inr codec \<Rightarrow> Inr (Some codec)))"

definition codec_port :: "('rp, 'rs, 'ep, 'es, 'b, 's) crypto \<Rightarrow> 's \<Rightarrow> aead option \<Rightarrow> secret_codec" where
  "codec_port cr s codec =
     \<lparr>sc_encrypt = (\<lambda>x. fst (run_state (CodecEncrypt cr codec x) s)), sc_decrypt = CodecDecrypt cr codec\<rparr>"

definition installed_codec :: "('rp, 'rs, 'ep, 'es, 'b, 's) crypto \<Rightarrow> 's \<Rightarrow> string \<Rightarrow> secret_codec option result" where
  "installed_codec cr s configured =
     (case upstreamSecretCodec cr configured of Inl e \<Rightarrow> Inl e | Inr codec \<Rightarrow> Inr (Some (codec_port cr s codec)))"

text \<open>A codec that reads what it wrote, through the column of the table.\<close>

definition codec_reads :: "upstream_env \<Rightarrow> upstream_env \<Rightarrow> bool" where
  "codec_reads env env' \<longleftrightarrow>
     (case (ue_codec env, ue_codec env') of
        (Some c, Some c') \<Rightarrow>
          (\<forall>x e j. sc_encrypt c x = Inr e \<longrightarrow> ue_jsonb env e = Some j \<longrightarrow> j \<noteq> [] \<and> sc_decrypt c' j = Returned (Inr x))
      | _ \<Rightarrow> False)"

section \<open>Properties\<close>

datatype upstream_op = InsertOp upstream | ModifyOp upstream | RemoveOp string string

fun op_tenant :: "upstream_op \<Rightarrow> string" where
  "op_tenant (InsertOp up) = up_tenant_id up"
| "op_tenant (ModifyOp up) = up_tenant_id up"
| "op_tenant (RemoveOp t uid) = t"

fun apply_upstream_op :: "upstream_env \<Rightarrow> upstream_op \<Rightarrow> upstream_db \<Rightarrow> upstream_db" where
  "apply_upstream_op env (InsertOp up) db = snd (UpstreamInsert env db up)"
| "apply_upstream_op env (ModifyOp up) db = snd (UpstreamModify env db up)"
| "apply_upstream_op env (RemoveOp t uid) db = snd (UpstreamRemove env db t uid)"

definition run_upstream_ops :: "(upstream_env \<times> upstream_op) list \<Rightarrow> upstream_db \<Rightarrow> upstream_db" where
  "run_upstream_ops ops db = fold (\<lambda>(env, op). apply_upstream_op env op) ops db"

lemma upstream_op_ok: "upstreams_ok db \<Longrightarrow> upstreams_ok (apply_upstream_op env op db)"
  by (cases op) (auto intro: insert_ok modify_ok remove_ok simp: prod_eq_iff)

lemma upstream_op_others: "other_rows (op_tenant op) (apply_upstream_op env op db) = other_rows (op_tenant op) db"
  by (cases op) (auto intro: insert_others modify_others remove_others simp: prod_eq_iff)

lemma own_rows_others: "t \<noteq> t' \<Longrightarrow> filter (\<lambda>r. ur_tenant_id r = t) (udb_rows db) = filter (\<lambda>r. ur_tenant_id r = t) (other_rows t' db)"
  by (auto simp: other_rows_def intro: filter_cong)

lemma tenant_rows_others:
  assumes "op_tenant op \<noteq> t" shows "tenant_rows (apply_upstream_op env op db) t = tenant_rows db t"
proof -
  have "t \<noteq> op_tenant op" using assms by simp
  then show ?thesis
    by (simp add: tenant_rows_def own_rows_others [where t' = "op_tenant op"] upstream_op_others)
qed

text \<open>C30. Whatever sequence of insertions, updates and removals runs against the table, with whatever failures, identifiers,
  names and registries stay unique, credentials stay complete, and the upstreams of a tenant do not change through the
  operations of others.\<close>

theorem upstream_table_kept:
  assumes "upstreams_ok db" "\<forall>(env, op) \<in> set ops. op_tenant op \<noteq> t"
  shows "upstreams_ok (run_upstream_ops (ops' @ ops) db) \<and>
    tenant_rows (run_upstream_ops (ops' @ ops) db) t = tenant_rows (run_upstream_ops ops' db) t"
proof -
  have ok: "upstreams_ok (run_upstream_ops xs d)" if "upstreams_ok d" for xs d
    using that by (induction xs arbitrary: d) (auto simp: run_upstream_ops_def upstream_op_ok)
  have "tenant_rows (run_upstream_ops ops d) t = tenant_rows d t" for d
    using assms(2) by (induction ops arbitrary: d) (auto simp: run_upstream_ops_def tenant_rows_others)
  then show ?thesis using ok [OF assms(1), of "ops' @ ops"] by (simp add: run_upstream_ops_def)
qed

text \<open>An upstream that was inserted is read back as the caller holds it, credentials included: the secret is the one
  given, the user name is kept for basic authentication only, and credentials of no type are none.\<close>

lemma inserted_upstream_read_back:
  assumes "UpstreamInsert env db up = (Inr up', db')" "ue_fault env' ''querying upstream by id'' = None"
    "Configured (up_auth up) \<longrightarrow> codec_reads env env'"
  shows "GetByID env' db' (up_tenant_id up) (up_id up') =
    Returned (Inr (up'\<lparr>up_capabilities := ParseUpstreamCapabilities (UpstreamCapabilityStrings (up_capabilities up)),
      up_auth := (if \<not> Configured (up_auth up) then None
        else map_option (\<lambda>a. a\<lparr>auth_username := (if auth_type a = UpstreamAuthBasic then auth_username a else [])\<rparr>)
          (up_auth up'))\<rparr>))"
proof -
  obtain ty username secret stored row where
    a: "authColumns env (up_auth up) = Inr (ty, username, secret)" and s: "secret_column env secret = Some stored"
    and v: "violation db (udb_rows db) row = None" and db': "db' = db\<lparr>udb_rows := udb_rows db @ [row]\<rparr>"
    and up': "up' = set_auth_time (auth_time env ty) (up\<lparr>up_id := ue_uuid env, up_created_at := ue_now env, up_updated_at := ue_now env\<rparr>)"
    and row: "row = \<lparr>ur_id = ue_uuid env, ur_tenant_id = up_tenant_id up, ur_name = up_name up, ur_ecosystem = up_ecosystem up,
      ur_base_url = up_base_url up, ur_capabilities = UpstreamCapabilityStrings (up_capabilities up), ur_auth_type = ty,
      ur_auth_username = username, ur_auth_secret = stored, ur_auth_updated_at = auth_time env ty, ur_created_at = ue_now env,
      ur_updated_at = ue_now env\<rparr>"
    using assms(1) by (auto simp: UpstreamInsert_def Let_def failing_def split: sum.splits option.splits)
  have uid: "up_id up' = ue_uuid env" by (simp add: up' set_auth_time_def split: option.split)
  have "ue_uuid env \<notin> ur_id ` set (udb_rows db)" using v by (simp add: violation_None row)
  then have "filter (\<lambda>r. ur_tenant_id r = up_tenant_id up \<and> ur_id r = ue_uuid env) (udb_rows db) = []"
    by (auto simp: filter_empty_conv image_iff)
  then have get: "GetByID env' db' (up_tenant_id up) (up_id up') = attachAuth env' row"
    unfolding GetByID_def first_row_def query_def assms(2) uid db' by (simp add: row)
  show ?thesis
  proof (cases "Configured (up_auth up)")
    case False
    then have "ty = UpstreamAuthNone" using auth_columns_cases [OF a] by auto
    with False show ?thesis
      unfolding get by (simp add: attachAuth_def row row_upstream_def up' set_auth_time_def auth_time_def split: option.split)
  next
    case True
    then obtain auth codec t where auth: "up_auth up = Some auth" "ue_codec env = Some codec" "ty = auth_type auth"
      "ty \<noteq> UpstreamAuthNone" "sc_encrypt codec (auth_secret auth) = Inr t" "secret = Some t"
      "username = (if ty = UpstreamAuthBasic then Some (auth_username auth) else None)"
      using auth_columns_cases [OF a] a by (auto simp: authColumns_def Configured_def split: option.splits sum.splits)
    then obtain j where j: "ue_jsonb env t = Some j" "stored = Some j" using s by (auto simp: secret_column_def)
    obtain codec' where codec': "ue_codec env' = Some codec'" "j \<noteq> []" "sc_decrypt codec' j = Returned (Inr (auth_secret auth))"
      using assms(3) True auth j by (auto simp: codec_reads_def split: option.splits)
    have ty: "ty \<noteq> []" using True auth by (auto simp: Configured_def)
    show ?thesis
      unfolding get using True ty auth j codec'
      by (simp add: attachAuth_def row row_upstream_def stored_auth_def up' set_auth_time_def auth_time_def)
  qed
qed

lemma inserted_credentials:
  assumes "UpstreamInsert env db up = (Inr up', db')" "up_auth up = Some auth" "Configured (up_auth up)"
  obtains row codec t j where "udb_rows db' = udb_rows db @ [row]" "ur_id row = up_id up'"
    "ur_tenant_id row = up_tenant_id up" "ur_auth_type row = auth_type auth" "ur_auth_secret row = Some j"
    "ue_codec env = Some codec" "sc_encrypt codec (auth_secret auth) = Inr t" "ue_jsonb env t = Some j"
    "up_id up' \<notin> ur_id ` set (udb_rows db)"
proof -
  obtain codec t where c: "ue_codec env = Some codec" "sc_encrypt codec (auth_secret auth) = Inr t"
    "authColumns env (up_auth up) =
       Inr (auth_type auth, if auth_type auth = UpstreamAuthBasic then Some (auth_username auth) else None, Some t)"
    using assms by (auto simp: UpstreamInsert_def authColumns_def split: option.splits sum.splits)
  then obtain j where j: "ue_jsonb env t = Some j"
    using assms(1) by (auto simp: UpstreamInsert_def secret_column_def Let_def split: option.splits)
  have "up_id (set_auth_time x u) = up_id u" for x u by (simp add: set_auth_time_def split: option.split)
  then show thesis
    using that c j assms(1)
    by (auto simp: UpstreamInsert_def secret_column_def Let_def failing_def violation_None split: option.splits)
qed

text \<open>What a bundle is built from carries no secret.\<close>

lemma bundle_listing_without_secrets:
  assumes "ListBundleByTenant env db t = Inr us" "u \<in> set us" "up_auth u = Some auth"
  shows "auth_secret auth = [] \<and> up_tenant_id u = t"
  using assms
  by (auto simp: ListBundleByTenant_def bind_result_eq_Inr query_def tenant_rows_def attachBundleAuthMetadata_def
      row_upstream_def stored_auth_def split: option.splits if_splits)

text \<open>Without a configured key the credentials of an upstream are refused, but not with the error that callers
  recognise: the repository holds an interface value around a nil pointer, so its test for a missing codec never
  applies and the insertion fails with an unclassified error.\<close>

lemma missing_key_unclassified:
  assumes "trim_space configured = []" "installed_codec cr s configured = Inr c" "ue_codec env = c"
    "Configured (up_auth up)"
  shows "\<exists>e. UpstreamInsert env db up = (Inl e, db) \<and> \<not> errors_is e ErrUpstreamAuthKeyUnavailable"
proof -
  have "c = Some (codec_port cr s None)" using assms(1,2) by (simp add: installed_codec_def upstreamSecretCodec_def)
  moreover obtain auth where "up_auth up = Some auth" using assms(4) by (auto simp: Configured_def split: option.splits)
  ultimately have "authColumns env (up_auth up) =
      Inl (wrap_error ''encrypting upstream auth'' (plain_error ''secret codec is not configured''))"
    using assms(3,4) by (simp add: authColumns_def codec_port_def CodecEncrypt_def)
  then show ?thesis by (simp add: UpstreamInsert_def errors_is_def wrap_error_def plain_error_def)
qed

text \<open>An upstream that only the version history of a policy refers to, because the policy moved to another upstream,
  cannot be removed, and the error is not the one for an upstream in use.\<close>

lemma history_blocks_removal:
  assumes "r \<in> set (udb_rows db)" "ur_tenant_id r = t" "ur_id r = uid" "uid \<notin> set (udb_policy_refs db)"
    "uid \<in> set (udb_version_refs db)" "ue_fault env ''deleting upstream'' = None"
  shows "\<exists>e. UpstreamRemove env db t uid = (Inl e, db) \<and> \<not> errors_is e ErrUpstreamInUse"
proof -
  have "\<exists>r \<in> set (udb_rows db). ur_tenant_id r = t \<and> ur_id r = uid" using assms(1-3) by blast
  then show ?thesis
    using assms(4-6)
    by (simp add: UpstreamRemove_def delete_violation_def failing_def errors_is_def wrap_error_def raw_error_def plain_error_def)
qed

section \<open>Witnesses\<close>

definition sample_upstream_env :: "string \<Rightarrow> secret_codec option \<Rightarrow> upstream_env" where
  "sample_upstream_env uid codec =
     \<lparr>ue_uuid = uid, ue_now = 5, ue_codec = codec, ue_jsonb = (\<lambda>t. Some t), ue_fault = (\<lambda>_. None), ue_text = (\<lambda>_. [])\<rparr>"

definition sample_secret_codec :: secret_codec where
  "sample_secret_codec = codec_port sample_crypto () (Some sample_aead)"

definition sample_private_upstream :: upstream where
  "sample_private_upstream =
     \<lparr>up_id = [], up_tenant_id = ''t'', up_name = ''main'', up_ecosystem = EcosystemOCI, up_base_url = ''https://r'',
      up_capabilities = None,
      up_auth = Some \<lparr>auth_type = UpstreamAuthBearerToken, auth_username = [], auth_secret = ''token'', auth_updated_at = 0\<rparr>,
      up_created_at = 0, up_updated_at = 0\<rparr>"

definition empty_upstreams :: upstream_db where
  "empty_upstreams = \<lparr>udb_tenants = [''t'', ''x''], udb_rows = [], udb_policy_refs = [], udb_version_refs = []\<rparr>"

definition sample_insert :: "upstream result \<times> upstream_db" where
  "sample_insert = UpstreamInsert (sample_upstream_env ''u'' (Some sample_secret_codec)) empty_upstreams sample_private_upstream"

lemma sample_encrypt_only: "sc_encrypt sample_secret_codec x = Inr e \<Longrightarrow> e = ''S'' \<and> x = ''token''"
  by (auto simp: sample_secret_codec_def codec_port_def CodecEncrypt_def sample_crypto_def try_step_def
      sample_aead_def sample_stored_def map_error_def split: if_splits)

lemma sample_decrypts: "sc_decrypt sample_secret_codec ''S'' = Returned (Inr ''token'')"
  unfolding sample_secret_codec_def by code_simp

lemma sample_codec_reads:
  "codec_reads (sample_upstream_env u (Some sample_secret_codec)) (sample_upstream_env u' (Some sample_secret_codec))"
  using sample_encrypt_only sample_decrypts by (auto simp: codec_reads_def sample_upstream_env_def)

theorem upstream_table_kept_witness:
  "tenant_rows (run_upstream_ops ([(sample_upstream_env ''u'' (Some sample_secret_codec), InsertOp sample_private_upstream)] @
       [(sample_upstream_env ''v'' None, RemoveOp ''x'' ''u'')]) empty_upstreams) ''t'' =
     tenant_rows (run_upstream_ops [(sample_upstream_env ''u'' (Some sample_secret_codec), InsertOp sample_private_upstream)]
       empty_upstreams) ''t''"
proof -
  have "upstreams_ok empty_upstreams" by (simp add: upstreams_ok_def empty_upstreams_def)
  from conjunct2 [OF upstream_table_kept [OF this, where ops = "[(sample_upstream_env ''v'' None, RemoveOp ''x'' ''u'')]" and t = "''t''"
        and ops' = "[(sample_upstream_env ''u'' (Some sample_secret_codec), InsertOp sample_private_upstream)]"]]
  show ?thesis by simp
qed

lemma inserted_upstream_read_back_witness:
  "\<exists>u. GetByID (sample_upstream_env ''w'' (Some sample_secret_codec)) (snd sample_insert) ''t'' ''u'' = Returned (Inr u) \<and>
     map_option auth_secret (up_auth u) = Some ''token''"
proof -
  obtain up' where up': "fst sample_insert = Inr up'" and f: "up_id up' = ''u''" "map_option auth_secret (up_auth up') = Some ''token''"
  proof -
    have "case fst sample_insert of Inr x \<Rightarrow> up_id x = ''u'' \<and> map_option auth_secret (up_auth x) = Some ''token'' | Inl e \<Rightarrow> False"
      by code_simp
    then show thesis using that by (auto split: sum.splits)
  qed
  have ins: "UpstreamInsert (sample_upstream_env ''u'' (Some sample_secret_codec)) empty_upstreams sample_private_upstream =
      (Inr up', snd sample_insert)"
    using up' by (metis sample_insert_def prod.collapse)
  have c: "Configured (up_auth sample_private_upstream)" by (simp add: sample_private_upstream_def Configured_def)
  have t: "up_tenant_id sample_private_upstream = ''t''" by (simp add: sample_private_upstream_def)
  let ?g = "\<lambda>a. a\<lparr>auth_username := (if auth_type a = UpstreamAuthBasic then auth_username a else [])\<rparr>"
  have "\<exists>u. GetByID (sample_upstream_env ''w'' (Some sample_secret_codec)) (snd sample_insert) ''t'' ''u'' = Returned (Inr u) \<and>
      up_auth u = map_option ?g (up_auth up')"
    using inserted_upstream_read_back [OF ins, of "sample_upstream_env ''w'' (Some sample_secret_codec)"]
      sample_codec_reads c f(1) by (simp add: sample_upstream_env_def t)
  moreover have "map_option auth_secret (map_option ?g (up_auth up')) = Some ''token''"
    using f(2) by (simp add: option.map_comp comp_def)
  ultimately show ?thesis by auto
qed

lemma missing_key_unclassified_witness:
  "\<exists>e. UpstreamInsert (sample_upstream_env ''u'' (Some (codec_port sample_crypto () None))) empty_upstreams sample_private_upstream =
     (Inl e, empty_upstreams) \<and> \<not> errors_is e ErrUpstreamAuthKeyUnavailable"
  by (rule missing_key_unclassified [where configured = "[]" and cr = sample_crypto and s = "()"])
    (simp_all add: installed_codec_def upstreamSecretCodec_def sample_upstream_env_def sample_private_upstream_def Configured_def)

definition moved_policy_db :: upstream_db where
  "moved_policy_db = (snd sample_insert)\<lparr>udb_version_refs := [''u'']\<rparr>"

lemma history_blocks_removal_witness:
  "\<exists>e. UpstreamRemove (sample_upstream_env ''w'' None) moved_policy_db ''t'' ''u'' = (Inl e, moved_policy_db) \<and>
     \<not> errors_is e ErrUpstreamInUse"
proof -
  obtain r where "udb_rows moved_policy_db = [r] \<and> ur_tenant_id r = ''t'' \<and> ur_id r = ''u''"
  proof -
    have "case udb_rows moved_policy_db of [r] \<Rightarrow> ur_tenant_id r = ''t'' \<and> ur_id r = ''u'' | _ \<Rightarrow> False" by code_simp
    then show thesis using that by (auto split: list.splits)
  qed
  moreover have "udb_policy_refs moved_policy_db = []" "udb_version_refs moved_policy_db = [''u'']" by code_simp+
  ultimately show ?thesis by (intro history_blocks_removal [of r]) (auto simp: sample_upstream_env_def)
qed

end
