(* ===== verification/Bundle_Wire.thy ===== *)
theory Bundle_Wire
  imports Bundle_Service Policy_Documents Go_Time Upstream_Store
begin

text \<open>
  The bundle protocol between the control plane and the proxies: the messages with their reading
  (\<open>wire/bundlegrpc/types.go\<close>) and the server that fills them (\<open>delivery/bundlegrpc/service.go\<close>). The secret of an upstream
  is decrypted and encrypted for the certificate of the calling proxy in one operation of the repository.

  The certificate of the peer comes with the context of the call; the JSON codec of a configuration, the repository and
  the encryption are fields of the server, so that the laws are stated where a theorem uses them.

  The lemmas show that a proxy reads back the bundle that was served, and that a secret stored for an upstream reaches
  the proxy that holds the private key.
\<close>

section \<open>Messages\<close>

record wire_tenant =
  wt_id :: string
  wt_name :: string
  wt_created_at :: string
  wt_updated_at :: string

record wire_policy =
  wp_id :: string
  wp_tenant_id :: string
  wp_upstream_id :: string
  wp_name :: string
  wp_type :: policy_type
  wp_action :: policy_action
  wp_schema_version :: int
  wp_config :: string
  wp_target :: "policy_target option"
  wp_priority :: int
  wp_enabled :: bool
  wp_version :: int
  wp_created_at :: string
  wp_updated_at :: string

record wire_upstream_auth =
  wua_type :: upstream_auth_type
  wua_username :: string
  wua_secret :: string
  wua_updated_at :: string

record wire_bundle_upstream =
  wu_id :: string
  wu_tenant_id :: string
  wu_name :: string
  wu_ecosystem :: ecosystem_type
  wu_base_url :: string
  wu_capabilities :: "string list"
  wu_auth :: "wire_upstream_auth option"
  wu_created_at :: string
  wu_updated_at :: string

record wire_bundle =
  wb_tenant :: wire_tenant
  wb_tenant_id :: string
  wb_revision :: string
  wb_generated_at :: string
  wb_policies :: "wire_policy list"
  wb_upstreams :: "wire_bundle_upstream list"

section \<open>Reading a message\<close>

definition parseBundleTime :: "(string \<Rightarrow> time result) \<Rightarrow> string \<Rightarrow> time result" where
  "parseBundleTime general raw = (if raw = [] then Inr zero_time else time_parse general raw)"

definition parse_stage :: "(string \<Rightarrow> time result) \<Rightarrow> string \<Rightarrow> string \<Rightarrow> time result" where
  "parse_stage general what raw = map_error (wrap_error (''parsing '' @ what)) (parseBundleTime general raw)"

definition WireTenantToDomain :: "(string \<Rightarrow> time result) \<Rightarrow> wire_tenant \<Rightarrow> tenant result" where
  "WireTenantToDomain general t =
     bind_result (parse_stage general ''tenant created_at'' (wt_created_at t))
       (\<lambda>createdAt. bind_result (parse_stage general ''tenant updated_at'' (wt_updated_at t))
         (\<lambda>updatedAt. Inr \<lparr>tenant_id = wt_id t, tenant_name = wt_name t, tenant_created_at = createdAt,
            tenant_updated_at = updatedAt\<rparr>))"

definition WirePolicyToDomain :: "policy_codec \<Rightarrow> (string \<Rightarrow> time result) \<Rightarrow> wire_policy \<Rightarrow> policy result" where
  "WirePolicyToDomain pc general p =
     bind_result (parse_stage general ''policy created_at'' (wp_created_at p))
       (\<lambda>createdAt. bind_result (parse_stage general ''policy updated_at'' (wp_updated_at p))
         (\<lambda>updatedAt. bind_result
              (map_error (wrap_error ''decoding policy config'')
                (DecodeConfigJSON pc (wp_type p) (wp_schema_version p) (wp_config p)))
           (\<lambda>config. bind_result
                (map_error (wrap_error ''validating policy target'')
                  (case wp_target p of
                     None \<Rightarrow> Inr None
                   | Some t \<Rightarrow> map_result NormalizeTarget (ValidateTarget (Some t))))
             (\<lambda>target. Inr
                \<lparr>pol_id = wp_id p, pol_tenant_id = wp_tenant_id p, pol_upstream_id = wp_upstream_id p,
                 pol_name = wp_name p, pol_type = wp_type p, pol_action = wp_action p,
                 pol_schema_version = wp_schema_version p, pol_config = Some config, pol_target = target,
                 pol_priority = wp_priority p, pol_enabled = wp_enabled p, pol_version = wp_version p,
                 pol_created_at = createdAt, pol_updated_at = updatedAt\<rparr>))))"

definition wire_auth_set :: "wire_upstream_auth \<Rightarrow> bool" where
  "wire_auth_set a \<longleftrightarrow> wua_type a \<noteq> [] \<and> wua_type a \<noteq> UpstreamAuthNone"

definition WireUpstreamToDomain :: "(string \<Rightarrow> time result) \<Rightarrow> wire_bundle_upstream \<Rightarrow> upstream result" where
  "WireUpstreamToDomain general u =
     bind_result (parse_stage general ''upstream created_at'' (wu_created_at u))
       (\<lambda>createdAt. bind_result (parse_stage general ''upstream updated_at'' (wu_updated_at u))
         (\<lambda>updatedAt. bind_result
            (case wu_auth u of
               None \<Rightarrow> Inr None
             | Some a \<Rightarrow>
                 if \<not> wire_auth_set a then Inr None
                 else bind_result (parse_stage general ''upstream auth updated_at'' (wua_updated_at a))
                   (\<lambda>t. Inr (Some \<lparr>auth_type = wua_type a, auth_username = wua_username a, auth_secret = wua_secret a,
                      auth_updated_at = t\<rparr>)))
            (\<lambda>auth. Inr
               \<lparr>up_id = wu_id u, up_tenant_id = wu_tenant_id u, up_name = wu_name u, up_ecosystem = wu_ecosystem u,
                up_base_url = wu_base_url u, up_capabilities = ParseUpstreamCapabilities (wu_capabilities u),
                up_auth = auth, up_created_at = createdAt, up_updated_at = updatedAt\<rparr>)))"

fun each :: "('a \<Rightarrow> 'c result) \<Rightarrow> 'a list \<Rightarrow> 'c list result" where
  "each f [] = Inr []"
| "each f (x # xs) = bind_result (f x) (\<lambda>y. bind_result (each f xs) (\<lambda>ys. Inr (y # ys)))"

definition WireBundleToDomain :: "policy_codec \<Rightarrow> (string \<Rightarrow> time result) \<Rightarrow> wire_bundle \<Rightarrow> tenant_bundle result" where
  "WireBundleToDomain pc general b =
     bind_result (parse_stage general ''bundle generated_at'' (wb_generated_at b))
       (\<lambda>generatedAt. bind_result (WireTenantToDomain general (wb_tenant b))
         (\<lambda>t. bind_result (each (WirePolicyToDomain pc general) (wb_policies b))
           (\<lambda>policies. bind_result (each (WireUpstreamToDomain general) (wb_upstreams b))
             (\<lambda>upstreams.
                (let tid = (if wb_tenant_id b = [] then tenant_id t else wb_tenant_id b)
                 in Inr \<lparr>bun_tenant = (if tenant_id t = [] then t\<lparr>tenant_id := tid\<rparr> else t), bun_tenant_id = tid,
                      bun_revision = wb_revision b, bun_generated_at = generatedAt, bun_policies = policies,
                      bun_upstreams = upstreams\<rparr>)))))"

text \<open>The client of a proxy: the call, then the reading.\<close>

definition FetchTenantBundle ::
  "policy_codec \<Rightarrow> (string \<Rightarrow> time result) \<Rightarrow> (string \<Rightarrow> ('s, wire_bundle result) state) \<Rightarrow> string \<Rightarrow>
   ('s, tenant_bundle result) state" where
  "FetchTenantBundle pc general invoke tenantID =
     do { r \<leftarrow> invoke tenantID; State_Monad.return (bind_result r (WireBundleToDomain pc general)) }"

section \<open>The server\<close>

text \<open>The context of a call: no peer, a peer without TLS, or the certificates it presented, each with its public key.\<close>

type_synonym 'k peer_context = "'k option list option option"

record ('k, 's) bundle_server =
  bsv_provider :: "string \<Rightarrow> ('s, tenant_bundle result) state"
  bsv_rewrap :: "string \<Rightarrow> string \<Rightarrow> (string \<Rightarrow> ('s, string result) state) \<Rightarrow> ('s, string outcome) state"
  bsv_encrypt :: "'k \<Rightarrow> string \<Rightarrow> ('s, string result) state"
  bsv_marshal_config :: "policy_config option \<Rightarrow> string result"

definition peerCertificate :: "'k peer_context \<Rightarrow> 'k option result" where
  "peerCertificate ctx =
     (case ctx of
        Some (Some (cert # _)) \<Rightarrow> Inr cert
      | _ \<Rightarrow> Inl (plain_error ''peer certificate is required for encrypted upstream auth''))"

definition peerCertificatePublicKey :: "'k peer_context \<Rightarrow> 'k result" where
  "peerCertificatePublicKey ctx =
     (case peerCertificate ctx of
        Inl e \<Rightarrow> Inl e
      | Inr None \<Rightarrow> Inl (plain_error ''peer certificate public key is missing'')
      | Inr (Some k) \<Rightarrow> Inr k)"

definition newBundleResponse :: "tenant_bundle \<Rightarrow> wire_bundle" where
  "newBundleResponse b =
     (let t = bun_tenant b; tid = (if tenant_id t = [] then bun_tenant_id b else tenant_id t)
      in \<lparr>wb_tenant = \<lparr>wt_id = tid, wt_name = tenant_name t, wt_created_at = format_rfc3339 (tenant_created_at t),
            wt_updated_at = format_rfc3339 (tenant_updated_at t)\<rparr>,
          wb_tenant_id = tid, wb_revision = bun_revision b, wb_generated_at = format_rfc3339 (bun_generated_at b),
          wb_policies = [], wb_upstreams = []\<rparr>)"

definition toBundlePolicy :: "(policy_config option \<Rightarrow> string result) \<Rightarrow> policy \<Rightarrow> wire_policy result" where
  "toBundlePolicy marshal p =
     (case marshal (pol_config p) of
        Inl e \<Rightarrow> Inl (wrap_error ''marshalling bundle policy config'' e)
      | Inr config \<Rightarrow> Inr
          \<lparr>wp_id = pol_id p, wp_tenant_id = pol_tenant_id p, wp_upstream_id = pol_upstream_id p, wp_name = pol_name p,
           wp_type = pol_type p, wp_action = pol_action p, wp_schema_version = pol_schema_version p, wp_config = config,
           wp_target = pol_target p, wp_priority = pol_priority p, wp_enabled = pol_enabled p,
           wp_version = pol_version p, wp_created_at = format_rfc3339 (pol_created_at p),
           wp_updated_at = format_rfc3339 (pol_updated_at p)\<rparr>)"

definition then_outcome ::
  "('s, 'a outcome) state \<Rightarrow> ('a \<Rightarrow> ('s, 'c outcome) state) \<Rightarrow> ('s, 'c outcome) state" where
  "then_outcome m f =
     do {
       r \<leftarrow> m;
       (case r of
          Panics \<Rightarrow> State_Monad.return Panics
        | Returned (Inl e) \<Rightarrow> State_Monad.return (Returned (Inl e))
        | Returned (Inr a) \<Rightarrow> f a)
     }"

definition give :: "'a \<Rightarrow> ('s, 'a outcome) state" where
  "give a = State_Monad.return (Returned (Inr a))"

text \<open>The public key of the peer is looked up once; the variable that holds it is threaded.\<close>

definition bundleUpstreamAuthSecret ::
  "('k, 's) bundle_server \<Rightarrow> 'k peer_context \<Rightarrow> string \<Rightarrow> upstream \<Rightarrow> 'k option \<Rightarrow>
   ('s, (string \<times> 'k option) outcome) state" where
  "bundleUpstreamAuthSecret srv ctx tenantID u peerKey =
     (if \<not> Configured (up_auth u) then give ([], peerKey)
      else if map_option auth_secret (up_auth u) \<noteq> Some [] then
        State_Monad.return (Returned (Inl (wrap_sentinel ErrUpstreamAuthInvalid
          ''bundle upstream auth secret must not be present in domain bundle'')))
      else
        (case (case peerKey of Some k \<Rightarrow> Inr k | None \<Rightarrow> peerCertificatePublicKey ctx) of
           Inl e \<Rightarrow> State_Monad.return (Returned (Inl e))
         | Inr k \<Rightarrow>
             then_outcome (bsv_rewrap srv tenantID (up_id u) (bsv_encrypt srv k)) (\<lambda>encrypted. give (encrypted, Some k))))"

definition toBundleUpstreamAuth ::
  "('k, 's) bundle_server \<Rightarrow> 'k peer_context \<Rightarrow> string \<Rightarrow> upstream \<Rightarrow> 'k option \<Rightarrow>
   ('s, (wire_upstream_auth option \<times> 'k option) outcome) state" where
  "toBundleUpstreamAuth srv ctx tenantID u peerKey =
     (case up_auth u of
        None \<Rightarrow> give (None, peerKey)
      | Some auth \<Rightarrow>
          then_outcome (bundleUpstreamAuthSecret srv ctx tenantID u peerKey)
            (\<lambda>(secret, peerKey'). give
               (Some \<lparr>wua_type = auth_type auth, wua_username = auth_username auth, wua_secret = secret,
                  wua_updated_at = (if auth_updated_at auth = zero_time then [] else format_rfc3339 (auth_updated_at auth))\<rparr>,
                peerKey')))"

definition toBundleUpstream ::
  "('k, 's) bundle_server \<Rightarrow> 'k peer_context \<Rightarrow> string \<Rightarrow> upstream \<Rightarrow> 'k option \<Rightarrow>
   ('s, (wire_bundle_upstream \<times> 'k option) outcome) state" where
  "toBundleUpstream srv ctx tenantID u peerKey =
     then_outcome (toBundleUpstreamAuth srv ctx tenantID u peerKey)
       (\<lambda>(auth, peerKey'). give
          (\<lparr>wu_id = up_id u, wu_tenant_id = up_tenant_id u, wu_name = up_name u, wu_ecosystem = up_ecosystem u,
            wu_base_url = up_base_url u, wu_capabilities = UpstreamCapabilityStrings (EffectiveCapabilities u),
            wu_auth = auth, wu_created_at = format_rfc3339 (up_created_at u),
            wu_updated_at = format_rfc3339 (up_updated_at u)\<rparr>, peerKey'))"

fun upstreams_loop ::
  "('k, 's) bundle_server \<Rightarrow> 'k peer_context \<Rightarrow> string \<Rightarrow> 'k option \<Rightarrow> upstream list \<Rightarrow>
   ('s, wire_bundle_upstream list outcome) state" where
  "upstreams_loop srv ctx tenantID peerKey [] = give []"
| "upstreams_loop srv ctx tenantID peerKey (u # us) =
     then_outcome (toBundleUpstream srv ctx tenantID u peerKey)
       (\<lambda>(w, peerKey'). then_outcome (upstreams_loop srv ctx tenantID peerKey' us) (\<lambda>ws. give (w # ws)))"

definition toBundleResponse ::
  "('k, 's) bundle_server \<Rightarrow> 'k peer_context \<Rightarrow> tenant_bundle \<Rightarrow> ('s, wire_bundle outcome) state" where
  "toBundleResponse srv ctx b =
     (case each (toBundlePolicy (bsv_marshal_config srv)) (bun_policies b) of
        Inl e \<Rightarrow> State_Monad.return (Returned (Inl e))
      | Inr policies \<Rightarrow>
          then_outcome (upstreams_loop srv ctx (bun_tenant_id b) None (bun_upstreams b))
            (\<lambda>upstreams. give ((newBundleResponse b)\<lparr>wb_policies := policies, wb_upstreams := upstreams\<rparr>)))"

definition ServeTenantBundle ::
  "('k, 's) bundle_server \<Rightarrow> 'k peer_context \<Rightarrow> string \<Rightarrow> ('s, wire_bundle outcome) state" where
  "ServeTenantBundle srv ctx tenantID =
     (if tenantID = [] then State_Monad.return (Returned (Inl (plain_error ''tenant_id is required'')))
      else
        do {
          r \<leftarrow> bsv_provider srv tenantID;
          (case r of Inl e \<Rightarrow> State_Monad.return (Returned (Inl e)) | Inr b \<Rightarrow> toBundleResponse srv ctx b)
        })"

section \<open>Lemmas\<close>

lemma run_give [simp]: "run_state (give a) s = (Returned (Inr a), s)"
  by (simp add: give_def)

lemma run_then_outcome:
  "run_state (then_outcome m f) s = (Returned (Inr b), s') \<longleftrightarrow>
     (\<exists>a s1. run_state m s = (Returned (Inr a), s1) \<and> run_state (f a) s1 = (Returned (Inr b), s'))"
  by (auto simp: then_outcome_def split: prod.splits outcome.splits sum.splits)

lemma each_Inr: "each f xs = Inr ys \<longleftrightarrow> list_all2 (\<lambda>x y. f x = Inr y) xs ys"
  by (induction xs arbitrary: ys) (auto simp: bind_result_eq_Inr list_all2_Cons1)

definition in_range :: "time \<Rightarrow> bool" where
  "in_range t \<longleftrightarrow> 0 \<le> instant_year t \<and> instant_year t \<le> 9999"

lemma format_nonempty: "format_rfc3339 t \<noteq> []"
  by (simp add: format_rfc3339_def Let_def)

lemma parse_stage_format: "in_range t \<Longrightarrow> parse_stage general what (format_rfc3339 t) = Inr t"
  by (simp add: parse_stage_def parseBundleTime_def format_nonempty time_parse_def parse_format in_range_def)

text \<open>What the proxy reads of an upstream: everything but the secret, with the capabilities made explicit.\<close>

definition as_bundled :: "upstream \<Rightarrow> string \<Rightarrow> upstream" where
  "as_bundled u secret =
     u\<lparr>up_capabilities := ParseUpstreamCapabilities (UpstreamCapabilityStrings (EffectiveCapabilities u)),
       up_auth := (if Configured (up_auth u) then map_option (\<lambda>a. a\<lparr>auth_secret := secret\<rparr>) (up_auth u) else None)\<rparr>"

definition upstream_times :: "upstream \<Rightarrow> bool" where
  "upstream_times u \<longleftrightarrow> in_range (up_created_at u) \<and> in_range (up_updated_at u) \<and>
     (case up_auth u of None \<Rightarrow> True | Some a \<Rightarrow> in_range (auth_updated_at a))"

lemma upstream_read_back:
  assumes "run_state (toBundleUpstream srv ctx t u k) s = (Returned (Inr (w, k')), s')" "upstream_times u"
  shows "\<exists>secret. WireUpstreamToDomain general w = Inr (as_bundled u secret) \<and>
    (\<forall>a. wu_auth w = Some a \<longrightarrow> wua_secret a = secret)"
proof (cases "up_auth u")
  case None
  with assms show ?thesis
    by (auto simp: toBundleUpstream_def toBundleUpstreamAuth_def run_then_outcome WireUpstreamToDomain_def
        upstream_times_def parse_stage_format as_bundled_def Configured_def)
next
  case (Some auth)
  with assms(1) obtain secret where w: "wu_auth w = Some \<lparr>wua_type = auth_type auth, wua_username = auth_username auth,
      wua_secret = secret, wua_updated_at = (if auth_updated_at auth = zero_time then [] else format_rfc3339 (auth_updated_at auth))\<rparr>"
    and rest: "w = \<lparr>wu_id = up_id u, wu_tenant_id = up_tenant_id u, wu_name = up_name u, wu_ecosystem = up_ecosystem u,
            wu_base_url = up_base_url u, wu_capabilities = UpstreamCapabilityStrings (EffectiveCapabilities u),
            wu_auth = wu_auth w, wu_created_at = format_rfc3339 (up_created_at u),
            wu_updated_at = format_rfc3339 (up_updated_at u)\<rparr>"
    by (auto simp: toBundleUpstream_def toBundleUpstreamAuth_def run_then_outcome)
  have t: "parse_stage general ''upstream auth updated_at''
      (if auth_updated_at auth = zero_time then [] else format_rfc3339 (auth_updated_at auth)) = Inr (auth_updated_at auth)"
    using assms(2) Some by (simp add: upstream_times_def parse_stage_format) (simp add: parse_stage_def parseBundleTime_def)
  have "WireUpstreamToDomain general w = Inr (as_bundled u secret)"
    using assms(2) Some w t
    by (subst rest, cases u, cases auth)
      (simp add: WireUpstreamToDomain_def wire_auth_set_def upstream_times_def parse_stage_format as_bundled_def Configured_def)
  with w show ?thesis by auto
qed

lemma upstreams_read_back:
  assumes "run_state (upstreams_loop srv ctx t k us) s = (Returned (Inr ws), s')" "\<forall>u \<in> set us. upstream_times u"
  shows "\<exists>secrets. length secrets = length us \<and>
    each (WireUpstreamToDomain general) ws = Inr (map2 as_bundled us secrets)"
  using assms
proof (induction us arbitrary: k s ws)
  case (Cons u us)
  then obtain w k' s1 ws' where w: "run_state (toBundleUpstream srv ctx t u k) s = (Returned (Inr (w, k')), s1)"
    and ws': "run_state (upstreams_loop srv ctx t k' us) s1 = (Returned (Inr ws'), s')" "ws = w # ws'"
    by (auto simp: run_then_outcome)
  have "upstream_times u" using Cons.prems(2) by simp
  then obtain secret where "WireUpstreamToDomain general w = Inr (as_bundled u secret)"
    using upstream_read_back [OF w] by blast
  moreover
  obtain secrets where "length secrets = length us" "each (WireUpstreamToDomain general) ws' = Inr (map2 as_bundled us secrets)"
    using Cons.IH [OF ws'(1)] Cons.prems(2) by auto
  ultimately show ?case by (intro exI [of _ "secret # secrets"]) (simp add: ws'(2))
qed simp

text \<open>A policy that the JSON codec carries: what it writes of the configuration is read as this configuration, and the
  target is valid and in normal form.\<close>

definition policy_carried :: "policy_codec \<Rightarrow> (policy_config option \<Rightarrow> string result) \<Rightarrow> policy \<Rightarrow> bool" where
  "policy_carried pc marshal p \<longleftrightarrow> in_range (pol_created_at p) \<and> in_range (pol_updated_at p) \<and>
     ValidateTarget (pol_target p) = Inr (pol_target p) \<and> NormalizeTarget (pol_target p) = pol_target p \<and>
     (\<exists>c. pol_config p = Some c \<and>
        (\<forall>raw. marshal (Some c) = Inr raw \<longrightarrow> DecodeConfigJSON pc (pol_type p) (pol_schema_version p) raw = Inr c))"

lemma policy_read_back:
  assumes "toBundlePolicy marshal p = Inr w" "policy_carried pc marshal p"
  shows "WirePolicyToDomain pc general w = Inr p"
proof -
  from assms(2) obtain c where c: "pol_config p = Some c" by (auto simp: policy_carried_def)
  from assms(1) c obtain raw where raw: "marshal (Some c) = Inr raw"
    by (auto simp: toBundlePolicy_def split: sum.splits)
  have "DecodeConfigJSON pc (pol_type p) (pol_schema_version p) raw = Inr c"
    using assms(2) c raw by (auto simp: policy_carried_def)
  moreover have "(case pol_target p of None \<Rightarrow> Inr None | Some t \<Rightarrow> map_result NormalizeTarget (ValidateTarget (Some t))) =
      (Inr (pol_target p) :: policy_target option result)"
    using assms(2) by (auto simp: policy_carried_def map_result_def split: option.split)
  ultimately show ?thesis
    using assms c raw
    by (auto simp: toBundlePolicy_def WirePolicyToDomain_def policy_carried_def parse_stage_format)
qed

lemma policies_read_back:
  assumes "each (toBundlePolicy marshal) ps = Inr ws" "\<forall>p \<in> set ps. policy_carried pc marshal p"
  shows "each (WirePolicyToDomain pc general) ws = Inr ps"
  using assms
  by (induction ps arbitrary: ws) (auto simp: bind_result_eq_Inr dest!: policy_read_back)

section \<open>Properties\<close>

definition bundle_times :: "tenant_bundle \<Rightarrow> bool" where
  "bundle_times b \<longleftrightarrow> in_range (bun_generated_at b) \<and> in_range (tenant_created_at (bun_tenant b)) \<and>
     in_range (tenant_updated_at (bun_tenant b)) \<and> (\<forall>u \<in> set (bun_upstreams b). upstream_times u)"


section \<open>The way of a secret\<close>

text \<open>The server over the table of upstreams, as \<open>bootstrap\<close> connects them.\<close>

definition connected_server ::
  "('rp, 'rs, 'ep, 'es, 'b, 's) crypto \<Rightarrow> upstream_env \<Rightarrow> upstream_db \<Rightarrow> (string \<Rightarrow> ('s, tenant_bundle result) state) \<Rightarrow>
   (policy_config option \<Rightarrow> string result) \<Rightarrow> (('rp, 'ep) asymmetric_key, 's) bundle_server" where
  "connected_server cr env db provider marshal =
     \<lparr>bsv_provider = provider, bsv_rewrap = (\<lambda>t uid wrap. RewrapUpstreamAuthSecret env db t uid (Some wrap)),
      bsv_encrypt = EncryptForPublicKey cr, bsv_marshal_config = marshal\<rparr>"

lemma run_rewrap:
  assumes "run_state (RewrapUpstreamAuthSecret env db t uid (Some wrap)) s = (Returned (Inr payload), s')"
    "filter (\<lambda>r. ur_tenant_id r = t \<and> ur_id r = uid \<and> ur_auth_type r \<noteq> UpstreamAuthNone) (udb_rows db) = r # rs"
    "ur_auth_secret r = Some j" "ue_codec env = Some codec" "sc_decrypt codec j = Returned (Inr plaintext)"
  shows "\<exists>s1. run_state (wrap plaintext) s1 = (Inr payload, s')"
  using assms
  by (auto simp: RewrapUpstreamAuthSecret_def query_def Let_def split: option.splits if_splits prod.splits)

lemma upstreams_loop_each:
  assumes "run_state (upstreams_loop srv ctx t k us) s = (Returned (Inr ws), s')" "k = None \<or> k = Some key"
    "peerCertificatePublicKey ctx = Inr key" "u \<in> set us"
  shows "\<exists>k0 s0 w k1 s1. (k0 = None \<or> k0 = Some key) \<and> w \<in> set ws \<and>
    run_state (toBundleUpstream srv ctx t u k0) s0 = (Returned (Inr (w, k1)), s1)"
  using assms
proof (induction us arbitrary: k s ws)
  case (Cons v us)
  then obtain w k' s1 ws' where w: "run_state (toBundleUpstream srv ctx t v k) s = (Returned (Inr (w, k')), s1)"
    and ws': "run_state (upstreams_loop srv ctx t k' us) s1 = (Returned (Inr ws'), s')" and ws: "ws = w # ws'"
    by (auto simp: run_then_outcome)
  have "k' = None \<or> k' = Some key"
    using w Cons.prems(2,3)
    by (auto simp: toBundleUpstream_def toBundleUpstreamAuth_def bundleUpstreamAuthSecret_def run_then_outcome
        split: option.splits if_splits)
  from Cons.IH [OF ws' this Cons.prems(3)] Cons.prems(2,4) w show ?case by (cases "v = u") (fastforce simp: ws)+
qed simp

text \<open>C28. A secret reaches the proxy that it is meant for: when an upstream was stored with credentials, the bundle listed
  for its tenant and served to a peer with a certificate carries, for this upstream, an envelope that the strict resolver
  of the holder of the private key opens to the stored secret.\<close>

theorem stored_secret_reaches_proxy:
  assumes ins: "UpstreamInsert env db up = (Inr up', db')" "up_auth up = Some auth" "Configured (up_auth up)"
    and codec: "codec_reads env env2"
    and listed: "ListBundleByTenant env3 db' (up_tenant_id up) = Inr (bun_upstreams b)" "bun_tenant_id b = up_tenant_id up"
    and keys: "hybrid_laws cr publicKey privateKey" "peerCertificatePublicKey ctx = Inr publicKey"
    and run: "run_state (toBundleResponse (connected_server cr env2 db' provider marshal) ctx b) s = (Returned (Inr w), s')"
  shows "\<exists>wu a. wu \<in> set (wb_upstreams w) \<and> wu_id wu = up_id up' \<and> wu_auth wu = Some a \<and> wua_type a = auth_type auth \<and>
    ResolveSecret cr (Some (NewStrictHybridPrivateKeyResolver (Some privateKey))) (wua_secret a) =
      Returned (Inr (auth_secret auth))"
proof -
  let ?srv = "connected_server cr env2 db' provider marshal"
  obtain row codec t j where row: "udb_rows db' = udb_rows db @ [row]" "ur_id row = up_id up'"
      "ur_tenant_id row = up_tenant_id up" "ur_auth_type row = auth_type auth" "ur_auth_secret row = Some j"
      "ue_codec env = Some codec" "sc_encrypt codec (auth_secret auth) = Inr t" "ue_jsonb env t = Some j"
      "up_id up' \<notin> ur_id ` set (udb_rows db)"
    by (rule inserted_credentials [OF ins])
  obtain codec2 where codec2: "ue_codec env2 = Some codec2" "sc_decrypt codec2 j = Returned (Inr (auth_secret auth))"
    using codec row by (auto simp: codec_reads_def split: option.splits)
  have ty: "auth_type auth \<noteq> []" "auth_type auth \<noteq> UpstreamAuthNone" using ins(2,3) by (auto simp: Configured_def)
  let ?u = "attachBundleAuthMetadata row"
  have u: "up_id ?u = up_id up'" "up_auth ?u = Some (stored_auth row [])"
    using row ty by (simp_all add: attachBundleAuthMetadata_def row_upstream_def)
  have "bun_upstreams b = map attachBundleAuthMetadata (tenant_rows db' (up_tenant_id up))"
    using listed(1) by (auto simp: ListBundleByTenant_def bind_result_eq_Inr query_def split: option.splits)
  moreover have "row \<in> set (tenant_rows db' (up_tenant_id up))" using row by (simp add: tenant_rows_def)
  ultimately have mem: "?u \<in> set (bun_upstreams b)" by simp
  obtain us where us: "run_state (upstreams_loop ?srv ctx (up_tenant_id up) None (bun_upstreams b)) s =
      (Returned (Inr us), s')" and w: "wb_upstreams w = us"
    using run by (auto simp: toBundleResponse_def run_then_outcome listed(2) split: sum.splits)
  from upstreams_loop_each [OF us disjI1 [OF refl] keys(2) mem]
  obtain k0 s0 wu k1 s1 where k0: "k0 = None \<or> k0 = Some publicKey" and wu: "wu \<in> set us"
    and served: "run_state (toBundleUpstream ?srv ctx (up_tenant_id up) ?u k0) s0 = (Returned (Inr (wu, k1)), s1)"
    by (elim exE conjE)
  obtain a payload s2 where a: "wu_auth wu = Some a" "wua_type a = auth_type auth" "wua_secret a = payload" "wu_id wu = up_id up'"
    and rewrap: "run_state (RewrapUpstreamAuthSecret env2 db' (up_tenant_id up) (up_id up')
      (Some (EncryptForPublicKey cr publicKey))) s0 = (Returned (Inr payload), s2)"
    using served k0 keys(2) ty
    by (auto simp: toBundleUpstream_def toBundleUpstreamAuth_def bundleUpstreamAuthSecret_def run_then_outcome u
        connected_server_def stored_auth_def row(4) Configured_def)
  have "filter (\<lambda>r. ur_tenant_id r = up_tenant_id up \<and> ur_id r = up_id up' \<and> ur_auth_type r \<noteq> UpstreamAuthNone)
      (udb_rows db') = [row]"
    using row ty by (auto simp: filter_empty_conv image_iff)
  then obtain s3 where "run_state (EncryptForPublicKey cr publicKey (auth_secret auth)) s3 = (Inr payload, s2)"
    using run_rewrap [OF rewrap _ row(5) codec2] by blast
  from strict_resolves [OF keys(1) this] a wu w show ?thesis by auto
qed

section \<open>Witnesses\<close>

definition sample_listing :: "upstream list" where
  "sample_listing = map attachBundleAuthMetadata (tenant_rows (snd sample_insert) ''t'')"

definition sample_tenant_bundle :: tenant_bundle where
  "sample_tenant_bundle =
     \<lparr>bun_tenant = \<lparr>tenant_id = ''t'', tenant_name = ''Team'', tenant_created_at = 0, tenant_updated_at = 0\<rparr>,
      bun_tenant_id = ''t'', bun_revision = ''r1'', bun_generated_at = 7, bun_policies = [], bun_upstreams = sample_listing\<rparr>"

definition sample_bundle_server :: "((unit, unit) asymmetric_key, unit) bundle_server" where
  "sample_bundle_server =
     connected_server sample_crypto (sample_upstream_env ''w'' (Some sample_secret_codec)) (snd sample_insert)
       (\<lambda>_. State_Monad.return (Inr sample_tenant_bundle)) (\<lambda>_. Inr ''{}'')"

definition sample_peer :: "(unit, unit) asymmetric_key peer_context" where
  "sample_peer = Some (Some [Some (RSAKey ())])"

definition sample_served :: wire_bundle where
  "sample_served =
     (case fst (run_state (toBundleResponse sample_bundle_server sample_peer sample_tenant_bundle) ()) of
        Returned (Inr w) \<Rightarrow> w
      | _ \<Rightarrow> newBundleResponse sample_tenant_bundle)"

lemma sample_serves:
  "run_state (toBundleResponse sample_bundle_server sample_peer sample_tenant_bundle) () = (Returned (Inr sample_served), ())"
proof -
  have "case fst (run_state (toBundleResponse sample_bundle_server sample_peer sample_tenant_bundle) ()) of
      Returned (Inr w) \<Rightarrow> True | _ \<Rightarrow> False"
    by code_simp
  then show ?thesis
    by (auto simp: sample_served_def prod_eq_iff split: outcome.splits sum.splits)
qed

definition no_policies_codec :: policy_codec where
  "no_policies_codec =
     \<lparr>pc_decoder = \<lparr>jd_mismatch = (\<lambda>_ _. []), jd_float = (\<lambda>_. None)\<rparr>, pc_decode = (\<lambda>_. Inl (plain_error [])),
      pc_marshal = (\<lambda>_. Inr [])\<rparr>"

lemma sample_times: "bundle_times sample_tenant_bundle"
  by code_simp


theorem stored_secret_reaches_proxy_witness:
  "\<exists>wu a. wu \<in> set (wb_upstreams sample_served) \<and> wu_id wu = ''u'' \<and> wu_auth wu = Some a \<and>
     ResolveSecret sample_crypto (Some (NewStrictHybridPrivateKeyResolver (Some (RSAKey ())))) (wua_secret a) =
       Returned (Inr ''token'')"
proof -
  obtain up' where up': "fst sample_insert = Inr up'" "up_id up' = ''u''"
  proof -
    have "case fst sample_insert of Inr x \<Rightarrow> up_id x = ''u'' | Inl e \<Rightarrow> False" by code_simp
    then show thesis using that by (auto split: sum.splits)
  qed
  have ins: "UpstreamInsert (sample_upstream_env ''u'' (Some sample_secret_codec)) empty_upstreams sample_private_upstream =
      (Inr up', snd sample_insert)"
    using up' by (metis sample_insert_def prod.collapse)
  obtain auth where auth: "up_auth sample_private_upstream = Some auth" "auth_secret auth = ''token''"
    by (simp add: sample_private_upstream_def)
  have c: "Configured (up_auth sample_private_upstream)" by (simp add: sample_private_upstream_def Configured_def)
  have t: "up_tenant_id sample_private_upstream = ''t''" by (simp add: sample_private_upstream_def)
  have listed: "ListBundleByTenant (sample_upstream_env ''w'' None) (snd sample_insert) (up_tenant_id sample_private_upstream) =
      Inr (bun_upstreams sample_tenant_bundle)"
    by (simp add: ListBundleByTenant_def query_def sample_upstream_env_def sample_tenant_bundle_def sample_listing_def t)
  have tid: "bun_tenant_id sample_tenant_bundle = up_tenant_id sample_private_upstream"
    by (simp add: sample_tenant_bundle_def t)
  have key: "peerCertificatePublicKey sample_peer = Inr (RSAKey ())"
    by (simp add: peerCertificatePublicKey_def peerCertificate_def sample_peer_def)
  from stored_secret_reaches_proxy [OF ins auth(1) c sample_codec_reads listed tid sample_keys key
      sample_serves [unfolded sample_bundle_server_def]]
  show ?thesis using up'(2) auth(2) by auto
qed

end
