(* ===== verification/Start_Up.thy ===== *)
theory Start_Up
  imports Runtime_Config Bundle_Wire Oci_Cache Graph_Worker Upstream_Clients Wire_Client
begin

text \<open>
  How the parts are put together when a process starts (\<open>bootstrap\<close>): the audit recorders (\<open>infra/audit\<close>), the
  credentials of the connection between proxies and control plane (\<open>infra/controlplanegrpc/client.go\<close>), the
  authorization in front of the bundle service, the resolver of upstream secrets, the artifact cache and the worker.

  Certificates, keys and pools of certificates are arbitrary; loading and parsing them are functions of the host. Opening
  databases, listeners and telemetry is left out.

  The lemmas show which connections a validated configuration secures, that the control plane serves bundles to granted
  clients only, and how the audit service and the local bundles behave as they are wired.
\<close>

section \<open>Audit\<close>

text \<open>The texts of the failures, in the order of the recorders.\<close>

fun fanout_loop :: "(audit_event \<Rightarrow> ('s, unit result) state) list \<Rightarrow> audit_event \<Rightarrow> ('s, string list) state" where
  "fanout_loop [] event = State_Monad.return []"
| "fanout_loop (recorder # recorders) event =
     do {
       r \<leftarrow> recorder event;
       failures \<leftarrow> fanout_loop recorders event;
       State_Monad.return (case r of Inl e \<Rightarrow> err_text e # failures | Inr _ \<Rightarrow> failures)
     }"

definition FanoutRecord ::
  "(audit_event \<Rightarrow> ('s, unit result) state) list \<Rightarrow> audit_event \<Rightarrow> ('s, unit result) state" where
  "FanoutRecord recorders event =
     do {
       failures \<leftarrow> fanout_loop recorders event;
       State_Monad.return
         (if failures \<noteq> [] then Inl (plain_error (''recording audit event: '' @ join ''; '' failures)) else Inr ())
     }"

definition parseAuditFailureMode :: "string \<Rightarrow> audit_failure_mode" where
  "parseAuditFailureMode value =
     (if equal_fold (trim_space value) AuditFailureModeFailOpen then AuditFailureModeFailOpen else AuditFailureModeFailClosed)"

definition parseAuditDetailLevel :: "string \<Rightarrow> audit_detail_level" where
  "parseAuditDetailLevel value =
     (let v = to_lower (trim_space value)
      in if v = AuditDetailLevelMinimal then AuditDetailLevelMinimal
         else if v = AuditDetailLevelFull then AuditDetailLevelFull
         else AuditDetailLevelSummary)"

definition configuredAuditRecorders ::
  "config \<Rightarrow> (audit_event \<Rightarrow> ('s, unit result) state) \<Rightarrow> (audit_event \<Rightarrow> ('s, unit result) state) option \<Rightarrow>
   (audit_event \<Rightarrow> ('s, unit result) state) list" where
  "configuredAuditRecorders cfg slog postgres =
     (if auc_enabled (cfg_audit cfg) \<and> auc_slog (cfg_audit cfg) then [slog] else []) @
     (case postgres of
        Some recorder \<Rightarrow> if auc_enabled (cfg_audit cfg) \<and> auc_postgres (cfg_audit cfg) then [recorder] else []
      | None \<Rightarrow> [])"

definition newAuditService ::
  "config \<Rightarrow> (audit_event \<Rightarrow> ('s, unit result) state) \<Rightarrow> (audit_filter \<Rightarrow> ('s, audit_event list result) state) option \<Rightarrow>
   (audit_event \<Rightarrow> ('s, unit result) state) option \<Rightarrow> 's audit_service" where
  "newAuditService cfg slog repo postgres =
     \<lparr>aud_recorder = Some (FanoutRecord (configuredAuditRecorders cfg slog postgres)), aud_repo = repo,
      aud_enabled = auc_enabled (cfg_audit cfg), aud_failure_mode = parseAuditFailureMode (auc_failure_mode (cfg_audit cfg)),
      aud_detail_level = parseAuditDetailLevel (auc_detail_level (cfg_audit cfg))\<rparr>"

section \<open>Transport security\<close>

record ('c, 'k) key_files =
  kf_certificate :: 'c
  kf_private_key :: "'k option"

record ('c, 'k, 'p) tls_host =
  th_load_pair :: "string \<Rightarrow> string \<Rightarrow> ('c, 'k) key_files result"
  th_read_file :: "string \<Rightarrow> string result"
  th_certificates :: "string \<Rightarrow> 'p option" \<comment> \<open>the pool of the certificates in a PEM text\<close>

text \<open>A client checks the server against its pool and an optional name; a server requires and verifies a client
  certificate.\<close>

datatype ('c, 'p) transport_credentials =
    InsecureTransport
  | ClientTLS 'c 'p string
  | ServerTLS 'c 'p

definition certPoolFromFile :: "('c, 'k, 'p) tls_host \<Rightarrow> string \<Rightarrow> 'p result" where
  "certPoolFromFile host path =
     (case th_read_file host path of
        Inl e \<Rightarrow> Inl (wrap_error ''reading grpc ca file'' e)
      | Inr pem \<Rightarrow>
          (case th_certificates host pem of
             None \<Rightarrow> Inl (plain_error ''parsing grpc ca file: no certificates found'')
           | Some pool \<Rightarrow> Inr pool))"

definition insecure_config :: bundle_tls_config where
  "insecure_config =
     \<lparr>btc_mode = ''insecure'', btc_ca_file = [], btc_cert_file = [], btc_key_file = [], btc_server_name_override = [],
      btc_allow_insecure_control_plane = False, btc_authorized_clients = None\<rparr>"

definition bundleTLSConfig :: "bundle_tls_config list \<Rightarrow> bundle_tls_config" where
  "bundleTLSConfig configs = (case configs of [] \<Rightarrow> insecure_config | c # _ \<Rightarrow> c)"

definition clientTransportCredentials ::
  "('c, 'k, 'p) tls_host \<Rightarrow> bundle_tls_config \<Rightarrow> ('c, 'p) transport_credentials result" where
  "clientTransportCredentials host cfg =
     (if btc_mode cfg \<noteq> ''mtls'' then Inr InsecureTransport
      else
        bind_result (map_error (wrap_error ''loading grpc client certificate'')
            (th_load_pair host (btc_cert_file cfg) (btc_key_file cfg)))
          (\<lambda>cert. bind_result (certPoolFromFile host (btc_ca_file cfg))
            (\<lambda>roots. Inr (ClientTLS (kf_certificate cert) roots (btc_server_name_override cfg)))))"

definition serverTransportCredentials ::
  "('c, 'k, 'p) tls_host \<Rightarrow> bundle_tls_config \<Rightarrow> ('c, 'p) transport_credentials option result" where
  "serverTransportCredentials host cfg =
     (if btc_mode cfg \<noteq> ''mtls'' then Inr None
      else
        bind_result (map_error (wrap_error ''loading grpc server certificate'')
            (th_load_pair host (btc_cert_file cfg) (btc_key_file cfg)))
          (\<lambda>cert. bind_result (certPoolFromFile host (btc_ca_file cfg))
            (\<lambda>clientCAs. Inr (Some (ServerTLS (kf_certificate cert) clientCAs)))))"

text \<open>The options of a client and of a server, as far as they say who may connect.\<close>

definition DialOptions :: "('c, 'k, 'p) tls_host \<Rightarrow> bundle_tls_config list \<Rightarrow> ('c, 'p) transport_credentials result" where
  "DialOptions host configs = clientTransportCredentials host (bundleTLSConfig configs)"

definition ServerOptions ::
  "('c, 'k, 'p) tls_host \<Rightarrow> bundle_tls_config list \<Rightarrow> ('c, 'p) transport_credentials option result" where
  "ServerOptions host configs = serverTransportCredentials host (bundleTLSConfig configs)"

section \<open>The control plane\<close>

text \<open>A request of either service on the connection.\<close>

datatype control_request = BundleRequest string | IngestRequest ingest_request

fun bundle_tenant_id :: "control_request \<Rightarrow> string" where
  "bundle_tenant_id (BundleRequest t) = t"
| "bundle_tenant_id (IngestRequest _) = []"

fun ingest_tenant_id :: "control_request \<Rightarrow> string" where
  "ingest_tenant_id (BundleRequest _) = []"
| "ingest_tenant_id (IngestRequest r) = TenantIDFromRequest r"

definition controlPlaneTenantIDFromRequest :: "control_request \<Rightarrow> string" where
  "controlPlaneTenantIDFromRequest req =
     (let tenantID = bundle_tenant_id req in if tenantID \<noteq> [] then tenantID else ingest_tenant_id req)"

definition no_artifact :: artifact_identity where
  "no_artifact = \<lparr>art_ecosystem = [], art_namespace = [], art_name = [], art_version = [], art_digest = []\<rparr>"

definition controlPlaneAuthorizationDeniedRecorder ::
  "'s runtime \<Rightarrow> 's audit_service option \<Rightarrow> denied_event \<Rightarrow> ('s, unit result) state" where
  "controlPlaneAuthorizationDeniedRecorder rt audit event =
     (if \<not> Enabled audit \<or> den_tenant_id event = [] then State_Monad.return (Inr ())
      else do {
        now \<leftarrow> time_now rt;
        RecordAudit rt audit
          \<lparr>ev_id = [], ev_tenant_id = den_tenant_id event, ev_correlation_id = [], ev_event_type = AuditEventRequestDenied,
           ev_source = ''control-plane/grpc-authz'', ev_entity_type = ''control_plane_grpc_request'', ev_entity_id = [],
           ev_upstream_id = [], ev_policy_id = [], ev_outcome = Some DecisionDeny, ev_artifact = no_artifact,
           ev_message = ''control-plane grpc request denied'',
           ev_payload = Some
             [(''client_identities'', VStrings (den_client_identities event)), (''grpc_method'', VString (den_full_method event)),
              (''permission_message'', VString (den_message event)), (''reason'', VString (den_reason event))],
           ev_created_at = now\<rparr>
      })"

definition controlPlaneGRPCServerOptions ::
  "('c, 'k, 'p) tls_host \<Rightarrow> config \<Rightarrow> 's runtime \<Rightarrow> 's audit_service option \<Rightarrow>
   (('c, 'p) transport_credentials option \<times> 's authorization_config option) result" where
  "controlPlaneGRPCServerOptions host cfg rt audit =
     bind_result (ServerOptions host [bdc_tls (cfg_bundle cfg)])
       (\<lambda>transport. Inr (transport,
          if btc_mode (bdc_tls (cfg_bundle cfg)) = ''mtls'' then
            Some \<lparr>atz_clients = slice_elems (btc_authorized_clients (bdc_tls (cfg_bundle cfg))),
                  atz_denied_recorder = Some (controlPlaneAuthorizationDeniedRecorder rt audit)\<rparr>
          else None))"

text \<open>The peer of a call: its certificates with their public keys.\<close>

type_synonym 'k peer = "(certificate \<times> 'k option) list option"

definition bundle_method :: string where
  "bundle_method = ''/dependencyfirewall.bundle.v1.BundleService/GetTenantBundle''"

datatype 'a reply = Refused status | Answered "'a outcome"

definition getTenantBundleHandler ::
  "('k, 's) bundle_server \<Rightarrow> 's authorization_config option \<Rightarrow> 'k peer \<Rightarrow> string result \<Rightarrow> ('s, wire_bundle reply) state" where
  "getTenantBundleHandler srv interceptor peer decoded =
     (let handle = (\<lambda>t. do { r \<leftarrow> ServeTenantBundle srv (Some (map_option (map snd) peer)) t; State_Monad.return (Answered r) })
      in case decoded of
           Inl e \<Rightarrow> State_Monad.return (Answered (Returned (Inl e)))
         | Inr t \<Rightarrow>
             (case interceptor of
                None \<Rightarrow> handle t
              | Some cfg \<Rightarrow>
                  do {
                    refused \<leftarrow> authorize cfg (map_option (map fst) peer) bundle_method
                      (Some controlPlaneTenantIDFromRequest) (BundleRequest t);
                    (case refused of Some st \<Rightarrow> State_Monad.return (Refused st) | None \<Rightarrow> handle t)
                  }))"

text \<open>What the management routes allow.\<close>

definition allow_authenticated_upstreams :: "config \<Rightarrow> bool" where
  "allow_authenticated_upstreams cfg \<longleftrightarrow>
     cfg_runtime_mode cfg \<noteq> RuntimeModeControlPlane \<or> btc_mode (bdc_tls (cfg_bundle cfg)) = ''mtls''"

text \<open>The local bundle service of the repositories; the options are those the two modes pass.\<close>

definition newLocalBundleService ::
  "'s bundle_service \<Rightarrow> (string \<Rightarrow> upstream list result) option \<Rightarrow> bool \<Rightarrow> 's bundle_service result" where
  "newLocalBundleService repositories bundleUpstreams includeUpstreamAuth =
     NewBundleService
       (repositories\<lparr>bs_include_upstream_auth := includeUpstreamAuth,
          bs_list_bundle_upstreams := map_option (\<lambda>f t. State_Monad.return (f t)) bundleUpstreams\<rparr>)"

section \<open>The proxy\<close>

definition ociClientOptions ::
  "('c, ('rs, 'es) asymmetric_key, 'p) tls_host \<Rightarrow> config \<Rightarrow> ('rs, 'es) hybrid_resolver option result" where
  "ociClientOptions host cfg =
     (let tls = bdc_tls (cfg_bundle cfg)
      in if btc_mode tls \<noteq> ''mtls'' then Inr None
         else if cfg_runtime_mode cfg \<noteq> RuntimeModeProxy \<and> cfg_runtime_mode cfg \<noteq> RuntimeModeAllInOne then Inr None
         else (case th_load_pair host (btc_cert_file tls) (btc_key_file tls) of
             Inl e \<Rightarrow> Inl (wrap_error ''loading proxy certificate private key for upstream auth'' e)
           | Inr cert \<Rightarrow>
               (case kf_private_key cert of
                  None \<Rightarrow> Inl (plain_error ''proxy certificate private key is missing'')
                | Some k \<Rightarrow>
                    Inr (Some (if cfg_runtime_mode cfg = RuntimeModeProxy then NewStrictHybridPrivateKeyResolver (Some k)
                      else NewHybridPrivateKeyResolver (Some k))))))"

definition newOCIArtifactCache :: "cache_env \<Rightarrow> oci_cache_config \<Rightarrow> disk_cache result" where
  "newOCIArtifactCache env cfg =
     (let backend = to_lower (trim_space (occ_backend cfg))
      in if backend = [] \<or> backend = ''disk'' then
           NewDiskCache env \<lparr>dc_root_dir = occ_root_dir cfg, dc_max_bytes = occ_max_bytes cfg, dc_max_age = occ_max_age cfg,
             dc_max_entries = occ_max_entries cfg\<rparr>
         else if backend = ''s3'' \<or> backend = ''gcs'' then
           Inl (plain_error (''OCI cache backend '' @ quote (occ_backend cfg) @ '' is not implemented yet''))
         else Inl (plain_error (''unsupported OCI cache backend '' @ quote (occ_backend cfg))))"

definition dependencyGraphWorkerRunner :: "config \<Rightarrow> worker_config" where
  "dependencyGraphWorkerRunner cfg =
     (let g = cfg_dependency_graph cfg
      in \<lparr>wc_enabled = dgc_enabled g, wc_tenant_id = dgc_tenant_id g, wc_poll_interval = dgc_poll_interval g,
          wc_timeout = dgc_timeout g, wc_concurrency = dgc_concurrency g, wc_retry_delay = dgc_retry_delay g\<rparr>)"

definition optionalDependencyGraphWorkerRunner :: "config \<Rightarrow> worker_config option" where
  "optionalDependencyGraphWorkerRunner cfg =
     (if \<not> dgc_run_in_process (cfg_dependency_graph cfg) then None else Some (dependencyGraphWorkerRunner cfg))"

section \<open>Connections\<close>

lemma client_secured:
  "btc_mode tls = ''mtls'' \<Longrightarrow> DialOptions host [tls] = Inr t \<Longrightarrow>
     \<exists>cert roots. t = ClientTLS cert roots (btc_server_name_override tls)"
  by (auto simp: DialOptions_def bundleTLSConfig_def clientTransportCredentials_def bind_result_eq_Inr)

lemma server_secured:
  "btc_mode tls = ''mtls'' \<Longrightarrow> ServerOptions host [tls] = Inr t \<Longrightarrow> \<exists>cert pool. t = Some (ServerTLS cert pool)"
  by (auto simp: ServerOptions_def bundleTLSConfig_def serverTransportCredentials_def bind_result_eq_Inr)

text \<open>A validated proxy or worker connects over TLS with a certificate of its own or not at all, and a validated
  control plane listens without client certificates only when the insecure override is set; without it the control plane
  has at least one authorized client, and every authorized client an identity and tenants.\<close>

lemma validated_connections_secured:
  assumes "Validate env (Some cfg) = Inr ()" "tls = bdc_tls (cfg_bundle cfg)"
  shows "(cfg_runtime_mode cfg \<in> {RuntimeModeProxy, RuntimeModeDependencyGraphWorker} \<longrightarrow>
      (\<forall>t. DialOptions host [tls] = Inr t \<longrightarrow> (\<exists>cert roots. t = ClientTLS cert roots (btc_server_name_override tls)))) \<and>
    (cfg_runtime_mode cfg = RuntimeModeControlPlane \<longrightarrow> btc_allow_insecure_control_plane tls \<or>
      (\<forall>t. ServerOptions host [tls] = Inr t \<longrightarrow> (\<exists>cert pool. t = Some (ServerTLS cert pool))) \<and>
      slice_elems (btc_authorized_clients tls) \<noteq> [] \<and> (\<forall>c \<in> set (slice_elems (btc_authorized_clients tls)). client_ok c))"
  using validated_split_mode [OF assms(1)] validated_tls(4) [OF assms(1)] client_secured [of tls host] server_secured [of tls host]
  unfolding assms(2) by blast

section \<open>Authorization\<close>

definition record_denied :: "'s authorization_config \<Rightarrow> denied_event \<Rightarrow> ('s, unit result) state" where
  "record_denied cfg event =
     (case atz_denied_recorder cfg of None \<Rightarrow> State_Monad.return (Inr ()) | Some recorder \<Rightarrow> recorder event)"

lemma deny_records:
  "\<exists>event' st. do { st \<leftarrow> deny cfg event code; State_Monad.return (f st) } =
     do { _ \<leftarrow> record_denied cfg event'; State_Monad.return (f st) } \<and> st_code st = code"
  by (rule exI [of _ "event\<lparr>den_tenant_id := _, den_full_method := _, den_reason := _, den_message := _\<rparr>"],
      rule exI [of _ "\<lparr>st_code = _, st_message = _\<rparr>"])
    (simp add: deny_def record_denied_def Let_def)

lemma authorize_refuses:
  assumes "\<not> (\<exists>c \<in> set (atz_clients cfg). grants c (peerCertificateIdentities peer) (trim_space (extract req)))"
  shows "\<exists>event st. authorize cfg peer m (Some extract) req =
      do { _ \<leftarrow> record_denied cfg event; State_Monad.return (Some st) } \<and>
      st_code st \<in> {CodeInvalidArgument, CodeUnauthenticated, CodePermissionDenied}"
proof -
  let ?tenant = "trim_space (extract req)" and ?ids = "peerCertificateIdentities peer"
  define event code where "event = (if ?tenant = [] then denied [] [] m ''tenant_id_missing'' ''tenant_id is required''
      else if ?ids = [] then denied ?tenant [] m ''client_certificate_identity_missing'' ''client certificate identity is required''
      else denied ?tenant ?ids m ''client_certificate_not_authorized_for_tenant''
        (''client certificate is not authorized for tenant '' @ quote ?tenant))"
    and "code = (if ?tenant = [] then CodeInvalidArgument else if ?ids = [] then CodeUnauthenticated else CodePermissionDenied)"
  have "authorize cfg peer m (Some extract) req = do { st \<leftarrow> deny cfg event code; State_Monad.return (Some st) }"
    using assms by (auto simp: authorize_def Let_def event_def code_def authorized_iff)
  moreover have "code \<in> {CodeInvalidArgument, CodeUnauthenticated, CodePermissionDenied}" by (simp add: code_def)
  ultimately show ?thesis using deny_records [of cfg event code Some] by auto
qed

lemma authorize_grants:
  assumes "trim_space (extract req) \<noteq> []"
    "\<exists>c \<in> set (atz_clients cfg). grants c (peerCertificateIdentities peer) (trim_space (extract req))"
  shows "authorize cfg peer m (Some extract) req = State_Monad.return None"
proof -
  from assms(2) have "peerCertificateIdentities peer \<noteq> []" using granted_identities by blast
  with assms show ?thesis by (simp add: authorize_def Let_def authorized_iff)
qed

lemma control_tenant [simp]: "controlPlaneTenantIDFromRequest (BundleRequest t) = t"
  "controlPlaneTenantIDFromRequest (IngestRequest r) = TenantIDFromRequest r"
  by (simp_all add: controlPlaneTenantIDFromRequest_def)

text \<open>The tenant of an ingest request is the one that its own service extracts.\<close>

lemma authorize_ingest:
  "authorize cfg peer m (Some controlPlaneTenantIDFromRequest) (IngestRequest r) = authorize cfg peer m (Some TenantIDFromRequest) r"
  by (simp add: authorize_def)


section \<open>Credentials in one process\<close>

lemma local_bundle_upstreams:
  assumes "newLocalBundleService repositories (Some list_bundle) True = Inr svc" "run_state (BuildTenantBundle svc t) s = (Inr b, s')"
  shows "list_bundle t = Inr (bun_upstreams b)"
proof -
  have svc: "bs_include_upstream_auth svc" "bs_list_bundle_upstreams svc = Some (\<lambda>t. State_Monad.return (list_bundle t))"
    using assms(1) by (auto simp: newLocalBundleService_def NewBundleService_def split: if_splits)
  show ?thesis
    using assms(2)
    by (auto simp: BuildTenantBundle_def listBundleUpstreams_def svc wrapped_def map_error_def split: prod.splits sum.splits option.splits
        elim!: on_ok_endsE)
qed

lemma inserted_row:
  assumes "UpstreamInsert env db up = (Inr up', db')" "up_auth up = Some auth" "Configured (up_auth up)"
  shows "\<exists>row \<in> set (udb_rows db'). ur_id row = up_id up' \<and> ur_tenant_id row = up_tenant_id up \<and>
    ur_auth_type row = auth_type auth \<and>
    (auth_type auth = UpstreamAuthBasic \<longrightarrow> ur_auth_username row = Some (auth_username auth))"
proof -
  have "up_id (set_auth_time x u) = up_id u" for x u by (simp add: set_auth_time_def split: option.split)
  with assms show ?thesis
    by (auto simp: UpstreamInsert_def authColumns_def Let_def split: option.splits sum.splits)
qed


section \<open>Recording\<close>

lemma fanout_failures:
  "run_state (fanout_loop recorders event) s = (failures, s') \<Longrightarrow> recorder \<in> set recorders \<Longrightarrow>
     (\<And>s. \<exists>e. fst (run_state (recorder event) s) = Inl e) \<Longrightarrow> failures \<noteq> []"
proof (induction recorders arbitrary: s s' failures)
  case (Cons r rs)
  obtain x s1 where r: "run_state (r event) s = (x, s1)" by fastforce
  obtain fs s2 where rs: "run_state (fanout_loop rs event) s1 = (fs, s2)" by fastforce
  have f: "failures = (case x of Inl e \<Rightarrow> err_text e # fs | Inr _ \<Rightarrow> fs)" using Cons.prems(1) r rs by simp
  show ?case
  proof (cases "recorder = r")
    case True
    with Cons.prems(3) [of s] r have "\<exists>e. x = Inl e" by auto
    with f show ?thesis by auto
  next
    case False
    with Cons.IH [OF rs] Cons.prems(2,3) have "fs \<noteq> []" by auto
    with f show ?thesis by (auto split: sum.splits)
  qed
qed simp

text \<open>The audit service as it is wired never sees that a recorder was cancelled: recording by several sinks joins the
  texts of their failures to a new error, so that a cancelled insertion makes the audit trail unavailable under the
  default failure mode, although the service ignores cancelled recordings.\<close>

lemma canceled_recording_fails_closed:
  assumes "auc_enabled (cfg_audit cfg)" "auc_postgres (cfg_audit cfg)" "auc_failure_mode (cfg_audit cfg) = ''fail_closed''"
    "rt_ctx_err rt s = None" "\<And>ev s. \<exists>e. fst (run_state (insert_event ev) s) = Inl e \<and> IsCanceled e"
  shows "fst (run_state (RecordAudit rt (Some (newAuditService cfg slog repo (Some insert_event))) event) s) =
    Inl (sentinel_error ErrAuditUnavailable)"
proof -
  let ?recorders = "configuredAuditRecorders cfg slog (Some insert_event)"
  have mem: "insert_event \<in> set ?recorders" using assms(1,2) by (simp add: configuredAuditRecorders_def)
  have fail: "\<exists>m s'. run_state (FanoutRecord ?recorders ev) s = (Inl (plain_error m), s')" for ev s
  proof -
    obtain failures s' where f: "run_state (fanout_loop ?recorders ev) s = (failures, s')" by fastforce
    with fanout_failures [OF f mem] assms(5) have "failures \<noteq> []" by blast
    with f show ?thesis by (auto simp: FanoutRecord_def)
  qed
  have mode: "parseAuditFailureMode ''fail_closed'' = AuditFailureModeFailClosed" by code_simp
  show ?thesis
  proof (rule record_audit_fail_closed)
    show "\<exists>e s'. run_state (FanoutRecord ?recorders ev) s = (Inl e, s') \<and> \<not> IsCanceled e" for ev
      using fail [of ev s] by (auto simp: IsCanceled_def)
  qed (use assms(1,3,4) mode in \<open>simp_all add: newAuditService_def\<close>)
qed

section \<open>What validation guarantees of the start\<close>

text \<open>A configured key is accepted by the codec, whose primitives take any key of the right length.\<close>

lemma validated_key_configures:
  assumes "Validate env (Some cfg) = Inr ()" "cv_decode64 env = cr_decode64 cr"
    "\<And>key. length key = 32 \<Longrightarrow> \<exists>block a. cr_aes cr key = Inr block \<and> cr_gcm cr block = Inr a"
  shows "\<exists>codec. upstreamSecretCodec cr (cfg_upstream_auth_key cfg) = Inr codec \<and>
    (codec = None \<longleftrightarrow> blank (cfg_upstream_auth_key cfg))"
proof (cases "trim_space (cfg_upstream_auth_key cfg) = []")
  case False
  with validated_key [OF assms(1)] obtain key where k: "cr_decode64 cr (trim_space (cfg_upstream_auth_key cfg)) = Inr key"
    "length key = 32"
    unfolding assms(2) by blast
  with assms(3) [OF k(2)] False show ?thesis
    by (auto simp: upstreamSecretCodec_def NewAESGCMCodecFromBase64_def NewAESGCMCodec_def try_pure_def aes256KeySize_def
        blank_def Let_def)
qed (simp add: upstreamSecretCodec_def blank_def)

text \<open>The proxy insists on envelopes; a process of all parts accepts plain secrets too.\<close>

lemma validated_proxy_resolver:
  assumes "Validate env (Some cfg) = Inr ()" "cfg_runtime_mode cfg = RuntimeModeProxy" "ociClientOptions host cfg = Inr r"
  shows "\<exists>k. r = Some (NewStrictHybridPrivateKeyResolver (Some k))"
  using assms(3) validated_split_mode(1) [OF assms(1)] assms(2)
  by (auto simp: ociClientOptions_def Let_def split: sum.splits option.splits)

text \<open>The backends that are accepted by validation but not implemented stop the process when it starts.\<close>

lemma reserved_backend_fails:
  assumes "occ_backend cfg \<in> {''s3'', ''gcs''}"
  shows "\<exists>e. newOCIArtifactCache env cfg = Inl e"
proof -
  have "to_lower (trim_space b) = b" if "b \<in> {''s3'', ''gcs''}" for b
    using that by (auto simp: to_lower_def lower_char_def trim_space_def trim_by_def is_space_def byte_def)
  with assms have "to_lower (trim_space (occ_backend cfg)) = occ_backend cfg" by blast
  with assms show ?thesis by (auto simp: newOCIArtifactCache_def Let_def)
qed

section \<open>Witnesses\<close>

definition sample_control_config :: config where
  "sample_control_config =
     (setDefaults ''/tmp'')\<lparr>cfg_runtime_mode := RuntimeModeControlPlane,
        cfg_bundle := bundle_defaults\<lparr>bdc_tls := \<lparr>btc_mode = ''mtls'', btc_ca_file = ''ca'', btc_cert_file = ''cert'',
          btc_key_file = ''key'', btc_server_name_override = [], btc_allow_insecure_control_plane = False,
          btc_authorized_clients = Some [\<lparr>client_identity = '' proxy.a '', client_tenant_ids = [''t'']\<rparr>]\<rparr>\<rparr>\<rparr>"

definition sample_tls_host :: "(unit, unit, unit) tls_host" where
  "sample_tls_host =
     \<lparr>th_load_pair = (\<lambda>_ _. Inr \<lparr>kf_certificate = (), kf_private_key = Some ()\<rparr>), th_read_file = (\<lambda>_. Inr []),
      th_certificates = (\<lambda>_. Some ())\<rparr>"

lemma sample_control_valid: "Validate sample_config_env (Some sample_control_config) = Inr ()"
  by code_simp

lemma sample_control_fields:
  "cfg_runtime_mode sample_control_config = RuntimeModeControlPlane"
  "\<not> btc_allow_insecure_control_plane (bdc_tls (cfg_bundle sample_control_config))"
  "slice_elems (btc_authorized_clients (bdc_tls (cfg_bundle sample_control_config))) =
     [\<lparr>client_identity = '' proxy.a '', client_tenant_ids = [''t'']\<rparr>]"
  by (simp_all add: sample_control_config_def slice_elems_def)

lemma validated_connections_secured_witness:
  "slice_elems (btc_authorized_clients (bdc_tls (cfg_bundle sample_control_config))) \<noteq> []"
  using validated_connections_secured [OF sample_control_valid refl] sample_control_fields by blast

definition sample_interceptor :: "unit authorization_config option" where
  "sample_interceptor =
     (case controlPlaneGRPCServerOptions sample_tls_host sample_control_config sample_runtime None of
        Inr (transport, interceptor) \<Rightarrow> interceptor
      | Inl e \<Rightarrow> None)"

lemma sample_options:
  "\<exists>transport. controlPlaneGRPCServerOptions sample_tls_host sample_control_config sample_runtime None =
     Inr (transport, sample_interceptor)"
  by (simp add: sample_interceptor_def controlPlaneGRPCServerOptions_def ServerOptions_def bundleTLSConfig_def
      serverTransportCredentials_def sample_tls_host_def certPoolFromFile_def sample_control_config_def)


definition sample_repositories :: "unit bundle_service" where
  "sample_repositories =
     \<lparr>bs_get_tenant = (\<lambda>t. State_Monad.return (Inr (Some (bun_tenant sample_tenant_bundle)))),
      bs_list_policies = (\<lambda>_. State_Monad.return (Inr [])), bs_list_bundle_upstreams = None, bs_include_upstream_auth = False,
      bs_runtime = sample_runtime, bs_config_marshal = (\<lambda>_. Inr ''{}''), bs_payload_marshal = (\<lambda>_. Inr ''{}''),
      bs_sha256_hex = (\<lambda>_. ''h'')\<rparr>"

definition sample_local_service :: "unit bundle_service" where
  "sample_local_service =
     (case newLocalBundleService sample_repositories
         (Some (ListBundleByTenant (sample_upstream_env ''w'' None) (snd sample_insert))) True of
        Inr svc \<Rightarrow> svc
      | Inl e \<Rightarrow> sample_repositories)"


lemma canceled_recording_fails_closed_witness:
  "fst (run_state (RecordAudit sample_runtime (Some (newAuditService (setDefaults ''/tmp'') (\<lambda>_. State_Monad.return (Inr ())) None
     (Some (\<lambda>_. State_Monad.return (Inl (sentinel_error ContextCanceled)))))) sample_event) ()) =
     Inl (sentinel_error ErrAuditUnavailable)"
  by (rule canceled_recording_fails_closed)
    (simp_all add: setDefaults_def observability_defaults_def sample_runtime_def IsCanceled_def)

end
