(* ===== verification/Policy_Store.thy ===== *)
theory Policy_Store
  imports Policy_Documents Control_Plane Upstream_Store
begin

text \<open>
  The tables of policies (\<open>infra/postgres/policy.go\<close>, \<open>policy_versions.go\<close>, \<open>policy_scan.go\<close>, \<open>policy_revision.go\<close>): the
  current policies, their retained versions, the rows of evaluations and decisions that refer to a policy, and the
  revisions of a tenant's policy set. As in \<open>Upstream_Store\<close> a table is a list of rows and a statement is the function it
  denotes, with the keys, the references and the column types of the schema; a transaction that fails leaves every
  table as it was. A version row is identified by its key, the policy and the number.

  The clock, the identifiers, the JSON encoder, the cast to \<open>jsonb\<close> and the faults of the database are ports; documents
  are decoded as \<open>Policy_Documents\<close> models it.

  The lemmas show that the retained versions of a policy are always its newest three numbers, ending in the current
  one, that tenants do not touch each other's policies, and that a policy that was rolled back reads back as the
  version it was restored from.
\<close>

section \<open>Data\<close>

text \<open>The columns that a policy and its versions share.\<close>

record policy_body =
  pb_upstream_id :: "string option"
  pb_name :: string
  pb_type :: policy_type
  pb_action :: policy_action
  pb_schema_version :: int
  pb_config :: string
  pb_target :: "string option"
  pb_priority :: int
  pb_enabled :: bool

record policy_row =
  pr_id :: string
  pr_tenant_id :: string
  pr_body :: policy_body
  pr_version :: int
  pr_created_at :: time
  pr_updated_at :: time

record version_row =
  vr_policy_id :: string
  vr_version :: int
  vr_body :: policy_body
  vr_created_at :: time

text \<open>A row of the evaluations or of the decisions, and a reason of an evaluation.\<close>

record outcome_row =
  oc_id :: string
  oc_tenant_id :: string
  oc_policy_id :: "string option"

record reason_row =
  rr_evaluation_id :: string
  rr_policy_id :: "string option"

record policy_db =
  pdb_tenants :: "string list"
  pdb_upstreams :: "string list"
  pdb_policies :: "policy_row list"
  pdb_versions :: "version_row list"
  pdb_evaluations :: "outcome_row list"
  pdb_decisions :: "outcome_row list"
  pdb_reasons :: "reason_row list"
  pdb_revisions :: "policy_set_revision list"

record policy_env =
  pe_uuid :: string
  pe_now :: time
  pe_codec :: policy_codec
  pe_marshal_config :: "policy_config option \<Rightarrow> string result"
  pe_marshal_target :: "policy_target option \<Rightarrow> string result"
  pe_jsonb :: "string \<Rightarrow> string option"
  pe_fault :: "string \<Rightarrow> db_error option"
  pe_text :: "db_error \<Rightarrow> string"

section \<open>Statements\<close>

definition db_error_value :: "policy_env \<Rightarrow> db_error \<Rightarrow> go_error" where
  "db_error_value env e = (case e of OtherDbError g \<Rightarrow> g | PgError _ _ \<Rightarrow> plain_error (pe_text env e))"

text \<open>A statement fails with the fault of its stage or with its own error.\<close>

definition statement :: "policy_env \<Rightarrow> string \<Rightarrow> db_error + 'a \<Rightarrow> db_error + 'a" where
  "statement env stage x = (case pe_fault env stage of Some e \<Rightarrow> Inl e | None \<Rightarrow> x)"

definition then_db :: "db_error + 'a \<Rightarrow> ('a \<Rightarrow> db_error + 'b) \<Rightarrow> db_error + 'b" where
  "then_db x f = (case x of Inl e \<Rightarrow> Inl e | Inr a \<Rightarrow> f a)"

definition stage_result :: "policy_env \<Rightarrow> string \<Rightarrow> db_error + 'a \<Rightarrow> 'a result" where
  "stage_result env stage x =
     (case statement env stage x of Inl e \<Rightarrow> Inl (wrap_error stage (db_error_value env e)) | Inr a \<Rightarrow> Inr a)"

definition policyConstraintErrors :: "(string \<times> sentinel) list" where
  "policyConstraintErrors = [(''policies_tenant_id_name_key'', ErrPolicyNameConflict)]"

definition write_result :: "policy_env \<Rightarrow> string \<Rightarrow> db_error + 'a \<Rightarrow> 'a result" where
  "write_result env stage x =
     (case statement env stage x of
        Inl e \<Rightarrow>
          Inl (case mapConstraintError e policyConstraintErrors of
              Some s \<Rightarrow> sentinel_error s
            | None \<Rightarrow> wrap_error stage (db_error_value env e))
      | Inr a \<Rightarrow> Inr a)"

text \<open>The end of a transaction: what it wrote is kept only when it returned no error.\<close>

definition settle :: "'d \<Rightarrow> ('a \<times> 'd) result \<Rightarrow> 'a result \<times> 'd" where
  "settle db r = (case r of Inl e \<Rightarrow> (Inl e, db) | Inr (a, db') \<Rightarrow> (Inr a, db'))"

section \<open>Columns\<close>

definition nullableString :: "string \<Rightarrow> string option" where
  "nullableString v = (if v = [] then None else Some v)"

definition nullableJSON :: "string \<Rightarrow> bool \<Rightarrow> string option" where
  "nullableJSON v valid = (if \<not> valid then None else Some v)"

text \<open>An \<open>INTEGER\<close> has 32 bits; the driver refuses to encode any other value.\<close>

definition int4 :: "int \<Rightarrow> bool" where
  "int4 i \<longleftrightarrow> - (2 ^ 31) \<le> i \<and> i < 2 ^ 31"

definition not_int4 :: db_error where
  "not_int4 = OtherDbError (plain_error ''failed to encode argument: value is out of range for int4'')"

definition jsonb_column :: "policy_env \<Rightarrow> string option \<Rightarrow> db_error + string option" where
  "jsonb_column env v =
     (case v of None \<Rightarrow> Inr None | Some t \<Rightarrow> (case pe_jsonb env t of None \<Rightarrow> Inl bad_json | Some j \<Rightarrow> Inr (Some j)))"

definition encode_body :: "policy_env \<Rightarrow> policy \<Rightarrow> string \<Rightarrow> string \<Rightarrow> db_error + policy_body" where
  "encode_body env p configJSON targetJSON =
     (if \<not> int4 (pol_schema_version p) \<or> \<not> int4 (pol_priority p) then Inl not_int4
      else (case pe_jsonb env configJSON of
          None \<Rightarrow> Inl bad_json
        | Some config \<Rightarrow>
            then_db (jsonb_column env (nullableJSON targetJSON (pol_target p \<noteq> None)))
              (\<lambda>target. Inr \<lparr>pb_upstream_id = nullableString (pol_upstream_id p), pb_name = pol_name p, pb_type = pol_type p,
                 pb_action = pol_action p, pb_schema_version = pol_schema_version p, pb_config = config,
                 pb_target = target, pb_priority = pol_priority p, pb_enabled = pol_enabled p\<rparr>)))"

section \<open>Rows\<close>

text \<open>\<open>json.Unmarshal\<close> into a \<open>PolicyTarget\<close>.\<close>

definition target_fields :: "json_decoder \<Rightarrow> policy_target fields" where
  "target_fields jd k v t =
     (if k = ''dependency_scope'' then Some (map_result (\<lambda>x. t\<lparr>target_scopes := x\<rparr>) (assign_strings jd v))
      else if k = ''dependency_types'' then Some (map_result (\<lambda>x. t\<lparr>target_types := x\<rparr>) (assign_strings jd v))
      else if k = ''on_unknown'' then Some (map_result (\<lambda>x. t\<lparr>target_on_unknown := x\<rparr>) (assign_string jd v (target_on_unknown t)))
      else Some (Inr t))"

definition decodePolicyTarget :: "policy_codec \<Rightarrow> string option \<Rightarrow> policy_target option result" where
  "decodePolicyTarget pc data0 =
     (let data = (case data0 of None \<Rightarrow> [] | Some t \<Rightarrow> t)
      in if data = [] then Inr None
         else bind_result (unmarshal pc data)
           (\<lambda>j. bind_result (decode_struct (pc_decoder pc) (target_fields (pc_decoder pc)) j
                   \<lparr>target_scopes = [], target_types = [], target_on_unknown = []\<rparr>)
           (\<lambda>t. map_result NormalizeTarget (ValidateTarget (Some t)))))"

definition decode_body ::
  "policy_codec \<Rightarrow> string \<Rightarrow> policy_body \<Rightarrow> (policy_config \<times> policy_target option) result" where
  "decode_body pc what b =
     bind_result (map_error (wrap_error (''decoding '' @ what @ '' config''))
         (DecodeStoredConfigJSON pc (pb_type b) (pb_schema_version b) (pb_config b)))
       (\<lambda>config. map_result (\<lambda>target. (config, target))
         (map_error (wrap_error (''decoding '' @ what @ '' target'')) (decodePolicyTarget pc (pb_target b))))"

definition scanPolicy :: "policy_codec \<Rightarrow> policy_row \<Rightarrow> policy result" where
  "scanPolicy pc r =
     (let b = pr_body r
      in map_result (\<lambda>(config, target).
           \<lparr>pol_id = pr_id r, pol_tenant_id = pr_tenant_id r,
            pol_upstream_id = (case pb_upstream_id b of None \<Rightarrow> [] | Some u \<Rightarrow> u), pol_name = pb_name b,
            pol_type = pb_type b, pol_action = pb_action b, pol_schema_version = pb_schema_version b,
            pol_config = Some config, pol_target = target, pol_priority = pb_priority b, pol_enabled = pb_enabled b,
            pol_version = pr_version r, pol_created_at = pr_created_at r, pol_updated_at = pr_updated_at r\<rparr>)
         (decode_body pc ''policy'' b))"

definition scanPolicyVersion :: "policy_codec \<Rightarrow> version_row \<Rightarrow> policy_version result" where
  "scanPolicyVersion pc r =
     (let b = vr_body r
      in map_result (\<lambda>(config, target).
           \<lparr>ver_policy_id = vr_policy_id r, ver_version = vr_version r,
            ver_upstream_id = (case pb_upstream_id b of None \<Rightarrow> [] | Some u \<Rightarrow> u), ver_name = pb_name b,
            ver_type = pb_type b, ver_action = pb_action b, ver_schema_version = pb_schema_version b,
            ver_config = Some config, ver_target = target, ver_priority = pb_priority b, ver_enabled = pb_enabled b,
            ver_created_at = vr_created_at r\<rparr>)
         (decode_body pc ''policy version'' b))"

fun scan_loop :: "('r \<Rightarrow> 'a result) \<Rightarrow> 'r list \<Rightarrow> 'a list result" where
  "scan_loop scan [] = Inr []"
| "scan_loop scan (r # rs) = bind_result (scan r) (\<lambda>a. map_result (\<lambda>as. a # as) (scan_loop scan rs))"

section \<open>The effect of a statement on the tables\<close>

definition policy_hit :: "string \<Rightarrow> string \<Rightarrow> policy_row \<Rightarrow> bool" where
  "policy_hit tenantID policyID r \<longleftrightarrow> pr_tenant_id r = tenantID \<and> pr_id r = policyID"

definition policy_name_key :: "policy_row \<Rightarrow> string \<times> string" where
  "policy_name_key r = (pr_tenant_id r, pb_name (pr_body r))"

definition known_upstream :: "policy_db \<Rightarrow> policy_body \<Rightarrow> bool" where
  "known_upstream db b \<longleftrightarrow> (case pb_upstream_id b of None \<Rightarrow> True | Some u \<Rightarrow> u \<in> set (pdb_upstreams db))"

definition policy_violation :: "policy_db \<Rightarrow> policy_row list \<Rightarrow> policy_row \<Rightarrow> db_error option" where
  "policy_violation db others r =
     (if pr_id r \<in> pr_id ` set others then Some (PgError ''23505'' ''policies_pkey'')
      else if policy_name_key r \<in> policy_name_key ` set others then Some (PgError ''23505'' ''policies_tenant_id_name_key'')
      else if pr_tenant_id r \<notin> set (pdb_tenants db) then Some (PgError ''23503'' ''policies_tenant_id_fkey'')
      else if \<not> known_upstream db (pr_body r) then Some (PgError ''23503'' ''fk_policies_upstream_id'')
      else None)"

definition insert_policy :: "policy_env \<Rightarrow> policy_db \<Rightarrow> string \<Rightarrow> policy_body \<Rightarrow> db_error + policy_row \<times> policy_db" where
  "insert_policy env db tenantID body =
     (let row = \<lparr>pr_id = pe_uuid env, pr_tenant_id = tenantID, pr_body = body, pr_version = 1,
            pr_created_at = pe_now env, pr_updated_at = pe_now env\<rparr>
      in case policy_violation db (pdb_policies db) row of
           Some e \<Rightarrow> Inl e
         | None \<Rightarrow> Inr (row, db\<lparr>pdb_policies := pdb_policies db @ [row]\<rparr>))"

text \<open>The updated row, or none when no row has the identifier.\<close>

definition update_policy ::
  "policy_env \<Rightarrow> policy_db \<Rightarrow> string \<Rightarrow> string \<Rightarrow> policy_body \<Rightarrow> db_error + (policy_row \<times> policy_db) option" where
  "update_policy env db tenantID policyID body =
     (case filter (policy_hit tenantID policyID) (pdb_policies db) of
        [] \<Rightarrow> Inr None
      | r # _ \<Rightarrow>
          (let row = r\<lparr>pr_body := body, pr_version := pr_version r + 1, pr_updated_at := pe_now env\<rparr>
           in if \<not> int4 (pr_version row) then Inl (PgError ''22003'' [])
              else (case policy_violation db (filter (\<lambda>x. \<not> policy_hit tenantID policyID x) (pdb_policies db)) row of
                  Some e \<Rightarrow> Inl e
                | None \<Rightarrow>
                    Inr (Some (row,
                      db\<lparr>pdb_policies := map (\<lambda>x. if policy_hit tenantID policyID x then row else x) (pdb_policies db)\<rparr>)))))"

definition version_key :: "version_row \<Rightarrow> string \<times> int" where
  "version_key v = (vr_policy_id v, vr_version v)"

definition version_of :: "policy_env \<Rightarrow> policy_row \<Rightarrow> version_row" where
  "version_of env r =
     \<lparr>vr_policy_id = pr_id r, vr_version = pr_version r, vr_body = pr_body r, vr_created_at = pe_now env\<rparr>"

definition insert_version :: "policy_db \<Rightarrow> version_row \<Rightarrow> db_error + policy_db" where
  "insert_version db v =
     (if version_key v \<in> version_key ` set (pdb_versions db) then
        Inl (PgError ''23505'' ''policy_versions_policy_id_version_key'')
      else if vr_policy_id v \<notin> pr_id ` set (pdb_policies db) then Inl (PgError ''23503'' ''policy_versions_policy_id_fkey'')
      else if \<not> known_upstream db (vr_body v) then Inl (PgError ''23503'' ''fk_policy_versions_upstream_id'')
      else Inr (db\<lparr>pdb_versions := pdb_versions db @ [v]\<rparr>))"

text \<open>Newest first; the rows behind the offset are deleted.\<close>

definition history :: "policy_db \<Rightarrow> string \<Rightarrow> version_row list" where
  "history db policyID = filter (\<lambda>v. vr_policy_id v = policyID) (pdb_versions db)"

definition newest_first :: "version_row list \<Rightarrow> version_row list" where
  "newest_first vs = sort_key (\<lambda>v. - vr_version v) vs"

definition prune_versions :: "policy_db \<Rightarrow> string \<Rightarrow> policy_db" where
  "prune_versions db policyID =
     (let old = drop (nat MaxRetainedPolicyVersions) (newest_first (history db policyID))
      in db\<lparr>pdb_versions := filter (\<lambda>v. v \<notin> set old) (pdb_versions db)\<rparr>)"

definition prunePolicyVersions :: "policy_env \<Rightarrow> policy_db \<Rightarrow> string \<Rightarrow> policy_db result" where
  "prunePolicyVersions env db policyID =
     stage_result env ''pruning retained policy versions'' (Inr (prune_versions db policyID))"

text \<open>The version row repeats the columns of the row just written; both statements get the same arguments.\<close>

definition record_version :: "policy_env \<Rightarrow> string \<Rightarrow> policy_db \<Rightarrow> policy_row \<Rightarrow> policy_db result" where
  "record_version env stage db row =
     bind_result (stage_result env stage (insert_version db (version_of env row)))
       (\<lambda>db'. prunePolicyVersions env db' (pr_id row))"

section \<open>Reading\<close>

definition StoreGetByID :: "policy_env \<Rightarrow> policy_db \<Rightarrow> string \<Rightarrow> string \<Rightarrow> policy result" where
  "StoreGetByID env db tenantID policyID =
     (case statement env ''querying policy by id'' (Inr (filter (policy_hit tenantID policyID) (pdb_policies db))) of
        Inl e \<Rightarrow> Inl (wrap_error ''querying policy by id'' (wrap_error ''scanning policy row'' (db_error_value env e)))
      | Inr [] \<Rightarrow> Inl (sentinel_error ErrPolicyNotFound)
      | Inr (r # _) \<Rightarrow> map_error (wrap_error ''querying policy by id'') (scanPolicy (pe_codec env) r))"

definition StoreListByTenant :: "policy_env \<Rightarrow> policy_db \<Rightarrow> string \<Rightarrow> policy list result" where
  "StoreListByTenant env db tenantID =
     bind_result (stage_result env ''listing policies''
         (Inr (sort_key (\<lambda>r. pb_priority (pr_body r)) (filter (\<lambda>r. pr_tenant_id r = tenantID) (pdb_policies db)))))
       (\<lambda>rows. bind_result (scan_loop (scanPolicy (pe_codec env)) rows)
       (\<lambda>policies. stage_result env ''iterating policy rows'' (Inr policies)))"

text \<open>The join with the policies of the tenant.\<close>

definition tenant_history :: "policy_db \<Rightarrow> string \<Rightarrow> string \<Rightarrow> version_row list" where
  "tenant_history db tenantID policyID =
     (if \<exists>r \<in> set (pdb_policies db). policy_hit tenantID policyID r then history db policyID else [])"

definition StoreListVersions ::
  "policy_env \<Rightarrow> policy_db \<Rightarrow> string \<Rightarrow> string \<Rightarrow> int \<Rightarrow> policy_version list result" where
  "StoreListVersions env db tenantID policyID limit0 =
     (let limit = (if limit0 \<le> 0 then MaxRetainedPolicyVersions else limit0)
      in bind_result (stage_result env ''listing policy versions''
             (Inr (take (nat limit) (newest_first (tenant_history db tenantID policyID)))))
           (\<lambda>rows. bind_result (scan_loop (scanPolicyVersion (pe_codec env)) rows)
           (\<lambda>versions. bind_result (stage_result env ''iterating policy version rows'' (Inr versions))
           (\<lambda>versions. if versions = [] then map_result (\<lambda>_. versions) (StoreGetByID env db tenantID policyID)
                       else Inr versions))))"

section \<open>Writing\<close>

text \<open>What a creation and an update do before they begin a transaction: the schema version is filled in, the policy is
  validated and its two documents are marshalled.\<close>

definition prepare_policy :: "policy_env \<Rightarrow> policy \<Rightarrow> (policy \<times> string \<times> string) result" where
  "prepare_policy env p0 =
     bind_result
       (if pol_schema_version p0 = 0 then
          map_result (\<lambda>v. p0\<lparr>pol_schema_version := v\<rparr>) (normalizeSchemaVersion (pol_type p0) (pol_schema_version p0))
        else Inr p0)
     (\<lambda>p1. bind_result (ValidatePolicy p1)
     (\<lambda>p. bind_result (map_error (wrap_error ''marshalling policy config'') (pe_marshal_config env (pol_config p)))
     (\<lambda>config. bind_result (map_error (wrap_error ''marshalling policy target'') (pe_marshal_target env (pol_target p)))
     (\<lambda>target. Inr (p, config, target)))))"

definition StoreCreate :: "policy_env \<Rightarrow> policy_db \<Rightarrow> policy \<Rightarrow> policy result \<times> policy_db" where
  "StoreCreate env db p0 =
     settle db
       (bind_result (prepare_policy env p0)
       (\<lambda>(p, config, target). bind_result (stage_result env ''beginning transaction'' (Inr ()))
       (\<lambda>_. bind_result (write_result env ''inserting policy''
               (then_db (encode_body env p config target) (insert_policy env db (pol_tenant_id p))))
       (\<lambda>(row, db1). bind_result (record_version env ''inserting initial policy version'' db1 row)
       (\<lambda>db2. stage_result env ''committing policy creation''
          (Inr (p\<lparr>pol_id := pr_id row, pol_version := pr_version row, pol_created_at := pr_created_at row,
                  pol_updated_at := pr_updated_at row\<rparr>, db2)))))))"

definition StoreUpdate :: "policy_env \<Rightarrow> policy_db \<Rightarrow> policy \<Rightarrow> policy result \<times> policy_db" where
  "StoreUpdate env db p0 =
     settle db
       (bind_result (prepare_policy env p0)
       (\<lambda>(p, config, target). bind_result (stage_result env ''beginning transaction'' (Inr ()))
       (\<lambda>_. bind_result (write_result env ''updating policy''
               (then_db (encode_body env p config target) (update_policy env db (pol_tenant_id p) (pol_id p))))
       (\<lambda>updated. case updated of
            None \<Rightarrow> Inl (sentinel_error ErrPolicyNotFound)
          | Some (row, db1) \<Rightarrow>
              bind_result (record_version env ''inserting policy version'' db1 row)
              (\<lambda>db2. stage_result env ''committing policy update''
                 (Inr (p\<lparr>pol_version := pr_version row, pol_updated_at := pr_updated_at row\<rparr>, db2)))))))"

text \<open>Versions go with their policy; evaluations, decisions and reasons hold it back.\<close>

definition delete_policy :: "policy_db \<Rightarrow> string \<Rightarrow> string \<Rightarrow> db_error + bool \<times> policy_db" where
  "delete_policy db tenantID policyID =
     (if \<not> (\<exists>r \<in> set (pdb_policies db). policy_hit tenantID policyID r) then Inr (False, db)
      else if Some policyID \<in> oc_policy_id ` set (pdb_evaluations db) then Inl (PgError ''23503'' ''evaluations_policy_id_fkey'')
      else if Some policyID \<in> rr_policy_id ` set (pdb_reasons db) then Inl (PgError ''23503'' ''evaluation_reasons_policy_id_fkey'')
      else if Some policyID \<in> oc_policy_id ` set (pdb_decisions db) then Inl (PgError ''23503'' ''decisions_policy_id_fkey'')
      else Inr (True, db\<lparr>pdb_policies := filter (\<lambda>r. \<not> policy_hit tenantID policyID r) (pdb_policies db),
                         pdb_versions := filter (\<lambda>v. vr_policy_id v \<noteq> policyID) (pdb_versions db)\<rparr>))"

definition clear_outcomes :: "string \<Rightarrow> string \<Rightarrow> outcome_row list \<Rightarrow> outcome_row list" where
  "clear_outcomes tenantID policyID =
     map (\<lambda>r. if oc_tenant_id r = tenantID \<and> oc_policy_id r = Some policyID then r\<lparr>oc_policy_id := None\<rparr> else r)"

definition clear_reasons :: "outcome_row list \<Rightarrow> string \<Rightarrow> string \<Rightarrow> reason_row list \<Rightarrow> reason_row list" where
  "clear_reasons evaluations tenantID policyID =
     map (\<lambda>r. if rr_policy_id r = Some policyID \<and>
                (\<exists>e \<in> set evaluations. oc_id e = rr_evaluation_id r \<and> oc_tenant_id e = tenantID)
              then r\<lparr>rr_policy_id := None\<rparr> else r)"

definition forceDelete :: "policy_env \<Rightarrow> policy_db \<Rightarrow> string \<Rightarrow> string \<Rightarrow> unit result \<times> policy_db" where
  "forceDelete env db tenantID policyID =
     settle db
       (bind_result (stage_result env ''beginning forced policy delete'' (Inr ()))
       (\<lambda>_. bind_result (stage_result env ''clearing evaluation policy references''
               (Inr (db\<lparr>pdb_evaluations := clear_outcomes tenantID policyID (pdb_evaluations db)\<rparr>)))
       (\<lambda>db1. bind_result (stage_result env ''clearing decision policy references''
               (Inr (db1\<lparr>pdb_decisions := clear_outcomes tenantID policyID (pdb_decisions db1)\<rparr>)))
       (\<lambda>db2. bind_result (stage_result env ''clearing evaluation reason policy references''
               (Inr (db2\<lparr>pdb_reasons := clear_reasons (pdb_evaluations db2) tenantID policyID (pdb_reasons db2)\<rparr>)))
       (\<lambda>db3. bind_result (stage_result env ''force deleting policy'' (delete_policy db3 tenantID policyID))
       (\<lambda>(found, db4). if \<not> found then Inl (sentinel_error ErrPolicyNotFound)
          else stage_result env ''committing forced policy delete'' (Inr ((), db4))))))))"

definition StoreDelete :: "policy_env \<Rightarrow> policy_db \<Rightarrow> string \<Rightarrow> string \<Rightarrow> bool \<Rightarrow> unit result \<times> policy_db" where
  "StoreDelete env db tenantID policyID force =
     (if force then forceDelete env db tenantID policyID
      else settle db
        (case statement env ''deleting policy'' (delete_policy db tenantID policyID) of
           Inl e \<Rightarrow>
             Inl (case e of
                 PgError code _ \<Rightarrow>
                   (if code = ''23503'' then sentinel_error ErrPolicyInUse else wrap_error ''deleting policy'' (db_error_value env e))
               | OtherDbError _ \<Rightarrow> wrap_error ''deleting policy'' (db_error_value env e))
         | Inr (found, db') \<Rightarrow> if \<not> found then Inl (sentinel_error ErrPolicyNotFound) else Inr ((), db')))"

section \<open>Rolling back\<close>

text \<open>The missing row is looked up outside the transaction, which has written nothing by then.\<close>

definition loadRollbackPolicyVersion ::
  "policy_env \<Rightarrow> policy_db \<Rightarrow> string \<Rightarrow> string \<Rightarrow> int \<Rightarrow> policy_version result" where
  "loadRollbackPolicyVersion env db tenantID policyID version =
     (case statement env ''loading policy version''
         (if \<not> int4 version then Inl not_int4
          else Inr (filter (\<lambda>v. vr_version v = version) (tenant_history db tenantID policyID))) of
        Inl e \<Rightarrow> Inl (wrap_error ''loading policy version'' (wrap_error ''scanning policy version row'' (db_error_value env e)))
      | Inr [] \<Rightarrow> bind_result (StoreGetByID env db tenantID policyID) (\<lambda>_. Inl (sentinel_error ErrPolicyVersionNotFound))
      | Inr (v # _) \<Rightarrow> map_error (wrap_error ''loading policy version'') (scanPolicyVersion (pe_codec env) v))"

definition rollbackPolicy :: "string \<Rightarrow> string \<Rightarrow> policy_version \<Rightarrow> policy" where
  "rollbackPolicy tenantID policyID v =
     \<lparr>pol_id = policyID, pol_tenant_id = tenantID, pol_upstream_id = ver_upstream_id v, pol_name = ver_name v,
      pol_type = ver_type v, pol_action = ver_action v, pol_schema_version = ver_schema_version v,
      pol_config = ver_config v, pol_target = ver_target v, pol_priority = ver_priority v, pol_enabled = ver_enabled v,
      pol_version = 0, pol_created_at = zero_time, pol_updated_at = zero_time\<rparr>"

definition marshalRollbackPolicy :: "policy_env \<Rightarrow> policy \<Rightarrow> (string \<times> string) result" where
  "marshalRollbackPolicy env p =
     bind_result (map_error (wrap_error ''marshalling rolled back config'') (pe_marshal_config env (pol_config p)))
       (\<lambda>config. map_result (\<lambda>target. (config, target))
         (map_error (wrap_error ''marshalling rolled back target'') (pe_marshal_target env (pol_target p))))"

text \<open>No constraint is mapped here.\<close>

definition updatePolicyForRollback ::
  "policy_env \<Rightarrow> policy_db \<Rightarrow> policy \<Rightarrow> string \<Rightarrow> string \<Rightarrow> (policy_row \<times> policy_db) result" where
  "updatePolicyForRollback env db p config target =
     bind_result (stage_result env ''updating policy during rollback''
         (then_db (encode_body env p config target) (update_policy env db (pol_tenant_id p) (pol_id p))))
       (\<lambda>updated. case updated of None \<Rightarrow> Inl (sentinel_error ErrPolicyNotFound) | Some x \<Rightarrow> Inr x)"

text \<open>Configuration and target are shared between the version and the policy that is validated, so the marshalled
  documents are those of the validated policy.\<close>

definition StoreRollback :: "policy_env \<Rightarrow> policy_db \<Rightarrow> string \<Rightarrow> string \<Rightarrow> int \<Rightarrow> policy result \<times> policy_db" where
  "StoreRollback env db tenantID policyID version =
     settle db
       (bind_result (stage_result env ''beginning transaction'' (Inr ()))
       (\<lambda>_. bind_result (loadRollbackPolicyVersion env db tenantID policyID version)
       (\<lambda>target. bind_result (ValidatePolicy (rollbackPolicy tenantID policyID target))
       (\<lambda>p. bind_result (marshalRollbackPolicy env p)
       (\<lambda>(config, targetJSON). bind_result (updatePolicyForRollback env db p config targetJSON)
       (\<lambda>(row, db1). bind_result (record_version env ''recording rollback policy version'' db1 row)
       (\<lambda>db2. stage_result env ''committing policy rollback''
          (Inr (p\<lparr>pol_version := pr_version row, pol_created_at := pr_created_at row,
                  pol_updated_at := pr_updated_at row\<rparr>, db2)))))))))"

section \<open>Revisions\<close>

definition tenant_generations :: "policy_db \<Rightarrow> string \<Rightarrow> int list" where
  "tenant_generations db tenantID =
     map rev_generation (filter (\<lambda>r. rev_tenant_id r = tenantID) (pdb_revisions db))"

definition StoreCreateRevision ::
  "policy_env \<Rightarrow> policy_db \<Rightarrow> policy_set_revision \<Rightarrow> policy_set_revision result \<times> policy_db" where
  "StoreCreateRevision env db revision =
     (let generations = tenant_generations db (rev_tenant_id revision);
          generation = (if generations = [] then 0 else Max (set generations)) + 1;
          row = revision\<lparr>rev_id := pe_uuid env, rev_generation := generation, rev_created_at := pe_now env\<rparr>
      in settle db
           (stage_result env ''inserting tenant policy revision''
             (if pe_uuid env \<in> rev_id ` set (pdb_revisions db) then Inl (PgError ''23505'' ''tenant_policy_revisions_pkey'')
              else if rev_tenant_id revision \<notin> set (pdb_tenants db) then
                Inl (PgError ''23503'' ''tenant_policy_revisions_tenant_id_fkey'')
              else if generation \<ge> 2 ^ 63 then Inl (PgError ''22003'' [])
              else Inr (row, db\<lparr>pdb_revisions := pdb_revisions db @ [row]\<rparr>))))"

section \<open>Keeping the newest\<close>

lemma insort_key_last:
  fixes f :: "'a \<Rightarrow> 'k :: linorder"
  shows "\<forall>y \<in> set ys. f y < f x \<Longrightarrow> insort_key f x ys = ys @ [x]"
  by (induction ys) auto

lemma sort_key_descending:
  fixes k :: "'a \<Rightarrow> int"
  shows "sorted_wrt (\<lambda>a b. k a < k b) xs \<Longrightarrow> sort_key (\<lambda>x. - k x) xs = rev xs"
  by (induction xs) (simp_all add: insort_key_last)

lemma filter_not_in_take: "distinct xs \<Longrightarrow> filter (\<lambda>x. x \<notin> set (take m xs)) xs = drop m xs"
proof -
  assume d: "distinct xs"
  have "filter (\<lambda>x. x \<notin> set (take m xs)) (take m xs @ drop m xs) = drop m xs"
    using d set_take_disj_set_drop_if_distinct [OF d order_refl, of m]
    by (auto simp: filter_empty_conv filter_id_conv simp del: append_take_drop_id)
  then show ?thesis by simp
qed

lemma keep_newest:
  fixes k :: "'a \<Rightarrow> int"
  assumes "sorted_wrt (\<lambda>a b. k a < k b) xs"
  shows "filter (\<lambda>x. x \<notin> set (drop n (sort_key (\<lambda>x. - k x) xs))) xs = drop (length xs - n) xs"
proof -
  have "distinct xs" using assms by (induction xs) auto
  then show ?thesis by (simp add: sort_key_descending [OF assms] drop_rev filter_not_in_take)
qed

lemma drop_upto: "drop n [i..j] = [i + int n..j]"
proof (induction n arbitrary: i)
  case (Suc n)
  show ?case
  proof (cases "i \<le> j")
    case True
    then show ?thesis using Suc [of "i + 1"] by (simp add: upto_rec1 algebra_simps)
  qed (simp add: upto_empty)
qed simp

lemma drop_upto_last: "drop (length [i..j] - n) [i..j] = [max i (j - int n + 1)..j]"
proof -
  have "i + int (nat (j - i + 1) - n) = max i (j - int n + 1) \<or> (j < i)"
    by linarith
  then show ?thesis by (auto simp: drop_upto)
qed

section \<open>The retained versions\<close>

text \<open>The tables after a row was written and recorded as a version.\<close>

definition recorded :: "policy_env \<Rightarrow> policy_db \<Rightarrow> policy_row \<Rightarrow> policy_db" where
  "recorded env db row =
     prune_versions (db\<lparr>pdb_versions := pdb_versions db @ [version_of env row]\<rparr>) (pr_id row)"

definition retained :: "policy_db \<Rightarrow> policy_row \<Rightarrow> bool" where
  "retained db r \<longleftrightarrow> 1 \<le> pr_version r \<and>
     map vr_version (history db (pr_id r)) = [max 1 (pr_version r - 2)..pr_version r] \<and>
     vr_body (last (history db (pr_id r))) = pr_body r"

lemma recorded_other_fields [simp]:
  "pdb_policies (recorded env db row) = pdb_policies db" "pdb_tenants (recorded env db row) = pdb_tenants db"
  "pdb_upstreams (recorded env db row) = pdb_upstreams db" "pdb_evaluations (recorded env db row) = pdb_evaluations db"
  "pdb_decisions (recorded env db row) = pdb_decisions db" "pdb_reasons (recorded env db row) = pdb_reasons db"
  "pdb_revisions (recorded env db row) = pdb_revisions db"
  by (simp_all add: recorded_def prune_versions_def Let_def)

lemma history_policies [simp]: "history (db\<lparr>pdb_policies := ps\<rparr>) pid = history db pid"
  by (simp add: history_def)

lemma history_recorded_other: "pid \<noteq> pr_id row \<Longrightarrow> history (recorded env db row) pid = history db pid"
  by (auto simp: recorded_def prune_versions_def history_def newest_first_def Let_def version_of_def dest!: in_set_dropD
      intro!: filter_cong)

lemma history_recorded:
  assumes "sorted_wrt (\<lambda>a b. vr_version a < vr_version b) (history db (pr_id row) @ [version_of env row])"
  shows "history (recorded env db row) (pr_id row) =
    drop (Suc (length (history db (pr_id row))) - 3) (history db (pr_id row) @ [version_of env row])"
proof -
  let ?h = "history db (pr_id row) @ [version_of env row]"
  have h: "history (db\<lparr>pdb_versions := pdb_versions db @ [version_of env row]\<rparr>) (pr_id row) = ?h"
    by (simp add: history_def version_of_def)
  have "history (recorded env db row) (pr_id row) = filter (\<lambda>v. v \<notin> set (drop 3 (newest_first ?h))) ?h"
    unfolding recorded_def prune_versions_def Let_def h MaxRetainedPolicyVersions_def
    by (simp add: history_def conj_commute version_of_def)
  then show ?thesis using keep_newest [OF assms, of 3] by (simp add: newest_first_def)
qed

lemma retained_recorded:
  assumes "map vr_version (history db (pr_id row)) = [max 1 (pr_version row - 3)..pr_version row - 1]" "1 \<le> pr_version row"
  shows "retained (recorded env db row) row"
proof -
  let ?h = "history db (pr_id row) @ [version_of env row]" and ?m = "max 1 (pr_version row - 3)"
  have m: "map vr_version ?h = [?m..pr_version row]"
    using assms by (simp add: version_of_def upto_rec2)
  then have "sorted_wrt (<) (map vr_version ?h)" by (simp only: sorted_wrt_upto)
  then have "sorted_wrt (\<lambda>a b. vr_version a < vr_version b) ?h" by (simp only: sorted_wrt_map)
  from history_recorded [OF this] have hist: "history (recorded env db row) (pr_id row) = drop (length ?h - 3) ?h" by simp
  have "map vr_version (drop (length ?h - 3) ?h) = drop (length [?m..pr_version row] - 3) [?m..pr_version row]"
    by (metis drop_map length_map m)
  then have "map vr_version (drop (length ?h - 3) ?h) = [max ?m (pr_version row - 2)..pr_version row]"
    by (simp only: drop_upto_last) (simp add: algebra_simps)
  moreover have "max ?m (pr_version row - 2) = max 1 (pr_version row - 2)" by simp
  moreover have "last (drop (length ?h - 3) ?h) = version_of env row"
    by (subst last_drop) simp_all
  ultimately show ?thesis
    using assms(2) by (simp add: retained_def hist version_of_def)
qed

lemma retained_cong: "history db' (pr_id r) = history db (pr_id r) \<Longrightarrow> retained db' r = retained db r"
  by (simp add: retained_def)

section \<open>The tables stay well-formed\<close>

definition policy_refs :: "policy_db \<Rightarrow> string option set" where
  "policy_refs db =
     oc_policy_id ` set (pdb_evaluations db) \<union> oc_policy_id ` set (pdb_decisions db) \<union> rr_policy_id ` set (pdb_reasons db)"

definition policies_ok :: "policy_db \<Rightarrow> bool" where
  "policies_ok db \<longleftrightarrow> distinct (map pr_id (pdb_policies db)) \<and> distinct (map policy_name_key (pdb_policies db)) \<and>
     (\<forall>r \<in> set (pdb_policies db). retained db r) \<and>
     (\<forall>v \<in> set (pdb_versions db). vr_policy_id v \<in> pr_id ` set (pdb_policies db)) \<and>
     (\<forall>pid. Some pid \<in> policy_refs db \<longrightarrow> pid \<in> pr_id ` set (pdb_policies db)) \<and>
     (\<forall>t. tenant_generations db t = [1..int (length (tenant_generations db t))])"

lemma policy_violation_None:
  "policy_violation db others r = None \<longleftrightarrow> pr_id r \<notin> pr_id ` set others \<and> policy_name_key r \<notin> policy_name_key ` set others \<and>
     pr_tenant_id r \<in> set (pdb_tenants db) \<and> known_upstream db (pr_body r)"
  by (simp add: policy_violation_def)

lemma hit_unique:
  "policies_ok db \<Longrightarrow> r \<in> set (pdb_policies db) \<Longrightarrow> r' \<in> set (pdb_policies db) \<Longrightarrow> pr_id r = pr_id r' \<Longrightarrow> r = r'"
  by (auto simp: policies_ok_def distinct_map inj_on_def)

lemma no_history: "policies_ok db \<Longrightarrow> pid \<notin> pr_id ` set (pdb_policies db) \<Longrightarrow> history db pid = []"
  by (auto simp: policies_ok_def history_def filter_empty_conv)

lemma refs_recorded [simp]: "policy_refs (recorded env db row) = policy_refs db"
  by (simp add: policy_refs_def)

lemma generations_recorded [simp]: "tenant_generations (recorded env db row) = tenant_generations db"
  by (simp add: tenant_generations_def fun_eq_iff)

lemma versions_recorded:
  "v \<in> set (pdb_versions (recorded env db row)) \<Longrightarrow> v \<in> set (pdb_versions db) \<or> v = version_of env row"
  by (auto simp: recorded_def prune_versions_def Let_def split: if_splits)

lemma inserted_ok:
  assumes ok: "policies_ok db" and ins: "insert_policy env db t body = Inr (row, db1)"
  shows "policies_ok (recorded env db1 row)"
proof -
  have v: "policy_violation db (pdb_policies db) row = None" and db1: "db1 = db\<lparr>pdb_policies := pdb_policies db @ [row]\<rparr>"
    and row: "pr_version row = 1"
    using ins by (auto simp: insert_policy_def Let_def split: option.splits)
  have new: "pr_id row \<notin> pr_id ` set (pdb_policies db)" using v by (simp add: policy_violation_None)
  have "retained (recorded env db1 row) row"
    by (rule retained_recorded) (simp_all add: db1 no_history [OF ok new] row)
  moreover have "retained (recorded env db1 row) r" if "r \<in> set (pdb_policies db)" for r
  proof -
    have "pr_id r \<noteq> pr_id row" using new that by (metis imageI)
    then have "retained (recorded env db1 row) r = retained db r"
      by (intro retained_cong) (simp add: history_recorded_other db1)
    with ok that show ?thesis by (simp add: policies_ok_def)
  qed
  ultimately show ?thesis
    using ok v new
    by (auto simp: policies_ok_def policy_violation_None db1 policy_refs_def tenant_generations_def version_of_def
        dest!: versions_recorded)
qed

lemma update_policy_cases:
  assumes "update_policy env db t pid body = Inr (Some (row, db1))"
  obtains r where "r \<in> set (pdb_policies db)" "policy_hit t pid r"
    "row = r\<lparr>pr_body := body, pr_version := pr_version r + 1, pr_updated_at := pe_now env\<rparr>"
    "policy_violation db (filter (\<lambda>x. \<not> policy_hit t pid x) (pdb_policies db)) row = None"
    "db1 = db\<lparr>pdb_policies := map (\<lambda>x. if policy_hit t pid x then row else x) (pdb_policies db)\<rparr>"
proof -
  obtain r rs where hit: "filter (policy_hit t pid) (pdb_policies db) = r # rs"
    using assms by (auto simp: update_policy_def split: list.splits)
  then have "r \<in> set (filter (policy_hit t pid) (pdb_policies db))" by simp
  then have "r \<in> set (pdb_policies db)" "policy_hit t pid r" by simp_all
  from that [OF this] assms hit show thesis
    by (auto simp: update_policy_def Let_def split: if_splits option.splits)
qed

lemma updated_ok:
  assumes ok: "policies_ok db" and upd: "update_policy env db t pid body = Inr (Some (row, db1))"
  shows "policies_ok (recorded env db1 row)"
proof -
  obtain r where r: "r \<in> set (pdb_policies db)" "policy_hit t pid r"
    and row: "row = r\<lparr>pr_body := body, pr_version := pr_version r + 1, pr_updated_at := pe_now env\<rparr>"
    and v: "policy_violation db (filter (\<lambda>x. \<not> policy_hit t pid x) (pdb_policies db)) row = None"
    and db1: "db1 = db\<lparr>pdb_policies := map (\<lambda>x. if policy_hit t pid x then row else x) (pdb_policies db)\<rparr>"
    using update_policy_cases [OF upd] .
  have only: "x = r" if "x \<in> set (pdb_policies db)" "policy_hit t pid x" for x
    using hit_unique [OF ok that(1) r(1)] that(2) r(2) by (simp add: policy_hit_def)
  have rid: "pr_id row = pr_id r" "pr_id row = pid" using r(2) by (simp_all add: row policy_hit_def)
  have ids: "pr_id ` set (pdb_policies db1) = pr_id ` set (pdb_policies db)"
  proof -
    have "pr_id ` set (pdb_policies db1) = (\<lambda>x. pr_id (if policy_hit t pid x then row else x)) ` set (pdb_policies db)"
      by (simp add: db1 image_image del: if_image_distrib)
    also have "\<dots> = pr_id ` set (pdb_policies db)" using only rid(1) by (intro image_cong) auto
    finally show ?thesis .
  qed
  have d: "distinct (map k (map (\<lambda>x. if policy_hit t pid x then row else x) (pdb_policies db)))"
    if "distinct (map k (pdb_policies db))" "k row \<notin> k ` {y \<in> set (pdb_policies db). \<not> policy_hit t pid y}"
    for k :: "policy_row \<Rightarrow> 'k"
    using that only by (intro distinct_map_update) auto
  have "retained (recorded env db1 row) row"
  proof (rule retained_recorded)
    have "retained db r" using ok r(1) by (simp add: policies_ok_def)
    then show "map vr_version (history db1 (pr_id row)) = [max 1 (pr_version row - 3)..pr_version row - 1]" "1 \<le> pr_version row"
      by (simp_all add: retained_def rid(1) db1) (simp_all add: row algebra_simps)
  qed
  moreover have "retained (recorded env db1 row) x" if x: "x \<in> set (pdb_policies db)" "\<not> policy_hit t pid x" for x
  proof -
    have "pr_id x \<noteq> pr_id row" using hit_unique [OF ok x(1) r(1)] x(2) r(2) rid(1) by auto
    then have "retained (recorded env db1 row) x = retained db x"
      by (intro retained_cong) (simp add: history_recorded_other db1)
    with ok x show ?thesis by (simp add: policies_ok_def)
  qed
  moreover have "vr_policy_id x \<in> pr_id ` set (pdb_policies db)" if "x \<in> set (pdb_versions (recorded env db1 row))" for x
    using versions_recorded [OF that] ok r(1) rid(1) by (auto simp: db1 policies_ok_def version_of_def)
  moreover have "distinct (map pr_id (pdb_policies db1))" "distinct (map policy_name_key (pdb_policies db1))"
    using d [of pr_id] d [of policy_name_key] ok v by (auto simp: db1 policies_ok_def policy_violation_None)
  moreover have "policy_refs db1 = policy_refs db" "tenant_generations db1 = tenant_generations db"
    by (simp_all add: db1 policy_refs_def tenant_generations_def fun_eq_iff)
  ultimately show ?thesis
    using ok ids by (auto simp: policies_ok_def) (auto simp: db1)
qed

lemma deleted_ok:
  assumes ok: "policies_ok db" and del: "delete_policy db t pid = Inr (found, db')"
  shows "policies_ok db'"
proof (cases found)
  case True
  then obtain r where r: "r \<in> set (pdb_policies db)" "policy_hit t pid r"
    and refs: "Some pid \<notin> policy_refs db"
    and db': "db' = db\<lparr>pdb_policies := filter (\<lambda>r. \<not> policy_hit t pid r) (pdb_policies db),
      pdb_versions := filter (\<lambda>v. vr_policy_id v \<noteq> pid) (pdb_versions db)\<rparr>"
    using del by (auto simp: delete_policy_def policy_refs_def split: if_splits)
  have keep: "pr_id x \<noteq> pid \<longleftrightarrow> \<not> policy_hit t pid x" if "x \<in> set (pdb_policies db)" for x
    using hit_unique [OF ok that r(1)] r(2) by (auto simp: policy_hit_def)
  have ids: "pr_id ` set (pdb_policies db') = pr_id ` set (pdb_policies db) - {pid}"
    using keep by (auto simp: db')
  have "history db' q = history db q" if "q \<noteq> pid" for q
    using that by (auto simp: history_def db' intro: filter_cong)
  then have "retained db' x" if "x \<in> set (pdb_policies db')" for x
    using that keep retained_cong [of db' x db] ok by (auto simp: db' policies_ok_def)
  moreover have "policy_refs db' = policy_refs db" "tenant_generations db' = tenant_generations db"
    by (simp_all add: db' policy_refs_def tenant_generations_def fun_eq_iff)
  ultimately show ?thesis
    using ok ids refs by (auto simp: policies_ok_def db' distinct_map_filter)
qed (use ok del in \<open>auto simp: delete_policy_def split: if_splits\<close>)

lemma refs_cleared_ok:
  assumes "policies_ok db" "policy_refs (db\<lparr>pdb_evaluations := es, pdb_decisions := ds, pdb_reasons := rs\<rparr>) \<subseteq> insert None (policy_refs db)"
  shows "policies_ok (db\<lparr>pdb_evaluations := es, pdb_decisions := ds, pdb_reasons := rs\<rparr>)"
  using assms
  by (auto simp: policies_ok_def retained_def history_def tenant_generations_def)

section \<open>Operations\<close>

lemma settle_cases: "settle db r = (x, db') \<Longrightarrow> db' = db \<or> (\<exists>a. r = Inr (a, db') \<and> x = Inr a)"
  by (auto simp: settle_def split: sum.splits prod.splits)

lemma stage_result_Inr: "stage_result env stage x = Inr a \<longleftrightarrow> x = Inr a \<and> pe_fault env stage = None"
  by (auto simp: stage_result_def statement_def split: option.splits sum.splits)

lemma write_result_Inr: "write_result env stage x = Inr a \<longleftrightarrow> x = Inr a \<and> pe_fault env stage = None"
  by (auto simp: write_result_def statement_def split: option.splits sum.splits)

lemma then_db_Inr: "then_db x f = Inr b \<longleftrightarrow> (\<exists>a. x = Inr a \<and> f a = Inr b)"
  by (auto simp: then_db_def split: sum.splits)

lemma record_version_Inr: "record_version env stage db row = Inr db' \<Longrightarrow> db' = recorded env db row"
  by (auto simp: record_version_def prunePolicyVersions_def bind_result_eq_Inr stage_result_Inr insert_version_def
      recorded_def split: if_splits)

lemmas transaction_simps = bind_result_eq_Inr stage_result_Inr write_result_Inr then_db_Inr

lemma prepare_keeps:
  assumes "prepare_policy env p0 = Inr (p, config, target)"
  shows "pol_tenant_id p = pol_tenant_id p0 \<and> pol_id p = pol_id p0"
  using assms
  by (auto simp: prepare_policy_def transaction_simps map_result_Inr elim!: validate_policy_Inr split: if_splits)

text \<open>Every write of a policy inserts or updates its row and records the row as a version.\<close>

definition wrote :: "policy_env \<Rightarrow> string \<Rightarrow> policy_db \<Rightarrow> policy_db \<Rightarrow> bool" where
  "wrote env t db db' \<longleftrightarrow>
     (\<exists>row db1. db' = recorded env db1 row \<and>
        ((\<exists>body. insert_policy env db t body = Inr (row, db1)) \<or>
         (\<exists>pid body. update_policy env db t pid body = Inr (Some (row, db1)))))"

lemma create_cases: "StoreCreate env db p = (r, db') \<Longrightarrow> db' = db \<or> wrote env (pol_tenant_id p) db db'"
  unfolding StoreCreate_def wrote_def
  by (drule settle_cases) (fastforce simp: transaction_simps dest: record_version_Inr prepare_keeps split: prod.splits)

lemma update_cases: "StoreUpdate env db p = (r, db') \<Longrightarrow> db' = db \<or> wrote env (pol_tenant_id p) db db'"
  unfolding StoreUpdate_def wrote_def
  by (drule settle_cases)
    (fastforce simp: transaction_simps dest: record_version_Inr prepare_keeps split: prod.splits option.splits)

lemma validated_rollback_ids:
  "ValidatePolicy (rollbackPolicy t pid v) = Inr p \<Longrightarrow> pol_tenant_id p = t \<and> pol_id p = pid"
  by (erule validate_policy_Inr) (simp add: rollbackPolicy_def)

lemma rollback_cases: "StoreRollback env db t pid n = (r, db') \<Longrightarrow> db' = db \<or> wrote env t db db'"
  unfolding StoreRollback_def wrote_def updatePolicyForRollback_def
  by (drule settle_cases)
    (fastforce simp: transaction_simps dest: record_version_Inr validated_rollback_ids split: prod.splits option.splits)

lemma wrote_ok: "policies_ok db \<Longrightarrow> wrote env t db db' \<Longrightarrow> policies_ok db'"
  by (auto simp: wrote_def intro: inserted_ok updated_ok)

lemma cleared_refs:
  "policy_refs (db\<lparr>pdb_evaluations := clear_outcomes t pid es, pdb_decisions := clear_outcomes t pid ds,
      pdb_reasons := clear_reasons es' t pid rs\<rparr>) \<subseteq>
   insert None (policy_refs (db\<lparr>pdb_evaluations := es, pdb_decisions := ds, pdb_reasons := rs\<rparr>))"
  by (auto simp: policy_refs_def clear_outcomes_def clear_reasons_def split: if_splits)

definition cleared :: "policy_db \<Rightarrow> string \<Rightarrow> string \<Rightarrow> policy_db" where
  "cleared db t pid =
     (let es = clear_outcomes t pid (pdb_evaluations db)
      in db\<lparr>pdb_evaluations := es, pdb_decisions := clear_outcomes t pid (pdb_decisions db),
            pdb_reasons := clear_reasons es t pid (pdb_reasons db)\<rparr>)"

lemma policies_ok_cleared: "policies_ok db \<Longrightarrow> policies_ok (cleared db t pid)"
  unfolding cleared_def Let_def by (rule refs_cleared_ok) (simp, rule subset_trans [OF cleared_refs], simp)

lemma force_delete_cases:
  "forceDelete env db t pid = (r, db') \<Longrightarrow> db' = db \<or> delete_policy (cleared db t pid) t pid = Inr (True, db')"
  unfolding forceDelete_def cleared_def
  by (drule settle_cases) (auto simp: transaction_simps Let_def split: prod.splits if_splits)

lemma delete_cases:
  assumes "StoreDelete env db t pid force = (r, db')"
  shows "db' = db \<or> delete_policy db t pid = Inr (True, db') \<or> delete_policy (cleared db t pid) t pid = Inr (True, db')"
proof (cases force)
  case True
  with assms have "forceDelete env db t pid = (r, db')" by (simp add: StoreDelete_def)
  from force_delete_cases [OF this] show ?thesis by blast
next
  case False
  with assms show ?thesis
    by (auto simp: StoreDelete_def settle_def statement_def split: option.splits sum.splits prod.splits if_splits)
qed

lemma delete_ok:
  assumes ok: "policies_ok db" and del: "StoreDelete env db t pid force = (r, db')"
  shows "policies_ok db'"
  using ok delete_cases [OF del] policies_ok_cleared [OF ok] by (auto intro: deleted_ok)

lemma revision_cases:
  assumes "StoreCreateRevision env db v = (r, db')"
  obtains "db' = db" | row where "db' = db\<lparr>pdb_revisions := pdb_revisions db @ [row]\<rparr>"
    "rev_tenant_id row = rev_tenant_id v"
    "rev_generation row = (if tenant_generations db (rev_tenant_id v) = [] then 0
       else Max (set (tenant_generations db (rev_tenant_id v)))) + 1"
  using assms unfolding StoreCreateRevision_def Let_def
  by (auto dest!: settle_cases simp: stage_result_Inr split: if_splits)

lemma revision_ok:
  assumes ok: "policies_ok db" and new: "StoreCreateRevision env db v = (r, db')"
  shows "policies_ok db'"
proof -
  let ?g = "tenant_generations db (rev_tenant_id v)"
  from new show ?thesis
  proof (cases rule: revision_cases)
    case (2 row)
    have g: "?g = [1..int (length ?g)]" using ok by (simp add: policies_ok_def)
    have gen: "rev_generation row = int (length ?g) + 1"
    proof (cases "?g = []")
      case False
      then have "Max {1..int (length ?g)} = int (length ?g)" by (intro Max_eqI) (auto simp: Suc_le_eq)
      moreover have "set ?g = {1..int (length ?g)}" by (subst g) simp
      ultimately show ?thesis using False 2(3) by simp
    qed (simp add: 2(3))
    then have "tenant_generations db' t = [1..int (length (tenant_generations db' t))]" for t
    proof (cases "t = rev_tenant_id v")
      case True
      then have "tenant_generations db' t = ?g @ [int (length ?g) + 1]"
        using 2 gen by (simp add: tenant_generations_def)
      also have "\<dots> = [1..int (length ?g)] @ [int (length ?g) + 1]" using g by simp
      also have "\<dots> = [1..int (length ?g) + 1]" by (simp add: upto_rec2)
      finally show ?thesis by simp
    next
      case False
      then have "tenant_generations db' t = tenant_generations db t" using 2(1,2) by (simp add: tenant_generations_def)
      with ok show ?thesis by (simp add: policies_ok_def)
    qed
    with ok 2(1) show ?thesis by (auto simp: policies_ok_def retained_def history_def policy_refs_def)
  qed (use ok in simp)
qed

section \<open>Tenants\<close>

text \<open>What a tenant has in the tables: its policies, each with its retained versions.\<close>

definition tenant_view :: "policy_db \<Rightarrow> string \<Rightarrow> (policy_row \<times> version_row list) list" where
  "tenant_view db t = map (\<lambda>r. (r, history db (pr_id r))) (filter (\<lambda>r. pr_tenant_id r = t) (pdb_policies db))"

lemma tenant_view_cong:
  assumes "filter (\<lambda>r. pr_tenant_id r = t) (pdb_policies db') = filter (\<lambda>r. pr_tenant_id r = t) (pdb_policies db)"
    "\<And>r. r \<in> set (pdb_policies db') \<Longrightarrow> pr_tenant_id r = t \<Longrightarrow> history db' (pr_id r) = history db (pr_id r)"
  shows "tenant_view db' t = tenant_view db t"
proof -
  have "\<forall>r \<in> set (filter (\<lambda>r. pr_tenant_id r = t) (pdb_policies db')). history db' (pr_id r) = history db (pr_id r)"
    using assms(2) by simp
  then show ?thesis unfolding tenant_view_def assms(1) by simp
qed

lemma inserted_rows:
  assumes "insert_policy env db t' body = Inr (row, db1)"
  shows "row \<in> set (pdb_policies db1)" "pr_tenant_id row = t'" "pdb_versions db1 = pdb_versions db"
    "t \<noteq> t' \<Longrightarrow> filter (\<lambda>r. pr_tenant_id r = t) (pdb_policies db1) = filter (\<lambda>r. pr_tenant_id r = t) (pdb_policies db)"
  using assms by (auto simp: insert_policy_def Let_def split: option.splits)

lemma updated_rows:
  assumes "update_policy env db t' pid body = Inr (Some (row, db1))"
  shows "row \<in> set (pdb_policies db1)" "pr_tenant_id row = t'" "pdb_versions db1 = pdb_versions db"
    "t \<noteq> t' \<Longrightarrow> filter (\<lambda>r. pr_tenant_id r = t) (pdb_policies db1) = filter (\<lambda>r. pr_tenant_id r = t) (pdb_policies db)"
proof -
  obtain r where r: "r \<in> set (pdb_policies db)" "policy_hit t' pid r" "pr_tenant_id row = pr_tenant_id r"
    and db1: "db1 = db\<lparr>pdb_policies := map (\<lambda>x. if policy_hit t' pid x then row else x) (pdb_policies db)\<rparr>"
    using assms by (elim update_policy_cases) simp
  show "row \<in> set (pdb_policies db1)" "pdb_versions db1 = pdb_versions db" using r by (auto simp: db1)
  show row: "pr_tenant_id row = t'" using r by (simp add: policy_hit_def)
  have "filter (\<lambda>r. pr_tenant_id r = t) (map (\<lambda>x. if policy_hit t' pid x then row else x) xs) =
      filter (\<lambda>r. pr_tenant_id r = t) xs" if "t \<noteq> t'" for xs
    using that row by (induction xs) (auto simp: policy_hit_def)
  then show "t \<noteq> t' \<Longrightarrow> filter (\<lambda>r. pr_tenant_id r = t) (pdb_policies db1) = filter (\<lambda>r. pr_tenant_id r = t) (pdb_policies db)"
    by (simp add: db1)
qed

lemma wrote_view:
  assumes ok: "policies_ok db" and w: "wrote env t' db db'" and t: "t \<noteq> t'"
  shows "tenant_view db' t = tenant_view db t"
proof -
  from w obtain row db1 where db': "db' = recorded env db1 row"
    and step: "(\<exists>body. insert_policy env db t' body = Inr (row, db1)) \<or>
      (\<exists>pid body. update_policy env db t' pid body = Inr (Some (row, db1)))"
    unfolding wrote_def by blast
  from step have same: "row \<in> set (pdb_policies db1)" "pr_tenant_id row = t'" "pdb_versions db1 = pdb_versions db"
      "filter (\<lambda>r. pr_tenant_id r = t) (pdb_policies db1) = filter (\<lambda>r. pr_tenant_id r = t) (pdb_policies db)"
    using inserted_rows [of env db t' _ row db1] updated_rows [of env db t' _ _ row db1] t by blast+
  have ok': "policies_ok db'" using wrote_ok [OF ok w] .
  show ?thesis
  proof (rule tenant_view_cong)
    show "filter (\<lambda>r. pr_tenant_id r = t) (pdb_policies db') = filter (\<lambda>r. pr_tenant_id r = t) (pdb_policies db)"
      using same(4) by (simp add: db')
    fix r assume r: "r \<in> set (pdb_policies db')" "pr_tenant_id r = t"
    have "pr_id r \<noteq> pr_id row" using hit_unique [OF ok' r(1), of row] same(1,2) r(2) t by (auto simp: db')
    then show "history db' (pr_id r) = history db (pr_id r)"
      by (simp add: db' history_recorded_other) (simp add: history_def same(3))
  qed
qed

lemma deleted_view:
  assumes ok: "policies_ok db" and del: "delete_policy db t' pid = Inr (True, db')" and t: "t \<noteq> t'"
  shows "tenant_view db' t = tenant_view db t"
proof -
  have found: "\<exists>r \<in> set (pdb_policies db). policy_hit t' pid r"
    and db': "db' = db\<lparr>pdb_policies := filter (\<lambda>r. \<not> policy_hit t' pid r) (pdb_policies db),
      pdb_versions := filter (\<lambda>v. vr_policy_id v \<noteq> pid) (pdb_versions db)\<rparr>"
    using del by (auto simp: delete_policy_def split: if_splits)
  show ?thesis
  proof (rule tenant_view_cong)
    show "filter (\<lambda>r. pr_tenant_id r = t) (pdb_policies db') = filter (\<lambda>r. pr_tenant_id r = t) (pdb_policies db)"
      using t by (auto simp: db' policy_hit_def intro!: filter_cong)
    fix r assume r: "r \<in> set (pdb_policies db')" "pr_tenant_id r = t"
    then have "pr_id r \<noteq> pid" using found hit_unique [OF ok, of r] t by (auto simp: db' policy_hit_def)
    then show "history db' (pr_id r) = history db (pr_id r)" by (auto simp: history_def db' intro: filter_cong)
  qed
qed

lemma tenant_view_cleared: "tenant_view (cleared db t' pid) t = tenant_view db t"
  by (simp add: tenant_view_def cleared_def Let_def history_def)

section \<open>Documents\<close>

text \<open>A policy whose documents are decoded again to what was marshalled.\<close>

definition reads_back :: "policy_env \<Rightarrow> policy \<Rightarrow> bool" where
  "reads_back env p \<longleftrightarrow>
     (\<forall>s j. pe_marshal_config env (pol_config p) = Inr s \<longrightarrow> pe_jsonb env s = Some j \<longrightarrow>
        map_result Some (DecodeStoredConfigJSON (pe_codec env) (pol_type p) (pol_schema_version p) j) = Inr (pol_config p)) \<and>
     (\<forall>s j. pol_target p \<noteq> None \<longrightarrow> pe_marshal_target env (pol_target p) = Inr s \<longrightarrow> pe_jsonb env s = Some j \<longrightarrow>
        decodePolicyTarget (pe_codec env) (Some j) = Inr (pol_target p))"

lemma encoded_body_read:
  assumes "encode_body env p c s = Inr body" "pe_marshal_config env (pol_config p) = Inr c"
    "pe_marshal_target env (pol_target p) = Inr s" "reads_back env p"
  obtains config where "pol_config p = Some config" "decode_body (pe_codec env) what body = Inr (config, pol_target p)"
    "pb_upstream_id body = nullableString (pol_upstream_id p)" "pb_name body = pol_name p" "pb_type body = pol_type p"
    "pb_action body = pol_action p" "pb_schema_version body = pol_schema_version p" "pb_priority body = pol_priority p"
    "pb_enabled body = pol_enabled p"
proof -
  obtain j k where j: "pe_jsonb env c = Some j" "jsonb_column env (nullableJSON s (pol_target p \<noteq> None)) = Inr k"
    and body: "body = \<lparr>pb_upstream_id = nullableString (pol_upstream_id p), pb_name = pol_name p, pb_type = pol_type p,
       pb_action = pol_action p, pb_schema_version = pol_schema_version p, pb_config = j,
       pb_target = k, pb_priority = pol_priority p, pb_enabled = pol_enabled p\<rparr>"
    using assms(1) by (auto simp: encode_body_def then_db_Inr split: if_splits option.splits)
  from assms(2,4) j(1) obtain config where config: "pol_config p = Some config"
    "DecodeStoredConfigJSON (pe_codec env) (pol_type p) (pol_schema_version p) j = Inr config"
    by (auto simp: reads_back_def map_result_Inr)
  have "decodePolicyTarget (pe_codec env) k = Inr (pol_target p)"
  proof (cases "pol_target p")
    case None
    with j(2) show ?thesis by (simp add: jsonb_column_def nullableJSON_def decodePolicyTarget_def)
  next
    case (Some t)
    with j(2) obtain l where "k = Some l" "pe_jsonb env s = Some l"
      by (cases "pe_jsonb env s") (auto simp: jsonb_column_def nullableJSON_def)
    with assms(3,4) Some show ?thesis by (simp add: reads_back_def)
  qed
  with config that [of config] show thesis by (simp add: body decode_body_def map_result_def)
qed

lemma validate_target_fixed:
  assumes "target_on_unknown t \<in> {DependencyUnknownWarn, DependencyUnknownDeny, DependencyUnknownSkip}"
    "set (target_scopes t) \<subseteq> {DependencyScopeDirect, DependencyScopeTransitive, DependencyScopeUnknown}"
    "set (target_types t) \<subseteq> {DependencyTypeProd, DependencyTypeDev, DependencyTypePeer, DependencyTypeOptional}"
  shows "ValidateTarget (Some t) = Inr (Some t)"
proof -
  have "target_scopes_loop (target_scopes t) = Inr ()" "target_types_loop (target_types t) = Inr ()"
    using assms by (simp_all only: target_scopes_loop_Inr target_types_loop_Inr)
  moreover have "target_on_unknown t \<noteq> []" using assms(1) by auto
  ultimately show ?thesis using assms(1) by (simp add: ValidateTarget_def)
qed

lemma normalized_target_valid:
  assumes "ValidateTarget (Some t) = Inr u" shows "ValidateTarget (NormalizeTarget u) = Inr (NormalizeTarget u)"
proof -
  obtain v where v: "u = Some v" "target_on_unknown v \<in> {DependencyUnknownWarn, DependencyUnknownDeny, DependencyUnknownSkip}"
    "target_scopes v = target_scopes t" "target_types v = target_types t"
    using validate_target_Some [OF assms] by blast
  have s: "target_scopes_loop (target_scopes t) = Inr ()" "target_types_loop (target_types t) = Inr ()"
    using assms by (auto simp: ValidateTarget_def Let_def split: if_splits sum.splits)
  have "target_on_unknown v \<noteq> []" using v(2) by auto
  then show ?thesis
    using v(2) s unfolding v(1) NormalizeTarget_def target_scopes_loop_Inr target_types_loop_Inr
    by (simp add: Let_def, intro validate_target_fixed)
      (auto simp: v(3,4) uniqueDependencyScopes_def uniqueDependencyTypes_def set_unique_loop_id)
qed

lemma decoded_body:
  assumes "decode_body pc what b = Inr (config, target)"
  shows "ValidateConfig config = Inr config \<and> ValidateTarget target = Inr target \<and> NormalizeTarget target = target"
proof -
  from assms have c: "DecodeStoredConfigJSON pc (pb_type b) (pb_schema_version b) (pb_config b) = Inr config"
    and t: "decodePolicyTarget pc (pb_target b) = Inr target"
    by (auto simp: decode_body_def bind_result_eq_Inr map_result_Inr)
  from c have "ValidateConfig config = Inr config"
    by (auto simp: DecodeStoredConfigJSON_def Let_def dest: decoded_config split: if_splits)
  moreover from t have "ValidateTarget target = Inr target \<and> NormalizeTarget target = target"
    by (auto simp: decodePolicyTarget_def Let_def bind_result_eq_Inr map_result_Inr normalized_target_valid split: if_splits)
      (simp_all add: ValidateTarget_def NormalizeTarget_def)
  ultimately show ?thesis by blast
qed

text \<open>What was stored as a version validates to itself, if it validates at all.\<close>

lemma rollback_policy_fixed:
  assumes "scanPolicyVersion pc w = Inr v" "ValidatePolicy (rollbackPolicy t pid v) = Inr p"
  shows "p = rollbackPolicy t pid v"
proof -
  obtain config target where "decode_body pc ''policy version'' (vr_body w) = Inr (config, target)"
    "ver_config v = Some config" "ver_target v = target"
    using assms(1) by (auto simp: scanPolicyVersion_def Let_def map_result_Inr)
  with decoded_body [of pc "''policy version''" "vr_body w" config target] assms(2) show ?thesis
    by (auto elim!: validate_policy_Inr simp: rollbackPolicy_def)
qed

section \<open>Properties\<close>

datatype policy_op =
    CreatePolicyOp policy
  | UpdatePolicyOp policy
  | RollbackPolicyOp string string int
  | DeletePolicyOp string string bool
  | RevisionOp policy_set_revision

fun policy_op_tenant :: "policy_op \<Rightarrow> string" where
  "policy_op_tenant (CreatePolicyOp p) = pol_tenant_id p"
| "policy_op_tenant (UpdatePolicyOp p) = pol_tenant_id p"
| "policy_op_tenant (RollbackPolicyOp t pid n) = t"
| "policy_op_tenant (DeletePolicyOp t pid force) = t"
| "policy_op_tenant (RevisionOp v) = rev_tenant_id v"

fun apply_policy_op :: "policy_env \<Rightarrow> policy_op \<Rightarrow> policy_db \<Rightarrow> policy_db" where
  "apply_policy_op env (CreatePolicyOp p) db = snd (StoreCreate env db p)"
| "apply_policy_op env (UpdatePolicyOp p) db = snd (StoreUpdate env db p)"
| "apply_policy_op env (RollbackPolicyOp t pid n) db = snd (StoreRollback env db t pid n)"
| "apply_policy_op env (DeletePolicyOp t pid force) db = snd (StoreDelete env db t pid force)"
| "apply_policy_op env (RevisionOp v) db = snd (StoreCreateRevision env db v)"

definition run_policy_ops :: "(policy_env \<times> policy_op) list \<Rightarrow> policy_db \<Rightarrow> policy_db" where
  "run_policy_ops ops db = fold (\<lambda>(env, op). apply_policy_op env op) ops db"

lemma policy_op_effect:
  "apply_policy_op env op db = db \<or> wrote env (policy_op_tenant op) db (apply_policy_op env op db) \<or>
   (\<exists>pid. delete_policy db (policy_op_tenant op) pid = Inr (True, apply_policy_op env op db) \<or>
      delete_policy (cleared db (policy_op_tenant op) pid) (policy_op_tenant op) pid = Inr (True, apply_policy_op env op db)) \<or>
   (\<exists>rs. apply_policy_op env op db = db\<lparr>pdb_revisions := rs\<rparr>)"
proof (cases op)
  case (CreatePolicyOp p)
  then show ?thesis using create_cases [of env db p] by (cases "StoreCreate env db p") auto
next
  case (UpdatePolicyOp p)
  then show ?thesis using update_cases [of env db p] by (cases "StoreUpdate env db p") auto
next
  case (RollbackPolicyOp t pid n)
  then show ?thesis using rollback_cases [of env db t pid n] by (cases "StoreRollback env db t pid n") auto
next
  case (DeletePolicyOp t pid force)
  then show ?thesis using delete_cases [of env db t pid force] by (cases "StoreDelete env db t pid force") auto
next
  case (RevisionOp v)
  obtain r db' where run: "StoreCreateRevision env db v = (r, db')" by (cases "StoreCreateRevision env db v")
  then show ?thesis by (cases rule: revision_cases) (auto simp: RevisionOp run)
qed

lemma policy_op_ok: "policies_ok db \<Longrightarrow> policies_ok (apply_policy_op env op db)"
proof (cases op)
  case (RevisionOp v)
  assume "policies_ok db"
  with RevisionOp revision_ok [of db env v] show ?thesis by (cases "StoreCreateRevision env db v") auto
next
  case (DeletePolicyOp t pid force)
  assume "policies_ok db"
  with DeletePolicyOp delete_ok [of db env t pid force] show ?thesis by (cases "StoreDelete env db t pid force") auto
next
  case (CreatePolicyOp p)
  assume "policies_ok db"
  with CreatePolicyOp create_cases [of env db p] show ?thesis by (cases "StoreCreate env db p") (auto intro: wrote_ok)
next
  case (UpdatePolicyOp p)
  assume "policies_ok db"
  with UpdatePolicyOp update_cases [of env db p] show ?thesis by (cases "StoreUpdate env db p") (auto intro: wrote_ok)
next
  case (RollbackPolicyOp t pid n)
  assume "policies_ok db"
  with RollbackPolicyOp rollback_cases [of env db t pid n] show ?thesis
    by (cases "StoreRollback env db t pid n") (auto intro: wrote_ok)
qed

lemma policy_op_view:
  assumes ok: "policies_ok db" and t: "policy_op_tenant op \<noteq> t"
  shows "tenant_view (apply_policy_op env op db) t = tenant_view db t"
proof -
  let ?t = "policy_op_tenant op" and ?db' = "apply_policy_op env op db"
  consider "?db' = db" | "wrote env ?t db ?db'" | pid where "delete_policy db ?t pid = Inr (True, ?db')"
    | pid where "delete_policy (cleared db ?t pid) ?t pid = Inr (True, ?db')" | rs where "?db' = db\<lparr>pdb_revisions := rs\<rparr>"
    using policy_op_effect [of env op db] by blast
  then show ?thesis
  proof cases
    case 2 then show ?thesis using t by (intro wrote_view [OF ok]) auto
  next
    case (3 pid) then show ?thesis using t by (intro deleted_view [OF ok]) auto
  next
    case (4 pid)
    then show ?thesis using deleted_view [OF policies_ok_cleared [OF ok] 4] t by (simp add: tenant_view_cleared)
  next
    case (5 rs) then show ?thesis by (simp add: tenant_view_def history_def)
  qed simp
qed

lemma run_policies_ok: "policies_ok db \<Longrightarrow> policies_ok (run_policy_ops ops db)"
  by (induction ops arbitrary: db) (auto simp: run_policy_ops_def policy_op_ok)

text \<open>C31. Whatever sequence of creations, updates, rollbacks, deletions and revisions runs against the tables, with whatever
  failures in between, the retained versions of every policy are its newest three numbers without a gap, the newest of
  them holding the columns of the current row; identifiers and names stay unique, no evaluation, decision or version
  refers to a policy that is gone, the generations of a tenant count up from one, and a tenant's policies and versions
  do not change through the operations of others.\<close>

theorem policy_history_kept:
  assumes "policies_ok db" "\<forall>(env, op) \<in> set ops. policy_op_tenant op \<noteq> t"
  shows "policies_ok (run_policy_ops (ops' @ ops) db) \<and>
    tenant_view (run_policy_ops (ops' @ ops) db) t = tenant_view (run_policy_ops ops' db) t"
proof -
  have "tenant_view (run_policy_ops ops d) t = tenant_view d t" if "policies_ok d" for d
    using assms(2) that by (induction ops arbitrary: d) (auto simp: run_policy_ops_def policy_op_ok policy_op_view)
  then show ?thesis using run_policies_ok [OF assms(1), of "ops' @ ops"] run_policies_ok [OF assms(1), of ops'] by (simp add: run_policy_ops_def)
qed

lemma validate_policy_stamped:
  "ValidatePolicy (p\<lparr>pol_version := n, pol_created_at := c, pol_updated_at := u\<rparr>) =
   map_result (\<lambda>q. q\<lparr>pol_version := n, pol_created_at := c, pol_updated_at := u\<rparr>) (ValidatePolicy p)"
  by (auto simp: ValidatePolicy_def Let_def map_result_def split: option.splits sum.splits list.splits)

lemma StoreRollback_Inr:
  assumes "StoreRollback env db t pid n = (Inr p, db')"
  obtains w v config target body row db1 where "w \<in> set (tenant_history db t pid)" "vr_version w = n"
    "scanPolicyVersion (pe_codec env) w = Inr v" "ValidatePolicy (rollbackPolicy t pid v) = Inr (rollbackPolicy t pid v)"
    "pe_marshal_config env (ver_config v) = Inr config" "pe_marshal_target env (ver_target v) = Inr target"
    "encode_body env (rollbackPolicy t pid v) config target = Inr body"
    "update_policy env db t pid body = Inr (Some (row, db1))" "db' = recorded env db1 row"
    "p = (rollbackPolicy t pid v)\<lparr>pol_version := pr_version row, pol_created_at := pr_created_at row,
       pol_updated_at := pr_updated_at row\<rparr>"
proof -
  from assms obtain v q config target row db1 where
    v: "loadRollbackPolicyVersion env db t pid n = Inr v" and q: "ValidatePolicy (rollbackPolicy t pid v) = Inr q"
    and m: "marshalRollbackPolicy env q = Inr (config, target)"
    and u: "updatePolicyForRollback env db q config target = Inr (row, db1)"
    and r: "record_version env ''recording rollback policy version'' db1 row = Inr db'"
    and p: "p = q\<lparr>pol_version := pr_version row, pol_created_at := pr_created_at row, pol_updated_at := pr_updated_at row\<rparr>"
    by (auto simp: StoreRollback_def settle_def transaction_simps split: sum.splits)
  obtain w ws where w: "filter (\<lambda>x. vr_version x = n) (tenant_history db t pid) = w # ws"
    and s: "scanPolicyVersion (pe_codec env) w = Inr v"
    using v by (auto simp: loadRollbackPolicyVersion_def statement_def bind_result_eq_Inr split: option.splits sum.splits list.splits if_splits)
  have q': "q = rollbackPolicy t pid v" using rollback_policy_fixed [OF s q] .
  have "w \<in> set (filter (\<lambda>x. vr_version x = n) (tenant_history db t pid))" by (simp add: w)
  then have w': "w \<in> set (tenant_history db t pid)" "vr_version w = n" by simp_all
  have c: "pol_config q = ver_config v" "pol_target q = ver_target v" "pol_tenant_id q = t" "pol_id q = pid"
    by (simp_all add: q' rollbackPolicy_def)
  obtain body where "encode_body env q config target = Inr body" "update_policy env db t pid body = Inr (Some (row, db1))"
    using u c by (auto simp: updatePolicyForRollback_def transaction_simps split: option.splits)
  with that [of w v config target body row db1] w' s q m r p c show thesis
    by (auto simp: marshalRollbackPolicy_def bind_result_eq_Inr map_result_Inr q' dest: record_version_Inr)
qed

lemma distinct_singleton: "distinct xs \<Longrightarrow> set xs = {r} \<Longrightarrow> xs = [r]"
  by (cases xs) (auto simp: subset_singleton_iff)

lemma updated_row_found:
  assumes "policies_ok db" "update_policy env db t pid body = Inr (Some (row, db1))"
  shows "filter (policy_hit t pid) (pdb_policies db1) = [row]"
proof -
  obtain r where r: "r \<in> set (pdb_policies db)" "policy_hit t pid r"
    and row: "row = r\<lparr>pr_body := body, pr_version := pr_version r + 1, pr_updated_at := pe_now env\<rparr>"
    and db1: "db1 = db\<lparr>pdb_policies := map (\<lambda>x. if policy_hit t pid x then row else x) (pdb_policies db)\<rparr>"
    using update_policy_cases [OF assms(2)] .
  have hit: "policy_hit t pid row" using r(2) by (simp add: row policy_hit_def)
  have "filter (policy_hit t pid) (map (\<lambda>x. if policy_hit t pid x then row else x) xs) =
      map (\<lambda>_. row) (filter (policy_hit t pid) xs)" for xs
    using hit by (induction xs) auto
  moreover have "filter (policy_hit t pid) (pdb_policies db) = [r]"
  proof -
    have "distinct (filter (policy_hit t pid) (pdb_policies db))"
      using assms(1) by (simp add: policies_ok_def distinct_map)
    moreover have "set (filter (policy_hit t pid) (pdb_policies db)) = {r}"
    proof -
      have "x = r" if "x \<in> set (pdb_policies db)" "policy_hit t pid x" for x
        using hit_unique [OF assms(1) that(1) r(1)] that(2) r(2) by (simp add: policy_hit_def)
      with r show ?thesis unfolding set_filter by blast
    qed
    ultimately show ?thesis by (rule distinct_singleton)
  qed
  ultimately show ?thesis by (simp add: db1)
qed


text \<open>A rollback does not recognise a name that another policy has taken meanwhile: an update answers with
  \<open>ErrPolicyNameConflict\<close>, the rollback with an error of no kind. Nothing is written.\<close>

lemma retained_version_unique:
  assumes "policies_ok db" "r \<in> set (pdb_policies db)" "policy_hit t pid r" "w \<in> set (history db pid)"
  shows "filter (\<lambda>v. vr_version v = vr_version w) (tenant_history db t pid) = [w]"
proof (rule distinct_singleton)
  have "retained db r" using assms(1,2) by (simp add: policies_ok_def)
  then have d: "distinct (map vr_version (history db pid))"
    using assms(3) distinct_upto [of "max 1 (pr_version r - 2)" "pr_version r"] by (simp add: retained_def policy_hit_def)
  have h: "tenant_history db t pid = history db pid" using assms(2,3) by (auto simp: tenant_history_def)
  show "distinct (filter (\<lambda>v. vr_version v = vr_version w) (tenant_history db t pid))"
    using d by (simp add: h distinct_map)
  show "set (filter (\<lambda>v. vr_version v = vr_version w) (tenant_history db t pid)) = {w}"
    using d assms(4) by (auto simp: h distinct_map inj_on_def)
qed

lemma rollback_name_conflict:
  assumes ok: "policies_ok db" and quiet: "\<forall>stage. pe_fault env stage = None"
    and r: "r \<in> set (pdb_policies db)" "policy_hit t pid r" "int4 (pr_version r + 1)"
    and w: "w \<in> set (history db pid)" "int4 (vr_version w)" "scanPolicyVersion (pe_codec env) w = Inr v"
      "ValidatePolicy (rollbackPolicy t pid v) = Inr p"
    and m: "pe_marshal_config env (ver_config v) = Inr config" "pe_marshal_target env (ver_target v) = Inr target"
      "encode_body env (rollbackPolicy t pid v) config target = Inr body"
    and taken: "q \<in> set (pdb_policies db)" "pr_tenant_id q = t" "pr_id q \<noteq> pid" "pb_name (pr_body q) = ver_name v"
  shows "\<exists>e. StoreRollback env db t pid (vr_version w) = (Inl e, db) \<and> \<not> errors_is e ErrPolicyNameConflict"
proof -
  have load: "loadRollbackPolicyVersion env db t pid (vr_version w) = Inr v"
    using retained_version_unique [OF ok r(1,2) w(1)] w(2,3)
    by (simp add: loadRollbackPolicyVersion_def statement_def quiet)
  have p: "p = rollbackPolicy t pid v" using rollback_policy_fixed [OF w(3,4)] .
  have mr: "marshalRollbackPolicy env p = Inr (config, target)"
    using m(1,2) by (simp add: marshalRollbackPolicy_def p rollbackPolicy_def map_result_def)
  have body: "pb_name body = ver_name v" using m(3)
    by (auto simp: encode_body_def then_db_def rollbackPolicy_def split: if_splits option.splits sum.splits)
  have "\<exists>e. update_policy env db t pid body = Inl (PgError ''23505'' e)"
  proof -
    obtain x xs where x: "filter (policy_hit t pid) (pdb_policies db) = x # xs"
      using r(1,2) by (cases "filter (policy_hit t pid) (pdb_policies db)") (auto simp: filter_empty_conv)
    then have "x \<in> set (filter (policy_hit t pid) (pdb_policies db))" by simp
    then have "x \<in> set (pdb_policies db)" "policy_hit t pid x" by simp_all
    then have "x = r" using hit_unique [OF ok _ r(1)] r(2) by (simp add: policy_hit_def)
    moreover have "policy_name_key (r\<lparr>pr_body := body, pr_version := pr_version r + 1, pr_updated_at := pe_now env\<rparr>) \<in>
        policy_name_key ` set (filter (\<lambda>x. \<not> policy_hit t pid x) (pdb_policies db))"
    proof (rule image_eqI)
      show "q \<in> set (filter (\<lambda>x. \<not> policy_hit t pid x) (pdb_policies db))" using taken(1,3) by (simp add: policy_hit_def)
      show "policy_name_key (r\<lparr>pr_body := body, pr_version := pr_version r + 1, pr_updated_at := pe_now env\<rparr>) = policy_name_key q"
        using r(2) taken(2,4) body by (simp add: policy_name_key_def policy_hit_def)
    qed
    ultimately show ?thesis using x r(3) by (simp add: update_policy_def Let_def policy_violation_def)
  qed
  then obtain name where u: "update_policy env db t pid body = Inl (PgError ''23505'' name)" by blast
  have "updatePolicyForRollback env db p config target =
      Inl (wrap_error ''updating policy during rollback'' (plain_error (pe_text env (PgError ''23505'' name))))"
    using m(3) u by (simp add: updatePolicyForRollback_def then_db_def p rollbackPolicy_def stage_result_def statement_def quiet
        db_error_value_def bind_result_def)
  then show ?thesis
    using load mr w(4) by (simp add: StoreRollback_def stage_result_def statement_def quiet settle_def bind_result_def)
qed

lemma unreferenced_deleted:
  assumes "r \<in> set (pdb_policies db)" "policy_hit t pid r" "Some pid \<notin> policy_refs db"
  shows "\<exists>db'. delete_policy db t pid = Inr (True, db') \<and> history db' pid = [] \<and> policy_refs db' = policy_refs db"
proof -
  have "\<exists>r \<in> set (pdb_policies db). policy_hit t pid r" using assms(1,2) by blast
  moreover have "Some pid \<notin> oc_policy_id ` set (pdb_evaluations db)" "Some pid \<notin> rr_policy_id ` set (pdb_reasons db)"
    "Some pid \<notin> oc_policy_id ` set (pdb_decisions db)"
    using assms(3) by (simp_all add: policy_refs_def)
  ultimately show ?thesis by (simp add: delete_policy_def history_def policy_refs_def)
qed

text \<open>A forced deletion succeeds when everything that refers to the policy belongs to its tenant, and leaves no version of
  it and no reference to it.\<close>

lemma forced_delete_clears:
  assumes quiet: "\<forall>stage. pe_fault env stage = None" and r: "r \<in> set (pdb_policies db)" "policy_hit t pid r"
    and own: "\<forall>e \<in> set (pdb_evaluations db) \<union> set (pdb_decisions db). oc_policy_id e = Some pid \<longrightarrow> oc_tenant_id e = t"
      "\<forall>x \<in> set (pdb_reasons db). rr_policy_id x = Some pid \<longrightarrow>
         (\<exists>e \<in> set (pdb_evaluations db). oc_id e = rr_evaluation_id x \<and> oc_tenant_id e = t)"
  shows "\<exists>db'. StoreDelete env db t pid True = (Inr (), db') \<and> history db' pid = [] \<and> Some pid \<notin> policy_refs db'"
proof -
  let ?db = "cleared db t pid"
  have outcomes: "Some pid \<notin> oc_policy_id ` set (clear_outcomes t pid es)"
    if "\<forall>e \<in> set es. oc_policy_id e = Some pid \<longrightarrow> oc_tenant_id e = t" for es
    using that by (auto simp: clear_outcomes_def split: if_splits)
  have keep: "\<exists>e' \<in> set (clear_outcomes t pid es). oc_id e' = oc_id e \<and> oc_tenant_id e' = oc_tenant_id e" if "e \<in> set es" for e es
    using that unfolding clear_outcomes_def by (induction es) auto
  have "\<exists>e' \<in> set (clear_outcomes t pid (pdb_evaluations db)). oc_id e' = rr_evaluation_id x \<and> oc_tenant_id e' = t"
    if x: "x \<in> set (pdb_reasons db)" "rr_policy_id x = Some pid" for x
  proof -
    obtain e where "e \<in> set (pdb_evaluations db)" "oc_id e = rr_evaluation_id x" "oc_tenant_id e = t" using own(2) x by blast
    with keep [of e "pdb_evaluations db"] show ?thesis by simp
  qed
  then have reasons: "Some pid \<notin> rr_policy_id ` set (clear_reasons (clear_outcomes t pid (pdb_evaluations db)) t pid (pdb_reasons db))"
    unfolding clear_reasons_def by (fastforce split: if_splits)
  have none: "Some pid \<notin> policy_refs ?db"
    using own(1) reasons outcomes [of "pdb_evaluations db"] outcomes [of "pdb_decisions db"]
    by (simp add: policy_refs_def cleared_def Let_def)
  have "r \<in> set (pdb_policies ?db)" using r(1) by (simp add: cleared_def Let_def)
  from unreferenced_deleted [OF this r(2) none] obtain db' where
    del: "delete_policy ?db t pid = Inr (True, db')" "history db' pid = []" "policy_refs db' = policy_refs ?db" by blast
  then have "forceDelete env db t pid = (Inr (), db')"
    by (simp add: forceDelete_def stage_result_def statement_def quiet settle_def cleared_def Let_def)
  with del(2,3) none show ?thesis by (auto simp: StoreDelete_def)
qed

section \<open>Witnesses\<close>

definition sample_policy_env :: "string \<Rightarrow> time \<Rightarrow> policy_env" where
  "sample_policy_env uid now =
     \<lparr>pe_uuid = uid, pe_now = now, pe_codec = sample_codec, pe_marshal_config = (\<lambda>_. Inr ''{..}''),
      pe_marshal_target = (\<lambda>_. Inr ''null''), pe_jsonb = (\<lambda>t. Some t), pe_fault = (\<lambda>_. None), pe_text = (\<lambda>_. [])\<rparr>"

definition empty_policies :: policy_db where
  "empty_policies = \<lparr>pdb_tenants = [''t1'', ''t2''], pdb_upstreams = [], pdb_policies = [], pdb_versions = [],
     pdb_evaluations = [], pdb_decisions = [], pdb_reasons = [], pdb_revisions = []\<rparr>"

definition stored_policy :: "string \<Rightarrow> policy" where
  "stored_policy name = (sample_policy name 1 PolicyTypeBlocklist (blocklist_config [''evil''] False))\<lparr>pol_id := ''p''\<rparr>"

definition sample_policy_ops :: "(policy_env \<times> policy_op) list" where
  "sample_policy_ops =
     [(sample_policy_env ''p'' 1, CreatePolicyOp (stored_policy ''a'')), (sample_policy_env [] 2, UpdatePolicyOp (stored_policy ''b'')),
      (sample_policy_env [] 3, UpdatePolicyOp (stored_policy ''c'')), (sample_policy_env [] 4, UpdatePolicyOp (stored_policy ''d''))]"

definition sample_policies :: policy_db where "sample_policies = run_policy_ops sample_policy_ops empty_policies"

lemma empty_policies_ok: "policies_ok empty_policies"
  by (simp add: policies_ok_def empty_policies_def policy_refs_def tenant_generations_def)

theorem policy_history_kept_witness:
  "tenant_view (run_policy_ops (sample_policy_ops @ [(sample_policy_env [] 5, DeletePolicyOp ''t2'' ''p'' True)]) empty_policies) ''t1'' =
     tenant_view sample_policies ''t1'' \<and> map vr_version (history sample_policies ''p'') = [2, 3, 4]"
proof -
  have "map vr_version (history sample_policies ''p'') = [2, 3, 4]" by code_simp
  with conjunct2 [OF policy_history_kept [OF empty_policies_ok,
        of "[(sample_policy_env [] 5, DeletePolicyOp ''t2'' ''p'' True)]" "''t1''" sample_policy_ops]]
  show ?thesis by (simp add: sample_policies_def)
qed


text \<open>In these tables a policy that takes the name of the second version keeps the first from being restored to it.\<close>

lemma rollback_conflict_sample:
  "\<exists>e. fst (StoreRollback (sample_policy_env [] 7)
       (run_policy_ops [(sample_policy_env ''q'' 5, CreatePolicyOp (stored_policy ''b''))] sample_policies) ''t1'' ''p'' 2) = Inl e \<and>
     \<not> errors_is e ErrPolicyNameConflict"
proof -
  have "case fst (StoreRollback (sample_policy_env [] 7)
       (run_policy_ops [(sample_policy_env ''q'' 5, CreatePolicyOp (stored_policy ''b''))] sample_policies) ''t1'' ''p'' 2) of
      Inl e \<Rightarrow> err_is e = [] | Inr _ \<Rightarrow> False" by code_simp
  then show ?thesis by (auto simp: errors_is_def split: sum.splits)
qed

end
