(* ===== verification/Spec2Isabelle.thy ===== *)
theory Spec2Isabelle
  imports Bundle_Service Wire_Client Oci_Cache Npm_Proxy Oci_Proxy Upstream_Clients Policy_Documents Enrichers Start_Up Policy_Store
begin

text \<open>
  A verification library for the dependency firewall, a proxy in front of npm and OCI registries that
  evaluates tenant policies on every artifact request (Go sources under \<open>src/internal\<close>). A control
  plane owns tenants, policies, upstreams and dependency graphs; proxies fetch tenant bundles from it,
  answer npm and OCI clients, and report decisions, audit events and install snapshots back to it.

  \<^bold>\<open>Parts of the program and where they are modelled.\<close>

  \<^item> \<open>Go_Prelude\<close>, \<open>Go_Float\<close>, \<open>Go_Path\<close>, \<open>Go_Time\<close>, \<open>Go_Json\<close>: what the sources use of the Go
    standard library: ASCII string functions, decimal and quoted text, seen-map loops, stable sorting,
    binary64 rounding, lexical paths, RFC 3339 times, and the assignments \<open>encoding/json\<close> makes.
    \<open>Domain_Errors\<close>: error values with their sentinels (\<open>core/domain/errors.go\<close>).
  \<^item> \<open>Domain_Artifact\<close>, \<open>Domain_Upstream\<close>, \<open>Domain_Dependency\<close>, \<open>Policy_Config\<close>: the domain model of
    \<open>core/domain\<close>: identities and their normalization, upstream capabilities, dependency contexts,
    policies with typed configurations and targets, decisions.
  \<^item> \<open>Policy_Conditions\<close>, \<open>Policy_Catalog\<close>, \<open>Policy_Evaluator\<close>, \<open>Policy_Documents\<close>: the policy engine
    of \<open>core/policy\<close>: the ten conditions, the catalog with validation and the policy-set hash, the
    evaluator, and the decoding of configurations and policy documents.
  \<^item> \<open>Audit_Service\<close>, \<open>Enrichment_Service\<close>, \<open>Access_Service\<close>: the request pipeline of \<open>core/service\<close>
    with its audit trail, metadata enrichment and dependency context. \<open>Enrichers\<close>: its sources of
    evidence, the npm registry, OSV, Scorecard and their composite (\<open>infra/npm\<close>, \<open>osv\<close>, \<open>scorecard\<close>,
    \<open>enrichment\<close>). \<open>Valkey_Caches\<close>: the caches it reads and fills (\<open>infra/valkey\<close>).
  \<^item> \<open>Control_Plane\<close>, \<open>Bundle_Service\<close>: the management services (policies, upstreams, tenants, cache
    maintenance) and the tenant bundles with the cache a proxy keeps of them.
  \<^item> \<open>Npm_Graph\<close>, \<open>Graph_Store\<close>, \<open>Graph_Jobs\<close>, \<open>Graph_Worker\<close>: the resolver of npm lockfiles
    (\<open>infra/npmgraph\<close>), the job queue and graph tables (\<open>infra/postgres/dependency_graph.go\<close>), their
    runs as a refinement of an abstract job table, and the worker with its notifier.
  \<^item> \<open>Ingest_Service\<close>, \<open>Wire_Ingest\<close>, \<open>Wire_Client\<close>: what proxies report (decisions, audit events,
    install snapshots, graph jobs), the messages and handlers of the protocol with the authorization of
    clients, and the client adapters.
  \<^item> \<open>Proxy_Paths\<close>, \<open>Proxy_Flow\<close>, \<open>Npm_Proxy\<close>, \<open>Oci_Proxy\<close>: the HTTP handlers of the two proxies.
    \<open>Upstream_Clients\<close>: the registry clients and the bearer-token cache (\<open>infra/upstream\<close>).
    \<open>Oci_Paths\<close>, \<open>Oci_Client\<close>, \<open>Oci_Cache\<close>: the disk cache of OCI artifacts and the caching client.
  \<^item> \<open>Secret_Envelopes\<close>, \<open>Upstream_Store\<close>, \<open>Bundle_Wire\<close>: the encryption envelopes of upstream secrets
    (\<open>infra/secrets\<close>), the table of upstreams (\<open>infra/postgres/upstream.go\<close>) and the bundle protocol
    that carries a secret to one proxy (\<open>delivery/bundlegrpc\<close>, \<open>wire/bundlegrpc\<close>).
  \<^item> \<open>Runtime_Config\<close>: the validation of the configuration of a process (\<open>config/config.go\<close>).

  \<^bold>\<open>How the model corresponds to the code.\<close> A Go struct is a record, a closed enumeration a datatype, a
  string-typed enumeration a string (its empty value is meaningful), an interface value an option over
  a datatype of its dynamic types, and a slice whose nil differs from empty an option. A fallible
  function returns \<^typ>\<open>go_error + 'a\<close>; a method that rewrites its receiver returns the new receiver.
  Services are state transformers over an arbitrary world; repositories, caches, clients, the clock
  and the context are ports of that world. SQL tables are lists of rows, and a statement is the function
  it denotes on them with the keys, checks and cascades of the schema. Every function keeps its Go name
  where it is free, with a suffix or prefix where several methods share it (\<open>ValidateScorecard\<close> is
  \<open>ScorecardPolicyConfig.Validate\<close>). Numbers of type \<open>int\<close> and nanosecond times are integers;
  \<open>time.Since\<close> saturates as in Go; a finite \<open>float64\<close> is a rational and NaN is not represented. Strings
  are ASCII in case mapping and trimming.

  \<^bold>\<open>Parameters.\<close> Digests, ciphers and key agreement, the JSON, YAML, gzip and base64 codecs, \<open>url.Parse\<close>,
  the HTTP transport and the gRPC connection, the faults of the file system and the database, the run
  of npm, and all ports are arguments. The theorems hold for every choice of them, or name the
  documented behaviour they use as a hypothesis (\<open>valkey_ok\<close>, \<open>codec_ok\<close>, \<open>hybrid_laws\<close>), which a
  witness instantiates.

  \<^bold>\<open>Loops.\<close> No definition needs fuel. Most loops are structural over a list; the others have a measure:
  the queue of \<open>depth_loop\<close> (its relaxations lower bounded depths), the length of the path in
  \<open>resolve_dir_loop\<close>, of the rest of the text in \<open>split_str\<close> and \<open>challenge_params\<close>, the number of taken
  names in \<open>free_temp\<close>.

  \<^bold>\<open>Interfaces as locales.\<close> \<open>float_rounding\<close> (what the age conditions need of floating point,
  interpreted on binary64), \<open>validated_form\<close> (validation is idempotent, interpreted on configurations,
  targets, policies and policy sets), \<open>condition_contract\<close> (what the evaluator needs of a condition,
  interpreted on all ten), \<open>generation_keys\<close> (cache keys that change with a generation, interpreted on
  the decision and the metadata cache), \<open>artifact_writer\<close> (what the filling reader needs of a cache
  writer, interpreted on the disk cache).

  \<^bold>\<open>What is shown.\<close> Normalization and keys of artifacts; capability and context normal forms; exactness
  of the age conditions and soundness of the vulnerability, license and Scorecard conditions; soundness
  of the catalog; deny-wins, dry-run and error freedom of the evaluator; provenance of decisions,
  fail-closed behaviour, the possible errors and the cache discipline of the pipeline; which evidence
  reaches it; that the proxies fetch only what was allowed and answer every request once; the scope of
  tokens and secrets; separation, limits and crash behaviour of the disk cache; the graph store as an
  abstract job table, exclusive claims and well-formed graphs; that the remote protocols return what
  the local services return; and typed, validated configurations and documents.

  \<^bold>\<open>Not modelled.\<close> Tracing and logging, the management HTTP API (\<open>delivery/api\<close>: request mapping over
  the modelled services by a code-generating framework), the SQL of the tables other than upstreams and
  dependency graphs, the wiring of processes (\<open>bootstrap\<close>), health probes, and the web console.
\<close>

section \<open>Properties across components\<close>



end
